(* ===== verification/Prelude.thy ===== *)
theory Prelude
  imports Main "HOL-Library.AList" "HOL-Library.Sublist" "HOL-Library.Multiset"
begin

text \<open>
  The vocabulary every component shares: the exceptions the program raises, pure computations
  that may raise (\<open>'a res\<close>), computations that also read and write a state (\<open>('s, 'a) py\<close>), the
  loops the code writes (\<open>for\<close> with and without \<open>break\<close>), and the two reasoning principles the
  components use on them: frame relations between the state before and after a computation
  (locale \<open>frame\<close>) and facts about the value a computation returns.
\<close>

section \<open>Exceptions and results\<close>

datatype exn =
    KeyError | IndexError | TypeError | ValueError | AttributeError | NameError
  | ZeroDivisionError | AssertionError | RuntimeError | OSError | EOFError
  | RecordNotFound | RecordDeleted | RevConflict | PreconditionsException
  | IndexNotFound | NoSectionError | NoOptionError | HTTPError int | UserError string

type_synonym 'a res = "exn + 'a"

abbreviation Ok :: "'a \<Rightarrow> 'a res" where "Ok \<equiv> Inr"
abbreviation Err :: "exn \<Rightarrow> 'a res" where "Err \<equiv> Inl"

definition rbind :: "'a res \<Rightarrow> ('a \<Rightarrow> 'b res) \<Rightarrow> 'b res" where
  "rbind m f = (case m of Inl e \<Rightarrow> Inl e | Inr x \<Rightarrow> f x)"

definition rcatch :: "'a res \<Rightarrow> (exn \<Rightarrow> 'a res) \<Rightarrow> 'a res" where
  "rcatch m h = (case m of Inl e \<Rightarrow> h e | Inr x \<Rightarrow> Inr x)"

definition is_ok :: "'a res \<Rightarrow> bool" where
  "is_ok m = (case m of Inl _ \<Rightarrow> False | Inr _ \<Rightarrow> True)"

named_theorems py_simps "evaluation rules of the result and state-exception monads"

lemma rbind_simps [simp, py_simps]:
  "rbind (Inl e) f = Inl e" "rbind (Inr x) f = f x"
  by (simp_all add: rbind_def)

lemma rcatch_simps [simp, py_simps]:
  "rcatch (Inl e) h = h e" "rcatch (Inr x) h = Inr x"
  by (simp_all add: rcatch_def)

lemma is_ok_simps [simp]: "\<not> is_ok (Inl e)" "is_ok (Inr x)"
  by (simp_all add: is_ok_def)

lemma rbind_eq_Inr: "(rbind m f = Inr y) = (\<exists>x. m = Inr x \<and> f x = Inr y)"
  by (cases m) auto

lemma rbind_assoc: "rbind (rbind m f) g = rbind m (\<lambda>x. rbind (f x) g)"
  by (cases m) auto

text \<open>A list comprehension whose body may raise: the first exception ends it.\<close>

fun mapr :: "('a \<Rightarrow> 'b res) \<Rightarrow> 'a list \<Rightarrow> 'b list res" where
  "mapr f [] = Inr []"
| "mapr f (x # xs) = rbind (f x) (\<lambda>y. rbind (mapr f xs) (\<lambda>ys. Inr (y # ys)))"

fun filterr :: "('a \<Rightarrow> bool res) \<Rightarrow> 'a list \<Rightarrow> 'a list res" where
  "filterr p [] = Inr []"
| "filterr p (x # xs) =
     rbind (p x) (\<lambda>b. rbind (filterr p xs) (\<lambda>ys. Inr (if b then x # ys else ys)))"

fun foldr_res :: "('x \<Rightarrow> 'a \<Rightarrow> 'a res) \<Rightarrow> 'x list \<Rightarrow> 'a \<Rightarrow> 'a res" where
  "foldr_res f [] a = Inr a"
| "foldr_res f (x # xs) a = rbind (f x a) (foldr_res f xs)"

lemma mapr_Inr_pure: "(\<And>x. x \<in> set xs \<Longrightarrow> f x = Inr (g x)) \<Longrightarrow> mapr f xs = Inr (map g xs)"
  by (induction xs) auto

lemma filterr_Inr_pure:
  "(\<And>x. x \<in> set xs \<Longrightarrow> p x = Inr (q x)) \<Longrightarrow> filterr p xs = Inr (filter q xs)"
  by (induction xs) auto

section \<open>State and exceptions\<close>

type_synonym ('s, 'a) py = "'s \<Rightarrow> 'a res \<times> 's"

definition ret :: "'a \<Rightarrow> ('s, 'a) py" where
  "ret x = (\<lambda>s. (Inr x, s))"

definition raise :: "exn \<Rightarrow> ('s, 'a) py" where
  "raise e = (\<lambda>s. (Inl e, s))"

definition bnd :: "('s, 'a) py \<Rightarrow> ('a \<Rightarrow> ('s, 'b) py) \<Rightarrow> ('s, 'b) py" where
  "bnd m f = (\<lambda>s. case m s of (Inl e, s') \<Rightarrow> (Inl e, s') | (Inr x, s') \<Rightarrow> f x s')"

definition catch :: "('s, 'a) py \<Rightarrow> (exn \<Rightarrow> ('s, 'a) py) \<Rightarrow> ('s, 'a) py" where
  "catch m h = (\<lambda>s. case m s of (Inl e, s') \<Rightarrow> h e s' | (Inr x, s') \<Rightarrow> (Inr x, s'))"

definition liftr :: "'a res \<Rightarrow> ('s, 'a) py" where
  "liftr r = (\<lambda>s. (r, s))"

definition gets :: "('s \<Rightarrow> 'a) \<Rightarrow> ('s, 'a) py" where
  "gets f = (\<lambda>s. (Inr (f s), s))"

definition modify :: "('s \<Rightarrow> 's) \<Rightarrow> ('s, unit) py" where
  "modify f = (\<lambda>s. (Inr (), f s))"

definition whenp :: "bool \<Rightarrow> ('s, unit) py \<Rightarrow> ('s, unit) py" where
  "whenp b m = (if b then m else ret ())"

text \<open>\<open>for x in xs: body\<close>, without and with \<open>break\<close> (the body's flag) and an accumulator.\<close>

fun for_each :: "'x list \<Rightarrow> ('x \<Rightarrow> ('s, unit) py) \<Rightarrow> ('s, unit) py" where
  "for_each [] f = ret ()"
| "for_each (x # xs) f = bnd (f x) (\<lambda>_. for_each xs f)"

datatype 'a ctl = Go 'a | Brk 'a

fun for_acc :: "'x list \<Rightarrow> 'a \<Rightarrow> ('x \<Rightarrow> 'a \<Rightarrow> ('s, 'a ctl) py) \<Rightarrow> ('s, 'a) py" where
  "for_acc [] a f = ret a"
| "for_acc (x # xs) a f =
     bnd (f x a) (\<lambda>c. case c of Go a' \<Rightarrow> for_acc xs a' f | Brk a' \<Rightarrow> ret a')"

lemma ret_run [py_simps]: "ret x s = (Inr x, s)"
  by (simp add: ret_def)

lemma raise_run [py_simps]: "raise e s = (Inl e, s)"
  by (simp add: raise_def)

lemma bnd_run [py_simps]:
  "bnd m f s = (case m s of (Inl e, s') \<Rightarrow> (Inl e, s') | (Inr x, s') \<Rightarrow> f x s')"
  by (simp add: bnd_def)

lemma catch_ret_ok: "\<exists>v s'. catch m (\<lambda>_. ret y) s = (Inr v, s')"
  by (cases "m s"; cases "fst (m s)") (auto simp: catch_def ret_def)

lemma catch_run [py_simps]:
  "catch m h s = (case m s of (Inl e, s') \<Rightarrow> h e s' | (Inr x, s') \<Rightarrow> (Inr x, s'))"
  by (simp add: catch_def)

lemma liftr_run [py_simps]: "liftr r s = (r, s)"
  by (simp add: liftr_def)

lemma gets_run [py_simps]: "gets f s = (Inr (f s), s)"
  by (simp add: gets_def)

lemma modify_run [py_simps]: "modify f s = (Inr (), f s)"
  by (simp add: modify_def)

lemma whenp_run [py_simps]: "whenp b m s = (if b then m s else (Inr (), s))"
  by (simp add: whenp_def ret_def)

lemma bnd_ret [simp]: "bnd (ret x) f = f x"
  by (simp add: bnd_def ret_def)

lemma bnd_Inr: "m s = (Inr x, t) \<Longrightarrow> bnd m f s = f x t"
  by (simp add: bnd_def)

lemma bnd_Inl: "m s = (Inl e, t) \<Longrightarrow> bnd m f s = (Inl e, t)"
  by (simp add: bnd_def)

lemma bnd_assoc: "bnd (bnd m f) g = bnd m (\<lambda>x. bnd (f x) g)"
  by (auto simp: bnd_def fun_eq_iff split: prod.splits sum.splits)

lemma bnd_okE:
  assumes "bnd m f s = (Inr y, t)"
  obtains x s' where "m s = (Inr x, s')" and "f x s' = (Inr y, t)"
  using assms by (auto simp: bnd_def split: prod.splits sum.splits)

text \<open>What holds of the accumulator along a loop holds of its result.\<close>

lemma for_acc_inv:
  assumes step: "\<And>x a s c s'. x \<in> set xs \<Longrightarrow> P a \<Longrightarrow> f x a s = (Inr c, s') \<Longrightarrow>
      (case c of Go a' \<Rightarrow> P a' | Brk a' \<Rightarrow> Q a')"
    and PQ: "\<And>a. P a \<Longrightarrow> Q a" and init: "P a" and run: "for_acc xs a f s = (Inr r, s')"
  shows "Q r"
  using step init run
proof (induction xs arbitrary: a s)
  case Nil
  then show ?case using PQ by (simp add: ret_def)
next
  case (Cons x xs)
  from Cons.prems(3) obtain c t where c: "f x a s = (Inr c, t)"
    and rest: "(case c of Go a' \<Rightarrow> for_acc xs a' f | Brk a' \<Rightarrow> ret a') t = (Inr r, s')"
    by (auto elim!: bnd_okE)
  from Cons.prems(1) [OF _ Cons.prems(2) c] have pc: "case c of Go a' \<Rightarrow> P a' | Brk a' \<Rightarrow> Q a'" by simp
  show ?case
  proof (cases c)
    case (Go a')
    show ?thesis
    proof (rule Cons.IH [of a' t])
      show "case c of Go a \<Rightarrow> P a | Brk a \<Rightarrow> Q a"
        if "y \<in> set xs" "P b" "f y b u = (Inr c, u')" for y b u c u'
        using Cons.prems(1) [OF _ that(2,3)] that(1) by simp
    qed (use pc rest Go in simp_all)
  next
    case (Brk a')
    with pc rest show ?thesis by (simp add: ret_def)
  qed
qed

section \<open>Frames: what a computation may change\<close>

text \<open>
  \<open>keeps R m\<close>: whatever \<open>m\<close> does, and whether it returns or raises, the state after it is in
  relation \<open>R\<close> to the state before. For a reflexive and transitive \<open>R\<close> the property follows the
  structure of the computation; the locale proves that once for all relations.
\<close>

definition keeps :: "('s \<Rightarrow> 's \<Rightarrow> bool) \<Rightarrow> ('s, 'a) py \<Rightarrow> bool" where
  "keeps R m \<longleftrightarrow> (\<forall>s. R s (snd (m s)))"

lemma keepsD: "keeps R m \<Longrightarrow> R s (snd (m s))"
  by (simp add: keeps_def)

lemma keepsI: "(\<And>s. R s (snd (m s))) \<Longrightarrow> keeps R m"
  by (simp add: keeps_def)

lemma keeps_if: "keeps R m \<Longrightarrow> keeps R n \<Longrightarrow> keeps R (if b then m else n)"
  by simp

lemma keeps_cond: "(b \<Longrightarrow> keeps R m) \<Longrightarrow> (\<not> b \<Longrightarrow> keeps R n) \<Longrightarrow> keeps R (if b then m else n)"
  by simp

locale frame =
  fixes R :: "'s \<Rightarrow> 's \<Rightarrow> bool"
  assumes frame_refl: "R s s"
    and frame_trans: "R s t \<Longrightarrow> R t u \<Longrightarrow> R s u"
begin

lemma keeps_ret: "keeps R (ret x)"
  by (simp add: keeps_def ret_def frame_refl)

lemma keeps_raise: "keeps R (raise e)"
  by (simp add: keeps_def raise_def frame_refl)

lemma keeps_liftr: "keeps R (liftr r)"
  by (simp add: keeps_def liftr_def frame_refl)

lemma keeps_gets: "keeps R (gets f)"
  by (simp add: keeps_def gets_def frame_refl)

lemma keeps_modify: "(\<And>s. R s (f s)) \<Longrightarrow> keeps R (modify f)"
  by (simp add: keeps_def modify_def)

lemma keeps_bnd:
  assumes m: "keeps R m" and f: "\<And>x. keeps R (f x)"
  shows "keeps R (bnd m f)"
proof (rule keepsI)
  fix s
  obtain r s' where ms: "m s = (r, s')" by (cases "m s")
  from m have 1: "R s s'" using ms by (auto simp: keeps_def dest: spec [of _ s])
  show "R s (snd (bnd m f s))"
  proof (cases r)
    case (Inl e)
    with ms 1 show ?thesis by (simp add: bnd_def)
  next
    case (Inr x)
    from f [of x] have "R s' (snd (f x s'))" by (rule keepsD)
    with ms 1 Inr show ?thesis by (auto simp: bnd_def intro: frame_trans)
  qed
qed

lemma keeps_catch:
  assumes m: "keeps R m" and h: "\<And>e. keeps R (h e)"
  shows "keeps R (catch m h)"
proof (rule keepsI)
  fix s
  obtain r s' where ms: "m s = (r, s')" by (cases "m s")
  from m have 1: "R s s'" using ms by (auto simp: keeps_def dest: spec [of _ s])
  show "R s (snd (catch m h s))"
  proof (cases r)
    case (Inl e)
    from h [of e] have "R s' (snd (h e s'))" by (rule keepsD)
    with ms 1 Inl show ?thesis by (auto simp: catch_def intro: frame_trans)
  next
    case (Inr x)
    with ms 1 show ?thesis by (simp add: catch_def)
  qed
qed

lemma keeps_whenp: "keeps R m \<Longrightarrow> keeps R (whenp b m)"
  by (simp add: whenp_def keeps_ret)

lemma keeps_for_each: "(\<And>x. keeps R (f x)) \<Longrightarrow> keeps R (for_each xs f)"
  by (induction xs) (auto intro: keeps_ret keeps_bnd)

lemma keeps_for_acc: "(\<And>x a. keeps R (f x a)) \<Longrightarrow> keeps R (for_acc xs a f)"
  by (induction xs arbitrary: a) (auto intro!: keeps_ret keeps_bnd split: ctl.split)

lemma keeps_for_acc_mem: "(\<And>x a. x \<in> set xs \<Longrightarrow> keeps R (f x a)) \<Longrightarrow> keeps R (for_acc xs a f)"
  by (induction xs arbitrary: a) (auto intro!: keeps_ret keeps_bnd split: ctl.split)

text \<open>After a pure computation only its actual result matters.\<close>

lemma keeps_liftr_bnd: "(\<And>x. r = Inr x \<Longrightarrow> keeps R (f x)) \<Longrightarrow> keeps R (bnd (liftr r) f)"
  by (cases r) (simp_all add: keeps_def bnd_def liftr_def frame_refl)

lemma keeps_bnd_result:
  assumes "keeps R m" "\<And>x s t. m s = (Inr x, t) \<Longrightarrow> keeps R (f x)"
  shows "keeps R (bnd m f)"
proof (rule keepsI)
  fix s
  obtain r t where m: "m s = (r, t)" by fastforce
  with keepsD [OF assms(1), of s] have "R s t" by simp
  with m assms(2) [of s _ t] show "R s (snd (bnd m f s))"
    by (cases r) (auto simp: bnd_def intro: frame_trans dest: keepsD)
qed

lemmas keeps_intros =
  keeps_ret keeps_raise keeps_liftr keeps_gets keeps_bnd keeps_catch keeps_whenp
  keeps_for_each keeps_for_acc

end

text \<open>Computations that only read: the relation is equality.\<close>

interpretation ro: frame "(=)"
  by unfold_locales auto

lemma keeps_eqD: "keeps (=) m \<Longrightarrow> m s = (r, t) \<Longrightarrow> t = s"
  by (metis keepsD snd_conv)

section \<open>Lists\<close>

text \<open>Python's stable sort, ascending and with \<open>reverse = True\<close> (which keeps equal elements in
  their original order).\<close>

definition sorted_by :: "('a \<Rightarrow> 'k::linorder) \<Rightarrow> 'a list \<Rightarrow> 'a list" where
  "sorted_by k xs = sort_key k xs"

definition sorted_by_rev :: "('a \<Rightarrow> 'k::linorder) \<Rightarrow> 'a list \<Rightarrow> 'a list" where
  "sorted_by_rev k xs = rev (sort_key k (rev xs))"

lemma mset_sorted_by [simp]: "mset (sorted_by k xs) = mset xs"
  by (simp add: sorted_by_def)

lemma mset_sorted_by_rev [simp]: "mset (sorted_by_rev k xs) = mset xs"
  by (simp add: sorted_by_rev_def)

lemma set_sorted_by [simp]: "set (sorted_by k xs) = set xs" "set (sorted_by_rev k xs) = set xs"
  by (simp_all add: sorted_by_def sorted_by_rev_def)

text \<open>The first element a test accepts (the helper \<open>find\<close> and every search loop with \<open>break\<close>).\<close>

fun first_such :: "('a \<Rightarrow> bool) \<Rightarrow> 'a list \<Rightarrow> 'a option" where
  "first_such p [] = None"
| "first_such p (x # xs) = (if p x then Some x else first_such p xs)"

lemma first_such_Some: "first_such p xs = Some x \<Longrightarrow> x \<in> set xs \<and> p x"
  by (induction xs) (auto split: if_splits)

lemma first_such_None: "first_such p xs = None \<longleftrightarrow> (\<forall>x \<in> set xs. \<not> p x)"
  by (induction xs) auto

text \<open>Removing later duplicates keeps the first occurrence of each element.\<close>

fun dedup :: "'a list \<Rightarrow> 'a list \<Rightarrow> 'a list" where
  "dedup seen [] = []"
| "dedup seen (x # xs) = (if x \<in> set seen then dedup seen xs else x # dedup (x # seen) xs)"

lemma set_dedup: "set (dedup seen xs) = set xs - set seen"
  by (induction xs arbitrary: seen) auto

lemma distinct_dedup: "distinct (dedup seen xs)"
  by (induction xs arbitrary: seen) (auto simp: set_dedup)

lemma dedup_cong: "set seen = set seen' \<Longrightarrow> dedup seen xs = dedup seen' xs"
proof (induction xs arbitrary: seen seen')
  case Nil
  show ?case by simp
next
  case (Cons x xs)
  have "dedup seen xs = dedup seen' xs" by (rule Cons.IH) (rule Cons.prems)
  moreover have "dedup (x # seen) xs = dedup (x # seen') xs"
    by (rule Cons.IH) (simp add: Cons.prems)
  ultimately show ?case using Cons.prems by simp
qed

lemma dedup_distinct: "distinct xs \<Longrightarrow> set xs \<inter> set seen = {} \<Longrightarrow> dedup seen xs = xs"
  by (induction xs arbitrary: seen) auto

lemma subseq_dedup: "subseq (dedup seen xs) xs"
  by (induction xs arbitrary: seen) auto

end
