(* ===== verification/PyStr.thy ===== *)
theory PyStr
  imports Prelude "HOL-Library.Char_ord"
begin

text \<open>
  Python's strings. A \<open>char\<close> of HOL is one of 256 values; it stands for the code point of that
  number, so the model's strings are Python's strings over Latin-1. On them the string methods,
  \<open>unicodedata\<close>'s decompositions (tables of the Latin-1 block) and \<open>re.split\<close> on \<open>\W+\<close> compute
  what CPython computes; \<open>simplifyString\<close> and \<open>toSafeString\<close> of core/helpers/encoding.py are
  translated on top of them.
\<close>

section \<open>Character classes\<close>

definition cp :: "char \<Rightarrow> nat" where
  "cp c = of_char c"

definition is_lower_az :: "char \<Rightarrow> bool" where
  "is_lower_az c = (97 \<le> cp c \<and> cp c \<le> 122)"

definition is_upper_az :: "char \<Rightarrow> bool" where
  "is_upper_az c = (65 \<le> cp c \<and> cp c \<le> 90)"

definition is_digit :: "char \<Rightarrow> bool" where
  "is_digit c = (48 \<le> cp c \<and> cp c \<le> 57)"

definition is_letter :: "char \<Rightarrow> bool" where
  "is_letter c = (is_lower_az c \<or> is_upper_az c)"

text \<open>The class \<open>\w\<close> of \<open>re\<close> and \<open>str.isspace\<close>, on code points below 256.\<close>

definition is_word :: "char \<Rightarrow> bool" where
  "is_word c = (is_letter c \<or> is_digit c \<or> cp c = 95 \<or>
     cp c \<in> {170, 178, 179, 181, 185, 186, 188, 189, 190} \<or>
     192 \<le> cp c \<and> cp c \<noteq> 215 \<and> cp c \<noteq> 247)"

definition is_space :: "char \<Rightarrow> bool" where
  "is_space c = (9 \<le> cp c \<and> cp c \<le> 13 \<or> 28 \<le> cp c \<and> cp c \<le> 32 \<or> cp c = 133 \<or> cp c = 160)"

definition lower_char :: "char \<Rightarrow> char" where
  "lower_char c =
     (if is_upper_az c \<or> 192 \<le> cp c \<and> cp c \<le> 222 \<and> cp c \<noteq> 215
      then char_of (cp c + 32) else c)"

definition upper_char_az :: "char \<Rightarrow> char" where
  "upper_char_az c = (if is_lower_az c then char_of (cp c - 32) else c)"

definition lower :: "string \<Rightarrow> string" where
  "lower s = map lower_char s"

lemma cp_lt_256 [simp]: "cp c < 256"
  by (cases c) (simp add: cp_def)

lemma cp_char_of [simp]: "n < 256 \<Longrightarrow> cp (char_of n) = n"
  by (simp add: cp_def)

lemma lower_char_idem [simp]: "lower_char (lower_char c) = lower_char c"
  by (auto simp: lower_char_def is_upper_az_def)

lemma lower_idem [simp]: "lower (lower s) = lower s"
  by (simp add: lower_def comp_def)

lemma length_lower [simp]: "length (lower s) = length s"
  by (simp add: lower_def)

lemma lower_append [simp]: "lower (s @ t) = lower s @ lower t"
  by (simp add: lower_def)

lemma is_word_not_space: "is_word c \<Longrightarrow> \<not> is_space c"
  by (auto simp: is_word_def is_space_def is_letter_def is_lower_az_def is_upper_az_def is_digit_def)

section \<open>String methods\<close>

definition lstrip_on :: "(char \<Rightarrow> bool) \<Rightarrow> string \<Rightarrow> string" where
  "lstrip_on p s = dropWhile p s"

definition rstrip_on :: "(char \<Rightarrow> bool) \<Rightarrow> string \<Rightarrow> string" where
  "rstrip_on p s = rev (dropWhile p (rev s))"

definition strip_on :: "(char \<Rightarrow> bool) \<Rightarrow> string \<Rightarrow> string" where
  "strip_on p s = rstrip_on p (lstrip_on p s)"

abbreviation strip :: "string \<Rightarrow> string" where
  "strip \<equiv> strip_on is_space"

abbreviation strip_chars :: "string \<Rightarrow> string \<Rightarrow> string" where
  "strip_chars cs \<equiv> strip_on (\<lambda>c. c \<in> set cs)"

abbreviation lstrip_chars :: "string \<Rightarrow> string \<Rightarrow> string" where
  "lstrip_chars cs \<equiv> lstrip_on (\<lambda>c. c \<in> set cs)"

abbreviation rstrip_chars :: "string \<Rightarrow> string \<Rightarrow> string" where
  "rstrip_chars cs \<equiv> rstrip_on (\<lambda>c. c \<in> set cs)"

definition startswith :: "string \<Rightarrow> string \<Rightarrow> bool" where
  "startswith s p = prefix p s"

definition endswith :: "string \<Rightarrow> string \<Rightarrow> bool" where
  "endswith s p = suffix p s"

text \<open>\<open>sub in s\<close>.\<close>

fun contains :: "string \<Rightarrow> string \<Rightarrow> bool" where
  "contains sub [] = (sub = [])"
| "contains sub (c # cs) = (prefix sub (c # cs) \<or> contains sub cs)"

text \<open>\<open>s.find(sub)\<close>: the least position, \<open>None\<close> for Python's -1.\<close>

fun find_str :: "string \<Rightarrow> string \<Rightarrow> nat option" where
  "find_str sub [] = (if sub = [] then Some 0 else None)"
| "find_str sub (c # cs) =
     (if prefix sub (c # cs) then Some 0 else map_option Suc (find_str sub cs))"

text \<open>\<open>sep.join(parts)\<close>.\<close>

fun join :: "string \<Rightarrow> string list \<Rightarrow> string" where
  "join sep [] = []"
| "join sep [x] = x"
| "join sep (x # y # xs) = x @ sep @ join sep (y # xs)"

text \<open>\<open>s.split(sep)\<close> for a separator that is not empty (Python raises \<open>ValueError\<close> on an empty
  one; every call of the program passes a literal or a string it has tested).\<close>

function split_acc :: "string \<Rightarrow> string \<Rightarrow> string \<Rightarrow> string list" where
  "split_acc sep acc [] = [rev acc]"
| "split_acc sep acc (c # cs) =
     (if sep \<noteq> [] \<and> prefix sep (c # cs)
      then rev acc # split_acc sep [] (drop (length sep) (c # cs))
      else split_acc sep (c # acc) cs)"
  by pat_completeness auto
termination
  by (relation "measure (\<lambda>(_, _, s). length s)") (auto simp: neq_Nil_conv)

definition split_on :: "string \<Rightarrow> string \<Rightarrow> string list" where
  "split_on sep s = split_acc sep [] s"

text \<open>\<open>s.split()\<close>: the maximal runs of characters that are not white space.\<close>

fun split_ws_acc :: "string \<Rightarrow> string \<Rightarrow> string list" where
  "split_ws_acc acc [] = (if acc = [] then [] else [rev acc])"
| "split_ws_acc acc (c # cs) =
     (if is_space c then (if acc = [] then split_ws_acc [] cs else rev acc # split_ws_acc [] cs)
      else split_ws_acc (c # acc) cs)"

definition split_ws :: "string \<Rightarrow> string list" where
  "split_ws s = split_ws_acc [] s"

text \<open>\<open>s.replace(old, new)\<close>; an empty \<open>old\<close> matches between all characters.\<close>

function replace_ne :: "string \<Rightarrow> string \<Rightarrow> string \<Rightarrow> string" where
  "replace_ne old new [] = []"
| "replace_ne old new (c # cs) =
     (if old \<noteq> [] \<and> prefix old (c # cs)
      then new @ replace_ne old new (drop (length old) (c # cs))
      else c # replace_ne old new cs)"
  by pat_completeness auto
termination
  by (relation "measure (\<lambda>(_, _, s). length s)") (auto simp: neq_Nil_conv)

definition replace_str :: "string \<Rightarrow> string \<Rightarrow> string \<Rightarrow> string" where
  "replace_str old new s =
     (if old = [] then new @ concat (map (\<lambda>c. c # new) s) else replace_ne old new s)"

definition str_concat :: "string list \<Rightarrow> string" where
  "str_concat xs = concat xs"

subsection \<open>Numbers\<close>

fun nat_digits :: "nat \<Rightarrow> string" where
  "nat_digits n = (if n < 10 then [char_of (48 + n)] else nat_digits (n div 10) @ [char_of (48 + n mod 10)])"

declare nat_digits.simps [simp del]

definition str_of_int :: "int \<Rightarrow> string" where
  "str_of_int i = (if i < 0 then ''-'' @ nat_digits (nat (- i)) else nat_digits (nat i))"

fun digits_val :: "nat \<Rightarrow> string \<Rightarrow> nat" where
  "digits_val n [] = n"
| "digits_val n (c # cs) = digits_val (10 * n + (cp c - 48)) cs"

text \<open>\<open>int(s)\<close> in base 10: surrounding white space, one sign, digits with single underscores
  between them; \<open>None\<close> is \<open>ValueError\<close>.\<close>

fun digits_ok :: "bool \<Rightarrow> string \<Rightarrow> bool" where
  "digits_ok prev_digit [] = prev_digit"
| "digits_ok prev_digit (c # cs) =
     (if is_digit c then digits_ok True cs
      else prev_digit \<and> cp c = 95 \<and> cs \<noteq> [] \<and> is_digit (hd cs) \<and> digits_ok False cs)"

definition int_of_str :: "string \<Rightarrow> int option" where
  "int_of_str s0 =
     (let s = strip s0;
          neg = (s \<noteq> [] \<and> hd s = CHR ''-'');
          body = (if s \<noteq> [] \<and> (hd s = CHR ''-'' \<or> hd s = CHR ''+'') then tl s else s)
      in if body \<noteq> [] \<and> digits_ok False body
         then (let v = int (digits_val 0 (filter is_digit body)) in Some (if neg then - v else v))
         else None)"

subsection \<open>Facts\<close>

lemma contains_iff_sublist: "contains sub s \<longleftrightarrow> sublist sub s"
  by (induction s) (auto simp: sublist_Cons_right)

lemma contains_Nil [simp]: "contains [] s"
  by (cases s) auto

lemma contains_refl [simp]: "contains s s"
  by (simp add: contains_iff_sublist)

lemma contains_append: "contains x s \<Longrightarrow> contains x (a @ s @ b)"
  unfolding contains_iff_sublist by (meson sublist_appendI sublist_order.order_trans)

lemma find_str_None: "find_str sub s = None \<longleftrightarrow> \<not> contains sub s"
  by (induction s) auto

lemma find_str_Some:
  "find_str sub s = Some i \<Longrightarrow> i \<le> length s \<and> prefix sub (drop i s)"
  by (induction s arbitrary: i) (auto split: if_splits)

lemma join_Cons: "xs \<noteq> [] \<Longrightarrow> join sep (x # xs) = x @ sep @ join sep xs"
  by (cases xs) auto

lemma split_acc_not_Nil [simp]: "split_acc sep acc s \<noteq> []"
  by (induction sep acc s rule: split_acc.induct) auto

lemma split_on_not_Nil [simp]: "split_on sep s \<noteq> []"
  by (simp add: split_on_def)

lemma prefix_drop_append: "prefix p s \<Longrightarrow> p @ drop (length p) s = s"
  by (auto simp: prefix_def)

lemma join_split_acc: "join sep (split_acc sep acc s) = rev acc @ s"
proof (induction sep acc s rule: split_acc.induct)
  case (1 sep acc)
  show ?case by simp
next
  case (2 sep acc c cs)
  show ?case
  proof (cases "sep \<noteq> [] \<and> prefix sep (c # cs)")
    case True
    then have "sep @ drop (length sep) (c # cs) = c # cs"
      by (intro prefix_drop_append) simp
    with True "2.IH"(1) show ?thesis by (simp add: join_Cons)
  next
    case False
    with "2.IH"(2) show ?thesis by auto
  qed
qed

lemma join_split_on: "join sep (split_on sep s) = s"
  by (simp add: split_on_def join_split_acc)

lemma strip_on_Nil [simp]: "strip_on p [] = []"
  by (simp add: strip_on_def lstrip_on_def rstrip_on_def)

lemma set_lstrip_on: "set (lstrip_on p s) \<subseteq> set s"
  by (auto simp: lstrip_on_def dest: set_dropWhileD)

lemma set_rstrip_on: "set (rstrip_on p s) \<subseteq> set s"
  by (auto simp: rstrip_on_def dest: set_dropWhileD)

lemma set_strip_on: "set (strip_on p s) \<subseteq> set s"
  using set_rstrip_on set_lstrip_on by (fastforce simp: strip_on_def)

lemma hd_lstrip_on: "lstrip_on p s \<noteq> [] \<Longrightarrow> \<not> p (hd (lstrip_on p s))"
  by (metis hd_dropWhile lstrip_on_def)

lemma last_rstrip_on: "rstrip_on p s \<noteq> [] \<Longrightarrow> \<not> p (last (rstrip_on p s))"
  unfolding rstrip_on_def by (metis hd_dropWhile hd_rev last_rev rev_is_Nil_conv)

lemma rstrip_on_append: "rstrip_on p s = t \<Longrightarrow> \<exists>u. s = t @ u \<and> (\<forall>c \<in> set u. p c)"
  unfolding rstrip_on_def
  by (metis rev_append rev_rev_ident set_rev set_takeWhileD takeWhile_dropWhile_id)

lemma set_split_ws_acc:
  "x \<in> set (split_ws_acc acc s) \<Longrightarrow> set x \<subseteq> set acc \<union> {c \<in> set s. \<not> is_space c}"
  by (induction acc s arbitrary: x rule: split_ws_acc.induct) (fastforce split: if_splits)+

lemma split_ws_no_space: "x \<in> set (split_ws s) \<Longrightarrow> c \<in> set x \<Longrightarrow> c \<in> set s \<and> \<not> is_space c"
  using set_split_ws_acc [of x "[]" s] by (auto simp: split_ws_def)

lemma set_join: "set (join sep xs) \<subseteq> set sep \<union> \<Union> (set ` set xs)"
  by (induction sep xs rule: join.induct) auto

section \<open>Words\<close>

text \<open>\<open>re.split('\W+', s)\<close>: a separator is a maximal run of non-word characters, so a leading or
  trailing run gives an empty first or last part.\<close>

function wsplit_acc :: "string \<Rightarrow> string \<Rightarrow> string list" where
  "wsplit_acc acc [] = [rev acc]"
| "wsplit_acc acc (c # cs) =
     (if is_word c then wsplit_acc (c # acc) cs
      else rev acc # wsplit_acc [] (dropWhile (\<lambda>d. \<not> is_word d) cs))"
  by pat_completeness auto
termination
  by (relation "measure (\<lambda>(_, s). length s)") (auto simp: length_dropWhile_le le_imp_less_Suc)

definition wsplit :: "string \<Rightarrow> string list" where
  "wsplit s = wsplit_acc [] s"

text \<open>\<open>re.split('\W+|_', s)\<close>: here a single underscore also separates.\<close>

function wsplit2_acc :: "string \<Rightarrow> string \<Rightarrow> string list" where
  "wsplit2_acc acc [] = [rev acc]"
| "wsplit2_acc acc (c # cs) =
     (if \<not> is_word c then rev acc # wsplit2_acc [] (dropWhile (\<lambda>d. \<not> is_word d) cs)
      else if cp c = 95 then rev acc # wsplit2_acc [] cs
      else wsplit2_acc (c # acc) cs)"
  by pat_completeness auto
termination
  by (relation "measure (\<lambda>(_, s). length s)") (auto simp: length_dropWhile_le le_imp_less_Suc)

lemma wsplit_acc_word:
  "\<forall>c \<in> set acc. is_word c \<Longrightarrow> x \<in> set (wsplit_acc acc s) \<Longrightarrow> c \<in> set x \<Longrightarrow> is_word c"
  by (induction acc s arbitrary: x rule: wsplit_acc.induct) (auto split: if_splits)

lemma wsplit_word: "x \<in> set (wsplit s) \<Longrightarrow> c \<in> set x \<Longrightarrow> is_word c"
  using wsplit_acc_word [of "[]"] by (auto simp: wsplit_def)

lemma wsplit_acc_not_Nil [simp]: "wsplit_acc acc s \<noteq> []"
  by (induction acc s rule: wsplit_acc.induct) auto

lemma wsplit_not_Nil [simp]: "wsplit s \<noteq> []"
  by (simp add: wsplit_def)

section \<open>encoding.py\<close>

text \<open>\<open>unicodedata.normalize('NFD', .)\<close> followed by dropping the combining marks, on Latin-1: an
  accented letter becomes its base letter.\<close>

definition base_letter :: "char \<Rightarrow> char" where
  "base_letter c =
     (let n = cp c in
      if 192 \<le> n \<and> n \<le> 197 then CHR ''A'' else if n = 199 then CHR ''C''
      else if 200 \<le> n \<and> n \<le> 203 then CHR ''E'' else if 204 \<le> n \<and> n \<le> 207 then CHR ''I''
      else if n = 209 then CHR ''N'' else if 210 \<le> n \<and> n \<le> 214 then CHR ''O''
      else if 217 \<le> n \<and> n \<le> 220 then CHR ''U'' else if n = 221 then CHR ''Y''
      else if 224 \<le> n \<and> n \<le> 229 then CHR ''a'' else if n = 231 then CHR ''c''
      else if 232 \<le> n \<and> n \<le> 235 then CHR ''e'' else if 236 \<le> n \<and> n \<le> 239 then CHR ''i''
      else if n = 241 then CHR ''n'' else if 242 \<le> n \<and> n \<le> 246 then CHR ''o''
      else if 249 \<le> n \<and> n \<le> 252 then CHR ''u'' else if n = 253 \<or> n = 255 then CHR ''y''
      else c)"

definition stripAccents :: "string \<Rightarrow> string" where
  "stripAccents s = map base_letter s"

text \<open>\<open>unicodedata.normalize('NFKD', .).encode('ASCII', 'ignore')\<close> on Latin-1.\<close>

definition ascii_of :: "char \<Rightarrow> string" where
  "ascii_of c =
     (let n = cp c in
      if n < 128 then [c]
      else if n = 160 \<or> n = 168 \<or> n = 175 \<or> n = 180 \<or> n = 184 then '' ''
      else if n = 170 then ''a'' else if n = 186 then ''o''
      else if n = 178 then ''2'' else if n = 179 then ''3'' else if n = 185 then ''1''
      else if n = 188 then ''14'' else if n = 189 then ''12'' else if n = 190 then ''34''
      else if base_letter c \<noteq> c then [base_letter c] else [])"

definition valid_char :: "char \<Rightarrow> bool" where
  "valid_char c = (c \<in> set ''-_.() '' \<or> is_letter c \<or> is_digit c)"

definition toSafeString :: "string \<Rightarrow> string" where
  "toSafeString original =
     (let cleaned_filename = concat (map ascii_of original);
          valid_string = filter valid_char cleaned_filename
      in join '' '' (split_ws valid_string))"

definition simplifyString :: "string \<Rightarrow> string" where
  "simplifyString original =
     (let s = stripAccents (lower original);
          s = toSafeString (join '' '' (wsplit s));
          split = wsplit2_acc [] (lower s)
      in join '' '' split)"

text \<open>\<open>isInt\<close> on a string.\<close>

definition isInt :: "string \<Rightarrow> bool" where
  "isInt s = (int_of_str s \<noteq> None)"

lemma toSafeString_valid: "c \<in> set (toSafeString s) \<Longrightarrow> valid_char c"
proof -
  assume c: "c \<in> set (toSafeString s)"
  let ?v = "filter valid_char (concat (map ascii_of s))"
  have "c \<in> set '' '' \<union> \<Union> (set ` set (split_ws ?v))"
    using c set_join [of "'' ''" "split_ws ?v"] unfolding toSafeString_def Let_def by blast
  then consider "c = CHR '' ''" | x where "x \<in> set (split_ws ?v)" "c \<in> set x" by auto
  then show ?thesis
  proof cases
    case 1
    then show ?thesis by (simp add: valid_char_def)
  next
    case 2
    then have "c \<in> set ?v" using split_ws_no_space by blast
    then show ?thesis by simp
  qed
qed

lemma wsplit2_acc_chars:
  "x \<in> set (wsplit2_acc acc s) \<Longrightarrow> c \<in> set x \<Longrightarrow>
   c \<in> set acc \<or> c \<in> set s \<and> is_word c \<and> cp c \<noteq> 95"
proof (induction acc s arbitrary: x rule: wsplit2_acc.induct)
  case (1 acc)
  then show ?case by simp
next
  case (2 acc d cs)
  have dw: "e \<in> set cs" if "e \<in> set (dropWhile (\<lambda>d. \<not> is_word d) cs)" for e
    using that by (rule set_dropWhileD)
  consider "\<not> is_word d" | "is_word d" "cp d = 95" | "is_word d" "cp d \<noteq> 95" by blast
  then show ?case
  proof cases
    case 1
    with "2.prems" have "x = rev acc \<or> x \<in> set (wsplit2_acc [] (dropWhile (\<lambda>d. \<not> is_word d) cs))"
      by simp
    with "2.IH"(1) [OF 1] "2.prems"(2) dw show ?thesis by auto
  next
    case 2
    with "2.prems" have "x = rev acc \<or> x \<in> set (wsplit2_acc [] cs)" by simp
    with "2.IH"(2) [of x] 2 "2.prems"(2) show ?thesis by auto
  next
    case 3
    with "2.prems" have "x \<in> set (wsplit2_acc (d # acc) cs)" by simp
    with "2.IH"(3) [of x] 3 "2.prems"(2) show ?thesis by auto
  qed
qed

definition simple_char :: "char \<Rightarrow> bool" where
  "simple_char c = (is_lower_az c \<or> is_digit c \<or> c = CHR '' '')"

text \<open>What every comparison of names in the program rests on: a simplified string holds only
  \<open>a-z\<close>, \<open>0-9\<close> and blanks.\<close>

lemma simplifyString_chars:
  assumes "c \<in> set (simplifyString s)"
  shows "simple_char c"
proof -
  let ?t = "toSafeString (join '' '' (wsplit (stripAccents (lower s))))"
  have "c \<in> set '' '' \<union> \<Union> (set ` set (wsplit2_acc [] (lower ?t)))"
    using assms set_join [of "'' ''" "wsplit2_acc [] (lower ?t)"]
    unfolding simplifyString_def Let_def by blast
  then consider "c = CHR '' ''" | x where "x \<in> set (wsplit2_acc [] (lower ?t))" "c \<in> set x" by auto
  then show ?thesis
  proof cases
    case 1
    then show ?thesis by (simp add: simple_char_def)
  next
    case 2
    then have w: "c \<in> set (lower ?t)" "is_word c" "cp c \<noteq> 95"
      using wsplit2_acc_chars by fastforce+
    then obtain d where d: "d \<in> set ?t" "c = lower_char d" by (auto simp: lower_def)
    then have "valid_char d" using toSafeString_valid by blast
    then have v: "d \<in> set ''-_.() '' \<or> is_letter d \<or> is_digit d" by (simp add: valid_char_def)
    have n: "x \<in> set ''-.() '' \<Longrightarrow> \<not> is_word (lower_char x)" for x
      by (auto simp: lower_char_def is_word_def is_letter_def is_lower_az_def is_upper_az_def
          is_digit_def cp_def)
    have u: "cp (lower_char (CHR ''_'')) = 95"
      by (simp add: lower_char_def is_upper_az_def cp_def)
    have "d \<notin> set ''-.() ''" using w(2) d(2) n by blast
    moreover have "d \<noteq> CHR ''_''" using w(3) d(2) u by blast
    ultimately have "is_letter d \<or> is_digit d" using v by simp
    then show ?thesis
      using d by (auto simp: simple_char_def lower_char_def is_letter_def is_lower_az_def
          is_upper_az_def is_digit_def)
  qed
qed

end
