(* ===== verification/PyVal.thy ===== *)
theory PyVal
  imports Complex_Main PyStr
begin

text \<open>
  Python's dynamic values as far as the program stores them in documents, request arguments and
  result dictionaries. A float is its exact rational value (the program adds and compares
  sizes, scores and ages; no statement of the development depends on rounding). A dict
  is an association list in insertion order with string keys, as documents have; \<open>d.get(k)\<close>,
  \<open>d[k]\<close>, \<open>d[k] = v\<close>, \<open>del d[k]\<close>, \<open>d.update(e)\<close> are \<open>dget\<close>, \<open>dsub\<close>, \<open>dput\<close>, \<open>ddel\<close>, \<open>dupdate\<close>.
\<close>

datatype pv =
    PNone | PBool bool | PInt int | PFloat rat | PStr string
  | PList "pv list" | PTup "pv list" | PDict "(string \<times> pv) list"

type_synonym doc = "(string \<times> pv) list"

section \<open>Dictionaries\<close>

definition dhas :: "doc \<Rightarrow> string \<Rightarrow> bool" where
  "dhas d k = (map_of d k \<noteq> None)"

definition dget :: "doc \<Rightarrow> string \<Rightarrow> pv" where
  "dget d k = (case map_of d k of None \<Rightarrow> PNone | Some v \<Rightarrow> v)"

definition dgetd :: "doc \<Rightarrow> string \<Rightarrow> pv \<Rightarrow> pv" where
  "dgetd d k v0 = (case map_of d k of None \<Rightarrow> v0 | Some v \<Rightarrow> v)"

definition dsub :: "doc \<Rightarrow> string \<Rightarrow> pv res" where
  "dsub d k = (case map_of d k of None \<Rightarrow> Inl KeyError | Some v \<Rightarrow> Inr v)"

definition dput :: "doc \<Rightarrow> string \<Rightarrow> pv \<Rightarrow> doc" where
  "dput d k v = AList.update k v d"

definition dremove :: "doc \<Rightarrow> string \<Rightarrow> doc" where
  "dremove d k = AList.delete k d"

definition ddel :: "doc \<Rightarrow> string \<Rightarrow> doc res" where
  "ddel d k = (if dhas d k then Inr (dremove d k) else Inl KeyError)"

definition dupdate :: "doc \<Rightarrow> doc \<Rightarrow> doc" where
  "dupdate d e = foldl (\<lambda>d kv. dput d (fst kv) (snd kv)) d e"

definition dkeys :: "doc \<Rightarrow> string list" where
  "dkeys d = map fst d"

lemma dhas_dput [simp]: "dhas (dput d k v) k' = (k = k' \<or> dhas d k')"
  by (auto simp: dhas_def dput_def update_conv')

lemma dget_dput: "dget (dput d k v) k' = (if k = k' then v else dget d k')"
  by (simp add: dget_def dput_def update_conv')

lemma dget_dput_same [simp]: "dget (dput d k v) k = v"
  by (simp add: dget_dput)

lemma dget_dput_other [simp]: "k \<noteq> k' \<Longrightarrow> dget (dput d k v) k' = dget d k'"
  by (simp add: dget_dput)

lemma dgetd_dput_same [simp]: "dgetd (dput d k v) k w = v"
  by (simp add: dgetd_def dput_def update_conv')

lemma dgetd_dput_other [simp]: "k \<noteq> k' \<Longrightarrow> dgetd (dput d k v) k' w = dgetd d k' w"
  by (simp add: dgetd_def dput_def update_conv')

lemma dsub_dput_same [simp]: "dsub (dput d k v) k = Inr v"
  by (simp add: dsub_def dput_def update_conv')

lemma dsub_dput_other [simp]: "k \<noteq> k' \<Longrightarrow> dsub (dput d k v) k' = dsub d k'"
  by (simp add: dsub_def dput_def update_conv')

lemma dhas_dremove [simp]: "dhas (dremove d k) k' = (k \<noteq> k' \<and> dhas d k')"
  by (auto simp: dhas_def dremove_def delete_conv')

lemma dget_dremove: "dget (dremove d k) k' = (if k = k' then PNone else dget d k')"
  by (simp add: dget_def dremove_def delete_conv')

lemma dget_dremove_other [simp]: "k \<noteq> k' \<Longrightarrow> dget (dremove d k) k' = dget d k'"
  by (simp add: dget_dremove)

lemma dsub_eq_dget: "dhas d k \<Longrightarrow> dsub d k = Inr (dget d k)"
  by (auto simp: dhas_def dsub_def dget_def)

lemma dsub_Inr: "dsub d k = Inr v \<Longrightarrow> dhas d k \<and> dget d k = v"
  by (auto simp: dhas_def dsub_def dget_def split: option.splits)

lemma not_dhas_dget: "\<not> dhas d k \<Longrightarrow> dget d k = PNone"
  by (auto simp: dhas_def dget_def)

lemma dput_not_Nil [simp]: "dput d k v \<noteq> []"
  by (cases d) (auto simp: dput_def)

section \<open>Truth, equality, numbers\<close>

fun truthy :: "pv \<Rightarrow> bool" where
  "truthy PNone = False"
| "truthy (PBool b) = b"
| "truthy (PInt i) = (i \<noteq> 0)"
| "truthy (PFloat r) = (r \<noteq> 0)"
| "truthy (PStr s) = (s \<noteq> [])"
| "truthy (PList xs) = (xs \<noteq> [])"
| "truthy (PTup xs) = (xs \<noteq> [])"
| "truthy (PDict d) = (d \<noteq> [])"

text \<open>A number as a rational; \<open>True\<close> is 1.\<close>

fun num_of :: "pv \<Rightarrow> rat option" where
  "num_of (PBool b) = Some (if b then 1 else 0)"
| "num_of (PInt i) = Some (of_int i)"
| "num_of (PFloat r) = Some r"
| "num_of _ = None"

text \<open>\<open>==\<close> on values without containers of mixed numbers: numbers by value, everything else
  structurally.\<close>

definition pv_eq :: "pv \<Rightarrow> pv \<Rightarrow> bool" where
  "pv_eq a b = (case (num_of a, num_of b) of (Some x, Some y) \<Rightarrow> x = y | _ \<Rightarrow> a = b)"

text \<open>Comparing with \<open><\<close> raises \<open>TypeError\<close> unless both are numbers or both are strings; the
  program only compares numbers.\<close>

definition num_res :: "pv \<Rightarrow> rat res" where
  "num_res v = (case num_of v of None \<Rightarrow> Inl TypeError | Some r \<Rightarrow> Inr r)"

fun is_dict :: "pv \<Rightarrow> bool" where
  "is_dict (PDict d) = True" | "is_dict _ = False"

fun is_str :: "pv \<Rightarrow> bool" where
  "is_str (PStr d) = True" | "is_str _ = False"

text \<open>\<open>v.get(k, v0)\<close> on any value, \<open>v[k]\<close> with a string key, and iteration over a list or tuple.\<close>

fun vgetd :: "pv \<Rightarrow> string \<Rightarrow> pv \<Rightarrow> pv res" where
  "vgetd (PDict d) k v0 = Inr (dgetd d k v0)"
| "vgetd _ k v0 = Inl AttributeError"

abbreviation vget :: "pv \<Rightarrow> string \<Rightarrow> pv res" where
  "vget v k \<equiv> vgetd v k PNone"

fun vsub :: "pv \<Rightarrow> string \<Rightarrow> pv res" where
  "vsub (PDict d) k = dsub d k"
| "vsub _ k = Inl TypeError"

fun as_dict :: "pv \<Rightarrow> doc res" where
  "as_dict (PDict d) = Inr d" | "as_dict _ = Inl AttributeError"

fun as_list :: "pv \<Rightarrow> pv list res" where
  "as_list (PList xs) = Inr xs"
| "as_list (PTup xs) = Inr xs"
| "as_list (PDict d) = Inr (map (\<lambda>kv. PStr (fst kv)) d)"
| "as_list (PStr s) = Inr (map (\<lambda>c. PStr [c]) s)"
| "as_list _ = Inl TypeError"

fun as_str :: "pv \<Rightarrow> string res" where
  "as_str (PStr s) = Inr s" | "as_str _ = Inl TypeError"

fun as_int :: "pv \<Rightarrow> int res" where
  "as_int (PInt i) = Inr i" | "as_int (PBool b) = Inr (if b then 1 else 0)" | "as_int _ = Inl TypeError"

text \<open>The string or \<open>''\<close>, for places that only test or pass on a string.\<close>

fun str_or_empty :: "pv \<Rightarrow> string" where
  "str_or_empty (PStr s) = s" | "str_or_empty _ = []"

lemma vgetd_PDict_dget [simp]: "dgetd d k PNone = dget d k"
  by (simp add: dgetd_def dget_def)

text \<open>\<open>xs[i]\<close> with Python's negative indices.\<close>

definition nth_res :: "'a list \<Rightarrow> int \<Rightarrow> 'a res" where
  "nth_res xs i =
     (let j = (if i < 0 then i + int (length xs) else i)
      in if 0 \<le> j \<and> j < int (length xs) then Inr (xs ! nat j) else Inl IndexError)"

lemma nth_res_nat: "n < length xs \<Longrightarrow> nth_res xs (int n) = Inr (xs ! n)"
  by (simp add: nth_res_def)

section \<open>tryInt and tryFloat\<close>

text \<open>\<open>int(v)\<close>: a float is truncated towards zero, a string is read in base 10.\<close>

definition trunc :: "rat \<Rightarrow> int" where
  "trunc r = (if r < 0 then - \<lfloor>- r\<rfloor> else \<lfloor>r\<rfloor>)"

fun int_res :: "pv \<Rightarrow> int res" where
  "int_res (PInt i) = Inr i"
| "int_res (PBool b) = Inr (if b then 1 else 0)"
| "int_res (PFloat r) = Inr (trunc r)"
| "int_res (PStr s) = (case int_of_str s of None \<Rightarrow> Inl ValueError | Some i \<Rightarrow> Inr i)"
| "int_res _ = Inl TypeError"

definition tryInt :: "pv \<Rightarrow> int \<Rightarrow> int" where
  "tryInt s dflt = (case int_res s of Inl _ \<Rightarrow> dflt | Inr i \<Rightarrow> i)"

text \<open>\<open>float(s)\<close> of a string: an optional sign, digits, an optional fraction; \<open>None\<close> is
  \<open>ValueError\<close>. (Exponents, \<open>inf\<close> and \<open>nan\<close>, which \<open>float\<close> also reads, do not occur in the texts
  the program passes; they are read as \<open>ValueError\<close>.)\<close>

definition float_of_str :: "string \<Rightarrow> rat option" where
  "float_of_str s0 =
     (let s = strip s0;
          neg = (s \<noteq> [] \<and> hd s = CHR ''-'');
          body = (if s \<noteq> [] \<and> (hd s = CHR ''-'' \<or> hd s = CHR ''+'') then tl s else s);
          ip = takeWhile is_digit body;
          rest = dropWhile is_digit body;
          fp = (if rest = [] then [] else tl rest);
          ok = (rest = [] \<and> ip \<noteq> [] \<or> rest \<noteq> [] \<and> hd rest = CHR ''.'' \<and> list_all is_digit fp \<and> ip @ fp \<noteq> []);
          v = of_nat (digits_val 0 (ip @ fp)) / of_nat (10 ^ length fp)
      in if ok then Some (if neg then - v else v) else None)"

fun float_res :: "pv \<Rightarrow> rat res" where
  "float_res (PInt i) = Inr (of_int i)"
| "float_res (PBool b) = Inr (if b then 1 else 0)"
| "float_res (PFloat r) = Inr r"
| "float_res (PStr s) = (case float_of_str s of None \<Rightarrow> Inl ValueError | Some i \<Rightarrow> Inr i)"
| "float_res _ = Inl TypeError"

text \<open>\<open>tryFloat\<close>: a string without a dot goes through \<open>tryInt\<close>; anything unreadable is 0.\<close>

definition tryFloat :: "pv \<Rightarrow> rat" where
  "tryFloat s = (case s of
       PStr t \<Rightarrow> (if contains ''.'' t then (case float_of_str t of None \<Rightarrow> 0 | Some r \<Rightarrow> r)
                  else of_int (tryInt s 0))
     | _ \<Rightarrow> (case float_res s of Inl _ \<Rightarrow> 0 | Inr r \<Rightarrow> r))"

lemma tryInt_PInt [simp]: "tryInt (PInt i) d = i"
  by (simp add: tryInt_def)

lemma tryInt_PNone [simp]: "tryInt PNone d = d"
  by (simp add: tryInt_def)

lemma trunc_of_int [simp]: "trunc (of_int i) = i"
  by (simp add: trunc_def)

end
