(* ===== verification/SoftChroot.thy ===== *)
theory SoftChroot
  imports PyVal
begin

text \<open>
  couchpotato/core/softchroot.py: the directory the web interface is confined to, and the maps
  between the paths the interface shows and the paths on disk. \<open>os.path.sep\<close> is \<open>/\<close>; whether a
  directory exists is the argument \<open>isdir\<close>. A path argument that may be \<open>None\<close> is an option.
\<close>

record softchroot =
  enabled :: "bool option"
  chdir :: string

definition sep :: string where
  "sep = ''/''"

definition init_chroot :: softchroot where
  "init_chroot = \<lparr>enabled = None, chdir = []\<rparr>"

definition initialize :: "(string \<Rightarrow> bool) \<Rightarrow> string \<Rightarrow> softchroot \<Rightarrow> softchroot res" where
  "initialize isdir dir0 sc =
     (let dir = (if dir0 \<noteq> [] then strip dir0 else dir0)
      in if dir \<noteq> []
         then (if \<not> isdir dir then Inl OSError
               else Inr (sc\<lparr>enabled := Some True, chdir := rstrip_chars sep dir @ sep\<rparr>))
         else Inr (sc\<lparr>enabled := Some False\<rparr>))"

definition get_chroot :: "softchroot \<Rightarrow> string res" where
  "get_chroot sc = (case enabled sc of
       None \<Rightarrow> Inl RuntimeError
     | Some False \<Rightarrow> Inl RuntimeError
     | Some True \<Rightarrow> Inr (chdir sc))"

text \<open>\<open>os.path.dirname\<close> of POSIX paths.\<close>

definition dirname :: "string \<Rightarrow> string" where
  "dirname p =
     (let head = rev (dropWhile (\<lambda>c. c \<noteq> CHR ''/'') (rev p))
      in if head \<noteq> [] \<and> \<not> list_all (\<lambda>c. c = CHR ''/'') head then rstrip_chars sep head else head)"

definition is_root_abs :: "softchroot \<Rightarrow> string option \<Rightarrow> bool res" where
  "is_root_abs sc abspath = (case enabled sc of
       None \<Rightarrow> Inl RuntimeError
     | Some en \<Rightarrow> (case abspath of
         None \<Rightarrow> Inl ValueError
       | Some p \<Rightarrow>
           (if \<not> en then Inr (dirname (rstrip_chars sep p) = p)
            else Inr (chdir sc = rstrip_chars sep p @ sep))))"

definition is_subdir :: "softchroot \<Rightarrow> string option \<Rightarrow> bool res" where
  "is_subdir sc abspath = (case enabled sc of
       None \<Rightarrow> Inl RuntimeError
     | Some en \<Rightarrow> (case abspath of
         None \<Rightarrow> Inr False
       | Some p \<Rightarrow>
           (if \<not> en then Inr True
            else (let p' = (if \<not> endswith p sep then p @ sep else p)
                  in Inr (startswith p' (chdir sc))))))"

definition chroot2abs :: "softchroot \<Rightarrow> string option \<Rightarrow> string option res" where
  "chroot2abs sc path = (case enabled sc of
       None \<Rightarrow> Inl RuntimeError
     | Some False \<Rightarrow> Inr path
     | Some True \<Rightarrow> (case path of
         None \<Rightarrow> Inr (Some (chdir sc))
       | Some p \<Rightarrow>
           (if p = [] then Inr (Some (chdir sc))
            else (let p' = (if \<not> startswith p sep then sep @ p else p)
                  in Inr (Some (butlast (chdir sc) @ p'))))))"

definition abs2chroot :: "softchroot \<Rightarrow> string option \<Rightarrow> bool \<Rightarrow> string res" where
  "abs2chroot sc path force = (case enabled sc of
       None \<Rightarrow> Inl RuntimeError
     | Some en \<Rightarrow> (case path of
         None \<Rightarrow> Inl ValueError
       | Some p \<Rightarrow>
           (if \<not> en then Inr p
            else if p = rstrip_chars sep (chdir sc) then Inr ''/''
            else if \<not> startswith p (chdir sc)
                 then (if force then get_chroot sc else Inl ValueError)
            else Inr (drop (length (chdir sc) - 1) p))))"

section \<open>Properties\<close>

text \<open>After \<open>initialize\<close> with a directory the confinement is on and its root ends in exactly one
  separator.\<close>

definition confined :: "softchroot \<Rightarrow> bool" where
  "confined sc = (enabled sc = Some True \<and>
     (\<exists>r. chdir sc = r @ sep \<and> (r = [] \<or> last r \<noteq> CHR ''/'')))"

lemma initialize_confined:
  assumes "initialize isdir d sc = Inr sc'" "strip d \<noteq> []"
  shows "confined sc'"
proof -
  from assms have "d \<noteq> []" by auto
  with assms have sc': "sc' = sc\<lparr>enabled := Some True, chdir := rstrip_chars sep (strip d) @ sep\<rparr>"
    by (auto simp: initialize_def Let_def split: if_splits)
  have "rstrip_chars sep (strip d) = [] \<or> last (rstrip_chars sep (strip d)) \<noteq> CHR ''/''"
    using last_rstrip_on [of "\<lambda>c. c \<in> set sep" "strip d"] by (auto simp: sep_def)
  then show ?thesis by (auto simp: sc' confined_def)
qed

lemma confined_chdir: "confined sc \<Longrightarrow> butlast (chdir sc) @ sep = chdir sc"
  by (auto simp: confined_def sep_def)

lemma rstrip_confined: "confined sc \<Longrightarrow> rstrip_chars sep (chdir sc) = butlast (chdir sc)"
  by (auto simp: confined_def rstrip_on_def sep_def dropWhile_eq_self_iff hd_rev)
    (metis (full_types) dropWhile_eq_self_iff hd_rev rev_rev_ident)

lemma shown_to_abs:
  assumes "confined sc" "startswith p sep"
  shows "\<exists>a. chroot2abs sc (Some p) = Inr (Some a) \<and> is_subdir sc (Some a) = Inr True \<and>
    startswith a (chdir sc) \<and> abs2chroot sc (Some a) force = Inr p"
proof -
  from assms(2) obtain q where p: "p = sep @ q" by (auto simp: startswith_def prefix_def)
  let ?a = "chdir sc @ q"
  have a: "butlast (chdir sc) @ p = ?a" using confined_chdir [OF assms(1)] p by simp
  have en: "enabled sc = Some True" using assms(1) by (simp add: confined_def)
  have ne: "chdir sc \<noteq> []" using assms(1) by (auto simp: confined_def sep_def)
  have pre: "startswith ?a (chdir sc)" by (simp add: startswith_def)
  have neq: "?a \<noteq> rstrip_chars sep (chdir sc)"
  proof
    assume "?a = rstrip_chars sep (chdir sc)"
    then have "length (chdir sc) \<le> length (butlast (chdir sc))"
      using rstrip_confined [OF assms(1)] by (metis length_append le_add1)
    with ne show False by (cases "chdir sc") (auto split: if_splits)
  qed
  have dr: "drop (length (chdir sc) - 1) ?a = p"
    using a by (metis append_eq_conv_conj length_butlast)
  have "chroot2abs sc (Some p) = Inr (Some ?a)"
    using en assms(2) p a by (simp add: chroot2abs_def sep_def)
  moreover have "is_subdir sc (Some ?a) = Inr True"
    using en by (auto simp: is_subdir_def startswith_def Let_def)
  moreover have "abs2chroot sc (Some ?a) force = Inr p"
    using en neq pre dr by (simp add: abs2chroot_def)
  ultimately show ?thesis using pre by blast
qed

lemma abs_to_shown:
  assumes "confined sc" "startswith a (chdir sc)"
  shows "\<exists>p. abs2chroot sc (Some a) force = Inr p \<and> startswith p sep \<and> chroot2abs sc (Some p) = Inr (Some a)"
proof -
  from assms(2) obtain q where a: "a = chdir sc @ q" by (auto simp: startswith_def prefix_def)
  have s: "startswith (sep @ q) sep" by (simp add: startswith_def)
  have "butlast (chdir sc) @ sep @ q = a" using confined_chdir [OF assms(1)] a by (metis append_assoc)
  then have to: "chroot2abs sc (Some (sep @ q)) = Inr (Some a)"
    using assms(1) s by (simp add: chroot2abs_def confined_def sep_def)
  with shown_to_abs [OF assms(1) s, of force] s show ?thesis by auto
qed

lemma abs_refused:
  assumes "confined sc" "\<not> startswith a (chdir sc)"
  shows "abs2chroot sc (Some a) False = (if a = butlast (chdir sc) then Inr ''/'' else Inl ValueError)"
  using assms rstrip_confined [OF assms(1)] by (simp add: abs2chroot_def confined_def)

text \<open>C38: under a soft chroot the two maps are inverse to each other, between the paths the interface
  shows that start with the separator and the absolute paths whose text starts with the chroot
  directory; the directory itself, without its last separator, is shown as the root, and every other
  absolute path is refused. It is the text of a path that is compared: a parent step in it is not
  resolved (\<open>chroot_parent_escape\<close> below).\<close>

theorem chroot_roundtrip:
  assumes "confined sc"
  shows "(startswith p sep \<longrightarrow> (\<exists>a. chroot2abs sc (Some p) = Inr (Some a) \<and> is_subdir sc (Some a) = Inr True \<and>
      startswith a (chdir sc) \<and> abs2chroot sc (Some a) force = Inr p)) \<and>
    (startswith a (chdir sc) \<longrightarrow> (\<exists>p. abs2chroot sc (Some a) force = Inr p \<and> startswith p sep \<and>
      chroot2abs sc (Some p) = Inr (Some a))) \<and>
    (\<not> startswith a (chdir sc) \<longrightarrow>
      abs2chroot sc (Some a) False = (if a = butlast (chdir sc) then Inr ''/'' else Inl ValueError))"
  using shown_to_abs [OF assms] abs_to_shown [OF assms] abs_refused [OF assms] by blast

definition demo_chroot :: softchroot where
  "demo_chroot = \<lparr>enabled = Some True, chdir = ''/srv/''\<rparr>"

lemma demo_confined: "confined demo_chroot"
  unfolding confined_def demo_chroot_def by (auto simp: sep_def intro!: exI [of _ "''/srv''"])

theorem chroot_roundtrip_witness:
  "(\<exists>a. chroot2abs demo_chroot (Some ''/films'') = Inr (Some a) \<and>
    is_subdir demo_chroot (Some a) = Inr True \<and> startswith a (chdir demo_chroot) \<and>
    abs2chroot demo_chroot (Some a) False = Inr ''/films'') \<and>
   (\<exists>p. abs2chroot demo_chroot (Some ''/srv/films'') False = Inr p \<and> startswith p sep \<and>
    chroot2abs demo_chroot (Some p) = Inr (Some ''/srv/films'')) \<and>
   abs2chroot demo_chroot (Some ''/srv'') False = Inr ''/'' \<and>
   abs2chroot demo_chroot (Some ''/etc'') False = Inl ValueError"
  using chroot_roundtrip [OF demo_confined, of "''/films''" False "''/srv/films''"]
    chroot_roundtrip [OF demo_confined, of "[]" False "''/srv''"]
    chroot_roundtrip [OF demo_confined, of "[]" False "''/etc''"]
  by (simp add: startswith_def sep_def demo_chroot_def)

text \<open>Confinement is decided on the text of the path alone, so a path with a parent step is
  accepted although it leaves the directory: for every chroot directory there is a path that
  \<open>is_subdir\<close> accepts and \<open>chroot2abs\<close> produces, whose text goes up from the root of the chroot.\<close>

theorem chroot_parent_escape:
  "confined sc \<longrightarrow>
     chroot2abs sc (Some ''/../etc'') = Inr (Some (chdir sc @ ''../etc'')) \<and>
     is_subdir sc (Some (chdir sc @ ''../etc'')) = Inr True"
  by (auto simp: confined_def chroot2abs_def is_subdir_def startswith_def sep_def Let_def)

theorem chroot_parent_escape_witness:
  "chroot2abs demo_chroot (Some ''/../etc'') = Inr (Some ''/srv/../etc'') \<and>
   is_subdir demo_chroot (Some ''/srv/../etc'') = Inr True"
  using chroot_parent_escape [of demo_chroot] demo_confined by (simp add: demo_chroot_def)

end
