(* ===== verification/Indexes.thy ===== *)
theory Indexes
  imports PyVal "HOL-Library.List_Lexorder"
begin

text \<open>
  The secondary indexes of the document database: for each index class the function
  \<open>make_key_value\<close>, which says under which keys a document is found, and \<open>make_key\<close>, which turns
  the argument of a query into a key. Most indexes store the md5 digest of a text; the model
  stores the text itself, so two keys are equal when their texts are (md5 is taken to be free of
  collisions). A key is a \<open>pv\<close>: a string, or an integer where the index orders by one.
\<close>

type_synonym index_fun = "doc \<Rightarrow> (pv list \<times> doc) option res"

text \<open>\<open>'%s' % v\<close> for the scalars that occur in keys.\<close>

fun fmt :: "pv \<Rightarrow> string" where
  "fmt (PStr s) = s"
| "fmt (PInt i) = str_of_int i"
| "fmt (PBool b) = (if b then ''True'' else ''False'')"
| "fmt PNone = ''None''"
| "fmt _ = ''?''"

definition is_type :: "doc \<Rightarrow> string \<Rightarrow> bool" where
  "is_type d t = (dget d ''_t'' = PStr t)"

definition QualityIndex :: index_fun where
  "QualityIndex d = Inr (if is_type d ''quality'' \<and> truthy (dget d ''identifier'')
     then Some ([dget d ''identifier''], []) else None)"

definition ReleaseIndex :: index_fun where
  "ReleaseIndex d = Inr (if is_type d ''release'' \<and> truthy (dget d ''media_id'')
     then Some ([dget d ''media_id''], []) else None)"

definition ReleaseStatusIndex :: index_fun where
  "ReleaseStatusIndex d = Inr (if is_type d ''release'' \<and> truthy (dget d ''status'')
     then Some ([dget d ''status''], [(''media_id'', dget d ''media_id'')]) else None)"

definition ReleaseIDIndex :: index_fun where
  "ReleaseIDIndex d = Inr (if is_type d ''release'' \<and> truthy (dget d ''identifier'')
     then Some ([dget d ''identifier''], [(''media_id'', dget d ''media_id'')]) else None)"

definition ReleaseDownloadIndex :: index_fun where
  "ReleaseDownloadIndex d =
     (if is_type d ''release'' \<and> truthy (dget d ''download_info'')
      then rbind (vsub (dget d ''download_info'') ''id'') (\<lambda>i.
           if \<not> truthy i then Inr None
           else rbind (vsub (dget d ''download_info'') ''downloader'') (\<lambda>dl.
             Inr (if \<not> truthy dl then None
                  else Some ([PStr (lower (fmt dl @ ''-'' @ fmt i))], []))))
      else Inr None)"

definition ProfileIndex :: index_fun where
  "ProfileIndex d = Inr (if is_type d ''profile''
     then Some ([dgetd d ''order'' (PInt 99)], []) else None)"

definition CategoryIndex :: index_fun where
  "CategoryIndex d = Inr (if is_type d ''category''
     then Some ([dgetd d ''order'' (PInt (- 99))], []) else None)"

definition CategoryMediaIndex :: index_fun where
  "CategoryMediaIndex d = Inr (if is_type d ''media'' \<and> truthy (dget d ''category_id'')
     then Some ([PStr (fmt (dget d ''category_id''))], []) else None)"

definition MediaIndex :: index_fun where
  "MediaIndex d =
     (if is_type d ''media'' \<and> (truthy (dget d ''identifier'') \<or> truthy (dget d ''identifiers''))
      then rbind (as_dict (dgetd d ''identifiers'' (PDict []))) (\<lambda>ids0.
           let ids = (if truthy (dget d ''identifier'') \<and> \<not> dhas ids0 ''imdb''
                      then dput ids0 ''imdb'' (dget d ''identifier'') else ids0)
           in Inr (Some (map (\<lambda>kv. PStr (fst kv @ ''-'' @ fmt (snd kv))) ids, [])))
      else Inr None)"

definition MediaStatusIndex :: index_fun where
  "MediaStatusIndex d = Inr (if is_type d ''media'' \<and> truthy (dget d ''status'')
     then Some ([dget d ''status''], []) else None)"

definition MediaTypeIndex :: index_fun where
  "MediaTypeIndex d = Inr (if is_type d ''media'' \<and> truthy (dget d ''type'')
     then Some ([dget d ''type''], []) else None)"

text \<open>Every suffix of the title that starts at a word, and every prefix of such a suffix longer
  than two characters, padded on the left to 32 characters.\<close>

definition rjust32 :: "string \<Rightarrow> string" where
  "rjust32 s = replicate (32 - length s) (CHR ''_'') @ s"

definition title_combos :: "nat \<Rightarrow> string \<Rightarrow> string list" where
  "title_combos l combo =
     rjust32 combo #
     map rjust32 (filter (\<lambda>cc. l < length cc)
       (map (\<lambda>cx. strip (take (length combo - cx) combo))
          [1 ..< max l (min (length combo) 32)]))"

definition title_search_keys :: "string \<Rightarrow> string list" where
  "title_search_keys t =
     (let title_split = split_ws (simplifyString (lower t))
      in concat (map (\<lambda>x. title_combos 2 (strip (take 32 (join '' '' (drop x title_split)))))
                   [0 ..< length title_split]))"

definition TitleSearchIndex :: index_fun where
  "TitleSearchIndex d =
     (if is_type d ''media''
      then rbind (as_str (dgetd d ''title'' (PStr []))) (\<lambda>t.
           Inr (if t \<noteq> [] then Some (map PStr (remdups (title_search_keys t)), []) else None))
      else Inr None)"

definition strip_article :: "string \<Rightarrow> string" where
  "strip_article t =
     (if prefix ''the '' t then drop 4 t
      else if prefix ''an '' t then drop 3 t
      else if prefix ''a '' t then drop 2 t else t)"

definition title_sort_key :: "string \<Rightarrow> string" where
  "title_sort_key t0 =
     (let nr_prefix = (if t0 \<noteq> [] \<and> is_letter (hd t0) then '''' else ''#'');
          t = nr_prefix @ strip_article (simplifyString t0)
      in take 32 (t @ replicate (32 - length t) (CHR '' '')))"

definition TitleIndex :: index_fun where
  "TitleIndex d =
     (if is_type d ''media'' \<and> dget d ''title'' \<noteq> PNone
      then rbind (as_str (dget d ''title'')) (\<lambda>t.
           Inr (if t \<noteq> [] then Some ([PStr (title_sort_key t)], []) else None))
      else Inr None)"

definition title_first :: "string \<Rightarrow> string" where
  "title_first t0 =
     (let t = strip_article (simplifyString t0)
      in lower (if t \<noteq> [] \<and> is_letter (hd t) then [hd t] else ''#''))"

definition StartsWithIndex :: index_fun where
  "StartsWithIndex d =
     (if is_type d ''media'' \<and> dget d ''title'' \<noteq> PNone
      then rbind (as_str (dget d ''title'')) (\<lambda>t. Inr (Some ([PStr (title_first t)], [])))
      else Inr None)"

definition MediaChildrenIndex :: index_fun where
  "MediaChildrenIndex d = Inr (if is_type d ''media'' \<and> truthy (dget d ''parent_id'')
     then Some ([dget d ''parent_id''], []) else None)"

definition MediaTagIndex :: index_fun where
  "MediaTagIndex d =
     (if is_type d ''media'' \<and> truthy (dget d ''tags'')
      then rbind (as_list (dget d ''tags'')) (\<lambda>ts. Inr (Some (remdups ts, [])))
      else Inr None)"

definition PropertyIndex :: index_fun where
  "PropertyIndex d =
     (if is_type d ''property'' then rbind (dsub d ''identifier'') (\<lambda>i. Inr (Some ([i], [])))
      else Inr None)"

definition NotificationIndex :: index_fun where
  "NotificationIndex d = Inr (if is_type d ''notification''
     then Some ([dget d ''time''], []) else None)"

definition NotificationUnreadIndex :: index_fun where
  "NotificationUnreadIndex d = Inr (if is_type d ''notification'' \<and> \<not> truthy (dget d ''read'')
     then Some ([dget d ''time''], []) else None)"

definition index_table :: "(string \<times> index_fun) list" where
  "index_table =
     [(''quality'', QualityIndex), (''release'', ReleaseIndex),
      (''release_status'', ReleaseStatusIndex), (''release_identifier'', ReleaseIDIndex),
      (''release_download'', ReleaseDownloadIndex), (''profile'', ProfileIndex),
      (''category'', CategoryIndex), (''category_media'', CategoryMediaIndex),
      (''media'', MediaIndex), (''media_status'', MediaStatusIndex),
      (''media_by_type'', MediaTypeIndex), (''media_search_title'', TitleSearchIndex),
      (''media_title'', TitleIndex), (''media_startswith'', StartsWithIndex),
      (''media_children'', MediaChildrenIndex), (''media_tag'', MediaTagIndex),
      (''property'', PropertyIndex), (''notification'', NotificationIndex),
      (''notification_unread'', NotificationUnreadIndex)]"

definition the_index :: "string \<Rightarrow> index_fun option" where
  "the_index n = map_of index_table n"

text \<open>\<open>make_key\<close> of the index, applied to a query's argument.\<close>

definition make_key :: "string \<Rightarrow> pv \<Rightarrow> pv" where
  "make_key n key = (case key of
       PStr s \<Rightarrow>
         (if n = ''release_download'' then PStr (lower s)
          else if n = ''media_search_title'' then PStr (lower (rjust32 s))
          else if n = ''media_title'' then PStr (title_sort_key s)
          else if n = ''media_startswith'' then PStr (title_first s) else PStr s)
     | v \<Rightarrow> (if n = ''category_media'' then PStr (fmt v) else v))"

text \<open>The order in which a tree index returns its keys.\<close>

fun key_rank :: "pv \<Rightarrow> int list" where
  "key_rank (PStr s) = map (\<lambda>c. int (cp c)) s"
| "key_rank (PInt i) = [i]"
| "key_rank _ = []"

text \<open>Only documents of an index's type are in it.\<close>

lemma the_index_release [simp]:
  "the_index ''release'' = Some ReleaseIndex"
  "the_index ''release_status'' = Some ReleaseStatusIndex"
  "the_index ''release_identifier'' = Some ReleaseIDIndex"
  "the_index ''release_download'' = Some ReleaseDownloadIndex"
  by (simp_all add: the_index_def index_table_def)

lemma the_index_media [simp]:
  "the_index ''media'' = Some MediaIndex"
  "the_index ''media_status'' = Some MediaStatusIndex"
  "the_index ''media_by_type'' = Some MediaTypeIndex"
  "the_index ''media_title'' = Some TitleIndex"
  "the_index ''media_search_title'' = Some TitleSearchIndex"
  "the_index ''media_startswith'' = Some StartsWithIndex"
  "the_index ''media_children'' = Some MediaChildrenIndex"
  "the_index ''media_tag'' = Some MediaTagIndex"
  by (simp_all add: the_index_def index_table_def)

lemma the_index_other [simp]:
  "the_index ''quality'' = Some QualityIndex"
  "the_index ''profile'' = Some ProfileIndex"
  "the_index ''category'' = Some CategoryIndex"
  "the_index ''category_media'' = Some CategoryMediaIndex"
  "the_index ''property'' = Some PropertyIndex"
  "the_index ''notification'' = Some NotificationIndex"
  "the_index ''notification_unread'' = Some NotificationUnreadIndex"
  by (simp_all add: the_index_def index_table_def)

lemma length_rjust32: "length s \<le> 32 \<Longrightarrow> length (rjust32 s) = 32"
  by (simp add: rjust32_def)

lemma length_title_sort_key: "length (title_sort_key t) = 32"
  by (auto simp: title_sort_key_def Let_def min_def)

lemma title_combos_self: "rjust32 combo \<in> set (title_combos l combo)"
  by (simp add: title_combos_def)

text \<open>A prefix of the shown title that has more than two characters and does not end at a blank
  is a search key, in the form a query for it has.\<close>

lemma title_combos_prefix:
  assumes "l < n" "n < length combo" "length combo \<le> 32" "strip (take n combo) = take n combo"
  shows "rjust32 (take n combo) \<in> set (title_combos l combo)"
proof -
  let ?cx = "length combo - n"
  have "?cx \<in> set [1 ..< max l (min (length combo) 32)]" using assms by auto
  moreover have "length combo - ?cx = n" using assms by simp
  ultimately have "take n combo \<in> set (map (\<lambda>cx. strip (take (length combo - cx) combo))
      [1 ..< max l (min (length combo) 32)])"
    using assms(4) by (metis (no_types, lifting) image_eqI image_set)
  moreover have "l < length (take n combo)" using assms by simp
  ultimately show ?thesis unfolding title_combos_def by auto
qed

end
