(* ===== verification/Database.thy ===== *)
theory Database
  imports Indexes
begin

text \<open>
  The document database (libs/codernitydb3/database.py): documents by id with a revision each, the
  life of an id (unused, live, deleted for ever), optimistic concurrency by revision, and the
  queries through the secondary indexes of theory \<open>Indexes\<close>. Random bytes and new ids come from
  the supplies \<open>rnd\<close> and \<open>uuid\<close>, which are part of the state and otherwise arbitrary. The
  secondary indexes are computed from the documents when they are read: an index never disagrees
  with the documents, which is what the code maintains by updating each index together with its
  document. Revisions are the 8 hexadecimal digits of the code, as strings.
\<close>

section \<open>State\<close>

datatype entry = Live string doc | Dead

record database =
  docs :: "(string \<times> entry) list"
  rnd :: "nat \<Rightarrow> nat"
  uuid :: "nat \<Rightarrow> string"
  drawn :: nat

section \<open>Revisions\<close>

definition hex_digit :: "nat \<Rightarrow> char" where
  "hex_digit n = char_of (if n < 10 then 48 + n else 87 + n)"

definition hex4 :: "nat \<Rightarrow> string" where
  "hex4 n = [hex_digit (n div 4096 mod 16), hex_digit (n div 256 mod 16),
             hex_digit (n div 16 mod 16), hex_digit (n mod 16)]"

definition hex_val :: "char \<Rightarrow> nat option" where
  "hex_val c =
     (if is_digit c then Some (cp c - 48)
      else if 97 \<le> cp c \<and> cp c \<le> 102 then Some (cp c - 87)
      else if 65 \<le> cp c \<and> cp c \<le> 70 then Some (cp c - 55) else None)"

fun parse_hex :: "nat \<Rightarrow> string \<Rightarrow> nat option" where
  "parse_hex n [] = Some n"
| "parse_hex n (c # cs) = (case hex_val c of None \<Rightarrow> None | Some d \<Rightarrow> parse_hex (16 * n + d) cs)"

definition draw_rnd :: "(database, nat) py" where
  "draw_rnd = (\<lambda>s. (Inr (rnd s (drawn s) mod 65536), s\<lparr>drawn := Suc (drawn s)\<rparr>))"

definition draw_uuid :: "(database, string) py" where
  "draw_uuid = (\<lambda>s. (Inr (uuid s (drawn s)), s\<lparr>drawn := Suc (drawn s)\<rparr>))"

definition create_new_rev :: "string \<Rightarrow> (database, string) py" where
  "create_new_rev old_rev =
     (if old_rev \<noteq> [] then
        (case parse_hex 0 (take 4 old_rev) of
           None \<Rightarrow> raise RevConflict
         | Some n \<Rightarrow>
             (let rev_num = (if n + 1 > 65025 then 0 else n + 1)
              in bnd draw_rnd (\<lambda>r. ret (hex4 rev_num @ hex4 r))))
      else bnd draw_rnd (\<lambda>r. ret (''0001'' @ hex4 r)))"

section \<open>Operations on one document\<close>

definition lookup :: "database \<Rightarrow> string \<Rightarrow> entry option" where
  "lookup s i = map_of (docs s) i"

definition set_entry :: "string \<Rightarrow> entry \<Rightarrow> database \<Rightarrow> database" where
  "set_entry i e s = s\<lparr>docs := AList.update i e (docs s)\<rparr>"

definition with_meta :: "string \<Rightarrow> string \<Rightarrow> doc \<Rightarrow> doc" where
  "with_meta i r body = dput (dput body ''_id'' (PStr i)) ''_rev'' (PStr r)"

definition strip_meta :: "doc \<Rightarrow> doc" where
  "strip_meta d = dremove (dremove d ''_id'') ''_rev''"

text \<open>\<open>get('id', key)\<close>.\<close>

definition db_get :: "string \<Rightarrow> (database, doc) py" where
  "db_get i = (\<lambda>s. (case lookup s i of
       None \<Rightarrow> Inl RecordNotFound
     | Some Dead \<Rightarrow> Inl RecordDeleted
     | Some (Live r body) \<Rightarrow> Inr (with_meta i r body), s))"

text \<open>\<open>make_key_value\<close> of the id index: the id must have 32 characters; what is stored is the
  document without \<open>_id\<close> and \<open>_rev\<close>.\<close>

definition id_key_value :: "doc \<Rightarrow> (string \<times> doc) res" where
  "id_key_value d =
     rbind (dsub d ''_id'') (\<lambda>v. case v of
       PStr i \<Rightarrow> (if length i \<noteq> 32 then Inl (UserError ''IndexPreconditionsException'')
                 else Inr (i, strip_meta d))
     | _ \<Rightarrow> Inl (UserError ''IndexPreconditionsException''))"

definition ret_meta :: "string \<Rightarrow> string \<Rightarrow> doc" where
  "ret_meta i r = [(''_id'', PStr i), (''_rev'', PStr r)]"

definition db_insert :: "doc \<Rightarrow> (database, doc) py" where
  "db_insert d =
     (if dhas d ''_rev'' then raise PreconditionsException
      else bnd (create_new_rev []) (\<lambda>r.
        bnd (if dhas d ''_id'' then ret (dget d ''_id'') else bnd draw_uuid (\<lambda>i. ret (PStr i))) (\<lambda>v.
          if v = PNone then raise AssertionError
          else bnd (liftr (id_key_value (dput (dput d ''_rev'' (PStr r)) ''_id'' v))) (\<lambda>(i, body).
            bnd (gets (\<lambda>s. lookup s i)) (\<lambda>old.
              if old \<noteq> None then raise (UserError ''IndexException'')
              else bnd (modify (set_entry i (Live r body))) (\<lambda>_. ret (ret_meta i r)))))))"

definition db_update :: "doc \<Rightarrow> (database, doc) py" where
  "db_update d =
     (if \<not> dhas d ''_rev'' \<or> \<not> dhas d ''_id'' then raise PreconditionsException
      else (case dget d ''_rev'' of
        PStr r \<Rightarrow>
          bnd (liftr (id_key_value d)) (\<lambda>(i, body).
          bnd (db_get i) (\<lambda>db_data.
            if dget db_data ''_rev'' \<noteq> PStr r then raise RevConflict
            else bnd (create_new_rev r) (\<lambda>r'.
              bnd (modify (set_entry i (Live r' body))) (\<lambda>_. ret (ret_meta i r')))))
      | _ \<Rightarrow> raise PreconditionsException))"

text \<open>\<open>_single_delete_index\<close> lets an exception of \<open>make_key_value\<close> through: a document some index
  cannot compute its key of is not deleted.\<close>

definition all_keys_ok :: "doc \<Rightarrow> unit res" where
  "all_keys_ok d = foldr_res (\<lambda>(n, f) _. rbind (f d) (\<lambda>_. Inr ())) index_table ()"

definition db_delete :: "doc \<Rightarrow> (database, bool) py" where
  "db_delete d =
     (if \<not> dhas d ''_rev'' \<or> \<not> dhas d ''_id'' then raise PreconditionsException
      else (case (dget d ''_id'', dget d ''_rev'') of
        (PStr i, PStr r) \<Rightarrow>
          bnd (db_get i) (\<lambda>old_data.
            if dget old_data ''_rev'' \<noteq> PStr r then raise RevConflict
            else bnd (liftr (all_keys_ok old_data)) (\<lambda>_.
              bnd (modify (set_entry i Dead)) (\<lambda>_. ret True)))
      | _ \<Rightarrow> raise PreconditionsException))"

section \<open>Queries\<close>

text \<open>The live documents, in the order they were first inserted.\<close>

definition live_docs :: "database \<Rightarrow> doc list" where
  "live_docs s = concat (map (\<lambda>(i, e). case e of Live r b \<Rightarrow> [with_meta i r b] | Dead \<Rightarrow> []) (docs s))"

definition index_entries :: "index_fun \<Rightarrow> doc list \<Rightarrow> (pv \<times> doc \<times> doc) list" where
  "index_entries f ds = concat (map (\<lambda>d. case f d of
       Inr (Some (ks, val)) \<Rightarrow> map (\<lambda>k. (k, val, d)) ks | _ \<Rightarrow> []) ds)"

text \<open>One result of a query: the id, the stored value and the document.\<close>

record hit =
  hit_id :: pv
  hit_key :: pv
  hit_value :: doc
  hit_doc :: doc

definition mk_hit :: "pv \<times> doc \<times> doc \<Rightarrow> hit" where
  "mk_hit e = (case e of (k, val, d) \<Rightarrow>
     \<lparr>hit_id = dget d ''_id'', hit_key = k, hit_value = val, hit_doc = d\<rparr>)"

definition query :: "string \<Rightarrow> pv \<Rightarrow> database \<Rightarrow> hit list res" where
  "query n key s = (case the_index n of
       None \<Rightarrow> Inl IndexNotFound
     | Some f \<Rightarrow> Inr (map mk_hit (filter (\<lambda>e. fst e = make_key n key)
                                   (index_entries f (live_docs s)))))"

definition db_get_many :: "string \<Rightarrow> pv \<Rightarrow> (database, hit list) py" where
  "db_get_many n key = (\<lambda>s. (query n key s, s))"

text \<open>\<open>get\<close> through another index than \<open>id\<close>: its first result.\<close>

definition db_get_by :: "string \<Rightarrow> pv \<Rightarrow> (database, hit) py" where
  "db_get_by n key = (\<lambda>s. (rbind (query n key s) (\<lambda>hs. case hs of
       [] \<Rightarrow> Inl RecordNotFound | h # _ \<Rightarrow> Inr h), s))"

text \<open>\<open>all(index, limit, offset)\<close>: all results in the order of the keys.\<close>

definition take_limit :: "int \<Rightarrow> 'a list \<Rightarrow> 'a list" where
  "take_limit limit xs = (if limit < 0 then xs else take (nat limit) xs)"

definition db_all :: "string \<Rightarrow> int \<Rightarrow> nat \<Rightarrow> (database, hit list) py" where
  "db_all n limit offset = (\<lambda>s. (case the_index n of
       None \<Rightarrow> Inl IndexNotFound
     | Some f \<Rightarrow> Inr (take_limit limit (drop offset (sorted_by (\<lambda>h. key_rank (hit_key h))
                   (map mk_hit (index_entries f (live_docs s)))))), s))"

definition db_all_ids :: "(database, doc list) py" where
  "db_all_ids = gets live_docs"

section \<open>Facts about revisions\<close>

lemma hex_val_digit: "n < 16 \<Longrightarrow> hex_val (hex_digit n) = Some n"
  by (auto simp: hex_val_def hex_digit_def is_digit_def)

lemma parse_hex4: "n < 65536 \<Longrightarrow> parse_hex 0 (hex4 n) = Some n"
proof -
  assume n: "n < 65536"
  have d: "n div 256 = n div 16 div 16" "n div 4096 = n div 16 div 16 div 16"
    by (simp_all add: div_mult2_eq [symmetric])
  have "n div 16 div 16 div 16 mod 16 = n div 16 div 16 div 16"
    using n by (simp add: div_mult2_eq [symmetric])
  then have "((n div 4096 mod 16 * 16 + n div 256 mod 16) * 16 + n div 16 mod 16) * 16 + n mod 16 = n"
    unfolding d by (simp only: div_mult_mod_eq)
  moreover have "parse_hex 0 (hex4 n) =
    Some (16 * (16 * (16 * (16 * 0 + n div 4096 mod 16) + n div 256 mod 16) + n div 16 mod 16) + n mod 16)"
    unfolding hex4_def parse_hex.simps by (simp add: hex_val_digit)
  moreover have "n div 4096 mod 16 = n div 4096" using n by simp
  ultimately show ?thesis by (simp add: algebra_simps)
qed

lemma length_hex4 [simp]: "length (hex4 n) = 4"
  by (simp add: hex4_def)

definition rev_ok :: "string \<Rightarrow> bool" where
  "rev_ok r = (length r = 8 \<and> parse_hex 0 (take 4 r) \<noteq> None)"

lemma rev_ok_first: "rev_ok (''0001'' @ hex4 r)"
  by (simp add: rev_ok_def hex_val_def is_digit_def cp_def)

text \<open>The next revision of a well-formed one exists, is well formed and different.\<close>

lemma create_new_rev_ok:
  assumes "rev_ok r"
  shows "\<exists>r'. create_new_rev r s = (Inr r', s\<lparr>drawn := Suc (drawn s)\<rparr>) \<and> rev_ok r' \<and> r' \<noteq> r"
proof -
  have r: "r \<noteq> []" using assms by (auto simp: rev_ok_def)
  from assms obtain n where n: "parse_hex 0 (take 4 r) = Some n"
    by (auto simp: rev_ok_def)
  define m where "m = (if n + 1 > 65025 then 0 else n + 1)"
  have m: "m < 65536" "m \<noteq> n" by (auto simp: m_def)
  let ?r' = "hex4 m @ hex4 (rnd s (drawn s) mod 65536)"
  have "create_new_rev r s = (Inr ?r', s\<lparr>drawn := Suc (drawn s)\<rparr>)"
    using n r by (simp add: create_new_rev_def draw_rnd_def py_simps Let_def m_def)
  moreover have "rev_ok ?r'" using m by (simp add: rev_ok_def parse_hex4)
  moreover have "parse_hex 0 (take 4 ?r') = Some m" using m by (simp add: parse_hex4)
  then have "?r' \<noteq> r" using n m by auto
  ultimately show ?thesis by blast
qed

lemma create_new_rev_frame: "create_new_rev r s = (x, s') \<Longrightarrow> docs s' = docs s"
  by (auto simp: create_new_rev_def draw_rnd_def py_simps Let_def split: option.splits if_splits)

section \<open>The invariant\<close>

definition live :: "database \<Rightarrow> string \<Rightarrow> doc option" where
  "live s i = (case lookup s i of Some (Live r b) \<Rightarrow> Some (with_meta i r b) | _ \<Rightarrow> None)"

fun entry_ok :: "string \<Rightarrow> entry \<Rightarrow> bool" where
  "entry_ok i Dead = True"
| "entry_ok i (Live r b) =
     (length i = 32 \<and> rev_ok r \<and> \<not> dhas b ''_id'' \<and> \<not> dhas b ''_rev'')"

definition db_ok :: "database \<Rightarrow> bool" where
  "db_ok s = (distinct (map fst (docs s)) \<and> (\<forall>(i, e) \<in> set (docs s). entry_ok i e))"

lemma lookup_set_entry: "lookup (set_entry i e s) j = (if i = j then Some e else lookup s j)"
  by (simp add: lookup_def set_entry_def update_conv')

lemma lookup_drawn [simp]: "lookup (s\<lparr>drawn := n\<rparr>) i = lookup s i"
  by (simp add: lookup_def)

lemma db_okD:
  assumes "db_ok s" "lookup s i = Some (Live r b)"
  shows "length i = 32" "rev_ok r" "\<not> dhas b ''_id''" "\<not> dhas b ''_rev''"
proof -
  have "(i, Live r b) \<in> set (docs s)"
    using assms(2) unfolding lookup_def by (rule map_of_SomeD)
  with assms(1) have "entry_ok i (Live r b)" unfolding db_ok_def by blast
  then show "length i = 32" "rev_ok r" "\<not> dhas b ''_id''" "\<not> dhas b ''_rev''" by simp_all
qed

lemma set_update_subset: "set (AList.update k v al) \<subseteq> insert (k, v) (set al)"
  by (induction al) auto

lemma db_ok_set_entry:
  assumes "db_ok s" and "entry_ok i e"
  shows "db_ok (set_entry i e s)"
proof -
  have "distinct (map fst (AList.update i e (docs s)))"
    using assms(1) by (simp add: db_ok_def distinct_update)
  moreover have "entry_ok j e'" if "(j, e') \<in> set (AList.update i e (docs s))" for j e'
    using that set_update_subset [of i e "docs s"] assms by (auto simp: db_ok_def)
  ultimately show ?thesis by (auto simp: db_ok_def set_entry_def)
qed

lemma db_ok_drawn [simp]: "db_ok (s\<lparr>drawn := n\<rparr>) = db_ok s"
  by (simp add: db_ok_def)

lemma strip_meta_no_meta [simp]: "\<not> dhas (strip_meta d) ''_id''" "\<not> dhas (strip_meta d) ''_rev''"
  by (simp_all add: strip_meta_def)

lemma dget_strip_meta [simp]: "k \<noteq> ''_id'' \<Longrightarrow> k \<noteq> ''_rev'' \<Longrightarrow> dget (strip_meta d) k = dget d k"
  by (simp add: strip_meta_def)

lemma with_meta_simps [simp]:
  "dget (with_meta i r b) ''_id'' = PStr i" "dget (with_meta i r b) ''_rev'' = PStr r"
  "dhas (with_meta i r b) ''_id''" "dhas (with_meta i r b) ''_rev''"
  by (simp_all add: with_meta_def)

lemma dget_with_meta [simp]:
  "k \<noteq> ''_id'' \<Longrightarrow> k \<noteq> ''_rev'' \<Longrightarrow> dget (with_meta i r b) k = dget b k"
  by (simp add: with_meta_def)

section \<open>What the operations do\<close>

lemma db_get_live: "live s i = Some d \<Longrightarrow> db_get i s = (Inr d, s)"
  by (auto simp: live_def db_get_def split: option.splits entry.splits)

lemma db_get_Inr: "db_get i s = (Inr d, s') \<Longrightarrow> s' = s \<and> live s i = Some d"
  by (auto simp: live_def db_get_def split: option.splits entry.splits)

lemma db_get_state [simp]: "snd (db_get i s) = s"
  by (simp add: db_get_def)

lemma live_set_entry:
  "live (set_entry i e s) j =
     (if i = j then (case e of Live r b \<Rightarrow> Some (with_meta i r b) | Dead \<Rightarrow> None) else live s j)"
  by (auto simp: live_def lookup_set_entry split: entry.splits)

lemma live_drawn [simp]: "live (s\<lparr>drawn := n\<rparr>) i = live s i"
  by (simp add: live_def)

text \<open>An update with the current revision replaces the document and moves its revision on.\<close>

lemma db_update_run:
  assumes ok: "db_ok s" and i: "lookup s i = Some (Live r b)"
    and d: "dhas d ''_id''" "dhas d ''_rev''" "dget d ''_id'' = PStr i" "dget d ''_rev'' = PStr r"
  shows "\<exists>r'. db_update d s =
      (Inr (ret_meta i r'), set_entry i (Live r' (strip_meta d)) (s\<lparr>drawn := Suc (drawn s)\<rparr>))
      \<and> rev_ok r' \<and> r' \<noteq> r"
proof -
  obtain r' where r': "create_new_rev r s = (Inr r', s\<lparr>drawn := Suc (drawn s)\<rparr>)"
    "rev_ok r'" "r' \<noteq> r"
    using create_new_rev_ok db_okD(2) [OF ok i] by blast
  have "id_key_value d = Inr (i, strip_meta d)"
    using d db_okD(1) [OF ok i] by (simp add: id_key_value_def dsub_eq_dget)
  moreover have "db_get i s = (Inr (with_meta i r b), s)"
    using i by (simp add: db_get_def)
  ultimately show ?thesis
    using d r' by (intro exI [of _ r']) (simp add: db_update_def py_simps)
qed

lemma db_update_stale:
  assumes ok: "db_ok s" and i: "lookup s i = Some (Live r b)"
    and d: "dhas d ''_id''" "dhas d ''_rev''" "dget d ''_id'' = PStr i"
      "dget d ''_rev'' = PStr r0" "r0 \<noteq> r"
  shows "db_update d s = (Inl RevConflict, s)"
proof -
  have "id_key_value d = Inr (i, strip_meta d)"
    using d db_okD(1) [OF ok i] by (simp add: id_key_value_def dsub_eq_dget)
  moreover have "db_get i s = (Inr (with_meta i r b), s)"
    using i by (simp add: db_get_def)
  ultimately show ?thesis using d by (simp add: db_update_def py_simps)
qed

lemma strip_meta_dput_meta [simp]:
  "strip_meta (dput d ''_id'' v) = strip_meta d" "strip_meta (dput d ''_rev'' v) = strip_meta d"
  by (simp_all add: strip_meta_def dremove_def dput_def delete_update delete_update_same)

lemma db_insert_run:
  assumes "db_ok s" and d: "\<not> dhas d ''_rev''" "\<not> dhas d ''_id''"
    and i: "i = uuid s (Suc (drawn s))" "length i = 32" "lookup s i = None"
  shows "\<exists>r. db_insert d s =
      (Inr (ret_meta i r), set_entry i (Live r (strip_meta d)) (s\<lparr>drawn := Suc (Suc (drawn s))\<rparr>))
      \<and> rev_ok r"
proof -
  let ?r = "''0001'' @ hex4 (rnd s (drawn s) mod 65536)"
  have "id_key_value (dput (dput d ''_rev'' (PStr ?r)) ''_id'' (PStr i)) = Inr (i, strip_meta d)"
    using i(2) d by (simp add: id_key_value_def strip_meta_dput_meta)
  then have "db_insert d s =
      (Inr (ret_meta i ?r), set_entry i (Live ?r (strip_meta d)) (s\<lparr>drawn := Suc (Suc (drawn s))\<rparr>))"
    using d i by (simp add: db_insert_def create_new_rev_def draw_rnd_def draw_uuid_def py_simps)
  then show ?thesis using rev_ok_first by blast
qed

lemma db_delete_run:
  assumes i: "lookup s i = Some (Live r b)" and k: "all_keys_ok (with_meta i r b) = Inr ()"
    and d: "dhas d ''_id''" "dhas d ''_rev''" "dget d ''_id'' = PStr i" "dget d ''_rev'' = PStr r"
  shows "db_delete d s = (Inr True, set_entry i Dead s)"
proof -
  have "db_get i s = (Inr (with_meta i r b), s)" using i by (simp add: db_get_def)
  then show ?thesis using d k by (simp add: db_delete_def py_simps)
qed

lemma db_get_dead: "lookup s i = Some Dead \<Longrightarrow> db_get i s = (Inl RecordDeleted, s)"
  by (simp add: db_get_def)

text \<open>Every operation keeps the invariant, whether it succeeds or raises, and a dead id stays dead.\<close>

definition db_step :: "database \<Rightarrow> database \<Rightarrow> bool" where
  "db_step s t \<longleftrightarrow> (db_ok s \<longrightarrow> db_ok t) \<and> (\<forall>i. lookup s i = Some Dead \<longrightarrow> lookup t i = Some Dead)"

interpretation dbf: frame db_step
  by unfold_locales (auto simp: db_step_def)

lemma keeps_draw: "keeps db_step draw_rnd" "keeps db_step draw_uuid"
  by (simp_all add: keeps_def db_step_def draw_rnd_def draw_uuid_def)

lemma keeps_create_new_rev: "keeps db_step (create_new_rev r)"
  unfolding create_new_rev_def Let_def
  by (auto intro!: dbf.keeps_intros keeps_draw split: option.split)

lemma keeps_db_get: "keeps db_step (db_get i)"
  by (simp add: keeps_def db_step_def)

lemma id_key_value_Inr:
  assumes "id_key_value d = Inr (i, b)"
  shows "length i = 32" "b = strip_meta d" "dhas d ''_id''" "dget d ''_id'' = PStr i"
proof -
  obtain v where v: "dsub d ''_id'' = Inr v"
    using assms by (cases "dsub d ''_id''") (auto simp: id_key_value_def)
  with assms have "v = PStr i" "length i = 32" "b = strip_meta d"
    by (cases v; auto simp: id_key_value_def split: if_splits)+
  with dsub_Inr [OF v] show "length i = 32" "b = strip_meta d" "dhas d ''_id''" "dget d ''_id'' = PStr i"
    by simp_all
qed

lemma keeps_db_update: "keeps db_step (db_update d)"
proof (rule keepsI)
  fix s
  show "db_step s (snd (db_update d s))"
  proof (cases "\<exists>v t. db_update d s = (Inr v, t)")
    case False
    then have "docs (snd (db_update d s)) = docs s"
      by (auto simp: db_update_def py_simps create_new_rev_def draw_rnd_def db_get_def Let_def
          split: pv.splits sum.splits option.splits entry.splits if_splits prod.splits)
    then show ?thesis by (simp add: db_step_def db_ok_def lookup_def)
  next
    case True
    then obtain v t where vt: "db_update d s = (Inr v, t)" by blast
    have cond: "dhas d ''_rev''" "dhas d ''_id''"
      using vt by (auto simp: db_update_def py_simps split: if_splits)
    from vt cond obtain r where r: "dget d ''_rev'' = PStr r"
      by (auto simp: db_update_def py_simps split: pv.splits)
    from vt cond r obtain i b where ib: "id_key_value d = Inr (i, b)"
      by (auto simp: db_update_def py_simps split: sum.splits)
    from vt cond r ib obtain db_data where g: "db_get i s = (Inr db_data, s)"
      by (auto simp: db_update_def py_simps db_get_def split: option.splits entry.splits)
    from vt cond r ib g have eq: "dget db_data ''_rev'' = PStr r"
      by (auto simp: db_update_def py_simps split: if_splits)
    from g obtain b0 where l: "lookup s i = Some (Live r b0)"
      using eq by (auto simp: db_get_def split: option.splits entry.splits)
    note ik = id_key_value_Inr [OF ib]
    show ?thesis
    proof (cases "db_ok s")
      case ok: True
      obtain r' where r': "db_update d s =
          (Inr (ret_meta i r'), set_entry i (Live r' (strip_meta d)) (s\<lparr>drawn := Suc (drawn s)\<rparr>))"
        "rev_ok r'"
        using db_update_run [OF ok l cond(2) cond(1)] ik r by blast
      show ?thesis
        unfolding r' snd_conv db_step_def
        using ok ik r'(2) l by (auto intro!: db_ok_set_entry simp: lookup_set_entry)
    next
      case False
      have "\<exists>e n. t = set_entry i e (s\<lparr>drawn := n\<rparr>)"
        using vt cond r ib g eq
        by (auto simp: db_update_def py_simps create_new_rev_def draw_rnd_def Let_def
            split: option.splits if_splits)
      then show ?thesis using False l vt by (auto simp: db_step_def lookup_set_entry)
    qed
  qed
qed

lemma db_step_set_live:
  assumes "entry_ok i (Live r b)" "lookup s i \<noteq> Some Dead"
  shows "db_step s (set_entry i (Live r b) (s\<lparr>drawn := n\<rparr>))"
  using assms by (auto simp: db_step_def lookup_set_entry intro: db_ok_set_entry)

lemma db_step_drawn: "db_step s (s\<lparr>drawn := n\<rparr>)"
  by (simp add: db_step_def)

lemma keeps_db_insert: "keeps db_step (db_insert d)"
proof (rule keepsI)
  fix s :: database
  let ?r = "''0001'' @ hex4 (rnd s (drawn s) mod 65536)"
  have "\<exists>v n. (if dhas d ''_id'' then ret (dget d ''_id'') else bnd draw_uuid (\<lambda>i. ret (PStr i)))
      (s\<lparr>drawn := Suc (drawn s)\<rparr>) = (Inr v, s\<lparr>drawn := n\<rparr>)"
    by (auto simp: py_simps draw_uuid_def)
  then obtain v n where v: "(if dhas d ''_id'' then ret (dget d ''_id'') else bnd draw_uuid (\<lambda>i. ret (PStr i)))
      (s\<lparr>drawn := Suc (drawn s)\<rparr>) = (Inr v, s\<lparr>drawn := n\<rparr>)" by blast
  let ?kv = "id_key_value (dput (dput d ''_rev'' (PStr ?r)) ''_id'' v)"
  have "db_insert d s = (if dhas d ''_rev'' then (Inl PreconditionsException, s) else
      if v = PNone then (Inl AssertionError, s\<lparr>drawn := n\<rparr>) else
      case ?kv of Inl e \<Rightarrow> (Inl e, s\<lparr>drawn := n\<rparr>) | Inr (i, b) \<Rightarrow>
        if lookup s i \<noteq> None then (Inl (UserError ''IndexException''), s\<lparr>drawn := n\<rparr>)
        else (Inr (ret_meta i ?r), set_entry i (Live ?r b) (s\<lparr>drawn := n\<rparr>)))"
    using v by (simp add: db_insert_def py_simps create_new_rev_def draw_rnd_def split: sum.split prod.split)
  moreover have "db_step s (set_entry i (Live ?r b) (s\<lparr>drawn := n\<rparr>))"
    if "?kv = Inr (i, b)" "lookup s i = None" for i b
    using id_key_value_Inr [OF that(1)] that(2) rev_ok_first by (intro db_step_set_live) auto
  ultimately show "db_step s (snd (db_insert d s))"
    by (auto simp: db_step_drawn dbf.frame_refl split: sum.split)
qed

lemma keeps_db_delete: "keeps db_step (db_delete d)"
proof -
  have "keeps db_step (modify (set_entry i Dead))" for i
    by (auto simp: keeps_def modify_def db_step_def lookup_set_entry intro: db_ok_set_entry)
  then show ?thesis unfolding db_delete_def
    by (auto intro!: dbf.keeps_intros keeps_db_get split: pv.split)
qed

lemma keeps_db_queries:
  "keeps db_step (db_get_many n k)" "keeps db_step (db_get_by n k)"
  "keeps db_step (db_all n l off)" "keeps db_step db_all_ids"
  by (simp_all add: keeps_def db_get_many_def db_get_by_def db_all_def db_all_ids_def gets_def dbf.frame_refl)

section \<open>The interface components rely on\<close>

text \<open>
  What a component assumes of the store when it reads a document, changes it and writes it back:
  \<open>get\<close> returns the live document with its id and revision, and \<open>upd\<close> of a document that still
  carries them succeeds, replaces exactly that document (its revision aside) and keeps the store's
  invariant.
\<close>

definition doc_id :: "doc \<Rightarrow> string" where
  "doc_id d = str_or_empty (dget d ''_id'')"

locale doc_store =
  fixes get :: "string \<Rightarrow> ('s, doc) py"
    and upd :: "doc \<Rightarrow> ('s, doc) py"
    and look :: "'s \<Rightarrow> string \<Rightarrow> doc option"
    and inv :: "'s \<Rightarrow> bool"
  assumes get_law: "inv s \<Longrightarrow> look s i = Some d \<Longrightarrow> get i s = (Inr d, s)"
    and meta_law: "inv s \<Longrightarrow> look s i = Some d \<Longrightarrow>
      dhas d ''_id'' \<and> dget d ''_id'' = PStr i \<and> dhas d ''_rev''"
    and upd_law: "inv s \<Longrightarrow> look s i = Some d \<Longrightarrow>
      dhas d' ''_id'' \<and> dget d' ''_id'' = PStr i \<and> dhas d' ''_rev'' \<and> dget d' ''_rev'' = dget d ''_rev'' \<Longrightarrow>
      \<exists>r s' d2. upd d' s = (Inr r, s') \<and> inv s' \<and> look s' i = Some d2 \<and>
        (\<forall>k. k \<noteq> ''_rev'' \<longrightarrow> dget d2 k = dget d' k) \<and> (\<forall>j. j \<noteq> i \<longrightarrow> look s' j = look s j)"
begin

lemma upd_put:
  assumes "inv s" "look s i = Some d" "k \<noteq> ''_id''" "k \<noteq> ''_rev''"
  shows "\<exists>r s' d2. upd (dput d k v) s = (Inr r, s') \<and> inv s' \<and> look s' i = Some d2 \<and>
    dget d2 k = v \<and> (\<forall>k'. k' \<noteq> ''_rev'' \<longrightarrow> k' \<noteq> k \<longrightarrow> dget d2 k' = dget d k') \<and>
    (\<forall>j. j \<noteq> i \<longrightarrow> look s' j = look s j)"
proof -
  have "dhas (dput d k v) ''_id'' \<and> dget (dput d k v) ''_id'' = PStr i \<and>
      dhas (dput d k v) ''_rev'' \<and> dget (dput d k v) ''_rev'' = dget d ''_rev''"
    using meta_law [OF assms(1,2)] assms(3,4) by simp
  from upd_law [OF assms(1,2) this] obtain r s' d2 where
    u: "upd (dput d k v) s = (Inr r, s')" "inv s'" "look s' i = Some d2"
       "\<forall>k'. k' \<noteq> ''_rev'' \<longrightarrow> dget d2 k' = dget (dput d k v) k'" "\<forall>j. j \<noteq> i \<longrightarrow> look s' j = look s j"
    by blast
  from u(4) assms(4) have "dget d2 k = v" by simp
  moreover have "\<forall>k'. k' \<noteq> ''_rev'' \<longrightarrow> k' \<noteq> k \<longrightarrow> dget d2 k' = dget d k'"
    using u(4) by (simp add: dget_dput)
  ultimately show ?thesis using u by blast
qed

text \<open>Reading a document, changing one field and writing it back changes that field and nothing else.\<close>

lemma read_modify_write:
  assumes "inv s" "look s i = Some d" "k \<noteq> ''_id''" "k \<noteq> ''_rev''"
  shows "\<exists>r s' d2. bnd (get i) (\<lambda>d. upd (dput d k v)) s = (Inr r, s') \<and> inv s' \<and> look s' i = Some d2 \<and>
    dget d2 k = v \<and> (\<forall>k'. k' \<noteq> ''_rev'' \<longrightarrow> k' \<noteq> k \<longrightarrow> dget d2 k' = dget d k') \<and>
    (\<forall>j. j \<noteq> i \<longrightarrow> look s' j = look s j)"
  using upd_put [OF assms] by (simp add: py_simps get_law [OF assms(1,2)])

text \<open>The loop that writes one field of each selected document of a list read before.\<close>

lemma for_each_put:
  assumes "inv s" "\<forall>d \<in> set ds. look s (doc_id d) = Some d" "distinct (map doc_id ds)"
    and k: "k \<noteq> ''_id''" "k \<noteq> ''_rev''"
  shows "\<exists>s'. for_each ds (\<lambda>d. whenp (P d) (bnd (upd (dput d k v)) (\<lambda>_. ret ()))) s = (Inr (), s') \<and> inv s' \<and>
    (\<forall>d \<in> set ds. \<exists>d2. look s' (doc_id d) = Some d2 \<and> dget d2 k = (if P d then v else dget d k) \<and>
       (\<forall>k'. k' \<noteq> ''_rev'' \<longrightarrow> k' \<noteq> k \<longrightarrow> dget d2 k' = dget d k')) \<and>
    (\<forall>j. j \<notin> doc_id ` set ds \<longrightarrow> look s' j = look s j)"
  using assms(1-3)
proof (induction ds arbitrary: s)
  case Nil
  then show ?case by (simp add: py_simps)
next
  case (Cons d ds)
  let ?body = "\<lambda>d. whenp (P d) (bnd (upd (dput d k v)) (\<lambda>_. ret ()))"
  have l: "look s (doc_id d) = Some d" using Cons.prems by simp
  have "\<exists>t d2. ?body d s = (Inr (), t) \<and> inv t \<and> look t (doc_id d) = Some d2 \<and>
      dget d2 k = (if P d then v else dget d k) \<and>
      (\<forall>k'. k' \<noteq> ''_rev'' \<longrightarrow> k' \<noteq> k \<longrightarrow> dget d2 k' = dget d k') \<and> (\<forall>j. j \<noteq> doc_id d \<longrightarrow> look t j = look s j)"
  proof (cases "P d")
    case True
    from upd_put [OF Cons.prems(1) l k, of v] obtain r t d2 where
      u: "upd (dput d k v) s = (Inr r, t)" "inv t" "look t (doc_id d) = Some d2" "dget d2 k = v"
        "\<forall>k'. k' \<noteq> ''_rev'' \<longrightarrow> k' \<noteq> k \<longrightarrow> dget d2 k' = dget d k'" "\<forall>j. j \<noteq> doc_id d \<longrightarrow> look t j = look s j"
      by blast
    then have "?body d s = (Inr (), t)" using True by (simp add: py_simps)
    with u True show ?thesis by (intro exI [of _ t] exI [of _ d2]) simp
  next
    case False
    then show ?thesis using Cons.prems(1) l by (simp add: py_simps)
  qed
  then obtain t d2 where t: "?body d s = (Inr (), t)" "inv t" "look t (doc_id d) = Some d2"
      "dget d2 k = (if P d then v else dget d k)"
      "\<forall>k'. k' \<noteq> ''_rev'' \<longrightarrow> k' \<noteq> k \<longrightarrow> dget d2 k' = dget d k'" "\<forall>j. j \<noteq> doc_id d \<longrightarrow> look t j = look s j"
    by blast
  have "look t (doc_id e) = Some e" if e: "e \<in> set ds" for e
  proof -
    have "doc_id e \<noteq> doc_id d" using Cons.prems(3) e by (metis distinct.simps(2) image_eqI list.map(2) set_map)
    with t(6) have "look t (doc_id e) = look s (doc_id e)" by blast
    with Cons.prems(2) e show ?thesis by simp
  qed
  then have "\<forall>e \<in> set ds. look t (doc_id e) = Some e" by blast
  from Cons.IH [OF t(2) this] Cons.prems(3) obtain u where
    u: "for_each ds ?body t = (Inr (), u)" "inv u"
      "\<forall>d \<in> set ds. \<exists>d2. look u (doc_id d) = Some d2 \<and> dget d2 k = (if P d then v else dget d k) \<and>
         (\<forall>k'. k' \<noteq> ''_rev'' \<longrightarrow> k' \<noteq> k \<longrightarrow> dget d2 k' = dget d k')"
      "\<forall>j. j \<notin> doc_id ` set ds \<longrightarrow> look u j = look t j"
    by auto
  have "look u (doc_id d) = Some d2" using u(4) t(3) Cons.prems(3) by auto
  moreover have "for_each (d # ds) ?body s = (Inr (), u)" using t(1) u(1) by (simp add: py_simps)
  moreover have "\<forall>j. j \<notin> doc_id ` set (d # ds) \<longrightarrow> look u j = look s j" using t(6) u(4) by simp
  ultimately show ?case using t(4,5) u(2,3)
    by (intro exI [of _ u] conjI ballI) (auto simp del: for_each.simps)
qed

end

lemma live_lookup: "live s i = Some d \<longleftrightarrow> (\<exists>r b. lookup s i = Some (Live r b) \<and> d = with_meta i r b)"
  by (auto simp: live_def split: option.splits entry.splits)

lemma db_update_law:
  assumes ok: "db_ok s" and l: "live s i = Some d"
    and d': "dhas d' ''_id'' \<and> dget d' ''_id'' = PStr i \<and> dhas d' ''_rev'' \<and> dget d' ''_rev'' = dget d ''_rev''"
  shows "\<exists>r s' d2. db_update d' s = (Inr r, s') \<and> db_ok s' \<and> live s' i = Some d2 \<and>
      (\<forall>k. k \<noteq> ''_rev'' \<longrightarrow> dget d2 k = dget d' k) \<and> (\<forall>j. j \<noteq> i \<longrightarrow> live s' j = live s j)"
proof -
  from l obtain r b where rb: "lookup s i = Some (Live r b)" "d = with_meta i r b"
    by (auto simp: live_lookup)
  obtain r' where u: "db_update d' s =
      (Inr (ret_meta i r'), set_entry i (Live r' (strip_meta d')) (s\<lparr>drawn := Suc (drawn s)\<rparr>))"
    using db_update_run [OF ok rb(1)] d' rb(2) by auto
  let ?t = "set_entry i (Live r' (strip_meta d')) (s\<lparr>drawn := Suc (drawn s)\<rparr>)"
  have "db_ok ?t" using keepsD [OF keeps_db_update, of s d'] ok u by (simp add: db_step_def)
  moreover have "live ?t i = Some (with_meta i r' (strip_meta d'))" by (simp add: live_set_entry)
  moreover have "\<forall>k. k \<noteq> ''_rev'' \<longrightarrow> dget (with_meta i r' (strip_meta d')) k = dget d' k"
    using d' by (metis (no_types) dget_with_meta dget_strip_meta with_meta_simps(1))
  moreover have "\<forall>j. j \<noteq> i \<longrightarrow> live ?t j = live s j" by (simp add: live_set_entry)
  ultimately show ?thesis using u by blast
qed

interpretation dbs: doc_store db_get db_update live db_ok
proof
  fix s i d assume "db_ok s" "live s i = Some d"
  show "db_get i s = (Inr d, s)" by (rule db_get_live) fact
  from \<open>live s i = Some d\<close> show "dhas d ''_id'' \<and> dget d ''_id'' = PStr i \<and> dhas d ''_rev''"
    by (auto simp: live_lookup)
qed (rule db_update_law)

section \<open>What the queries return\<close>

lemma set_live_docs: "db_ok s \<Longrightarrow> d \<in> set (live_docs s) \<longleftrightarrow> (\<exists>i. live s i = Some d)"
proof
  assume ok: "db_ok s"
  {
    assume "d \<in> set (live_docs s)"
    then obtain i r b where "(i, Live r b) \<in> set (docs s)" "d = with_meta i r b"
      by (auto simp: live_docs_def split: entry.splits)
    then have "lookup s i = Some (Live r b)" using ok
      by (simp add: lookup_def db_ok_def)
    with \<open>d = _\<close> show "\<exists>i. live s i = Some d" by (auto simp: live_lookup)
  }
  assume "\<exists>i. live s i = Some d"
  then obtain i r b where "lookup s i = Some (Live r b)" "d = with_meta i r b"
    by (auto simp: live_lookup)
  then show "d \<in> set (live_docs s)"
    using map_of_SomeD [of "docs s" i "Live r b"] by (force simp: live_docs_def lookup_def)
qed

lemma set_index_entries:
  "(k, val, d) \<in> set (index_entries f ds) \<longleftrightarrow> d \<in> set ds \<and> (\<exists>ks. f d = Inr (Some (ks, val)) \<and> k \<in> set ks)"
proof (induction ds)
  case Nil
  show ?case by (simp add: index_entries_def)
next
  case (Cons d0 ds)
  have "index_entries f (d0 # ds) = (case f d0 of
      Inr (Some (ks, val)) \<Rightarrow> map (\<lambda>k. (k, val, d0)) ks | _ \<Rightarrow> []) @ index_entries f ds"
    by (simp add: index_entries_def)
  with Cons.IH show ?case
    by (cases "f d0"; cases "case f d0 of Inr (Some p) \<Rightarrow> p | _ \<Rightarrow> undefined")
      (auto split: option.splits)
qed

text \<open>A query finds exactly the live documents the index has under that key.\<close>

lemma query_iff:
  assumes "db_ok s" "the_index n = Some f" "query n key s = Inr hs"
  shows "h \<in> set hs \<longleftrightarrow> (\<exists>i d ks val. live s i = Some d \<and> f d = Inr (Some (ks, val)) \<and>
     make_key n key \<in> set ks \<and> h = mk_hit (make_key n key, val, d))"
proof -
  have hs: "hs = map mk_hit (filter (\<lambda>e. fst e = make_key n key) (index_entries f (live_docs s)))"
    using assms(2,3) by (simp add: query_def)
  have "h \<in> set hs \<longleftrightarrow> (\<exists>val d. (make_key n key, val, d) \<in> set (index_entries f (live_docs s)) \<and>
      h = mk_hit (make_key n key, val, d))"
    unfolding hs by (auto simp: image_iff) 
  then show ?thesis by (simp add: set_index_entries set_live_docs [OF assms(1)]) blast
qed

lemma distinct_live_docs:
  assumes "db_ok s"
  shows "distinct (map doc_id (live_docs s))"
proof -
  have "map doc_id (concat (map (\<lambda>(i, e). case e of Live r b \<Rightarrow> [with_meta i r b] | Dead \<Rightarrow> []) al)) =
      map fst (filter (\<lambda>(i, e). e \<noteq> Dead) al)" for al
    by (induction al) (auto simp: doc_id_def split: entry.splits)
  moreover have "distinct (map fst (filter P (docs s)))" for P
    using assms by (simp add: db_ok_def distinct_map_filter)
  ultimately show ?thesis by (simp add: live_docs_def)
qed

text \<open>An index with one key per document returns each document once.\<close>

definition one_key :: "index_fun \<Rightarrow> bool" where
  "one_key f \<longleftrightarrow> (\<forall>d ks val. f d = Inr (Some (ks, val)) \<longrightarrow> length ks = 1)"

definition has_key :: "index_fun \<Rightarrow> pv \<Rightarrow> doc \<Rightarrow> bool" where
  "has_key f k d = (case f d of Inr (Some (ks, _)) \<Rightarrow> k \<in> set ks | _ \<Rightarrow> False)"

lemma query_one_key:
  assumes "the_index n = Some f" "one_key f"
  shows "\<exists>hs. query n key s = Inr hs \<and> map hit_doc hs = filter (has_key f (make_key n key)) (live_docs s)"
proof -
  let ?k = "make_key n key"
  have "map hit_doc (map mk_hit (filter (\<lambda>e. fst e = ?k) (index_entries f ds))) = filter (has_key f ?k) ds" for ds
  proof (induction ds)
    case Nil
    show ?case by (simp add: index_entries_def)
  next
    case (Cons d ds)
    have c: "index_entries f (d # ds) = index_entries f [d] @ index_entries f ds"
      by (simp add: index_entries_def)
    have "map hit_doc (map mk_hit (filter (\<lambda>e. fst e = ?k) (index_entries f [d]))) = filter (has_key f ?k) [d]"
    proof (cases "f d")
      case (Inr o1)
      show ?thesis
      proof (cases o1)
        case (Some kv)
        obtain ks val where kv: "kv = (ks, val)" by (cases kv)
        with Inr Some assms(2) obtain k where "ks = [k]"
          by (auto simp: one_key_def length_Suc_conv)
        with Inr Some kv show ?thesis by (simp add: index_entries_def has_key_def mk_hit_def)
      qed (simp add: Inr index_entries_def has_key_def)
    qed (simp add: index_entries_def has_key_def)
    then show ?case unfolding c using Cons.IH by (simp add: filter_append)
  qed
  then show ?thesis using assms(1) by (simp add: query_def)
qed

lemma query_one_key_Nil:
  assumes "the_index n = Some f" "one_key f" "db_ok s"
    and "\<And>i d. live s i = Some d \<Longrightarrow> \<not> has_key f (make_key n key) d"
  shows "query n key s = Inr []"
proof -
  obtain hs where hs: "query n key s = Inr hs" "map hit_doc hs = filter (has_key f (make_key n key)) (live_docs s)"
    using query_one_key [OF assms(1,2)] by blast
  have "filter (has_key f (make_key n key)) (live_docs s) = []"
    using assms(4) set_live_docs [OF assms(3)] by (auto simp: filter_empty_conv)
  with hs show ?thesis by simp
qed

section \<open>Deleting\<close>

lemma db_delete_live:
  assumes "live s i = Some d" "all_keys_ok d = Inr ()"
  shows "db_delete d s = (Inr True, set_entry i Dead s)"
proof -
  from assms(1) obtain r b where rb: "lookup s i = Some (Live r b)" "d = with_meta i r b"
    by (auto simp: live_lookup)
  show ?thesis using rb assms(2) by (intro db_delete_run) auto
qed

lemma for_each_delete:
  assumes "db_ok s" "\<forall>d \<in> set ds. live s (doc_id d) = Some d \<and> all_keys_ok d = Inr ()" "distinct (map doc_id ds)"
  shows "\<exists>s'. for_each ds (\<lambda>d. bnd (db_delete d) (\<lambda>_. ret ())) s = (Inr (), s') \<and> db_ok s' \<and>
    (\<forall>j. live s' j = (if j \<in> doc_id ` set ds then None else live s j)) \<and>
    (\<forall>j. j \<in> doc_id ` set ds \<longrightarrow> lookup s' j = Some Dead)"
  using assms
proof (induction ds arbitrary: s)
  case (Cons d ds)
  let ?i = "doc_id d" and ?t = "set_entry (doc_id d) Dead s"
  have del: "db_delete d s = (Inr True, ?t)" using Cons.prems(2) by (intro db_delete_live) auto
  have lt: "live ?t j = (if j = ?i then None else live s j)" for j by (simp add: live_set_entry)
  have ok: "db_ok ?t" using Cons.prems(1) by (simp add: db_ok_set_entry)
  have "live ?t (doc_id e) = Some e \<and> all_keys_ok e = Inr ()" if e: "e \<in> set ds" for e
  proof -
    have "doc_id e \<noteq> ?i" using Cons.prems(3) e by (metis distinct.simps(2) image_eqI list.map(2) set_map)
    with lt Cons.prems(2) e show ?thesis by simp
  qed
  with Cons.IH [OF ok] Cons.prems(3) obtain u where
    u: "for_each ds (\<lambda>d. bnd (db_delete d) (\<lambda>_. ret ())) ?t = (Inr (), u)" "db_ok u"
      "\<forall>j. live u j = (if j \<in> doc_id ` set ds then None else live ?t j)"
      "\<forall>j. j \<in> doc_id ` set ds \<longrightarrow> lookup u j = Some Dead" by auto
  have "lookup u ?i = Some Dead"
  proof -
    have "keeps db_step (for_each ds (\<lambda>d. bnd (db_delete d) (\<lambda>_. ret ())))"
      by (intro dbf.keeps_for_each dbf.keeps_bnd dbf.keeps_ret keeps_db_delete)
    from keepsD [OF this, of ?t] u(1) show ?thesis by (simp add: db_step_def lookup_set_entry)
  qed
  moreover have "for_each (d # ds) (\<lambda>d. bnd (db_delete d) (\<lambda>_. ret ())) s = (Inr (), u)"
    using u(1) del by (simp add: bnd_assoc bnd_Inr)
  ultimately show ?case using u(2-4) lt by (intro exI [of _ u]) auto
qed (simp add: py_simps)

section \<open>Inserting\<close>

lemma map_of_with_strip [simp]:
  "k \<noteq> ''_id'' \<Longrightarrow> k \<noteq> ''_rev'' \<Longrightarrow> map_of (with_meta i r (strip_meta d)) k = map_of d k"
  by (simp add: with_meta_def strip_meta_def dput_def dremove_def update_conv' delete_conv')

text \<open>An insertion adds one document under an id that had none, or changes no document.\<close>

lemma db_insert_adds:
  assumes "db_insert d s = (x, t)"
  shows "(\<exists>e. x = Inl e) \<and> (\<forall>j. live t j = live s j) \<or>
    (\<exists>i r. x = Inr (ret_meta i r) \<and> live s i = None \<and> live t i = Some (with_meta i r (strip_meta d)) \<and> (\<forall>j. j \<noteq> i \<longrightarrow> live t j = live s j))"
proof -
  let ?r = "''0001'' @ hex4 (rnd s (drawn s) mod 65536)"
  have "\<exists>v n. (if dhas d ''_id'' then ret (dget d ''_id'') else bnd draw_uuid (\<lambda>i. ret (PStr i)))
      (s\<lparr>drawn := Suc (drawn s)\<rparr>) = (Inr v, s\<lparr>drawn := n\<rparr>)"
    by (auto simp: py_simps draw_uuid_def)
  then obtain v n where v: "(if dhas d ''_id'' then ret (dget d ''_id'') else bnd draw_uuid (\<lambda>i. ret (PStr i)))
      (s\<lparr>drawn := Suc (drawn s)\<rparr>) = (Inr v, s\<lparr>drawn := n\<rparr>)" by blast
  let ?kv = "id_key_value (dput (dput d ''_rev'' (PStr ?r)) ''_id'' v)"
  have run: "db_insert d s = (if dhas d ''_rev'' then (Inl PreconditionsException, s) else
      if v = PNone then (Inl AssertionError, s\<lparr>drawn := n\<rparr>) else
      case ?kv of Inl e \<Rightarrow> (Inl e, s\<lparr>drawn := n\<rparr>) | Inr (i, b) \<Rightarrow>
        if lookup s i \<noteq> None then (Inl (UserError ''IndexException''), s\<lparr>drawn := n\<rparr>)
        else (Inr (ret_meta i ?r), set_entry i (Live ?r b) (s\<lparr>drawn := n\<rparr>)))"
    using v by (simp add: db_insert_def py_simps create_new_rev_def draw_rnd_def split: sum.split prod.split)
  consider "\<exists>e. x = Inl e" "\<forall>j. live t j = live s j" | i b where "?kv = Inr (i, b)" "lookup s i = None"
      "x = Inr (ret_meta i ?r)" "t = set_entry i (Live ?r b) (s\<lparr>drawn := n\<rparr>)"
    using run assms by (auto split: if_splits sum.splits)
  then show ?thesis
  proof cases
    case 2
    have "b = strip_meta d" using 2(1)
      by (auto simp: id_key_value_def rbind_eq_Inr split: pv.splits if_splits)
    have "live s i = None" using 2(2) by (simp add: live_def)
    with 2(3,4) \<open>b = strip_meta d\<close> show ?thesis
      by (intro disjI2, rule_tac exI [of _ i], rule_tac exI [of _ ?r]) (simp add: live_set_entry)
  qed simp
qed

text \<open>An update writes the document under its id, or changes no document.\<close>

lemma db_update_adds:
  assumes "db_update d s = (x, t)"
  shows "(\<forall>j. live t j = live s j) \<or>
   (\<exists>i r. dget d ''_id'' = PStr i \<and> live t i = Some (with_meta i r (strip_meta d)) \<and>
      (\<forall>j. j \<noteq> i \<longrightarrow> live t j = live s j))"
proof -
  have "t = s \<or> (\<exists>n. t = s\<lparr>drawn := n\<rparr>) \<or>
      (\<exists>i b r n. id_key_value d = Inr (i, b) \<and> t = set_entry i (Live r b) (s\<lparr>drawn := n\<rparr>))"
    using assms
    by (auto simp: db_update_def py_simps db_get_def create_new_rev_def draw_rnd_def Let_def
        split: if_splits pv.splits sum.splits option.splits entry.splits prod.splits)
  then consider "\<forall>j. live t j = live s j"
    | i b r n where "id_key_value d = Inr (i, b)" "t = set_entry i (Live r b) (s\<lparr>drawn := n\<rparr>)" by auto
  then show ?thesis
  proof cases
    case (2 i b r n)
    with id_key_value_Inr(2,4) [OF 2(1)] show ?thesis
      by (intro disjI2 exI [of _ i] exI [of _ r]) (simp add: live_set_entry)
  qed simp
qed

section \<open>Concurrent updates\<close>

text \<open>C34: two writers that read the same document do not overwrite each other: after the first has
  written, the update of the second is refused as a conflict of revisions and changes nothing.\<close>

theorem lost_update_prevented:
  assumes "db_ok s" "live s i = Some d"
    and "dhas d1 ''_id''" "dget d1 ''_id'' = PStr i" "dhas d1 ''_rev''" "dget d1 ''_rev'' = dget d ''_rev''"
    and "dhas d2 ''_id''" "dget d2 ''_id'' = PStr i" "dhas d2 ''_rev''" "dget d2 ''_rev'' = dget d ''_rev''"
  shows "\<exists>m s1. db_update d1 s = (Inr m, s1) \<and> db_update d2 s1 = (Inl RevConflict, s1)"
proof -
  from assms(2) obtain r b where rb: "lookup s i = Some (Live r b)" "d = with_meta i r b"
    by (auto simp: live_lookup)
  obtain r' where u: "db_update d1 s =
      (Inr (ret_meta i r'), set_entry i (Live r' (strip_meta d1)) (s\<lparr>drawn := Suc (drawn s)\<rparr>))" "r' \<noteq> r"
    using db_update_run [OF assms(1) rb(1)] assms(3-6) rb(2) by auto
  let ?t = "set_entry i (Live r' (strip_meta d1)) (s\<lparr>drawn := Suc (drawn s)\<rparr>)"
  have g: "db_get i ?t = (Inr (with_meta i r' (strip_meta d1)), ?t)"
    by (simp add: db_get_def lookup_set_entry)
  have "length i = 32" using db_okD [OF assms(1) rb(1)] by blast
  then have "id_key_value d2 = Inr (i, strip_meta d2)"
    using assms(7,8) by (simp add: id_key_value_def dsub_eq_dget)
  then have "db_update d2 ?t = (Inl RevConflict, ?t)"
    using assms(7-10) rb(2) u(2) g by (simp add: db_update_def py_simps)
  with u(1) show ?thesis by blast
qed

definition one_doc_db :: database where
  "one_doc_db = \<lparr>docs = [(replicate 32 (CHR ''d''), Live ''00010000'' [(''n'', PInt 0)])],
     rnd = (\<lambda>_. 7), uuid = (\<lambda>n. hex4 n @ replicate 28 (CHR ''0'')), drawn = 0\<rparr>"

theorem lost_update_prevented_witness:
  "let i = replicate 32 (CHR ''d''); d = with_meta i ''00010000'' [(''n'', PInt 0)] in
   \<exists>m s1. db_update (dput d ''n'' (PInt 1)) one_doc_db = (Inr m, s1) \<and>
     db_update (dput d ''n'' (PInt 2)) s1 = (Inl RevConflict, s1)"
proof -
  let ?i = "replicate 32 (CHR ''d'')"
  have ok: "db_ok one_doc_db"
    by (simp add: one_doc_db_def db_ok_def rev_ok_def hex_val_def is_digit_def cp_def dhas_def)
  have l: "live one_doc_db ?i = Some (with_meta ?i ''00010000'' [(''n'', PInt 0)])"
    by (simp add: live_def lookup_def one_doc_db_def)
  show ?thesis unfolding Let_def
    by (rule lost_update_prevented [OF ok l]) simp_all
qed

lemmas doc_eval = dget_def dgetd_def dsub_def dhas_def dput_def dremove_def with_meta_def

end
