(* ===== verification/Settings.thy ===== *)
theory Settings
  imports SoftChroot Database
begin

text \<open>
  couchpotato/core/settings.py: the configuration file and who may read or change an option of it.
  The parser \<open>self.p\<close> is a \<open>configparser.RawConfigParser\<close>: sections in order, each a
  dictionary whose keys are lowered (\<open>optionxform\<close>) and whose values are stored as they come.
  \<open>save\<close> writes the whole parser; the file is the field \<open>config_file\<close>. Handlers attached to
  \<open>setting.save.<section>.<option>\<close> are the argument \<open>on_save\<close>; the events fired after a save are
  appended to \<open>after_events\<close>.
\<close>

record settings =
  parser :: "(string \<times> doc) list"
  types :: "(string \<times> doc) list"
  config_file :: "(string \<times> doc) list"
  options :: "(string \<times> doc) list"
  after_events :: "string list"
  chroot :: softchroot

section \<open>RawConfigParser\<close>

definition has_section :: "settings \<Rightarrow> string \<Rightarrow> bool" where
  "has_section s sec = (map_of (parser s) sec \<noteq> None)"

definition has_option :: "settings \<Rightarrow> string \<Rightarrow> string \<Rightarrow> bool" where
  "has_option s sec opt = (case map_of (parser s) sec of
       None \<Rightarrow> False | Some d \<Rightarrow> dhas d (lower opt))"

definition p_get :: "settings \<Rightarrow> string \<Rightarrow> string \<Rightarrow> pv res" where
  "p_get s sec opt = (case map_of (parser s) sec of
       None \<Rightarrow> Inl NoSectionError
     | Some d \<Rightarrow> (if dhas d (lower opt) then Inr (dget d (lower opt)) else Inl NoOptionError))"

definition p_set :: "string \<Rightarrow> string \<Rightarrow> pv \<Rightarrow> (settings, unit) py" where
  "p_set sec opt v = (\<lambda>s. case map_of (parser s) sec of
       None \<Rightarrow> (Inl NoSectionError, s)
     | Some d \<Rightarrow> (Inr (), s\<lparr>parser := AList.update sec (dput d (lower opt) v) (parser s)\<rparr>))"

definition p_remove :: "string \<Rightarrow> string \<Rightarrow> (settings, unit) py" where
  "p_remove sec opt = (\<lambda>s. case map_of (parser s) sec of
       None \<Rightarrow> (Inl NoSectionError, s)
     | Some d \<Rightarrow> (Inr (), s\<lparr>parser := AList.update sec (dremove d (lower opt)) (parser s)\<rparr>))"

definition p_getboolean :: "settings \<Rightarrow> string \<Rightarrow> string \<Rightarrow> bool res" where
  "p_getboolean s sec opt = rbind (p_get s sec opt) (\<lambda>v. case v of
       PStr t \<Rightarrow>
         (if lower t \<in> {''1'', ''yes'', ''true'', ''on''} then Inr True
          else if lower t \<in> {''0'', ''no'', ''false'', ''off''} then Inr False
          else Inl ValueError)
     | _ \<Rightarrow> Inl AttributeError)"

section \<open>Access rules\<close>

definition optionMetaSuffix :: string where
  "optionMetaSuffix = ''_internal_meta''"

definition isOptionMeta :: "string \<Rightarrow> bool" where
  "isOptionMeta opt = endswith opt optionMetaSuffix"

definition isSectionReadable :: "settings \<Rightarrow> string \<Rightarrow> bool" where
  "isSectionReadable s sec = (case p_getboolean s sec (''section_hidden'' @ optionMetaSuffix) of
       Inr b \<Rightarrow> \<not> b | Inl _ \<Rightarrow> True)"

definition meta_value :: "settings \<Rightarrow> string \<Rightarrow> string \<Rightarrow> string res" where
  "meta_value s sec opt = rbind (p_get s sec (opt @ optionMetaSuffix)) (\<lambda>v. case v of
       PStr t \<Rightarrow> Inr (lower t) | _ \<Rightarrow> Inl AttributeError)"

definition isOptionReadable :: "settings \<Rightarrow> string \<Rightarrow> string \<Rightarrow> bool res" where
  "isOptionReadable s sec opt =
     (if has_option s sec (opt @ optionMetaSuffix)
      then rbind (meta_value s sec opt) (\<lambda>m. Inr (m = ''rw'' \<or> m = ''ro''))
      else Inr True)"

definition isOptionWritable :: "settings \<Rightarrow> string \<Rightarrow> string \<Rightarrow> bool res" where
  "isOptionWritable s sec opt =
     (if has_option s sec (opt @ optionMetaSuffix)
      then rbind (meta_value s sec opt) (\<lambda>m. Inr (m = ''rw''))
      else Inr True)"

definition sections :: "settings \<Rightarrow> string list" where
  "sections s = filter (isSectionReadable s) (map fst (parser s))"

section \<open>Reading\<close>

definition getType :: "settings \<Rightarrow> string \<Rightarrow> string \<Rightarrow> pv" where
  "getType s sec opt = (case map_of (types s) sec of
       None \<Rightarrow> PStr ''unicode''
     | Some d \<Rightarrow> (case map_of d opt of None \<Rightarrow> PStr ''unicode'' | Some t \<Rightarrow> t))"

definition getBool :: "settings \<Rightarrow> string \<Rightarrow> string \<Rightarrow> pv res" where
  "getBool s sec opt = (case p_getboolean s sec opt of
       Inr b \<Rightarrow> Inr (PBool b)
     | Inl _ \<Rightarrow> rbind (p_get s sec opt) (\<lambda>v. Inr (PBool (pv_eq v (PInt 1)))))"

definition getEnabler :: "settings \<Rightarrow> string \<Rightarrow> string \<Rightarrow> pv res" where
  "getEnabler s sec opt = getBool s sec opt"

definition getInt :: "settings \<Rightarrow> string \<Rightarrow> string \<Rightarrow> pv res" where
  "getInt s sec opt = rbind (p_get s sec opt) (\<lambda>v. case int_res v of
       Inr i \<Rightarrow> Inr (PInt i) | Inl _ \<Rightarrow> Inr (PInt (tryInt v 0)))"

definition getFloat :: "settings \<Rightarrow> string \<Rightarrow> string \<Rightarrow> pv res" where
  "getFloat s sec opt = rbind (p_get s sec opt) (\<lambda>v. case float_res v of
       Inr r \<Rightarrow> Inr (PFloat r) | Inl _ \<Rightarrow> Inr (PFloat (tryFloat v)))"

definition directories_delimiter :: string where
  "directories_delimiter = ''::''"

definition getDirectories :: "settings \<Rightarrow> string \<Rightarrow> string \<Rightarrow> pv res" where
  "getDirectories s sec opt = rbind (p_get s sec opt) (\<lambda>v.
     if \<not> truthy v then Inr (PList [])
     else (case v of
         PStr t \<Rightarrow> Inr (PList (map (\<lambda>x. PStr (strip x)) (split_on directories_delimiter t)))
       | _ \<Rightarrow> Inl TypeError))"

definition getUnicode :: "settings \<Rightarrow> string \<Rightarrow> string \<Rightarrow> pv res" where
  "getUnicode s sec opt = rbind (p_get s sec opt) (\<lambda>v. Inr (PStr (strip (fmt v))))"

text \<open>The dispatch \<open>getattr(self, 'get' + tp.capitalize())\<close>. A type naming one of the other
  getters of the class ends in the exception handler (wrong number of arguments), except \<open>type\<close>.\<close>

definition get_by_type :: "settings \<Rightarrow> string \<Rightarrow> string \<Rightarrow> string \<Rightarrow> pv res" where
  "get_by_type s tp sec opt =
     (let t = lower tp in
      if t = ''bool'' then getBool s sec opt
      else if t = ''enabler'' then getEnabler s sec opt
      else if t = ''int'' then getInt s sec opt
      else if t = ''float'' then getFloat s sec opt
      else if t = ''directories'' then getDirectories s sec opt
      else if t = ''type'' then Inr (getType s sec opt)
      else if t \<in> {''values'', ''options'', ''property''} then Inl TypeError
      else getUnicode s sec opt)"

definition get_setting :: "settings \<Rightarrow> string \<Rightarrow> string \<Rightarrow> pv \<Rightarrow> pv \<Rightarrow> pv" where
  "get_setting s opt sec dflt type =
     (if isOptionMeta opt then PNone
      else (case (if \<not> truthy type then getType s sec opt else type) of
          PStr tp \<Rightarrow> (case get_by_type s tp sec opt of Inr v \<Rightarrow> v | Inl _ \<Rightarrow> dflt)
        | _ \<Rightarrow> dflt))"

section \<open>Writing\<close>

definition save :: "(settings, unit) py" where
  "save = modify (\<lambda>s. s\<lparr>config_file := parser s\<rparr>)"

definition addSection :: "string \<Rightarrow> (settings, unit) py" where
  "addSection sec = modify (\<lambda>s. if \<not> has_section s sec then s\<lparr>parser := parser s @ [(sec, [])]\<rparr> else s)"

definition setDefault :: "string \<Rightarrow> string \<Rightarrow> pv \<Rightarrow> (settings, unit) py" where
  "setDefault sec opt v = bnd (gets (\<lambda>s. has_option s sec opt)) (\<lambda>h. whenp (\<not> h) (p_set sec opt v))"

definition setType :: "string \<Rightarrow> string \<Rightarrow> pv \<Rightarrow> (settings, unit) py" where
  "setType sec opt t = modify (\<lambda>s.
     let d = (case map_of (types s) sec of None \<Rightarrow> [] | Some d \<Rightarrow> d)
     in s\<lparr>types := AList.update sec (dput d opt t) (types s)\<rparr>)"

definition register_option :: "string \<Rightarrow> string \<times> doc \<Rightarrow> (settings, unit) py" where
  "register_option section_name = (\<lambda>(option_name, option).
     bnd (setDefault section_name option_name (dgetd option ''default'' (PStr []))) (\<lambda>_.
     bnd (case dget option ''ui-meta'' of
            PStr value0 \<Rightarrow>
              (let value = lower value0
               in whenp (value0 \<noteq> [] \<and> value \<in> {''hidden'', ''rw'', ''ro''})
                    (setDefault section_name (option_name @ optionMetaSuffix) (PStr value)))
          | v \<Rightarrow> whenp (truthy v) (raise AttributeError)) (\<lambda>_.
     bnd (case dget option ''migrate_from'' of
            PStr from \<Rightarrow>
              whenp (from \<noteq> []) (bnd (gets (\<lambda>s. has_option s from option_name)) (\<lambda>h.
                whenp h (bnd (gets (\<lambda>s. p_get s from option_name)) (\<lambda>r.
                  bnd (liftr r) (\<lambda>previous_value.
                  bnd (p_set section_name option_name previous_value) (\<lambda>_.
                  p_remove from option_name))))))
          | v \<Rightarrow> ret ()) (\<lambda>_.
     whenp (truthy (dget option ''type'')) (setType section_name option_name (dget option ''type''))))))"

definition registerDefaults :: "string \<Rightarrow> (string \<times> doc) list \<Rightarrow> bool \<Rightarrow> (settings, unit) py" where
  "registerDefaults section_name opts do_save =
     bnd (addSection section_name) (\<lambda>_.
     bnd (for_each opts (register_option section_name)) (\<lambda>_.
     whenp do_save save))"

definition set_setting :: "string \<Rightarrow> string \<Rightarrow> pv \<Rightarrow> (settings, unit) py" where
  "set_setting sec opt value =
     bnd (gets (\<lambda>s. isOptionWritable s sec opt)) (\<lambda>r. bnd (liftr r) (\<lambda>w.
       if \<not> w then ret ()
       else if isOptionMeta opt then ret ()
       else p_set sec opt value))"

definition delete_setting :: "string \<Rightarrow> string \<Rightarrow> (settings, unit) py" where
  "delete_setting opt sec =
     bnd (gets (\<lambda>s. isOptionWritable s sec opt)) (\<lambda>r. bnd (liftr r) (\<lambda>w.
       if \<not> w then ret ()
       else if isOptionMeta opt then ret ()
       else bnd (p_remove sec opt) (\<lambda>_. save)))"

text \<open>\<open>value.encode('unicode_escape').decode('utf-8')\<close>.\<close>

definition unicode_escape :: "string \<Rightarrow> string" where
  "unicode_escape s = concat (map (\<lambda>c.
     let n = cp c in
     if n = 92 then [c, c]
     else if n = 9 then [char_of (92::nat), CHR ''t'']
     else if n = 10 then [char_of (92::nat), CHR ''n'']
     else if n = 13 then [char_of (92::nat), CHR ''r'']
     else if 32 \<le> n \<and> n \<le> 126 then [c]
     else [char_of (92::nat), CHR ''x'', hex_digit (n div 16), hex_digit (n mod 16)]) s)"

text \<open>\<open>saveView\<close>, the request that saves an option. \<open>json.loads\<close> is the argument \<open>loads\<close>.\<close>

definition absolute_paths :: "softchroot \<Rightarrow> pv list \<Rightarrow> string res" where
  "absolute_paths sc xs =
     rbind (mapr (\<lambda>v. case v of
         PStr p \<Rightarrow> chroot2abs sc (Some p) | PNone \<Rightarrow> chroot2abs sc None | _ \<Rightarrow> Inl AttributeError) xs)
       (\<lambda>ps. if None \<in> set ps then Inl TypeError
             else Inr (join directories_delimiter (map the ps)))"

definition save_value :: "(string \<Rightarrow> pv res) \<Rightarrow> settings \<Rightarrow> string \<Rightarrow> string \<Rightarrow> pv \<Rightarrow> pv res" where
  "save_value loads s sec opt value =
     (let t = getType s sec opt in
      if t = PStr ''directory''
      then (case value of
          PStr p \<Rightarrow> rbind (chroot2abs (chroot s) (Some p)) (\<lambda>r. Inr (case r of None \<Rightarrow> PNone | Some q \<Rightarrow> PStr q))
        | PNone \<Rightarrow> rbind (chroot2abs (chroot s) None) (\<lambda>r. Inr (case r of None \<Rightarrow> PNone | Some q \<Rightarrow> PStr q))
        | _ \<Rightarrow> Inl AttributeError)
      else if t = PStr ''directories''
      then rbind (as_str value) (\<lambda>text. rbind (loads text) (\<lambda>v.
           rbind (absolute_paths (chroot s) (case v of PList xs \<Rightarrow> xs | _ \<Rightarrow> [])) (\<lambda>j. Inr (PStr j))))
      else Inr value)"

definition saveView ::
  "(string \<Rightarrow> pv res) \<Rightarrow> (string \<Rightarrow> pv \<Rightarrow> pv) \<Rightarrow> string \<Rightarrow> string \<Rightarrow> pv \<Rightarrow> (settings, bool) py" where
  "saveView loads on_save sec opt value0 =
     bnd (gets (\<lambda>s. isOptionWritable s sec opt)) (\<lambda>r. bnd (liftr r) (\<lambda>w.
       if \<not> w then ret False
       else
         bnd (gets (\<lambda>s. save_value loads s sec opt value0)) (\<lambda>rv. bnd (liftr rv) (\<lambda>value.
         (let new_value = on_save (''setting.save.'' @ sec @ ''.'' @ opt) value in
         bnd (liftr (as_str (if truthy new_value then new_value else value))) (\<lambda>text.
         bnd (set_setting sec opt (PStr (unicode_escape text))) (\<lambda>_.
         bnd save (\<lambda>_.
         bnd (modify (\<lambda>s. s\<lparr>after_events := after_events s @
                [''setting.save.'' @ sec @ ''.'' @ opt @ ''.after'', ''setting.save.'' @ sec @ ''.*.after'']\<rparr>)) (\<lambda>_.
         ret True)))))))))"

section \<open>What the interface is shown\<close>

definition shown_value :: "settings \<Rightarrow> string \<Rightarrow> string \<Rightarrow> pv res" where
  "shown_value s sec opt =
     (let v0 = get_setting s opt sec PNone PNone;
          t = getType s sec opt
      in rbind (if t = PStr ''password'' \<and> truthy v0
                then rbind (as_str v0) (\<lambda>p. Inr (PStr (replicate (length p) (CHR ''*'')))) else Inr v0) (\<lambda>v1.
         let v2 = (if t = PStr ''directory'' \<and> truthy v1
                   then (case v1 of
                       PStr p \<Rightarrow> (case abs2chroot (chroot s) (Some p) False of
                           Inr q \<Rightarrow> PStr q | Inl _ \<Rightarrow> PStr [])
                     | _ \<Rightarrow> PStr [])
                   else v1)
         in Inr (if t = PStr ''directories''
             then (case (if truthy v2 then as_list v2 else Inr []) of
                 Inl _ \<Rightarrow> PList []
               | Inr xs \<Rightarrow>
                   (case mapr (\<lambda>x. case x of
                            PStr p \<Rightarrow> rbind (abs2chroot (chroot s) (Some p) False) (\<lambda>q. Inr (PStr q))
                          | PNone \<Rightarrow> Inl ValueError | _ \<Rightarrow> Inl AttributeError) xs of
                     Inr ys \<Rightarrow> PList ys | Inl _ \<Rightarrow> PList []))
             else v2)))"

definition section_items :: "settings \<Rightarrow> string \<Rightarrow> doc" where
  "section_items s sec = (case map_of (parser s) sec of None \<Rightarrow> [] | Some d \<Rightarrow> d)"

definition getValues :: "settings \<Rightarrow> (string \<times> doc) list res" where
  "getValues s =
     mapr (\<lambda>sec.
       rbind (mapr (\<lambda>opt. rbind (shown_value s sec opt) (\<lambda>v. Inr (opt, v)))
                (filter (\<lambda>opt. \<not> isOptionMeta opt) (dkeys (section_items s sec))))
         (\<lambda>vs. Inr (sec, vs)))
     (sections s)"

text \<open>\<open>getOptions\<close>: the options a reader may see, each unwritable one marked. The mark is put on
  the option dictionary itself, which is shared with \<open>self.options\<close>; each function returns the
  copy and the (possibly marked) original.\<close>

definition option_view :: "settings \<Rightarrow> string \<Rightarrow> pv \<Rightarrow> (pv option \<times> pv) res" where
  "option_view s sec opt =
     rbind (vget opt ''name'') (\<lambda>nm. rbind (as_str nm) (\<lambda>name.
     rbind (isOptionReadable s sec name) (\<lambda>r.
       if \<not> r then Inr (None, opt)
       else rbind (isOptionWritable s sec name) (\<lambda>w.
         let opt' = (case opt of PDict d \<Rightarrow> PDict (if w then d else dput d ''readonly'' (PBool True)) | v \<Rightarrow> v)
         in Inr (Some opt', opt')))))"

fun some_list :: "('a option \<times> 'b) list \<Rightarrow> 'a list" where
  "some_list [] = []"
| "some_list ((None, _) # xs) = some_list xs"
| "some_list ((Some a, _) # xs) = a # some_list xs"

definition group_view :: "settings \<Rightarrow> string \<Rightarrow> pv \<Rightarrow> (pv option \<times> pv) res" where
  "group_view s sec gr =
     rbind (as_dict gr) (\<lambda>g.
       rbind (mapr (\<lambda>(field, v).
           if lower field \<noteq> ''options'' then Inr ([], (field, v))
           else rbind (as_list v) (\<lambda>os. rbind (mapr (option_view s sec) os) (\<lambda>vs.
                Inr (some_list vs, (field, PList (map snd vs)))))) g) (\<lambda>fs.
       let shown = concat (map fst fs);
           others = filter (\<lambda>(field, _). lower field \<noteq> ''options'') g
       in Inr (if shown \<noteq> [] then Some (PDict (dput others ''options'' (PList shown))) else None,
               PDict (map snd fs))))"

definition section_view :: "settings \<Rightarrow> string \<Rightarrow> doc \<Rightarrow> (doc option \<times> doc) res" where
  "section_view s section_key section_orig =
     (if dhas section_orig ''groups''
      then rbind (as_list (dget section_orig ''groups'')) (\<lambda>gs.
        rbind (as_str (if dhas section_orig ''name'' then dget section_orig ''name'' else PStr section_key)) (\<lambda>name.
          if isSectionReadable s name
          then rbind (mapr (group_view s name) gs) (\<lambda>vs.
            let shown = some_list vs;
                others = filter (\<lambda>(field, _). lower field \<noteq> ''groups'') section_orig
            in Inr (if shown \<noteq> [] then Some (dput others ''groups'' (PList shown)) else None,
                    dput section_orig ''groups'' (PList (map snd vs))))
          else Inr (None, section_orig)))
      else Inr (None, section_orig))"

definition getOptions :: "(settings, (string \<times> doc) list) py" where
  "getOptions =
     bnd (gets (\<lambda>s. mapr (\<lambda>(k, d). rbind (section_view s k d) (\<lambda>(copy, orig).
            Inr (case copy of None \<Rightarrow> None | Some c \<Rightarrow> Some (k, c), (k, orig)))) (options s))) (\<lambda>r.
     bnd (liftr r) (\<lambda>vs.
     bnd (modify (\<lambda>s. s\<lparr>options := map snd vs\<rparr>)) (\<lambda>_.
     ret (some_list vs))))"

section \<open>Properties in the database\<close>

definition getProperty :: "string \<Rightarrow> (database, pv) py" where
  "getProperty identifier =
     catch (bnd (db_get_by ''property'' (PStr identifier)) (\<lambda>h. liftr (dsub (hit_doc h) ''value'')))
       (\<lambda>_. ret PNone)"

definition setProperty :: "string \<Rightarrow> string \<Rightarrow> (database, unit) py" where
  "setProperty identifier value =
     catch
       (bnd (db_get_by ''property'' (PStr identifier)) (\<lambda>h.
        bnd (db_update (dput (dput (hit_doc h) ''identifier'' (PStr identifier)) ''value'' (PStr value))) (\<lambda>_.
        ret ())))
       (\<lambda>_. bnd (db_insert [(''_t'', PStr ''property''), (''identifier'', PStr identifier), (''value'', PStr value)]) (\<lambda>_.
        ret ()))"

section \<open>Who may change what\<close>

lemma p_get_AList_update:
  "p_get (s\<lparr>parser := AList.update sec d (parser s)\<rparr>) sec' opt' =
     (if sec = sec' then (if dhas d (lower opt') then Inr (dget d (lower opt')) else Inl NoOptionError)
      else p_get s sec' opt')"
  by (simp add: p_get_def update_conv')

lemma p_get_p_set:
  assumes "p_set sec opt v s = (Inr (), s')"
  shows "p_get s' sec' opt' = (if sec = sec' \<and> lower opt = lower opt' then Inr v else p_get s sec' opt')"
  using assms by (auto simp: p_set_def p_get_AList_update split: option.splits) (auto simp: p_get_def)

lemma p_set_cases: "p_set sec opt v s = (r, s') \<Longrightarrow> r = Inr () \<or> s' = s"
  by (auto simp: p_set_def split: option.splits)

lemma p_get_fields [simp]:
  "p_get (s\<lparr>config_file := x\<rparr>) sec opt = p_get s sec opt"
  "p_get (s\<lparr>after_events := y\<rparr>) sec opt = p_get s sec opt"
  "p_get (s\<lparr>types := z\<rparr>) sec opt = p_get s sec opt"
  by (simp_all add: p_get_def)

lemma has_option_p_get: "has_option s sec opt = is_ok (p_get s sec opt)"
  by (auto simp: has_option_def p_get_def split: option.split)

lemma lower_suffix: "lower (opt @ optionMetaSuffix) = lower opt @ optionMetaSuffix"
  by (simp add: optionMetaSuffix_def lower_def lower_char_def is_upper_az_def cp_def)

lemma p_get_lower_cong: "lower opt = lower opt' \<Longrightarrow> p_get s sec opt = p_get s sec opt'"
  unfolding p_get_def by (simp split: option.split)

lemma isOptionWritable_lower_cong:
  assumes "lower opt = lower opt'"
  shows "isOptionWritable s sec opt = isOptionWritable s sec opt'"
proof -
  have "p_get s sec (opt @ optionMetaSuffix) = p_get s sec (opt' @ optionMetaSuffix)"
    by (rule p_get_lower_cong) (simp add: assms)
  then show ?thesis by (simp add: isOptionWritable_def meta_value_def has_option_p_get)
qed

text \<open>What a request to save one option may change: nothing but that option (names are compared
  lowered), and not even that one when its name as written is a meta name.\<close>

definition only_option :: "string \<Rightarrow> string \<Rightarrow> settings \<Rightarrow> settings \<Rightarrow> bool" where
  "only_option sec opt s t = (\<forall>sec' opt'. p_get t sec' opt' \<noteq> p_get s sec' opt' \<longrightarrow>
     sec = sec' \<and> lower opt = lower opt' \<and> \<not> isOptionMeta opt)"

interpretation oo: frame "only_option sec opt" for sec opt
  by unfold_locales (auto simp: only_option_def, metis+)

lemma only_option_p_set: "\<not> isOptionMeta opt \<Longrightarrow> keeps (only_option sec opt) (p_set sec opt v)"
proof (rule keepsI)
  fix s assume m: "\<not> isOptionMeta opt"
  obtain r s' where p: "p_set sec opt v s = (r, s')" by (cases "p_set sec opt v s")
  show "only_option sec opt s (snd (p_set sec opt v s))"
  proof (cases "r = Inr ()")
    case True
    with p have "p_set sec opt v s = (Inr (), s')" by simp
    from p_get_p_set [OF this] m p show ?thesis by (auto simp: only_option_def)
  next
    case False
    with p_set_cases [OF p] p show ?thesis by (simp add: oo.frame_refl)
  qed
qed

lemma only_option_set_setting: "keeps (only_option sec opt) (set_setting sec opt v)"
  unfolding set_setting_def by (auto intro!: oo.keeps_intros only_option_p_set)

lemma only_option_saveView: "keeps (only_option sec opt) (saveView loads on_save sec opt value)"
  unfolding saveView_def save_def Let_def
  by (auto intro!: oo.keeps_intros only_option_set_setting oo.keeps_modify simp: only_option_def)


definition demo_settings :: settings where
  "demo_settings = \<lparr>parser = [(''core'', [(''api_key'', PStr ''k''), (''api_key_internal_meta'', PStr ''ro'')])],
     types = [], config_file = [], options = [], after_events = [], chroot = init_chroot\<rparr>"

lemma demo_settings_api_key: "isOptionWritable demo_settings ''core'' ''api_key'' = Inr False"
  by (simp add: isOptionWritable_def demo_settings_def has_option_def meta_value_def p_get_def
      dhas_def dget_def optionMetaSuffix_def lower_def lower_char_def is_upper_az_def cp_def)


text \<open>The rule that meta options cannot be written is tested on the name as the request
  spells it, while the parser lowers names: asking for \<open><option>_INTERNAL_META\<close> writes the meta option,
  and makes a read-only option writable.\<close>

theorem saveView_meta_bypass:
  assumes "has_section s sec" "getType s sec (opt @ ''_INTERNAL_META'') = PStr ''unicode''"
    and "\<not> has_option s sec ((opt @ ''_INTERNAL_META'') @ optionMetaSuffix)"
    and "\<And>e v. on_save e v = PNone"
  shows "isOptionWritable (snd (saveView loads on_save sec (opt @ ''_INTERNAL_META'') (PStr ''rw'') s)) sec opt
     = Inr True"
proof -
  let ?o = "opt @ ''_INTERNAL_META''"
  have lo: "lower ''_INTERNAL_META'' = lower optionMetaSuffix"
    by (simp add: optionMetaSuffix_def lower_def lower_char_def is_upper_az_def cp_def char_of_eq_iff)
  have w: "isOptionWritable s sec ?o = Inr True"
    using assms(3) by (simp add: isOptionWritable_def)
  have m: "\<not> isOptionMeta ?o"
    by (auto simp: isOptionMeta_def endswith_def optionMetaSuffix_def suffix_def append_eq_append_conv2)
  have esc: "unicode_escape ''rw'' = ''rw''" by (simp add: unicode_escape_def cp_def)
  from assms(1) obtain d where d: "map_of (parser s) sec = Some d"
    by (auto simp: has_section_def)
  let ?t = "s\<lparr>parser := AList.update sec (dput d (lower ?o) (PStr ''rw'')) (parser s)\<rparr>"
  have st: "set_setting sec ?o (PStr ''rw'') s = (Inr (), ?t)"
    using w m d by (simp add: set_setting_def p_set_def py_simps)
  have sv: "save_value loads s sec ?o (PStr ''rw'') = Inr (PStr ''rw'')"
    using assms(2) by (simp add: save_value_def Let_def)
  have g: "p_get (snd (saveView loads on_save sec ?o (PStr ''rw'') s)) sec (opt @ optionMetaSuffix) = Inr (PStr ''rw'')"
    unfolding saveView_def Let_def assms(4) using w sv st
    by (simp add: py_simps save_def esc p_get_AList_update lo)
  have "lower ''rw'' = ''rw''" by (simp add: lower_def lower_char_def is_upper_az_def cp_def)
  with g show ?thesis by (simp add: isOptionWritable_def meta_value_def has_option_p_get)
qed

theorem saveView_meta_bypass_witness:
  "isOptionWritable demo_settings ''core'' ''api_key'' = Inr False \<and>
   isOptionWritable (snd (saveView (\<lambda>_. Inr PNone) (\<lambda>_ _. PNone) ''core'' (''api_key'' @ ''_INTERNAL_META'')
     (PStr ''rw'') demo_settings)) ''core'' ''api_key'' = Inr True"
proof
  show "isOptionWritable demo_settings ''core'' ''api_key'' = Inr False"
    by (rule demo_settings_api_key)
  show "isOptionWritable (snd (saveView (\<lambda>_. Inr PNone) (\<lambda>_ _. PNone) ''core'' (''api_key'' @ ''_INTERNAL_META'')
     (PStr ''rw'') demo_settings)) ''core'' ''api_key'' = Inr True"
    by (rule saveView_meta_bypass)
      (simp_all add: demo_settings_def has_section_def getType_def has_option_def dhas_def
        optionMetaSuffix_def lower_def lower_char_def is_upper_az_def cp_def)
qed

text \<open>Registering defaults never overwrites a value the configuration already has (unless the
  option is migrated from another section).\<close>

definition keeps_values :: "settings \<Rightarrow> settings \<Rightarrow> bool" where
  "keeps_values s t = (\<forall>sec opt v. p_get s sec opt = Inr v \<longrightarrow> p_get t sec opt = Inr v)"

interpretation kv: frame keeps_values
  by unfold_locales (auto simp: keeps_values_def)

lemma keeps_values_setDefault: "keeps keeps_values (setDefault sec opt v)"
proof (rule keepsI)
  fix s
  show "keeps_values s (snd (setDefault sec opt v s))"
  proof (cases "has_option s sec opt")
    case True
    then show ?thesis by (simp add: setDefault_def py_simps kv.frame_refl)
  next
    case False
    then have n: "p_get s sec opt \<noteq> Inr w" for w by (auto simp: has_option_p_get)
    obtain r s' where p: "p_set sec opt v s = (r, s')" by (cases "p_set sec opt v s")
    have "keeps_values s s'"
    proof (cases "r = Inr ()")
      case True
      with p have "p_set sec opt v s = (Inr (), s')" by simp
      from p_get_p_set [OF this] n p_get_lower_cong [of opt _ s sec] show ?thesis
        unfolding keeps_values_def by (metis sum.distinct(1))
    next
      case False
      with p_set_cases [OF p] show ?thesis by (simp add: kv.frame_refl)
    qed
    with False p show ?thesis by (simp add: setDefault_def py_simps)
  qed
qed

lemma keeps_values_addSection: "keeps keeps_values (addSection sec)"
proof (rule keepsI)
  fix s
  show "keeps_values s (snd (addSection sec s))"
    by (cases "has_section s sec")
      (auto simp: keeps_values_def addSection_def py_simps p_get_def has_section_def
        split: option.splits)
qed

lemma keeps_values_fields:
  "keeps keeps_values (setType sec opt t)" "keeps keeps_values save"
  by (simp_all add: keeps_def keeps_values_def setType_def save_def py_simps Let_def)

lemma keeps_values_register_option:
  assumes "dget (snd o1) ''migrate_from'' = PNone"
  shows "keeps keeps_values (register_option sec o1)"
  using assms unfolding register_option_def Let_def case_prod_beta
  by (auto intro!: kv.keeps_intros keeps_values_setDefault keeps_values_fields split: pv.split)

lemma keeps_for_each_set:
  "(\<And>x. x \<in> set xs \<Longrightarrow> keeps keeps_values (f x)) \<Longrightarrow> keeps keeps_values (for_each xs f)"
  by (induction xs) (auto intro: kv.keeps_intros)

text \<open>Registering the defaults of a plugin never overwrites a value the configuration file
  already has, in any section, unless the plugin asks for a migration.\<close>

theorem registerDefaults_keeps:
  assumes "p_get s sec opt = Inr v"
    and "\<forall>o1 \<in> set opts. dget (snd o1) ''migrate_from'' = PNone"
  shows "p_get (snd (registerDefaults section_name opts do_save s)) sec opt = Inr v"
proof -
  have "keeps keeps_values (registerDefaults section_name opts do_save)"
    unfolding registerDefaults_def using assms(2)
    by (auto intro!: kv.keeps_intros keeps_values_addSection keeps_values_fields keeps_for_each_set
        keeps_values_register_option)
  from keepsD [OF this, of s] assms(1) show ?thesis by (simp add: keeps_values_def)
qed

theorem registerDefaults_keeps_witness:
  "p_get (snd (registerDefaults ''core'' [(''api_key'', [(''default'', PStr ''new'')])] True demo_settings))
     ''core'' ''api_key'' = Inr (PStr ''k'')"
  by (rule registerDefaults_keeps)
    (simp_all add: demo_settings_def p_get_def dhas_def dget_def lower_def lower_char_def
      is_upper_az_def cp_def)

lemma mapr_mem: "mapr f xs = Inr ys \<Longrightarrow> y \<in> set ys \<Longrightarrow> \<exists>x \<in> set xs. f x = Inr y"
  by (induction xs arbitrary: ys) (auto simp: rbind_eq_Inr)

lemma shown_password:
  assumes "shown_value s sec opt = Inr v" "getType s sec opt = PStr ''password''"
  shows "\<not> truthy v \<or> (\<exists>n. v = PStr (replicate n (CHR ''*'')))"
proof (cases "truthy (get_setting s opt sec PNone PNone)")
  case True
  with assms have "\<exists>n. v = PStr (replicate n (CHR ''*''))"
    by (cases "as_str (get_setting s opt sec PNone PNone)") (auto simp: shown_value_def Let_def)
  then show ?thesis by blast
next
  case False
  with assms show ?thesis by (simp add: shown_value_def Let_def)
qed

text \<open>C37: a password is never shown: what the settings page receives for an option of type
  \<open>password\<close> is empty or a run of asterisks of its length.\<close>

theorem getValues_hides_passwords:
  assumes "getValues s = Inr vals" "(sec, items) \<in> set vals" "(opt, v) \<in> set items"
    and "getType s sec opt = PStr ''password''"
  shows "\<not> truthy v \<or> (\<exists>n. v = PStr (replicate n (CHR ''*'')))"
proof -
  from mapr_mem [OF assms(1) [unfolded getValues_def] assms(2)]
  have "mapr (\<lambda>opt. rbind (shown_value s sec opt) (\<lambda>v. Inr (opt, v)))
      (filter (\<lambda>opt. \<not> isOptionMeta opt) (dkeys (section_items s sec))) = Inr items"
    by (auto simp: rbind_eq_Inr)
  from mapr_mem [OF this assms(3)] have "shown_value s sec opt = Inr v" by (auto simp: rbind_eq_Inr)
  from shown_password [OF this assms(4)] show ?thesis .
qed

definition demo_password :: settings where
  "demo_password = demo_settings\<lparr>parser := [(''nzb'', [(''pass'', PStr ''abc'')])],
     types := [(''nzb'', [(''pass'', PStr ''password'')])]\<rparr>"

theorem getValues_hides_passwords_witness:
  "\<exists>vals items. getValues demo_password = Inr vals \<and> (''nzb'', items) \<in> set vals \<and>
     (''pass'', PStr ''***'') \<in> set items \<and>
     (\<not> truthy (PStr ''***'') \<or> (\<exists>n. PStr ''***'' = PStr (replicate n (CHR ''*''))))"
proof -
  have g: "getValues demo_password = Inr [(''nzb'', [(''pass'', PStr ''***'')])]"
    by (simp add: getValues_def demo_password_def demo_settings_def sections_def isSectionReadable_def
        p_getboolean_def p_get_def dhas_def section_items_def dkeys_def isOptionMeta_def endswith_def
        optionMetaSuffix_def shown_value_def get_setting_def getType_def get_by_type_def Let_def
        getUnicode_def lower_def lower_char_def is_upper_az_def cp_def dget_def strip_on_def lstrip_on_def
        rstrip_on_def is_space_def suffix_def)
  have t: "getType demo_password ''nzb'' ''pass'' = PStr ''password''"
    by (simp add: getType_def demo_password_def)
  have "\<not> truthy (PStr ''***'') \<or> (\<exists>n. PStr ''***'' = PStr (replicate n (CHR ''*'')))"
    by (rule getValues_hides_passwords [OF g _ _ t]) auto
  then show ?thesis using g by auto
qed

end
