(* ===== verification/World.thy ===== *)
theory World
  imports Settings
begin

text \<open>
  The state the plugins share: the document database, the settings, the clock and the events they
  fire at parts of the program (or of the environment) that are not modelled here. \<open>fire name
  args\<close> is \<open>fireEvent(name, *args, single = True)\<close> for such an event: the call is appended to
  \<open>fired\<close>, and what comes back is \<open>ans\<close>, an arbitrary function of all events fired so far and of
  the call, so that a listener may answer differently each time. \<open>fireEvent\<close> catches every
  exception of its listeners, so \<open>fire\<close> never raises. Events with one listener inside the model
  are calls of its definition through \<open>call_handler\<close>, which turns an exception into \<open>None\<close> as
  \<open>runHandler\<close> does.
\<close>

record world =
  store :: database
  sett :: settings
  now :: int
  fired :: "(string \<times> pv list) list"
  ans :: "(string \<times> pv list) list \<Rightarrow> string \<Rightarrow> pv list \<Rightarrow> pv"

definition on_db :: "(database, 'a) py \<Rightarrow> (world, 'a) py" where
  "on_db m = (\<lambda>w. case m (store w) of (r, s) \<Rightarrow> (r, w\<lparr>store := s\<rparr>))"

definition fire :: "string \<Rightarrow> pv list \<Rightarrow> (world, pv) py" where
  "fire n args = (\<lambda>w. (Inr (ans w (fired w) n args), w\<lparr>fired := fired w @ [(n, args)]\<rparr>))"

definition fire_unit :: "string \<Rightarrow> pv list \<Rightarrow> (world, unit) py" where
  "fire_unit n args = bnd (fire n args) (\<lambda>_. ret ())"

definition call_handler :: "(world, pv) py \<Rightarrow> (world, pv) py" where
  "call_handler m = catch m (\<lambda>_. ret PNone)"

text \<open>\<open>Env.setting(attr, section)\<close> and \<open>self.conf(attr)\<close> of a plugin.\<close>

definition conf :: "world \<Rightarrow> string \<Rightarrow> string \<Rightarrow> pv" where
  "conf w section attr = get_setting (sett w) attr section PNone PNone"

lemma on_db_run [py_simps]: "on_db m w = (case m (store w) of (r, s) \<Rightarrow> (r, w\<lparr>store := s\<rparr>))"
  by (simp add: on_db_def)

lemma fire_run [py_simps]:
  "fire n args w = (Inr (ans w (fired w) n args), w\<lparr>fired := fired w @ [(n, args)]\<rparr>)"
  by (simp add: fire_def)

lemma fire_unit_run [py_simps]: "fire_unit n args w = (Inr (), w\<lparr>fired := fired w @ [(n, args)]\<rparr>)"
  by (simp add: fire_unit_def py_simps)

lemma call_handler_ok: "\<exists>v w'. call_handler m w = (Inr v, w')"
  by (auto simp: call_handler_def py_simps split: prod.splits sum.splits)

text \<open>The database through the world is the same document store.\<close>

definition w_live :: "world \<Rightarrow> string \<Rightarrow> doc option" where
  "w_live w i = live (store w) i"

definition w_ok :: "world \<Rightarrow> bool" where
  "w_ok w = db_ok (store w)"

interpretation ws: doc_store "\<lambda>i. on_db (db_get i)" "\<lambda>d. on_db (db_update d)" w_live w_ok
proof
  fix w i d assume ok: "w_ok w" and l: "w_live w i = Some d"
  show "on_db (db_get i) w = (Inr d, w)"
    using dbs.get_law ok l by (simp add: w_ok_def w_live_def py_simps)
  show "dhas d ''_id'' \<and> dget d ''_id'' = PStr i \<and> dhas d ''_rev''"
    using dbs.meta_law ok l by (simp add: w_ok_def w_live_def)
  fix d'
  assume d': "dhas d' ''_id'' \<and> dget d' ''_id'' = PStr i \<and> dhas d' ''_rev'' \<and> dget d' ''_rev'' = dget d ''_rev''"
  from ok l have "db_ok (store w)" "live (store w) i = Some d" by (simp_all add: w_ok_def w_live_def)
  from dbs.upd_law [OF this d'] obtain r s' d2 where
    u: "db_update d' (store w) = (Inr r, s')" "db_ok s'" "live s' i = Some d2"
       "\<forall>k. k \<noteq> ''_rev'' \<longrightarrow> dget d2 k = dget d' k" "\<forall>j. j \<noteq> i \<longrightarrow> live s' j = live (store w) j"
    by blast
  then have "on_db (db_update d') w = (Inr r, w\<lparr>store := s'\<rparr>)" by (simp add: py_simps)
  with u show "\<exists>r s' d2. on_db (db_update d') w = (Inr r, s') \<and> w_ok s' \<and> w_live s' i = Some d2 \<and>
      (\<forall>k. k \<noteq> ''_rev'' \<longrightarrow> dget d2 k = dget d' k) \<and> (\<forall>j. j \<noteq> i \<longrightarrow> w_live s' j = w_live w j)"
    by (auto simp: w_ok_def w_live_def)
qed

text \<open>A plugin with attributes of its own has a larger state; a view says where the world is in it.\<close>

record 's world_view =
  look :: "'s \<Rightarrow> world"
  put_back :: "world \<Rightarrow> 's \<Rightarrow> 's"

definition via :: "'s world_view \<Rightarrow> (world, 'a) py \<Rightarrow> ('s, 'a) py" where
  "via v m = (\<lambda>s. case m (look v s) of (r, w) \<Rightarrow> (r, put_back v w s))"

definition own_world :: "world world_view" where
  "own_world = \<lparr>look = (\<lambda>w. w), put_back = (\<lambda>w _. w)\<rparr>"

lemma via_own_world [simp]: "via own_world m = m"
  by (simp add: via_def own_world_def fun_eq_iff split: prod.split)

lemma via_run [py_simps]: "via v m s = (case m (look v s) of (r, w) \<Rightarrow> (r, put_back v w s))"
  by (simp add: via_def)

text \<open>Frames: what any computation of the plugins keeps of the world's database.\<close>

definition w_step :: "world \<Rightarrow> world \<Rightarrow> bool" where
  "w_step w v \<longleftrightarrow> db_step (store w) (store v)"

interpretation wf: frame w_step
  by unfold_locales (auto simp: w_step_def intro: dbf.frame_refl dbf.frame_trans)

lemma keeps_on_db: "keeps db_step m \<Longrightarrow> keeps w_step (on_db m)"
  by (auto simp: keeps_def on_db_def w_step_def split: prod.split) (metis snd_conv)

lemma keeps_fire: "keeps w_step (fire n args)" "keeps w_step (fire_unit n args)"
  by (simp_all add: keeps_def fire_def fire_unit_run w_step_def dbf.frame_refl)

lemma keeps_call_handler: "keeps w_step m \<Longrightarrow> keeps w_step (call_handler m)"
  by (simp add: call_handler_def wf.keeps_catch wf.keeps_ret)

lemmas keeps_w =
  wf.keeps_intros keeps_fire keeps_call_handler
  keeps_on_db [OF keeps_db_get] keeps_on_db [OF keeps_db_update] keeps_on_db [OF keeps_db_insert]
  keeps_on_db [OF keeps_db_delete] keeps_on_db [OF keeps_db_queries(1)]
  keeps_on_db [OF keeps_db_queries(2)] keeps_on_db [OF keeps_db_queries(3)]
  keeps_on_db [OF keeps_db_queries(4)]

lemma store_on_db: "store (snd (on_db m w)) = snd (m (store w))"
  by (simp add: on_db_def split: prod.split)

text \<open>A loop of database operations is the loop run on the database.\<close>

lemma for_each_on_db:
  "for_each xs (\<lambda>x. bnd (on_db (f x)) (\<lambda>_. ret ())) w =
     (case for_each xs (\<lambda>x. bnd (f x) (\<lambda>_. ret ())) (store w) of (r, s) \<Rightarrow> (r, w\<lparr>store := s\<rparr>))"
  by (induction xs arbitrary: w) (auto simp: py_simps split: prod.splits sum.splits)

lemma read_only_on_db [intro]:
  "keeps (=) (on_db (db_get i))" "keeps (=) (on_db (db_get_many n k))" "keeps (=) (on_db (db_get_by n k))"
  "keeps (=) (on_db (db_all n l off))"
  by (simp_all add: keeps_def on_db_def db_get_def db_get_many_def db_get_by_def db_all_def)

section \<open>Which events are fired\<close>

text \<open>\<open>fires Q\<close>: every event fired in between satisfies \<open>Q\<close>; the clock is where it was and the listeners
  are the same.\<close>

definition fires :: "(string \<times> pv list \<Rightarrow> bool) \<Rightarrow> world \<Rightarrow> world \<Rightarrow> bool" where
  "fires Q w v \<longleftrightarrow> now v = now w \<and> ans v = ans w \<and> (\<exists>evs. fired v = fired w @ evs \<and> (\<forall>e \<in> set evs. Q e))"

interpretation fr: frame "fires Q" for Q
proof
  show "fires Q s s" for s :: world by (simp add: fires_def)
  fix s t u :: world assume "fires Q s t" "fires Q t u"
  then obtain e f where "fired t = fired s @ e" "\<forall>x \<in> set e. Q x"
    "fired u = fired t @ f" "\<forall>x \<in> set f. Q x" "now u = now s" "ans u = ans s" by (auto simp: fires_def)
  then show "fires Q s u" unfolding fires_def by (intro conjI exI [of _ "e @ f"]) auto
qed

lemma fires_on_db: "keeps (fires Q) (on_db m)"
  by (auto simp: keeps_def on_db_def fires_def split: prod.split)

lemma fires_fire: "Q (n, args) \<Longrightarrow> keeps (fires Q) (fire n args)"
  by (auto simp: keeps_def fire_def fires_def)

lemma fires_fire_unit: "Q (n, args) \<Longrightarrow> keeps (fires Q) (fire_unit n args)"
  unfolding fire_unit_def by (intro fr.keeps_bnd fr.keeps_ret fires_fire)

lemma fires_call_handler: "keeps (fires Q) m \<Longrightarrow> keeps (fires Q) (call_handler m)"
  by (simp add: call_handler_def fr.keeps_catch fr.keeps_ret)

lemma fires_mono: "keeps (fires Q) m \<Longrightarrow> (\<And>e. Q e \<Longrightarrow> R e) \<Longrightarrow> keeps (fires R) m"
  unfolding keeps_def fires_def by blast

lemmas fires_intros = fr.keeps_intros fires_on_db fires_call_handler

text \<open>What holds of the events when the clock is at \<open>t\<close>.\<close>

definition fires_at :: "int \<Rightarrow> (string \<times> pv list \<Rightarrow> bool) \<Rightarrow> world \<Rightarrow> world \<Rightarrow> bool" where
  "fires_at t Q w v \<longleftrightarrow> (now w = t \<longrightarrow> fires Q w v)"

interpretation fa: frame "fires_at t Q" for t Q
proof
  show "fires_at t Q s s" for s by (simp add: fires_at_def fr.frame_refl)
  fix s u v assume "fires_at t Q s u" "fires_at t Q u v"
  then show "fires_at t Q s v" unfolding fires_at_def by (metis fires_def fr.frame_trans)
qed

lemma fires_at_fires: "keeps (fires Q) m \<Longrightarrow> keeps (fires_at t Q) m"
  by (simp add: keeps_def fires_at_def)

lemma fires_at_now: "keeps (fires_at t Q) (f t) \<Longrightarrow> keeps (fires_at t Q) (bnd (gets now) f)"
  by (simp add: keeps_def fires_at_def bnd_def gets_def)

text \<open>The events a program like this must not fire without reason: asking the downloader for a release,
  telling it to remove one or to clean up after one, and asking the providers of a protocol for a movie. A predicate that restricts
  only these is \<open>harmless\<close> for everything else.\<close>

definition special :: "string \<Rightarrow> bool" where
  "special n \<longleftrightarrow> n \<in> {''download'', ''download.remove_failed'', ''download.process_complete''} \<or> prefix ''provider.search.'' n \<and> suffix ''.movie'' n"

definition harmless :: "(string \<times> pv list \<Rightarrow> bool) \<Rightarrow> bool" where
  "harmless Q \<longleftrightarrow> (\<forall>n args. \<not> special n \<longrightarrow> Q (n, args))"

lemma harmlessD: "harmless Q \<Longrightarrow> \<not> special n \<Longrightarrow> Q (n, args)"
  by (simp add: harmless_def)

lemma not_special:
  "\<not> special ''notify.frontend''" "\<not> special ''download.enabled''" "\<not> special (t @ ''.snatched'')"
  "\<not> special ''lock.acquire''" "\<not> special ''lock.release''" "\<not> special ''movie.info''"
  "\<not> special ''movie.info.release_date''" "\<not> special ''media.available''" "\<not> special ''release.validate''"
  "\<not> special ''shuttingDown''" "\<not> special ''movie.searcher.started''" "\<not> special (''async:'' @ n)"
  "\<not> special ''image.download''"
proof -
  have e: "t @ ''.snatched'' \<noteq> u" if "take 9 (rev u) \<noteq> ''dehctans.''" for u
    using that by auto
  have "\<not> suffix ''.movie'' (t @ ''.snatched'')"
  proof
    assume "suffix ''.movie'' (t @ ''.snatched'')"
    then obtain u where "t @ ''.snatched'' = u @ ''.movie''" by (auto simp: suffix_def)
    then have "rev (t @ ''.snatched'') = rev (u @ ''.movie'')" by simp
    then show False by simp
  qed
  with e show "\<not> special (t @ ''.snatched'')" by (simp add: special_def)
qed (simp_all add: special_def)

lemma fires_harmless:
  "harmless Q \<Longrightarrow> \<not> special n \<Longrightarrow> keeps (fires Q) (fire n args)"
  "harmless Q \<Longrightarrow> \<not> special n \<Longrightarrow> keeps (fires Q) (fire_unit n args)"
  by (simp_all add: fires_fire fires_fire_unit harmlessD)

end
