(* ===== verification/Regex.thy ===== *)
theory Regex
  imports PyVal
begin

text \<open>
  Python's \<open>re\<close>, as far as the program uses it: a backtracking matcher that returns all ways an
  expression matches from a position in the order the engine tries them, so that the first one is
  the match \<open>re\<close> reports; \<open>search\<close>, \<open>findall\<close>, \<open>sub\<close> and \<open>split\<close> on top of it. A result is the end
  position and the captured groups (the latest capture of a group first). Repetition stops at an
  iteration that matches nothing, as in CPython. The second half of the theory proves that for
  expressions without look-around the matcher finds exactly the words of the expression's language.
\<close>

datatype re =
    Eps | Cls "char \<Rightarrow> bool" | Seq re re | Alt re re | Star re | LStar re
  | Bos | Eos | Ahead re | NAhead re | Grp nat re

type_synonym caps = "(nat \<times> string) list"

function rmatch :: "re \<Rightarrow> string \<Rightarrow> nat \<Rightarrow> caps \<Rightarrow> (nat \<times> caps) list" where
  "rmatch Eps s i c = [(i, c)]"
| "rmatch (Cls p) s i c = (if i < length s \<and> p (s ! i) then [(Suc i, c)] else [])"
| "rmatch (Seq a b) s i c = concat (map (\<lambda>(j, c'). rmatch b s j c') (rmatch a s i c))"
| "rmatch (Alt a b) s i c = rmatch a s i c @ rmatch b s i c"
| "rmatch (Star a) s i c =
     concat (map (\<lambda>(j, c'). if i < j \<and> j \<le> length s then rmatch (Star a) s j c' else [])
               (rmatch a s i c)) @ [(i, c)]"
| "rmatch (LStar a) s i c =
     (i, c) # concat (map (\<lambda>(j, c'). if i < j \<and> j \<le> length s then rmatch (LStar a) s j c' else [])
               (rmatch a s i c))"
| "rmatch Bos s i c = (if i = 0 then [(i, c)] else [])"
| "rmatch Eos s i c =
     (if i = length s \<or> Suc i = length s \<and> s ! i = CHR 0x0A then [(i, c)] else [])"
| "rmatch (Ahead a) s i c = (case rmatch a s i c of [] \<Rightarrow> [] | (_, c') # _ \<Rightarrow> [(i, c')])"
| "rmatch (NAhead a) s i c = (case rmatch a s i c of [] \<Rightarrow> [(i, c)] | _ \<Rightarrow> [])"
| "rmatch (Grp n a) s i c =
     map (\<lambda>(j, c'). (j, (n, take (j - i) (drop i s)) # c')) (rmatch a s i c)"
  by pat_completeness auto
termination
  by (relation "measures [\<lambda>(r, s, i, c). size r, \<lambda>(r, s, i, c). length s - i]") auto

declare rmatch.simps(5,6) [simp del]

lemma rmatch_Star_iff:
  "x \<in> set (rmatch (Star a) s i c) \<longleftrightarrow> x = (i, c) \<or>
     (\<exists>k ck. (k, ck) \<in> set (rmatch a s i c) \<and> i < k \<and> k \<le> length s \<and> x \<in> set (rmatch (Star a) s k ck))"
  by (subst rmatch.simps) (auto split: if_splits)

lemma rmatch_LStar_iff:
  "x \<in> set (rmatch (LStar a) s i c) \<longleftrightarrow> x = (i, c) \<or>
     (\<exists>k ck. (k, ck) \<in> set (rmatch a s i c) \<and> i < k \<and> k \<le> length s \<and> x \<in> set (rmatch (LStar a) s k ck))"
  by (subst rmatch.simps) (auto split: if_splits)

section \<open>Derived expressions\<close>

definition chr :: "char \<Rightarrow> re" where "chr x = Cls (\<lambda>y. y = x)"

text \<open>A literal character under \<open>re.I\<close>.\<close>

definition chri :: "char \<Rightarrow> re" where "chri x = Cls (\<lambda>y. lower_char y = lower_char x)"

fun lit :: "string \<Rightarrow> re" where
  "lit [] = Eps"
| "lit [x] = chr x"
| "lit (x # xs) = Seq (chr x) (lit xs)"

fun liti :: "string \<Rightarrow> re" where
  "liti [] = Eps"
| "liti [x] = chri x"
| "liti (x # xs) = Seq (chri x) (liti xs)"

fun seqs :: "re list \<Rightarrow> re" where
  "seqs [] = Eps" | "seqs [r] = r" | "seqs (r # rs) = Seq r (seqs rs)"

fun alts :: "re list \<Rightarrow> re" where
  "alts [] = Cls (\<lambda>_. False)" | "alts [r] = r" | "alts (r # rs) = Alt r (alts rs)"

definition plus_re :: "re \<Rightarrow> re" where "plus_re r = Seq r (Star r)"
definition lplus :: "re \<Rightarrow> re" where "lplus r = Seq r (LStar r)"
definition opt :: "re \<Rightarrow> re" where "opt r = Alt r Eps"
definition lopt :: "re \<Rightarrow> re" where "lopt r = Alt Eps r"
definition dot :: re where "dot = Cls (\<lambda>c. c \<noteq> CHR 0x0A)"
definition digit :: re where "digit = Cls is_digit"
definition space :: re where "space = Cls is_space"
definition wordc :: re where "wordc = Cls is_word"
definition nonword :: re where "nonword = Cls (\<lambda>c. \<not> is_word c)"
definition any_of :: "string \<Rightarrow> re" where "any_of cs = Cls (\<lambda>c. c \<in> set cs)"
definition none_of :: "string \<Rightarrow> re" where "none_of cs = Cls (\<lambda>c. c \<notin> set cs)"

fun rep_upto :: "nat \<Rightarrow> re \<Rightarrow> re" where
  "rep_upto 0 r = Eps"
| "rep_upto (Suc n) r = Alt (Seq r (rep_upto n r)) Eps"

fun rep :: "nat \<Rightarrow> re \<Rightarrow> re" where
  "rep 0 r = Eps"
| "rep (Suc n) r = Seq r (rep n r)"

text \<open>\<open>r{m,n}\<close>.\<close>

definition rep_between :: "nat \<Rightarrow> nat \<Rightarrow> re \<Rightarrow> re" where
  "rep_between m n r = Seq (rep m r) (rep_upto (n - m) r)"

section \<open>Searching\<close>

record rmatch_result =
  m_start :: nat
  m_end :: nat
  m_caps :: caps

text \<open>The first match at or after position \<open>i\<close>; with \<open>adv\<close>, an empty match at \<open>i\<close> itself does not
  count. The fuel is the number of positions left.\<close>

fun search_from :: "nat \<Rightarrow> re \<Rightarrow> string \<Rightarrow> nat \<Rightarrow> bool \<Rightarrow> rmatch_result option" where
  "search_from 0 r s i adv = None"
| "search_from (Suc n) r s i adv =
     (case filter (\<lambda>(j, c). \<not> adv \<or> i < j) (rmatch r s i []) of
        (j, c) # _ \<Rightarrow> Some \<lparr>m_start = i, m_end = j, m_caps = c\<rparr>
      | [] \<Rightarrow> search_from n r s (Suc i) False)"

definition search :: "re \<Rightarrow> string \<Rightarrow> rmatch_result option" where
  "search r s = search_from (Suc (length s)) r s 0 False"

text \<open>\<open>re.match\<close> (anchored at the start).\<close>

definition match_at_start :: "re \<Rightarrow> string \<Rightarrow> rmatch_result option" where
  "match_at_start r s = search_from 1 r s 0 False"

definition group :: "rmatch_result \<Rightarrow> nat \<Rightarrow> string option" where
  "group m n = map_of (m_caps m) n"

definition whole :: "string \<Rightarrow> rmatch_result \<Rightarrow> string" where
  "whole s m = take (m_end m - m_start m) (drop (m_start m) s)"

text \<open>All matches from left to right (\<open>finditer\<close>); after an empty match the next one must advance.\<close>

fun matches_from :: "nat \<Rightarrow> re \<Rightarrow> string \<Rightarrow> nat \<Rightarrow> bool \<Rightarrow> rmatch_result list" where
  "matches_from 0 r s i adv = []"
| "matches_from (Suc n) r s i adv =
     (case search_from (Suc (length s) - i) r s i adv of
        None \<Rightarrow> []
      | Some m \<Rightarrow> m # matches_from n r s (m_end m) (m_start m = m_end m))"

definition finditer :: "re \<Rightarrow> string \<Rightarrow> rmatch_result list" where
  "finditer r s = matches_from (2 * length s + 2) r s 0 False"

text \<open>\<open>findall\<close> of an expression without groups, and of one whose only group is 1.\<close>

definition findall0 :: "re \<Rightarrow> string \<Rightarrow> string list" where
  "findall0 r s = map (whole s) (finditer r s)"

definition findall1 :: "re \<Rightarrow> string \<Rightarrow> string list" where
  "findall1 r s = map (\<lambda>m. case group m 1 of None \<Rightarrow> [] | Some t \<Rightarrow> t) (finditer r s)"

fun sub_from :: "string \<Rightarrow> nat \<Rightarrow> (rmatch_result \<Rightarrow> string) \<Rightarrow> rmatch_result list \<Rightarrow> string" where
  "sub_from s i f [] = drop i s"
| "sub_from s i f (m # ms) = take (m_start m - i) (drop i s) @ f m @ sub_from s (m_end m) f ms"

definition sub :: "re \<Rightarrow> (rmatch_result \<Rightarrow> string) \<Rightarrow> string \<Rightarrow> string" where
  "sub r f s = sub_from s 0 f (finditer r s)"

definition sub_str :: "re \<Rightarrow> string \<Rightarrow> string \<Rightarrow> string" where
  "sub_str r t s = sub r (\<lambda>_. t) s"

fun split_from :: "string \<Rightarrow> nat \<Rightarrow> (rmatch_result \<Rightarrow> string list) \<Rightarrow> rmatch_result list \<Rightarrow> string list" where
  "split_from s i f [] = [drop i s]"
| "split_from s i f (m # ms) = take (m_start m - i) (drop i s) # f m @ split_from s (m_end m) f ms"

text \<open>\<open>re.split\<close>, without groups and with one group (whose text is kept in the result).\<close>

definition split_re :: "re \<Rightarrow> string \<Rightarrow> string list" where
  "split_re r s = split_from s 0 (\<lambda>_. []) (finditer r s)"

definition split_re1 :: "re \<Rightarrow> string \<Rightarrow> string list" where
  "split_re1 r s = split_from s 0 (\<lambda>m. [case group m 1 of None \<Rightarrow> [] | Some t \<Rightarrow> t]) (finditer r s)"

section \<open>Positions\<close>

lemma rmatch_bounds:
  "(j, c') \<in> set (rmatch r s i c) \<Longrightarrow> i \<le> length s \<Longrightarrow> i \<le> j \<and> j \<le> length s"
proof (induction r s i c arbitrary: j c' rule: rmatch.induct)
  case (3 a b s i c)
  then show ?case by fastforce
next
  case (5 a s i c)
  from "5.prems"(1) consider "j = i" | k ck where "(k, ck) \<in> set (rmatch a s i c)"
      "i < k" "k \<le> length s" "(j, c') \<in> set (rmatch (Star a) s k ck)"
    unfolding rmatch_Star_iff [of _ a s i c] by auto
  then show ?case
  proof cases
    case 1
    then show ?thesis using "5.prems" by simp
  next
    case 2
    from "5.IH"(2) [OF 2(1) refl, of j c'] 2 show ?thesis by simp
  qed
next
  case (6 a s i c)
  from "6.prems"(1) consider "j = i" | k ck where "(k, ck) \<in> set (rmatch a s i c)"
      "i < k" "k \<le> length s" "(j, c') \<in> set (rmatch (LStar a) s k ck)"
    unfolding rmatch_LStar_iff [of _ a s i c] by auto
  then show ?case
  proof cases
    case 1
    then show ?thesis using "6.prems" by simp
  next
    case 2
    from "6.IH"(2) [OF 2(1) refl, of j c'] 2 show ?thesis by simp
  qed
qed (auto split: if_splits list.splits)

lemma search_from_bounds:
  "search_from n r s i adv = Some m \<Longrightarrow> i + n \<le> Suc (length s) \<Longrightarrow>
     i \<le> m_start m \<and> m_start m \<le> m_end m \<and> m_end m \<le> length s \<and>
     (\<exists>c. (m_end m, c) \<in> set (rmatch r s (m_start m) []))"
proof (induction n r s i adv rule: search_from.induct)
  case (2 n r s i adv)
  show ?case
  proof (cases "filter (\<lambda>(j, c). \<not> adv \<or> i < j) (rmatch r s i [])")
    case Nil
    with 2 show ?thesis by auto
  next
    case (Cons jc rest)
    then have "jc \<in> set (rmatch r s i [])" using filter_is_subset [of "\<lambda>(j, c). \<not> adv \<or> i < j" "rmatch r s i []"] by auto
    with Cons "2.prems" rmatch_bounds [of "fst jc" "snd jc" r s i "[]"] show ?thesis
      by (cases jc) auto
  qed
qed simp

section \<open>The matcher and the language of an expression\<close>

inductive_set star_of :: "string set \<Rightarrow> string set" for L where
  star_nil: "[] \<in> star_of L"
| star_app: "u \<in> L \<Longrightarrow> v \<in> star_of L \<Longrightarrow> u @ v \<in> star_of L"

fun lang :: "re \<Rightarrow> string set" where
  "lang Eps = {[]}"
| "lang (Cls p) = {[x] | x. p x}"
| "lang (Seq a b) = {u @ v | u v. u \<in> lang a \<and> v \<in> lang b}"
| "lang (Alt a b) = lang a \<union> lang b"
| "lang (Star a) = star_of (lang a)"
| "lang (LStar a) = star_of (lang a)"
| "lang (Grp n a) = lang a"
| "lang _ = {}"

text \<open>Expressions without anchors and look-ahead.\<close>

fun plain :: "re \<Rightarrow> bool" where
  "plain Eps = True" | "plain (Cls p) = True"
| "plain (Seq a b) = (plain a \<and> plain b)" | "plain (Alt a b) = (plain a \<and> plain b)"
| "plain (Star a) = plain a" | "plain (LStar a) = plain a" | "plain (Grp n a) = plain a"
| "plain _ = False"

definition slice :: "string \<Rightarrow> nat \<Rightarrow> nat \<Rightarrow> string" where
  "slice s i j = take (j - i) (drop i s)"

lemma slice_self [simp]: "slice s i i = []"
  by (simp add: slice_def)

lemma slice_append:
  "i \<le> k \<Longrightarrow> k \<le> j \<Longrightarrow> slice s i k @ slice s k j = slice s i j"
proof -
  assume "i \<le> k" "k \<le> j"
  then obtain m n where "k = i + m" "j = i + m + n" by (metis le_Suc_ex)
  then show ?thesis by (simp add: slice_def take_add add.commute)
qed

lemma slice_split:
  assumes "slice s i j = u @ v" "i \<le> j" "j \<le> length s"
  shows "slice s i (i + length u) = u" "slice s (i + length u) j = v" "i + length u \<le> j"
proof -
  from assms have l: "j - i = length u + length v"
    by (metis length_append length_drop length_take min.absorb2 diff_le_mono slice_def)
  then have j: "j = i + length u + length v" using assms(2) by linarith
  then show "i + length u \<le> j" by simp
  from assms(1) have t: "take (length u + length v) (drop i s) = u @ v" by (simp add: slice_def j)
  then have "take (length u) (take (length u + length v) (drop i s)) = u" by simp
  then show "slice s i (i + length u) = u" by (simp add: slice_def min_def)
  from t have "drop (length u) (take (length u + length v) (drop i s)) = v" by simp
  then show "slice s (i + length u) j = v" by (simp add: slice_def j drop_take add.commute)
qed

lemma star_nonempty:
  "w \<in> star_of L \<Longrightarrow> w \<noteq> [] \<Longrightarrow> \<exists>u v. w = u @ v \<and> u \<in> L \<and> u \<noteq> [] \<and> v \<in> star_of L"
proof (induction rule: star_of.induct)
  case (star_app u v)
  then show ?case by (cases "u = []") auto
qed simp

lemma star_step:
  assumes ab: "\<And>k. (\<exists>ck. (k, ck) \<in> set (rmatch a s i c)) = (i \<le> k \<and> k \<le> length s \<and> slice s i k \<in> lang a)"
    and rest: "\<And>k ck j. (k, ck) \<in> set (rmatch a s i c) \<Longrightarrow> i < k \<Longrightarrow> k \<le> length s \<Longrightarrow>
      (\<exists>c'. (j, c') \<in> set (M k ck)) = (k \<le> j \<and> j \<le> length s \<and> slice s k j \<in> star_of (lang a))"
    and i: "i \<le> length s"
    and M: "\<And>x. x \<in> set R \<longleftrightarrow> x = (i, c) \<or>
      (\<exists>k ck. (k, ck) \<in> set (rmatch a s i c) \<and> i < k \<and> k \<le> length s \<and> x \<in> set (M k ck))"
  shows "(\<exists>c'. (j, c') \<in> set R) = (i \<le> j \<and> j \<le> length s \<and> slice s i j \<in> star_of (lang a))"
proof
  assume "\<exists>c'. (j, c') \<in> set R"
  then consider "j = i" | k ck c' where "(k, ck) \<in> set (rmatch a s i c)" "i < k" "k \<le> length s"
      "(j, c') \<in> set (M k ck)" using M by auto
  then show "i \<le> j \<and> j \<le> length s \<and> slice s i j \<in> star_of (lang a)"
  proof cases
    case 1
    then show ?thesis using i by (simp add: star_nil)
  next
    case 2
    from rest [OF 2(1-3), of j] 2(4) have "k \<le> j" "j \<le> length s" "slice s k j \<in> star_of (lang a)" by auto
    moreover from ab [of k] 2 have "slice s i k \<in> lang a" by auto
    ultimately show ?thesis using 2 star_app slice_append [of i k j s] by fastforce
  qed
next
  assume j: "i \<le> j \<and> j \<le> length s \<and> slice s i j \<in> star_of (lang a)"
  show "\<exists>c'. (j, c') \<in> set R"
  proof (cases "i = j")
    case True
    then show ?thesis using M by auto
  next
    case False
    with j have "slice s i j \<noteq> []" by (simp add: slice_def)
    with star_nonempty j obtain u v where uv: "slice s i j = u @ v" "u \<in> lang a" "u \<noteq> []"
      "v \<in> star_of (lang a)" by blast
    let ?k = "i + length u"
    note sp = slice_split [OF uv(1)]
    have k: "i < ?k" "?k \<le> j" "?k \<le> length s" using uv(3) sp(3) j by auto
    with ab [of ?k] sp(1) uv(2) j obtain ck where ck: "(?k, ck) \<in> set (rmatch a s i c)" by auto
    from rest [OF ck k(1) k(3), of j] sp(2) uv(4) j k obtain c' where "(j, c') \<in> set (M ?k ck)" by auto
    with ck k M show ?thesis by blast
  qed
qed

text \<open>An expression without anchors and look-ahead matches from \<open>i\<close> to \<open>j\<close> exactly when the text
  between them is in its language.\<close>

lemma rmatch_lang:
  "plain r \<Longrightarrow> i \<le> length s \<Longrightarrow>
   (\<exists>c'. (j, c') \<in> set (rmatch r s i c)) = (i \<le> j \<and> j \<le> length s \<and> slice s i j \<in> lang r)"
proof (induction r s i c arbitrary: j rule: rmatch.induct)
  case (1 s i c)
  then show ?case by (auto simp: slice_def)
next
  case (2 p s i c)
  show ?case
  proof
    assume "\<exists>c'. (j, c') \<in> set (rmatch (Cls p) s i c)"
    then have "i < length s" "p (s ! i)" "j = Suc i" by (auto split: if_splits)
    then show "i \<le> j \<and> j \<le> length s \<and> slice s i j \<in> lang (Cls p)"
      by (simp add: slice_def take_Suc hd_drop_conv_nth)
  next
    assume j: "i \<le> j \<and> j \<le> length s \<and> slice s i j \<in> lang (Cls p)"
    then obtain x where x: "slice s i j = [x]" "p x" by auto
    with j have "j - i = 1" by (metis One_nat_def diff_le_mono length_Cons length_drop length_take
        list.size(3) min.absorb2 slice_def)
    with j x have "i < length s" "s ! i = x" "j = Suc i"
      by (auto simp: slice_def take_Suc hd_drop_conv_nth)
    with x show "\<exists>c'. (j, c') \<in> set (rmatch (Cls p) s i c)" by simp
  qed
next
  case (3 a b s i c)
  have pl: "plain a" "plain b" using 3 by auto
  show ?case
  proof
    assume "\<exists>c'. (j, c') \<in> set (rmatch (Seq a b) s i c)"
    then obtain k ck c' where k: "(k, ck) \<in> set (rmatch a s i c)" "(j, c') \<in> set (rmatch b s k ck)" by auto
    from "3.IH"(1) [OF pl(1) "3.prems"(2), of k] k have 1: "i \<le> k" "k \<le> length s" "slice s i k \<in> lang a" by auto
    from "3.IH"(2) [OF k(1) refl pl(2) 1(2), of j] k have "k \<le> j" "j \<le> length s" "slice s k j \<in> lang b" by auto
    moreover have "slice s i j = slice s i k @ slice s k j"
      using slice_append [of i k j s] 1(1) \<open>k \<le> j\<close> by simp
    ultimately show "i \<le> j \<and> j \<le> length s \<and> slice s i j \<in> lang (Seq a b)"
      using 1 unfolding lang.simps by (metis (mono_tags, lifting) le_trans mem_Collect_eq)
  next
    assume j: "i \<le> j \<and> j \<le> length s \<and> slice s i j \<in> lang (Seq a b)"
    then obtain u v where uv: "slice s i j = u @ v" "u \<in> lang a" "v \<in> lang b" by auto
    note sp = slice_split [OF uv(1)]
    let ?k = "i + length u"
    have k: "?k \<le> j" "?k \<le> length s" using sp(3) j by auto
    with "3.IH"(1) [OF pl(1) "3.prems"(2), of ?k] sp(1) uv(2) j
    obtain ck where ck: "(?k, ck) \<in> set (rmatch a s i c)" by auto
    from "3.IH"(2) [OF ck refl pl(2) k(2), of j] sp(2) uv(3) j k
    obtain c' where "(j, c') \<in> set (rmatch b s ?k ck)" by auto
    with ck show "\<exists>c'. (j, c') \<in> set (rmatch (Seq a b) s i c)" by force
  qed
next
  case (4 a b s i c)
  from "4.prems" "4.IH"(1) [of j] "4.IH"(2) [of j] show ?case by auto
next
  case (5 a s i c)
  have pa: "plain a" using 5 by simp
  have "(\<exists>c'. (j, c') \<in> set (rmatch (Star a) s i c)) =
      (i \<le> j \<and> j \<le> length s \<and> slice s i j \<in> star_of (lang a))"
  proof (rule star_step [where M = "\<lambda>k ck. rmatch (Star a) s k ck"])
    show "(\<exists>ck. (k, ck) \<in> set (rmatch a s i c)) = (i \<le> k \<and> k \<le> length s \<and> slice s i k \<in> lang a)" for k
      by (rule "5.IH"(1) [OF pa "5.prems"(2)])
    show "(\<exists>c'. (j, c') \<in> set (rmatch (Star a) s k ck)) =
        (k \<le> j \<and> j \<le> length s \<and> slice s k j \<in> star_of (lang a))"
      if "(k, ck) \<in> set (rmatch a s i c)" "i < k" "k \<le> length s" for k ck j
      using "5.IH"(2) [OF that(1) refl, of j] that(2,3) "5.prems"(1) by simp
  qed (use "5.prems"(2) rmatch_Star_iff in blast)+
  then show ?case by simp
next
  case (6 a s i c)
  have pa: "plain a" using 6 by simp
  have "(\<exists>c'. (j, c') \<in> set (rmatch (LStar a) s i c)) =
      (i \<le> j \<and> j \<le> length s \<and> slice s i j \<in> star_of (lang a))"
  proof (rule star_step [where M = "\<lambda>k ck. rmatch (LStar a) s k ck"])
    show "(\<exists>ck. (k, ck) \<in> set (rmatch a s i c)) = (i \<le> k \<and> k \<le> length s \<and> slice s i k \<in> lang a)" for k
      by (rule "6.IH"(1) [OF pa "6.prems"(2)])
    show "(\<exists>c'. (j, c') \<in> set (rmatch (LStar a) s k ck)) =
        (k \<le> j \<and> j \<le> length s \<and> slice s k j \<in> star_of (lang a))"
      if "(k, ck) \<in> set (rmatch a s i c)" "i < k" "k \<le> length s" for k ck j
      using "6.IH"(2) [OF that(1) refl, of j] that(2,3) "6.prems"(1) by simp
  qed (use "6.prems"(2) rmatch_LStar_iff in blast)+
  then show ?case by simp
next
  case (11 n a s i c)
  from "11.IH" [of j] "11.prems" show ?case by force
qed auto

section \<open>Captures\<close>

text \<open>The groups of an expression, and what a match captures: a text the group itself matches.\<close>

fun groups_of :: "re \<Rightarrow> (nat \<times> re) set" where
  "groups_of (Seq a b) = groups_of a \<union> groups_of b"
| "groups_of (Alt a b) = groups_of a \<union> groups_of b"
| "groups_of (Star a) = groups_of a"
| "groups_of (LStar a) = groups_of a"
| "groups_of (Ahead a) = groups_of a"
| "groups_of (NAhead a) = {}"
| "groups_of (Grp n a) = insert (n, a) (groups_of a)"
| "groups_of _ = {}"

definition captured :: "re \<Rightarrow> string \<Rightarrow> nat \<times> string \<Rightarrow> bool" where
  "captured r s nt \<longleftrightarrow> (\<exists>a k l ck cl. (fst nt, a) \<in> groups_of r \<and> k \<le> length s \<and>
     (l, cl) \<in> set (rmatch a s k ck) \<and> snd nt = slice s k l)"

lemma captured_mono: "captured a s nt \<Longrightarrow> groups_of a \<subseteq> groups_of b \<Longrightarrow> captured b s nt"
  unfolding captured_def by blast

lemma rmatch_caps:
  "(j, c') \<in> set (rmatch r s i c) \<Longrightarrow> i \<le> length s \<Longrightarrow> nt \<in> set c' \<Longrightarrow> nt \<in> set c \<or> captured r s nt"
proof (induction r s i c arbitrary: j c' rule: rmatch.induct)
  case (3 a b s i c)
  from "3.prems"(1) obtain k ck where k: "(k, ck) \<in> set (rmatch a s i c)" "(j, c') \<in> set (rmatch b s k ck)" by auto
  from rmatch_bounds [OF k(1) "3.prems"(2)] have kl: "k \<le> length s" by simp
  have "nt \<in> set ck \<or> captured b s nt" by (rule "3.IH"(2) [OF k(1) refl k(2) kl "3.prems"(3)])
  moreover have "nt \<in> set ck \<Longrightarrow> nt \<in> set c \<or> captured a s nt" by (rule "3.IH"(1) [OF k(1) "3.prems"(2)])
  ultimately show ?case using captured_mono [of _ s nt "Seq a b"] by fastforce
next
  case (4 a b s i c)
  then show ?case using captured_mono [of _ s nt "Alt a b"] by fastforce
next
  case (5 a s i c)
  from "5.prems"(1) consider "c' = c" | k ck where "(k, ck) \<in> set (rmatch a s i c)"
      "i < k" "k \<le> length s" "(j, c') \<in> set (rmatch (Star a) s k ck)"
    unfolding rmatch_Star_iff [of _ a s i c] by auto
  then show ?case
  proof cases
    case 2
    have "nt \<in> set ck \<or> captured (Star a) s nt"
      by (rule "5.IH"(2) [OF 2(1) refl _ 2(4) 2(3) "5.prems"(3)]) (use 2 in simp)
    moreover have "nt \<in> set ck \<Longrightarrow> nt \<in> set c \<or> captured a s nt" by (rule "5.IH"(1) [OF 2(1) "5.prems"(2)])
    ultimately show ?thesis using captured_mono [of a s nt "Star a"] by fastforce
  qed (use "5.prems" in simp)
next
  case (6 a s i c)
  from "6.prems"(1) consider "c' = c" | k ck where "(k, ck) \<in> set (rmatch a s i c)"
      "i < k" "k \<le> length s" "(j, c') \<in> set (rmatch (LStar a) s k ck)"
    unfolding rmatch_LStar_iff [of _ a s i c] by auto
  then show ?case
  proof cases
    case 2
    have "nt \<in> set ck \<or> captured (LStar a) s nt"
      by (rule "6.IH"(2) [OF 2(1) refl _ 2(4) 2(3) "6.prems"(3)]) (use 2 in simp)
    moreover have "nt \<in> set ck \<Longrightarrow> nt \<in> set c \<or> captured a s nt" by (rule "6.IH"(1) [OF 2(1) "6.prems"(2)])
    ultimately show ?thesis using captured_mono [of a s nt "LStar a"] by fastforce
  qed (use "6.prems" in simp)
next
  case (9 a s i c)
  from "9.prems"(1) obtain x xs where x: "rmatch a s i c = (x, c') # xs"
    by (cases "rmatch a s i c") auto
  have "nt \<in> set c \<or> captured a s nt" by (rule "9.IH" [of x c']) (use x "9.prems" in auto)
  then show ?case using captured_mono [of a s nt "Ahead a"] by fastforce
next
  case (11 n a s i c)
  from "11.prems"(1) obtain c1 where c1: "(j, c1) \<in> set (rmatch a s i c)" "c' = (n, slice s i j) # c1"
    by (auto simp: slice_def)
  have "nt = (n, slice s i j) \<Longrightarrow> captured (Grp n a) s nt"
    unfolding captured_def using c1(1) "11.prems"(2) by simp blast
  moreover have "nt \<in> set c1 \<Longrightarrow> nt \<in> set c \<or> captured a s nt" by (rule "11.IH" [OF c1(1) "11.prems"(2)])
  ultimately show ?case using c1(2) "11.prems"(3) captured_mono [of a s nt "Grp n a"] by fastforce
qed (auto split: if_splits list.splits)

lemma search_from_caps:
  "search_from n r s i adv = Some m \<Longrightarrow> (m_end m, m_caps m) \<in> set (rmatch r s (m_start m) [])"
proof (induction n r s i adv rule: search_from.induct)
  case (2 n r s i adv)
  show ?case
  proof (cases "filter (\<lambda>(j, c). \<not> adv \<or> i < j) (rmatch r s i [])")
    case Nil
    with 2 show ?thesis by auto
  next
    case (Cons jc rest)
    then have "jc \<in> set (rmatch r s i [])"
      using filter_is_subset [of "\<lambda>(j, c). \<not> adv \<or> i < j" "rmatch r s i []"] by auto
    with Cons "2.prems" show ?thesis by (cases jc) auto
  qed
qed simp

lemma matches_from_caps:
  "m \<in> set (matches_from n r s i adv) \<Longrightarrow> i \<le> length s \<Longrightarrow>
   m_start m \<le> length s \<and> (m_end m, m_caps m) \<in> set (rmatch r s (m_start m) [])"
proof (induction n r s i adv rule: matches_from.induct)
  case (2 n r s i adv)
  show ?case
  proof (cases "search_from (Suc (length s) - i) r s i adv")
    case None
    with 2 show ?thesis by simp
  next
    case (Some m')
    from search_from_bounds [OF Some] "2.prems"(2) have b: "m_start m' \<le> length s" "m_end m' \<le> length s" by auto
    with "2.IH" [OF Some _ b(2)] "2.prems"(1) Some search_from_caps [OF Some] show ?thesis by auto
  qed
qed simp

text \<open>What a group of a search result holds is a word of the group's language.\<close>

lemma group_lang:
  assumes m: "(m_end m, m_caps m) \<in> set (rmatch r s (m_start m) [])" "m_start m \<le> length s"
    and t: "group m n = Some t" and pl: "\<And>a. (n, a) \<in> groups_of r \<Longrightarrow> plain a"
  shows "\<exists>a. (n, a) \<in> groups_of r \<and> t \<in> lang a"
proof -
  from t have "(n, t) \<in> set (m_caps m)" by (auto simp: group_def dest: map_of_SomeD)
  from rmatch_caps [OF m this] obtain a k l ck cl where a: "(n, a) \<in> groups_of r" "k \<le> length s"
    "(l, cl) \<in> set (rmatch a s k ck)" "t = slice s k l" by (auto simp: captured_def)
  with rmatch_lang [OF pl [OF a(1)] a(2), of l ck] show ?thesis by auto
qed

lemma finditer_group:
  "m \<in> set (finditer r s) \<Longrightarrow> group m n = Some t \<Longrightarrow> (\<And>a. (n, a) \<in> groups_of r \<Longrightarrow> plain a) \<Longrightarrow>
   \<exists>a. (n, a) \<in> groups_of r \<and> t \<in> lang a"
  using matches_from_caps [of m "2 * length s + 2" r s 0 False] group_lang [of m r s n t]
  by (auto simp: finditer_def)

lemma search_group:
  assumes "search r s = Some m" "group m n = Some t" "\<And>a. (n, a) \<in> groups_of r \<Longrightarrow> plain a"
  shows "\<exists>a. (n, a) \<in> groups_of r \<and> t \<in> lang a"
  using assms search_from_caps [of "Suc (length s)" r s 0 False m]
    search_from_bounds [of "Suc (length s)" r s 0 False m] group_lang [of m r s n t]
  by (auto simp: search_def)

end
