(* ===== verification/Helpers.thy ===== *)
theory Helpers
  imports Regex "HOL-Library.List_Lexorder"
begin

text \<open>
  couchpotato/core/helpers/variable.py and the path helper \<open>sp\<close> of encoding.py. What the
  functions ask of the file system (does a file exist, what does it hold, where does a path really
  lead) are arguments.
\<close>

section \<open>Lists\<close>

definition removeListDuplicates :: "'a list \<Rightarrow> 'a list" where
  "removeListDuplicates seq = foldl (\<lambda>checked e. if e \<notin> set checked then checked @ [e] else checked) [] seq"

definition removeDuplicate :: "'a list \<Rightarrow> 'a list" where
  "removeDuplicate l = dedup [] l"

definition removeEmpty :: "string list \<Rightarrow> string list" where
  "removeEmpty l = filter (\<lambda>x. x \<noteq> []) l"

definition splitString :: "string \<Rightarrow> string \<Rightarrow> bool \<Rightarrow> string list" where
  "splitString str split_at clean =
     (let l = (if str \<noteq> [] then map strip (split_on split_at str) else [])
      in if clean then removeEmpty l else l)"

definition find_item :: "('a \<Rightarrow> bool) \<Rightarrow> 'a list \<Rightarrow> 'a option" where
  "find_item f xs = first_such f xs"

section \<open>Dictionaries\<close>

function merge_into :: "bool \<Rightarrow> doc \<Rightarrow> doc \<Rightarrow> doc" where
  "merge_into prepend dst [] = dst"
| "merge_into prepend dst ((k, v) # src) =
     merge_into prepend
       (dput dst k (case map_of dst k of
            None \<Rightarrow> v
          | Some old \<Rightarrow> (case (v, old) of
                (PDict s, PDict d) \<Rightarrow> PDict (merge_into prepend d s)
              | (PList s, PList d) \<Rightarrow> PList (removeListDuplicates (if prepend then s @ d else d @ s))
              | _ \<Rightarrow> v))) src"
  by pat_completeness auto
termination
  by (relation "measure (\<lambda>(_, _, src). size (PDict src))") auto

text \<open>The assertion \<open>assert isDict(a), isDict(b)\<close> tests \<open>a\<close> only (its second part is the message);
  iterating over a \<open>b\<close> that is no dict raises or takes the wrong path, and the program never does.\<close>

definition mergeDicts :: "pv \<Rightarrow> pv \<Rightarrow> bool \<Rightarrow> pv res" where
  "mergeDicts a b prepend = (case a of
       PDict da \<Rightarrow> (case b of PDict db \<Rightarrow> Inr (PDict (merge_into prepend da db)) | _ \<Rightarrow> Inl TypeError)
     | _ \<Rightarrow> Inl AssertionError)"

definition dictIsSubset :: "doc \<Rightarrow> doc \<Rightarrow> bool" where
  "dictIsSubset a b = list_all (\<lambda>(k, v). dhas b k \<and> pv_eq (dget b k) v) a"

definition getIdentifier :: "doc \<Rightarrow> pv res" where
  "getIdentifier media =
     (if truthy (dget media ''identifier'') then Inr (dget media ''identifier'')
      else vget (dgetd media ''identifiers'' (PDict [])) ''imdb'')"

definition first_title :: "pv \<Rightarrow> pv res" where
  "first_title v = (case v of
       PList xs \<Rightarrow> nth_res xs 0
     | PTup xs \<Rightarrow> nth_res xs 0
     | PStr s \<Rightarrow> (if s = [] then Inl IndexError else Inr (PStr [hd s]))
     | PDict _ \<Rightarrow> Inl KeyError
     | _ \<Rightarrow> Inl TypeError)"

definition getTitle :: "pv \<Rightarrow> pv" where
  "getTitle m =
     (case rcatch (vsub m ''title'') (\<lambda>_.
           rcatch (rbind (vsub m ''titles'') first_title) (\<lambda>_.
           rcatch (rbind (vsub m ''info'') (\<lambda>i. rbind (vsub i ''titles'') first_title)) (\<lambda>_.
           rbind (vsub m ''media'') (\<lambda>d. rbind (vsub d ''info'') (\<lambda>i. rbind (vsub i ''titles'') first_title))))) of
        Inr t \<Rightarrow> t | Inl _ \<Rightarrow> PNone)"

section \<open>Texts\<close>

definition fnEscape :: "string \<Rightarrow> string" where
  "fnEscape pattern = replace_str ''[['' ''[[]'' (replace_str '']'' ''[]]'' (replace_str ''['' ''[['' pattern))"

definition isLocalIP :: "string \<Rightarrow> bool" where
  "isLocalIP ip0 =
     (let ip = lstrip_chars ''htps:/'' ip0;
          regex = alts
            [seqs [chr (CHR ''/''), Bos, lit ''127.''],
             seqs [Bos, lit ''192.168.''],
             seqs [Bos, lit ''10.''],
             seqs [Bos, lit ''172.1'', Cls (\<lambda>c. 54 \<le> cp c \<and> cp c \<le> 57), lit ''.''],
             seqs [Bos, lit ''172.2'', digit, lit ''.''],
             seqs [Bos, lit ''172.3'', any_of ''01'', lit ''.''],
             seqs [Bos, lit ''::1'', Eos, chr (CHR ''/'')]]
      in search regex ip \<noteq> None \<or> contains ''localhost'' ip \<or> take 4 ip = ''127.'')"

text \<open>\<open>os.path.splitext(f)[1][1:]\<close>: the text after the last dot of the last path component, when
  something other than dots precedes that dot.\<close>

definition basename :: "string \<Rightarrow> string" where
  "basename p = rev (takeWhile (\<lambda>c. c \<noteq> CHR ''/'') (rev p))"

definition getExt :: "string \<Rightarrow> string" where
  "getExt filename =
     (let b = basename filename;
          e = rev (takeWhile (\<lambda>c. c \<noteq> CHR ''.'') (rev b));
          stem = take (length b - length e - 1) b
      in if CHR ''.'' \<in> set b \<and> \<not> list_all (\<lambda>c. c = CHR ''.'') stem then e else [])"

definition contains_auth :: "string \<Rightarrow> bool" where
  "contains_auth host =
     (findall0 (seqs [Bos, lplus dot, lit ''//'', Grp 1 (lplus dot), lit '':'', Grp 2 (lplus dot),
        lit ''@'', plus_re dot, Eos]) host \<noteq> [])"

definition replace_first :: "string \<Rightarrow> string \<Rightarrow> string \<Rightarrow> string" where
  "replace_first old new s = (case find_str old s of
       None \<Rightarrow> s | Some i \<Rightarrow> take i s @ new @ drop (i + length old) s)"

definition cleanHost :: "string \<Rightarrow> bool \<Rightarrow> bool \<Rightarrow> string \<Rightarrow> string \<Rightarrow> string" where
  "cleanHost host0 protocol ssl username password =
     (let host1 = (if \<not> contains ''://'' host0 \<and> protocol
                   then (if ssl then ''https://'' else ''http://'') @ host0 else host0);
          host2 = (if \<not> protocol
                   then (case find_str ''://'' host1 of None \<Rightarrow> host1 | Some i \<Rightarrow> drop (i + 3) host1)
                   else host1);
          host3 = (if protocol \<and> username \<noteq> [] \<and> password \<noteq> [] \<and> \<not> contains_auth host2
                   then replace_first ''://'' (''://'' @ username @ '':'' @ password @ ''@'') host2
                   else host2);
          host4 = rstrip_chars ''/ '' host3
      in if protocol then host4 @ ''/'' else host4)"

definition rjust0 :: "nat \<Rightarrow> string \<Rightarrow> string" where
  "rjust0 n s = replicate (n - length s) (CHR ''0'') @ s"

definition imdb_format :: "string \<Rightarrow> string" where
  "imdb_format x = ''tt'' @ rjust0 7 (str_of_int (tryInt (PStr (drop 2 x)) 0))"

definition imdb_re :: re where
  "imdb_re = seqs [lit ''tt'', rep_between 4 8 digit]"

text \<open>With \<open>check_inside\<close> the text becomes bytes; unless it names a file, whose content is then read
  as text, \<open>re.findall\<close> raises \<open>TypeError\<close> on them. \<open>content\<close> is the file system.\<close>

definition imdb_ids :: "(string \<Rightarrow> string option) \<Rightarrow> string \<Rightarrow> bool \<Rightarrow> string list res" where
  "imdb_ids content txt check_inside =
     (if \<not> check_inside then Inr (findall0 imdb_re (simplifyString txt))
      else (case content txt of
          Some t \<Rightarrow> Inr (findall0 imdb_re t)
        | None \<Rightarrow> Inl TypeError))"

definition getImdb :: "(string \<Rightarrow> string option) \<Rightarrow> string \<Rightarrow> bool \<Rightarrow> string option res" where
  "getImdb content txt check_inside = rbind (imdb_ids content txt check_inside) (\<lambda>ids. case ids of
       [] \<Rightarrow> Inr None | x # _ \<Rightarrow> Inr (Some (imdb_format x)))"

definition getImdb_multiple :: "(string \<Rightarrow> string option) \<Rightarrow> string \<Rightarrow> bool \<Rightarrow> string list res" where
  "getImdb_multiple content txt check_inside =
     rbind (imdb_ids content txt check_inside) (\<lambda>ids. Inr (removeDuplicate (map imdb_format ids)))"

datatype natkey = NK_int int | NK_str string

definition natsortKey :: "string \<Rightarrow> natkey list" where
  "natsortKey s = map (\<lambda>x. if x \<noteq> [] \<and> list_all is_digit x then NK_int (int (digits_val 0 x)) else NK_str x)
     (split_re1 (Grp 1 (plus_re digit)) s)"

definition possibleTitles :: "string \<Rightarrow> string list" where
  "possibleTitles raw_title =
     removeDuplicate
       [lower (toSafeString raw_title), lower raw_title, simplifyString raw_title,
        simplifyString (replace_str ''&'' ''and'' raw_title)]"

text \<open>The two patterns SABnzbd uses for a password in a name.\<close>

definition re_password :: "re list" where
  "re_password =
     [seqs [Grp 1 (plus_re dot), lit ''{{'', Grp 2 (plus_re (none_of ''{}'')), lit ''}}'', Eos],
      seqs [Grp 1 (plus_re dot), plus_re space, liti ''password'', Star space, lit ''='', Star space,
            Grp 2 (plus_re dot), Eos]]"

fun first_match :: "re list \<Rightarrow> string \<Rightarrow> rmatch_result option" where
  "first_match [] s = None"
| "first_match (r # rs) s = (case search r s of Some m \<Rightarrow> Some m | None \<Rightarrow> first_match rs s)"

definition grp :: "rmatch_result \<Rightarrow> nat \<Rightarrow> string" where
  "grp m n = (case group m n of None \<Rightarrow> [] | Some t \<Rightarrow> t)"

definition scanForPassword :: "string \<Rightarrow> (string \<times> string) option" where
  "scanForPassword name = (case first_match re_password name of
       None \<Rightarrow> None
     | Some m \<Rightarrow> Some (strip_chars ''. '' (grp m 1), strip (grp m 2)))"

definition underscoreToCamel :: "string \<Rightarrow> string" where
  "underscoreToCamel name =
     sub (seqs [lit ''_'', Grp 1 (Cls is_lower_az)]) (\<lambda>m. map upper_char_az (grp m 1)) name"

section \<open>Versions\<close>

definition normalize_version :: "string \<Rightarrow> int list res" where
  "normalize_version v =
     mapr (\<lambda>x. case int_of_str x of None \<Rightarrow> Inl ValueError | Some i \<Rightarrow> Inr i)
       (split_on ''.'' (sub_str (Seq (Star (Grp 1 (seqs [lit ''.'', plus_re (lit ''0'')]))) Eos) [] v))"

definition compareVersions :: "string \<Rightarrow> string \<Rightarrow> int res" where
  "compareVersions version1 version2 =
     rbind (normalize_version version1) (\<lambda>a. rbind (normalize_version version2) (\<lambda>b.
       Inr ((if b < a then 1 else 0) - (if a < b then 1 else 0))))"

section \<open>Paths\<close>

definition path_sep :: string where
  "path_sep = ''/''"

fun norm_comps :: "bool \<Rightarrow> string list \<Rightarrow> string list \<Rightarrow> string list" where
  "norm_comps rooted acc [] = rev acc"
| "norm_comps rooted acc (c # cs) =
     (if c = [] \<or> c = ''.'' then norm_comps rooted acc cs
      else if c \<noteq> ''..'' \<or> \<not> rooted \<and> acc = [] \<or> acc \<noteq> [] \<and> hd acc = ''..''
           then norm_comps rooted (c # acc) cs
      else norm_comps rooted (tl acc) cs)"

definition normpath :: "string \<Rightarrow> string" where
  "normpath p =
     (if p = [] then ''.'' else
      let slashes = (if prefix ''//'' p \<and> \<not> prefix ''///'' p then 2 else if prefix ''/'' p then 1 else 0);
          q = replicate slashes (CHR ''/'') @ join ''/'' (norm_comps (slashes \<noteq> 0) [] (split_on ''/'' p))
      in if q = [] then ''.'' else q)"

definition sp :: "string \<Rightarrow> string" where
  "sp path0 =
     (if path0 = [] then path0 else
      let path1 = (if CHR 0x5C \<in> set path0
                   then ''/'' @ replace_str [CHR 0x5C] ''/'' (replace_str '':'' [] path0) else path0);
          path2 = normpath path1;
          path3 = (if path2 \<noteq> path_sep then rstrip_chars path_sep path2 else path2);
          path4 = (if length path3 = 2 \<and> path3 ! 1 = CHR '':'' then path3 @ path_sep else path3)
      in if prefix ''//'' path4 then tl path4 else path4)"

fun commonprefix :: "string \<Rightarrow> string \<Rightarrow> string" where
  "commonprefix (x # xs) (y # ys) = (if x = y then x # commonprefix xs ys else [])"
| "commonprefix _ _ = []"

definition isSubFolder :: "(string \<Rightarrow> string) \<Rightarrow> string \<Rightarrow> string \<Rightarrow> bool" where
  "isSubFolder realpath sub_folder base_folder =
     (if base_folder \<noteq> [] \<and> sub_folder \<noteq> []
      then (let base = sp (realpath base_folder) @ path_sep;
                subfolder = sp (realpath sub_folder) @ path_sep
            in commonprefix subfolder base = base)
      else False)"

section \<open>Facts\<close>

lemma removeListDuplicates_foldl:
  "foldl (\<lambda>checked e. if e \<notin> set checked then checked @ [e] else checked) seen xs = seen @ dedup seen xs"
proof (induction xs arbitrary: seen)
  case (Cons x xs)
  have "dedup (seen @ [x]) xs = dedup (x # seen) xs" by (rule dedup_cong) auto
  with Cons show ?case by simp
qed simp

text \<open>The quadratic and the hashing way of removing duplicates compute the same list.\<close>

lemma removeListDuplicates_dedup: "removeListDuplicates xs = removeDuplicate xs"
  by (simp add: removeListDuplicates_def removeDuplicate_def removeListDuplicates_foldl)

lemma merge_into_other: "\<not> dhas src k \<Longrightarrow> dget (merge_into p dst src) k = dget dst k"
proof (induction src arbitrary: dst)
  case (Cons kv src)
  from Cons.prems have "fst kv \<noteq> k" "\<not> dhas src k" by (auto simp: dhas_def split: if_splits)
  with Cons.IH show ?case by (cases kv) simp
qed simp

fun is_scalar :: "pv \<Rightarrow> bool" where
  "is_scalar (PList _) = False" | "is_scalar (PDict _) = False" | "is_scalar _ = True"

text \<open>\<open>mergeDicts(a, b)\<close>: a key only \<open>a\<close> has keeps its value, a scalar of \<open>b\<close> wins.\<close>

lemma merge_into_scalar:
  assumes "distinct (map fst src)" "map_of src k = Some v" "is_scalar v"
  shows "dget (merge_into p dst src) k = v"
  using assms
proof (induction src arbitrary: dst)
  case (Cons kv src)
  obtain k' v' where kv: "kv = (k', v')" by (cases kv)
  show ?case
  proof (cases "k' = k")
    case True
    with Cons.prems kv have v: "v' = v" "\<not> dhas src k" by (auto simp: dhas_def map_of_eq_None_iff)
    have "dget (merge_into p dst (kv # src)) k = v" if "v' = v"
      using v that Cons.prems(3) kv True
      by (cases v) (auto simp: merge_into_other split: option.split)
    then show ?thesis using v by simp
  next
    case False
    with Cons.prems kv Cons.IH show ?thesis by simp
  qed
qed simp

lemma commonprefix_prefix: "commonprefix a b = b \<longleftrightarrow> prefix b a"
  by (induction a b rule: commonprefix.induct) auto

text \<open>\<open>isSubFolder\<close> holds exactly for a path whose components start with the base folder's: a
  sibling that merely has the base's name as a prefix of its own is outside.\<close>

theorem isSubFolder_iff:
  "isSubFolder realpath a b \<longleftrightarrow>
     a \<noteq> [] \<and> b \<noteq> [] \<and>
     (sp (realpath a) = sp (realpath b) \<or> prefix (sp (realpath b) @ ''/'') (sp (realpath a)))"
proof -
  have "prefix (x @ ''/'') (y @ ''/'') \<longleftrightarrow> y = x \<or> prefix (x @ ''/'') y" for x y :: string
    by (auto simp: prefix_snoc)
  then show ?thesis by (auto simp: isSubFolder_def commonprefix_prefix path_sep_def)
qed

text \<open>Comparing versions is a total order on their numbers: swapping the arguments negates the
  result, the result is zero exactly for the same numbers (trailing \<open>.0\<close> dropped), and it is
  transitive.\<close>

theorem compareVersions_order:
  assumes "compareVersions a b = Inr x"
  shows "compareVersions b a = Inr (- x) \<and> (x = 0 \<longleftrightarrow> normalize_version a = normalize_version b) \<and>
    (compareVersions b c = Inr y \<longrightarrow> 0 \<le> x \<longrightarrow> 0 \<le> y \<longrightarrow> (\<exists>z \<ge> 0. compareVersions a c = Inr z))"
proof -
  have cmp: "compareVersions v w = Inr z \<longleftrightarrow> (\<exists>m n. normalize_version v = Inr m \<and> normalize_version w = Inr n \<and>
      z = (if n < m then 1 else 0) - (if m < n then 1 else 0))" for v w z
    unfolding compareVersions_def rbind_eq_Inr by auto
  from assms obtain m n where mn: "normalize_version a = Inr m" "normalize_version b = Inr n"
    and x: "x = (if n < m then 1 else 0) - (if m < n then 1 else 0)"
    unfolding cmp by blast
  have 1: "compareVersions b a = Inr (- x)" unfolding cmp using mn x by simp
  have "x = 0 \<longleftrightarrow> m = n" using less_linear [of m n] by (auto simp: x)
  then have 2: "x = 0 \<longleftrightarrow> normalize_version a = normalize_version b" using mn by simp
  have "\<exists>z \<ge> 0. compareVersions a c = Inr z" if y: "compareVersions b c = Inr y" "0 \<le> x" "0 \<le> y"
  proof -
    from y(1) obtain k where k: "normalize_version c = Inr k"
        "y = (if k < n then 1 else 0) - (if n < k then 1 else 0)"
      unfolding cmp using mn(2) by auto
    have "\<not> m < n" "\<not> n < k" using y x k less_linear [of m n] less_linear [of n k] by (auto split: if_splits)
    then have "\<not> m < k" by (meson le_less_trans not_le)
    then show ?thesis using mn k by (auto simp: compareVersions_def)
  qed
  with 1 2 show ?thesis by blast
qed

theorem compareVersions_order_witness:
  "compareVersions ''3.1'' ''3.0.2'' = Inr 1 \<and> compareVersions ''3.0.2'' ''3.1'' = Inr (- 1)"
proof -
  have "compareVersions ''3.1'' ''3.0.2'' = Inr 1" by code_simp
  from compareVersions_order [OF this, of "''3''"] this show ?thesis by blast
qed

text \<open>Looking for an IMDb id inside a text that is not the name of a file always raises: the text
  has been encoded to bytes, and the pattern is one for strings.\<close>

theorem getImdb_inside_raises:
  assumes "content txt = None"
  shows "getImdb content txt True = Inl TypeError"
  using assms by (simp add: getImdb_def imdb_ids_def)

theorem getImdb_inside_raises_witness:
  "getImdb (\<lambda>_. None) ''tt0133093'' True = Inl TypeError"
  by (rule getImdb_inside_raises) simp

end
