(* ===== verification/Quality.thy ===== *)
theory Quality
  imports World Helpers
begin

text \<open>
  couchpotato/core/plugins/quality/main.py: the table of qualities, the qualities as the database
  completes them, guessing the quality of a set of files by a score, and the two questions the rest
  of the program asks about a quality and a profile (\<open>isFinish\<close>, \<open>isHigher\<close>). A tag of the table
  is a word or a tuple of words. The score of a quality is its points and the counters of the 3D
  q_tags found.
\<close>

section \<open>The table\<close>

datatype tag = T string | TT "string list"

record quality =
  q_id :: string
  q_hd :: bool
  q_3d :: bool
  q_size :: "int \<times> int"
  q_median :: int
  q_label :: string
  q_width :: "int option"
  q_height :: "int option"
  q_alternative :: "tag list"
  q_allow :: "string list"
  q_ext :: "string list"
  q_tags :: "tag list"

definition qualities :: "quality list" where
  "qualities =
     [\<lparr>q_id = ''2160p'', q_hd = True, q_3d = True, q_size = (10000, 650000), q_median = 20000, q_label = ''2160p'',
       q_width = Some 3840, q_height = Some 2160, q_alternative = [], q_allow = [], q_ext = [''mkv''], q_tags = [T ''x264'', T ''h264'', T ''2160'']\<rparr>,
      \<lparr>q_id = ''bd50'', q_hd = True, q_3d = True, q_size = (20000, 60000), q_median = 40000, q_label = ''BR-Disk'',
       q_width = None, q_height = None, q_alternative = [T ''bd25'', TT [''br'', ''disk'']], q_allow = [''1080p''], q_ext = [''iso'', ''img''], q_tags = [T ''bdmv'', T ''certificate'', TT [''complete'', ''bluray''], T ''avc'', T ''mvc'']\<rparr>,
      \<lparr>q_id = ''1080p'', q_hd = True, q_3d = True, q_size = (4000, 20000), q_median = 10000, q_label = ''1080p'',
       q_width = Some 1920, q_height = Some 1080, q_alternative = [], q_allow = [], q_ext = [''mkv'', ''m2ts'', ''ts''], q_tags = [T ''m2ts'', T ''x264'', T ''h264'', T ''1080'']\<rparr>,
      \<lparr>q_id = ''720p'', q_hd = True, q_3d = True, q_size = (3000, 10000), q_median = 5500, q_label = ''720p'',
       q_width = Some 1280, q_height = Some 720, q_alternative = [], q_allow = [], q_ext = [''mkv'', ''ts''], q_tags = [T ''x264'', T ''h264'', T ''720'']\<rparr>,
      \<lparr>q_id = ''brrip'', q_hd = True, q_3d = True, q_size = (700, 7000), q_median = 2000, q_label = ''BR-Rip'',
       q_width = None, q_height = None, q_alternative = [T ''bdrip'', TT [''br'', ''rip''], T ''hdtv'', T ''hdrip''], q_allow = [''720p'', ''1080p'', ''2160p''], q_ext = [''mp4'', ''avi''], q_tags = [T ''webdl'', TT [''web'', ''dl'']]\<rparr>,
      \<lparr>q_id = ''dvdr'', q_hd = False, q_3d = False, q_size = (3000, 10000), q_median = 4500, q_label = ''DVD-R'',
       q_width = None, q_height = None, q_alternative = [T ''br2dvd'', TT [''dvd'', ''r'']], q_allow = [], q_ext = [''iso'', ''img'', ''vob''], q_tags = [T ''pal'', T ''ntsc'', T ''video_ts'', T ''audio_ts'', TT [''dvd'', ''r''], T ''dvd9'']\<rparr>,
      \<lparr>q_id = ''dvdrip'', q_hd = False, q_3d = False, q_size = (600, 2400), q_median = 1500, q_label = ''DVD-Rip'',
       q_width = Some 720, q_height = None, q_alternative = [TT [''dvd'', ''rip'']], q_allow = [], q_ext = [''avi''], q_tags = [TT [''dvd'', ''rip''], TT [''dvd'', ''xvid''], TT [''dvd'', ''divx'']]\<rparr>,
      \<lparr>q_id = ''scr'', q_hd = False, q_3d = False, q_size = (600, 1600), q_median = 700, q_label = ''Screener'',
       q_width = None, q_height = None, q_alternative = [T ''screener'', T ''dvdscr'', T ''ppvrip'', T ''dvdscreener'', T ''hdscr'', T ''webrip'', TT [''web'', ''rip'']], q_allow = [''dvdr'', ''dvdrip'', ''720p'', ''1080p''], q_ext = [], q_tags = []\<rparr>,
      \<lparr>q_id = ''r5'', q_hd = False, q_3d = False, q_size = (600, 1000), q_median = 700, q_label = ''R5'',
       q_width = None, q_height = None, q_alternative = [T ''r6''], q_allow = [''dvdr'', ''720p'', ''1080p''], q_ext = [], q_tags = []\<rparr>,
      \<lparr>q_id = ''tc'', q_hd = False, q_3d = False, q_size = (600, 1000), q_median = 700, q_label = ''TeleCine'',
       q_width = None, q_height = None, q_alternative = [T ''telecine''], q_allow = [''720p'', ''1080p''], q_ext = [], q_tags = []\<rparr>,
      \<lparr>q_id = ''ts'', q_hd = False, q_3d = False, q_size = (600, 1000), q_median = 700, q_label = ''TeleSync'',
       q_width = None, q_height = None, q_alternative = [T ''telesync'', T ''hdts''], q_allow = [''720p'', ''1080p''], q_ext = [], q_tags = []\<rparr>,
      \<lparr>q_id = ''cam'', q_hd = False, q_3d = False, q_size = (600, 1000), q_median = 700, q_label = ''Cam'',
       q_width = None, q_height = None, q_alternative = [T ''camrip'', T ''hdcam''], q_allow = [''720p'', ''1080p''], q_ext = [], q_tags = []\<rparr>]"

definition pre_releases :: "string list" where
  "pre_releases = [''cam'', ''ts'', ''tc'', ''r5'', ''scr'']"

definition threed_tags :: "(string \<times> tag list) list" where
  "threed_tags =
     [(''sbs'', [TT [''half'', ''sbs''], T ''hsbs'', TT [''full'', ''sbs''], T ''fsbs'']),
      (''ou'', [TT [''half'', ''ou''], T ''hou'', TT [''full'', ''ou''], T ''fou'']),
      (''3d'', [T ''2d3d'', T ''3d2d'', T ''3d''])]"

definition getOrder :: "string list" where
  "getOrder = map q_id qualities"

definition getQuality :: "string \<Rightarrow> quality option" where
  "getQuality identifier = first_such (\<lambda>q. identifier = q_id q) qualities"

section \<open>Qualities in the database\<close>

text \<open>\<open>mergeDicts(quality, quality_doc)\<close>: the table's entry completed by its document, from which
  the program reads \<open>size_min\<close> and \<open>size_max\<close>; the identifier of both is the same.\<close>

record merged =
  m_base :: quality
  m_doc :: doc

definition all_qualities :: "(world, merged list) py" where
  "all_qualities = (\<lambda>w. (mapr (\<lambda>q. rbind (query ''quality'' (PStr (q_id q)) (store w)) (\<lambda>hs. case hs of
       [] \<Rightarrow> Inl RecordNotFound | h # _ \<Rightarrow> Inr \<lparr>m_base = q, m_doc = hit_doc h\<rparr>)) qualities, w))"

text \<open>\<open>single\<close>: the handler of \<open>RecordNotFound\<close> names a variable that does not exist.\<close>

definition single_quality :: "string \<Rightarrow> (world, merged) py" where
  "single_quality identifier =
     bnd (catch (on_db (db_get_by ''quality'' (PStr identifier)))
           (\<lambda>e. if e = RecordNotFound then raise NameError else raise e)) (\<lambda>h.
     bnd (liftr (dsub (hit_doc h) ''identifier'')) (\<lambda>i.
       case (case i of PStr s \<Rightarrow> getQuality s | _ \<Rightarrow> None) of
         None \<Rightarrow> raise AssertionError
       | Some q \<Rightarrow> ret \<lparr>m_base = q, m_doc = hit_doc h\<rparr>))"

definition saveSize :: "pv \<Rightarrow> string \<Rightarrow> pv \<Rightarrow> (world, bool) py" where
  "saveSize identifier value_type val =
     catch
       (bnd (on_db (db_get_by ''quality'' identifier)) (\<lambda>h.
        bnd (on_db (db_update (dput (hit_doc h) value_type (PInt (tryInt val 0))))) (\<lambda>_. ret True)))
       (\<lambda>_. ret False)"

definition quality_doc :: "quality \<Rightarrow> int \<Rightarrow> doc" where
  "quality_doc q order =
     [(''_t'', PStr ''quality''), (''order'', PInt order), (''identifier'', PStr (q_id q)),
      (''size_min'', PInt (fst (q_size q))), (''size_max'', PInt (snd (q_size q)))]"

definition quality_profile_doc :: "quality \<Rightarrow> int \<Rightarrow> doc" where
  "quality_profile_doc q order =
     [(''_t'', PStr ''profile''), (''order'', PInt (order + 20)), (''core'', PBool True),
      (''qualities'', PList [PStr (q_id q)]), (''label'', PStr (q_label q)),
      (''finish'', PList [PBool True]), (''wait_for'', PList [PInt 0])]"

definition fill_one :: "bool \<Rightarrow> quality \<Rightarrow> int \<Rightarrow> (world, int ctl) py" where
  "fill_one reorder q order =
     bnd (catch (bnd (on_db (db_get_by ''quality'' (PStr (q_id q)))) (\<lambda>h. ret (Some h)))
           (\<lambda>e. if e = RecordNotFound then ret None else raise e)) (\<lambda>existing.
     bnd (case existing of
         None \<Rightarrow>
           bnd (on_db (db_insert (quality_doc q order))) (\<lambda>_.
           bnd (on_db (db_insert (quality_profile_doc q order))) (\<lambda>_. ret ()))
       | Some h \<Rightarrow>
           whenp reorder (bnd (on_db (db_update (dput (hit_doc h) ''order'' (PInt order)))) (\<lambda>_. ret ()))) (\<lambda>_.
     ret (Go (order + 1))))"

definition fill :: "bool \<Rightarrow> (world, bool) py" where
  "fill reorder =
     catch (bnd (for_acc qualities 0 (fill_one reorder)) (\<lambda>_. ret True)) (\<lambda>_. ret False)"

definition fillBlank :: "(world, unit) py" where
  "fillBlank =
     catch
       (bnd (on_db (db_all ''quality'' (- 1) 0)) (\<lambda>existing.
        whenp (length existing < length qualities) (bnd (fill True) (\<lambda>_. ret ()))))
       (\<lambda>_. ret ())"

section \<open>Scores\<close>

record qscore =
  points :: rat
  threed :: "(string \<times> int) list"

type_synonym scores = "(string \<times> qscore) list"

definition score_of :: "scores \<Rightarrow> string \<Rightarrow> qscore" where
  "score_of sc i = (case map_of sc i of None \<Rightarrow> \<lparr>points = 0, threed = []\<rparr> | Some x \<Rightarrow> x)"

text \<open>\<open>score[key]['score'] += n\<close>. The dictionary has a score for every quality the guess knows; where a key were missing
  Python would raise, the model starts from 0.\<close>

definition add_points :: "string \<Rightarrow> rat \<Rightarrow> scores \<Rightarrow> scores" where
  "add_points i r sc = AList.update i ((score_of sc i)\<lparr>points := points (score_of sc i) + r\<rparr>) sc"

fun index_of :: "string \<Rightarrow> quality list \<Rightarrow> nat" where
  "index_of i [] = 0"
| "index_of i (q # qs) = (if i = q_id q then 0 else Suc (index_of i qs))"

text \<open>The counter of a 3D tag is set to 0 whenever \<open>threedscore\<close>, a number, is not a key of the
  dictionary of q_tags, which it never is.\<close>

definition calcScore :: "scores \<Rightarrow> quality \<Rightarrow> rat \<Rightarrow> int \<times> string option \<Rightarrow> rat \<Rightarrow> scores" where
  "calcScore score0 q add_score found3d penalty =
     (let score1 = add_points (q_id q) add_score score0;
          score2 = (case found3d of
              (n, Some t) \<Rightarrow>
                (if n \<noteq> 0
                 then AList.update (q_id q)
                   ((score_of score1 (q_id q))\<lparr>threed := AList.update t (0 + n) (threed (score_of score1 (q_id q)))\<rparr>)
                   score1
                 else score1)
            | (n, None) \<Rightarrow> score1);
          ord = (\<lambda>i. index_of i qualities)
      in if penalty \<noteq> 0 \<and> add_score \<noteq> 0
         then (let score3 = foldl (\<lambda>sc a. add_points a
                     (- ((if ord a < ord (q_id q) then penalty * 2 else penalty) * 2)) sc) score2 (q_allow q)
               in foldl (\<lambda>sc q'. if q_id q \<noteq> q_id q' then add_points (q_id q') (- 1) sc else sc) score3 qualities)
         else score2)"

text \<open>\<open>len(set(words) & set(alt)) == len(alt)\<close>.\<close>

definition all_words :: "string list \<Rightarrow> string list \<Rightarrow> bool" where
  "all_words words alt = (card (set words \<inter> set alt) = length alt)"

fun tag_score :: "string list \<Rightarrow> rat \<Rightarrow> tag \<Rightarrow> rat \<times> string list \<Rightarrow> rat \<times> string list" where
  "tag_score words pts (TT alt) (sc, on) = (if all_words words alt then (sc + pts, on) else (sc, on))"
| "tag_score words pts (T alt) (sc, on) =
     (if lower alt \<in> set words \<and> lower alt \<notin> set on then (sc + pts, on @ [lower alt]) else (sc, on))"

definition containsTagScore :: "quality \<Rightarrow> string list \<Rightarrow> rat" where
  "containsTagScore q words0 =
     (let extension = last words0;
          words = butlast words0;
          tags_of = [(25, [T (q_id q)]), (20, q_alternative q), (11, q_tags q), (25, [T (q_label q)])];
          (score, _) = foldl (\<lambda>acc (pts, alts). foldl (\<lambda>a t. tag_score words pts t a) acc alts) (0, []) tags_of
      in score + 5 * of_nat (length (filter (\<lambda>e. e = extension) (q_ext q))))"

fun has_tag :: "string list \<Rightarrow> tag \<Rightarrow> bool" where
  "has_tag words (TT alt) = all_words words alt"
| "has_tag words (T t) = (t \<in> set words)"

definition contains3D :: "string list \<Rightarrow> int \<times> string option" where
  "contains3D words = (case first_such (\<lambda>(k, ts). list_ex (has_tag words) ts) threed_tags of
       Some (k, _) \<Rightarrow> (1, Some k) | None \<Rightarrow> (0, None))"

definition in_range :: "rat \<Rightarrow> pv \<Rightarrow> rat \<Rightarrow> bool res" where
  "in_range lo v hi = rbind (num_res v) (\<lambda>x. Inr (lo \<le> x \<and> x \<le> hi))"

definition guessLooseScore :: "quality \<Rightarrow> doc \<Rightarrow> rat res" where
  "guessLooseScore q extra =
     (if extra = [] then Inr 0 else
      let w = dgetd extra ''resolution_width'' (PInt 0); h = dgetd extra ''resolution_height'' (PInt 0) in
      rbind (case q_width q of None \<Rightarrow> Inr False
             | Some x \<Rightarrow> (if x = 0 then Inr False else in_range (of_int (x - 20)) w (of_int (x + 20)))) (\<lambda>a.
      rbind (case q_height q of None \<Rightarrow> Inr False
             | Some x \<Rightarrow> (if x = 0 then Inr False else in_range (of_int (x - 20)) h (of_int (x + 20)))) (\<lambda>b.
      rbind (if q_id q = ''dvdrip'' then in_range 480 w 720 else Inr False) (\<lambda>c.
        Inr ((if a then 10 else 0) + (if b then 5 else 0) + (if c then 1 else 0))))))"

definition guessSizeScore :: "merged \<Rightarrow> pv \<Rightarrow> rat res" where
  "guessSizeScore m size0 =
     (if \<not> truthy size0 then Inr 0 else
      let sz = tryFloat size0 in
      rbind (dsub (m_doc m) ''size_min'') (\<lambda>lo. rbind (dsub (m_doc m) ''size_max'') (\<lambda>hi.
        let size_min = tryFloat lo; size_max = tryFloat hi in
        if size_min \<le> sz \<and> sz \<le> size_max
        then (let proc_range = size_max - size_min in
              if proc_range = 0 then Inl ZeroDivisionError
              else (let size_proc = (sz - size_min) / proc_range;
                        median_proc = (of_int (q_median (m_base m)) - size_min) / proc_range;
                        max_points = 8
                    in Inr (of_int \<lceil>max_points - \<bar>size_proc - median_proc\<bar> * max_points\<rceil>)))
        else Inr (- 5))))"

section \<open>Guessing\<close>

definition init_scores :: "merged list \<Rightarrow> scores" where
  "init_scores qs = map (\<lambda>m. (q_id (m_base m), \<lparr>points = 0, threed = []\<rparr>)) qs"

definition score_file :: "(string \<Rightarrow> string) \<Rightarrow> merged list \<Rightarrow> scores \<Rightarrow> string \<Rightarrow> scores" where
  "score_file name_of qs score0 cur_file =
     (let words = wsplit (lower cur_file);
          name = name_of cur_file;
          threed_words = (if name \<noteq> [] then filter (\<lambda>x. x \<notin> set (splitString name '' '' True)) words else words)
      in foldl (\<lambda>score m.
           let contains_score = containsTagScore (m_base m) words;
               threedscore = (if q_3d (m_base m) then contains3D threed_words else (0, None))
           in calcScore score (m_base m) contains_score threedscore contains_score) score0 qs)"

definition score_sizes :: "merged list \<Rightarrow> doc \<Rightarrow> pv \<Rightarrow> scores \<Rightarrow> (scores \<times> merged list) res" where
  "score_sizes qs extra sz score0 =
     foldr_res (\<lambda>m (score, sized).
       rbind (guessSizeScore m sz) (\<lambda>size_score.
       rbind (guessLooseScore (m_base m) extra) (\<lambda>loose_score.
         Inr (calcScore score (m_base m) (size_score + loose_score) (0, None) 0,
              if 0 < size_score then sized @ [m] else sized)))) qs (score0, [])"

text \<open>\<open>max(score, key = ...)\<close>: the first entry with the greatest score.\<close>

fun best :: "scores \<Rightarrow> (string \<times> qscore) option" where
  "best [] = None"
| "best (x # xs) = (case best xs of
       None \<Rightarrow> Some x
     | Some y \<Rightarrow> (if points (snd x) < points (snd y) then Some y else Some x))"

text \<open>What \<open>guess\<close> computes from the qualities; the result is the quality and whether it is 3D.
  \<open>name_of\<close> is the \<open>name\<close> the event \<open>scanner.name_year\<close> returns for a file (\<open>''\<close> for none).\<close>

definition final_scores ::
  "(string \<Rightarrow> string) \<Rightarrow> merged list \<Rightarrow> string list \<Rightarrow> doc \<Rightarrow> pv \<Rightarrow> scores res" where
  "final_scores name_of qs files0 extra sz =
     rbind (if truthy (dget extra ''titles'')
            then rbind (as_list (dget extra ''titles'')) (mapr as_str) else Inr []) (\<lambda>titles.
     let files = files0 @ titles;
         score1 = foldl (score_file name_of qs) (init_scores qs) files
     in rbind (score_sizes qs extra sz score1) (\<lambda>(score2, sized).
        Inr (case sized of [m] \<Rightarrow> calcScore score2 (m_base m) 7 (0, None) 0 | _ \<Rightarrow> score2)))"

definition guess_from ::
  "(string \<Rightarrow> string) \<Rightarrow> merged list \<Rightarrow> string list \<Rightarrow> doc \<Rightarrow> pv \<Rightarrow> (merged \<times> bool) option res" where
  "guess_from name_of qs files0 extra sz =
     rbind (final_scores name_of qs files0 extra sz) (\<lambda>score.
       if list_all (\<lambda>(_, x). points x \<le> 0) score then Inr None
       else (case best score of
           None \<Rightarrow> Inr None
         | Some (i, x) \<Rightarrow> Inr (map_option (\<lambda>m. (m, threed x \<noteq> []))
               (first_such (\<lambda>m. q_id (m_base m) = i) qs))))"

text \<open>\<open>guess\<close>: a cached answer is used only when no extra information was given.\<close>

definition guess ::
  "(string \<Rightarrow> string) \<Rightarrow> (merged \<times> bool) option \<Rightarrow> string list \<Rightarrow> doc \<Rightarrow> pv \<Rightarrow> bool \<Rightarrow>
   (world, (merged \<times> bool) option) py" where
  "guess name_of cached files extra sz use_cache =
     (if use_cache \<and> cached \<noteq> None \<and> extra = [] then ret cached
      else bnd all_qualities (\<lambda>qs. liftr (guess_from name_of qs files extra sz)))"

section \<open>Comparing qualities in a profile\<close>

text \<open>The position of a quality in a profile: \<open>[i for i, identifier in enumerate(profile['qualities'])
  if identifier == quality['identifier'] and bool(profile['3d'][i] if profile.get('3d') else False)
  == bool(quality.get('is_3d', False))][0]\<close>.\<close>

definition profile_3d :: "doc \<Rightarrow> nat \<Rightarrow> bool res" where
  "profile_3d profile i =
     (if truthy (dget profile ''3d'')
      then rbind (as_list (dget profile ''3d'')) (\<lambda>xs. rbind (nth_res xs (int i)) (\<lambda>v. Inr (truthy v)))
      else Inr False)"

definition profile_position :: "doc \<Rightarrow> doc \<Rightarrow> nat res" where
  "profile_position profile q =
     rbind (dsub profile ''qualities'') (\<lambda>v. rbind (as_list v) (\<lambda>ids.
     rbind (filterr (\<lambda>(i, identifier).
         rbind (dsub q ''identifier'') (\<lambda>qi.
           if identifier = qi then rbind (profile_3d profile i) (\<lambda>b. Inr (b = truthy (dget q ''is_3d'')))
           else Inr False)) (enumerate 0 ids)) (\<lambda>hits.
     rbind (nth_res hits 0) (\<lambda>h. Inr (fst h)))))"

definition no_profile :: "pv \<Rightarrow> bool" where
  "no_profile profile = (case profile of PDict d \<Rightarrow> \<not> truthy (dget d ''qualities'') | _ \<Rightarrow> True)"

definition list_item :: "doc \<Rightarrow> string \<Rightarrow> pv \<Rightarrow> int \<Rightarrow> pv res" where
  "list_item d k dflt i = rbind (as_list (dgetd d k dflt)) (\<lambda>xs. nth_res xs i)"

definition isFinish :: "doc \<Rightarrow> pv \<Rightarrow> pv \<Rightarrow> bool" where
  "isFinish q profile release_age =
     (if no_profile profile then True
      else (case rbind (as_dict profile) (\<lambda>p.
              rbind (profile_position p q) (\<lambda>index.
                if index = 0 then Inr True
                else rbind (rbind (dsub p ''finish'') (\<lambda>f. rbind (as_list f) (\<lambda>xs. nth_res xs (int index)))) (\<lambda>fin.
                  if \<not> truthy fin then Inr False
                  else rbind (int_res release_age) (\<lambda>age.
                       rbind (list_item p ''stop_after'' (PList [PInt 0]) 0) (\<lambda>s.
                       rbind (int_res s) (\<lambda>stop. Inr (stop \<le> age))))))) of
          Inr b \<Rightarrow> b | Inl _ \<Rightarrow> False))"

datatype verdict = Lower | Equal | Higher

text \<open>The message logged when a quality is not found is built from the same lists, and raises when
  the profile's list of 3D flags is too short or the quality has no identifier.\<close>

definition log_args :: "doc \<Rightarrow> doc \<Rightarrow> unit res" where
  "log_args profile q =
     rbind (dsub q ''identifier'') (\<lambda>_. rbind (dsub profile ''qualities'') (\<lambda>v. rbind (as_list v) (\<lambda>ids.
     rbind (mapr (profile_3d profile) [0 ..< length ids]) (\<lambda>_. Inr ()))))"

definition isHigher :: "pv \<Rightarrow> doc \<Rightarrow> doc \<Rightarrow> pv \<Rightarrow> verdict res" where
  "isHigher default_profile q compare_with profile0 =
     rbind (as_dict (if no_profile profile0 then default_profile else profile0)) (\<lambda>profile.
     (case profile_position profile q of
        Inl _ \<Rightarrow> rbind (log_args profile q) (\<lambda>_. Inr Lower)
      | Inr quality_order \<Rightarrow> (case profile_position profile compare_with of
            Inl _ \<Rightarrow> rbind (log_args profile compare_with) (\<lambda>_. Inr Higher)
          | Inr compare_order \<Rightarrow>
              Inr (if compare_order < quality_order then Lower
                   else if quality_order = compare_order then Equal else Higher))))"

section \<open>The program's own test of guess\<close>

definition tests :: "(string \<times> int \<times> doc \<times> string \<times> bool) list" where
  "tests =
     [(''Movie Name (1999)-DVD-Rip.avi'', 700, [], ''dvdrip'', False),
      (''Movie Name 1999 720p Bluray.mkv'', 4200, [], ''720p'', False),
      (''Movie Name 1999 BR-Rip 720p.avi'', 1000, [], ''brrip'', False),
      (''Movie Name 1999 720p Web Rip.avi'', 1200, [], ''scr'', False),
      (''Movie Name 1999 Web DL.avi'', 800, [], ''brrip'', False),
      (''Movie.Name.1999.1080p.WEBRip.H264-Group'', 1500, [], ''scr'', False),
      (''Movie.Name.1999.DVDRip-Group'', 750, [], ''dvdrip'', False),
      (''Movie.Name.1999.DVD-Rip-Group'', 700, [], ''dvdrip'', False),
      (''Movie.Name.1999.DVD-R-Group'', 4500, [], ''dvdr'', False),
      (''Movie.Name.Camelie.1999.720p.BluRay.x264-Group'', 5500, [], ''720p'', False),
      (''Movie.Name.2008.German.DL.AC3.1080p.BluRay.x264-Group'', 8500, [(''resolution_width'', PInt 1920), (''resolution_height'', PInt 1080)], ''1080p'', False),
      (''Movie.Name.2004.GERMAN.AC3D.DL.1080p.BluRay.x264-Group'', 8000, [], ''1080p'', False),
      (''Movie.Name.2013.BR-Disk-Group.iso'', 48000, [], ''bd50'', False),
      (''Movie.Name.2013.2D+3D.BR-Disk-Group.iso'', 52000, [], ''bd50'', True),
      (''Movie.Rising.Name.Girl.2011.NTSC.DVD9-GroupDVD'', 7200, [], ''dvdr'', False),
      (''Movie Name (2013) 2D + 3D'', 49000, [], ''bd50'', True),
      (''Movie Monuments 2013 BrRip 1080p'', 1800, [], ''brrip'', False),
      (''Movie Monuments 2013 BrRip 720p'', 1300, [], ''brrip'', False),
      (''The.Movie.2014.3D.1080p.BluRay.AVC.DTS-HD.MA.5.1-GroupName'', 30000, [], ''bd50'', True),
      (''/home/namehou/Movie Monuments (2012)/Movie Monuments.mkv'', 5500, [], ''720p'', False),
      (''/home/namehou/Movie Monuments (2012)/Movie Monuments Full-OU.mkv'', 5500, [], ''720p'', True),
      (''/home/namehou/Movie Monuments (2013)/Movie Monuments.mkv'', 10000, [], ''1080p'', False),
      (''/home/namehou/Movie Monuments (2013)/Movie Monuments Full-OU.mkv'', 10000, [], ''1080p'', True),
      (''/volume1/Public/3D/Moviename/Moviename (2009).3D.SBS.ts'', 7500, [], ''1080p'', True),
      (''/volume1/Public/Moviename/Moviename (2009).ts'', 7500, [], ''1080p'', False),
      (''/movies/BluRay HDDVD H.264 MKV 720p EngSub/QuiQui le fou (criterion collection #123, 1915)/QuiQui le fou (1915) 720p x264 BluRay.mkv'', 5500, [], ''720p'', False),
      ((''C:'' @ [CHR 0x5C] @ ''movies'' @ [CHR 0x5C] @ ''QuiQui le fou (collection #123, 1915)'' @ [CHR 0x5C] @ ''QuiQui le fou (1915) 720p x264 BluRay.mkv''), 5500, [], ''720p'', False),
      ((''C:'' @ [CHR 0x5C] @ ''movies'' @ [CHR 0x5C] @ ''QuiQui le fou (collection #123, 1915)'' @ [CHR 0x5C] @ ''QuiQui le fou (1915) half-sbs 720p x264 BluRay.mkv''), 5500, [], ''720p'', True),
      (''Moviename 2014 720p HDCAM XviD DualAudio'', 4000, [], ''cam'', False),
      (''Moviename (2014) - 720p CAM x264'', 2250, [], ''cam'', False),
      (''Movie Name (2014).mp4'', 750, [], ''brrip'', False),
      (''Moviename.2014.720p.R6.WEB-DL.x264.AC3-xyz'', 750, [], ''r5'', False),
      (''Movie name 2014 New Source 720p HDCAM x264 AC3 xyz'', 750, [], ''cam'', False),
      (''Movie.Name.2014.720p.HD.TS.AC3.x264'', 750, [], ''ts'', False),
      (''Movie.Name.2014.1080p.HDrip.x264.aac-ReleaseGroup'', 7000, [], ''brrip'', False),
      (''Movie.Name.2014.HDCam.Chinese.Subs-ReleaseGroup'', 15000, [], ''cam'', False),
      (''Movie Name 2014 HQ DVDRip X264 AC3 (bla)'', 0, [], ''dvdrip'', False),
      (''Movie Name1 (2012).mkv'', 4500, [], ''720p'', False),
      (''Movie Name (2013).mkv'', 8500, [], ''1080p'', False),
      (''Movie Name (2014).mkv'', 4500, [(''titles'', PList [PStr ''Movie Name 2014 720p Bluray''])], ''720p'', False),
      (''Movie Name (2015).mkv'', 500, [(''resolution_width'', PInt 1920)], ''1080p'', False),
      (''Movie Name (2015).mp4'', 6500, [], ''brrip'', False),
      (''Movie Name.2014.720p Web-Dl Aac2.0 h264-ReleaseGroup'', 3800, [], ''brrip'', False),
      (''Movie Name.2014.720p.WEBRip.x264.AC3-ReleaseGroup'', 3000, [], ''scr'', False),
      (''Movie.Name.2014.1080p.HDCAM.-.ReleaseGroup'', 5300, [], ''cam'', False),
      (''Movie.Name.2014.720p.HDSCR.4PARTS.MP4.AAC.ReleaseGroup'', 2401, [], ''scr'', False),
      (''Movie.Name.2014.720p.BluRay.x264-ReleaseGroup'', 10300, [], ''720p'', False),
      (''Movie.Name.2014.720.Bluray.x264.DTS-ReleaseGroup'', 9700, [], ''720p'', False),
      (''Movie Name 2015 2160p SourceSite WEBRip DD5 1 x264-ReleaseGroup'', 21800, [], ''2160p'', False),
      (''Movie Name 2012 2160p WEB-DL FLAC 5 1 x264-ReleaseGroup'', 59650, [], ''2160p'', False)]"

definition doTest :: "(string \<Rightarrow> string) \<Rightarrow> merged list \<Rightarrow> bool" where
  "doTest name_of qs = list_all (\<lambda>(name, sz, extra, expected, is_3d).
     case guess_from name_of qs [name] extra (PInt sz) of
       Inr (Some (m, threeD)) \<Rightarrow> q_id (m_base m) = expected \<and> threeD = is_3d
     | _ \<Rightarrow> False) tests"

section \<open>Properties\<close>

lemma best_None: "best sc = None \<Longrightarrow> sc = []"
  by (cases sc) (auto split: option.splits if_splits)

lemma best_max:
  "best sc = Some (i, x) \<Longrightarrow> (i, x) \<in> set sc \<and> (\<forall>(j, y) \<in> set sc. points y \<le> points x)"
proof (induction sc arbitrary: i x)
  case (Cons a sc)
  show ?case
  proof (cases "best sc")
    case None
    with best_None [OF None] Cons.prems show ?thesis by auto
  next
    case (Some ky)
    obtain k y where ky: "ky = (k, y)" by (cases ky)
    from Cons.IH Some ky have y: "(k, y) \<in> set sc" "\<forall>(j, z) \<in> set sc. points z \<le> points y" by auto
    show ?thesis
    proof (cases "points (snd a) < points y")
      case True
      with Some ky Cons.prems have "i = k" "x = y" by auto
      with y True show ?thesis by auto
    next
      case False
      with Some ky Cons.prems have "a = (i, x)" by auto
      with y False show ?thesis by force
    qed
  qed
qed simp

text \<open>C29: when \<open>guess\<close> names a quality, it is one of the configured ones, its score is positive
  and no quality scored higher; and it names none when no quality scored above zero.\<close>

theorem guess_from_best:
  assumes "final_scores name_of qs files extra sz = Inr sc"
  shows "(\<forall>m b. guess_from name_of qs files extra sz = Inr (Some (m, b)) \<longrightarrow>
       m \<in> set qs \<and> (\<exists>x. (q_id (m_base m), x) \<in> set sc \<and> 0 < points x \<and> b = (threed x \<noteq> []) \<and>
         (\<forall>(j, y) \<in> set sc. points y \<le> points x)))
    \<and> ((\<forall>(j, y) \<in> set sc. points y \<le> 0) \<longrightarrow> guess_from name_of qs files extra sz = Inr None)"
proof (intro conjI allI impI)
  fix m b assume g: "guess_from name_of qs files extra sz = Inr (Some (m, b))"
  with assms have pos: "\<not> list_all (\<lambda>(_, x). points x \<le> 0) sc"
    by (auto simp: guess_from_def split: if_splits)
  obtain i x where bx: "best sc = Some (i, x)"
    using g assms pos by (cases "best sc") (auto simp: guess_from_def)
  with g assms pos have f: "first_such (\<lambda>m. q_id (m_base m) = i) qs = Some m" "b = (threed x \<noteq> [])"
    by (auto simp: guess_from_def)
  from best_max [OF bx] have mx: "(i, x) \<in> set sc" "\<forall>(j, y) \<in> set sc. points y \<le> points x" by auto
  from pos obtain j y where "(j, y) \<in> set sc" "0 < points y" by (auto simp: list_all_iff not_le)
  with mx(2) have "0 < points x" by (meson case_prodD less_le_trans)
  with first_such_Some [OF f(1)] f(2) mx
  show "m \<in> set qs" "\<exists>x. (q_id (m_base m), x) \<in> set sc \<and> 0 < points x \<and> b = (threed x \<noteq> []) \<and>
      (\<forall>(j, y) \<in> set sc. points y \<le> points x)" by auto
next
  assume "\<forall>(j, y) \<in> set sc. points y \<le> 0"
  then show "guess_from name_of qs files extra sz = Inr None"
    using assms by (auto simp: guess_from_def list_all_iff)
qed

text \<open>The size of a release adds between 0 and 8 points for a quality whose range contains it
  (and whose usual size lies in that range), and costs 5 points otherwise.\<close>

theorem guessSizeScore_bounds:
  assumes "dget (m_doc m) ''size_min'' = PInt lo" "dget (m_doc m) ''size_max'' = PInt hi" "truthy sz"
    and "lo < hi" "lo \<le> q_median (m_base m)" "q_median (m_base m) \<le> hi"
    and "dhas (m_doc m) ''size_min''" "dhas (m_doc m) ''size_max''"
  shows "\<exists>n. guessSizeScore m sz = Inr (of_int n) \<and>
    (if of_int lo \<le> tryFloat sz \<and> tryFloat sz \<le> of_int hi then 0 \<le> n \<and> n \<le> 8 else n = - 5)"
proof (cases "of_int lo \<le> tryFloat sz \<and> tryFloat sz \<le> of_int hi")
  case False
  have "tryFloat (PInt x) = of_int x" for x by (simp add: tryFloat_def)
  with False assms show ?thesis
    by (intro exI [of _ "- 5"]) (auto simp: guessSizeScore_def dsub_eq_dget Let_def)
next
  case True
  have tf: "tryFloat (PInt x) = of_int x" for x by (simp add: tryFloat_def)
  define r :: rat where "r = of_int hi - of_int lo"
  have r: "0 < r" using assms(4) by (simp add: r_def)
  define p where "p = (tryFloat sz - of_int lo) / r"
  define q where "q = (of_int (q_median (m_base m)) - of_int lo :: rat) / r"
  have p: "0 \<le> p" "p \<le> 1" using True r by (simp_all add: p_def r_def)
  have "(of_int (q_median (m_base m)) :: rat) - of_int lo \<le> r" "0 \<le> (of_int (q_median (m_base m)) :: rat) - of_int lo"
    using assms(5,6) by (simp_all add: r_def)
  then have q: "0 \<le> q" "q \<le> 1" using r by (simp_all add: q_def)
  from p q have "\<bar>p - q\<bar> \<le> 1" by linarith
  then have b: "0 \<le> 8 - \<bar>p - q\<bar> * 8" "8 - \<bar>p - q\<bar> * 8 \<le> 8" by simp_all
  have "guessSizeScore m sz = Inr (of_int \<lceil>8 - \<bar>p - q\<bar> * 8\<rceil>)"
    using assms True r by (simp add: guessSizeScore_def dsub_eq_dget Let_def tf p_def q_def r_def)
  moreover have "0 \<le> \<lceil>8 - \<bar>p - q\<bar> * 8\<rceil>" "\<lceil>8 - \<bar>p - q\<bar> * 8\<rceil> \<le> 8"
    using b by (simp_all add: ceiling_le_iff) 
  ultimately show ?thesis using True by auto
qed

definition demo_720p :: merged where
  "demo_720p = \<lparr>m_base = qualities ! 3, m_doc = [(''size_min'', PInt 3000), (''size_max'', PInt 10000)]\<rparr>"

theorem guessSizeScore_bounds_witness:
  "\<exists>n. guessSizeScore demo_720p (PInt 4200) = Inr (of_int n) \<and>
    (if of_int 3000 \<le> tryFloat (PInt 4200) \<and> tryFloat (PInt 4200) \<le> of_int 10000
     then 0 \<le> n \<and> n \<le> 8 else n = - 5)"
  by (rule guessSizeScore_bounds)
    (simp_all add: demo_720p_def qualities_def dget_def dhas_def eval_nat_numeral)

theorem guess_from_best_witness:
  "\<exists>m. guess_from (\<lambda>_. []) [demo_720p] [] [] (PInt 4200) = Inr (Some (m, False)) \<and> m \<in> set [demo_720p]"
proof -
  let ?sc = "[(''720p'', \<lparr>points = 14, threed = []\<rparr>)]"
  have q: "qualities ! 3 = \<lparr>q_id = ''720p'', q_hd = True, q_3d = True, q_size = (3000, 10000), q_median = 5500,
      q_label = ''720p'', q_width = Some 1280, q_height = Some 720, q_alternative = [], q_allow = [],
      q_ext = [''mkv'', ''ts''], q_tags = [T ''x264'', T ''h264'', T ''720'']\<rparr>"
    by (simp add: qualities_def eval_nat_numeral)
  have s: "guessSizeScore demo_720p (PInt 4200) = Inr 7"
    by (simp add: guessSizeScore_def demo_720p_def q dsub_def tryFloat_def Let_def ceiling_eq_iff)
  have f: "final_scores (\<lambda>_. []) [demo_720p] [] [] (PInt 4200) = Inr ?sc"
    by (simp add: final_scores_def dget_def init_scores_def score_sizes_def s guessLooseScore_def
        calcScore_def add_points_def score_of_def) (simp add: demo_720p_def q)
  have "guess_from (\<lambda>_. []) [demo_720p] [] [] (PInt 4200) = Inr (Some (demo_720p, False))"
    by (simp add: guess_from_def f) (simp add: demo_720p_def q)
  with guess_from_best [OF f] show ?thesis by blast
qed

text \<open>The position of a quality decides every comparison in a profile.\<close>

lemma isHigher_positions:
  assumes "\<not> no_profile (PDict p)" "profile_position p a = Inr i" "profile_position p b = Inr j"
  shows "isHigher dflt a b (PDict p) = Inr (if j < i then Lower else if i = j then Equal else Higher)"
  using assms by (simp add: isHigher_def)

text \<open>Within a profile \<open>isHigher\<close> is a total order on the qualities the profile names: it is
  antisymmetric, transitive, and two qualities are equal exactly when they stand at the same
  position; a quality the profile does not name is lower than every one it does.\<close>

theorem isHigher_order:
  assumes p: "\<not> no_profile (PDict p)"
    and i: "profile_position p a = Inr i" and j: "profile_position p b = Inr j"
  shows "(isHigher d a b (PDict p) = Inr Higher \<longleftrightarrow> isHigher d b a (PDict p) = Inr Lower) \<and>
    (isHigher d a b (PDict p) = Inr Equal \<longleftrightarrow> i = j) \<and>
    (\<forall>k. profile_position p c = Inr k \<longrightarrow> isHigher d a b (PDict p) = Inr Higher \<longrightarrow>
       isHigher d b c (PDict p) = Inr Higher \<longrightarrow> isHigher d a c (PDict p) = Inr Higher) \<and>
    (\<forall>e. profile_position p c = Inl e \<longrightarrow> log_args p c = Inr () \<longrightarrow>
       isHigher d a c (PDict p) = Inr Higher \<and> isHigher d c a (PDict p) = Inr Lower)"
  using assms by (auto simp: isHigher_def)

definition demo_profile :: doc where
  "demo_profile = [(''qualities'', PList [PStr ''1080p'', PStr ''720p'']), (''finish'', PList [PBool True, PBool True])]"

theorem isHigher_order_witness:
  "isHigher PNone [(''identifier'', PStr ''1080p'')] [(''identifier'', PStr ''720p'')] (PDict demo_profile) = Inr Higher \<and>
   isHigher PNone [(''identifier'', PStr ''720p'')] [(''identifier'', PStr ''1080p'')] (PDict demo_profile) = Inr Lower"
proof -
  have n: "\<not> no_profile (PDict demo_profile)" by (simp add: no_profile_def demo_profile_def dget_def)
  have pos: "profile_position demo_profile [(''identifier'', PStr ''1080p'')] = Inr 0"
    "profile_position demo_profile [(''identifier'', PStr ''720p'')] = Inr 1"
    by (simp_all add: profile_position_def demo_profile_def dsub_def profile_3d_def dget_def nth_res_def)
  have h: "isHigher PNone [(''identifier'', PStr ''1080p'')] [(''identifier'', PStr ''720p'')] (PDict demo_profile) = Inr Higher"
    using isHigher_positions [OF n pos] by simp
  from isHigher_order [OF n pos, of PNone "[]"] h show ?thesis by blast
qed

text \<open>Asking for a quality that is not in the database raises \<open>NameError\<close>: the handler meant to
  return an empty dictionary uses a variable that does not exist.\<close>

theorem single_quality_missing:
  assumes "query ''quality'' (PStr i) (store w) = Inr []"
  shows "single_quality i w = (Inl NameError, w)"
  using assms by (simp add: single_quality_def db_get_by_def py_simps)

definition empty_db :: database where
  "empty_db = \<lparr>docs = [], rnd = (\<lambda>_. 0), uuid = (\<lambda>n. hex4 n @ replicate 28 (CHR ''0'')), drawn = 0\<rparr>"

definition demo_world :: world where
  "demo_world = \<lparr>store = empty_db, sett = demo_settings, now = 0, fired = [], ans = (\<lambda>_ _ _. PNone)\<rparr>"

theorem single_quality_missing_witness:
  "single_quality ''480p'' demo_world = (Inl NameError, demo_world)"
  by (rule single_quality_missing)
    (simp add: query_def demo_world_def empty_db_def live_docs_def index_entries_def)

end
