(* ===== verification/ScanNames.thy ===== *)
theory ScanNames
  imports Quality
begin

text \<open>
  couchpotato/core/plugins/scanner.py, the part that reads names: the identifier that groups the
  files of one movie, the title and year in a release name, part numbers, codecs, resolutions, 3D
  types and the tests on file names. The regular expressions are those of the class; the library
  guessit is the argument \<open>guessit\<close>, a function from a file name to the dict it returns.
\<close>

section \<open>The tables of the class\<close>

definition ignored_in_path :: "string list" where
  "ignored_in_path = [''/extracted/'', ''extracting'', ''_unpack'', ''_failed_'', ''_unknown_'', ''_exists_'',
     ''_failed_remove_'', ''_failed_rename_'', ''.appledouble'', ''.appledb'', ''.appledesktop'', ''/._'',
     ''.ds_store'', ''cp.cpnfo'', ''thumbs.db'', ''ehthumbs.db'', ''desktop.ini'']"

definition ignore_names :: "string list" where
  "ignore_names = [''extract'', ''extracting'', ''extracted'', ''movie'', ''movies'', ''film'', ''films'',
     ''download'', ''downloads'', ''video_ts'', ''audio_ts'', ''bdmv'', ''certificate'']"

definition ignored_extensions :: "string list" where
  "ignored_extensions = [''ignore'', ''lftp-pget-status'']"

definition ext_movie :: "string list" where
  "ext_movie = [''mkv'', ''wmv'', ''avi'', ''mpg'', ''mpeg'', ''mp4'', ''m2ts'', ''iso'', ''img'', ''mdf'', ''ts'', ''m4v'', ''flv'']"

definition ext_nfo :: "string list" where "ext_nfo = [''nfo'', ''txt'', ''tag'']"
definition ext_subtitle :: "string list" where "ext_subtitle = [''sub'', ''srt'', ''ssa'', ''ass'']"

definition threed_types :: "(string \<times> tag list) list" where
  "threed_types =
     [(''Half SBS'', [TT [''half'', ''sbs''], TT [''h'', ''sbs''], T ''hsbs'']),
      (''Full SBS'', [TT [''full'', ''sbs''], TT [''f'', ''sbs''], T ''fsbs'']),
      (''SBS'', [T ''sbs'']),
      (''Half OU'', [TT [''half'', ''ou''], TT [''h'', ''ou''], TT [''half'', ''tab''], TT [''h'', ''tab''], T ''htab'', T ''hou'']),
      (''Full OU'', [TT [''full'', ''ou''], TT [''f'', ''ou''], TT [''full'', ''tab''], TT [''f'', ''tab''], T ''ftab'', T ''fou'']),
      (''OU'', [T ''ou'', T ''tab'']),
      (''Frame Packed'', [T ''mvc'', TT [''complete'', ''bluray'']]),
      (''3D'', [T ''3d''])]"

definition codecs_audio :: "string list" where "codecs_audio = [''DTS'', ''AC3'', ''AC3D'', ''MP3'']"
definition codecs_video :: "string list" where
  "codecs_video = [''x264'', ''H264'', ''x265'', ''H265'', ''DivX'', ''Xvid'']"

definition resolution_of :: "int \<Rightarrow> int \<Rightarrow> rat \<Rightarrow> doc" where
  "resolution_of w h a = [(''resolution_width'', PInt w), (''resolution_height'', PInt h), (''aspect'', PFloat a)]"

definition resolutions :: "(string \<times> doc) list" where
  "resolutions =
     [(''2160p'', resolution_of 3840 2160 (178/100)), (''1080p'', resolution_of 1920 1080 (178/100)),
      (''1080i'', resolution_of 1920 1080 (178/100)), (''720p'', resolution_of 1280 720 (178/100)),
      (''720i'', resolution_of 1280 720 (178/100)), (''480p'', resolution_of 640 480 (133/100)),
      (''480i'', resolution_of 640 480 (133/100))]"

definition default_resolution :: doc where
  "default_resolution = [(''resolution_width'', PInt 0), (''resolution_height'', PInt 0), (''aspect'', PInt 1)]"

definition source_media :: "(string \<times> string list) list" where
  "source_media = [(''Blu-ray'', [''bluray'', ''blu-ray'', ''brrip'', ''br-rip'']), (''HD DVD'', [''hddvd'', ''hd-dvd'']),
     (''DVD'', [''dvd'']), (''HDTV'', [''hdtv''])]"

section \<open>The regular expressions\<close>

text \<open>A word of an alternation: an unescaped dot stands for any character.\<close>

definition word_re :: "string \<Rightarrow> re" where
  "word_re s = seqs (map (\<lambda>c. if c = CHR ''.'' then dot else chr c) s)"

definition clean_words :: "string list" where
  "clean_words = [''3d'', ''hsbs'', ''sbs'', ''half.sbs'', ''full.sbs'', ''ou'', ''half.ou'', ''full.ou'', ''extended'',
     ''extended.cut'', ''directors.cut'', ''french'', ''fr'', ''swedisch'', ''sw'', ''danish'', ''dutch'', ''nl'',
     ''swesub'', ''subs'', ''spanish'', ''german'', ''ac3'', ''dts'', ''custom'', ''dc'', ''divx'', ''divx5'', ''dsr'',
     ''dsrip'', ''dutch'', ''dvd'', ''dvdr'', ''dvdrip'', ''dvdscr'', ''dvdscreener'', ''screener'', ''dvdivx'', ''cam'',
     ''fragment'', ''fs'', ''hdtv'', ''hdrip'', ''hdtvrip'', ''webdl'', ''web.dl'', ''webrip'', ''web.rip'', ''internal'',
     ''limited'', ''multisubs'', ''ntsc'', ''ogg'', ''ogm'', ''pal'', ''pdtv'', ''proper'', ''repack'', ''rerip'', ''retail'',
     ''r3'', ''r5'', ''bd5'', ''se'', ''svcd'', ''swedish'', ''german'', ''read.nfo'', ''nfofix'', ''unrated'', ''ws'',
     ''telesync'', ''ts'', ''telecine'', ''tc'', ''brrip'', ''bdrip'', ''video_ts'', ''audio_ts'', ''480p'', ''480i'',
     ''576p'', ''576i'', ''720p'', ''720i'', ''1080p'', ''1080i'', ''hrhd'', ''hrhdtv'', ''hddvd'', ''bluray'', ''x264'',
     ''h264'', ''x265'', ''h265'', ''xvid'', ''xvidvd'', ''xxx'', ''www.www'', ''hc'']"

definition clean_sep :: re where
  "clean_sep = any_of '' _,.()[]-''"

definition clean_re :: re where
  "clean_re = seqs [Grp 1 (Alt clean_sep Bos),
     Grp 2 (alts (map word_re clean_words @ [seqs [lit ''['', Star dot, lit '']'']])),
     Ahead (Alt clean_sep Eos)]"

definition part_sep :: re where "part_sep = any_of '' _.-''"
definition part_nr :: re where "part_nr = Grp 1 (plus_re (Cls (\<lambda>c. is_digit c \<or> c \<in> set ''abcd'')))"

text \<open>A literal dot, three characters and an optional fourth at the end: an extension.\<close>

definition ext_tail :: re where "ext_tail = seqs [lit ''.'', dot, dot, dot, opt dot]"

definition multipart_regex :: "re list" where
  "multipart_regex =
     [seqs [plus_re part_sep, lit ''cd'', Star part_sep, part_nr],
      seqs [plus_re part_sep, lit ''dvd'', Star part_sep, part_nr],
      seqs [plus_re part_sep, lit ''part'', Star part_sep, part_nr],
      seqs [plus_re part_sep, lit ''dis'', any_of ''ck'', Star part_sep, part_nr],
      seqs [lit ''cd'', Star part_sep, part_nr, Eos],
      seqs [lit ''dvd'', Star part_sep, part_nr, Eos],
      seqs [lit ''part'', Star part_sep, part_nr, Eos],
      seqs [lit ''dis'', any_of ''ck'', Star part_sep, part_nr, Eos],
      seqs [Grp 1 Eps, plus_re part_sep, Grp 2 (Seq (Star digit) (plus_re (any_of ''abcd''))), Grp 3 ext_tail, Eos],
      seqs [Grp 1 (Cls is_lower_az), Grp 2 (plus_re digit), Grp 3 ext_tail, Eos],
      seqs [Grp 1 Eps, Grp 2 (any_of ''ab''), Grp 3 ext_tail, Eos]]"

definition cp_imdb :: re where
  "cp_imdb = seqs [lit ''.cp('', Grp 1 (Seq (lit ''tt'') (plus_re digit)), opt (lit '',''), opt space,
     opt (Grp 2 (plus_re (Cls (\<lambda>c. is_letter c \<or> is_digit c)))), lit '')'']"

definition year_re :: re where
  "year_re = Alt (seqs [lit ''19'', rep 2 digit]) (seqs [lit ''20'', rep 2 digit])"

definition year_brackets :: re where
  "year_brackets = seqs [Grp 1 (any_of ''(['' ), Grp 2 year_re, Grp 3 (any_of ''])'')]"

section \<open>Reading names\<close>

definition findYear :: "string \<Rightarrow> string" where
  "findYear text =
     (let ms = finditer year_brackets text in
      if ms \<noteq> [] then grp (last ms) 2
      else let ms = findall1 (Grp 1 year_re) text in
           if ms \<noteq> [] then last ms else [])"

definition getCPImdb :: "string \<Rightarrow> string option" where
  "getCPImdb s = (case search cp_imdb (lower s) of
       None \<Rightarrow> None
     | Some m \<Rightarrow> if grp m 1 \<noteq> [] then Some (grp m 1) else None)"

definition removeCPTag :: "string \<Rightarrow> string" where
  "removeCPTag name = strip (sub_str cp_imdb [] name)"

definition removeMultipart :: "string \<Rightarrow> string" where
  "removeMultipart name = foldl (\<lambda>name regex. sub_str regex [] name) name multipart_regex"

text \<open>The loop returns in its first round: 1 when the first expression does not match.\<close>

definition getPartNumber :: "string \<Rightarrow> pv" where
  "getPartNumber name = (case search (hd multipart_regex) name of
       Some m \<Rightarrow> PStr (grp m 1) | None \<Rightarrow> PInt 1)"

text \<open>A character class under \<open>re.I\<close> accepts both cases.\<close>

definition not_alnum_i :: re where
  "not_alnum_i = Cls (\<lambda>c. \<not> (is_letter c \<or> is_digit c))"

definition getCodec :: "string \<Rightarrow> string list \<Rightarrow> string" where
  "getCodec filename codecs =
     (case search (seqs [not_alnum_i, Grp 1 (alts (map liti codecs)), not_alnum_i]) filename of
        Some m \<Rightarrow> grp m 1 | None \<Rightarrow> [])"

definition getResolution :: "string \<Rightarrow> doc" where
  "getResolution filename = (case first_such (\<lambda>(k, r). contains k (lower filename)) resolutions of
       Some (k, r) \<Rightarrow> r | None \<Rightarrow> default_resolution)"

definition getGroup :: "string \<Rightarrow> string" where
  "getGroup s =
     (let ms = findall1 (seqs [lit ''-'', Grp 1 (plus_re (Cls (\<lambda>c. is_letter c \<or> is_digit c))), any_of ''./'']) s
      in if ms = [] then [] else last ms)"

definition getSourceMedia :: "string \<Rightarrow> string option" where
  "getSourceMedia s = map_option fst
     (first_such (\<lambda>(m, aliases). list_ex (\<lambda>a. contains a (lower s)) aliases) source_media)"

fun tag_in_words :: "string list \<Rightarrow> tag \<Rightarrow> bool" where
  "tag_in_words words (TT ts) = contains (join ''.'' ts) (join ''.'' words)"
| "tag_in_words words (T t) = (lower t \<in> set words)"

definition get3dType :: "string \<Rightarrow> string" where
  "get3dType filename =
     (let words = wsplit (lower filename) in
      case first_such (\<lambda>(k, tags). list_ex (tag_in_words words) tags) threed_types of
        Some (k, _) \<Rightarrow> k | None \<Rightarrow> [])"

definition isDVDFile :: "string \<Rightarrow> bool" where
  "isDVDFile file_name =
     (let f = lower file_name in
      list_ex (\<lambda>c. c \<in> {''video_ts'', ''audio_ts''}) (split_on path_sep f) \<or>
      list_ex (\<lambda>needle. contains needle f) [''vts_'', ''video_ts'', ''audio_ts'', ''bdmv'', ''certificate''])"

definition keepFile :: "string \<Rightarrow> bool" where
  "keepFile filename = list_all (\<lambda>i. \<not> contains i (lower filename)) ignored_in_path"

definition non_word_or_us :: re where
  "non_word_or_us = Cls (\<lambda>c. \<not> is_word c \<or> c = CHR ''_'')"

definition isSampleFile :: "string \<Rightarrow> bool" where
  "isSampleFile filename =
     (search (seqs [Grp 1 (Alt Bos non_word_or_us), lit ''sample'', Star digit, non_word_or_us]) (lower filename) \<noteq> None)"

text \<open>\<open>os.path.splitext(p)[0]\<close>: without the last dot of the last component and what follows it,
  unless only dots precede it.\<close>

definition splitext_root :: "string \<Rightarrow> string" where
  "splitext_root p =
     (let b = basename p;
          e = rev (takeWhile (\<lambda>c. c \<noteq> CHR ''.'') (rev b));
          stem = take (length b - length e - 1) b
      in if CHR ''.'' \<in> set b \<and> \<not> list_all (\<lambda>c. c = CHR ''.'') stem
         then take (length p - length e - 1) p else p)"

text \<open>The last of two path parts, or the one before when that is longer.\<close>

definition identifier_part :: "string list \<Rightarrow> string \<Rightarrow> string" where
  "identifier_part path_split identifier =
     (case rev path_split of
        [] \<Rightarrow> identifier
      | [x] \<Rightarrow> x
      | x # y # _ \<Rightarrow> if length x < length y then y else x)"

definition replace_path :: "string \<Rightarrow> string \<Rightarrow> string" where
  "replace_path folder p = (if folder = [] then p else replace_str folder [] p)"

definition createStringIdentifier :: "string \<Rightarrow> string \<Rightarrow> bool \<Rightarrow> string" where
  "createStringIdentifier file_path folder exclude_filename =
     (let i1 = splitext_root (lstrip_chars path_sep (replace_path folder file_path));
          i2 = (if exclude_filename then take (length i1 - length (basename i1)) i1 else i1);
          i3 = lower i2;
          i4 = identifier_part (splitString i3 path_sep True) i3;
          i5 = simplifyString (removeCPTag (removeMultipart i4));
          year = findYear file_path;
          i6 = strip_chars '':'' (sub_str clean_re ''::'' i5);
          i7 = (if year \<noteq> [] \<and> take 4 i6 \<noteq> year
                then (let split_by = (if contains '':::'' i6 then '':::'' else year)
                      in strip (hd (split_on split_by i6)) @ '' '' @ year)
                else hd (split_on ''::'' i6))
      in simplifyString (join '' '' (removeDuplicate (split_ws i7))))"

section \<open>Title and year of a release name\<close>

text \<open>\<open>s.rsplit(t, 1)[0]\<close>: the text before the last occurrence of \<open>t\<close>.\<close>

definition before_last :: "string \<Rightarrow> string \<Rightarrow> string" where
  "before_last t s = (case find_str (rev t) (rev s) of
       None \<Rightarrow> s | Some i \<Rightarrow> take (length s - i - length t) s)"

definition guess_of :: "(string \<Rightarrow> doc res) \<Rightarrow> string \<Rightarrow> doc" where
  "guess_of guessit file_name =
     (if file_name = [] then []
      else case guessit file_name of
        Inl _ \<Rightarrow> []
      | Inr g \<Rightarrow> if truthy (dget g ''title'') \<and> truthy (dget g ''year'')
                then [(''name'', dget g ''title''), (''year'', dget g ''year'')] else [])"

text \<open>\<open>None\<close> when no text to look in was left; \<open>int(year)\<close> of an empty text or of \<open>None\<close> raises, and
  then nothing is guessed.\<close>

definition year_in :: "string list \<Rightarrow> string option" where
  "year_in texts = (case filter (\<lambda>t. t \<noteq> []) texts of
       [] \<Rightarrow> None
     | ts \<Rightarrow> Some (case first_such (\<lambda>t. findYear t \<noteq> []) ts of Some t \<Rightarrow> findYear t | None \<Rightarrow> []))"

definition int_year :: "string option \<Rightarrow> int option" where
  "int_year y = (case y of None \<Rightarrow> None | Some t \<Rightarrow> int_of_str t)"

definition guess_on_year :: "string \<Rightarrow> string option \<Rightarrow> doc" where
  "guess_on_year cleaned year =
     (case year of
        None \<Rightarrow> []
      | Some y \<Rightarrow>
          if y = [] then []
          else let movie_name = strip (before_last y cleaned) in
               if movie_name = [] then []
               else case int_year year of None \<Rightarrow> []
                  | Some n \<Rightarrow> [(''name'', PStr movie_name), (''year'', PInt n)])"

definition guess_on_spaces :: "string \<Rightarrow> string option \<Rightarrow> doc" where
  "guess_on_spaces cleaned year =
     (let movie_name = strip (hd (split_on ''  '' cleaned)) in
      if Some (take 4 movie_name) \<noteq> year
      then (case int_year year of None \<Rightarrow> []
            | Some n \<Rightarrow> [(''name'', PStr movie_name), (''year'', PInt n)])
      else [(''name'', PStr movie_name), (''year'', PInt 0)])"

definition name_length :: "doc \<Rightarrow> nat" where
  "name_length g = length (str_or_empty (dgetd g ''name'' (PStr [])))"

definition getReleaseNameYear :: "(string \<Rightarrow> doc res) \<Rightarrow> string \<Rightarrow> string \<Rightarrow> doc" where
  "getReleaseNameYear guessit release_name0 file_name =
     (let guess = guess_of guessit file_name;
          release_name = basename (replace_str [CHR 0x5C] ''/'' (strip_chars '' .-_'' release_name0));
          cleaned = sub_str clean_re '' '' (join '' '' (wsplit (simplifyString release_name)));
          year = year_in [file_name, release_name, cleaned];
          cp1 = guess_on_year cleaned year;
          cp_guess = (if cp1 = [] then guess_on_spaces cleaned year else cp1)
      in if pv_eq (dget cp_guess ''year'') (dget guess ''year'') \<and> name_length guess < name_length cp_guess
         then dput cp_guess ''other'' (PDict guess)
         else if guess = [] then dput cp_guess ''other'' (PDict guess)
         else dput guess ''other'' (PDict cp_guess))"

section \<open>Years\<close>

definition is_year :: "string \<Rightarrow> bool" where
  "is_year t = (\<exists>a b. is_digit a \<and> is_digit b \<and> (t = [CHR ''1'', CHR ''9'', a, b] \<or> t = [CHR ''2'', CHR ''0'', a, b]))"

lemma lang_year: "t \<in> lang year_re \<Longrightarrow> is_year t"
  by (auto simp: year_re_def is_year_def chr_def digit_def numeral_2_eq_2)

lemma plain_year: "plain year_re"
  by (simp add: year_re_def chr_def digit_def numeral_2_eq_2)

lemma year_groups: "(2, a) \<in> groups_of year_brackets \<Longrightarrow> a = year_re" "(1, a) \<in> groups_of (Grp 1 year_re) \<Longrightarrow> a = year_re"
  by (auto simp: year_brackets_def year_re_def chr_def digit_def any_of_def numeral_2_eq_2)

lemma findYear_year: "findYear t = [] \<or> is_year (findYear t)"
proof -
  let ?ms = "finditer year_brackets t" and ?ys = "findall1 (Grp 1 year_re) t"
  have y: "grp m n = [] \<or> is_year (grp m n)"
    if "m \<in> set (finditer r t)" and r: "\<And>a. (n, a) \<in> groups_of r \<Longrightarrow> a = year_re" for m n r
  proof (cases "group m n")
    case (Some u)
    from finditer_group [OF that(1) Some] r plain_year lang_year Some show ?thesis
      by (auto simp: grp_def)
  qed (simp add: grp_def)
  consider "?ms \<noteq> []" | "?ms = []" "?ys \<noteq> []" | "?ms = []" "?ys = []" by blast
  then show ?thesis
  proof cases
    case 1
    then show ?thesis using y [of "last ?ms" year_brackets 2] year_groups(1) by (simp add: findYear_def)
  next
    case 2
    then have "last ?ys \<in> set ?ys" by simp
    then obtain m where "m \<in> set (finditer (Grp 1 year_re) t)" "last ?ys = grp m 1"
      by (auto simp: findall1_def grp_def)
    with y [of m "Grp 1 year_re" 1] year_groups(2) 2 show ?thesis by (simp add: findYear_def)
  qed (simp add: findYear_def)
qed


lemma year_value:
  assumes "is_year t"
  shows "\<exists>n. int_of_str t = Some n \<and> 1900 \<le> n \<and> n \<le> 2099"
proof -
  from assms obtain a b where ab: "is_digit a" "is_digit b"
    "t = [CHR ''1'', CHR ''9'', a, b] \<or> t = [CHR ''2'', CHR ''0'', a, b]" by (auto simp: is_year_def)
  have sp: "\<not> is_space c" if "is_digit c" for c using that by (auto simp: is_space_def is_digit_def)
  have d: "is_digit (CHR ''1'')" "is_digit (CHR ''2'')" "is_digit (CHR ''9'')" "is_digit (CHR ''0'')"
    by (simp_all add: is_digit_def cp_def)
  have sg: "CHR ''1'' \<noteq> CHR ''-''" "CHR ''2'' \<noteq> CHR ''-''" by simp_all
  have st: "strip t = t" using ab(3)
    by (auto simp: strip_on_def lstrip_on_def rstrip_on_def sp ab(1,2) d)
  have n: "cp a - 48 \<le> 9" "cp b - 48 \<le> 9" using ab(1,2) by (auto simp: is_digit_def)
  from ab(3) show ?thesis
  proof
    assume t: "t = [CHR ''1'', CHR ''9'', a, b]"
    then have "int_of_str t = Some (int (1900 + 10 * (cp a - 48) + (cp b - 48)))"
      using st ab(1,2) d by (simp add: int_of_str_def Let_def cp_def)
    with n show ?thesis by auto
  next
    assume t: "t = [CHR ''2'', CHR ''0'', a, b]"
    then have "int_of_str t = Some (int (2000 + 10 * (cp a - 48) + (cp b - 48)))"
      using st ab(1,2) d by (simp add: int_of_str_def Let_def cp_def)
    with n show ?thesis by auto
  qed
qed

definition plausible_year :: "pv \<Rightarrow> bool" where
  "plausible_year v = (v = PNone \<or> v = PInt 0 \<or> (\<exists>n. v = PInt n \<and> 1900 \<le> n \<and> n \<le> 2099))"

lemma year_in_year: "year_in ts = Some y \<Longrightarrow> y = [] \<or> is_year y"
  using findYear_year by (auto simp: year_in_def split: list.splits option.splits)

lemma int_year_bounds: "year_in ts = y \<Longrightarrow> int_year y = Some n \<Longrightarrow> 1900 \<le> n \<and> n \<le> 2099"
  using year_in_year [of ts] year_value
  by (fastforce simp: int_year_def int_of_str_def split: option.splits)

lemma doc_year: "dget [] ''year'' = PNone" "dget [(''name'', x), (''year'', v)] ''year'' = v"
  by (simp_all add: dget_def)

lemma guess_years:
  "plausible_year (dget (guess_on_year c (year_in ts)) ''year'')"
  "plausible_year (dget (guess_on_spaces c (year_in ts)) ''year'')"
  using int_year_bounds [of ts]
  by (auto simp: guess_on_year_def guess_on_spaces_def plausible_year_def doc_year Let_def split: option.splits)

text \<open>What the scanner reads from a release name alone is no year, 0, or a year from 1900 to 2099,
  wherever in the name the four digits stand.\<close>

theorem name_year_bounds:
  "dget (getReleaseNameYear guessit release_name []) ''year'' \<in> {PNone, PInt 0} \<union> PInt ` {1900..2099}"
proof -
  have "plausible_year (dget (getReleaseNameYear guessit release_name []) ''year'')"
    using guess_years by (simp add: getReleaseNameYear_def Let_def guess_of_def)
  then show ?thesis by (auto simp: plausible_year_def)
qed

end
