(* ===== verification/Score.thy ===== *)
theory Score
  imports ScanNames Indexes
begin

text \<open>
  couchpotato/core/plugins/score: the score by which the results of a search are sorted. Every
  part is a function of texts; \<open>calculate\<close> adds them in the order of the code. A score is rational
  because the seeders are divided. The event \<open>release.validate\<close> is external; the extra score of a
  provider is the argument \<open>extra\<close>.
\<close>

definition name_scores :: "(string \<times> int) list" where
  "name_scores =
     [(''proper'', 15), (''repack'', 15), (''directors cut'', 15), (''extended'', 7), (''unrated'', 2),
      (''x264'', 1), (''h264'', 1), (''dts'', 4), (''ac3'', 2),
      (''720p'', 10), (''1080p'', 10), (''2160p'', 10), (''bluray'', 10), (''dvd'', 1), (''dvdrip'', 1), (''brrip'', 1),
      (''bdrip'', 1), (''bd50'', 1), (''bd25'', 1),
      (''german'', - 10), (''french'', - 10), (''spanish'', - 10), (''swesub'', - 20), (''danish'', - 10), (''dutch'', - 10),
      (''imbt'', 1), (''cocain'', 1), (''vomit'', 1), (''fico'', 1), (''arrow'', 1), (''pukka'', 1), (''prism'', 1),
      (''devise'', 1), (''esir'', 1), (''ctrlhd'', 1), (''metis'', 10), (''diamond'', 10), (''wiki'', 10), (''cbgb'', 10),
      (''crossbow'', 1), (''sinners'', 10), (''amiable'', 10), (''refined'', 1), (''twizted'', 1), (''felony'', 1),
      (''hubris'', 1), (''machd'', 1), (''extras'', - 40), (''trilogy'', - 40)]"

section \<open>The parts\<close>

definition nameScore :: "string \<Rightarrow> string \<Rightarrow> string list \<Rightarrow> int" where
  "nameScore name0 year preferred_words =
     (let name = lower name0;
          s1 = sum_list (map (\<lambda>(w, add). if contains w name then add else 0) name_scores);
          s2 = (if contains year name then 5 else 0);
          nzb_words = wsplit (simplifyString name)
      in s1 + s2 + 100 * int (card (set nzb_words \<inter> set preferred_words)))"

definition nameRatioScore :: "string \<Rightarrow> string \<Rightarrow> int" where
  "nameRatioScore nzb_name movie_name =
     (let nzb_words = wsplit (createStringIdentifier nzb_name [] False);
          movie_words = wsplit (simplifyString movie_name)
      in 10 - int (card (set nzb_words - set movie_words)))"

text \<open>\<open>([\'"])[^\1]*\1\<close>: inside the brackets \<open>\1\<close> is the character with code 1.\<close>

definition quoted_re :: re where
  "quoted_re = (let inner = Star (Cls (\<lambda>c. cp c \<noteq> 1)); q = CHR 0x27; qq = CHR 0x22
     in Alt (seqs [chr q, inner, chr q]) (seqs [chr qq, inner, chr qq]))"

definition quoted_part :: "string \<Rightarrow> string option" where
  "quoted_part s = map_option (whole s) (search quoted_re s)"

text \<open>The last quality named in the words, by its identifier or by the first of its alternatives.\<close>

definition found_quality :: "merged list \<Rightarrow> string list \<Rightarrow> string option" where
  "found_quality qs words = foldl (\<lambda>found m.
     let f1 = (if q_id (m_base m) \<in> set words then Some (q_id (m_base m)) else found)
     in case first_such (\<lambda>t. case t of T a \<Rightarrow> a \<in> set words | TT _ \<Rightarrow> False) (q_alternative (m_base m)) of
          Some (T a) \<Rightarrow> Some a | _ \<Rightarrow> f1) None qs"

text \<open>\<open>qs\<close> is what the event \<open>quality.all\<close> answers, \<open>None\<close> when its handler raised: the loop over it
  then raises, but is reached only for a name that is split in two.\<close>

definition namePositionScore ::
  "(string \<Rightarrow> doc res) \<Rightarrow> merged list option \<Rightarrow> string \<Rightarrow> string \<Rightarrow> int res" where
  "namePositionScore guessit qs nzb_name0 movie_name =
     (let nzb_words = wsplit (simplifyString nzb_name0);
          nzb_name = (case quoted_part nzb_name0 of Some t \<Rightarrow> t | None \<Rightarrow> nzb_name0);
          name_year = getReleaseNameYear guessit nzb_name [];
          split_by = simplifyString movie_name;
          name_split = (if split_by \<noteq> [] then split_on split_by (simplifyString nzb_name) else []);
          s1 = (if name_split \<noteq> [] \<and> strip (hd name_split) = [] then 10 else 0)
      in if 1 < length name_split
         then (let after0 = strip (name_split ! 1);
                   second = pv_eq (PInt (tryInt (PStr (take 4 after0)) 0)) (dget name_year ''year'');
                   s2 = (if second then s1 + 10 else s1);
                   after_name = (if second then drop 4 after0 else after0)
               in case qs of None \<Rightarrow> Inl TypeError
                | Some qs \<Rightarrow> Inr (case found_quality qs nzb_words of
                    None \<Rightarrow> s2 - 20
                  | Some q \<Rightarrow> (let inbetween = wsplit (strip (hd (split_on q after_name)))
                              in s2 - 10 * int (card (set inbetween - set (map fst name_scores))))))
         else Inr s1)"

definition sizeScore :: "pv \<Rightarrow> int" where
  "sizeScore sz = (if truthy sz then 0 else - 20)"

definition providerScore :: "settings \<Rightarrow> pv \<Rightarrow> int" where
  "providerScore s provider = (case provider of
       PStr p \<Rightarrow> tryInt (get_setting s ''extra_score'' (lower p) (PInt 0) PNone) 0
     | _ \<Rightarrow> 0)"

text \<open>A title that is no text raises, and the handler returns 0.\<close>

definition duplicateScore :: "string \<Rightarrow> pv \<Rightarrow> int" where
  "duplicateScore nzb_name movie_name = (case movie_name of
       PStr title \<Rightarrow>
         (let nzb_words = wsplit (simplifyString nzb_name);
              movie_words = wsplit (simplifyString title);
              duplicates = filter (\<lambda>x. 1 < count_list nzb_words x) nzb_words
          in int (card (set duplicates - set movie_words)) * - 4)
     | _ \<Rightarrow> 0)"

definition partialIgnoredScore :: "string \<Rightarrow> pv \<Rightarrow> string list \<Rightarrow> int" where
  "partialIgnoredScore nzb_name movie_name ignored_words = (case movie_name of
       PStr title \<Rightarrow> - 5 * int (length (filter
         (\<lambda>w. contains w (lower nzb_name) \<and> \<not> contains w (lower title)) ignored_words))
     | _ \<Rightarrow> 0)"

definition part_marks :: "string list" where
  "part_marks = concat (map (\<lambda>nr. map (\<lambda>wrong. wrong @ nr) [''cd'', ''part'', ''dis'', ''disc'', ''dvd''])
     [''1'', ''2'', ''3'', ''4'', ''5'', ''i'', ''ii'', ''iii'', ''iv'', ''v'', ''a'', ''b'', ''c'', ''d'', ''e''])"

definition halfMultipartScore :: "string \<Rightarrow> int" where
  "halfMultipartScore nzb_name =
     (if length (filter (\<lambda>m. contains m (lower nzb_name)) part_marks) = 1 then - 30 else 0)"

text \<open>The longest text between square brackets, the first of several.\<close>

fun longest :: "string list \<Rightarrow> string option" where
  "longest [] = None"
| "longest (x # xs) = (case longest xs of
       None \<Rightarrow> Some x | Some y \<Rightarrow> (if length x < length y then Some y else Some x))"

definition bracketed_part :: "string \<Rightarrow> string option" where
  "bracketed_part s = map_option strip
     (longest (findall1 (seqs [Star (none_of ''[''), lit ''['', Grp 1 (Star (none_of '']'')), lit '']'']) s))"

definition check_names_of :: "string \<Rightarrow> string list" where
  "check_names_of s = [s] @ (case quoted_part s of Some t \<Rightarrow> [t] | None \<Rightarrow> [])
     @ (case bracketed_part s of Some t \<Rightarrow> [t] | None \<Rightarrow> [])"

definition scene_strip :: string where
  "scene_strip = '' ''  @ [CHR 0x22, CHR 0x27, CHR 0x5C] @ ''.-_[]''"

definition scene_name :: "string \<Rightarrow> string" where
  "scene_name name0 =
     (let name1 = strip_chars scene_strip (lower name0);
          name2 = sub_str (seqs [lit ''.'', Grp 1 (rep_upto 4 (Cls (\<lambda>c. is_lower_az c \<or> is_digit c))), Eos]) [] name1
      in strip_chars scene_strip name2)"

definition has_year_and_group :: "string \<Rightarrow> bool" where
  "has_year_and_group name =
     (finditer year_re name \<noteq> [] \<and>
      finditer (seqs [lit ''-'', Grp 1 (plus_re (Cls (\<lambda>c. is_lower_az c \<or> is_digit c))), Eos]) name \<noteq> [])"

definition validated :: "pv \<Rightarrow> int option res" where
  "validated validate =
     (if \<not> truthy validate then Inr None
      else rbind (vget validate ''score'') (\<lambda>sc.
        if tryInt sc 0 = 0 then Inr None
        else rbind (vsub validate ''score'') (\<lambda>_. rbind (vsub validate ''reasons'') (\<lambda>_. Inr (Some (tryInt sc 0))))))"

fun scene_loop :: "string list \<Rightarrow> (world, int) py" where
  "scene_loop [] = ret 0"
| "scene_loop (n # ns) =
     (if has_year_and_group (scene_name n)
      then bnd (fire ''release.validate'' [PStr (scene_name n)]) (\<lambda>validate.
           case validated validate of
             Inr (Some sc) \<Rightarrow> ret sc
           | _ \<Rightarrow> scene_loop ns)
      else scene_loop ns)"

definition sceneScore :: "string \<Rightarrow> (world, int) py" where
  "sceneScore nzb_name = scene_loop (check_names_of nzb_name)"

section \<open>The sum\<close>

text \<open>The words of the settings, and those of the movie's category where it has any.\<close>

definition attr_str :: "pv \<Rightarrow> string res" where
  "attr_str v = (case v of PStr s \<Rightarrow> Inr s | _ \<Rightarrow> Inl AttributeError)"

definition category_words :: "doc \<Rightarrow> string \<Rightarrow> string list res" where
  "category_words movie kind =
     rbind (dsub movie ''category'') (\<lambda>c. rbind (vsub c kind) (\<lambda>t. rbind (attr_str t) (\<lambda>s.
       Inr (splitString (lower s) '','' True))))"

definition search_words :: "settings \<Rightarrow> pv \<Rightarrow> doc \<Rightarrow> string \<Rightarrow> string list res" where
  "search_words s dflt movie kind =
     rbind (attr_str (get_setting s (kind @ ''_words'') ''searcher'' dflt PNone)) (\<lambda>t.
       let words = splitString (lower t) '','' True
       in Inr (case category_words movie kind of
            Inr ws \<Rightarrow> removeDuplicate (words @ ws) | Inl _ \<Rightarrow> words))"

text \<open>Seeders and leechers: what was added before an exception stays.\<close>

definition seedersScore :: "doc \<Rightarrow> rat" where
  "seedersScore nzb =
     (if \<not> truthy (dget nzb ''seeders'') then 0
      else case num_of (dget nzb ''seeders'') of
        None \<Rightarrow> 0
      | Some s \<Rightarrow> s * 100 / 15 + (case num_of (dget nzb ''leechers'') of None \<Rightarrow> 0 | Some l \<Rightarrow> l * 100 / 30))"

definition info_titles :: "doc \<Rightarrow> string list res" where
  "info_titles movie = rbind (dsub movie ''info'') (\<lambda>i. rbind (vsub i ''titles'') (\<lambda>t.
     rbind (as_list t) (mapr as_str)))"

definition calculate ::
  "(string \<Rightarrow> doc res) \<Rightarrow> (pv \<Rightarrow> doc \<Rightarrow> (world, rat) py) \<Rightarrow> doc \<Rightarrow> doc \<Rightarrow> (world, rat) py" where
  "calculate guessit extra nzb movie =
     bnd (gets sett) (\<lambda>s.
     bnd (liftr (search_words s (PStr []) movie ''preferred'')) (\<lambda>preferred_words.
     bnd (liftr (rbind (dsub nzb ''name'') as_str)) (\<lambda>name.
     bnd (liftr (rbind (dsub movie ''info'') (\<lambda>i. vsub i ''year''))) (\<lambda>year.
     bnd (liftr (info_titles movie)) (\<lambda>titles.
     bnd (catch (bnd all_qualities (\<lambda>qs. ret (Some qs))) (\<lambda>_. ret None)) (\<lambda>qs.
     bnd (liftr (mapr (\<lambda>t. rbind (namePositionScore guessit qs name t) (\<lambda>p. Inr (nameRatioScore name t + p))) titles)) (\<lambda>per_title.
     let sc1 = nameScore name (fmt year) preferred_words + sum_list per_title in
     bnd (liftr (dsub nzb ''size'')) (\<lambda>sz.
     bnd (liftr (dsub nzb ''provider'')) (\<lambda>provider.
     let sc2 = of_int (sc1 + sizeScore sz) + seedersScore nzb + of_int (providerScore s provider)
             + of_int (duplicateScore name (getTitle (PDict movie))) in
     bnd (liftr (search_words s (PStr []) movie ''ignored'')) (\<lambda>ignored_words.
     let sc3 = sc2 + of_int (partialIgnoredScore name (getTitle (PDict movie)) ignored_words)
             + of_int (halfMultipartScore name) in
     bnd (if truthy (dget nzb ''extra_score'') then extra (dget nzb ''extra_score'') nzb else ret 0) (\<lambda>ex.
     bnd (sceneScore name) (\<lambda>scene.
     ret (sc3 + ex + of_int scene)))))))))))))"

section \<open>What a preferred word is worth\<close>

text \<open>One more preferred word raises the score of a name by exactly 100 when it is one of the words
  of the name and was not preferred before, and by nothing otherwise.\<close>

theorem preferred_word_worth:
  "nameScore name year (w # ws) = nameScore name year ws
     + (if w \<in> set (wsplit (simplifyString (lower name))) - set ws then 100 else 0)"
proof -
  let ?A = "set (wsplit (simplifyString (lower name)))"
  have "card (?A \<inter> set (w # ws)) = card (?A \<inter> set ws) + (if w \<in> ?A - set ws then 1 else 0)"
  proof (cases "w \<in> ?A - set ws")
    case True
    then have "?A \<inter> set (w # ws) = insert w (?A \<inter> set ws)" by auto
    with True show ?thesis by simp
  next
    case False
    then have "?A \<inter> set (w # ws) = ?A \<inter> set ws" by auto
    with False show ?thesis by presburger
  qed
  then show ?thesis by (simp add: nameScore_def Let_def)
qed

end
