(* ===== verification/Profile.thy ===== *)
theory Profile
  imports Quality
begin

text \<open>
  couchpotato/core/plugins/profile/main.py and plugins/category/main.py: the user's profiles
  (ordered lists of wanted qualities) and categories, and the repair of media whose profile or
  category is gone. Request arguments are a document. The active media that \<open>forceDefaults\<close> asks
  for (event \<open>media.with_status\<close>) are the argument \<open>with_status\<close>.
\<close>

section \<open>Profiles\<close>

definition all_profiles :: "(world, doc list) py" where
  "all_profiles = bnd (on_db (db_all ''profile'' (- 1) 0)) (\<lambda>hs. ret (map hit_doc hs))"

definition default_profile :: "(world, doc) py" where
  "default_profile =
     bnd (on_db (db_all ''profile'' 1 0)) (\<lambda>hs. liftr (rbind (nth_res hs 0) (\<lambda>h. Inr (hit_doc h))))"

definition fill_profiles :: "(string \<times> string list \<times> bool list) list" where
  "fill_profiles =
     [(''Best'', [''720p'', ''1080p'', ''brrip'', ''dvdrip''], []),
      (''HD'', [''720p'', ''1080p''], []),
      (''SD'', [''dvdrip'', ''dvdr''], []),
      (''Prefer 3D HD'', [''1080p'', ''720p'', ''720p'', ''1080p''], [True, True]),
      (''3D HD'', [''1080p'', ''720p''], [True, True]),
      (''UHD 4K'', [''720p'', ''1080p'', ''2160p''], [])]"

text \<open>\<open>threed.pop()\<close> takes the flags from the end of the list.\<close>

fun pop_flags :: "nat \<Rightarrow> bool list \<Rightarrow> pv list" where
  "pop_flags 0 fl = []"
| "pop_flags (Suc n) fl =
     (if fl \<noteq> [] then PBool (last fl) # pop_flags n (butlast fl) else PBool False # pop_flags n [])"

definition new_profile :: "int \<Rightarrow> string \<times> string list \<times> bool list \<Rightarrow> doc" where
  "new_profile order p = (case p of (lab, qs, threeds) \<Rightarrow>
     [(''_t'', PStr ''profile''), (''label'', PStr lab), (''order'', PInt order),
      (''qualities'', PList (map PStr qs)), (''minimum_score'', PInt 1),
      (''finish'', PList (replicate (length qs) (PBool True))),
      (''wait_for'', PList (replicate (length qs) (PInt 0))),
      (''stop_after'', PList (replicate (length qs) (PInt 0))),
      (''3d'', PList (pop_flags (length qs) threeds))])"

definition fill_default_profiles :: "(world, bool) py" where
  "fill_default_profiles =
     catch
       (bnd (for_acc fill_profiles 0 (\<lambda>p order.
            bnd (on_db (db_insert (new_profile order p))) (\<lambda>_. ret (Go (order + 1))))) (\<lambda>_. ret True))
       (\<lambda>_. ret False)"

definition profile_ids :: "doc list \<Rightarrow> pv list" where
  "profile_ids ps = map (\<lambda>p. dget p ''_id'') ps"

definition set_default :: "pv list \<Rightarrow> pv \<Rightarrow> doc list \<Rightarrow> (world, unit) py" where
  "set_default ids default_id medias =
     for_each medias (\<lambda>media. whenp (dget media ''profile_id'' \<notin> set ids)
       (bnd (on_db (db_update (dput media ''profile_id'' default_id))) (\<lambda>_. ret ())))"

definition has_empty_quality :: "doc \<Rightarrow> bool res" where
  "has_empty_quality p = rbind (as_list (dget p ''qualities'')) (\<lambda>qs.
     Inr (PStr [] \<in> set qs \<or> PStr ''-1'' \<in> set qs))"

definition clean_profile :: "doc \<Rightarrow> (world, unit) py" where
  "clean_profile profile =
     catch
       (bnd (liftr (has_empty_quality profile)) (\<lambda>b.
        whenp b
          (bnd (liftr (as_str (dget profile ''_id''))) (\<lambda>i.
           bnd (on_db (db_get i)) (\<lambda>p.
           bnd (liftr (rbind (dsub p ''qualities'') as_list)) (\<lambda>qs.
           bnd (on_db (db_update (dput p ''qualities'' (PList (filter (\<lambda>x. x \<noteq> PStr [] \<and> x \<noteq> PStr ''-1'') qs))))) (\<lambda>_.
           ret ())))))))
       (\<lambda>_. ret ())"

definition count_all :: "string \<Rightarrow> (world, nat) py" where
  "count_all n = bnd (on_db (db_all n (- 1) 0)) (\<lambda>hs. ret (length hs))"

definition forceDefaults :: "(world, doc list) py \<Rightarrow> (world, unit) py" where
  "forceDefaults with_status =
     bnd (count_all ''profile'') (\<lambda>np.
     bnd (whenp (np = 0)
            (bnd (count_all ''quality'') (\<lambda>nq.
             bnd (whenp (nq = 0) (bnd (fill False) (\<lambda>_. ret ()))) (\<lambda>_.
             bnd fill_default_profiles (\<lambda>_. ret ()))))) (\<lambda>_.
     bnd (catch
            (bnd with_status (\<lambda>medias.
             bnd all_profiles (\<lambda>ps.
             bnd (liftr (nth_res (profile_ids ps) 0)) (\<lambda>default_id.
             set_default (profile_ids ps) default_id medias))))
            (\<lambda>_. ret ())) (\<lambda>_.
     bnd all_profiles (\<lambda>ps. for_each ps clean_profile))))"

text \<open>\<open>save\<close>. Each type contributes one entry to the five parallel lists; \<open>wait_for\<close> and
  \<open>stop_after\<close> come from the request, not from the type, and the first quality always finishes.\<close>

definition profile_of :: "doc \<Rightarrow> doc res" where
  "profile_of kwargs =
     rbind (as_list (dgetd kwargs ''types'' (PList []))) (\<lambda>types.
     rbind (mapr as_dict types) (\<lambda>ts.
       let n = length ts in
       Inr [(''_t'', PStr ''profile''), (''label'', PStr (fmt (dget kwargs ''label''))),
         (''order'', PInt (tryInt (dgetd kwargs ''order'' (PInt 999)) 0)),
         (''core'', dgetd kwargs ''core'' (PBool False)),
         (''minimum_score'', PInt (tryInt (dgetd kwargs ''minimum_score'' (PInt 1)) 0)),
         (''qualities'', PList (map (\<lambda>t. dget t ''quality'') ts)),
         (''wait_for'', PList (replicate n (PInt (tryInt (dgetd kwargs ''wait_for'' (PInt 0)) 0)))),
         (''stop_after'', PList (replicate n (PInt (tryInt (dgetd kwargs ''stop_after'' (PInt 0)) 0)))),
         (''finish'', PList (map (\<lambda>(i, t). PBool (if 0 < i then tryInt (dget t ''finish'') 0 = 1 else True)) (enumerate 0 ts))),
         (''3d'', PList (map (\<lambda>t. PInt (tryInt (dget t ''3d'') 0)) ts))]))"

definition save_profile :: "doc \<Rightarrow> (world, doc option) py" where
  "save_profile kwargs =
     catch
       (bnd (liftr (profile_of kwargs)) (\<lambda>profile.
        bnd (catch
               (bnd (liftr (as_str (dget kwargs ''id''))) (\<lambda>i.
                bnd (on_db (db_get i)) (\<lambda>p.
                ret (p, dput profile ''order'' (PInt (tryInt (dgetd kwargs ''order'' (dgetd p ''order'' (PInt 999))) 0))))))
               (\<lambda>_. bnd (on_db (db_insert profile)) (\<lambda>r. ret (r, dupdate profile r)))) (\<lambda>(p, profile').
        let p' = dupdate p profile' in
        bnd (on_db (db_update p')) (\<lambda>r. ret (Some (dupdate p' r))))))
       (\<lambda>_. ret None)"

definition saveOrder_profiles :: "doc \<Rightarrow> (world, bool) py" where
  "saveOrder_profiles kwargs =
     catch
       (bnd (liftr (as_list (dgetd kwargs ''ids'' (PList [])))) (\<lambda>ids.
        bnd (for_acc ids 0 (\<lambda>profile_id order.
          bnd (liftr (as_str profile_id)) (\<lambda>i.
          bnd (on_db (db_get i)) (\<lambda>p.
          bnd (liftr (rbind (as_list (dget kwargs ''hidden'')) (\<lambda>hs. nth_res hs order))) (\<lambda>h.
          bnd (on_db (db_update (dput (dput p ''hide'' (PBool (tryInt h 0 = 1))) ''order'' (PInt order)))) (\<lambda>_.
          ret (Go (order + 1)))))))) (\<lambda>_. ret True)))
       (\<lambda>_. ret False)"

definition delete_profile :: "(world, doc list) py \<Rightarrow> string \<Rightarrow> (world, bool) py" where
  "delete_profile with_status i =
     catch
       (bnd (on_db (db_get i)) (\<lambda>p.
        bnd (on_db (db_delete p)) (\<lambda>_.
        bnd (forceDefaults with_status) (\<lambda>_. ret True))))
       (\<lambda>_. ret False)"

section \<open>Categories\<close>

definition all_categories :: "(world, doc list) py" where
  "all_categories = bnd (on_db (db_all ''category'' (- 1) 0)) (\<lambda>hs. ret (map hit_doc hs))"

definition category_of :: "doc \<Rightarrow> doc" where
  "category_of kwargs =
     [(''_t'', PStr ''category''), (''order'', dgetd kwargs ''order'' (PInt 999)),
      (''label'', PStr (fmt (dgetd kwargs ''label'' (PStr [])))),
      (''ignored'', PStr (fmt (dgetd kwargs ''ignored'' (PStr [])))),
      (''preferred'', PStr (fmt (dgetd kwargs ''preferred'' (PStr [])))),
      (''required'', PStr (fmt (dgetd kwargs ''required'' (PStr [])))),
      (''destination'', PStr (fmt (dgetd kwargs ''destination'' (PStr []))))]"

definition save_category :: "doc \<Rightarrow> (world, doc option) py" where
  "save_category kwargs =
     catch
       (let category = category_of kwargs in
        catch
          (bnd (liftr (as_str (dget kwargs ''id''))) (\<lambda>i.
           bnd (on_db (db_get i)) (\<lambda>c.
           let category' = dput category ''order'' (dgetd c ''order'' (dget category ''order''));
               c' = dupdate c category'
           in bnd (on_db (db_update c')) (\<lambda>r. ret (Some (dupdate c' r))))))
          (\<lambda>_. bnd (on_db (db_insert category)) (\<lambda>r. ret (Some (dupdate r (dupdate category r))))))
       (\<lambda>_. ret None)"

definition saveOrder_categories :: "doc \<Rightarrow> (world, bool) py" where
  "saveOrder_categories kwargs =
     catch
       (bnd (liftr (as_list (dgetd kwargs ''ids'' (PList [])))) (\<lambda>ids.
        bnd (for_acc ids 0 (\<lambda>category_id order.
          bnd (liftr (as_str category_id)) (\<lambda>i.
          bnd (on_db (db_get i)) (\<lambda>c.
          bnd (on_db (db_update (dput c ''order'' (PInt order)))) (\<lambda>_. ret (Go (order + 1))))))) (\<lambda>_. ret True)))
       (\<lambda>_. ret False)"

definition removeFromMovie :: "string \<Rightarrow> (world, unit) py" where
  "removeFromMovie category_id =
     catch
       (bnd (on_db (db_get_many ''category_media'' (PStr category_id))) (\<lambda>hs.
        for_each (map hit_doc hs) (\<lambda>movie. whenp True
          (bnd (on_db (db_update (dput movie ''category_id'' PNone))) (\<lambda>_. ret ())))))
       (\<lambda>_. ret ())"

definition delete_category :: "string \<Rightarrow> (world, bool) py" where
  "delete_category i =
     catch
       (bnd (on_db (db_get i)) (\<lambda>c.
        bnd (on_db (db_delete c)) (\<lambda>_.
        bnd (removeFromMovie i) (\<lambda>_. ret True))))
       (\<lambda>_. ret False)"

section \<open>Properties\<close>

text \<open>The lists of a profile are parallel and its first quality finishes.\<close>

definition list_len :: "doc \<Rightarrow> string \<Rightarrow> nat option" where
  "list_len p k = (case dget p k of PList xs \<Rightarrow> Some (length xs) | _ \<Rightarrow> None)"

definition parallel :: "doc \<Rightarrow> bool" where
  "parallel p = (\<exists>n. list_len p ''qualities'' = Some n \<and> list_len p ''finish'' = Some n \<and>
     list_len p ''wait_for'' = Some n \<and> list_len p ''stop_after'' = Some n \<and> list_len p ''3d'' = Some n)"

lemma mapr_length: "mapr f xs = Inr ys \<Longrightarrow> length ys = length xs"
  by (induction xs arbitrary: ys) (auto simp: rbind_eq_Inr)

lemma length_pop_flags: "length (pop_flags n fl) = n"
  by (induction n arbitrary: fl) auto

text \<open>A sound profile: its lists are parallel, and its best quality finishes the search.\<close>

definition sound_profile :: "doc \<Rightarrow> bool" where
  "sound_profile d \<longleftrightarrow> dget d ''_t'' = PStr ''profile'' \<and> parallel d \<and>
     (\<forall>fs. dget d ''finish'' = PList fs \<longrightarrow> fs \<noteq> [] \<longrightarrow> hd fs = PBool True)"

lemma sound_profile_cong:
  "(\<And>k. k \<in> {''_t'', ''qualities'', ''finish'', ''wait_for'', ''stop_after'', ''3d''} \<Longrightarrow> dget d k = dget e k) \<Longrightarrow>
   sound_profile d = sound_profile e"
  by (simp add: sound_profile_def parallel_def list_len_def)

lemma profile_of_sound:
  assumes "profile_of kwargs = Inr p"
  shows "sound_profile p \<and> distinct (map fst p)"
proof -
  from assms obtain types ts where ts: "as_list (dgetd kwargs ''types'' (PList [])) = Inr types"
    "mapr as_dict types = Inr ts" by (auto simp: profile_of_def rbind_eq_Inr)
  with assms have "parallel p" "dget p ''_t'' = PStr ''profile''" "distinct (map fst p)"
    by (auto simp: profile_of_def Let_def parallel_def list_len_def dget_def)
  moreover from ts assms have "dget p ''finish'' =
      PList (map (\<lambda>(i, t). PBool (if 0 < i then tryInt (dget t ''finish'') 0 = 1 else True)) (enumerate 0 ts))"
    by (auto simp: profile_of_def Let_def dget_def)
  then have "\<forall>fs. dget p ''finish'' = PList fs \<longrightarrow> fs \<noteq> [] \<longrightarrow> hd fs = PBool True" by (cases ts) auto
  ultimately show ?thesis by (simp add: sound_profile_def)
qed

lemma new_profile_sound: "sound_profile (new_profile order q)"
proof -
  have "hd (replicate n x) = x" if "replicate n x \<noteq> []" for n and x :: pv using that by (cases n) auto
  then show ?thesis
    by (cases q) (auto simp: sound_profile_def parallel_def list_len_def new_profile_def dget_def length_pop_flags)
qed

lemma map_of_dupdate:
  "distinct (map fst e) \<Longrightarrow> map_of (dupdate d e) k = (if dhas e k then map_of e k else map_of d k)"
proof (induction e arbitrary: d)
  case (Cons x e)
  then have "fst x \<notin> fst ` set e" by simp
  then have "\<not> dhas e (fst x)" by (force simp: dhas_def map_of_eq_None_iff)
  with Cons show ?case by (cases x) (auto simp: dupdate_def dput_def update_conv', auto simp: dhas_def)
qed (simp add: dupdate_def dhas_def)

lemma dget_dupdate:
  "distinct (map fst e) \<Longrightarrow> dget (dupdate d e) k = (if dhas e k then dget e k else dget d k)"
  by (simp add: dget_def map_of_dupdate)

lemma sound_dupdate:
  assumes "sound_profile e" "distinct (map fst e)"
  shows "sound_profile (dupdate d e)"
proof -
  have "dhas e k" if "dget e k \<noteq> PNone" for k using that by (auto simp: dhas_def dget_def split: option.splits)
  with assms(1) have "dhas e k" if "k \<in> {''_t'', ''qualities'', ''finish'', ''wait_for'', ''stop_after'', ''3d''}" for k
    using that by (auto simp: sound_profile_def parallel_def list_len_def split: pv.splits)
  then have "sound_profile (dupdate d e) = sound_profile e"
    by (intro sound_profile_cong) (simp add: dget_dupdate [OF assms(2)])
  with assms(1) show ?thesis by simp
qed

text \<open>What saving a profile and filling in the default profiles write.\<close>

definition writes_profiles :: "world \<Rightarrow> world \<Rightarrow> bool" where
  "writes_profiles w v \<longleftrightarrow> (\<forall>j d. w_live v j = Some d \<longrightarrow> w_live w j = Some d \<or> sound_profile d)"

interpretation wp: frame writes_profiles
  by unfold_locales (auto simp: writes_profiles_def)

lemma sound_stored: "sound_profile (with_meta i r (strip_meta d)) = sound_profile d"
  by (rule sound_profile_cong) (auto simp: dget_def)

lemma wp_insert: "sound_profile d \<Longrightarrow> keeps writes_profiles (on_db (db_insert d))"
  unfolding keeps_def writes_profiles_def w_live_def store_on_db
  using db_insert_adds [OF prod.collapse [symmetric], of d] sound_stored by (metis option.inject)

lemma wp_update: "sound_profile d \<Longrightarrow> keeps writes_profiles (on_db (db_update d))"
  unfolding keeps_def writes_profiles_def w_live_def store_on_db
  using db_update_adds [OF prod.collapse [symmetric], of d] sound_stored by (metis option.inject)

lemma wp_read: "keeps (=) m \<Longrightarrow> keeps writes_profiles m"
  by (auto simp: keeps_def writes_profiles_def)

lemma wp_save_profile: "keeps writes_profiles (save_profile kwargs)"
proof -
  have "keeps writes_profiles (bnd (catch
      (bnd (liftr (as_str (dget kwargs ''id''))) (\<lambda>i. bnd (on_db (db_get i)) (\<lambda>p.
       ret (p, dput profile ''order'' (PInt (tryInt (dgetd kwargs ''order'' (dgetd p ''order'' (PInt 999))) 0))))))
      (\<lambda>_. bnd (on_db (db_insert profile)) (\<lambda>r. ret (r, dupdate profile r)))) (\<lambda>(p, profile').
        let p' = dupdate p profile' in bnd (on_db (db_update p')) (\<lambda>r. ret (Some (dupdate p' r)))))"
    if "profile_of kwargs = Inr profile" for profile
  proof (rule wp.keeps_bnd_result)
    have s: "sound_profile profile" "distinct (map fst profile)" using profile_of_sound [OF that] by simp_all
    then show "keeps writes_profiles (catch
      (bnd (liftr (as_str (dget kwargs ''id''))) (\<lambda>i. bnd (on_db (db_get i)) (\<lambda>p.
       ret (p, dput profile ''order'' (PInt (tryInt (dgetd kwargs ''order'' (dgetd p ''order'' (PInt 999))) 0))))))
      (\<lambda>_. bnd (on_db (db_insert profile)) (\<lambda>r. ret (r, dupdate profile r))))"
      by (auto intro!: wp.keeps_intros wp_insert wp_read [OF read_only_on_db(1)])
    fix x w w' assume "catch
      (bnd (liftr (as_str (dget kwargs ''id''))) (\<lambda>i. bnd (on_db (db_get i)) (\<lambda>p.
       ret (p, dput profile ''order'' (PInt (tryInt (dgetd kwargs ''order'' (dgetd p ''order'' (PInt 999))) 0))))))
      (\<lambda>_. bnd (on_db (db_insert profile)) (\<lambda>r. ret (r, dupdate profile r))) w = (Inr x, w')"
    then consider p v where "x = (p, dput profile ''order'' v)"
      | u r v where "on_db (db_insert profile) u = (Inr r, v)" "x = (r, dupdate profile r)"
      by (auto simp: py_simps simp del: on_db_run split: sum.splits prod.splits)
    then have "sound_profile (snd x) \<and> distinct (map fst (snd x))"
    proof cases
      case 1
      have "sound_profile (dput profile ''order'' v) = sound_profile profile"
        by (rule sound_profile_cong) (auto simp: dget_dput)
      with 1 s show ?thesis by (simp add: dput_def distinct_update)
    next
      case 2
      from 2(1) have "db_insert profile (store u) = (Inr r, store v)" by (auto simp: py_simps split: prod.splits)
      from db_insert_adds [OF this] obtain i rv where r: "r = ret_meta i rv" by auto
      have "sound_profile (dupdate profile r) = sound_profile profile"
        by (rule sound_profile_cong) (auto simp: r ret_meta_def dupdate_def dget_dput)
      with 2(2) s show ?thesis by (simp add: r ret_meta_def dupdate_def dput_def distinct_update)
    qed
    then show "keeps writes_profiles ((\<lambda>(p, profile').
        let p' = dupdate p profile' in bnd (on_db (db_update p')) (\<lambda>r. ret (Some (dupdate p' r)))) x)"
      by (cases x) (auto simp: Let_def intro!: wp.keeps_bnd wp.keeps_ret wp_update sound_dupdate)
  qed
  then show ?thesis unfolding save_profile_def by (intro wp.keeps_catch wp.keeps_liftr_bnd wp.keeps_ret)
qed

lemma wp_fill_default_profiles: "keeps writes_profiles fill_default_profiles"
  unfolding fill_default_profiles_def by (auto intro!: wp.keeps_intros wp_insert new_profile_sound)

text \<open>C40: every document that a request to save a profile writes, new or changed, and every one that filling in the
  default profiles writes, is a profile with five parallel lists (one entry for each quality), whose best quality,
  where it has one, finishes the search; no other document is written. (The profiles of a single quality that filling in the
  qualities adds have three of the lists only, and cleaning a profile shortens one of them, see
  \<open>cleaned_profile_not_parallel\<close>.)\<close>

theorem profiles_parallel:
  assumes "w' \<in> {snd (save_profile kwargs w), snd (fill_default_profiles w)}" "w_live w' j = Some d"
  shows "w_live w j = Some d \<or> sound_profile d"
  using assms keepsD [OF wp_save_profile, of w kwargs] keepsD [OF wp_fill_default_profiles, of w]
  by (auto simp: writes_profiles_def)

theorem profiles_parallel_witness:
  "(\<exists>p w j d. save_profile [(''label'', PStr ''x''), (''types'', PList [PDict [(''quality'', PStr ''720p'')]])] demo_world
      = (Inr (Some p), w) \<and> w_live w j = Some d \<and> sound_profile d)"
proof -
  let ?k = "[(''label'', PStr ''x''), (''types'', PList [PDict [(''quality'', PStr ''720p'')]])]"
  obtain P where P: "profile_of ?k = Inr P" "\<not> dhas P ''_rev''" "\<not> dhas P ''_id''" "distinct (map fst P)"
    by (simp add: profile_of_def dhas_def dgetd_def dget_def)
  have none: "dget ?k ''id'' = PNone" by (simp add: dget_def)
  let ?i = "uuid (store demo_world) (Suc (drawn (store demo_world)))"
  have i: "length ?i = 32" "lookup (store demo_world) ?i = None" and ok: "w_ok demo_world"
    by (simp_all add: demo_world_def empty_db_def lookup_def w_ok_def db_ok_def)
  obtain r s1 where ins: "db_insert P (store demo_world) = (Inr (ret_meta ?i r), s1)" "live s1 ?i = Some (with_meta ?i r (strip_meta P))"
    using db_insert_run [OF ok [unfolded w_ok_def] P(2,3) refl i] by (auto simp: live_set_entry)
  let ?w1 = "demo_world\<lparr>store := s1\<rparr>"
  have w1: "w_ok ?w1" "w_live ?w1 ?i = Some (with_meta ?i r (strip_meta P))"
    using keepsD [OF keeps_db_insert, of "store demo_world" P] ins ok by (simp_all add: w_ok_def w_live_def db_step_def)
  let ?q = "dupdate P (ret_meta ?i r)" let ?p = "dupdate (ret_meta ?i r) ?q"
  have q: "distinct (map fst ?q)" "dhas ?q ''_id''" "dget ?q ''_id'' = PStr ?i" "dhas ?q ''_rev''" "dget ?q ''_rev'' = PStr r"
    using P(4) by (simp_all add: dupdate_def ret_meta_def dput_def distinct_update dhas_def dget_def update_conv')
  have has: "dhas ?p k" if "dhas ?q k" for k
  proof -
    from that have "map_of ?q k \<noteq> None" by (simp add: dhas_def)
    then show ?thesis using map_of_dupdate [OF q(1), of "ret_meta ?i r" k] by (simp add: dhas_def)
  qed
  have "dhas ?p ''_id'' \<and> dget ?p ''_id'' = PStr ?i \<and> dhas ?p ''_rev'' \<and>
      dget ?p ''_rev'' = dget (with_meta ?i r (strip_meta P)) ''_rev''"
    using q has by (simp add: dget_dupdate [OF q(1)])
  from ws.upd_law [OF w1 this] obtain x w d where u: "on_db (db_update ?p) ?w1 = (Inr x, w)" "w_live w ?i = Some d" by blast
  have "save_profile ?k demo_world = (Inr (Some (dupdate ?p x)), w)"
    using u(1) ins(1) P(1) none by (simp add: save_profile_def py_simps del: on_db_run) (simp add: py_simps Let_def)
  with u(2) have "\<exists>p w j d. save_profile ?k demo_world = (Inr (Some p), w) \<and> w_live w j = Some d" by blast
  then obtain p w j d where run: "save_profile ?k demo_world = (Inr (Some p), w)" "w_live w j = Some d" by blast
  moreover have "w_live demo_world j = None" by (simp add: w_live_def live_def lookup_def demo_world_def empty_db_def)
  ultimately have "sound_profile d" using profiles_parallel [of w ?k demo_world j d] by simp
  with run show ?thesis by blast
qed

text \<open>Cleaning a profile drops its empty qualities and leaves the entries of its other lists: they are parallel no
  longer.\<close>

theorem cleaned_profile_not_parallel:
  assumes "w_ok w" "w_live w i = Some p" "parallel p" "dget p ''qualities'' = PList qs" "PStr [] \<in> set qs"
  shows "\<exists>w' d. clean_profile p w = (Inr (), w') \<and> w_live w' i = Some d \<and> \<not> parallel d"
proof -
  let ?qs = "filter (\<lambda>x. x \<noteq> PStr [] \<and> x \<noteq> PStr ''-1'') qs"
  let ?d = "dput p ''qualities'' (PList ?qs)"
  note meta = ws.meta_law [OF assms(1,2)]
  have g: "on_db (db_get i) w = (Inr p, w)" by (rule ws.get_law [OF assms(1,2)])
  have m: "dhas ?d ''_id'' \<and> dget ?d ''_id'' = PStr i \<and> dhas ?d ''_rev'' \<and> dget ?d ''_rev'' = dget p ''_rev''"
    using meta by simp
  from ws.upd_law [OF assms(1,2) m] obtain r v d where
    u: "on_db (db_update ?d) w = (Inr r, v)" "w_live v i = Some d" "\<forall>k. k \<noteq> ''_rev'' \<longrightarrow> dget d k = dget ?d k" by blast
  have q: "dsub p ''qualities'' = Inr (PList qs)" using assms(4) by (auto simp: dsub_def dget_def split: option.splits)
  have "clean_profile p w = (Inr (), v)"
    using g u(1) meta assms(4,5) q by (simp add: clean_profile_def has_empty_quality_def py_simps del: on_db_run)
  moreover have "length ?qs < length qs" using assms(5) by (simp add: length_filter_less)
  then have "\<not> parallel d"
    using u(3) assms(3,4) by (auto simp: parallel_def list_len_def dget_dput split: pv.splits)
  ultimately show ?thesis using u(2) by blast
qed

text \<open>After \<open>forceDefaults\<close> has gone over the active media, each of them has a profile that
  exists, and nothing but the profile of those that had none has changed.\<close>

theorem set_default_repairs:
  assumes "w_ok w" "\<forall>d \<in> set medias. w_live w (doc_id d) = Some d" "distinct (map doc_id medias)"
    and "default_id \<in> set ids"
  shows "\<exists>w'. set_default ids default_id medias w = (Inr (), w') \<and> w_ok w' \<and>
    (\<forall>d \<in> set medias. \<exists>d2. w_live w' (doc_id d) = Some d2 \<and> dget d2 ''profile_id'' \<in> set ids \<and>
       (dget d ''profile_id'' \<in> set ids \<longrightarrow> dget d2 ''profile_id'' = dget d ''profile_id'') \<and>
       (\<forall>k. k \<noteq> ''_rev'' \<longrightarrow> k \<noteq> ''profile_id'' \<longrightarrow> dget d2 k = dget d k)) \<and>
    (\<forall>j. j \<notin> doc_id ` set medias \<longrightarrow> w_live w' j = w_live w j)"
proof -
  have k: "''profile_id'' \<noteq> ''_id''" "''profile_id'' \<noteq> ''_rev''" by simp_all
  from ws.for_each_put [OF assms(1-3) k, of "\<lambda>media. dget media ''profile_id'' \<notin> set ids" default_id]
  obtain w' where w': "set_default ids default_id medias w = (Inr (), w')" "w_ok w'"
    "\<forall>d \<in> set medias. \<exists>d2. w_live w' (doc_id d) = Some d2 \<and>
       dget d2 ''profile_id'' = (if dget d ''profile_id'' \<notin> set ids then default_id else dget d ''profile_id'') \<and>
       (\<forall>k'. k' \<noteq> ''_rev'' \<longrightarrow> k' \<noteq> ''profile_id'' \<longrightarrow> dget d2 k' = dget d k')"
    "\<forall>j. j \<notin> doc_id ` set medias \<longrightarrow> w_live w' j = w_live w j"
    unfolding set_default_def by blast
  have step: "\<exists>d2. w_live w' (doc_id d) = Some d2 \<and> dget d2 ''profile_id'' \<in> set ids \<and>
       (dget d ''profile_id'' \<in> set ids \<longrightarrow> dget d2 ''profile_id'' = dget d ''profile_id'') \<and>
       (\<forall>k. k \<noteq> ''_rev'' \<longrightarrow> k \<noteq> ''profile_id'' \<longrightarrow> dget d2 k = dget d k)" if "d \<in> set medias" for d
  proof -
    from w'(3) that obtain d2 where d2: "w_live w' (doc_id d) = Some d2"
      "dget d2 ''profile_id'' = (if dget d ''profile_id'' \<notin> set ids then default_id else dget d ''profile_id'')"
      "\<forall>k'. k' \<noteq> ''_rev'' \<longrightarrow> k' \<noteq> ''profile_id'' \<longrightarrow> dget d2 k' = dget d k'" by blast
    then show ?thesis using assms(4) by (intro exI [of _ d2]) simp
  qed
  show ?thesis by (intro exI [of _ w'] conjI w'(1,2,4) ballI step)
qed

definition oid :: "char \<Rightarrow> string" where
  "oid c = replicate 32 c"

definition media_doc :: doc where
  "media_doc = [(''_t'', PStr ''media''), (''profile_id'', PStr ''gone''), (''category_id'', PStr ''c1'')]"

definition demo_media_world :: world where
  "demo_media_world = demo_world\<lparr>store := empty_db\<lparr>docs := [(oid (CHR ''m''), Live ''00010000'' media_doc)]\<rparr>\<rparr>"

lemma demo_media_ok: "w_ok demo_media_world"
  by (simp add: w_ok_def demo_media_world_def demo_world_def empty_db_def db_ok_def oid_def rev_ok_def
      hex_val_def is_digit_def cp_def media_doc_def dhas_def)

lemma demo_media_live:
  "w_live demo_media_world (oid (CHR ''m'')) = Some (with_meta (oid (CHR ''m'')) ''00010000'' media_doc)"
  by (simp add: w_live_def live_def lookup_def demo_media_world_def demo_world_def empty_db_def)

theorem set_default_repairs_witness:
  "\<exists>w'. set_default [PStr ''p1''] (PStr ''p1'') [with_meta (oid (CHR ''m'')) ''00010000'' media_doc] demo_media_world = (Inr (), w') \<and>
     (\<exists>d2. w_live w' (oid (CHR ''m'')) = Some d2 \<and> dget d2 ''profile_id'' = PStr ''p1'')"
proof -
  let ?d = "with_meta (oid (CHR ''m'')) ''00010000'' media_doc"
  have "doc_id ?d = oid (CHR ''m'')" by (simp add: doc_id_def)
  then show ?thesis
    using set_default_repairs [OF demo_media_ok, of "[?d]" "PStr ''p1''" "[PStr ''p1'']"] demo_media_live
    by auto
qed

lemma one_key_category: "one_key CategoryMediaIndex"
  by (auto simp: one_key_def CategoryMediaIndex_def split: if_splits)

text \<open>After the media of a category have been released, the category's index is empty, and no
  document has changed in anything but its category.\<close>

theorem removeFromMovie_empties:
  assumes "w_ok w"
  shows "\<exists>w'. removeFromMovie cid w = (Inr (), w') \<and> w_ok w' \<and>
    query ''category_media'' (PStr cid) (store w') = Inr [] \<and>
    (\<forall>j d. w_live w j = Some d \<longrightarrow> (\<exists>d2. w_live w' j = Some d2 \<and>
       (\<forall>k. k \<noteq> ''_rev'' \<longrightarrow> k \<noteq> ''category_id'' \<longrightarrow> dget d2 k = dget d k)))"
proof -
  let ?P = "has_key CategoryMediaIndex (PStr cid)"
  let ?ds = "filter ?P (live_docs (store w))"
  have mk: "make_key ''category_media'' (PStr cid) = PStr cid" by (simp add: make_key_def)
  obtain hs where hs: "query ''category_media'' (PStr cid) (store w) = Inr hs" "map hit_doc hs = ?ds"
    using query_one_key [OF the_index_other(4) one_key_category, of "PStr cid" "store w"] mk by auto
  have ok: "db_ok (store w)" using assms by (simp add: w_ok_def)
  have lv: "w_live w (doc_id d) = Some d" if "d \<in> set (live_docs (store w))" for d
  proof -
    from that set_live_docs [OF ok] obtain i where i: "live (store w) i = Some d" by blast
    with dbs.meta_law [OF ok i] show ?thesis by (simp add: w_live_def doc_id_def)
  qed
  have "distinct (map doc_id ?ds)" by (rule distinct_map_filter) (rule distinct_live_docs [OF ok])
  from ws.for_each_put [OF assms _ this, of "''category_id''" "\<lambda>_. True" PNone] lv
  obtain w' where f: "for_each ?ds (\<lambda>movie. whenp True (bnd (on_db (db_update (dput movie ''category_id'' PNone))) (\<lambda>_. ret ()))) w = (Inr (), w')"
    and ok': "w_ok w'"
    and upd: "\<forall>d \<in> set ?ds. \<exists>d2. w_live w' (doc_id d) = Some d2 \<and> dget d2 ''category_id'' = PNone \<and>
       (\<forall>k'. k' \<noteq> ''_rev'' \<longrightarrow> k' \<noteq> ''category_id'' \<longrightarrow> dget d2 k' = dget d k')"
    and rest: "\<forall>j. j \<notin> doc_id ` set ?ds \<longrightarrow> w_live w' j = w_live w j"
    by auto
  have run: "removeFromMovie cid w = (Inr (), w')"
    using f hs by (simp add: removeFromMovie_def py_simps db_get_many_def)
  have frame: "\<exists>d2. w_live w' j = Some d2 \<and> (\<forall>k. k \<noteq> ''_rev'' \<longrightarrow> k \<noteq> ''category_id'' \<longrightarrow> dget d2 k = dget d k)"
    if j: "w_live w j = Some d" for j d
  proof -
    have "doc_id d = j" using dbs.meta_law [OF ok, of j d] j by (simp add: w_live_def doc_id_def)
    show ?thesis
    proof (cases "j \<in> doc_id ` set ?ds")
      case True
      then obtain e where e: "e \<in> set ?ds" "doc_id e = j" by blast
      then have "w_live w j = Some e" using lv [of e] by simp
      with j e(1) have "d \<in> set ?ds" by simp
      with upd \<open>doc_id d = j\<close> show ?thesis by blast
    next
      case False
      with rest j show ?thesis by simp
    qed
  qed
  have "\<not> ?P d" if d: "live (store w') j = Some d" for j d
  proof (cases "j \<in> doc_id ` set ?ds")
    case True
    then obtain e where "e \<in> set ?ds" "doc_id e = j" by blast
    with upd obtain d2 where "w_live w' j = Some d2" "dget d2 ''category_id'' = PNone" by blast
    with d have "dget d ''category_id'' = PNone" by (simp add: w_live_def)
    then show ?thesis by (simp add: has_key_def CategoryMediaIndex_def)
  next
    case False
    with rest have "w_live w' j = w_live w j" by blast
    with d have j: "live (store w) j = Some d" by (simp add: w_live_def)
    then have "d \<in> set (live_docs (store w))" using set_live_docs [OF ok] by blast
    moreover have "doc_id d = j" using dbs.meta_law [OF ok j] by (simp add: doc_id_def)
    ultimately show ?thesis using False by (metis (mono_tags, lifting) image_eqI mem_Collect_eq set_filter)
  qed
  then have "query ''category_media'' (PStr cid) (store w') = Inr []"
    using query_one_key_Nil [OF the_index_other(4) one_key_category, of "store w'" "PStr cid"] ok' mk
    by (simp add: w_ok_def)
  with run ok' frame show ?thesis by blast
qed

theorem removeFromMovie_empties_witness:
  "\<exists>w'. removeFromMovie ''c1'' demo_media_world = (Inr (), w') \<and>
     query ''category_media'' (PStr ''c1'') (store w') = Inr []"
  using removeFromMovie_empties [OF demo_media_ok, of "''c1''"] by blast

end
