(* ===== verification/ReleaseStore.thy ===== *)
theory ReleaseStore
  imports Profile
begin

text \<open>
  The operations of couchpotato/core/plugins/release/main.py on one release or on the releases of
  one media: changing its status, deleting it, dropping files that are gone, listing by status and
  by media. A generator of the code (\<open>withStatus\<close>) is the list of what it yields when it is run to
  its end. Whether a file exists is the argument \<open>isfile\<close>.
\<close>

section \<open>Reading the documents of a query\<close>

text \<open>\<open>db.get('id', ...)\<close> for every hit; an exception for which \<open>skip\<close> holds drops the hit.\<close>

fun get_docs :: "(exn \<Rightarrow> bool) \<Rightarrow> hit list \<Rightarrow> (world, doc list) py" where
  "get_docs skip [] = ret []"
| "get_docs skip (h # hs) =
     bnd (catch (bnd (liftr (as_str (hit_id h))) (\<lambda>i. bnd (on_db (db_get i)) (\<lambda>d. ret (Some d))))
           (\<lambda>e. if skip e then ret None else raise e)) (\<lambda>o1.
     bnd (get_docs skip hs) (\<lambda>ds. ret (case o1 of None \<Rightarrow> ds | Some d \<Rightarrow> d # ds)))"

lemma get_docs_live:
  assumes "\<forall>h \<in> set hs. \<exists>i. hit_id h = PStr i \<and> live (store w) i = Some (hit_doc h)"
  shows "get_docs skip hs w = (Inr (map hit_doc hs), w)"
  using assms
proof (induction hs)
  case (Cons h hs)
  then obtain i where i: "hit_id h = PStr i" "live (store w) i = Some (hit_doc h)" by auto
  have "on_db (db_get i) w = (Inr (hit_doc h), w)"
    using db_get_live [OF i(2)] by (simp add: py_simps)
  with i Cons show ?case by (simp add: py_simps)
qed (simp add: py_simps)

text \<open>The hits of a query are live documents, so reading them back gives the documents themselves.\<close>

lemma query_hits_live:
  assumes "db_ok s" "query n key s = Inr hs" "h \<in> set hs"
  shows "\<exists>i. hit_id h = PStr i \<and> live s i = Some (hit_doc h)"
proof -
  obtain f where f: "the_index n = Some f" using assms(2) by (auto simp: query_def split: option.splits)
  from query_iff [OF assms(1) f assms(2), of h] assms(3) obtain i d ks val where
    d: "live s i = Some d" "h = mk_hit (make_key n key, val, d)" by blast
  with dbs.meta_law [OF assms(1) d(1)] show ?thesis by (auto simp: mk_hit_def)
qed

section \<open>One release\<close>

text \<open>The name that is logged; computing it can raise, and then the status is not changed.\<close>

definition release_name :: "doc \<Rightarrow> pv res" where
  "release_name rel =
     rbind (if truthy (dget rel ''files'')
            then rbind (as_list (dget rel ''files'')) (\<lambda>types.
                 if PStr ''movie'' \<in> set types
                 then rbind (rbind (vsub (dget rel ''files'') ''movie'') as_list) (\<lambda>fs. case fs of
                        [] \<Rightarrow> Inr PNone | f # _ \<Rightarrow> rbind (as_str f) (\<lambda>p. Inr (PStr (basename p))))
                 else Inr PNone)
            else Inr PNone) (\<lambda>nm.
       if \<not> truthy nm \<and> truthy (dget rel ''info'') then vget (dget rel ''info'') ''name'' else Inr nm)"

definition mark_release :: "doc \<Rightarrow> string \<Rightarrow> int \<Rightarrow> doc" where
  "mark_release rel status t = dput (dput rel ''status'' (PStr status)) ''last_edit'' (PInt t)"

definition updateStatus :: "string \<Rightarrow> string \<Rightarrow> (world, bool) py" where
  "updateStatus release_id status =
     (if status = [] then ret False else
      catch
        (bnd (on_db (db_get release_id)) (\<lambda>rel.
         bnd (if rel \<noteq> [] \<and> dget rel ''status'' \<noteq> PStr status
              then bnd (liftr (release_name rel)) (\<lambda>_.
                   bnd (gets now) (\<lambda>t.
                   bnd (on_db (db_update (mark_release rel status t))) (\<lambda>r.
                   fire_unit ''notify.frontend''
                     [PStr ''release.update_status'', PDict (dupdate (mark_release rel status t) r)])))
              else ret ()) (\<lambda>_. ret True)))
        (\<lambda>_. ret False))"

definition delete_release :: "string \<Rightarrow> (world, bool) py" where
  "delete_release release_id =
     catch
       (bnd (on_db (db_get release_id)) (\<lambda>rel. bnd (on_db (db_delete rel)) (\<lambda>_. ret True)))
       (\<lambda>e. if e = RecordDeleted then ret True else ret False)"

definition existing_files :: "(string \<Rightarrow> bool) \<Rightarrow> doc \<Rightarrow> doc res" where
  "existing_files isfile raw_files =
     rbind (mapr (\<lambda>(file_type, v).
         rbind (as_list v) (\<lambda>fs. rbind (filterr (\<lambda>f. rbind (as_str f) (\<lambda>p. Inr (isfile (sp p)))) fs) (\<lambda>found.
           Inr (if found = [] then [] else [(file_type, PList found)])))) raw_files)
       (\<lambda>parts. Inr (concat parts))"

definition clean_release :: "(string \<Rightarrow> bool) \<Rightarrow> string \<Rightarrow> (world, bool) py" where
  "clean_release isfile release_id =
     catch
       (bnd (on_db (db_get release_id)) (\<lambda>rel.
        bnd (liftr (as_dict (dget rel ''files''))) (\<lambda>raw_files.
        bnd (if raw_files = [] then bnd (delete_release release_id) (\<lambda>_. ret ())
             else bnd (liftr (existing_files isfile raw_files)) (\<lambda>files.
                  bnd (on_db (db_update (dput rel ''files'' (PDict files)))) (\<lambda>_. ret ()))) (\<lambda>_.
        ret True))))
       (\<lambda>_. ret False)"

definition ignore_release :: "string option \<Rightarrow> (world, bool) py" where
  "ignore_release i =
     catch
       (case i of
          None \<Rightarrow> ret True
        | Some r \<Rightarrow>
            (if r = [] then ret True else
             bnd (on_db (db_get r)) (\<lambda>rel.
             bnd (liftr (dsub rel ''status'')) (\<lambda>st.
             bnd (updateStatus r (if st \<in> {PStr ''ignored'', PStr ''failed''} then ''available'' else ''ignored'')) (\<lambda>_.
             ret True)))))
       (\<lambda>_. ret False)"

section \<open>Lists of releases\<close>

definition release_with_status :: "string list \<Rightarrow> (world, doc list) py" where
  "release_with_status status =
     bnd (for_acc status [] (\<lambda>s acc.
       bnd (on_db (db_get_many ''release_status'' (PStr s))) (\<lambda>hs.
       bnd (get_docs (\<lambda>e. e = RecordNotFound) hs) (\<lambda>ds. ret (Go (acc @ ds)))))) ret"

text \<open>\<open>withStatus\<close> with \<open>with_doc = False\<close>: the hits of the index, which carry the media's id.\<close>

definition release_hits_with_status :: "string list \<Rightarrow> (world, hit list) py" where
  "release_hits_with_status status =
     bnd (for_acc status [] (\<lambda>s acc.
       bnd (on_db (db_get_many ''release_status'' (PStr s))) (\<lambda>hs. ret (Go (acc @ hs))))) ret"

text \<open>\<open>sorted(..., reverse = True)\<close> by a number: comparing anything else raises.\<close>

definition sort_num_desc :: "(doc \<Rightarrow> pv res) \<Rightarrow> doc list \<Rightarrow> doc list res" where
  "sort_num_desc k ds =
     rbind (mapr (\<lambda>d. rbind (k d) (\<lambda>v. Inr (v, d))) ds) (\<lambda>kds.
       if length kds \<le> 1 then Inr ds
       else rbind (mapr (\<lambda>(v, d). rbind (num_res v) (\<lambda>r. Inr (r, d))) kds) (\<lambda>rds.
            Inr (map snd (sorted_by_rev fst rds))))"

definition info_get :: "string \<Rightarrow> pv \<Rightarrow> doc \<Rightarrow> pv res" where
  "info_get k dflt d = vgetd (dgetd d ''info'' (PDict [])) k dflt"

text \<open>\<open>sorted(..., key = lambda d: k(d)[:3], reverse = descending)\<close>, on texts.\<close>

definition sort_text :: "(doc \<Rightarrow> pv res) \<Rightarrow> bool \<Rightarrow> doc list \<Rightarrow> doc list res" where
  "sort_text k descending ds =
     rbind (mapr (\<lambda>d. rbind (k d) (\<lambda>v. rbind (as_str v) (\<lambda>p. Inr (take 3 p, d)))) ds)
       (\<lambda>kds. Inr (map snd (if descending then sorted_by_rev fst kds else sorted_by fst kds)))"

definition sort_by_protocol :: "bool \<Rightarrow> doc list \<Rightarrow> doc list res" where
  "sort_by_protocol torrent_first ds = sort_text (info_get ''protocol'' (PStr [])) torrent_first ds"

definition forMedia :: "string \<Rightarrow> (world, doc list) py" where
  "forMedia media_id =
     bnd (on_db (db_get_many ''release'' (PStr media_id))) (\<lambda>raw_releases.
     bnd (get_docs (\<lambda>e. e = RecordDeleted \<or> e = ValueError \<or> e = EOFError) raw_releases) (\<lambda>releases.
     bnd (liftr (sort_num_desc (info_get ''score'' (PInt 0)) releases)) (\<lambda>releases.
     bnd (gets (\<lambda>w. conf w ''searcher'' ''preferred_method'')) (\<lambda>download_preference.
     if download_preference \<noteq> PStr ''both''
     then liftr (sort_by_protocol (download_preference = PStr ''torrent'') releases)
     else ret releases))))"

text \<open>The event \<open>release.for_media\<close> as other components fire it.\<close>

definition forMedia_event :: "string \<Rightarrow> (world, pv) py" where
  "forMedia_event media_id = call_handler (bnd (forMedia media_id) (\<lambda>ds. ret (PList (map PDict ds))))"

section \<open>Properties\<close>

lemma sort_num_desc_mset: "sort_num_desc k ds = Inr es \<Longrightarrow> mset es = mset ds"
proof -
  assume a: "sort_num_desc k ds = Inr es"
  then obtain kds where kds: "mapr (\<lambda>d. rbind (k d) (\<lambda>v. Inr (v, d))) ds = Inr kds"
    by (auto simp: sort_num_desc_def rbind_eq_Inr)
  have snd_kds: "mapr (\<lambda>d. rbind (k d) (\<lambda>v. Inr (v, d))) xs = Inr ys \<Longrightarrow> map snd ys = xs" for xs ys
    by (induction xs arbitrary: ys) (auto simp: rbind_eq_Inr)
  have snd_rds: "mapr (\<lambda>(v, d). rbind (num_res v) (\<lambda>r. Inr (r, d))) xs = Inr ys \<Longrightarrow> map snd ys = map snd xs"
    for xs :: "(pv \<times> doc) list" and ys
    by (induction xs arbitrary: ys) (auto simp: rbind_eq_Inr)
  show ?thesis
  proof (cases "length kds \<le> 1")
    case True
    with a kds show ?thesis by (simp add: sort_num_desc_def)
  next
    case False
    with a kds obtain rds where r: "mapr (\<lambda>(v, d). rbind (num_res v) (\<lambda>r. Inr (r, d))) kds = Inr rds"
      "es = map snd (sorted_by_rev fst rds)" by (auto simp: sort_num_desc_def rbind_eq_Inr)
    then have "mset es = mset (map snd rds)" by (metis mset_map mset_sorted_by_rev)
    also have "map snd rds = ds" using snd_rds [OF r(1)] snd_kds [OF kds] by simp
    finally show ?thesis .
  qed
qed

lemma sort_text_mset: "sort_text k b ds = Inr es \<Longrightarrow> mset es = mset ds"
proof -
  assume "sort_text k b ds = Inr es"
  then obtain kds where kds: "mapr (\<lambda>d. rbind (k d) (\<lambda>v. rbind (as_str v) (\<lambda>p. Inr (take 3 p, d)))) ds = Inr kds"
    and es: "es = map snd (if b then sorted_by_rev fst kds else sorted_by fst kds)"
    by (auto simp: sort_text_def rbind_eq_Inr)
  have "mapr (\<lambda>d. rbind (k d) (\<lambda>v. rbind (as_str v) (\<lambda>p. Inr (take 3 p, d)))) xs = Inr ys \<Longrightarrow> map snd ys = xs"
    for xs ys
    by (induction xs arbitrary: ys) (auto simp: rbind_eq_Inr)
  from this [OF kds] have "mset (map snd kds) = mset ds" by simp
  with es show ?thesis by (cases b) (simp_all add: mset_map [symmetric] del: mset_map, simp_all)
qed

lemma sort_by_protocol_mset: "sort_by_protocol b ds = Inr es \<Longrightarrow> mset es = mset ds"
  by (simp add: sort_by_protocol_def sort_text_mset)

lemma one_key_release: "one_key ReleaseIndex"
  by (auto simp: one_key_def ReleaseIndex_def split: if_splits)

text \<open>C26: the releases listed for a media are exactly the live release documents that belong to it,
  each once, in whatever order the preferences ask for; listing changes nothing.\<close>

theorem forMedia_complete:
  assumes "w_ok w" "forMedia mid w = (Inr rels, w')" "mid \<noteq> []"
  shows "w' = w \<and> distinct rels \<and>
    (\<forall>d. d \<in> set rels \<longleftrightarrow> (\<exists>i. w_live w i = Some d) \<and> dget d ''_t'' = PStr ''release'' \<and>
       dget d ''media_id'' = PStr mid)"
proof -
  have ok: "db_ok (store w)" using assms(1) by (simp add: w_ok_def)
  have mk: "make_key ''release'' (PStr mid) = PStr mid" by (simp add: make_key_def)
  obtain hs where hs: "query ''release'' (PStr mid) (store w) = Inr hs"
    "map hit_doc hs = filter (has_key ReleaseIndex (PStr mid)) (live_docs (store w))"
    using query_one_key [OF the_index_release(1) one_key_release, of "PStr mid" "store w"] mk by auto
  have g: "get_docs sk hs w = (Inr (map hit_doc hs), w)" for sk
    by (rule get_docs_live) (use query_hits_live [OF ok hs(1)] in blast)
  let ?ds = "map hit_doc hs"
  have run: "forMedia mid w = (rbind (sort_num_desc (info_get ''score'' (PInt 0)) ?ds) (\<lambda>rs.
      if conf w ''searcher'' ''preferred_method'' \<noteq> PStr ''both''
      then sort_by_protocol (conf w ''searcher'' ''preferred_method'' = PStr ''torrent'') rs else Inr rs), w)"
    using hs(1) g by (simp add: forMedia_def py_simps db_get_many_def split: sum.split)
  with assms(2) have w': "w' = w" by simp
  let ?pref = "\<lambda>rs. if conf w ''searcher'' ''preferred_method'' \<noteq> PStr ''both''
      then sort_by_protocol (conf w ''searcher'' ''preferred_method'' = PStr ''torrent'') rs else Inr rs"
  have "rbind (sort_num_desc (info_get ''score'' (PInt 0)) ?ds) ?pref = Inr rels"
    using run assms(2) by simp
  then obtain rs where rs: "sort_num_desc (info_get ''score'' (PInt 0)) ?ds = Inr rs" "?pref rs = Inr rels"
    unfolding rbind_eq_Inr by blast
  then have m: "mset rels = mset ?ds"
    using sort_num_desc_mset sort_by_protocol_mset by (auto split: if_splits)
  have "distinct (live_docs (store w))"
    using distinct_live_docs [OF ok] by (simp add: distinct_map)
  then have "distinct rels" using m hs(2) by (metis distinct_filter mset_eq_imp_distinct_iff)
  moreover have "d \<in> set rels \<longleftrightarrow> (\<exists>i. w_live w i = Some d) \<and> dget d ''_t'' = PStr ''release'' \<and>
       dget d ''media_id'' = PStr mid" for d
  proof -
    have "d \<in> set rels \<longleftrightarrow> d \<in> set (live_docs (store w)) \<and> has_key ReleaseIndex (PStr mid) d"
      using mset_eq_setD [OF m] hs(2) by auto
    also have "has_key ReleaseIndex (PStr mid) d \<longleftrightarrow>
        dget d ''_t'' = PStr ''release'' \<and> dget d ''media_id'' = PStr mid"
      using assms(3) by (auto simp: has_key_def ReleaseIndex_def is_type_def)
    finally show ?thesis using set_live_docs [OF ok] by (simp add: w_live_def)
  qed
  ultimately show ?thesis using w' by blast
qed

text \<open>Marking a release writes its new status and the time, keeps every other field and every
  other document, and tells the interface; marking it with the status it has does nothing.\<close>

theorem updateStatus_effect:
  assumes "w_ok w" "w_live w i = Some d" "status \<noteq> []" "release_name d = Inr nm"
  shows "\<exists>w'. updateStatus i status w = (Inr True, w') \<and> w_ok w' \<and>
    (if dget d ''status'' = PStr status then w' = w
     else (\<exists>d2. w_live w' i = Some d2 \<and> dget d2 ''status'' = PStr status \<and> dget d2 ''last_edit'' = PInt (now w) \<and>
         (\<forall>k. k \<notin> {''status'', ''last_edit'', ''_rev''} \<longrightarrow> dget d2 k = dget d k)) \<and>
       (\<forall>j. j \<noteq> i \<longrightarrow> w_live w' j = w_live w j) \<and> length (fired w') = Suc (length (fired w)))"
proof -
  have g: "on_db (db_get i) w = (Inr d, w)" by (rule ws.get_law [OF assms(1,2)])
  have ne: "d \<noteq> []" using ws.meta_law [OF assms(1,2)] by (auto simp: dhas_def)
  show ?thesis
  proof (cases "dget d ''status'' = PStr status")
    case True
    then show ?thesis using g assms(1,3) by (simp add: updateStatus_def py_simps del: on_db_run)
  next
    case False
    let ?d = "mark_release d status (now w)"
    have meta: "dhas ?d ''_id'' \<and> dget ?d ''_id'' = PStr i \<and> dhas ?d ''_rev'' \<and> dget ?d ''_rev'' = dget d ''_rev''"
      using ws.meta_law [OF assms(1,2)] by (simp add: mark_release_def)
    from ws.upd_law [OF assms(1,2) meta] obtain r v d2 where
      u: "on_db (db_update ?d) w = (Inr r, v)" "w_ok v" "w_live v i = Some d2"
        "\<forall>k. k \<noteq> ''_rev'' \<longrightarrow> dget d2 k = dget ?d k" "\<forall>j. j \<noteq> i \<longrightarrow> w_live v j = w_live w j" by blast
    have f: "fired v = fired w" using u(1) by (auto simp: on_db_def split: prod.splits)
    let ?w' = "v\<lparr>fired := fired v @ [(''notify.frontend'', [PStr ''release.update_status'', PDict (dupdate ?d r)])]\<rparr>"
    have run: "updateStatus i status w = (Inr True, ?w')"
      using g u(1) assms(3,4) False ne by (simp add: updateStatus_def py_simps del: on_db_run)
    have "w_live ?w' j = w_live v j" for j by (simp add: w_live_def)
    moreover have "w_ok ?w'" using u(2) by (simp add: w_ok_def)
    moreover have "dget d2 ''status'' = PStr status \<and> dget d2 ''last_edit'' = PInt (now w) \<and>
        (\<forall>k. k \<notin> {''status'', ''last_edit'', ''_rev''} \<longrightarrow> dget d2 k = dget d k)"
      using u(4) by (auto simp: mark_release_def dget_dput)
    ultimately show ?thesis using run u(3,5) f False by (intro exI [of _ ?w']) auto
  qed
qed

definition rel_doc :: doc where
  "rel_doc = [(''_t'', PStr ''release''), (''media_id'', PStr (oid (CHR ''m''))), (''status'', PStr ''available''),
     (''quality'', PStr ''720p''), (''last_edit'', PInt 0), (''info'', PDict [(''score'', PInt 5)])]"

definition demo_release_world :: world where
  "demo_release_world = demo_world\<lparr>store := empty_db\<lparr>docs :=
     [(oid (CHR ''m''), Live ''00010000'' media_doc), (oid (CHR ''r''), Live ''00010000'' rel_doc)]\<rparr>\<rparr>"

lemma demo_release_ok: "w_ok demo_release_world"
  by (simp add: w_ok_def demo_release_world_def demo_world_def empty_db_def db_ok_def oid_def rev_ok_def
      hex_val_def is_digit_def cp_def media_doc_def rel_doc_def dhas_def)

lemma oid_neq: "c \<noteq> d \<Longrightarrow> oid c \<noteq> oid d"
  by (simp add: oid_def)

lemma demo_release_live:
  "w_live demo_release_world (oid (CHR ''r'')) = Some (with_meta (oid (CHR ''r'')) ''00010000'' rel_doc)"
  by (simp add: w_live_def live_def lookup_def demo_release_world_def demo_world_def empty_db_def oid_neq)

theorem updateStatus_effect_witness:
  "\<exists>w'. updateStatus (oid (CHR ''r'')) ''snatched'' demo_release_world = (Inr True, w') \<and>
     (\<exists>d2. w_live w' (oid (CHR ''r'')) = Some d2 \<and> dget d2 ''status'' = PStr ''snatched'')"
proof -
  let ?d = "with_meta (oid (CHR ''r'')) ''00010000'' rel_doc"
  have "release_name ?d = Inr PNone" by (simp add: release_name_def rel_doc_def with_meta_def dput_def dget_def)
  moreover have "dget ?d ''status'' = PStr ''available''" by (simp add: rel_doc_def dget_def with_meta_def dput_def)
  ultimately show ?thesis
    using updateStatus_effect [OF demo_release_ok demo_release_live, of "''snatched''"] by auto
qed

lemma forMedia_single:
  assumes "w_ok w" "filter (has_key ReleaseIndex (PStr mid)) (live_docs (store w)) = [d]"
    and "dgetd d ''info'' (PDict []) = PDict nfo" "dgetd nfo ''protocol'' (PStr []) = PStr p"
    and "conf w ''searcher'' ''preferred_method'' = PNone"
  shows "forMedia mid w = (Inr [d], w)"
proof -
  have ok: "db_ok (store w)" using assms(1) by (simp add: w_ok_def)
  obtain hs where hs: "query ''release'' (PStr mid) (store w) = Inr hs" "map hit_doc hs = [d]"
    using query_one_key [OF the_index_release(1) one_key_release, of "PStr mid" "store w"] assms(2)
    by (auto simp: make_key_def)
  have g: "get_docs sk hs w = (Inr [d], w)" for sk
    using get_docs_live [of hs w sk] query_hits_live [OF ok hs(1)] hs(2) by simp
  have s1: "sort_num_desc (info_get ''score'' (PInt 0)) [d] = Inr [d]"
    using assms(3) by (simp add: sort_num_desc_def info_get_def)
  have s2: "sort_by_protocol False [d] = Inr [d]"
    using assms(3,4) by (simp add: sort_by_protocol_def sort_text_def info_get_def sorted_by_def)
  show ?thesis
    using hs(1) g s1 s2 assms(5) by (simp add: forMedia_def py_simps db_get_many_def)
qed

lemma demo_settings_preferred:
  "get_setting demo_settings ''preferred_method'' ''searcher'' PNone PNone = PNone"
  by (simp add: get_setting_def isOptionMeta_def optionMetaSuffix_def endswith_def suffix_def
      getType_def demo_settings_def get_by_type_def getUnicode_def
      p_get_def lower_def lower_char_def is_upper_az_def cp_def)

lemma demo_forMedia:
  "forMedia (oid (CHR ''m'')) demo_release_world =
     (Inr [with_meta (oid (CHR ''r'')) ''00010000'' rel_doc], demo_release_world)"
proof (rule forMedia_single [OF demo_release_ok, where p = "[]" and nfo = "[(''score'', PInt 5)]"])
  show "conf demo_release_world ''searcher'' ''preferred_method'' = PNone"
    by (simp add: conf_def demo_release_world_def demo_world_def demo_settings_preferred)
  have ne: "oid (CHR ''m'') \<noteq> []" by (simp add: oid_def)
  show "filter (has_key ReleaseIndex (PStr (oid (CHR ''m'')))) (live_docs (store demo_release_world)) =
      [with_meta (oid (CHR ''r'')) ''00010000'' rel_doc]"
    using ne by (simp add: live_docs_def demo_release_world_def demo_world_def empty_db_def has_key_def
        ReleaseIndex_def is_type_def rel_doc_def media_doc_def doc_eval)
qed (simp_all add: rel_doc_def doc_eval)

theorem forMedia_complete_witness:
  "\<exists>rels. forMedia (oid (CHR ''m'')) demo_release_world = (Inr rels, demo_release_world) \<and> distinct rels \<and>
     with_meta (oid (CHR ''r'')) ''00010000'' rel_doc \<in> set rels"
  using forMedia_complete [OF demo_release_ok demo_forMedia] demo_forMedia by (auto simp: oid_def)

end
