(* ===== verification/Media.thy ===== *)
theory Media
  imports ReleaseStore
begin

text \<open>
  couchpotato/core/media/_base/media/main.py: looking media up, listing them with filters and
  pages, tagging, deciding their status from their releases (\<open>restatus\<close>) and deleting them. Sets of
  ids are lists without duplicates. \<open>fireEvent\<close> of another component of the model is a call of its
  definition through \<open>call_handler\<close> or a \<open>catch\<close>.
\<close>

section \<open>Looking up\<close>

definition media_get :: "string \<Rightarrow> (world, doc option) py" where
  "media_get media_id =
     catch
       (bnd (liftr (getImdb (\<lambda>_. None) media_id False)) (\<lambda>imdb_id.
        bnd (case imdb_id of
               Some t \<Rightarrow> bnd (on_db (db_get_by ''media'' (PStr (''imdb-'' @ t)))) (\<lambda>h. ret (hit_doc h))
             | None \<Rightarrow> on_db (db_get media_id)) (\<lambda>media.
        bnd (catch (bnd (liftr (as_str (dget media ''category_id''))) (\<lambda>c. bnd (on_db (db_get c)) (\<lambda>d.
                ret (dput media ''category'' (PDict d))))) (\<lambda>_. ret media)) (\<lambda>media1.
        bnd (liftr (rbind (dsub media1 ''_id'') as_str)) (\<lambda>i.
        bnd (forMedia_event i) (\<lambda>rels. ret (Some (dput media1 ''releases'' rels))))))))
       (\<lambda>e. if e = RecordNotFound \<or> e = RecordDeleted then ret None else raise e)"

definition media_get_event :: "string \<Rightarrow> (world, doc option) py" where
  "media_get_event media_id = catch (media_get media_id) (\<lambda>_. ret None)"

definition media_with_status :: "string list \<Rightarrow> pv list \<Rightarrow> (world, doc list) py" where
  "media_with_status status typs =
     bnd (for_acc status [] (\<lambda>s acc.
       bnd (on_db (db_get_many ''media_status'' (PStr s))) (\<lambda>hs.
       bnd (get_docs (\<lambda>e. e \<in> {RecordDeleted, RecordNotFound, ValueError, EOFError}) hs) (\<lambda>ds.
       ret (Go (acc @ filter (\<lambda>d. typs = [] \<or> dget d ''type'' \<in> set typs) ds)))))) ret"

definition media_ids_with_status :: "string list \<Rightarrow> (world, pv list) py" where
  "media_ids_with_status status =
     bnd (for_acc status [] (\<lambda>s acc.
       bnd (on_db (db_get_many ''media_status'' (PStr s))) (\<lambda>hs. ret (Go (acc @ map hit_id hs))))) ret"

fun withIdentifiers :: "(string \<times> pv) list \<Rightarrow> (world, doc option) py" where
  "withIdentifiers [] = ret None"
| "withIdentifiers ((x, v) # rest) =
     bnd (catch (bnd (on_db (db_get_by ''media'' (PStr (x @ ''-'' @ fmt v)))) (\<lambda>h. ret (Some (hit_doc h))))
            (\<lambda>_. ret None)) (\<lambda>r. case r of Some d \<Rightarrow> ret (Some d) | None \<Rightarrow> withIdentifiers rest)"

definition cleanupFaults :: "(world, unit) py" where
  "cleanupFaults =
     bnd (catch (media_with_status [''ignored''] []) (\<lambda>_. ret [])) (\<lambda>medias.
     for_each medias (\<lambda>media.
       catch (bnd (on_db (db_update (dput media ''status'' (PStr ''done'')))) (\<lambda>_. ret ())) (\<lambda>_. ret ())))"

section \<open>Listing\<close>

definition ids_of :: "string \<Rightarrow> pv \<Rightarrow> (world, pv list) py" where
  "ids_of ix key = bnd (on_db (db_get_many ix key)) (\<lambda>hs. ret (map hit_id hs))"

definition all_media_ids :: "string list \<Rightarrow> (world, pv list) py" where
  "all_media_ids typs =
     bnd (if typs \<noteq> [] then for_acc typs [] (\<lambda>t acc. bnd (ids_of ''media_by_type'' (PStr t)) (\<lambda>is. ret (Go (acc @ is))))
          else bnd (on_db (db_all ''media'' (- 1) 0)) (\<lambda>hs. ret (map hit_id hs))) (\<lambda>is. ret (remdups is))"

record list_query =
  lq_types :: "string list"
  lq_status :: "string list"
  lq_release_status :: "string list"
  lq_status_or :: bool
  lq_limit_offset :: string
  lq_with_tags :: "string list"
  lq_starts_with :: string
  lq_search :: string

text \<open>The filters in the order they are put into \<open>filter_by\<close>; each is the list of ids it admits.\<close>

definition when_list :: "bool \<Rightarrow> (world, pv list) py \<Rightarrow> (world, pv list list) py" where
  "when_list b m = (if b then bnd m (\<lambda>x. ret [x]) else ret [])"

definition media_filters :: "list_query \<Rightarrow> (world, pv list list) py" where
  "media_filters q =
     bnd (when_list (lq_status q \<noteq> []) (media_ids_with_status (lq_status q))) (\<lambda>st.
     bnd (when_list (lq_release_status q \<noteq> [])
            (bnd (release_hits_with_status (lq_release_status q)) (\<lambda>hs.
             ret (map (\<lambda>h. dget (hit_value h) ''media_id'') hs)))) (\<lambda>rs.
     bnd (when_list (lq_starts_with q \<noteq> [])
            (let c = take 1 (lower (lq_starts_with q))
             in ids_of ''media_startswith'' (PStr (if list_all is_lower_az c then c else ''#'')))) (\<lambda>sw.
     bnd (when_list (lq_with_tags q \<noteq> [])
            (for_acc (lq_with_tags q) [] (\<lambda>t acc. bnd (ids_of ''media_tag'' (PStr t)) (\<lambda>is. ret (Go (acc @ is)))))) (\<lambda>tg.
     bnd (when_list (lq_search q \<noteq> []) (ids_of ''media_search_title'' (PStr (lq_search q)))) (\<lambda>se.
     ret (if lq_status_or q \<and> st \<noteq> [] \<and> rs \<noteq> []
          then sw @ tg @ se @ [concat st @ concat rs]
          else st @ rs @ sw @ tg @ se))))))"

definition keep_in :: "pv list list \<Rightarrow> pv list \<Rightarrow> pv list" where
  "keep_in filters ids = foldl (\<lambda>is f. filter (\<lambda>n. n \<in> set f) is) ids filters"

definition list_page :: "string \<Rightarrow> (int \<times> int) res" where
  "list_page limit_offset =
     (if limit_offset = [] then Inr (- 1, 0)
      else (case splitString limit_offset '','' True of
          [] \<Rightarrow> Inl IndexError
        | [l] \<Rightarrow> Inr (tryInt (PStr l) 0, 0)
        | l # off # _ \<Rightarrow> Inr (tryInt (PStr l) 0, tryInt (PStr off) 0)))"

record list_state =
  ls_offset :: int
  ls_medias :: "doc list"
  ls_ids :: "pv list"

definition list_step :: "int \<Rightarrow> hit \<Rightarrow> list_state \<Rightarrow> (world, list_state ctl) py" where
  "list_step limit m st =
     (if hit_id m \<notin> set (ls_ids st) then ret (Go st)
      else if 0 < ls_offset st then ret (Go (st\<lparr>ls_offset := ls_offset st - 1\<rparr>))
      else bnd (media_get_event (str_or_empty (hit_id m))) (\<lambda>media. case media of
          None \<Rightarrow> ret (Go st)
        | Some d \<Rightarrow>
            (let st' = st\<lparr>ls_medias := ls_medias st @ [d], ls_ids := remove1 (hit_id m) (ls_ids st)\<rparr>
             in ret (if ls_ids st' = [] \<or> int (length (ls_medias st')) = limit then Brk st' else Go st'))))"

definition media_list :: "list_query \<Rightarrow> (world, nat \<times> doc list) py" where
  "media_list q =
     bnd (all_media_ids (lq_types q)) (\<lambda>all_ids.
     bnd (media_filters q) (\<lambda>filters.
       let ids = keep_in filters all_ids in
       if ids = [] then ret (0, [])
       else bnd (liftr (list_page (lq_limit_offset q))) (\<lambda>(limit, offset).
         bnd (on_db (db_all ''media_title'' (- 1) 0)) (\<lambda>ms.
         bnd (for_acc ms \<lparr>ls_offset = offset, ls_medias = [], ls_ids = ids\<rparr> (list_step limit)) (\<lambda>st.
         ret (length ids, ls_medias st))))))"

definition listView :: "doc \<Rightarrow> (world, doc) py" where
  "listView kwargs =
     (let str = (\<lambda>k. str_or_empty (dget kwargs k)); split = (\<lambda>k. splitString (str k) '','' True);
          q = \<lparr>lq_types = split ''type'', lq_status = split ''status'',
               lq_release_status = split ''release_status'', lq_status_or = dget kwargs ''status_or'' \<noteq> PNone,
               lq_limit_offset = str ''limit_offset'', lq_with_tags = split ''with_tags'',
               lq_starts_with = str ''starts_with'', lq_search = str ''search''\<rparr>
      in bnd (media_list q) (\<lambda>(total_movies, movies).
         ret [(''success'', PBool True), (''empty'', PBool (movies = [])),
              (''total'', PInt (int total_movies)), (''movies'', PList (map PDict movies))]))"

fun take_chars :: "pv list \<Rightarrow> pv list \<Rightarrow> hit list \<Rightarrow> pv list" where
  "take_chars ids acc [] = acc"
| "take_chars ids acc (h # hs) =
     (let acc' = (if hit_id h \<in> set ids then (if hit_key h \<in> set acc then acc else acc @ [hit_key h]) else acc)
      in if length acc' = 27 then acc' else take_chars ids acc' hs)"

definition availableChars :: "string list \<Rightarrow> string list \<Rightarrow> string list \<Rightarrow> (world, pv list) py" where
  "availableChars typs status release_status =
     bnd (all_media_ids typs) (\<lambda>all_ids.
     bnd (media_filters \<lparr>lq_types = typs, lq_status = status, lq_release_status = release_status,
            lq_status_or = False, lq_limit_offset = [], lq_with_tags = [], lq_starts_with = [], lq_search = []\<rparr>) (\<lambda>filters.
     bnd (on_db (db_all ''media_startswith'' (- 1) 0)) (\<lambda>hs.
     ret (take_chars (keep_in filters all_ids) [] hs))))"

section \<open>Tags\<close>

definition tags_of :: "doc \<Rightarrow> pv list res" where
  "tags_of m = (if truthy (dget m ''tags'') then as_list (dget m ''tags'') else Inr [])"

definition media_tag :: "string \<Rightarrow> string \<Rightarrow> bool \<Rightarrow> (world, bool) py" where
  "media_tag media_id tag update_edited =
     catch
       (bnd (on_db (db_get media_id)) (\<lambda>m0.
        bnd (gets now) (\<lambda>t.
        let m = (if update_edited then dput m0 ''last_edit'' (PInt t) else m0) in
        bnd (liftr (tags_of m)) (\<lambda>tags.
        bnd (whenp (PStr tag \<notin> set tags)
               (bnd (on_db (db_update (dput m ''tags'' (PList (tags @ [PStr tag]))))) (\<lambda>_. ret ()))) (\<lambda>_.
        ret True)))))
       (\<lambda>_. ret False)"

definition media_untag :: "string \<Rightarrow> string \<Rightarrow> (world, bool) py" where
  "media_untag media_id tag =
     catch
       (bnd (on_db (db_get media_id)) (\<lambda>m.
        bnd (liftr (tags_of m)) (\<lambda>tags.
        bnd (whenp (PStr tag \<in> set tags)
               (bnd (on_db (db_update (dput m ''tags'' (PList (remove1 (PStr tag) (remdups tags)))))) (\<lambda>_. ret ()))) (\<lambda>_.
        ret True))))
       (\<lambda>_. ret False)"

section \<open>Status\<close>

text \<open>\<open>timedelta(seconds = s).days\<close>.\<close>

definition days :: "rat \<Rightarrow> int" where
  "days s = \<lfloor>s / 86400\<rfloor>"

fun any_finishes :: "int \<Rightarrow> pv \<Rightarrow> doc list \<Rightarrow> bool res" where
  "any_finishes t profile [] = Inr False"
| "any_finishes t profile (r # rs) =
     rbind (dsub r ''quality'') (\<lambda>q. rbind (rbind (dsub r ''last_edit'') num_res) (\<lambda>e.
       if isFinish [(''identifier'', q), (''is_3d'', dgetd r ''is_3d'' (PBool False))] profile
            (PInt (days (of_int t - e)))
       then Inr True else any_finishes t profile rs))"

text \<open>The status \<open>restatus\<close> computes from a media and its releases.\<close>

definition new_status :: "doc \<Rightarrow> pv \<Rightarrow> (world, pv) py" where
  "new_status m previous_status =
     bnd (liftr (dsub m ''profile_id'')) (\<lambda>pid.
       if \<not> truthy pid then ret (PStr ''done'')
       else catch
         (bnd (liftr (as_str pid)) (\<lambda>p.
          bnd (on_db (db_get p)) (\<lambda>profile.
          bnd (liftr (rbind (dsub m ''_id'') as_str)) (\<lambda>i.
          bnd (forMedia_event i) (\<lambda>rv.
          bnd (liftr (rbind (as_list rv) (mapr as_dict))) (\<lambda>rels.
          bnd (gets now) (\<lambda>t.
            let done_releases = filter (\<lambda>r. dget r ''status'' = PStr ''done'') rels in
            if done_releases \<noteq> []
            then bnd (liftr (any_finishes t (PDict profile) done_releases)) (\<lambda>fin.
                 ret (PStr (if fin then ''done'' else ''active'')))
            else if previous_status = PStr ''done'' then ret (PStr ''done'')
            else ret (PStr ''active''))))))))
         (\<lambda>e. if e = RecordNotFound then ret previous_status else raise e))"

definition restatus :: "string \<Rightarrow> bool \<Rightarrow> string list \<Rightarrow> (world, pv) py" where
  "restatus media_id tag_recent allowed_restatus =
     catch
       (bnd (on_db (db_get media_id)) (\<lambda>m.
        bnd (liftr (dsub m ''status'')) (\<lambda>previous_status.
        bnd (new_status m previous_status) (\<lambda>st.
        bnd (whenp (previous_status \<noteq> st \<and> (allowed_restatus = [] \<or> st \<in> set (map PStr allowed_restatus)))
               (bnd (on_db (db_update (dput m ''status'' st))) (\<lambda>_.
                whenp tag_recent (bnd (media_tag media_id ''recent'' True) (\<lambda>_. ret ()))))) (\<lambda>_.
        ret st)))))
       (\<lambda>_. ret PNone)"

section \<open>Deleting\<close>

definition delete_some :: "string \<Rightarrow> doc \<Rightarrow> doc list \<Rightarrow> (world, nat \<times> bool) py" where
  "delete_some delete_from media rels =
     for_acc rels (0, False) (\<lambda>release (total_deleted, to_done).
       if delete_from \<in> {''wanted'', ''snatched'', ''late''}
       then (if dget release ''status'' \<noteq> PStr ''done''
             then bnd (on_db (db_delete release)) (\<lambda>_. ret (Go (total_deleted + 1, True)))
             else ret (Go (total_deleted, True)))
       else if delete_from = ''manage'' \<and>
               (dget release ''status'' = PStr ''done'' \<or> dget media ''status'' = PStr ''done'')
       then bnd (on_db (db_delete release)) (\<lambda>_. ret (Go (total_deleted + 1, to_done)))
       else ret (Go (total_deleted, to_done)))"

definition media_delete :: "string \<Rightarrow> string \<Rightarrow> (world, bool) py" where
  "media_delete media_id delete_from =
     catch
       (bnd (on_db (db_get media_id)) (\<lambda>media.
        bnd (forMedia_event media_id) (\<lambda>rv.
        bnd (liftr (rbind (as_list rv) (mapr as_dict))) (\<lambda>media_releases.
        bnd (if delete_from = ''all''
             then bnd (for_each media_releases (\<lambda>release. bnd (on_db (db_delete release)) (\<lambda>_. ret ()))) (\<lambda>_.
                  bnd (on_db (db_delete media)) (\<lambda>_. ret True))
             else bnd (delete_some delete_from media media_releases) (\<lambda>(total_deleted, to_done).
               if length media_releases = total_deleted \<or> media_releases = [] \<and> \<not> to_done \<or>
                  \<not> to_done \<and> delete_from = ''late''
               then bnd (on_db (db_delete media)) (\<lambda>_. ret True)
               else if to_done
               then bnd (on_db (db_update (dput (dput media ''status'' (PStr ''done'')) ''profile_id'' PNone))) (\<lambda>_.
                    bnd (media_untag media_id ''recent'') (\<lambda>_. ret False))
               else bnd (restatus media_id True []) (\<lambda>_. ret False))) (\<lambda>deleted.
        bnd (whenp deleted (fire_unit ''notify.frontend'' [PStr ''media.deleted'', PDict (dput media ''_deleted'' (PBool True))])) (\<lambda>_.
        ret True))))))
       (\<lambda>_. ret True)"

definition deleteView :: "string \<Rightarrow> string \<Rightarrow> (world, bool) py" where
  "deleteView i delete_from =
     bnd (for_each (splitString i '','' True) (\<lambda>media_id.
            bnd (media_delete media_id delete_from) (\<lambda>_. ret ()))) (\<lambda>_. ret True)"

section \<open>What only reads\<close>

lemma ro_get_docs: "keeps (=) (get_docs skip hs)"
  by (induction hs) (auto intro!: ro.keeps_intros read_only_on_db)

lemma ro_forMedia: "keeps (=) (forMedia i)"
  unfolding forMedia_def by (auto intro!: ro.keeps_intros read_only_on_db ro_get_docs)

lemma ro_forMedia_event: "keeps (=) (forMedia_event i)"
  unfolding forMedia_event_def call_handler_def by (auto intro!: ro.keeps_intros ro_forMedia)

lemma ro_media_get: "keeps (=) (media_get i)"
  unfolding media_get_def
  by (auto intro!: ro.keeps_intros read_only_on_db ro_forMedia_event split: option.split)

lemma ro_new_status: "keeps (=) (new_status m p)"
  unfolding new_status_def Let_def
  by (auto intro!: ro.keeps_intros read_only_on_db ro_forMedia_event)

section \<open>Tags\<close>

lemma media_tag_write:
  assumes "w_ok w" "w_live w i = Some m" "tags_of m = Inr ts"
  shows "\<exists>w'. media_tag i tag upd w = (Inr True, w') \<and> w_ok w' \<and>
    (if PStr tag \<in> set ts then w' = w
     else (\<exists>m2. w_live w' i = Some m2 \<and> dget m2 ''tags'' = PList (ts @ [PStr tag]) \<and>
         (upd \<longrightarrow> dget m2 ''last_edit'' = PInt (now w)) \<and>
         (\<forall>k. k \<notin> {''tags'', ''last_edit'', ''_rev''} \<longrightarrow> dget m2 k = dget m k)) \<and>
       (\<forall>j. j \<noteq> i \<longrightarrow> w_live w' j = w_live w j))"
proof -
  have g: "on_db (db_get i) w = (Inr m, w)" by (rule ws.get_law [OF assms(1,2)])
  let ?m = "if upd then dput m ''last_edit'' (PInt (now w)) else m"
  let ?d = "dput ?m ''tags'' (PList (ts @ [PStr tag]))"
  have tg: "tags_of ?m = Inr ts" using assms(3) by (auto simp: tags_of_def split: if_splits)
  show ?thesis
  proof (cases "PStr tag \<in> set ts")
    case True
    then show ?thesis using g tg assms(1) by (simp add: media_tag_def py_simps Let_def del: on_db_run)
  next
    case False
    have meta: "dhas ?d ''_id'' \<and> dget ?d ''_id'' = PStr i \<and> dhas ?d ''_rev'' \<and> dget ?d ''_rev'' = dget m ''_rev''"
      using ws.meta_law [OF assms(1,2)] by simp
    from ws.upd_law [OF assms(1,2) meta] obtain r v m2 where
      u: "on_db (db_update ?d) w = (Inr r, v)" "w_ok v" "w_live v i = Some m2"
        "\<forall>k. k \<noteq> ''_rev'' \<longrightarrow> dget m2 k = dget ?d k" "\<forall>j. j \<noteq> i \<longrightarrow> w_live v j = w_live w j" by blast
    have "media_tag i tag upd w = (Inr True, v)"
      using g tg u(1) False by (simp add: media_tag_def py_simps Let_def del: on_db_run)
    moreover have "dget m2 ''tags'' = PList (ts @ [PStr tag])" using u(4) by simp
    moreover have "upd \<longrightarrow> dget m2 ''last_edit'' = PInt (now w)" using u(4) by simp
    moreover have "\<forall>k. k \<notin> {''tags'', ''last_edit'', ''_rev''} \<longrightarrow> dget m2 k = dget m k"
      using u(4) by (simp add: dget_dput)
    ultimately show ?thesis using u(2,3,5) False by (intro exI [of _ v]) auto
  qed
qed

text \<open>Tagging a media adds the tag once and keeps the other fields and documents; when the tag
  is there already nothing is written, so the \<open>last_edit\<close> asked for is lost.\<close>

theorem media_tag_effect:
  assumes "w_ok w" "w_live w i = Some m" "tags_of m = Inr ts"
  shows "\<exists>w'. media_tag i tag upd w = (Inr True, w') \<and> w_ok w' \<and>
    (if PStr tag \<in> set ts then w' = w
     else (\<exists>m2. w_live w' i = Some m2 \<and> dget m2 ''tags'' = PList (ts @ [PStr tag]) \<and>
         (upd \<longrightarrow> dget m2 ''last_edit'' = PInt (now w)) \<and>
         (\<forall>k. k \<notin> {''tags'', ''last_edit'', ''_rev''} \<longrightarrow> dget m2 k = dget m k)) \<and>
       (\<forall>j. j \<noteq> i \<longrightarrow> w_live w' j = w_live w j))"
  by (rule media_tag_write [OF assms])

theorem media_tag_effect_witness:
  "\<exists>w'. media_tag (oid (CHR ''m'')) ''recent'' True demo_media_world = (Inr True, w') \<and>
     (\<exists>m2. w_live w' (oid (CHR ''m'')) = Some m2 \<and> dget m2 ''tags'' = PList [PStr ''recent''])"
proof -
  have "tags_of (with_meta (oid (CHR ''m'')) ''00010000'' media_doc) = Inr []"
    by (simp add: tags_of_def media_doc_def dget_def with_meta_def dput_def)
  from media_tag_effect [OF demo_media_ok demo_media_live this, of "''recent''" True] show ?thesis by auto
qed

text \<open>Untagging removes the tag (and repeated tags with it) and keeps every other field and
  document.\<close>

theorem media_untag_effect:
  assumes "w_ok w" "w_live w i = Some m" "tags_of m = Inr ts"
  shows "\<exists>w'. media_untag i tag w = (Inr True, w') \<and> w_ok w' \<and>
    (\<exists>m2. w_live w' i = Some m2 \<and> (\<exists>ts2. tags_of m2 = Inr ts2 \<and> set ts2 = set ts - {PStr tag}) \<and>
       (\<forall>k. k \<notin> {''tags'', ''_rev''} \<longrightarrow> dget m2 k = dget m k)) \<and>
    (\<forall>j. j \<noteq> i \<longrightarrow> w_live w' j = w_live w j)"
proof -
  have g: "on_db (db_get i) w = (Inr m, w)" by (rule ws.get_law [OF assms(1,2)])
  show ?thesis
  proof (cases "PStr tag \<in> set ts")
    case False
    then have run: "media_untag i tag w = (Inr True, w)"
      using g assms(3) by (simp add: media_untag_def py_simps del: on_db_run)
    have m2: "\<exists>m2. w_live w i = Some m2 \<and> (\<exists>ts2. tags_of m2 = Inr ts2 \<and> set ts2 = set ts - {PStr tag}) \<and>
       (\<forall>k. k \<notin> {''tags'', ''_rev''} \<longrightarrow> dget m2 k = dget m k)"
    proof (rule exI [of _ m], intro conjI exI [of _ ts])
      show "set ts = set ts - {PStr tag}" using False by blast
    qed (use assms in simp_all)
    show ?thesis by (rule exI [of _ w], intro conjI run m2 assms(1)) simp
  next
    case True
    let ?ts = "remove1 (PStr tag) (remdups ts)"
    let ?d = "dput m ''tags'' (PList ?ts)"
    have meta: "dhas ?d ''_id'' \<and> dget ?d ''_id'' = PStr i \<and> dhas ?d ''_rev'' \<and> dget ?d ''_rev'' = dget m ''_rev''"
      using ws.meta_law [OF assms(1,2)] by simp
    from ws.upd_law [OF assms(1,2) meta] obtain r v m2 where
      u: "on_db (db_update ?d) w = (Inr r, v)" "w_ok v" "w_live v i = Some m2"
        "\<forall>k. k \<noteq> ''_rev'' \<longrightarrow> dget m2 k = dget ?d k" "\<forall>j. j \<noteq> i \<longrightarrow> w_live v j = w_live w j" by blast
    have run: "media_untag i tag w = (Inr True, v)"
      using g assms(3) u(1) True by (simp add: media_untag_def py_simps del: on_db_run)
    have "dget m2 ''tags'' = PList ?ts" using u(4) by simp
    then have t: "tags_of m2 = Inr ?ts" by (simp add: tags_of_def)
    have st: "set ?ts = set ts - {PStr tag}" by (simp add: set_remove1_eq)
    have fr: "\<forall>k. k \<notin> {''tags'', ''_rev''} \<longrightarrow> dget m2 k = dget m k" using u(4) by (simp add: dget_dput)
    show ?thesis
      by (rule exI [of _ v], intro conjI exI [of _ m2] exI [of _ ?ts] run u(2,3,5) t st fr)
  qed
qed

theorem media_untag_effect_witness:
  "\<exists>w'. media_untag (oid (CHR ''m'')) ''recent'' demo_media_world = (Inr True, w')"
proof -
  have "tags_of (with_meta (oid (CHR ''m'')) ''00010000'' media_doc) = Inr []"
    by (simp add: tags_of_def media_doc_def dget_def with_meta_def dput_def)
  from media_untag_effect [OF demo_media_ok demo_media_live this, of "''recent''"] show ?thesis by blast
qed

section \<open>Lists\<close>

lemma keep_in_subset: "set (keep_in fs ids) = {x \<in> set ids. \<forall>f \<in> set fs. x \<in> set f}"
  unfolding keep_in_def by (induction fs arbitrary: ids) auto

definition list_inv :: "nat \<Rightarrow> list_state \<Rightarrow> bool" where
  "list_inv tot st = (length (ls_medias st) + length (ls_ids st) = tot)"

definition page_inv :: "int \<Rightarrow> list_state \<Rightarrow> bool" where
  "page_inv limit st = (0 < limit \<longrightarrow> int (length (ls_medias st)) < limit)"

lemma list_step_inv:
  assumes "list_inv n st" "page_inv limit st" "list_step limit m st w = (Inr c, w')"
  shows "case c of Go st' \<Rightarrow> list_inv n st' \<and> page_inv limit st'
    | Brk st' \<Rightarrow> length (ls_medias st') \<le> n \<and> (0 < limit \<longrightarrow> int (length (ls_medias st')) \<le> limit)"
proof -
  consider "c = Go st" | "c = Go (st\<lparr>ls_offset := ls_offset st - 1\<rparr>)"
    | d where "hit_id m \<in> set (ls_ids st)"
        "c = (let st' = st\<lparr>ls_medias := ls_medias st @ [d], ls_ids := remove1 (hit_id m) (ls_ids st)\<rparr>
              in if ls_ids st' = [] \<or> int (length (ls_medias st')) = limit then Brk st' else Go st')"
    using assms(3)
    by (auto simp: list_step_def ret_def bnd_def Let_def split: if_splits prod.splits sum.splits option.splits)
  then show ?thesis
  proof cases
    case 3
    let ?ids = "remove1 (hit_id m) (ls_ids st)"
    let ?st = "st\<lparr>ls_medias := ls_medias st @ [d], ls_ids := ?ids\<rparr>"
    have n: "length (ls_medias ?st) + length ?ids = n"
      using 3(1) assms(1) length_pos_if_in_set [OF 3(1)]
      by (simp add: list_inv_def length_remove1 del: length_greater_0_conv)
    have l: "0 < limit \<longrightarrow> int (length (ls_medias ?st)) \<le> limit"
      using assms(2) by (auto simp: page_inv_def)
    consider "c = Brk ?st" | "c = Go ?st" "int (length (ls_medias ?st)) \<noteq> limit"
      using 3(2) by (simp add: Let_def split: if_splits)
    then show ?thesis
    proof cases
      case 1
      have "length (ls_medias ?st) \<le> n" using n by linarith
      with 1 l show ?thesis by simp
    next
      case 2
      then have "0 < limit \<longrightarrow> int (length (ls_medias ?st)) < limit" using l by linarith
      with 2 n show ?thesis by (simp add: list_inv_def page_inv_def)
    qed
  qed (use assms(1,2) in \<open>auto simp: list_inv_def page_inv_def\<close>)
qed

text \<open>A page of the media list never holds more than the number of media that match, nor more
  than the limit asked for, and the tot is the number of distinct media of the asked types that
  pass every filter.\<close>

theorem media_list_page:
  assumes "media_list q w = (Inr (tot, ms), w')"
  shows "length ms \<le> tot \<and>
    (\<forall>limit offset. list_page (lq_limit_offset q) = Inr (limit, offset) \<longrightarrow> 0 < limit \<longrightarrow> int (length ms) \<le> limit) \<and>
    (\<exists>all_ids filters w1 w2. all_media_ids (lq_types q) w = (Inr all_ids, w1) \<and>
       media_filters q w1 = (Inr filters, w2) \<and>
       tot = card {x \<in> set all_ids. \<forall>f \<in> set filters. x \<in> set f})"
proof -
  from assms obtain all_ids w1 filters w2 where
    a: "all_media_ids (lq_types q) w = (Inr all_ids, w1)" and f: "media_filters q w1 = (Inr filters, w2)"
    and rest: "(let ids = keep_in filters all_ids in
       if ids = [] then ret (0, [])
       else bnd (liftr (list_page (lq_limit_offset q))) (\<lambda>(limit, offset).
         bnd (on_db (db_all ''media_title'' (- 1) 0)) (\<lambda>ms.
         bnd (for_acc ms \<lparr>ls_offset = offset, ls_medias = [], ls_ids = ids\<rparr> (list_step limit)) (\<lambda>st.
         ret (length ids, ls_medias st))))) w2 = (Inr (tot, ms), w')"
    unfolding media_list_def by (auto elim!: bnd_okE)
  have "distinct all_ids" using a unfolding all_media_ids_def by (auto simp: ret_def elim!: bnd_okE)
  let ?ids = "keep_in filters all_ids"
  have dist: "distinct ?ids" using \<open>distinct all_ids\<close> unfolding keep_in_def
    by (induction filters arbitrary: all_ids) auto
  have card: "card {x \<in> set all_ids. \<forall>f \<in> set filters. x \<in> set f} = length ?ids"
    using distinct_card [OF dist] keep_in_subset [of filters all_ids] by simp
  have main: "length ms \<le> tot \<and> tot = length ?ids \<and>
    (\<forall>limit offset. list_page (lq_limit_offset q) = Inr (limit, offset) \<longrightarrow> 0 < limit \<longrightarrow> int (length ms) \<le> limit)"
  proof (cases "?ids = []")
    case True
    with rest show ?thesis by (simp add: ret_def)
  next
    case False
    with rest obtain limit offset hs st w3 w4 where p: "list_page (lq_limit_offset q) = Inr (limit, offset)"
      and run: "for_acc hs \<lparr>ls_offset = offset, ls_medias = [], ls_ids = ?ids\<rparr> (list_step limit) w3 = (Inr st, w4)"
      and t: "tot = length ?ids" "ms = ls_medias st"
      by (auto simp: Let_def liftr_def ret_def elim!: bnd_okE)
    have "length (ls_medias st) \<le> length ?ids \<and> (0 < limit \<longrightarrow> int (length (ls_medias st)) \<le> limit)"
    proof (rule for_acc_inv [OF _ _ _ run, where P = "\<lambda>st. list_inv (length ?ids) st \<and> page_inv limit st"])
      show "case c of Go a' \<Rightarrow> list_inv (length ?ids) a' \<and> page_inv limit a'
          | Brk a' \<Rightarrow> length (ls_medias a') \<le> length ?ids \<and> (0 < limit \<longrightarrow> int (length (ls_medias a')) \<le> limit)"
        if "list_inv (length ?ids) a \<and> page_inv limit a" "list_step limit x a s = (Inr c, s')" for x a s c s'
        using list_step_inv [OF _ _ that(2)] that(1) by blast
    qed (auto simp: list_inv_def page_inv_def)
    with t p show ?thesis by auto
  qed
  then have "tot = card {x \<in> set all_ids. \<forall>f \<in> set filters. x \<in> set f}" using card by simp
  with a f have "\<exists>all_ids filters w1 w2. all_media_ids (lq_types q) w = (Inr all_ids, w1) \<and>
       media_filters q w1 = (Inr filters, w2) \<and> tot = card {x \<in> set all_ids. \<forall>f \<in> set filters. x \<in> set f}"
    by (intro exI conjI)
  with main show ?thesis by (intro conjI) simp_all
qed

section \<open>Deciding the status\<close>

text \<open>What tagging leaves of a media: the tag once among its tags, with the time, or the document as it was.\<close>

definition tagged :: "string \<Rightarrow> int \<Rightarrow> doc \<Rightarrow> doc \<Rightarrow> bool" where
  "tagged tag t m m2 \<longleftrightarrow> (case tags_of m of
       Inr ts \<Rightarrow> if PStr tag \<in> set ts then dget m2 ''tags'' = dget m ''tags'' \<and> dget m2 ''last_edit'' = dget m ''last_edit''
         else dget m2 ''tags'' = PList (ts @ [PStr tag]) \<and> dget m2 ''last_edit'' = PInt t
     | Inl e \<Rightarrow> dget m2 ''tags'' = dget m ''tags'' \<and> dget m2 ''last_edit'' = dget m ''last_edit'')"

lemma media_tag_frame:
  assumes "w_ok w" "w_live w i = Some m"
  shows "\<exists>r w' m2. media_tag i tag True w = (Inr r, w') \<and> w_ok w' \<and> w_live w' i = Some m2 \<and> tagged tag (now w) m m2 \<and>
    (\<forall>k. k \<notin> {''tags'', ''last_edit'', ''_rev''} \<longrightarrow> dget m2 k = dget m k) \<and> (\<forall>j. j \<noteq> i \<longrightarrow> w_live w' j = w_live w j)"
proof (cases "tags_of m")
  case (Inl e)
  have g: "on_db (db_get i) w = (Inr m, w)" by (rule ws.get_law [OF assms])
  have "tags_of (dput m ''last_edit'' (PInt (now w))) = Inl e"
    using Inl by (auto simp: tags_of_def split: if_splits)
  then have "media_tag i tag True w = (Inr False, w)"
    using g by (simp add: media_tag_def py_simps Let_def del: on_db_run)
  then show ?thesis using assms Inl by (auto simp: tagged_def)
next
  case (Inr ts)
  note sub = media_tag_write [OF assms Inr, of tag True]
  show ?thesis
  proof (cases "PStr tag \<in> set ts")
    case True
    with sub assms Inr show ?thesis by (auto simp: tagged_def)
  next
    case False
    with sub Inr show ?thesis by (fastforce simp: tagged_def)
  qed
qed

lemma mapr_as_dict: "mapr as_dict (map PDict ds) = Inr ds"
  by (induction ds) auto

definition decided :: "doc list \<Rightarrow> bool \<Rightarrow> pv \<Rightarrow> string" where
  "decided rels fin prev =
     (if filter (\<lambda>r. dget r ''status'' = PStr ''done'') rels \<noteq> [] then (if fin then ''done'' else ''active'')
      else if prev = PStr ''done'' then ''done'' else ''active'')"

lemma new_status_decided:
  assumes p: "dsub m ''profile_id'' = Inr (PStr pid)" "pid \<noteq> []" "w_live w pid = Some profile" "w_ok w"
    and i: "dsub m ''_id'' = Inr (PStr i)" and f: "forMedia i w = (Inr rels, w)"
    and fin: "any_finishes (now w) (PDict profile) (filter (\<lambda>r. dget r ''status'' = PStr ''done'') rels) = Inr fin"
  shows "new_status m prev w = (Inr (PStr (decided rels fin prev)), w)"
proof -
  have g: "on_db (db_get pid) w = (Inr profile, w)" by (rule ws.get_law [OF p(4,3)])
  have e: "forMedia_event i w = (Inr (PList (map PDict rels)), w)"
    using f by (simp add: forMedia_event_def call_handler_def py_simps)
  show ?thesis
    using p(1,2) g i e fin
    by (simp add: new_status_def py_simps mapr_as_dict Let_def decided_def del: on_db_run)
qed

lemma new_status_no_profile:
  "dsub m ''profile_id'' = Inr p \<Longrightarrow> \<not> truthy p \<Longrightarrow> new_status m prev w = (Inr (PStr ''done''), w)"
  by (simp add: new_status_def py_simps)

lemma new_status_lost_profile:
  "dsub m ''profile_id'' = Inr (PStr pid) \<Longrightarrow> pid \<noteq> [] \<Longrightarrow> lookup (store w) pid = None \<Longrightarrow>
   new_status m prev w = (Inr prev, w)"
  by (simp add: new_status_def py_simps db_get_def)

text \<open>The status a media is to have: \<open>done\<close> without a profile; its status as it was when the profile is not in the
  database; and otherwise \<open>done\<close> when one of its finished releases is good enough for the profile or when it
  was done and has no finished release, and \<open>active\<close> if not.\<close>

definition due_status :: "world \<Rightarrow> string \<Rightarrow> doc \<Rightarrow> pv \<Rightarrow> string \<Rightarrow> bool" where
  "due_status w i m prev st \<longleftrightarrow>
     (\<exists>p. dsub m ''profile_id'' = Inr p \<and> \<not> truthy p \<and> st = ''done'') \<or>
     (\<exists>pid. dsub m ''profile_id'' = Inr (PStr pid) \<and> pid \<noteq> [] \<and>
        (lookup (store w) pid = None \<and> prev = PStr st \<or>
         (\<exists>profile rels fin. w_live w pid = Some profile \<and> forMedia i w = (Inr rels, w) \<and>
            any_finishes (now w) (PDict profile) (filter (\<lambda>r. dget r ''status'' = PStr ''done'') rels) = Inr fin \<and>
            st = decided rels fin prev)))"

lemma new_status_due:
  assumes "w_ok w" "w_live w i = Some m" "due_status w i m prev st"
  shows "new_status m prev w = (Inr (PStr st), w)"
proof -
  have i: "dsub m ''_id'' = Inr (PStr i)" using ws.meta_law [OF assms(1,2)] by (simp add: dsub_eq_dget)
  from assms(3) show ?thesis unfolding due_status_def
    using new_status_no_profile new_status_lost_profile new_status_decided [OF _ _ _ assms(1) i] by blast
qed

text \<open>C6: the status of a media follows from its profile and its finished releases. When it is the status the
  media has, or one the caller does not allow, nothing at all changes. Otherwise it is written; of the media
  nothing changes beside it but the revision and, when the media is to be tagged, its tags and the time of the
  tag; and no other document changes.\<close>

theorem restatus_effect:
  assumes "w_ok w" "w_live w i = Some m" "dsub m ''status'' = Inr prev" "due_status w i m prev st"
  shows "\<exists>w'. restatus i tag_recent allowed w = (Inr (PStr st), w') \<and> w_ok w' \<and>
    (if prev = PStr st \<or> allowed \<noteq> [] \<and> st \<notin> set allowed then w' = w
     else \<exists>m2. w_live w' i = Some m2 \<and> dget m2 ''status'' = PStr st \<and>
       (if tag_recent then tagged ''recent'' (now w) m m2
        else dget m2 ''tags'' = dget m ''tags'' \<and> dget m2 ''last_edit'' = dget m ''last_edit'') \<and>
       (\<forall>k. k \<notin> {''status'', ''tags'', ''last_edit'', ''_rev''} \<longrightarrow> dget m2 k = dget m k) \<and>
       (\<forall>j. j \<noteq> i \<longrightarrow> w_live w' j = w_live w j))"
proof -
  have g: "on_db (db_get i) w = (Inr m, w)" by (rule ws.get_law [OF assms(1,2)])
  note prev = assms(3)
  have ns: "new_status m prev w = (Inr (PStr st), w)" by (rule new_status_due [OF assms(1,2,4)])
  have al: "PStr st \<in> set (map PStr allowed) \<longleftrightarrow> st \<in> set allowed" by auto
  show ?thesis
  proof (cases "prev \<noteq> PStr st \<and> (allowed = [] \<or> st \<in> set allowed)")
    case False
    then have "\<not> (prev \<noteq> PStr st \<and> (allowed = [] \<or> PStr st \<in> set (map PStr allowed)))" using al by blast
    then have "restatus i tag_recent allowed w = (Inr (PStr st), w)"
      using g prev ns unfolding restatus_def
      by (simp only: catch_run bnd_run liftr_run whenp_run if_False prod.case sum.case ret_run)
    with False assms(1) show ?thesis by (intro exI [of _ w]) auto
  next
    case True
    let ?d = "dput m ''status'' (PStr st)"
    have meta: "dhas ?d ''_id'' \<and> dget ?d ''_id'' = PStr i \<and> dhas ?d ''_rev'' \<and> dget ?d ''_rev'' = dget m ''_rev''"
      using ws.meta_law [OF assms(1,2)] by simp
    from ws.upd_law [OF assms(1,2) meta] obtain r v m1 where
      u: "on_db (db_update ?d) w = (Inr r, v)" "w_ok v" "w_live v i = Some m1"
        "\<forall>k. k \<noteq> ''_rev'' \<longrightarrow> dget m1 k = dget ?d k" "\<forall>j. j \<noteq> i \<longrightarrow> w_live v j = w_live w j" by blast
    have v: "now v = now w" using u(1) by (auto simp: py_simps split: prod.splits)
    from media_tag_frame [OF u(2,3), of "''recent''"] obtain b v2 m2 where
      t: "media_tag i ''recent'' True v = (Inr b, v2)" "w_ok v2" "w_live v2 i = Some m2" "tagged ''recent'' (now v) m1 m2"
        "\<forall>k. k \<notin> {''tags'', ''last_edit'', ''_rev''} \<longrightarrow> dget m2 k = dget m1 k"
        "\<forall>j. j \<noteq> i \<longrightarrow> w_live v2 j = w_live v j" by (elim exE conjE) (rule that)
    have run: "restatus i tag_recent allowed w = (Inr (PStr st), if tag_recent then v2 else v)"
      using g prev ns al u(1) t(1) True by (auto simp: restatus_def py_simps simp del: on_db_run)
    have "tags_of m1 = tags_of m" "dget m1 ''tags'' = dget m ''tags''" "dget m1 ''last_edit'' = dget m ''last_edit''"
      using u(4) by (simp_all add: tags_of_def dget_dput)
    then have tg: "tagged ''recent'' (now w) m m2" using t(4) v by (auto simp: tagged_def split: sum.splits)
    have st1: "dget m1 ''status'' = PStr st" "dget m2 ''status'' = PStr st" using u(4) t(5) by simp_all
    have k1: "\<forall>k. k \<notin> {''status'', ''_rev''} \<longrightarrow> dget m1 k = dget m k" using u(4) by (simp add: dget_dput)
    show ?thesis
    proof (cases tag_recent)
      case True
      with run st1 k1 t u(5) tg \<open>prev \<noteq> _ \<and> _\<close> show ?thesis by (intro exI [of _ v2]) auto
    next
      case False
      with run st1 k1 u \<open>prev \<noteq> _ \<and> _\<close> show ?thesis by (intro exI [of _ v]) auto
    qed
  qed
qed

section \<open>Deleting\<close>

text \<open>C25: deleting a media from everywhere removes it and every release that belongs to it, for
  good, and no other document.\<close>

theorem media_delete_all:
  assumes "w_ok w" "w_live w i = Some m" "i \<noteq> []" "dget m ''_t'' = PStr ''media''"
    and f: "forMedia i w = (Inr rels, w)"
    and ok: "\<forall>d \<in> set (m # rels). all_keys_ok d = Inr ()"
  shows "\<exists>w'. media_delete i ''all'' w = (Inr True, w') \<and> w_ok w' \<and> lookup (store w') i = Some Dead \<and>
    (\<forall>j d. w_live w j = Some d \<longrightarrow>
       w_live w' j = (if j = i \<or> dget d ''_t'' = PStr ''release'' \<and> dget d ''media_id'' = PStr i
                      then None else Some d))"
proof -
  have g: "on_db (db_get i) w = (Inr m, w)" by (rule ws.get_law [OF assms(1,2)])
  have e: "forMedia_event i w = (Inr (PList (map PDict rels)), w)"
    using f by (simp add: forMedia_event_def call_handler_def py_simps)
  have dok: "db_ok (store w)" using assms(1) by (simp add: w_ok_def)
  from forMedia_complete [OF assms(1) f assms(3)] have fc: "distinct rels"
    "\<And>d. d \<in> set rels \<longleftrightarrow> (\<exists>j. w_live w j = Some d) \<and> dget d ''_t'' = PStr ''release'' \<and> dget d ''media_id'' = PStr i"
    by auto
  have idl: "doc_id d = j" if "w_live w j = Some d" for j d
    using dbs.meta_law [OF dok] that by (simp add: w_live_def doc_id_def)
  have mi: "doc_id m = i" by (rule idl [OF assms(2)])
  have lv: "live (store w) (doc_id d) = Some d" if "d \<in> set rels" for d
    using fc(2) that idl by (auto simp: w_live_def)
  have inj: "inj_on doc_id (set rels)" using lv by (intro inj_onI) (metis option.inject)
  have notm: "m \<notin> set rels" using fc(2) assms(4) by auto
  have mnot: "doc_id m \<notin> doc_id ` set rels"
  proof
    assume "doc_id m \<in> doc_id ` set rels"
    then obtain e where "e \<in> set rels" "doc_id e = i" using mi by auto
    with lv [of e] assms(2) have "e = m" by (simp add: w_live_def)
    with \<open>e \<in> set rels\<close> notm show False by simp
  qed
  have dist: "distinct (map doc_id (rels @ [m]))" using fc(1) inj mnot by (simp add: distinct_map)
  have all: "\<forall>d \<in> set (rels @ [m]). live (store w) (doc_id d) = Some d \<and> all_keys_ok d = Inr ()"
    using lv ok assms(2) mi by (auto simp: w_live_def)
  from for_each_delete [OF dok all dist] obtain s' where
    s': "for_each (rels @ [m]) (\<lambda>d. bnd (db_delete d) (\<lambda>_. ret ())) (store w) = (Inr (), s')" "db_ok s'"
      "\<forall>j. live s' j = (if j \<in> doc_id ` set (rels @ [m]) then None else live (store w) j)"
      "\<forall>j. j \<in> doc_id ` set (rels @ [m]) \<longrightarrow> lookup s' j = Some Dead" by blast
  have app: "for_each (xs @ [y]) h = bnd (for_each xs h) (\<lambda>_. bnd (h y) (\<lambda>_. ret ()))" for xs y and h :: "doc \<Rightarrow> (world, unit) py"
    by (induction xs) (simp_all add: bnd_assoc)
  have run1: "for_each (rels @ [m]) (\<lambda>d. bnd (on_db (db_delete d)) (\<lambda>_. ret ())) w = (Inr (), w\<lparr>store := s'\<rparr>)"
    using s'(1) by (simp add: for_each_on_db)
  then have run2: "bnd (for_each rels (\<lambda>d. bnd (on_db (db_delete d)) (\<lambda>_. ret ()))) (\<lambda>_.
      bnd (on_db (db_delete m)) (\<lambda>_. ret True)) w = (Inr True, w\<lparr>store := s'\<rparr>)"
    unfolding app
    by (elim bnd_okE) (simp add: bnd_Inr [of "for_each rels _"] bnd_Inr [of "on_db (db_delete m)"] ret_def)
  let ?w' = "(w\<lparr>store := s'\<rparr>)\<lparr>fired := fired w @ [(''notify.frontend'', [PStr ''media.deleted'', PDict (dput m ''_deleted'' (PBool True))])]\<rparr>"
  have run: "media_delete i ''all'' w = (Inr True, ?w')"
    using g e run2 unfolding media_delete_def
    by (simp add: catch_run bnd_Inr [of "on_db (db_get i)"] bnd_Inr [of "forMedia_event i"] mapr_as_dict)
      (simp add: py_simps del: on_db_run)
  have "lookup (store ?w') i = Some Dead" using s'(4) mi by simp
  moreover have "w_live ?w' j = (if j = i \<or> dget d ''_t'' = PStr ''release'' \<and> dget d ''media_id'' = PStr i then None else Some d)"
    if j: "w_live w j = Some d" for j d
  proof -
    have "j \<in> doc_id ` set (rels @ [m]) \<longleftrightarrow> j = i \<or> dget d ''_t'' = PStr ''release'' \<and> dget d ''media_id'' = PStr i"
    proof
      assume "j \<in> doc_id ` set (rels @ [m])"
      then consider "j = i" | e where "e \<in> set rels" "j = doc_id e" using mi by auto
      then show "j = i \<or> dget d ''_t'' = PStr ''release'' \<and> dget d ''media_id'' = PStr i"
      proof cases
        case 2
        then have "e = d" using lv [of e] j by (simp add: w_live_def)
        with 2 fc(2) show ?thesis by auto
      qed simp
    next
      assume "j = i \<or> dget d ''_t'' = PStr ''release'' \<and> dget d ''media_id'' = PStr i"
      then show "j \<in> doc_id ` set (rels @ [m])" using mi fc(2) [of d] j idl [OF j] by auto
    qed
    with s'(3) j show ?thesis by (simp add: w_live_def)
  qed
  moreover have "w_ok ?w'" using s'(2) by (simp add: w_ok_def)
  ultimately show ?thesis using run by blast
qed

section \<open>The hypotheses can be met\<close>

definition plain_query :: list_query where
  "plain_query = \<lparr>lq_types = [], lq_status = [], lq_release_status = [], lq_status_or = False,
     lq_limit_offset = ''5,0'', lq_with_tags = [], lq_starts_with = [], lq_search = []\<rparr>"

theorem media_list_page_witness:
  "length ([] :: doc list) \<le> (0::nat) \<and> media_list plain_query demo_world = (Inr (0, []), demo_world)"
proof -
  have "media_list plain_query demo_world = (Inr (0, []), demo_world)"
    by (simp add: media_list_def plain_query_def all_media_ids_def media_filters_def when_list_def
        py_simps db_all_def demo_world_def empty_db_def live_docs_def index_entries_def take_limit_def
        sorted_by_def keep_in_def Let_def)
  with media_list_page [OF this] show ?thesis by blast
qed

lemma demo_release_media_live:
  "w_live demo_release_world (oid (CHR ''m'')) = Some (with_meta (oid (CHR ''m'')) ''00010000'' media_doc)"
  by (simp add: w_live_def live_def lookup_def demo_release_world_def demo_world_def empty_db_def)

theorem media_delete_all_witness:
  "\<exists>w'. media_delete (oid (CHR ''m'')) ''all'' demo_release_world = (Inr True, w') \<and>
     w_live w' (oid (CHR ''r'')) = None"
proof -
  let ?m = "with_meta (oid (CHR ''m'')) ''00010000'' media_doc" and ?r = "with_meta (oid (CHR ''r'')) ''00010000'' rel_doc"
  have k: "all_keys_ok ?m = Inr ()" "all_keys_ok ?r = Inr ()"
    by (simp_all add: all_keys_ok_def index_table_def QualityIndex_def ReleaseIndex_def ReleaseStatusIndex_def
        ReleaseIDIndex_def ReleaseDownloadIndex_def ProfileIndex_def CategoryIndex_def CategoryMediaIndex_def
        MediaIndex_def MediaStatusIndex_def MediaTypeIndex_def TitleSearchIndex_def TitleIndex_def
        StartsWithIndex_def MediaChildrenIndex_def MediaTagIndex_def PropertyIndex_def NotificationIndex_def
        NotificationUnreadIndex_def is_type_def media_doc_def rel_doc_def doc_eval)
  have ne: "oid (CHR ''m'') \<noteq> []" by (simp add: oid_def)
  have t: "dget ?m ''_t'' = PStr ''media''" by (simp add: media_doc_def doc_eval)
  have r: "dget ?r ''_t'' = PStr ''release''" "dget ?r ''media_id'' = PStr (oid (CHR ''m''))"
    by (simp_all add: rel_doc_def doc_eval)
  from media_delete_all [OF demo_release_ok demo_release_media_live ne t demo_forMedia] k
  obtain w' where w': "media_delete (oid (CHR ''m'')) ''all'' demo_release_world = (Inr True, w')"
    "\<forall>j d. w_live demo_release_world j = Some d \<longrightarrow>
       w_live w' j = (if j = oid (CHR ''m'') \<or> dget d ''_t'' = PStr ''release'' \<and> dget d ''media_id'' = PStr (oid (CHR ''m''))
                      then None else Some d)" by auto
  from w'(2) demo_release_live r have "w_live w' (oid (CHR ''r'')) = None" by auto
  with w'(1) show ?thesis by blast
qed

definition finished_world :: world where
  "finished_world = demo_world\<lparr>store := empty_db\<lparr>docs :=
     [(oid (CHR ''m''), Live ''00010000'' [(''_t'', PStr ''media''), (''status'', PStr ''active''),
         (''profile_id'', PStr (oid (CHR ''p'')))]),
      (oid (CHR ''p''), Live ''00010000'' demo_profile),
      (oid (CHR ''r''), Live ''00010000'' (dput rel_doc ''status'' (PStr ''done'')))]\<rparr>\<rparr>"

theorem restatus_effect_witness:
  "(\<exists>w' m2. restatus (oid (CHR ''m'')) True [] finished_world = (Inr (PStr ''done''), w') \<and>
     w_live w' (oid (CHR ''m'')) = Some m2 \<and> dget m2 ''status'' = PStr ''done'') \<and>
   restatus (oid (CHR ''m'')) True [''active''] finished_world = (Inr (PStr ''done''), finished_world)"
proof -
  let ?mb = "[(''_t'', PStr ''media''), (''status'', PStr ''active''), (''profile_id'', PStr (oid (CHR ''p'')))]"
  let ?m = "with_meta (oid (CHR ''m'')) ''00010000'' ?mb"
  let ?r = "with_meta (oid (CHR ''r'')) ''00010000'' (dput rel_doc ''status'' (PStr ''done''))"
  let ?p = "with_meta (oid (CHR ''p'')) ''00010000'' demo_profile"
  have ok: "w_ok finished_world"
    by (simp add: w_ok_def finished_world_def demo_world_def empty_db_def db_ok_def rev_ok_def oid_def
        hex_val_def is_digit_def cp_def rel_doc_def demo_profile_def doc_eval)
  have lv: "w_live finished_world (oid (CHR ''m'')) = Some ?m" "w_live finished_world (oid (CHR ''p'')) = Some ?p"
    by (simp_all add: w_live_def live_def lookup_def finished_world_def demo_world_def empty_db_def oid_neq)
  have ne: "oid (CHR ''m'') \<noteq> []" "oid (CHR ''p'') \<noteq> []" by (simp_all add: oid_def)
  have f: "forMedia (oid (CHR ''m'')) finished_world = (Inr [?r], finished_world)"
  proof (rule forMedia_single [OF ok, where p = "[]" and nfo = "[(''score'', PInt 5)]"])
    show "conf finished_world ''searcher'' ''preferred_method'' = PNone"
      by (simp add: conf_def finished_world_def demo_world_def demo_settings_preferred)
    show "filter (has_key ReleaseIndex (PStr (oid (CHR ''m'')))) (live_docs (store finished_world)) = [?r]"
      using ne by (simp add: live_docs_def finished_world_def demo_world_def empty_db_def has_key_def
          ReleaseIndex_def is_type_def rel_doc_def demo_profile_def doc_eval)
  qed (simp_all add: rel_doc_def doc_eval)
  have d: "filter (\<lambda>r. dget r ''status'' = PStr ''done'') [?r] = [?r]" by (simp add: rel_doc_def doc_eval)
  have fin: "any_finishes (now finished_world) (PDict ?p) [?r] = Inr True"
    by (simp add: rel_doc_def demo_profile_def doc_eval finished_world_def demo_world_def num_res_def isFinish_def
        no_profile_def profile_position_def profile_3d_def nth_res_def list_item_def days_def)
  have "decided [?r] True (PStr ''active'') = ''done''" using d by (simp add: decided_def)
  moreover have "dsub ?m ''status'' = Inr (PStr ''active'')" "dsub ?m ''profile_id'' = Inr (PStr (oid (CHR ''p'')))"
    by (simp_all add: doc_eval)
  ultimately have due: "due_status finished_world (oid (CHR ''m'')) ?m (PStr ''active'') ''done''"
      and st: "dsub ?m ''status'' = Inr (PStr ''active'')"
    unfolding due_status_def using ne(2) lv(2) f fin d by (auto intro!: exI [of _ ?p] exI [of _ "[?r]"] exI [of _ True])
  from restatus_effect [OF ok lv(1) st due, of True "[]"] restatus_effect [OF ok lv(1) st due, of True "[''active'']"]
  show ?thesis by auto
qed

end
