(* ===== verification/MovieBase.thy ===== *)
theory MovieBase
  imports Media
begin

text \<open>
  couchpotato/core/media/__init__.py and couchpotato/core/media/movie/_base/main.py: adding a movie to
  the wanted list, editing it, and refreshing what is known about it. Events of the model's own
  components are calls; the information providers, the downloader of images and the asynchronous
  events are fired at the environment. An \<open>on_complete\<close> closure is the text that names it. Taking
  and releasing a lock of the plugin is an entry of the trace of fired events. \<open>md5\<close> and \<open>isfile\<close> are
  arguments.
\<close>

section \<open>Computations with an early return\<close>

text \<open>Run \<open>m\<close> inside a \<open>try\<close> whose handler only logs: when it raises, the function returns \<open>v\<close>, the
  value its variable has by then.\<close>

definition or_return :: "('s, 'x) py \<Rightarrow> 'v \<Rightarrow> ('x \<Rightarrow> ('s, 'v) py) \<Rightarrow> ('s, 'v) py" where
  "or_return m v k = (\<lambda>s. case m s of (Inl e, s') \<Rightarrow> (Inr v, s') | (Inr x, s') \<Rightarrow> k x s')"

lemma or_return_run [py_simps]:
  "or_return m v k s = (case m s of (Inl e, s') \<Rightarrow> (Inr v, s') | (Inr x, s') \<Rightarrow> k x s')"
  by (simp add: or_return_def)

lemma keeps_or_return:
  assumes "keeps w_step m" "\<And>x. keeps w_step (k x)"
  shows "keeps w_step (or_return m v k)"
proof -
  have "or_return m v k = bnd (catch (bnd m (\<lambda>x. ret (Some x))) (\<lambda>_. ret None))
      (\<lambda>r. case r of None \<Rightarrow> ret v | Some x \<Rightarrow> k x)"
    by (simp add: fun_eq_iff py_simps split: prod.split sum.split)
  moreover have "keeps w_step (bnd (catch (bnd m (\<lambda>x. ret (Some x))) (\<lambda>_. ret None))
      (\<lambda>r. case r of None \<Rightarrow> ret v | Some x \<Rightarrow> k x))"
    using assms by (auto intro!: wf.keeps_intros split: option.split)
  ultimately show ?thesis by simp
qed

section \<open>MediaBase\<close>

definition fire_async :: "string \<Rightarrow> pv list \<Rightarrow> (world, unit) py" where
  "fire_async n args = fire_unit (''async:'' @ n) args"

definition createNotifyFront :: "string \<Rightarrow> (world, unit) py" where
  "createNotifyFront media_id =
     catch
       (bnd (media_get_event media_id) (\<lambda>media. case media of
           None \<Rightarrow> ret ()
         | Some m \<Rightarrow> fire_unit ''notify.frontend'' [PStr (fmt (dget m ''type'') @ ''.update''), PDict m]))
       (\<lambda>_. ret ())"

definition createOnComplete :: "string \<Rightarrow> (world, unit) py" where
  "createOnComplete media_id =
     catch
       (bnd (media_get_event media_id) (\<lambda>media. case media of
           None \<Rightarrow> ret ()
         | Some m \<Rightarrow> fire_async (fmt (dget m ''type'') @ ''.searcher.single'')
             [PDict m, PStr (''notify_front '' @ media_id), PBool True]))
       (\<lambda>_. ret ())"

fun pick_title :: "pv list \<Rightarrow> string \<Rightarrow> nat \<Rightarrow> pv list \<Rightarrow> string option res" where
  "pick_title titles dflt counter [] = Inr None"
| "pick_title titles dflt counter (t # ts) =
     (if dflt = [] \<and> counter = 0 \<or> length titles = 1 then Inr (Some (fmt t))
      else rbind (as_str t) (\<lambda>title.
        if lower title = lower dflt \<or> dflt = [] \<and> fmt (hd titles) = title then Inr (Some title)
        else pick_title titles dflt (counter + 1) ts))"

definition getDefaultTitle :: "pv \<Rightarrow> pv \<Rightarrow> string res" where
  "getDefaultTitle info default_title =
     rbind (if truthy default_title then as_str default_title
            else rbind (vget info ''title'') (\<lambda>t. Inr (fmt t))) (\<lambda>dflt.
     rbind (rbind (vgetd info ''titles'' (PList [])) as_list) (\<lambda>titles.
     rbind (pick_title titles dflt 0 titles) (\<lambda>found.
       let def_title = (case found of
             Some t \<Rightarrow> (if t = [] \<and> titles \<noteq> [] then fmt (hd titles) else t)
           | None \<Rightarrow> (if titles \<noteq> [] then fmt (hd titles) else []))
       in Inr (if def_title = [] then ''UNKNOWN'' else def_title))))"

text \<open>The loop removes elements from the list it runs over, so it skips the one after each.\<close>

fun remove_missing :: "(string \<Rightarrow> bool) \<Rightarrow> string list \<Rightarrow> string list" where
  "remove_missing isfile [] = []"
| "remove_missing isfile (x # xs) =
     (if isfile x then x # remove_missing isfile xs
      else (case xs of [] \<Rightarrow> [] | y # ys \<Rightarrow> y # remove_missing isfile ys))"

definition poster_files :: "(string \<Rightarrow> bool) \<Rightarrow> doc \<Rightarrow> doc res" where
  "poster_files isfile media =
     rbind (as_dict (dgetd media ''files'' (PDict []))) (\<lambda>existing_files.
     rbind (rbind (as_list (dgetd existing_files ''image_poster'' (PList []))) (mapr as_str)) (\<lambda>fs.
       Inr (dput media ''files'' (PDict (dput existing_files ''image_poster''
              (PList (map PStr (remove_missing isfile (remdups fs)))))))))"

definition images_first :: "string \<Rightarrow> string list \<Rightarrow> string list" where
  "images_first y images =
     filter (\<lambda>x. contains y x) images @ (if images = [] then [] else [last images])"

definition set_poster :: "doc \<Rightarrow> pv \<Rightarrow> doc res" where
  "set_poster media path =
     rbind (as_dict (dget media ''files'')) (\<lambda>fs.
       Inr (dput media ''files'' (PDict (dput fs ''image_poster'' (PList [PStr (fmt path)])))))"

definition poster_list :: "doc \<Rightarrow> string list res" where
  "poster_list media =
     rbind (as_dict (dget media ''files'')) (\<lambda>fs.
     rbind (as_list (dgetd fs ''image_poster'' (PList []))) (mapr as_str))"

fun try_images :: "(string \<Rightarrow> string) \<Rightarrow> string list \<Rightarrow> doc \<Rightarrow> (world, doc) py" where
  "try_images md5 [] media = ret media"
| "try_images md5 (img # images) media =
     (let filename = md5 img @ ''.'' @ getExt img in
      bnd (liftr (poster_list media)) (\<lambda>existing.
        if \<not> list_ex (\<lambda>x. contains filename x) existing \<or> existing = []
        then bnd (fire ''file.download'' [PStr img]) (\<lambda>file_path.
             if truthy file_path then liftr (set_poster media file_path)
             else try_images md5 images media)
        else ret media))"

text \<open>\<open>getPoster\<close> reorders the list inside the media's info, which is the list it was given.\<close>

definition put_images :: "doc \<Rightarrow> string list \<Rightarrow> doc" where
  "put_images media images = (case dget media ''info'' of
       PDict info \<Rightarrow> (case dget info ''images'' of
           PDict im \<Rightarrow> (if dhas im ''poster''
             then dput media ''info'' (PDict (dput info ''images'' (PDict (dput im ''poster'' (PList (map PStr images))))))
             else media)
         | _ \<Rightarrow> media)
     | _ \<Rightarrow> media)"

definition poster_images :: "pv \<Rightarrow> string list res" where
  "poster_images image_urls =
     rbind (vgetd image_urls ''poster'' (PList [])) (\<lambda>v.
     rbind (rbind (as_list v) (mapr as_str)) (\<lambda>images.
       Inr (images_first ''tmdb'' (images_first ''SX300'' images))))"

section \<open>Adding\<close>

definition release_docs :: "pv \<Rightarrow> doc list res" where
  "release_docs v = rbind (as_list v) (mapr as_dict)"

definition remove_available :: "string \<Rightarrow> (world, unit) py" where
  "remove_available i =
     bnd (forMedia_event i) (\<lambda>rv.
     bnd (liftr (release_docs rv)) (\<lambda>rels.
     for_each rels (\<lambda>rel.
       bnd (liftr (dsub rel ''status'')) (\<lambda>st.
       whenp (st = PStr ''available'') (bnd (on_db (db_delete rel)) (\<lambda>_. ret ()))))))"

definition clean_history :: "bool \<Rightarrow> string \<Rightarrow> (world, unit) py" where
  "clean_history ignore_previous i =
     bnd (forMedia_event i) (\<lambda>rv.
     bnd (liftr (release_docs rv)) (\<lambda>rels.
     for_each rels (\<lambda>release.
       whenp (dget release ''status'' \<in> PStr ` {''downloaded'', ''snatched'', ''seeding'', ''done''})
         (bnd (liftr (rbind (dsub release ''_id'') as_str)) (\<lambda>r.
          if ignore_previous then bnd (updateStatus r ''ignored'') (\<lambda>_. ret ())
          else bnd (delete_release r) (\<lambda>_. ret ()))))))"

definition drop_key :: "pv \<Rightarrow> string \<Rightarrow> pv" where
  "drop_key v k = (case v of PDict d \<Rightarrow> PDict (dremove d k) | _ \<Rightarrow> v)"

definition non_empty :: "pv \<Rightarrow> bool res" where
  "non_empty v = (if v = PNone then Inr False else rbind (as_list v) (\<lambda>xs. Inr (xs \<noteq> [])))"

definition wanted_info :: "doc \<Rightarrow> string \<Rightarrow> (world, pv) py" where
  "wanted_info params identifier =
     (let info = dget params ''info'' in
      bnd (if \<not> truthy info then ret True
           else liftr (rbind (rbind (vgetd info ''titles'' (PList [])) as_list) (\<lambda>ts. Inr (ts = [])))) (\<lambda>need.
      if need then fire ''movie.info'' [PBool False, PStr identifier] else ret info))"

definition force_flag :: "doc \<Rightarrow> bool \<Rightarrow> bool res" where
  "force_flag params dflt =
     (if dhas params ''force_readd''
      then (case dget params ''force_readd'' of
          PBool b \<Rightarrow> Inr b
        | v \<Rightarrow> rbind (as_str v) (\<lambda>s. Inr (lower s \<notin> {''0'', ''-1''})))
      else Inr dflt)"

definition previous_profile :: "doc \<Rightarrow> (world, pv) py" where
  "previous_profile m =
     catch (bnd (liftr (as_str (dget m ''profile_id''))) (\<lambda>p.
            bnd (on_db (db_get p)) (\<lambda>_. ret (dget m ''profile_id''))))
       (\<lambda>_. ret PNone)"

definition movie_doc :: "string \<Rightarrow> string \<Rightarrow> string \<Rightarrow> pv \<Rightarrow> pv \<Rightarrow> pv \<Rightarrow> doc" where
  "movie_doc identifier def_title status profile cat info =
     [(''_t'', PStr ''media''), (''type'', PStr ''movie''), (''title'', PStr def_title),
      (''identifiers'', PDict [(''imdb'', PStr identifier)]),
      (''status'', PStr (if status = [] then ''active'' else status)),
      (''profile_id'', profile), (''category_id'', cat), (''info'', info)]"

text \<open>The media the request is about: the one the database has under the identifier with the new
  values over it, or a new document.\<close>

definition find_or_insert :: "string \<Rightarrow> doc \<Rightarrow> (world, bool \<times> pv \<times> doc) py" where
  "find_or_insert identifier media =
     bnd (catch (bnd (on_db (db_get_by ''media'' (PStr (''imdb-'' @ identifier)))) (\<lambda>h.
                 bnd (previous_profile (hit_doc h)) (\<lambda>pp. ret (Some (hit_doc h, pp)))))
            (\<lambda>_. ret None)) (\<lambda>found. case found of
         Some (m, pp) \<Rightarrow> ret (False, pp, dupdate m media)
       | None \<Rightarrow> bnd (on_db (db_insert media)) (\<lambda>r. ret (True, PNone, dupdate r (dupdate media r))))"

definition readd_doc :: "pv \<Rightarrow> pv \<Rightarrow> pv \<Rightarrow> int \<Rightarrow> doc \<Rightarrow> doc res" where
  "readd_doc prev profile cat_id t m =
     rbind (non_empty cat_id) (\<lambda>b.
       let m1 = dput m ''profile_id'' (if truthy prev then prev else profile);
           m2 = dput m1 ''category_id'' (if b then cat_id
                  else if truthy (dget m1 ''category_id'') then dget m1 ''category_id'' else PNone)
       in Inr (dput (dput m2 ''last_edit'' (PInt t)) ''tags'' (PList [])))"

definition added_message :: "doc \<Rightarrow> doc \<Rightarrow> pv" where
  "added_message params m =
     (let t = (if truthy (dget params ''title'') then dget params ''title'' else getTitle (PDict m))
      in PStr (if truthy t then ''Successfully added \"'' @ fmt t @ ''\" to your wanted list.''
               else ''Successfully added to your wanted list.''))"

text \<open>The part of \<open>add\<close> inside its \<open>try\<close>.\<close>

definition add_to_database :: "doc \<Rightarrow> string \<Rightarrow> string \<Rightarrow> string \<Rightarrow> pv \<Rightarrow> pv \<Rightarrow> bool \<Rightarrow> bool \<Rightarrow> bool \<Rightarrow> bool \<Rightarrow>
    (world, pv) py" where
  "add_to_database params identifier def_title status dflt info force_readd search_after0 update_after notify_after =
     (let cat_id = dget params ''category_id'' in
      bnd (liftr (if truthy (dget params ''profile_id'') then Inr (dget params ''profile_id'') else vget dflt ''_id'')) (\<lambda>profile.
      bnd (liftr (non_empty cat_id)) (\<lambda>b.
      let media = movie_doc identifier def_title status profile (if b \<and> cat_id \<noteq> PStr ''-1'' then cat_id else PNone)
                    (drop_key (drop_key info ''in_wanted'') ''in_library'')
      in bnd (find_or_insert identifier media) (\<lambda>(new, prev, m).
         bnd (liftr (rbind (dsub m ''_id'') as_str)) (\<lambda>i.
         bnd (gets (\<lambda>w. search_after0 \<and> truthy (conf w ''moviesearcher'' ''search_on_add''))) (\<lambda>search_after.
         bnd (if \<not> new \<and> force_readd
              then bnd (clean_history (truthy (dget params ''ignore_previous'')) i) (\<lambda>_.
                   bnd (gets now) (\<lambda>t.
                   bnd (liftr (readd_doc prev profile cat_id t m)) (\<lambda>m'.
                   bnd (on_db (db_update m')) (\<lambda>r. ret (dupdate m' r)))))
              else ret m) (\<lambda>m'.
         let added = (new \<or> force_readd) in
         bnd (whenp (added \<and> update_after)
                (fire_async ''movie.update'' [PStr i, dget params ''title'',
                   PStr (if new \<and> search_after then ''on_complete'' else [])])) (\<lambda>_.
         bnd (remove_available i) (\<lambda>_.
         bnd (media_get_event i) (\<lambda>movie_dict. case movie_dict of
             None \<Rightarrow> ret (PBool False)
           | Some d \<Rightarrow>
               bnd (whenp (\<not> new \<and> force_readd \<and> search_after) (createOnComplete i)) (\<lambda>_.
               bnd (whenp (added \<and> notify_after)
                      (fire_unit ''notify.frontend'' [PStr ''movie.added'', PDict d, added_message params m'])) (\<lambda>_.
               ret (PDict d)))))))))))))"

definition movie_add :: "doc \<Rightarrow> bool \<Rightarrow> bool \<Rightarrow> bool \<Rightarrow> bool \<Rightarrow> string \<Rightarrow> (world, pv) py" where
  "movie_add params0 force_readd0 search_after update_after notify_after status =
     bnd (liftr (rbind (as_str (dgetd params0 ''identifier'' (PStr []))) (\<lambda>t. getImdb (\<lambda>_. None) t False))) (\<lambda>imdb. case imdb of
         None \<Rightarrow> bnd (fire_unit ''notify.frontend'' [PStr ''movie.is_tvshow'']) (\<lambda>_. ret (PBool False))
       | Some identifier \<Rightarrow>
           (let params = dput params0 ''identifier'' (PStr identifier) in
            bnd (if truthy (dget params ''info'') then ret (PBool True)
                 else fire ''movie.is_movie'' [PStr identifier]) (\<lambda>is_movie.
              if \<not> truthy is_movie
              then bnd (fire_unit ''notify.frontend'' [PStr ''movie.is_tvshow'']) (\<lambda>_. ret (PBool False))
              else
                bnd (wanted_info params identifier) (\<lambda>info.
                bnd (liftr (force_flag params force_readd0)) (\<lambda>force_readd.
                bnd (liftr (getDefaultTitle info PNone)) (\<lambda>def_title.
                bnd (if \<not> truthy (dget params ''profile_id'') \<and> status \<noteq> ''done'' \<or> truthy (dget params ''ignore_previous'')
                     then call_handler (bnd default_profile (\<lambda>d. ret (PDict d)))
                     else ret (PDict [])) (\<lambda>dflt.
                catch
                  (add_to_database params identifier def_title status dflt info force_readd search_after update_after notify_after)
                  (\<lambda>_. ret PNone))))))))"

definition movie_addView :: "doc \<Rightarrow> (world, doc) py" where
  "movie_addView kwargs =
     bnd (movie_add kwargs True True True True []) (\<lambda>add_dict.
     ret [(''success'', PBool (truthy add_dict)), (''movie'', add_dict)])"

section \<open>Editing\<close>

definition edit_doc :: "doc \<Rightarrow> doc \<Rightarrow> doc res" where
  "edit_doc kwargs m =
     rbind (if truthy (dget kwargs ''profile_id'') then Inr (dget kwargs ''profile_id'') else dsub m ''profile_id'') (\<lambda>p.
       let m1 = dput m ''profile_id'' p; cat_id = dget kwargs ''category_id'' in
       if cat_id = PNone then Inr m1
       else rbind (non_empty cat_id) (\<lambda>b.
            rbind (if b then Inr cat_id else dsub m1 ''category_id'') (\<lambda>c. Inr (dput m1 ''category_id'' c))))"

definition edit_one :: "doc \<Rightarrow> string \<Rightarrow> (world, unit) py" where
  "edit_one kwargs media_id =
     catch
       (bnd (on_db (db_get media_id)) (\<lambda>m0.
        bnd (liftr (edit_doc kwargs m0)) (\<lambda>m1.
        bnd (liftr (rbind (dsub m1 ''_id'') as_str)) (\<lambda>i.
        bnd (remove_available i) (\<lambda>_.
        let m2 = (if truthy (dget kwargs ''default_title'') then dput m1 ''title'' (dget kwargs ''default_title'') else m1) in
        bnd (on_db (db_update m2)) (\<lambda>_.
        bnd (restatus i True []) (\<lambda>_.
        bnd (on_db (db_get media_id)) (\<lambda>m3.
        bnd (liftr (rbind (dsub m3 ''_id'') as_str)) (\<lambda>j.
        bnd (media_get_event j) (\<lambda>movie_dict.
        fire_async ''movie.searcher.single''
          [case movie_dict of None \<Rightarrow> PNone | Some d \<Rightarrow> PDict d, PStr (''notify_front '' @ media_id)]))))))))))
       (\<lambda>_. ret ())"

definition movie_edit :: "string \<Rightarrow> doc \<Rightarrow> (world, bool) py" where
  "movie_edit i kwargs =
     catch (bnd (for_each (splitString i '','' True) (edit_one kwargs)) (\<lambda>_. ret True)) (\<lambda>_. ret False)"

section \<open>Refreshing\<close>

definition needs_title :: "pv \<Rightarrow> doc \<Rightarrow> bool res" where
  "needs_title default_title media =
     (if truthy default_title \<or> dget media ''title'' = PStr ''UNKNOWN'' then Inr True
      else rbind (as_list (dgetd media ''title'' (PStr []))) (\<lambda>cs. Inr (cs = [])))"

definition update_media :: "(string \<Rightarrow> string) \<Rightarrow> (string \<Rightarrow> bool) \<Rightarrow> pv \<Rightarrow> doc \<Rightarrow> pv \<Rightarrow> (world, doc) py" where
  "update_media md5 isfile default_title media info =
     (let m1 = dput media ''info'' info in
      or_return (liftr (vgetd info ''titles'' (PList []))) m1 (\<lambda>_.
      or_return (liftr (rbind (needs_title default_title m1) (\<lambda>b.
          if b then rbind (getDefaultTitle info default_title) (\<lambda>t. Inr (dput m1 ''title'' (PStr t))) else Inr m1))) m1 (\<lambda>m2.
      or_return (liftr (vgetd info ''images'' (PList []))) m2 (\<lambda>image_urls.
      or_return (liftr (poster_files isfile m2)) m2 (\<lambda>m3.
      or_return (liftr (poster_images image_urls)) m3 (\<lambda>images.
      or_return (try_images md5 images (put_images m3 images)) (put_images m3 images) (\<lambda>m4.
      or_return (on_db (db_update m4)) m4 (\<lambda>r. ret (dupdate m4 r)))))))))"

definition lock_key :: "pv \<Rightarrow> pv \<Rightarrow> string" where
  "lock_key media_id identifier = (if truthy media_id then ''media.get.'' @ fmt media_id else fmt identifier)"

definition movie_update ::
  "(string \<Rightarrow> string) \<Rightarrow> (string \<Rightarrow> bool) \<Rightarrow> bool \<Rightarrow> pv \<Rightarrow> pv \<Rightarrow> pv \<Rightarrow> bool \<Rightarrow> (world, pv) py" where
  "movie_update md5 isfile stopping media_id identifier default_title extended =
     (if stopping then ret PNone else
      let release = fire_unit ''lock.release'' [PStr (lock_key media_id identifier)] in
      bnd (fire_unit ''lock.acquire'' [PStr (lock_key media_id identifier)]) (\<lambda>_.
      bnd (catch (bnd (if truthy media_id then bnd (liftr (as_str media_id)) (\<lambda>i. on_db (db_get i))
                       else bnd (on_db (db_get_by ''media'' (PStr (''imdb-'' @ fmt identifier)))) (\<lambda>h. ret (hit_doc h)))
                    (\<lambda>m. ret (Some m))) (\<lambda>_. ret None)) (\<lambda>found. case found of
          None \<Rightarrow> bnd release (\<lambda>_. ret (PDict []))
        | Some media \<Rightarrow> (case getIdentifier media of
              Inl _ \<Rightarrow> bnd release (\<lambda>_. ret (PDict media))
            | Inr ident \<Rightarrow>
                bnd (fire ''movie.info'' [PBool extended, ident]) (\<lambda>info0.
                let info = drop_key (drop_key info0 ''in_wanted'') ''in_library'' in
                if \<not> truthy info then ret (PBool False)
                else bnd (update_media md5 isfile default_title media info) (\<lambda>m.
                     bnd release (\<lambda>_. ret (PDict m))))))))"

definition default_dates :: doc where
  "default_dates = [(''dvd'', PInt 0), (''theater'', PInt 0), (''bluray'', PBool False)]"

definition dates_stale :: "int \<Rightarrow> pv \<Rightarrow> bool res" where
  "dates_stale t dates =
     (if \<not> truthy dates then Inr True
      else rbind (vget dates ''theater'') (\<lambda>th. rbind (vget dates ''dvd'') (\<lambda>dv.
           rbind (rbind (vgetd dates ''expires'' (PInt 0)) num_res) (\<lambda>e.
             Inr (e < of_int t \<or> of_int (t + 604800 * 4) < e \<or> \<not> truthy th \<and> \<not> truthy dv)))))"

definition updateReleaseDate :: "(string \<Rightarrow> string) \<Rightarrow> (string \<Rightarrow> bool) \<Rightarrow> bool \<Rightarrow> string \<Rightarrow> (world, pv) py" where
  "updateReleaseDate md5 isfile stopping media_id =
     catch
       (bnd (on_db (db_get media_id)) (\<lambda>media0.
        bnd (if truthy (dget media0 ''info'') then ret (PDict media0)
             else movie_update md5 isfile stopping (PStr media_id) PNone PNone False) (\<lambda>mv.
        bnd (liftr (as_dict mv)) (\<lambda>media.
        bnd (liftr (rbind (as_dict (dgetd media ''info'' (PDict []))) (\<lambda>info. Inr (dget info ''release_date'')))) (\<lambda>dates.
        bnd (gets now) (\<lambda>t.
        bnd (liftr (dates_stale t dates)) (\<lambda>stale.
        if \<not> stale then ret dates
        else bnd (liftr (getIdentifier media)) (\<lambda>ident.
             bnd (fire ''movie.info.release_date'' [ident]) (\<lambda>v.
             bnd (liftr (as_dict (if truthy v then v else PDict []))) (\<lambda>d.
             let dates' = PDict (dupdate default_dates d) in
             bnd (liftr (rbind (dsub media ''info'') as_dict)) (\<lambda>info.
             bnd (on_db (db_update (dput media ''info'' (PDict (dput info ''release_date'' dates'))))) (\<lambda>_.
             ret dates')))))))))))) 
       (\<lambda>_. ret (PDict []))"

section \<open>One media per identifier\<close>

definition imdb_key :: "string \<Rightarrow> doc \<Rightarrow> bool" where
  "imdb_key t d = has_key MediaIndex (PStr (''imdb-'' @ t)) d"

definition one_movie :: "world \<Rightarrow> string \<Rightarrow> bool" where
  "one_movie w t \<longleftrightarrow> (\<forall>i j d e. w_live w i = Some d \<longrightarrow> w_live w j = Some e \<longrightarrow> imdb_key t d \<longrightarrow> imdb_key t e \<longrightarrow> i = j)"

lemma the_index_media_id: "the_index ''media'' = Some MediaIndex"
  by (simp add: the_index_def index_table_def)

lemma media_hit_iff:
  assumes "db_ok s" "query ''media'' (PStr (''imdb-'' @ t)) s = Inr hs"
  shows "hs = [] \<longleftrightarrow> (\<forall>i d. live s i = Some d \<longrightarrow> \<not> imdb_key t d)"
proof -
  have mk: "make_key ''media'' (PStr (''imdb-'' @ t)) = PStr (''imdb-'' @ t)" by (simp add: make_key_def)
  have key: "imdb_key t d \<longleftrightarrow> (\<exists>ks val. MediaIndex d = Inr (Some (ks, val)) \<and> PStr (''imdb-'' @ t) \<in> set ks)" for d
    by (auto simp: imdb_key_def has_key_def split: sum.splits option.splits)
  show ?thesis
  proof
    assume "hs = []"
    with query_iff [OF assms(1) the_index_media_id assms(2)] show "\<forall>i d. live s i = Some d \<longrightarrow> \<not> imdb_key t d"
      unfolding mk key by (metis empty_iff list.set(1))
  next
    assume none: "\<forall>i d. live s i = Some d \<longrightarrow> \<not> imdb_key t d"
    have "h \<notin> set hs" for h
      using query_iff [OF assms(1) the_index_media_id assms(2), of h] none unfolding mk key by blast
    then show "hs = []" by (cases hs) auto
  qed
qed

lemma media_hit:
  assumes "db_ok s" "query ''media'' (PStr (''imdb-'' @ t)) s = Inr hs" "h \<in> set hs"
  shows "\<exists>i. live s i = Some (hit_doc h) \<and> imdb_key t (hit_doc h)"
  using query_iff [OF assms(1) the_index_media_id assms(2), of h] assms(3)
  by (auto simp: make_key_def imdb_key_def has_key_def mk_hit_def)

lemma ro_previous_profile: "keeps (=) (previous_profile m)"
  unfolding previous_profile_def by (auto intro!: ro.keeps_intros read_only_on_db)

lemma previous_profile_ok: "\<exists>v. previous_profile m w = (Inr v, w)"
proof -
  obtain r v where rv: "previous_profile m w = (r, v)" by (cases "previous_profile m w")
  then have "v = w" using keeps_eqD [OF ro_previous_profile rv] by simp
  moreover obtain x where "r = Inr x"
    using rv by (auto simp: previous_profile_def py_simps split: prod.splits sum.splits)
  ultimately show ?thesis using rv by blast
qed

lemma media_query_ok: "\<exists>hs. query ''media'' key s = Inr hs"
  by (simp add: query_def the_index_media_id)

text \<open>What \<open>find_or_insert\<close> does: nothing to the database when the identifier is known, and an
  insertion otherwise.\<close>

lemma find_or_insert_cases:
  assumes "w_ok w" "find_or_insert t media w = (r, w')"
  shows "(w' = w \<and> (\<exists>i d v. r = Inr (False, v, dupdate d media) \<and> w_live w i = Some d \<and> imdb_key t d)) \<or>
    ((\<forall>i d. w_live w i = Some d \<longrightarrow> \<not> imdb_key t d) \<and>
     ((\<exists>e. r = Inl e) \<and> (\<forall>j. w_live w' j = w_live w j) \<or>
      (\<exists>i rv. r = Inr (True, PNone, dupdate (ret_meta i rv) (dupdate media (ret_meta i rv))) \<and> w_live w i = None \<and> w_live w' i = Some (with_meta i rv (strip_meta media)) \<and>
         (\<forall>j. j \<noteq> i \<longrightarrow> w_live w' j = w_live w j))))"
proof -
  have ok: "db_ok (store w)" using assms(1) by (simp add: w_ok_def)
  obtain hs where hs: "query ''media'' (PStr (''imdb-'' @ t)) (store w) = Inr hs" using media_query_ok by blast
  show ?thesis
  proof (cases hs)
    case (Cons h hs')
    obtain v where v: "previous_profile (hit_doc h) w = (Inr v, w)" using previous_profile_ok by blast
    have "w' = w" "r = Inr (False, v, dupdate (hit_doc h) media)" using assms(2) hs Cons v
      by (simp_all add: find_or_insert_def py_simps db_get_by_def)
    moreover have "\<exists>i. w_live w i = Some (hit_doc h) \<and> imdb_key t (hit_doc h)"
      using media_hit [OF ok hs, of h] Cons by (simp add: w_live_def)
    ultimately show ?thesis by blast
  next
    case Nil
    have none: "\<forall>i d. w_live w i = Some d \<longrightarrow> \<not> imdb_key t d"
      using media_hit_iff [OF ok hs] Nil by (simp add: w_live_def)
    obtain x s' where x: "db_insert media (store w) = (x, s')" by fastforce
    then have "store w' = s'" "r = (case x of Inl e \<Rightarrow> Inl e | Inr d \<Rightarrow> Inr (True, PNone, dupdate d (dupdate media d)))"
      using assms(2) hs Nil by (auto simp: find_or_insert_def py_simps db_get_by_def split: prod.splits sum.splits)
    note res = this
    from db_insert_adds [OF x] show ?thesis
    proof (elim disjE exE conjE)
      fix e assume "x = Inl e" "\<forall>j. live s' j = live (store w) j"
      with res none show ?thesis by (simp add: w_live_def)
    next
      fix i rv assume h: "x = Inr (ret_meta i rv)" "live (store w) i = None"
        "live s' i = Some (with_meta i rv (strip_meta media))" "\<forall>j. j \<noteq> i \<longrightarrow> live s' j = live (store w) j"
      with res none show ?thesis by (intro disjI2 conjI exI [of _ i] exI [of _ rv]) (simp_all add: w_live_def)
    qed
  qed
qed

lemma movie_doc_key:
  "imdb_key s (with_meta i r (strip_meta (movie_doc t title st prof cat info))) \<longleftrightarrow> s = t"
proof -
  have "map_of (with_meta i r (strip_meta (movie_doc t title st prof cat info))) k =
      map_of (movie_doc t title st prof cat info) k" if "k \<noteq> ''_id''" "k \<noteq> ''_rev''" for k
    using that by simp
  then show ?thesis
    by (auto simp: imdb_key_def has_key_def MediaIndex_def is_type_def dget_def dgetd_def movie_doc_def dhas_def)
qed

lemma find_or_insert_one_movie:
  assumes "w_ok w" "one_movie w s" "find_or_insert t (movie_doc t title st prof cat info) w = (r, w')"
  shows "one_movie w' s"
proof -
  let ?m = "movie_doc t title st prof cat info"
  from find_or_insert_cases [OF assms(1,3)] consider "\<forall>j. w_live w' j = w_live w j"
    | i rv where "\<forall>i d. w_live w i = Some d \<longrightarrow> \<not> imdb_key t d"
        "w_live w' i = Some (with_meta i rv (strip_meta ?m))" "\<forall>j. j \<noteq> i \<longrightarrow> w_live w' j = w_live w j"
    by blast
  then show ?thesis
  proof cases
    case 1
    with assms(2) show ?thesis by (simp add: one_movie_def)
  next
    case 2
    have new: "imdb_key s (with_meta i rv (strip_meta ?m)) \<longleftrightarrow> s = t" by (rule movie_doc_key)
    show ?thesis unfolding one_movie_def
    proof (intro allI impI)
      fix a b d e assume h: "w_live w' a = Some d" "w_live w' b = Some e" "imdb_key s d" "imdb_key s e"
      have old: "w_live w x = Some y" if "w_live w' x = Some y" "x \<noteq> i" for x y using that 2(3) by simp
      consider "a = i" "b = i" | "a = i" "b \<noteq> i" | "a \<noteq> i" "b = i" | "a \<noteq> i" "b \<noteq> i" by blast
      then show "a = b"
      proof cases
        case x: 2
        then have "s = t" using h(1,3) 2(2) new by simp
        with old [OF h(2) x(2)] h(4) 2(1) show ?thesis by blast
      next
        case x: 3
        then have "s = t" using h(2,4) 2(2) new by simp
        with old [OF h(1) x(1)] h(3) 2(1) show ?thesis by blast
      next
        case x: 4
        with old [OF h(1)] old [OF h(2)] h(3,4) assms(2) show ?thesis unfolding one_movie_def by blast
      qed simp
    qed
  qed
qed

text \<open>The rest of the operation: it deletes releases, marks them, and writes the media it found, so no
  other document gets the identifier.\<close>

definition keyed_in :: "string \<Rightarrow> string set \<Rightarrow> world \<Rightarrow> bool" where
  "keyed_in s S w \<longleftrightarrow> w_ok w \<and> (\<forall>i d. w_live w i = Some d \<longrightarrow> imdb_key s d \<longrightarrow> i \<in> S)"

definition stays_in :: "string \<Rightarrow> string set \<Rightarrow> world \<Rightarrow> world \<Rightarrow> bool" where
  "stays_in s S w v \<longleftrightarrow> (keyed_in s S w \<longrightarrow> keyed_in s S v)"

interpretation si: frame "stays_in s S" for s S
  by unfold_locales (auto simp: stays_in_def)

definition stays_one :: "string \<Rightarrow> world \<Rightarrow> world \<Rightarrow> bool" where
  "stays_one s w v \<longleftrightarrow> (w_ok w \<and> one_movie w s \<longrightarrow> w_ok v \<and> one_movie v s)"

interpretation so: frame "stays_one s" for s
  by unfold_locales (auto simp: stays_one_def)

lemma imdb_key_cong:
  assumes "\<And>k. k \<in> {''_t'', ''identifier'', ''identifiers''} \<Longrightarrow> map_of d k = map_of e k"
  shows "imdb_key s d = imdb_key s e"
proof -
  have "dget d ''_t'' = dget e ''_t''" "dget d ''identifier'' = dget e ''identifier''"
    "dget d ''identifiers'' = dget e ''identifiers''" "dgetd d ''identifiers'' (PDict []) = dgetd e ''identifiers'' (PDict [])"
    using assms by (simp_all add: dget_def dgetd_def)
  then have "MediaIndex d = MediaIndex e" by (simp only: MediaIndex_def is_type_def)
  then show ?thesis by (simp only: imdb_key_def has_key_def)
qed

lemma keyed_read:
  "keeps (=) m \<Longrightarrow> keeps (stays_in s S) m" "keeps (=) m \<Longrightarrow> keeps (stays_one s) m"
  by (auto simp: keeps_def stays_in_def stays_one_def)

lemma keyed_fire:
  "keeps (stays_in s S) (fire n args)" "keeps (stays_in s S) (fire_unit n args)"
  "keeps (stays_one s) (fire n args)" "keeps (stays_one s) (fire_unit n args)"
  by (simp_all add: keeps_def fire_def fire_unit_run stays_in_def stays_one_def keyed_in_def w_ok_def w_live_def one_movie_def)

lemma db_delete_shrinks: "live (snd (db_delete d s)) j = Some x \<Longrightarrow> live s j = Some x"
  by (auto simp: db_delete_def py_simps db_get_def live_set_entry split: if_splits pv.splits sum.splits option.splits
      entry.splits)

lemma keyed_in_db:
  assumes "keeps db_step m" "\<And>j d. keyed_in s S w \<Longrightarrow> live (snd (m (store w))) j = Some d \<Longrightarrow> imdb_key s d \<Longrightarrow> j \<in> S"
  shows "stays_in s S w (snd (on_db m w))"
  using keepsD [OF assms(1), of "store w"] assms(2)
  by (simp add: stays_in_def keyed_in_def db_step_def w_ok_def w_live_def store_on_db)

lemma si_db_delete: "keeps (stays_in s S) (on_db (db_delete d))"
  by (intro keepsI keyed_in_db [OF keeps_db_delete])
    (auto simp: keyed_in_def w_live_def dest: db_delete_shrinks)

lemma si_db_update:
  assumes "\<And>i. dget d ''_id'' = PStr i \<Longrightarrow> imdb_key s d \<Longrightarrow> i \<in> S"
  shows "keeps (stays_in s S) (on_db (db_update d))"
proof (intro keepsI keyed_in_db [OF keeps_db_update])
  fix w :: world and j e
  let ?t = "snd (db_update d (store w))"
  assume h: "keyed_in s S w" "live ?t j = Some e" "imdb_key s e"
  have key: "imdb_key s (with_meta i r (strip_meta d)) = imdb_key s d" for i r by (rule imdb_key_cong) auto
  from db_update_adds [OF prod.collapse [symmetric], of d "store w"] show "j \<in> S"
  proof (elim disjE exE conjE)
    fix i r assume "dget d ''_id'' = PStr i" "live ?t i = Some (with_meta i r (strip_meta d))"
      "\<forall>j. j \<noteq> i \<longrightarrow> live ?t j = live (store w) j"
    with h key assms show ?thesis by (cases "j = i") (auto simp: keyed_in_def w_live_def)
  qed (use h in \<open>auto simp: keyed_in_def w_live_def\<close>)
qed

lemma si_get_bnd:
  assumes "\<And>d. dget d ''_id'' = PStr i \<Longrightarrow> (imdb_key s d \<Longrightarrow> i \<in> S) \<Longrightarrow> keeps (stays_in s S) (f d)"
  shows "keeps (stays_in s S) (bnd (on_db (db_get i)) f)"
proof (rule keepsI)
  fix w :: world
  show "stays_in s S w (snd (bnd (on_db (db_get i)) f w))"
  proof (cases "w_live w i")
    case None
    then have "snd (bnd (on_db (db_get i)) f w) = w"
      by (auto simp: py_simps db_get_def w_live_def live_def split: option.splits entry.splits)
    then show ?thesis by (simp add: si.frame_refl)
  next
    case (Some d)
    show ?thesis unfolding stays_in_def
    proof
      assume k: "keyed_in s S w"
      then have "bnd (on_db (db_get i)) f w = f d w" "dget d ''_id'' = PStr i" "imdb_key s d \<Longrightarrow> i \<in> S"
        using ws.get_law [of w i d] ws.meta_law [of w i d] Some by (auto simp: keyed_in_def py_simps simp del: on_db_run)
      with keepsD [OF assms, of d w] k show "keyed_in s S (snd (bnd (on_db (db_get i)) f w))" by (simp add: stays_in_def)
    qed
  qed
qed

lemma imdb_key_mark: "imdb_key s (mark_release d st t) = imdb_key s d"
  by (rule imdb_key_cong) (auto simp: mark_release_def dput_def update_conv')

lemma si_updateStatus: "keeps (stays_in s S) (updateStatus r st)"
  unfolding updateStatus_def
  by (intro keeps_cond si.keeps_catch si_get_bnd si.keeps_bnd si.keeps_ret si.keeps_liftr si.keeps_gets si_db_update keyed_fire)
    (auto simp: imdb_key_mark, simp_all add: mark_release_def)

lemma si_delete_release: "keeps (stays_in s S) (delete_release r)"
  unfolding delete_release_def
  by (auto intro!: si.keeps_intros keyed_read(1) [OF read_only_on_db(1)] si_db_delete)

lemma si_remove_available: "keeps (stays_in s S) (remove_available i)"
  unfolding remove_available_def
  by (auto intro!: si.keeps_intros keyed_read(1) [OF ro_forMedia_event] si_db_delete)

lemma si_clean_history: "keeps (stays_in s S) (clean_history b i)"
  unfolding clean_history_def
  by (auto intro!: si.keeps_intros keyed_read(1) [OF ro_forMedia_event] si_updateStatus si_delete_release)

lemma readd_doc_keys:
  "readd_doc prev profile cat t m = Inr m' \<Longrightarrow> imdb_key s m' = imdb_key s m \<and> dget m' ''_id'' = dget m ''_id''"
  by (auto simp: readd_doc_def rbind_eq_Inr Let_def dput_def update_conv' dget_def intro!: imdb_key_cong)

lemma si_readd:
  assumes "\<And>i. dget m ''_id'' = PStr i \<Longrightarrow> imdb_key s m \<Longrightarrow> i \<in> S"
  shows "keeps (stays_in s S) (bnd (clean_history b j) (\<lambda>_. bnd (gets now) (\<lambda>t.
    bnd (liftr (readd_doc prev profile cat t m)) (\<lambda>m'. bnd (on_db (db_update m')) (\<lambda>r. ret (dupdate m' r))))))"
proof (rule si.keeps_bnd [OF si_clean_history], rule si.keeps_bnd [OF si.keeps_gets], rule si.keeps_liftr_bnd)
  fix t m' assume "readd_doc prev profile cat t m = Inr m'"
  with readd_doc_keys have "imdb_key s m' = imdb_key s m" "dget m' ''_id'' = dget m ''_id''" by blast+
  with assms have "keeps (stays_in s S) (on_db (db_update m'))" by (intro si_db_update) simp
  then show "keeps (stays_in s S) (bnd (on_db (db_update m')) (\<lambda>r. ret (dupdate m' r)))"
    by (rule si.keeps_bnd) (rule si.keeps_ret)
qed

lemma dupdate_movie_doc:
  "map_of (dupdate d (movie_doc t title st prof cat info)) k =
     (case map_of (movie_doc t title st prof cat info) k of None \<Rightarrow> map_of d k | Some v \<Rightarrow> Some v)"
  by (simp add: movie_doc_def dupdate_def dput_def update_conv')

lemma movie_doc_update_key: "imdb_key s (dupdate d (movie_doc t title st prof cat info)) \<longleftrightarrow> s = t"
proof -
  let ?m = "dupdate d (movie_doc t title st prof cat info)"
  have "dget ?m ''_t'' = PStr ''media''" "dget ?m ''identifiers'' = PDict [(''imdb'', PStr t)]"
    "dgetd ?m ''identifiers'' (PDict []) = PDict [(''imdb'', PStr t)]"
    by (simp_all add: dget_def dgetd_def dupdate_movie_doc) (simp_all add: movie_doc_def)
  then have "MediaIndex ?m = Inr (Some ([PStr (''imdb-'' @ t)], []))"
    by (simp add: MediaIndex_def is_type_def dhas_def)
  then show ?thesis by (auto simp: imdb_key_def has_key_def)
qed

lemma keeps_find_or_insert: "keeps w_step (find_or_insert t d)"
  unfolding find_or_insert_def previous_profile_def by (auto intro!: keeps_w split: option.split)

text \<open>What follows the lookup can rely on the media it works with: when the identifier belongs to it, its id is one of
  those that have the identifier.\<close>

lemma so_find_bnd:
  assumes f: "\<And>S new prev m. (\<And>i. dget m ''_id'' = PStr i \<Longrightarrow> imdb_key s m \<Longrightarrow> i \<in> S) \<Longrightarrow>
      keeps (stays_in s S) (f (new, prev, m))"
  shows "keeps (stays_one s) (bnd (find_or_insert t (movie_doc t title st prof cat info)) f)"
proof (rule keepsI)
  fix w :: world
  let ?d = "movie_doc t title st prof cat info"
  obtain r w1 where fi: "find_or_insert t ?d w = (r, w1)" by fastforce
  show "stays_one s w (snd (bnd (find_or_insert t ?d) f w))" unfolding stays_one_def
  proof
    assume a: "w_ok w \<and> one_movie w s"
    have one: "one_movie w1 s" using find_or_insert_one_movie [OF _ _ fi] a by blast
    have ok: "w_ok w1" using keepsD [OF keeps_find_or_insert, of w t ?d] fi a by (simp add: w_step_def db_step_def w_ok_def)
    define S where "S = {i. \<exists>d. w_live w1 i = Some d \<and> imdb_key s d}"
    have k: "keyed_in s S w1" using ok by (auto simp: keyed_in_def S_def)
    show "w_ok (snd (bnd (find_or_insert t ?d) f w)) \<and> one_movie (snd (bnd (find_or_insert t ?d) f w)) s"
    proof (cases r)
      case (Inl e)
      with fi one ok show ?thesis by (simp add: py_simps)
    next
      case (Inr x)
      obtain new prev m where x: "x = (new, prev, m)" by (cases x) auto
      have m: "i \<in> S" if "dget m ''_id'' = PStr i" "imdb_key s m" for i
        using find_or_insert_cases [OF conjunct1 [OF a] fi]
      proof (elim disjE conjE exE)
        fix j d v assume h: "w1 = w" "r = Inr (False, v, dupdate d ?d)" "w_live w j = Some d" "imdb_key t d"
        then have m: "m = dupdate d ?d" using Inr x by simp
        have "map_of ?d ''_id'' = None" by (simp add: movie_doc_def)
        then have "dget m ''_id'' = dget d ''_id''" by (simp add: m dget_def dupdate_movie_doc)
        moreover have "s = t" using that(2) by (simp only: m movie_doc_update_key)
        moreover have "dget d ''_id'' = PStr j" using ws.meta_law [OF ok] h by blast
        ultimately show "i \<in> S" using that h by (auto simp: S_def)
      next
        fix j rv assume h: "r = Inr (True, PNone, dupdate (ret_meta j rv) (dupdate ?d (ret_meta j rv)))"
          "w_live w1 j = Some (with_meta j rv (strip_meta ?d))"
        have "m = dupdate (ret_meta j rv) (dupdate ?d (ret_meta j rv))" using h Inr x by simp
        then have "dget m ''_id'' = PStr j" "imdb_key s m = imdb_key s (with_meta j rv (strip_meta ?d))"
          by (auto simp: dget_def dupdate_def ret_meta_def movie_doc_def dput_def update_conv' with_meta_def strip_meta_def
              dremove_def delete_conv' intro!: imdb_key_cong)
        with h that show "i \<in> S" by (auto simp: S_def)
      qed (use Inr in simp)
      have "snd (bnd (find_or_insert t ?d) f w) = snd (f (new, prev, m) w1)" using fi Inr x by (simp add: py_simps)
      moreover have "keeps (stays_in s S) (f (new, prev, m))" by (rule f [OF m])
      ultimately have "keyed_in s S (snd (bnd (find_or_insert t ?d) f w))"
        using keepsD [of "stays_in s S" "f (new, prev, m)" w1] k by (simp add: stays_in_def)
      with one show ?thesis unfolding keyed_in_def one_movie_def S_def by blast
    qed
  qed
qed

lemma si_media_get: "keeps (stays_in s S) (media_get_event i)"
  unfolding media_get_event_def by (auto intro!: keyed_read(1) [OF ro_media_get] si.keeps_intros)

lemma si_createOnComplete: "keeps (stays_in s S) (createOnComplete i)"
  unfolding createOnComplete_def fire_async_def
  by (auto intro!: si.keeps_intros keyed_fire si_media_get split: option.split)

lemma so_add_to_database:
  "keeps (stays_one s) (add_to_database params t title st dflt info force_readd searching updating notifying)"
  unfolding add_to_database_def Let_def
  by (rule so.keeps_bnd, rule so.keeps_liftr, rule so.keeps_bnd, rule so.keeps_liftr, rule so_find_bnd, unfold prod.case)
    (auto intro!: si_readd si.keeps_intros si_clean_history si_remove_available si_media_get si_createOnComplete
      keyed_fire keeps_cond simp: fire_async_def split: option.split)

text \<open>C2: adding a movie, the whole operation with the releases it deletes or marks and the media it writes, never
  leads to two media with the same IMDb identifier: if there is at most one before, there is at most one after.\<close>

theorem add_keeps_one_movie:
  assumes "w_ok w" "one_movie w s"
  shows "one_movie (snd (movie_add params force_readd search_after update_after notify_after status w)) s"
proof -
  have "keeps (stays_one s) (movie_add params force_readd search_after update_after notify_after status)"
    unfolding movie_add_def wanted_info_def Let_def call_handler_def default_profile_def
    by (auto intro!: so.keeps_intros so_add_to_database keyed_fire keyed_read(2) [OF read_only_on_db(4)] keeps_cond
        split: option.split)
  from keepsD [OF this, of w] assms show ?thesis by (simp add: stays_one_def)
qed

definition known_movie_world :: world where
  "known_movie_world = demo_world\<lparr>store := empty_db\<lparr>docs :=
     [(oid (CHR ''m''), Live ''00010000'' [(''_t'', PStr ''media''), (''status'', PStr ''done''),
         (''identifiers'', PDict [(''imdb'', PStr ''tt0133093'')])])]\<rparr>\<rparr>"

lemma known_movie_live:
  "w_ok known_movie_world" "w_live known_movie_world i = (if i = oid (CHR ''m'') then
     Some (with_meta i ''00010000'' [(''_t'', PStr ''media''), (''status'', PStr ''done''),
       (''identifiers'', PDict [(''imdb'', PStr ''tt0133093'')])]) else None)"
  by (simp_all add: w_ok_def known_movie_world_def demo_world_def empty_db_def db_ok_def oid_def rev_ok_def
      hex_val_def is_digit_def cp_def dhas_def w_live_def live_def lookup_def)

text \<open>The movie that is asked for is there: the lookup finds it and inserts nothing, and after the whole operation
  there is still one.\<close>

theorem add_keeps_one_movie_witness:
  "snd (find_or_insert ''tt0133093'' (movie_doc ''tt0133093'' ''The Matrix'' [] PNone PNone (PDict [])) known_movie_world)
     = known_movie_world \<and>
   one_movie (snd (movie_add [(''identifier'', PStr ''tt0133093''), (''profile_id'', PStr ''p''),
     (''info'', PDict [(''titles'', PList [PStr ''The Matrix''])])] True True True True [] known_movie_world)) ''tt0133093''"
proof
  let ?d = "with_meta (oid (CHR ''m'')) ''00010000'' [(''_t'', PStr ''media''), (''status'', PStr ''done''),
      (''identifiers'', PDict [(''imdb'', PStr ''tt0133093'')])]"
  have k: "imdb_key ''tt0133093'' ?d"
    by (simp add: imdb_key_def has_key_def MediaIndex_def is_type_def doc_eval)
  have l: "w_live known_movie_world (oid (CHR ''m'')) = Some ?d" by (simp add: known_movie_live)
  from find_or_insert_cases [OF known_movie_live(1) prod.collapse [symmetric],
      of "''tt0133093''" "movie_doc ''tt0133093'' ''The Matrix'' [] PNone PNone (PDict [])"]
  show "snd (find_or_insert ''tt0133093'' (movie_doc ''tt0133093'' ''The Matrix'' [] PNone PNone (PDict [])) known_movie_world)
     = known_movie_world" using l k by blast
  have "one_movie known_movie_world ''tt0133093''" by (simp add: one_movie_def known_movie_live)
  then show "one_movie (snd (movie_add [(''identifier'', PStr ''tt0133093''), (''profile_id'', PStr ''p''),
     (''info'', PDict [(''titles'', PList [PStr ''The Matrix''])])] True True True True [] known_movie_world)) ''tt0133093''"
    by (rule add_keeps_one_movie [OF known_movie_live(1)])
qed

text \<open>Re-adding a movie without naming a category loses the category it had: the new values are
  written over the document before its old category is looked at.\<close>

theorem readd_loses_category:
  "readd_doc prev profile PNone t (dupdate m (movie_doc i title st prof PNone info)) = Inr m' \<Longrightarrow>
   dget m' ''category_id'' = PNone"
proof -
  have c: "dget (dupdate m (movie_doc i title st prof PNone info)) ''category_id'' = PNone"
    by (simp add: movie_doc_def dupdate_def dget_dput)
  assume "readd_doc prev profile PNone t (dupdate m (movie_doc i title st prof PNone info)) = Inr m'"
  with c show ?thesis by (auto simp: readd_doc_def non_empty_def Let_def dget_dput)
qed

theorem readd_loses_category_witness:
  "\<exists>m'. readd_doc PNone PNone PNone 7 (dupdate [(''category_id'', PStr ''c1'')]
      (movie_doc ''tt1'' ''x'' [] PNone PNone (PDict []))) = Inr m' \<and> dget m' ''category_id'' = PNone"
proof -
  obtain m' where m': "readd_doc PNone PNone PNone 7 (dupdate [(''category_id'', PStr ''c1'')]
      (movie_doc ''tt1'' ''x'' [] PNone PNone (PDict []))) = Inr m'"
    by (simp add: readd_doc_def non_empty_def Let_def)
  with readd_loses_category [OF m'] show ?thesis by blast
qed

section \<open>The lock of an update\<close>

definition lock_count :: "string \<Rightarrow> string \<Rightarrow> world \<Rightarrow> nat" where
  "lock_count n k w = length (filter (\<lambda>e. e = (n, [PStr k])) (fired w))"

definition held :: "world \<Rightarrow> string \<Rightarrow> int" where
  "held w k = int (lock_count ''lock.acquire'' k w) - int (lock_count ''lock.release'' k w)"

definition same_locks :: "world \<Rightarrow> world \<Rightarrow> bool" where
  "same_locks w v \<longleftrightarrow> (\<forall>k. held v k = held w k)"

interpretation lk: frame same_locks
  by unfold_locales (auto simp: same_locks_def)

lemma same_locks_on_db: "keeps same_locks (on_db m)"
  by (auto simp: keeps_def on_db_def same_locks_def held_def lock_count_def split: prod.split)

lemma same_locks_fire: "n \<notin> {''lock.acquire'', ''lock.release''} \<Longrightarrow> keeps same_locks (fire n args)"
  by (auto simp: keeps_def fire_def same_locks_def held_def lock_count_def)

lemma same_locks_or_return:
  "keeps same_locks m \<Longrightarrow> (\<And>x. keeps same_locks (k x)) \<Longrightarrow> keeps same_locks (or_return m v k)"
  unfolding keeps_def by (auto simp: or_return_run split: prod.split sum.split)
    (metis keepsD keepsI lk.frame_refl lk.frame_trans snd_conv)+

lemma same_locks_try_images: "keeps same_locks (try_images md5 imgs m)"
  by (induction imgs arbitrary: m) (auto simp: Let_def intro!: lk.keeps_intros same_locks_fire)

lemma same_locks_update_media: "keeps same_locks (update_media md5 isfile dt m info)"
  unfolding update_media_def Let_def
  by (intro same_locks_or_return lk.keeps_intros same_locks_on_db same_locks_try_images)

lemma update_media_ok: "\<exists>v w'. update_media md5 isfile dt m info w = (Inr v, w')"
  unfolding update_media_def Let_def
  by (auto simp: or_return_run ret_run split: prod.split sum.split)

lemma held_acquire: "held (w\<lparr>fired := fired w @ [(''lock.acquire'', [PStr k])]\<rparr>) k = held w k + 1"
  by (simp add: held_def lock_count_def)

lemma held_release: "held (w\<lparr>fired := fired w @ [(''lock.release'', [PStr k])]\<rparr>) k = held w k - 1"
  by (simp add: held_def lock_count_def)

definition found_media :: "pv \<Rightarrow> pv \<Rightarrow> (world, doc option) py" where
  "found_media media_id identifier =
     catch (bnd (if truthy media_id then bnd (liftr (as_str media_id)) (\<lambda>i. on_db (db_get i))
                 else bnd (on_db (db_get_by ''media'' (PStr (''imdb-'' @ fmt identifier)))) (\<lambda>h. ret (hit_doc h)))
              (\<lambda>m. ret (Some m))) (\<lambda>_. ret None)"

lemma found_media_ok: "\<exists>r. found_media mid idn w = (Inr r, w)"
proof -
  have ro: "keeps (=) (found_media mid idn)"
    unfolding found_media_def by (auto intro!: ro.keeps_intros read_only_on_db)
  obtain r v where rv: "found_media mid idn w = (r, v)" by (cases "found_media mid idn w")
  then have "v = w" using keeps_eqD [OF ro rv] by simp
  moreover obtain x where "r = Inr x"
    using rv by (auto simp: found_media_def py_simps split: prod.splits sum.splits)
  ultimately show ?thesis using rv by blast
qed

text \<open>Refreshing a movie never raises, and it gives its lock back in every case but one: when the
  providers know nothing, it returns \<open>False\<close> with the lock of that movie still taken.\<close>

theorem movie_update_lock:
  "\<exists>v w'. movie_update md5 isfile stopping media_id identifier default_title extended w = (Inr v, w') \<and>
     held w' (lock_key media_id identifier) =
       held w (lock_key media_id identifier) + (if v = PBool False then 1 else 0)"
proof (cases stopping)
  case True
  then show ?thesis by (simp add: movie_update_def py_simps)
next
  case False
  let ?k = "lock_key media_id identifier"
  let ?w = "w\<lparr>fired := fired w @ [(''lock.acquire'', [PStr ?k])]\<rparr>"
  let ?rel = "\<lambda>v. v\<lparr>fired := fired v @ [(''lock.release'', [PStr ?k])]\<rparr>"
  obtain r where r: "found_media media_id identifier ?w = (Inr r, ?w)" using found_media_ok by blast
  have start: "movie_update md5 isfile stopping media_id identifier default_title extended w =
    (case r of
          None \<Rightarrow> (Inr (PDict []), ?rel ?w)
        | Some media \<Rightarrow> (case getIdentifier media of
              Inl _ \<Rightarrow> (Inr (PDict media), ?rel ?w)
            | Inr ident \<Rightarrow>
                bnd (fire ''movie.info'' [PBool extended, ident]) (\<lambda>info0.
                let info = drop_key (drop_key info0 ''in_wanted'') ''in_library'' in
                if \<not> truthy info then ret (PBool False)
                else bnd (update_media md5 isfile default_title media info) (\<lambda>m.
                     bnd (fire_unit ''lock.release'' [PStr ?k]) (\<lambda>_. ret (PDict m)))) ?w))"
    using False r unfolding found_media_def movie_update_def Let_def
    by (simp only: if_False bnd_run [of "fire_unit _ _"] fire_unit_run prod.case sum.case bnd_run [of "catch _ _"])
      (simp add: bnd_run [of "fire_unit _ _"] fire_unit_run ret_run split: option.split sum.split)
  show ?thesis
  proof (cases r)
    case None
    then show ?thesis using start by (simp add: held_def lock_count_def)
  next
    case (Some media)
    show ?thesis
    proof (cases "getIdentifier media")
      case (Inl e)
      then show ?thesis using start Some by (simp add: held_def lock_count_def)
    next
      case (Inr ident)
      let ?args = "[PBool extended, ident]"
      let ?info = "drop_key (drop_key (ans ?w (fired ?w) ''movie.info'' ?args) ''in_wanted'') ''in_library''"
      let ?v = "?w\<lparr>fired := fired ?w @ [(''movie.info'', ?args)]\<rparr>"
      have hv: "held ?v ?k = held w ?k + 1"
        using held_acquire [of w ?k] by (simp add: held_def lock_count_def)
      show ?thesis
      proof (cases "truthy ?info")
        case False
        then have "movie_update md5 isfile stopping media_id identifier default_title extended w = (Inr (PBool False), ?v)"
          using start Some Inr by (simp add: bnd_run [of "fire _ _"] fire_run Let_def ret_run)
        then show ?thesis using hv by simp
      next
        case True
        obtain m u where u: "update_media md5 isfile default_title media ?info ?v = (Inr m, u)"
          using update_media_ok by blast
        have "movie_update md5 isfile stopping media_id identifier default_title extended w = (Inr (PDict m), ?rel u)"
          using True u start Some Inr
          by (simp add: bnd_run [of "fire _ _"] fire_run Let_def bnd_run [of "update_media _ _ _ _ _"]
              bnd_run [of "fire_unit _ _"] fire_unit_run ret_run)
        moreover have "held u ?k = held ?v ?k"
          using keepsD [OF same_locks_update_media, of ?v md5 isfile default_title media ?info] u
          by (simp add: same_locks_def)
        ultimately show ?thesis using hv by (simp add: held_release)
      qed
    qed
  qed
qed

text \<open>When the information of the providers has no images, the refreshed media is not written:
  the default for the images is a list where a dictionary is expected.\<close>

theorem update_without_images:
  assumes "\<not> dhas info ''images''"
  shows "store (snd (update_media md5 isfile default_title media (PDict info) w)) = store w"
proof -
  have "dgetd info ''images'' (PList []) = PList []"
    using assms by (auto simp: dgetd_def dhas_def)
  then have "poster_images (dgetd info ''images'' (PList [])) = Inl AttributeError"
    by (simp add: poster_images_def)
  then show ?thesis
    by (simp add: update_media_def Let_def or_return_run liftr_run split: prod.split sum.split)
qed

theorem update_without_images_witness:
  "store (snd (update_media (\<lambda>s. s) (\<lambda>_. True) PNone media_doc (PDict [(''titles'', PList [PStr ''The Matrix''])]) demo_media_world))
   = store demo_media_world"
  by (rule update_without_images) (simp add: dhas_def)

end
