(* ===== verification/Release.thy ===== *)
theory Release
  imports MovieBase
begin

text \<open>
  couchpotato/core/plugins/release/main.py: what a release goes through. Adding one for files that
  are there, recording the results of a search, trying the results in their order, snatching one,
  and the weekly clean-up. A method of a provider inside a search result is the tuple
  \<open>('method', name)\<close>; calling it is the argument \<open>fetch\<close>. \<open>md5\<close> is an argument. Rebuilding the
  index files (\<open>db.reindex\<close>) changes no document.
\<close>

section \<open>Adding a release for files\<close>

definition release_identifier :: "doc \<Rightarrow> string res" where
  "release_identifier gr =
     rbind (dsub gr ''identifier'') (\<lambda>i.
     rbind (dsub gr ''meta_data'') (\<lambda>md.
     rbind (vgetd md ''audio'' (PStr ''unknown'')) (\<lambda>audio.
     rbind (rbind (vsub md ''quality'') (\<lambda>q. vsub q ''identifier'')) (\<lambda>qi.
       Inr (fmt i @ ''.'' @ fmt audio @ ''.'' @ fmt qi)))))"

definition group_media :: "doc \<Rightarrow> bool \<Rightarrow> (world, pv) py" where
  "group_media gr update_info =
     catch
       (bnd (liftr (dsub gr ''identifier'')) (\<lambda>i.
        bnd (on_db (db_get_by ''media'' (PStr (''imdb-'' @ fmt i)))) (\<lambda>h. ret (PDict (hit_doc h)))))
       (\<lambda>_. bnd (liftr (dsub gr ''identifier'')) (\<lambda>i.
            call_handler (movie_add [(''identifier'', i), (''profile_id'', PNone)] True False update_info False ''done'')))"

definition new_release :: "doc \<Rightarrow> string \<Rightarrow> pv \<Rightarrow> int \<Rightarrow> doc res" where
  "new_release gr ident media t =
     rbind (vsub media ''_id'') (\<lambda>mid.
     rbind (rbind (dsub gr ''meta_data'') (\<lambda>md. vsub md ''quality'')) (\<lambda>q.
     rbind (vget q ''identifier'') (\<lambda>qi.
     rbind (vgetd q ''is_3d'' (PInt 0)) (\<lambda>d3.
       Inr [(''_t'', PStr ''release''), (''media_id'', mid), (''identifier'', PStr ident), (''quality'', qi),
            (''is_3d'', d3), (''last_edit'', PInt t), (''status'', PStr ''done'')]))))"

definition release_to_write :: "doc \<Rightarrow> string \<Rightarrow> pv \<Rightarrow> pv \<Rightarrow> (world, doc) py" where
  "release_to_write gr ident media update_id =
     bnd (gets now) (\<lambda>t.
     if truthy update_id
     then bnd (catch (bnd (liftr (as_str update_id)) (\<lambda>u. bnd (on_db (db_get u)) (\<lambda>d.
                 ret (Some (dupdate d [(''identifier'', PStr ident), (''last_edit'', PInt t), (''status'', PStr ''done'')])))))
               (\<lambda>_. ret None)) (\<lambda>o1. case o1 of None \<Rightarrow> raise TypeError | Some d \<Rightarrow> ret d)
     else bnd (liftr (new_release gr ident media t)) (\<lambda>release.
          bnd (catch (bnd (on_db (db_get_by ''release_identifier'' (PStr ident))) (\<lambda>h. ret (hit_doc h)))
                 (\<lambda>_. on_db (db_insert release))) (\<lambda>r.
          bnd (liftr (dsub r ''_id'')) (\<lambda>i. bnd (liftr (dsub r ''_rev'')) (\<lambda>rv.
          ret (dupdate release [(''_id'', i), (''_rev'', rv)]))))))"

definition group_files :: "doc \<Rightarrow> doc res" where
  "group_files gr =
     rbind (rbind (dsub gr ''files'') as_dict) (\<lambda>files.
     mapr (\<lambda>(k, v). rbind (as_list v) (\<lambda>xs. Inr (k, PList (map (\<lambda>x. PStr (fmt x)) xs))))
       (filter (\<lambda>(k, v). truthy v) files))"

definition add_release :: "doc \<Rightarrow> bool \<Rightarrow> pv \<Rightarrow> (world, bool) py" where
  "add_release gr update_info update_id =
     catch
       (bnd (liftr (release_identifier gr)) (\<lambda>ident.
        bnd (group_media gr update_info) (\<lambda>media.
        bnd (release_to_write gr ident media update_id) (\<lambda>release.
        bnd (liftr (group_files gr)) (\<lambda>files.
        bnd (on_db (db_update (dput release ''files'' (PDict files)))) (\<lambda>_.
        bnd (liftr (rbind (vsub media ''_id'') as_str)) (\<lambda>mid.
        bnd (restatus mid True [''done'']) (\<lambda>_. ret True))))))))
       (\<lambda>_. ret False)"

section \<open>Recording search results\<close>

definition simple_value :: "pv \<Rightarrow> bool" where
  "simple_value v = (case v of PStr _ \<Rightarrow> True | PInt _ \<Rightarrow> True | PFloat _ \<Rightarrow> True | PBool _ \<Rightarrow> True | _ \<Rightarrow> False)"

definition set_info :: "doc \<Rightarrow> doc \<Rightarrow> doc" where
  "set_info rel rls = (case dget rls ''info'' of
       PDict info \<Rightarrow> dput rls ''info'' (PDict (dupdate info (filter (\<lambda>kv. simple_value (snd kv)) rel)))
     | _ \<Rightarrow> rls)"

definition quality_is_3d :: "doc \<Rightarrow> pv" where
  "quality_is_3d q = (case rbind (dsub q ''custom'') (\<lambda>c. vsub c ''3d'') of Inr v \<Rightarrow> v | Inl _ \<Rightarrow> PBool False)"

definition found_release :: "string \<Rightarrow> doc \<Rightarrow> doc \<Rightarrow> doc \<Rightarrow> int \<Rightarrow> doc" where
  "found_release ident rel media q t =
     (let base = [(''_t'', PStr ''release''), (''identifier'', PStr ident), (''media_id'', dget media ''_id''),
            (''quality'', dget q ''identifier''), (''is_3d'', quality_is_3d q),
            (''status'', dgetd rel ''status'' (PStr ''available'')), (''last_edit'', PInt t), (''info'', PDict [])]
      in if dhas rel ''download_info'' then dput base ''download_info'' (dget rel ''download_info'') else base)"

text \<open>One result of a search: its release is looked up or inserted, its information written; the
  result gets the status the release has. The flag says whether the release is available.\<close>

definition create_one :: "(string \<Rightarrow> string) \<Rightarrow> doc \<Rightarrow> doc \<Rightarrow> doc \<Rightarrow> (world, string \<times> doc) py" where
  "create_one md5 media q rel0 =
     bnd (liftr (rbind (dsub rel0 ''url'') as_str)) (\<lambda>url.
     bnd (gets now) (\<lambda>t.
     let ident = md5 url; release = found_release ident rel0 media q t; rel = dremove rel0 ''download_info'' in
     bnd (catch (bnd (on_db (db_get_by ''release_identifier'' (PStr ident))) (\<lambda>h. ret (hit_doc h)))
            (\<lambda>_. bnd (on_db (db_insert release)) (\<lambda>r. ret (dupdate r (dupdate release r))))) (\<lambda>rls.
     bnd (on_db (db_update (set_info rel rls))) (\<lambda>_.
     ret (ident, dput rel ''status'' (dget rls ''status''))))))"

fun create_all :: "(string \<Rightarrow> string) \<Rightarrow> doc \<Rightarrow> doc \<Rightarrow> doc list \<Rightarrow> (world, (string list \<times> doc list) \<times> bool) py" where
  "create_all md5 media q [] = ret (([], []), True)"
| "create_all md5 media q (rel # rels) =
     bnd (catch (bnd (create_one md5 media q rel) (\<lambda>x. ret (Some x))) (\<lambda>_. ret None)) (\<lambda>o1. case o1 of
         None \<Rightarrow> ret (([], (if dhas rel ''url'' then dremove rel ''download_info'' else rel) # rels), False)
       | Some (ident, rel') \<Rightarrow>
           bnd (create_all md5 media q rels) (\<lambda>((ids, rels'), good).
           ret ((if dget rel' ''status'' = PStr ''available'' then ident # ids else ids, rel' # rels'), good)))"

text \<open>\<open>createFromSearch\<close>: the identifiers of the available releases (none when anything raised) and
  the results as they are afterwards.\<close>

definition createFromSearch :: "(string \<Rightarrow> string) \<Rightarrow> doc list \<Rightarrow> doc \<Rightarrow> doc \<Rightarrow> (world, string list \<times> doc list) py" where
  "createFromSearch md5 search_results media q =
     bnd (create_all md5 media q search_results) (\<lambda>((ids, rels), good).
     ret (if good then ids else [], rels))"

section \<open>Downloading\<close>

definition is_method :: "pv \<Rightarrow> bool" where
  "is_method v = (case v of PTup [PStr t, PStr n] \<Rightarrow> t = ''method'' | _ \<Rightarrow> False)"

type_synonym fetcher = "pv \<Rightarrow> doc \<Rightarrow> (world, pv) py"

definition snatch_message :: "doc \<Rightarrow> doc \<Rightarrow> doc \<Rightarrow> string res" where
  "snatch_message data media rls =
     rbind (rbind (dsub media ''info'') (\<lambda>i. vget i ''year'')) (\<lambda>year.
     rbind (dsub rls ''quality'') (\<lambda>q.
     rbind (as_str (dgetd data ''provider'' (PStr []))) (\<lambda>p.
     rbind (as_str (dgetd data ''provider_extra'' (PStr []))) (\<lambda>pe.
       Inr (''Snatched \"'' @ fmt (dget data ''name'') @ ''\": '' @ fmt (getTitle (PDict media)) @ '' ('' @ fmt year @
            '') in '' @ fmt q @ '' from '' @ p @ pe)))))"

definition mark_finished :: "doc \<Rightarrow> doc \<Rightarrow> string \<Rightarrow> (world, bool) py" where
  "mark_finished media rls r =
     bnd (liftr (dsub media ''status'')) (\<lambda>st.
       if st \<noteq> PStr ''active'' then ret False
       else bnd (liftr (rbind (dsub media ''profile_id'') as_str)) (\<lambda>p.
            bnd (on_db (db_get p)) (\<lambda>profile.
            bnd (liftr (dsub rls ''quality'')) (\<lambda>q.
              if isFinish [(''identifier'', q), (''is_3d'', dgetd rls ''is_3d'' (PBool False))] (PDict profile) (PInt 0)
              then bnd (updateStatus r ''done'') (\<lambda>_.
                   bnd (liftr (rbind (dsub media ''_id'') as_str)) (\<lambda>i.
                   bnd (restatus i True []) (\<lambda>_. ret True)))
              else ret False))))"

definition store_download :: "(string \<Rightarrow> string) \<Rightarrow> doc \<Rightarrow> doc \<Rightarrow> pv \<Rightarrow> (world, bool) py" where
  "store_download md5 data media download_result =
     bnd (catch (bnd (liftr (rbind (dsub data ''url'') as_str)) (\<lambda>url.
                 bnd (on_db (db_get_by ''release_identifier'' (PStr (md5 url)))) (\<lambda>h. ret (Some (hit_doc h)))))
            (\<lambda>_. ret None)) (\<lambda>o1. case o1 of
         None \<Rightarrow> ret False
       | Some rls0 \<Rightarrow>
           bnd (gets (\<lambda>w. conf w ''renamer'' ''enabled'')) (\<lambda>renamer_enabled.
           bnd (if is_dict download_result
                then (let rls1 = dput rls0 ''download_info'' download_result in
                      bnd (on_db (db_update rls1)) (\<lambda>r. ret (dupdate rls1 r)))
                else ret rls0) (\<lambda>rls.
           bnd (liftr (snatch_message data media rls)) (\<lambda>msg.
           bnd (liftr (dsub data ''type'')) (\<lambda>ty.
           bnd (fire_unit (fmt ty @ ''.snatched'') [PStr msg, PDict media]) (\<lambda>_.
           bnd (liftr (rbind (dsub rls ''_id'') as_str)) (\<lambda>r.
             if truthy renamer_enabled then bnd (updateStatus r ''snatched'') (\<lambda>_. ret True)
             else bnd (mark_finished media rls r) (\<lambda>finished.
                  if finished then ret True
                  else bnd (updateStatus r ''downloaded'') (\<lambda>_. ret True)))))))))"

definition download :: "fetcher \<Rightarrow> (string \<Rightarrow> string) \<Rightarrow> doc \<Rightarrow> doc \<Rightarrow> bool \<Rightarrow> (world, pv) py" where
  "download fetch md5 data media manual =
     bnd (fire ''download.enabled'' [PBool manual, PDict data]) (\<lambda>enabled.
       if \<not> truthy enabled then ret (PBool False)
       else
         bnd (if is_method (dget data ''download'')
              then catch (fetch (dget data ''download'') data) (\<lambda>_. ret PNone)
              else ret (PBool True)) (\<lambda>filedata.
           if filedata = PStr ''try_next'' then ret filedata
           else if \<not> truthy filedata then ret (PBool False)
           else
             bnd (fire ''download'' [PDict data, PDict media, PBool manual,
                    if is_method (dget data ''download'') then filedata else PNone]) (\<lambda>download_result.
               if \<not> truthy download_result then ret (PBool False)
               else catch (bnd (store_download md5 data media download_result) (\<lambda>b. ret (PBool b)))
                      (\<lambda>_. ret (PBool False)))))"

definition provider_method :: "doc \<Rightarrow> pv \<Rightarrow> pv res" where
  "provider_method item provider =
     (if dget item ''protocol'' = PStr ''torrent_magnet'' then Inr PNone
      else rbind (rbind (vsub provider ''urls'') (\<lambda>u. vget u ''login'')) (\<lambda>l.
        Inr (PTup [PStr ''method'', PStr (if truthy l then ''loginDownload'' else ''download'')])))"

definition manualDownload :: "fetcher \<Rightarrow> (string \<Rightarrow> string) \<Rightarrow> string \<Rightarrow> (world, bool) py" where
  "manualDownload fetch md5 i =
     catch
       (bnd (on_db (db_get i)) (\<lambda>release.
        bnd (liftr (rbind (dsub release ''info'') as_dict)) (\<lambda>item.
        bnd (liftr (rbind (dsub release ''media_id'') as_str)) (\<lambda>mid.
        bnd (on_db (db_get mid)) (\<lambda>movie.
        bnd (liftr (dsub item ''name'')) (\<lambda>nm.
        bnd (fire_unit ''notify.frontend'' [PStr ''release.manual_download'', PStr (''Snatching \"'' @ fmt nm @ ''\"'')]) (\<lambda>_.
        bnd (liftr (dsub item ''url'')) (\<lambda>url.
        bnd (fire ''provider.belongs_to'' [url, dget item ''provider'']) (\<lambda>provider.
        bnd (liftr (provider_method item provider)) (\<lambda>m.
        bnd (download fetch md5 (if m = PNone then item else dput item ''download'' m) movie True) (\<lambda>success.
        bnd (whenp (truthy success)
               (fire_unit ''notify.frontend'' [PStr ''release.manual_download'', PStr (''Successfully snatched \"'' @ fmt nm @ ''\"'')])) (\<lambda>_.
        ret (success = PBool True)))))))))))))
       (\<lambda>_. ret False)"

section \<open>Trying the results of a search\<close>

definition num_less :: "pv \<Rightarrow> pv \<Rightarrow> bool res" where
  "num_less a b = rbind (num_res a) (\<lambda>x. rbind (num_res b) (\<lambda>y. Inr (x < y)))"

text \<open>Is the release one to try at all?\<close>

definition release_wanted :: "int \<Rightarrow> doc \<Rightarrow> doc \<Rightarrow> bool res" where
  "release_wanted minimum_seeders q rel =
     rbind (dsub rel ''status'') (\<lambda>st.
       if st \<in> {PStr ''ignored'', PStr ''failed''} then rbind (dsub rel ''name'') (\<lambda>_. Inr False)
       else rbind (rbind (dsub rel ''score'') (\<lambda>s. num_less s (dget q ''minimum_score''))) (\<lambda>low.
         if low then rbind (dsub rel ''name'') (\<lambda>_. Inr False)
         else rbind (rbind (dsub rel ''size'') num_res) (\<lambda>sz.
           if sz \<le> 50 then rbind (dsub rel ''name'') (\<lambda>_. Inr False)
           else rbind (if dhas rel ''seeders'' then num_less (dget rel ''seeders'') (PInt minimum_seeders) else Inr False)
             (\<lambda>few. if few then rbind (dsub rel ''name'') (\<lambda>_. Inr False) else Inr True))))"

definition must_wait :: "doc \<Rightarrow> doc \<Rightarrow> bool res" where
  "must_wait q rel =
     (if pv_eq (dget q ''index'') (PInt 0) then Inr False
      else rbind (num_less (PInt 0) (dgetd q ''wait_for'' (PInt 0))) (\<lambda>b.
        if \<not> b then Inr False
        else rbind (num_less (dgetd q ''wait_for'' (PInt 0)) (dget rel ''age'')) (\<lambda>old. Inr (\<not> old))))"

fun filter_results :: "int \<Rightarrow> doc \<Rightarrow> doc list \<Rightarrow> (doc list \<times> bool) res" where
  "filter_results minimum_seeders q [] = Inr ([], False)"
| "filter_results minimum_seeders q (rel # rels) =
     rbind (release_wanted minimum_seeders q rel) (\<lambda>b.
       if \<not> b then filter_results minimum_seeders q rels
       else rbind (must_wait q rel) (\<lambda>wait.
            rbind (filter_results minimum_seeders q rels) (\<lambda>(ds, through).
            Inr (dput rel ''wait_for'' (PBool wait) # ds, \<not> wait \<or> through))))"

fun try_results :: "fetcher \<Rightarrow> (string \<Rightarrow> string) \<Rightarrow> doc \<Rightarrow> bool \<Rightarrow> bool \<Rightarrow> doc list \<Rightarrow> (world, bool) py" where
  "try_results fetch md5 media let_through wait_for [] = ret wait_for"
| "try_results fetch md5 media let_through wait_for (rel # rels) =
     (if truthy (dget rel ''wait_for'') \<and> \<not> let_through
      then bnd (liftr (dsub rel ''name'')) (\<lambda>_. try_results fetch md5 media let_through True rels)
      else bnd (call_handler (download fetch md5 rel media False)) (\<lambda>downloaded.
        if downloaded = PBool True then ret True
        else if downloaded \<noteq> PStr ''try_next'' then ret wait_for
        else try_results fetch md5 media let_through wait_for rels))"

definition tryDownloadResult :: "fetcher \<Rightarrow> (string \<Rightarrow> string) \<Rightarrow> doc list \<Rightarrow> doc \<Rightarrow> doc \<Rightarrow> (world, bool) py" where
  "tryDownloadResult fetch md5 results media q =
     bnd (gets (\<lambda>w. tryInt (get_setting (sett w) ''minimum_seeders'' ''torrent'' PNone (PInt 1)) 0)) (\<lambda>minimum_seeders.
     bnd (liftr (filter_results minimum_seeders q results)) (\<lambda>(filtered, let_through).
     try_results fetch md5 media let_through False filtered))"

section \<open>The weekly clean-up\<close>

record clean_state =
  cl_exist :: "pv list"
  cl_reindex :: nat

definition fix_status :: "doc \<Rightarrow> (world, unit) py" where
  "fix_status d = catch
     (whenp (dget d ''status'' = PStr ''ignore'') (bnd (on_db (db_update (dput d ''status'' (PStr ''ignored'')))) (\<lambda>_. ret ())))
     (\<lambda>_. ret ())"

text \<open>A release whose media has been deleted is deleted; that deletion may raise and then ends the
  clean-up, since it is in a handler.\<close>

definition clean_orphan :: "hit \<Rightarrow> clean_state \<Rightarrow> (world, clean_state ctl) py" where
  "clean_orphan h st =
     (if hit_key h \<in> set (cl_exist st) then ret (Go st)
      else
        bnd (catch (bnd (liftr (as_str (hit_id h))) (\<lambda>i. bnd (on_db (db_get i)) (\<lambda>d. ret (Inr d :: doc res))))
               (\<lambda>e. ret (Inl e))) (\<lambda>got. case got of
            Inl e \<Rightarrow> (if e = RecordDeleted then ret (Go (st\<lparr>cl_reindex := Suc (cl_reindex st)\<rparr>))
                      else if e = ValueError
                      then bnd (fire_unit ''database.delete_corrupted'' [hit_key h]) (\<lambda>_.
                           ret (Go (st\<lparr>cl_reindex := Suc (cl_reindex st)\<rparr>)))
                      else ret (Go st))
          | Inr d \<Rightarrow>
              bnd (catch (bnd (liftr (as_str (hit_key h))) (\<lambda>k. bnd (on_db (db_get k)) (\<lambda>_. ret None)))
                     (\<lambda>e. ret (Some e))) (\<lambda>o1. case o1 of
                  None \<Rightarrow> bnd (fix_status d) (\<lambda>_. ret (Go (st\<lparr>cl_exist := cl_exist st @ [hit_key h]\<rparr>)))
                | Some e \<Rightarrow>
                    (if e = RecordDeleted
                     then bnd (on_db (db_delete d)) (\<lambda>_. ret (Go (st\<lparr>cl_reindex := Suc (cl_reindex st)\<rparr>)))
                     else if e = ValueError
                     then bnd (fire_unit ''database.delete_corrupted'' [hit_key h]) (\<lambda>_.
                          ret (Go (st\<lparr>cl_reindex := Suc (cl_reindex st)\<rparr>)))
                     else ret (Go st)))))"

definition clean_old_release :: "doc \<Rightarrow> (world, unit) py" where
  "clean_old_release rel =
     bnd (liftr (dsub rel ''status'')) (\<lambda>st.
       if st = PStr ''available''
       then bnd (liftr (rbind (dsub rel ''_id'') as_str)) (\<lambda>r. bnd (delete_release r) (\<lambda>_. ret ()))
       else whenp (st \<in> {PStr ''snatched'', PStr ''downloaded''})
              (bnd (liftr (rbind (dsub rel ''_id'') as_str)) (\<lambda>r. bnd (updateStatus r ''ignored'') (\<lambda>_. ret ()))))"

definition clean_media :: "int \<Rightarrow> doc \<Rightarrow> (world, unit) py" where
  "clean_media t media =
     bnd (liftr (num_less (PInt (t - 604800)) (dgetd media ''last_edit'' (PInt 0)))) (\<lambda>recent.
       whenp (\<not> recent)
         (bnd (liftr (rbind (dsub media ''_id'') as_str)) (\<lambda>i.
          bnd (forMedia i) (\<lambda>rels.
          bnd (for_each rels clean_old_release) (\<lambda>_.
          bnd (liftr (as_list (dgetd media ''tags'' (PList [])))) (\<lambda>tags.
          whenp (PStr ''recent'' \<in> set tags) (bnd (media_untag i ''recent'') (\<lambda>_. ret ())))))))) "

definition cleanDone :: "(world, unit) py" where
  "cleanDone =
     bnd (gets now) (\<lambda>t.
     bnd (on_db (db_all ''release'' (- 1) 0)) (\<lambda>releases.
     bnd (for_acc releases \<lparr>cl_exist = [], cl_reindex = 0\<rparr> clean_orphan) (\<lambda>_.
     bnd (media_with_status [''done'', ''active''] []) (\<lambda>medias.
     for_each medias (clean_media t)))))"

section \<open>Which releases the downloader is asked for\<close>

lemma fires_get_docs: "keeps (fires Q) (get_docs skip hs)"
  by (induction hs) (auto intro!: fires_intros)

lemma fires_forMedia_event: "keeps (fires Q) (forMedia_event i)"
  unfolding forMedia_event_def forMedia_def by (auto intro!: fires_intros fires_get_docs)

lemma fires_media_tag: "keeps (fires Q) (media_tag i t u)"
  unfolding media_tag_def Let_def by (auto intro!: fires_intros)

lemma fires_restatus: "keeps (fires Q) (restatus i t a)"
  unfolding restatus_def new_status_def Let_def
  by (auto intro!: fires_intros fires_forMedia_event fires_media_tag)

lemma fires_updateStatus: "harmless Q \<Longrightarrow> keeps (fires Q) (updateStatus r s)"
  unfolding updateStatus_def by (auto intro!: fires_intros fires_harmless not_special)

lemma fires_mark_finished: "harmless Q \<Longrightarrow> keeps (fires Q) (mark_finished media rls r)"
  unfolding mark_finished_def by (auto intro!: fires_intros fires_restatus fires_updateStatus)

lemma fires_store_download: "harmless Q \<Longrightarrow> keeps (fires Q) (store_download md5 data media res)"
  unfolding store_download_def Let_def
  by (auto intro!: fires_intros fires_mark_finished fires_updateStatus fires_harmless not_special
      split: option.split)

lemma fires_download:
  assumes "harmless Q" "\<And>m d. keeps (fires Q) (fetch m d)" "\<And>rest. Q (''download'', PDict data # rest)"
  shows "keeps (fires Q) (download fetch md5 data media manual)"
  unfolding download_def
  by (auto intro!: fires_intros fires_harmless(1) [OF assms(1)] fires_fire [of Q "''download''"] not_special assms(2,3)
      fires_store_download [OF assms(1)])

lemma fires_try_results:
  assumes "harmless Q" "\<And>m d. keeps (fires Q) (fetch m d)"
    and "\<And>d rest. d \<in> set rels \<Longrightarrow> Q (''download'', PDict d # rest)"
  shows "keeps (fires Q) (try_results fetch md5 media thr waiting rels)"
  using assms(3)
proof (induction rels arbitrary: waiting)
  case Nil
  show ?case by (simp add: fr.keeps_ret)
next
  case (Cons rel rels)
  have IH: "\<And>b. keeps (fires Q) (try_results fetch md5 media thr b rels)"
    by (rule Cons.IH) (simp add: Cons.prems)
  have d: "keeps (fires Q) (download fetch md5 rel media False)"
    by (rule fires_download) (use assms(1,2) Cons.prems in auto)
  show ?case unfolding try_results.simps
    by (intro keeps_if fires_intros IH d)
qed

text \<open>\<open>asked P\<close>: the events fired in between ask the downloader only for what \<open>P\<close> allows.\<close>

definition asked :: "(pv list \<Rightarrow> bool) \<Rightarrow> world \<Rightarrow> world \<Rightarrow> bool" where
  "asked P = fires (\<lambda>(n, args). n = ''download'' \<longrightarrow> P args)"

lemma harmless_asked: "harmless (\<lambda>(n, args). n = ''download'' \<longrightarrow> P args)"
  by (auto simp: harmless_def special_def)

lemma asked_iff: "asked P w v \<longleftrightarrow> now v = now w \<and> ans v = ans w \<and> (\<exists>evs. fired v = fired w @ evs \<and> (\<forall>args. (''download'', args) \<in> set evs \<longrightarrow> P args))"
  unfolding asked_def fires_def by fastforce

lemma asked_try_results:
  assumes "\<And>m d. keeps (asked P) (fetch m d)" "\<And>d rest. d \<in> set rels \<Longrightarrow> P (PDict d # rest)"
  shows "keeps (asked P) (try_results fetch md5 media thr waiting rels)"
  unfolding asked_def
  by (rule fires_try_results [OF harmless_asked]) (use assms in \<open>auto simp: asked_def\<close>)

lemma filter_results_wanted:
  "filter_results ms q rels = Inr (ds, thr) \<Longrightarrow> d \<in> set ds \<Longrightarrow>
   \<exists>rel \<in> set rels. release_wanted ms q rel = Inr True \<and> (\<exists>b. d = dput rel ''wait_for'' (PBool b))"
proof (induction rels arbitrary: ds thr)
  case (Cons rel rels)
  from Cons.prems(1) obtain b where b: "release_wanted ms q rel = Inr b"
    "(if \<not> b then filter_results ms q rels
      else rbind (must_wait q rel) (\<lambda>wait. rbind (filter_results ms q rels) (\<lambda>(ds, through).
            Inr (dput rel ''wait_for'' (PBool wait) # ds, \<not> wait \<or> through)))) = Inr (ds, thr)"
    by (auto simp: rbind_eq_Inr)
  show ?case
  proof (cases b)
    case False
    with b(2) have "filter_results ms q rels = Inr (ds, thr)" by simp
    from Cons.IH [OF this Cons.prems(2)] show ?thesis by auto
  next
    case True
    with b(2) obtain wait ds' thr' where w: "filter_results ms q rels = Inr (ds', thr')"
      "ds = dput rel ''wait_for'' (PBool wait) # ds'" by (auto simp: rbind_eq_Inr)
    show ?thesis
    proof (cases "d = dput rel ''wait_for'' (PBool wait)")
      case True
      then show ?thesis using b(1) \<open>b\<close> by auto
    next
      case False
      with Cons.prems(2) w(2) have "d \<in> set ds'" by simp
      from Cons.IH [OF w(1) this] show ?thesis by auto
    qed
  qed
qed simp

lemma release_wanted_only:
  assumes "release_wanted ms q rel = Inr True"
  shows "dget rel ''status'' \<notin> {PStr ''ignored'', PStr ''failed''}"
    "num_less (dget rel ''score'') (dget q ''minimum_score'') = Inr False"
    "\<exists>n. num_res (dget rel ''size'') = Inr n \<and> 50 < n"
    "dhas rel ''seeders'' \<Longrightarrow> num_less (dget rel ''seeders'') (PInt ms) = Inr False"
  using assms by (auto simp: release_wanted_def rbind_eq_Inr split: if_splits dest!: dsub_Inr)

text \<open>C13: trying the results of a search asks the downloader only for results that are neither ignored
  nor failed, do not score below the minimum, are larger than 50 MB and, where they tell their seeders,
  have at least as many as the setting wants.\<close>

theorem tryDownloadResult_only_wanted:
  assumes "\<And>P m d. keeps (asked P) (fetch m d)"
    and "ms = tryInt (get_setting (sett w) ''minimum_seeders'' ''torrent'' PNone (PInt 1)) 0"
  shows "\<exists>evs. fired (snd (tryDownloadResult fetch md5 results media q w)) = fired w @ evs \<and>
    (\<forall>args. (''download'', args) \<in> set evs \<longrightarrow>
       (\<exists>rel \<in> set results. dget rel ''status'' \<notin> {PStr ''ignored'', PStr ''failed''} \<and>
          num_less (dget rel ''score'') (dget q ''minimum_score'') = Inr False \<and>
          (\<exists>n. num_res (dget rel ''size'') = Inr n \<and> 50 < n) \<and>
          (dhas rel ''seeders'' \<longrightarrow> num_less (dget rel ''seeders'') (PInt ms) = Inr False) \<and>
          (\<exists>b. hd args = PDict (dput rel ''wait_for'' (PBool b)))))"
proof -
  let ?P = "\<lambda>args. \<exists>rel \<in> set results. release_wanted ms q rel = Inr True \<and>
          (\<exists>b. hd args = PDict (dput rel ''wait_for'' (PBool b)))"
  have "asked ?P w (snd (tryDownloadResult fetch md5 results media q w))"
  proof (cases "filter_results ms q results")
    case (Inl e)
    then show ?thesis by (simp add: tryDownloadResult_def py_simps assms(2) asked_def fr.frame_refl)
  next
    case (Inr x)
    obtain ds thr where x: "x = (ds, thr)" by (cases x)
    have run: "tryDownloadResult fetch md5 results media q w = try_results fetch md5 media thr False ds w"
      using Inr x by (simp add: tryDownloadResult_def py_simps assms(2))
    have "keeps (asked ?P) (try_results fetch md5 media thr False ds)"
      by (rule asked_try_results [OF assms(1)]) (use filter_results_wanted [OF Inr [unfolded x]] in auto)
    from keepsD [OF this] run show ?thesis by simp
  qed
  then obtain evs where evs: "fired (snd (tryDownloadResult fetch md5 results media q w)) = fired w @ evs"
    "\<And>args. (''download'', args) \<in> set evs \<Longrightarrow> ?P args" unfolding asked_iff by blast
  show ?thesis
    by (rule exI [of _ evs]) (use evs release_wanted_only in blast)
qed

definition demo_result :: doc where
  "demo_result = [(''name'', PStr ''Movie.2013.720p''), (''url'', PStr ''u''), (''status'', PStr ''available''),
     (''score'', PInt 80), (''size'', PInt 5000), (''age'', PInt 3)]"

theorem tryDownloadResult_only_wanted_witness:
  "\<exists>evs. fired (snd (tryDownloadResult (\<lambda>_ _. ret PNone) (\<lambda>s. s) [demo_result] media_doc [(''minimum_score'', PInt 0)] demo_world))
     = fired demo_world @ evs \<and>
    (\<forall>args. (''download'', args) \<in> set evs \<longrightarrow>
       (\<exists>rel \<in> set [demo_result]. dget rel ''status'' \<notin> {PStr ''ignored'', PStr ''failed''} \<and>
          num_less (dget rel ''score'') (dget [(''minimum_score'', PInt 0)] ''minimum_score'') = Inr False \<and>
          (\<exists>n. num_res (dget rel ''size'') = Inr n \<and> 50 < n) \<and>
          (dhas rel ''seeders'' \<longrightarrow> num_less (dget rel ''seeders'') (PInt (tryInt
             (get_setting (sett demo_world) ''minimum_seeders'' ''torrent'' PNone (PInt 1)) 0)) = Inr False) \<and>
          (\<exists>b. hd args = PDict (dput rel ''wait_for'' (PBool b)))))"
  by (rule tryDownloadResult_only_wanted [OF _ refl]) (simp add: asked_def fr.keeps_ret)

section \<open>A release found again\<close>

text \<open>When a search finds a release the database has already, the release keeps its status (an
  ignored one stays ignored), its media and its quality: only its information is rewritten, and the
  result takes the status over.\<close>

theorem found_again_keeps_status:
  assumes "w_ok w" "dsub rel ''url'' = Inr (PStr url)"
    and "query ''release_identifier'' (PStr (md5 url)) (store w) = Inr (h # hs)"
  shows "\<exists>w' d2. create_one md5 media q rel w =
      (Inr (md5 url, dput (dremove rel ''download_info'') ''status'' (dget (hit_doc h) ''status'')), w') \<and> w_ok w' \<and>
    w_live w' (doc_id (hit_doc h)) = Some d2 \<and>
    (\<forall>k. k \<notin> {''info'', ''_rev''} \<longrightarrow> dget d2 k = dget (hit_doc h) k) \<and>
    (\<forall>j. j \<noteq> doc_id (hit_doc h) \<longrightarrow> w_live w' j = w_live w j)"
proof -
  have ok: "db_ok (store w)" using assms(1) by (simp add: w_ok_def)
  let ?d = "hit_doc h"
  from query_hits_live [OF ok assms(3), of h] obtain i where i: "hit_id h = PStr i" "live (store w) i = Some ?d" by auto
  have di: "doc_id ?d = i" using dbs.meta_law [OF ok i(2)] by (simp add: doc_id_def)
  have l: "w_live w i = Some ?d" using i(2) by (simp add: w_live_def)
  let ?e = "set_info (dremove rel ''download_info'') ?d"
  have keep: "dget ?e k = dget ?d k" "dhas ?e k = dhas ?d k" if "k \<noteq> ''info''" for k
    using that by (auto simp: set_info_def split: pv.split)
  have meta: "dhas ?e ''_id'' \<and> dget ?e ''_id'' = PStr i \<and> dhas ?e ''_rev'' \<and> dget ?e ''_rev'' = dget ?d ''_rev''"
    using ws.meta_law [OF assms(1) l] keep by simp
  from ws.upd_law [OF assms(1) l meta] obtain r v d2 where
    u: "on_db (db_update ?e) w = (Inr r, v)" "w_ok v" "w_live v i = Some d2"
      "\<forall>k. k \<noteq> ''_rev'' \<longrightarrow> dget d2 k = dget ?e k" "\<forall>j. j \<noteq> i \<longrightarrow> w_live v j = w_live w j" by blast
  have g: "on_db (db_get_by ''release_identifier'' (PStr (md5 url))) w = (Inr h, w)"
    using assms(3) by (simp add: on_db_def db_get_by_def)
  have run: "create_one md5 media q rel w =
      (Inr (md5 url, dput (dremove rel ''download_info'') ''status'' (dget ?d ''status'')), v)"
    using assms(2) g u(1) unfolding create_one_def Let_def
    by (simp add: bnd_run liftr_run gets_run ret_run catch_run del: on_db_run)
  show ?thesis
    by (intro exI [of _ v], intro exI [of _ d2] conjI run u(2)) (use u(3-5) di keep in auto)
qed

definition known_release_world :: world where
  "known_release_world = demo_world\<lparr>store := empty_db\<lparr>docs :=
     [(oid (CHR ''r''), Live ''00010000'' (dput (dput rel_doc ''identifier'' (PStr ''u'')) ''status'' (PStr ''ignored'')))]\<rparr>\<rparr>"

theorem found_again_keeps_status_witness:
  "\<exists>w' r. create_one (\<lambda>s. s) media_doc [] demo_result known_release_world = (Inr r, w') \<and>
     dget (snd r) ''status'' = PStr ''ignored''"
proof -
  let ?b = "dput (dput rel_doc ''identifier'' (PStr ''u'')) ''status'' (PStr ''ignored'')"
  let ?d = "with_meta (oid (CHR ''r'')) ''00010000'' ?b"
  have ok: "w_ok known_release_world"
    by (simp add: w_ok_def known_release_world_def demo_world_def empty_db_def db_ok_def rev_ok_def oid_def
        hex_val_def is_digit_def cp_def rel_doc_def doc_eval)
  have u: "dsub demo_result ''url'' = Inr (PStr ''u'')" by (simp add: demo_result_def dsub_def)
  have q: "query ''release_identifier'' (PStr ''u'') (store known_release_world) =
      Inr [mk_hit (PStr ''u'', [(''media_id'', PStr (oid (CHR ''m'')))], ?d)]"
    by (simp add: query_def the_index_def index_table_def make_key_def known_release_world_def demo_world_def
        empty_db_def live_docs_def index_entries_def ReleaseIDIndex_def is_type_def rel_doc_def doc_eval)
  have st: "dget ?d ''status'' = PStr ''ignored''" by (simp add: rel_doc_def doc_eval)
  from found_again_keeps_status [OF ok u, of "\<lambda>s. s", OF q, of media_doc "[]"] obtain w' where
    "create_one (\<lambda>s. s) media_doc [] demo_result known_release_world =
      (Inr (''u'', dput (dremove demo_result ''download_info'') ''status'' (dget ?d ''status'')), w')"
    by (auto simp: mk_hit_def)
  with st show ?thesis by (intro exI [of _ w']) auto
qed

end
