(* ===== verification/Searcher.thy ===== *)
theory Searcher
  imports Score Release
begin

text \<open>
  couchpotato/core/media/_base/searcher/main.py: asking the providers of a protocol and sorting what
  they find, and the tests that decide whether a release found is the movie that is searched: its
  words, its quality, its 3D flag, its name and its year. What is outside the repository is the
  record \<open>outside\<close>: the library guessit, the regular expressions a user may write into the settings,
  the cached answers of \<open>quality.guess\<close>, the calendar date at a time, MD5, the provider methods a result
  carries and the existence of files.
\<close>

record outside =
  guessit :: "string \<Rightarrow> doc res"
  user_regex :: "string \<Rightarrow> string \<Rightarrow> bool res"
  qcache :: "string \<Rightarrow> (merged \<times> bool) option"
  today :: "int \<Rightarrow> int \<times> int"
  md5 :: "string \<Rightarrow> string"
  call_method :: "pv \<Rightarrow> doc \<Rightarrow> (world, pv) py"
  is_file :: "string \<Rightarrow> bool"

section \<open>Qualities as dicts\<close>

fun tag_pv :: "tag \<Rightarrow> pv" where
  "tag_pv (T s) = PStr s"
| "tag_pv (TT ss) = PTup (map PStr ss)"

definition quality_pairs :: "quality \<Rightarrow> doc" where
  "quality_pairs q =
     [(''identifier'', PStr (q_id q))]
     @ (if q_hd q then [(''hd'', PBool True)] else []) @ (if q_3d q then [(''allow_3d'', PBool True)] else [])
     @ [(''size'', PTup [PInt (fst (q_size q)), PInt (snd (q_size q))]), (''median_size'', PInt (q_median q)),
        (''label'', PStr (q_label q))]
     @ (case q_width q of Some x \<Rightarrow> [(''width'', PInt x)] | None \<Rightarrow> [])
     @ (case q_height q of Some x \<Rightarrow> [(''height'', PInt x)] | None \<Rightarrow> [])
     @ [(''alternative'', PList (map tag_pv (q_alternative q))), (''allow'', PList (map PStr (q_allow q))),
        (''ext'', PList (map PStr (q_ext q)))]
     @ (if q_tags q \<noteq> [] \<or> q_id q = ''scr'' then [(''tags'', PList (map tag_pv (q_tags q)))] else [])"

text \<open>\<open>mergeDicts(quality, quality_doc)\<close>.\<close>

definition merged_dict :: "merged \<Rightarrow> doc" where
  "merged_dict m = merge_into False (quality_pairs (m_base m)) (m_doc m)"

text \<open>The event \<open>quality.single\<close>: \<open>None\<close> when its handler raises.\<close>

definition quality_single_event :: "string \<Rightarrow> (world, pv) py" where
  "quality_single_event identifier =
     call_handler (bnd (single_quality identifier) (\<lambda>m. ret (PDict (merged_dict m))))"

text \<open>The event \<open>quality.guess\<close> on one name.\<close>

definition guess_name_of :: "outside \<Rightarrow> string \<Rightarrow> string" where
  "guess_name_of ou f = str_or_empty (dget (getReleaseNameYear (guessit ou) f f) ''name'')"

definition quality_guess_event :: "outside \<Rightarrow> pv \<Rightarrow> pv \<Rightarrow> (world, (merged \<times> bool) option) py" where
  "quality_guess_event ou nm sz =
     catch (bnd (liftr (attr_str nm)) (\<lambda>n. guess (guess_name_of ou) (qcache ou n) [n] [] sz True)) (\<lambda>_. ret None)"

section \<open>Asking the providers\<close>

definition sort_found :: "pv \<Rightarrow> doc list \<Rightarrow> doc list res" where
  "sort_found download_preference results =
     rbind (sort_num_desc (\<lambda>d. dsub d ''score'') results) (\<lambda>by_score.
       if download_preference \<noteq> PStr ''both''
       then sort_text (\<lambda>d. dsub d ''protocol'') (download_preference = PStr ''torrent'') by_score
       else Inr by_score)"

definition ask_protocol :: "doc \<Rightarrow> doc \<Rightarrow> pv \<Rightarrow> doc list \<Rightarrow> (world, doc list ctl) py" where
  "ask_protocol media q protocol results =
     bnd (fire (''provider.search.'' @ fmt protocol @ ''.'' @ fmt (dget media ''type'')) [PDict media, PDict q]) (\<lambda>r.
       if truthy r then bnd (liftr (rbind (as_list r) (mapr as_dict))) (\<lambda>found. ret (Go (results @ found)))
       else ret (Go results))"

definition searcher_search :: "pv list \<Rightarrow> doc \<Rightarrow> doc \<Rightarrow> (world, doc list) py" where
  "searcher_search protocols media q =
     bnd (for_acc protocols [] (ask_protocol media q)) (\<lambda>results.
     bnd (gets (\<lambda>w. conf w ''searcher'' ''preferred_method'')) (\<lambda>download_preference.
     liftr (sort_found download_preference results)))"

text \<open>The event \<open>searcher.protocols\<close>: the protocols of the enabled downloaders, none when no enabled
  provider has one of them.\<close>

definition getSearchProtocols :: "(world, pv list) py" where
  "getSearchProtocols =
     bnd (fire ''download.enabled_protocols'' []) (\<lambda>dp.
     bnd (fire ''provider.enabled_protocols'' []) (\<lambda>pp.
     bnd (liftr (if truthy dp
                 then rbind (as_list pp) (\<lambda>ps. rbind (as_list dp) (\<lambda>ds. Inr (set ps \<inter> set ds = {})))
                 else Inr False)) (\<lambda>nothing.
       if nothing then ret []
       else bnd (liftr (rbind (as_list pp) (\<lambda>_. as_list dp))) (\<lambda>ds. ret ds))))"

section \<open>The tests on a release\<close>

definition qualities_in :: "outside \<Rightarrow> doc \<Rightarrow> pv \<Rightarrow> (world, string list) py" where
  "qualities_in ou nzb movie_year =
     bnd (quality_guess_event ou (dget nzb ''name'') (dget nzb ''size'')) (\<lambda>g.
     let found = (case g of Some (m, _) \<Rightarrow> [q_id (m_base m)] | None \<Rightarrow> []) in
     bnd (liftr (rbind (dsub nzb ''name'') as_str)) (\<lambda>name.
     if found \<noteq> [] then ret found
     else bnd (gets now) (\<lambda>t. liftr (rbind (num_res movie_year) (\<lambda>y.
       if of_int (fst (today ou t)) - 3 \<le> y \<or> truthy (dget (getReleaseNameYear (guessit ou) name []) ''year'')
       then Inr []
       else rbind (num_res (dgetd nzb ''size'' (PInt 0))) (\<lambda>sz.
         Inr [if 20000 < sz then ''bd50'' else if 3000 < sz then ''dvdr'' else ''dvdrip'']))))))"

text \<open>\<open>False\<close> when the only quality found is the one wanted, the dict of those found otherwise.\<close>

definition containsOtherQuality :: "outside \<Rightarrow> doc \<Rightarrow> pv \<Rightarrow> doc \<Rightarrow> (world, pv) py" where
  "containsOtherQuality ou nzb movie_year preferred =
     bnd (qualities_in ou nzb movie_year) (\<lambda>found0.
     bnd (liftr (as_list (dget preferred ''allow''))) (\<lambda>allow.
     let found = filter (\<lambda>f. PStr f \<notin> set allow) found0 in
     bnd (liftr (dsub preferred ''identifier'')) (\<lambda>i.
     ret (if map PStr found = [i] then PBool False else PDict (map (\<lambda>f. (f, PBool True)) found)))))"

definition correct3D :: "outside \<Rightarrow> doc \<Rightarrow> doc \<Rightarrow> (world, pv) py" where
  "correct3D ou nzb preferred =
     (if \<not> truthy (dget preferred ''custom'') then ret PNone
      else bnd (liftr (vget (dget preferred ''custom'') ''3d'')) (\<lambda>threed.
           bnd (quality_guess_event ou (dget nzb ''name'') PNone) (\<lambda>g.
           ret (PBool (case g of Some (_, is_3d) \<Rightarrow> pv_eq threed (PBool is_3d) | None \<Rightarrow> pv_eq threed (PBool False))))))"

fun correctYear :: "outside \<Rightarrow> string list \<Rightarrow> int \<Rightarrow> int \<Rightarrow> bool res" where
  "correctYear ou [] year year_range = Inr False"
| "correctYear ou (s # ss) year year_range =
     rbind (num_res (dget (getReleaseNameYear (guessit ou) s []) ''year'')) (\<lambda>y.
       if of_int (year - year_range) \<le> y \<and> y \<le> of_int (year + year_range) then Inr True
       else correctYear ou ss year year_range)"

definition correctName :: "outside \<Rightarrow> string \<Rightarrow> string \<Rightarrow> bool" where
  "correctName ou check_name movie_name =
     list_ex (\<lambda>n.
       let check_words = removeEmpty (wsplit (str_or_empty
             (dgetd (getReleaseNameYear (guessit ou) n []) ''name'' (PStr []))));
           movie_words = removeEmpty (wsplit (simplifyString movie_name))
       in check_words \<noteq> [] \<and> movie_words \<noteq> [] \<and> set check_words \<subseteq> set movie_words)
     (removeDuplicate (check_names_of check_name))"

text \<open>One entry of the words: a regular expression between slashes, or words that must all occur.\<close>

definition word_set_matches :: "outside \<Rightarrow> string \<Rightarrow> string list \<Rightarrow> string \<Rightarrow> bool res" where
  "word_set_matches ou rel_name rel_words req_set =
     (if 2 \<le> length req_set \<and> hd req_set = CHR ''/'' \<and> last req_set = CHR ''/''
      then user_regex ou (butlast (tl req_set)) rel_name
      else Inr (card (set rel_words \<inter> set (splitString req_set ''&'' True)) = length (splitString req_set ''&'' True)))"

definition containsWords :: "outside \<Rightarrow> settings \<Rightarrow> string \<Rightarrow> string list \<Rightarrow> string \<Rightarrow> doc \<Rightarrow> (string list \<times> bool) res" where
  "containsWords ou s rel_name rel_words kind media =
     rbind (search_words s PNone media kind) (\<lambda>words.
     rbind (mapr (word_set_matches ou rel_name rel_words) words) (\<lambda>ms. Inr (words, True \<in> set ms)))"

definition pron_tags :: "string list" where
  "pron_tags = [''xxx'', ''sex'', ''anal'', ''tits'', ''fuck'', ''porn'', ''orgy'', ''milf'', ''boobs'', ''erotica'', ''erotic'',
     ''cock'', ''dick'']"

definition getSearchTitle :: "doc \<Rightarrow> pv res" where
  "getSearchTitle media =
     rbind (dsub media ''type'') (\<lambda>t. Inr (if t = PStr ''movie'' then getTitle (PDict media) else PNone))"

definition search_title_event :: "doc \<Rightarrow> pv" where
  "search_title_event media = (case getSearchTitle media of Inr v \<Rightarrow> v | Inl _ \<Rightarrow> PNone)"

definition correctWords :: "outside \<Rightarrow> settings \<Rightarrow> string \<Rightarrow> doc \<Rightarrow> bool res" where
  "correctWords ou s rel_name0 media =
     rbind (attr_str (search_title_event media)) (\<lambda>media_title.
     let media_words = wsplit (simplifyString media_title);
         rel_name = simplifyString rel_name0;
         rel_words = wsplit rel_name in
     rbind (containsWords ou s rel_name rel_words ''required'' media) (\<lambda>(required, has_required).
       if required \<noteq> [] \<and> \<not> has_required then Inr False
       else rbind (containsWords ou s rel_name rel_words ''ignored'' media) (\<lambda>(ignored, has_ignored).
         if ignored \<noteq> [] \<and> has_ignored then Inr False
         else Inr (set rel_words \<inter> (set pron_tags - set media_words) = {}))))"

text \<open>An example of the outside: nothing guessed, no provider.\<close>

definition demo_outside :: outside where
  "demo_outside = \<lparr>guessit = (\<lambda>_. Inl ValueError), user_regex = (\<lambda>_ _. Inl ValueError), qcache = (\<lambda>_. None),
     today = (\<lambda>_. (2014, 6)), md5 = (\<lambda>s. s), call_method = (\<lambda>_ _. ret PNone), is_file = (\<lambda>_. False)\<rparr>"

end
