(* ===== verification/MovieSearcher.thy ===== *)
theory MovieSearcher
  imports Searcher
begin

text \<open>
  couchpotato/core/media/movie/searcher.py: when a movie can have been released, the search of one
  movie over the qualities of its profile, the test that decides whether a release is the movie
  wanted, trying the next release, and the full search of all wanted movies. The plugin's own state
  is \<open>in_progress\<close>. The flag \<open>shuttingDown\<close>, which another thread sets, is read through the world's
  answers.
\<close>

section \<open>Release dates\<close>

definition date_of :: "pv \<Rightarrow> string \<Rightarrow> pv res" where
  "date_of dates k = vgetd dates k (PInt 0)"

definition early_year :: "rat option \<Rightarrow> int \<times> int \<Rightarrow> bool" where
  "early_year y ym = (case y of
       None \<Rightarrow> True
     | Some y \<Rightarrow> y < of_int (fst ym - 1) \<or> y \<le> of_int (fst ym - 1) \<and> 4 < snd ym)"

text \<open>\<open>ym\<close> is the year and month of the date, \<open>t\<close> the time.\<close>

definition by_dates :: "bool \<Rightarrow> pv \<Rightarrow> int \<Rightarrow> bool res" where
  "by_dates is_pre_release dates t =
     rbind (if \<not> truthy dates then Inr True
            else rbind (rbind (date_of dates ''theater'') num_res) (\<lambda>th.
              if th < 0 then Inr True
              else rbind (rbind (date_of dates ''dvd'') num_res) (\<lambda>dv. Inr (dv < 0)))) (\<lambda>before_1972.
       if before_1972 then Inr True
       else if is_pre_release
       then rbind (rbind (vget dates ''theater'') num_res) (\<lambda>th. Inr (th - 604800 < of_int t))
       else rbind (rbind (vget dates ''theater'') num_res) (\<lambda>th.
         if 0 < th \<and> th + 7257600 < of_int t then Inr True
         else rbind (rbind (vget dates ''dvd'') num_res) (\<lambda>dv.
           Inr (0 < dv \<and> (dv - 2419200 < of_int t \<or> dv < of_int t)))))"

definition couldBeReleased :: "bool \<Rightarrow> pv \<Rightarrow> pv \<Rightarrow> int \<Rightarrow> int \<times> int \<Rightarrow> bool res" where
  "couldBeReleased is_pre_release dates year t ym =
     rbind (if year = PNone then Inr None else rbind (num_res year) (\<lambda>y. Inr (Some y))) (\<lambda>y.
     rbind (if early_year y ym
            then (if \<not> truthy dates then Inr True
                  else rbind (date_of dates ''theater'') (\<lambda>th. rbind (date_of dates ''dvd'') (\<lambda>dv.
                       Inr (pv_eq th (PInt 0) \<and> pv_eq dv (PInt 0)))))
            else Inr False) (\<lambda>old_without_dates.
       if old_without_dates then Inr True
       else if (case y of None \<Rightarrow> False | Some y \<Rightarrow> of_int (fst ym + (if 10 < snd ym then 1 else 0)) < y) then Inr False
       else by_dates is_pre_release dates t))"

section \<open>The search of one movie\<close>

record search_round =
  found :: "string list"
  previous :: "doc list"
  too_early :: "string list"
  outside_eta :: nat
  result_count :: nat
  got :: bool

definition quality_custom :: "doc \<Rightarrow> nat \<Rightarrow> pv \<Rightarrow> doc res" where
  "quality_custom profile index q =
     rbind (rbind (dsub profile ''finish'') as_list) (\<lambda>fs. rbind (nth_res fs (int index)) (\<lambda>fin.
     rbind (rbind (dsub profile ''wait_for'') as_list) (\<lambda>ws. rbind (nth_res ws (int index)) (\<lambda>wait.
     rbind (if truthy (dget profile ''3d'')
            then rbind (as_list (dget profile ''3d'')) (\<lambda>ds. nth_res ds (int index)) else Inr (PBool False)) (\<lambda>d3.
       Inr [(''index'', PInt (int index)), (''quality'', q), (''finish'', fin), (''wait_for'', PInt (tryInt wait 0)),
            (''3d'', d3), (''minimum_score'', dgetd profile ''minimum_score'' (PInt 1))])))))"

text \<open>How many releases the movie has that are not just available, ignored or failed and whose quality
  the wanted one does not beat.\<close>

fun better_count :: "pv \<Rightarrow> pv \<Rightarrow> doc \<Rightarrow> doc list \<Rightarrow> nat res" where
  "better_count q d3 profile [] = Inr 0"
| "better_count q d3 profile (rel # rels) =
     rbind (dsub rel ''status'') (\<lambda>st.
     rbind (if st \<in> {PStr ''available'', PStr ''ignored'', PStr ''failed''} then Inr 0
            else rbind (dsub rel ''quality'') (\<lambda>rq. Inr
              (if isHigher PNone [(''identifier'', q), (''is_3d'', d3)]
                   [(''identifier'', rq), (''is_3d'', dgetd rel ''is_3d'' (PInt 0))] (PDict profile) = Inr Higher
               then 0 else 1))) (\<lambda>n.
     rbind (better_count q d3 profile rels) (\<lambda>m. Inr (n + m))))"

fun drop_gone :: "string list \<Rightarrow> doc list \<Rightarrow> (world, doc list) py" where
  "drop_gone found_ids [] = ret []"
| "drop_gone found_ids (rel # rels) =
     (if dget rel ''status'' = PStr ''available'' \<and> dget rel ''identifier'' \<notin> set (map PStr found_ids)
      then bnd (call_handler (bnd (liftr (as_str (dget rel ''_id''))) (\<lambda>i. bnd (delete_release i) (\<lambda>b. ret (PBool b)))))
             (\<lambda>_. drop_gone found_ids rels)
      else bnd (drop_gone found_ids rels) (\<lambda>kept. ret (rel # kept)))"

definition movie_releases :: "doc \<Rightarrow> doc list res" where
  "movie_releases movie = rbind (as_list (dgetd movie ''releases'' (PList []))) (mapr as_dict)"

definition movie_id :: "doc \<Rightarrow> string res" where
  "movie_id movie = rbind (dsub movie ''_id'') as_str"

text \<open>What happens once a quality is searched: the results are recorded, the best of them tried, and
  releases that are not found any more removed.\<close>

definition use_results :: "outside \<Rightarrow> doc \<Rightarrow> doc \<Rightarrow> doc \<Rightarrow> bool \<Rightarrow> bool \<Rightarrow> doc list \<Rightarrow> search_round \<Rightarrow> (world, search_round ctl) py" where
  "use_results ou movie q custom could try_it results st =
     bnd (catch (bnd (createFromSearch (md5 ou) results movie q) (\<lambda>x. ret (Some x))) (\<lambda>_. ret None)) (\<lambda>created. case created of
         None \<Rightarrow> raise TypeError
       | Some (ids, results') \<Rightarrow>
           let st2 = st\<lparr>found := found st @ ids\<rparr>; n = length (found st2);
               st3 = st2\<lparr>result_count := result_count st + n, outside_eta := outside_eta st + (if could then 0 else n)\<rparr> in
           bnd (if try_it then catch (tryDownloadResult (call_method ou) (md5 ou) results' movie custom) (\<lambda>_. ret False)
                else ret False) (\<lambda>downloaded.
           bnd (drop_gone (found st3) (previous st3)) (\<lambda>kept.
           let st4 = st3\<lparr>previous := kept, got := downloaded\<rparr> in
           bnd (fire ''shuttingDown'' []) (\<lambda>stop.
           ret (if truthy stop \<or> downloaded then Brk st4 else Go st4)))))"

definition search_quality ::
  "outside \<Rightarrow> pv \<Rightarrow> doc \<Rightarrow> doc \<Rightarrow> pv \<Rightarrow> bool \<Rightarrow> bool \<Rightarrow> bool \<Rightarrow> nat \<times> pv \<Rightarrow> search_round \<Rightarrow> (world, search_round ctl) py" where
  "search_quality ou protocols movie profile dates always ignore_eta force_download iq st =
     (let index = fst iq; qi = snd iq in
      bnd (liftr (quality_custom profile index qi)) (\<lambda>custom.
      bnd (gets now) (\<lambda>t.
      bnd (liftr (rbind (rbind (dsub movie ''info'') (\<lambda>i. vsub i ''year'')) (\<lambda>year.
             couldBeReleased (qi \<in> set (map PStr pre_releases)) dates year t (today ou t)))) (\<lambda>could.
      let st1 = (if \<not> always \<and> \<not> could then st\<lparr>too_early := too_early st @ [fmt qi]\<rparr> else st) in
      if \<not> always \<and> \<not> could \<and> \<not> ignore_eta then ret (Go st1)
      else
        bnd (liftr (rbind (movie_releases movie) (better_count qi (dget custom ''3d'') profile))) (\<lambda>better.
        bnd (liftr (movie_id movie)) (\<lambda>mid.
        if 0 < better then bnd (restatus mid True []) (\<lambda>_. ret (Brk st1))
        else
          bnd (quality_single_event (fmt qi)) (\<lambda>qv.
          bnd (liftr (rbind (vsub qv ''label'') (\<lambda>_. as_dict qv))) (\<lambda>q0.
          let q = dput q0 ''custom'' (PDict custom) in
          bnd (catch (bnd (liftr (as_list protocols)) (\<lambda>ps. searcher_search ps movie q)) (\<lambda>_. ret [])) (\<lambda>results.
          bnd (media_get_event mid) (\<lambda>still. case still of
              None \<Rightarrow> ret (Brk st1)
            | Some _ \<Rightarrow> use_results ou movie q custom could (force_download \<or> could \<or> always) results st1))))))))))"

text \<open>The loop over the qualities of the profile. The movie's releases, if they are no list, make the
  first round raise before \<open>previous\<close> is looked at.\<close>

definition search_qualities ::
  "outside \<Rightarrow> pv \<Rightarrow> doc \<Rightarrow> doc \<Rightarrow> pv \<Rightarrow> bool \<Rightarrow> bool \<Rightarrow> bool \<Rightarrow> pv list \<Rightarrow> (world, search_round) py" where
  "search_qualities ou protocols movie profile dates always ignore_eta force_download qs =
     for_acc (enumerate 0 qs)
       \<lparr>found = [], previous = (case movie_releases movie of Inr rels \<Rightarrow> rels | Inl _ \<Rightarrow> []),
        too_early = [], outside_eta = 0, result_count = 0, got = False\<rparr>
       (search_quality ou protocols movie profile dates always ignore_eta force_download)"

definition stop_after_search :: "doc \<Rightarrow> string \<Rightarrow> bool \<Rightarrow> search_round \<Rightarrow> (world, unit) py" where
  "stop_after_search movie mid manual st =
     bnd (whenp (0 < result_count st) (bnd (media_tag mid ''recent'' True) (\<lambda>_. ret ()))) (\<lambda>_.
     bnd (whenp (too_early st \<noteq> [] \<and> 0 < outside_eta st \<and> \<not> manual)
            (fire_unit ''media.available''
               [PStr (''Found '' @ str_of_int (int (outside_eta st)) @ '' releases for \"'' @ fmt (getTitle (PDict movie))
                  @ ''\" before ETA. Select and download via the dashboard.''), PDict []])) (\<lambda>_.
     fire_unit ''notify.frontend'' [PStr ''movie.searcher.ended'', PDict [(''_id'', PStr mid)]]))"

text \<open>The date of the last search that ignored the release dates: once every seven days they are.\<close>

definition weekly_eta :: "string \<Rightarrow> bool \<Rightarrow> (world, bool) py" where
  "weekly_eta mid manual =
     bnd (on_db (getProperty (''last_ignored_eta.'' @ mid))) (\<lambda>v.
     bnd (liftr (float_res (if truthy v then v else PInt 0))) (\<lambda>last_ignored_eta.
     bnd (gets now) (\<lambda>t.
       if last_ignored_eta < of_int t - 604800
       then bnd (on_db (setProperty (''last_ignored_eta.'' @ mid) (str_of_int t))) (\<lambda>_. ret True)
       else ret manual)))"

definition search_movie :: "outside \<Rightarrow> pv \<Rightarrow> doc \<Rightarrow> string \<Rightarrow> bool \<Rightarrow> bool \<Rightarrow> (world, pv) py" where
  "search_movie ou protocols movie mid manual force_download =
     bnd (fire ''shuttingDown'' []) (\<lambda>stop.
     bnd (updateReleaseDate (md5 ou) (is_file ou) (truthy stop) mid) (\<lambda>dates.
     bnd (gets (\<lambda>w. truthy (conf w ''moviesearcher'' ''always_search''))) (\<lambda>always.
     bnd (fire_unit ''notify.frontend'' [PStr ''movie.searcher.started'', PDict [(''_id'', PStr mid)],
            PStr (''Searching for \"'' @ fmt (getTitle (PDict movie)) @ ''\"'')]) (\<lambda>_.
     bnd (if always then ret manual else weekly_eta mid manual) (\<lambda>ignore_eta.
     bnd (liftr (rbind (dsub movie ''profile_id'') as_str)) (\<lambda>p.
     bnd (on_db (db_get p)) (\<lambda>profile.
     bnd (liftr (as_list (dgetd profile ''qualities'' (PList [])))) (\<lambda>qs.
     bnd (search_qualities ou protocols movie profile dates always ignore_eta force_download qs) (\<lambda>st.
     bnd (stop_after_search movie mid manual st) (\<lambda>_. ret (PBool (got st))))))))))))"

definition single_search :: "outside \<Rightarrow> doc \<Rightarrow> pv \<Rightarrow> bool \<Rightarrow> bool \<Rightarrow> (world, pv) py" where
  "single_search ou movie search_protocols manual force_download =
     bnd (if truthy search_protocols then ret search_protocols
          else call_handler (bnd getSearchProtocols (\<lambda>ps. ret (PList ps)))) (\<lambda>protocols.
     bnd (liftr (rbind (dsub movie ''profile_id'') (\<lambda>p.
            if \<not> truthy p then Inr True
            else rbind (dsub movie ''status'') (\<lambda>st. Inr (st = PStr ''done'' \<and> \<not> manual))))) (\<lambda>skip.
     bnd (liftr (movie_id movie)) (\<lambda>mid.
       if skip then bnd (restatus mid True []) (\<lambda>_. ret PNone)
       else if \<not> truthy (getTitle (PDict movie)) then bnd (media_delete mid []) (\<lambda>_. ret PNone)
       else bnd (restatus mid True []) (\<lambda>_. search_movie ou protocols movie mid manual force_download))))"

section \<open>Is it the movie?\<close>

definition title_matches :: "outside \<Rightarrow> string \<Rightarrow> pv \<Rightarrow> string \<Rightarrow> bool" where
  "title_matches ou name year movie_title =
     (correctName ou name movie_title \<and>
      rbind (as_int year) (\<lambda>y. correctYear ou [name] y
        (if 2 < length (wsplit (simplifyString movie_title)) then 1 else 0)) = Inr True)"

definition names_imdb :: "doc \<Rightarrow> doc \<Rightarrow> bool res" where
  "names_imdb nzb media =
     rbind (attr_str (dgetd nzb ''description'' (PStr []))) (\<lambda>txt.
     rbind (getImdb (\<lambda>_. None) txt False) (\<lambda>t.
     rbind (getIdentifier media) (\<lambda>i. Inr ((case t of None \<Rightarrow> PNone | Some x \<Rightarrow> PStr x) = i))))"

text \<open>The size limits of the quality; the message that is logged needs its label.\<close>

definition size_fits :: "doc \<Rightarrow> doc \<Rightarrow> bool res" where
  "size_fits nzb q =
     rbind (dsub nzb ''size'') (\<lambda>sz.
       if \<not> truthy sz then Inr True
       else rbind (dsub q ''size_min'') (\<lambda>lo.
         if tryInt sz 0 < tryInt lo 0 then rbind (dsub q ''label'') (\<lambda>_. Inr False)
         else rbind (dsub q ''size_max'') (\<lambda>hi.
           if tryInt hi 0 < tryInt sz 0 then rbind (dsub q ''label'') (\<lambda>_. Inr False) else Inr True)))"

definition outside_retention :: "settings \<Rightarrow> doc \<Rightarrow> bool res" where
  "outside_retention s nzb =
     (if dget nzb ''seeders'' \<noteq> PNone then Inr False
      else rbind (num_res (get_setting s ''retention'' ''nzb'' (PStr []) PNone)) (\<lambda>r.
        if r \<le> 0 then Inr False
        else rbind (num_res (dgetd nzb ''age'' (PInt 0))) (\<lambda>age. Inr (r < age))))"

text \<open>The provider's own hooks: \<open>get_more_info\<close> leaves the dict it answers, \<open>extra_check\<close> may refuse.\<close>

definition provider_hooks :: "outside \<Rightarrow> doc \<Rightarrow> (world, doc option) py" where
  "provider_hooks ou nzb0 =
     bnd (if truthy (dget nzb0 ''get_more_info'')
          then bnd (call_method ou (dget nzb0 ''get_more_info'') nzb0) (\<lambda>v. liftr (as_dict v)) else ret nzb0) (\<lambda>nzb.
     bnd (if truthy (dget nzb ''extra_check'') then call_method ou (dget nzb ''extra_check'') nzb else ret (PBool True)) (\<lambda>b.
     ret (if truthy b then Some nzb else None)))"

text \<open>The answer, and the release as the hooks of its provider leave it.\<close>

definition correctRelease :: "outside \<Rightarrow> doc \<Rightarrow> doc \<Rightarrow> doc \<Rightarrow> bool \<Rightarrow> (world, pv \<times> doc) py" where
  "correctRelease ou nzb0 media q imdb_results =
     (if dget media ''type'' \<noteq> PStr ''movie'' then ret (PNone, nzb0) else
      bnd (gets sett) (\<lambda>s.
      bnd (liftr (outside_retention s nzb0)) (\<lambda>too_old.
      if too_old then ret (PBool False, nzb0) else
      bnd (liftr (rbind (dsub nzb0 ''name'') as_str)) (\<lambda>name.
      if correctWords ou s name media \<noteq> Inr True then ret (PBool False, nzb0)
      else if q = [] then raise KeyError else
      bnd (liftr (rbind (dsub media ''info'') (\<lambda>i. vsub i ''year''))) (\<lambda>year.
      bnd (call_handler (containsOtherQuality ou nzb0 year q)) (\<lambda>contains_other.
      if truthy contains_other \<and> is_dict contains_other
      then bnd (liftr (dsub q ''label'')) (\<lambda>_. ret (PBool False, nzb0)) else
      bnd (call_handler (correct3D ou nzb0 q)) (\<lambda>right_3d.
      if \<not> truthy right_3d
      then bnd (liftr (rbind (dsub q ''custom'') (\<lambda>c. rbind (vget c ''3d'') (\<lambda>_. dsub q ''label'')))) (\<lambda>_. ret (PBool False, nzb0)) else
      bnd (liftr (size_fits nzb0 q)) (\<lambda>fits.
      if \<not> fits then ret (PBool False, nzb0) else
      bnd (provider_hooks ou nzb0) (\<lambda>checked. case checked of
          None \<Rightarrow> ret (PBool False, nzb0)
        | Some nzb \<Rightarrow>
            if imdb_results then ret (PBool True, nzb)
            else liftr (rbind (names_imdb nzb media) (\<lambda>by_imdb.
              if by_imdb then Inr (PBool True, nzb)
              else rbind (info_titles media) (\<lambda>titles. rbind (rbind (dsub nzb ''name'') as_str) (\<lambda>nm.
                Inr (PBool (list_ex (title_matches ou nm year) (concat (map possibleTitles titles))), nzb))))))))))))))"

section \<open>The next release\<close>

definition ignore_snatched :: "doc \<Rightarrow> (world, unit) py" where
  "ignore_snatched rel =
     whenp (dget rel ''status'' \<in> {PStr ''snatched'', PStr ''done''})
       (bnd (call_handler (bnd (liftr (as_str (dget rel ''_id''))) (\<lambda>i.
               bnd (updateStatus i ''ignored'') (\<lambda>b. ret (PBool b))))) (\<lambda>_. ret ()))"

definition tryNextRelease :: "outside \<Rightarrow> string \<Rightarrow> bool \<Rightarrow> bool \<Rightarrow> (world, bool) py" where
  "tryNextRelease ou media_id manual force_download =
     catch
       (bnd (forMedia_event media_id) (\<lambda>rv.
        bnd (liftr (rbind (as_list rv) (mapr as_dict))) (\<lambda>rels.
        bnd (for_each rels ignore_snatched) (\<lambda>_.
        bnd (media_get_event media_id) (\<lambda>media. case media of
            None \<Rightarrow> ret False
          | Some m \<Rightarrow> bnd (single_search ou m PNone manual force_download) (\<lambda>_. ret True))))))
       (\<lambda>_. ret False)"

section \<open>The full search\<close>

record search_state =
  sw :: world
  in_progress :: pv

definition on_world :: "(world, 'a) py \<Rightarrow> (search_state, 'a) py" where
  "on_world m = (\<lambda>s. case m (sw s) of (r, w) \<Rightarrow> (r, s\<lparr>sw := w\<rparr>))"

definition count_down :: "search_state \<Rightarrow> search_state" where
  "count_down s = (case in_progress s of
       PDict d \<Rightarrow> s\<lparr>in_progress := PDict (dput d ''to_go'' (PInt (tryInt (dget d ''to_go'') 0 - 1)))\<rparr> | _ \<Rightarrow> s)"

text \<open>One movie of the full search: an \<open>IndexError\<close>, which a profile with lists of different length
  raises, refreshes the movie; any other exception is logged with its identifier.\<close>

definition search_one :: "outside \<Rightarrow> pv \<Rightarrow> bool \<Rightarrow> pv \<Rightarrow> unit \<Rightarrow> (search_state, unit ctl) py" where
  "search_one ou protocols manual media_id _ =
     bnd (liftr (as_str media_id)) (\<lambda>mid.
     bnd (on_world (media_get_event mid)) (\<lambda>media. case media of
         None \<Rightarrow> ret (Go ())
       | Some m \<Rightarrow>
           bnd (on_world (catch (bnd (single_search ou m protocols manual False) (\<lambda>_. ret ()))
             (\<lambda>e. bnd (liftr (getIdentifier m)) (\<lambda>_.
               whenp (e = IndexError)
                 (bnd (fire ''shuttingDown'' []) (\<lambda>stop.
                  bnd (call_handler (movie_update (md5 ou) (is_file ou) (truthy stop) (PStr mid) PNone PNone False)) (\<lambda>_.
                  ret ()))))))) (\<lambda>_.
           bnd (modify count_down) (\<lambda>_.
           bnd (on_world (fire ''shuttingDown'' [])) (\<lambda>stop.
           ret (if truthy stop then Brk () else Go ()))))))"

definition searchAll :: "outside \<Rightarrow> (pv list \<Rightarrow> pv list) \<Rightarrow> bool \<Rightarrow> (search_state, unit) py" where
  "searchAll ou shuffle manual =
     bnd (gets (\<lambda>s. truthy (in_progress s))) (\<lambda>busy.
     if busy
     then on_world (fire_unit ''notify.frontend'' [PStr ''movie.searcher.already_started'', PBool True,
            PStr ''Full search already in progress''])
     else
       bnd (modify (in_progress_update (\<lambda>_. PBool True))) (\<lambda>_.
       bnd (on_world (fire_unit ''notify.frontend'' [PStr ''movie.searcher.started'', PBool True, PStr ''Full search started''])) (\<lambda>_.
       bnd (on_world (media_ids_with_status [''active''])) (\<lambda>ids.
       let medias = shuffle ids; n = PInt (int (length medias)) in
       bnd (modify (in_progress_update (\<lambda>_. PDict [(''total'', n), (''to_go'', n)]))) (\<lambda>_.
       bnd (on_world (call_handler (bnd getSearchProtocols (\<lambda>ps. ret (PList ps))))) (\<lambda>protocols.
       bnd (for_acc medias () (search_one ou protocols manual)) (\<lambda>_.
       modify (in_progress_update (\<lambda>_. PBool False)))))))))"

definition searchAllView :: "(search_state, bool) py" where
  "searchAllView =
     bnd (on_world (fire_async ''movie.searcher.all'' [PBool True])) (\<lambda>_.
     gets (\<lambda>s. \<not> truthy (in_progress s)))"

section \<open>What the providers are asked for\<close>

text \<open>A search for the quality at place \<open>i\<close> of the profile makes sense: no release that is more than
  available, ignored or failed is as good already, and the movie can be out, or that does not
  matter.\<close>

definition worth_searching ::
  "outside \<Rightarrow> doc \<Rightarrow> doc \<Rightarrow> pv \<Rightarrow> bool \<Rightarrow> int \<Rightarrow> pv list \<Rightarrow> nat \<Rightarrow> doc \<Rightarrow> bool" where
  "worth_searching ou movie profile dates regardless t qs i custom \<longleftrightarrow>
     i < length qs \<and> quality_custom profile i (qs ! i) = Inr custom \<and>
     (\<exists>rels. movie_releases movie = Inr rels \<and> (\<forall>rel \<in> set rels.
        dget rel ''status'' \<in> {PStr ''available'', PStr ''ignored'', PStr ''failed''} \<or>
        isHigher PNone [(''identifier'', qs ! i), (''is_3d'', dget custom ''3d'')]
          [(''identifier'', dget rel ''quality''), (''is_3d'', dgetd rel ''is_3d'' (PInt 0))] (PDict profile) = Inr Higher)) \<and>
     (regardless \<or> (\<exists>info year. dget movie ''info'' = PDict info \<and> dget info ''year'' = year \<and>
        couldBeReleased (qs ! i \<in> set (map PStr pre_releases)) dates year t (today ou t) = Inr True))"

lemma better_count_0:
  "better_count q d3 profile rels = Inr 0 \<Longrightarrow> rel \<in> set rels \<Longrightarrow>
   dget rel ''status'' \<in> {PStr ''available'', PStr ''ignored'', PStr ''failed''} \<or>
   isHigher PNone [(''identifier'', q), (''is_3d'', d3)]
     [(''identifier'', dget rel ''quality''), (''is_3d'', dgetd rel ''is_3d'' (PInt 0))] (PDict profile) = Inr Higher"
  by (induction rels) (auto simp: rbind_eq_Inr split: if_splits dest!: dsub_Inr)

lemma fires_drop_gone: "keeps (fires Q) (drop_gone ids rels)"
  by (induction rels) (auto simp: delete_release_def intro!: fires_intros)

lemma fires_create_all: "keeps (fires Q) (create_all h media q rels)"
  by (induction rels) (auto simp: create_one_def Let_def intro!: fires_intros split: option.split)

lemma fires_use_results:
  assumes "harmless Q" "\<And>m d. keeps (fires Q) (call_method ou m d)" "\<And>args. Q (''download'', args)"
  shows "keeps (fires Q) (use_results ou movie q custom could try_it results st)"
proof -
  have d: "keeps (fires Q) (tryDownloadResult (call_method ou) (md5 ou) rs movie custom)" for rs
    unfolding tryDownloadResult_def
    by (auto intro!: fires_intros fires_try_results assms split: prod.split)
  have c: "keeps (fires Q) (createFromSearch (md5 ou) results movie q)"
    unfolding createFromSearch_def by (auto intro!: fires_intros fires_create_all split: prod.split)
  show ?thesis unfolding use_results_def Let_def
    by (auto intro!: fires_intros fires_drop_gone d c fires_harmless assms(1) not_special
        split: option.split prod.split)
qed

lemma fires_search:
  assumes "\<And>p. Q (''provider.search.'' @ p @ ''.'' @ fmt (dget media ''type''), [PDict media, PDict q])"
  shows "keeps (fires Q) (searcher_search ps media q)"
  unfolding searcher_search_def ask_protocol_def
  by (intro fires_intros keeps_if fires_fire assms)

lemma fires_media_get_event: "keeps (fires Q) (media_get_event i)"
  unfolding media_get_event_def media_get_def
  by (auto intro!: fires_intros fires_forMedia_event split: option.split)

lemma fires_quality_single: "keeps (fires Q) (quality_single_event i)"
  unfolding quality_single_event_def single_quality_def
  by (auto intro!: fires_intros split: option.split)

text \<open>The quality a provider is asked for: the entry of the table of qualities with the identifier, merged with its
  document in the database, and with the customs of the profile.\<close>

definition asked_for :: "string \<Rightarrow> doc \<Rightarrow> doc \<Rightarrow> bool" where
  "asked_for ident custom q \<longleftrightarrow> (\<exists>m. q_id (m_base m) = ident \<and> dget (m_doc m) ''identifier'' = PStr ident \<and>
     q = dput (merged_dict m) ''custom'' (PDict custom) \<and>
     (distinct (map fst (m_doc m)) \<longrightarrow> dget q ''identifier'' = PStr ident))"

lemma getQuality_id: "getQuality i = Some q \<Longrightarrow> q_id q = i"
proof -
  have "first_such P xs = Some q \<Longrightarrow> P q" for P and xs :: "quality list" by (induction xs) (auto split: if_splits)
  then show "getQuality i = Some q \<Longrightarrow> q_id q = i" unfolding getQuality_def by fastforce
qed

lemma single_quality_named:
  assumes "single_quality ident w = (Inr m, w')"
  shows "q_id (m_base m) = ident \<and> dget (m_doc m) ''identifier'' = PStr ident"
proof -
  from assms obtain h hs where h: "query ''quality'' (PStr ident) (store w) = Inr (h # hs)"
      and m: "m_doc m = hit_doc h" and i: "dsub (hit_doc h) ''identifier'' = Inr (PStr (q_id (m_base m)))"
    by (auto simp: single_quality_def py_simps db_get_by_def rbind_eq_Inr dest: getQuality_id
        split: sum.splits list.splits option.splits pv.splits if_splits)
  have f: "the_index ''quality'' = Some QualityIndex" by (simp add: the_index_def index_table_def)
  have "h # hs = map mk_hit (filter (\<lambda>e. fst e = PStr ident) (index_entries QualityIndex (live_docs (store w))))"
    using h by (simp add: query_def f make_key_def)
  then have "h \<in> set (map mk_hit (filter (\<lambda>e. fst e = PStr ident) (index_entries QualityIndex (live_docs (store w)))))"
    by (metis list.set_intros(1))
  then obtain val d where "(PStr ident, val, d) \<in> set (index_entries QualityIndex (live_docs (store w)))" "hit_doc h = d"
    by (auto simp: mk_hit_def)
  then have "dget (hit_doc h) ''identifier'' = PStr ident"
    by (auto simp: set_index_entries QualityIndex_def split: if_splits)
  with m dsub_Inr [OF i] show ?thesis by simp
qed

lemma quality_single_asked:
  assumes "quality_single_event ident w = (Inr (PDict q0), w')"
  shows "asked_for ident custom (dput q0 ''custom'' (PDict custom))"
proof -
  from assms obtain m where m: "single_quality ident w = (Inr m, w')" "q0 = merged_dict m"
    by (auto simp: quality_single_event_def call_handler_def py_simps split: sum.splits prod.splits)
  note named = single_quality_named [OF m(1)]
  have "map_of (m_doc m) ''identifier'' = Some (PStr ident)"
    using named by (auto simp: dget_def split: option.splits)
  then have "distinct (map fst (m_doc m)) \<Longrightarrow> dget q0 ''identifier'' = PStr ident"
    using merge_into_scalar [of "m_doc m" "''identifier''" "PStr ident"] by (simp add: m(2) merged_dict_def)
  with named m(2) show ?thesis by (auto simp: asked_for_def)
qed

text \<open>One round of the loop.\<close>

lemma fires_search_quality:
  assumes Q: "harmless Q" "\<And>m d. keeps (fires Q) (call_method ou m d)" "\<And>args. Q (''download'', args)"
    and i: "i < length qs"
    and ok: "\<And>n q custom. worth_searching ou movie profile dates (always \<or> ignore_eta) t qs i custom \<Longrightarrow>
        asked_for (fmt (qs ! i)) custom q \<Longrightarrow> Q (n, [PDict movie, PDict q])"
  shows "keeps (fires_at t Q)
    (search_quality ou protocols movie profile dates always ignore_eta force_download (i, qs ! i) st)"
proof -
  have go: "keeps (fires Q)
      (bnd (quality_single_event (fmt (qs ! i))) (\<lambda>qv.
       bnd (liftr (rbind (vsub qv ''label'') (\<lambda>_. as_dict qv))) (\<lambda>q0.
       bnd (catch (bnd (liftr (as_list protocols)) (\<lambda>ps. searcher_search ps movie (dput q0 ''custom'' (PDict custom))))
            (\<lambda>_. ret [])) (\<lambda>results.
       bnd (media_get_event mid) (\<lambda>still. case still of None \<Rightarrow> ret (Brk st1)
         | Some _ \<Rightarrow> use_results ou movie (dput q0 ''custom'' (PDict custom)) custom could try_it results st1)))))"
    if w: "worth_searching ou movie profile dates (always \<or> ignore_eta) t qs i custom" for custom mid st1 could try_it
  proof (rule fr.keeps_bnd_result [OF fires_quality_single], rule fr.keeps_liftr_bnd)
    fix qv w v q0 assume "quality_single_event (fmt (qs ! i)) w = (Inr qv, v)"
      and "rbind (vsub qv ''label'') (\<lambda>_. as_dict qv) = Inr q0"
    then have "quality_single_event (fmt (qs ! i)) w = (Inr (PDict q0), v)"
      by (cases qv) (auto simp: rbind_eq_Inr)
    from quality_single_asked [OF this, of custom]
    show "keeps (fires Q)
      (bnd (catch (bnd (liftr (as_list protocols)) (\<lambda>ps. searcher_search ps movie (dput q0 ''custom'' (PDict custom))))
            (\<lambda>_. ret [])) (\<lambda>results.
       bnd (media_get_event mid) (\<lambda>still. case still of None \<Rightarrow> ret (Brk st1)
         | Some _ \<Rightarrow> use_results ou movie (dput q0 ''custom'' (PDict custom)) custom could try_it results st1)))"
      by (auto intro!: fires_intros fires_search fires_media_get_event fires_use_results [OF Q] ok [OF w]
          split: option.split)
  qed
  have worth: "worth_searching ou movie profile dates (always \<or> ignore_eta) t qs i custom"
    if "quality_custom profile i (qs ! i) = Inr custom"
      "rbind (rbind (dsub movie ''info'') (\<lambda>i. vsub i ''year'')) (\<lambda>year.
             couldBeReleased (qs ! i \<in> set (map PStr pre_releases)) dates year t (today ou t)) = Inr could"
      "\<not> (\<not> always \<and> \<not> could \<and> \<not> ignore_eta)"
      "rbind (movie_releases movie) (better_count (qs ! i) (dget custom ''3d'') profile) = Inr better" "\<not> 0 < better"
    for custom could better
  proof -
    have y: "\<exists>info year. dget movie ''info'' = PDict info \<and> dget info ''year'' = year \<and>
        couldBeReleased (qs ! i \<in> set (map PStr pre_releases)) dates year t (today ou t) = Inr could"
    proof -
      from that(2) obtain v year where "dsub movie ''info'' = Inr v" "vsub v ''year'' = Inr year"
        "couldBeReleased (qs ! i \<in> set (map PStr pre_releases)) dates year t (today ou t) = Inr could"
        by (auto simp: rbind_eq_Inr)
      then show ?thesis by (cases v) (auto dest!: dsub_Inr)
    qed
    from that(4,5) obtain rels where rels: "movie_releases movie = Inr rels"
      "better_count (qs ! i) (dget custom ''3d'') profile rels = Inr 0" by (auto simp: rbind_eq_Inr)
    have out: "(always \<or> ignore_eta) \<or> (\<exists>info year. dget movie ''info'' = PDict info \<and> dget info ''year'' = year \<and>
        couldBeReleased (qs ! i \<in> set (map PStr pre_releases)) dates year t (today ou t) = Inr True)"
      using y that(3) by (cases could) auto
    show ?thesis unfolding worth_searching_def
      by (intro conjI i that(1) out exI [of _ rels] rels(1) ballI better_count_0 [OF rels(2)])
  qed
  show ?thesis unfolding search_quality_def Let_def fst_conv snd_conv
    by (intro fa.keeps_liftr_bnd fires_at_now keeps_cond fires_at_fires go worth fires_intros fires_restatus;
        assumption)
qed

text \<open>C14: in the search of a movie over its profile the providers are asked only for a quality of the
  profile, the one with its identifier in the table of qualities, that beats every release the movie has
  already (those just available, ignored or failed aside), and only when the movie can have been released
  or its release date is ignored.\<close>

theorem searched_only_wanted:
  assumes "\<And>Q m d. harmless Q \<Longrightarrow> keeps (fires Q) (call_method ou m d)"
  shows "\<exists>evs. fired (snd (search_qualities ou protocols movie profile dates always ignore_eta force_download qs w))
      = fired w @ evs \<and>
    (\<forall>n args. (n, args) \<in> set evs \<longrightarrow> prefix ''provider.search.'' n \<longrightarrow> suffix ''.movie'' n \<longrightarrow>
      (\<exists>i q custom. args = [PDict movie, PDict q] \<and> asked_for (fmt (qs ! i)) custom q \<and>
         worth_searching ou movie profile dates (always \<or> ignore_eta) (now w) qs i custom))"
proof -
  define Q where "Q = (\<lambda>(n, args). prefix ''provider.search.'' n \<longrightarrow> suffix ''.movie'' n \<longrightarrow>
      (\<exists>i q custom. args = [PDict movie, PDict q] \<and> asked_for (fmt (qs ! i)) custom q \<and>
         worth_searching ou movie profile dates (always \<or> ignore_eta) (now w) qs i custom))"
  have Q: "harmless Q" "\<And>args. Q (''download'', args)"
    by (auto simp: Q_def harmless_def special_def)
  have "keeps (fires_at (now w) Q)
      (search_qualities ou protocols movie profile dates always ignore_eta force_download qs)"
    unfolding search_qualities_def
  proof (rule fa.keeps_for_acc_mem)
    fix x st assume m: "x \<in> set (enumerate 0 qs)"
    obtain i v where iv: "x = (i, v)" by (cases x)
    with m have x: "x = (i, qs ! i)" "i < length qs" by (simp_all add: in_set_enumerate_eq)
    show "keeps (fires_at (now w) Q)
        (search_quality ou protocols movie profile dates always ignore_eta force_download x st)"
      unfolding x(1)
      by (rule fires_search_quality [OF Q(1) assms [OF Q(1)] Q(2) x(2)]) (auto simp: Q_def)
  qed
  from keepsD [OF this, of w] have "fires Q w (snd (search_qualities ou protocols movie profile dates always ignore_eta force_download qs w))"
    by (simp add: fires_at_def)
  then show ?thesis unfolding fires_def Q_def by fastforce
qed

definition hd_profile :: doc where
  "hd_profile = [(''qualities'', PList [PStr ''1080p'', PStr ''720p'']), (''finish'', PList [PBool True, PBool True]),
     (''wait_for'', PList [PInt 0, PInt 0])]"

theorem searched_only_wanted_witness:
  "\<exists>evs. fired (snd (search_qualities demo_outside (PList [PStr ''nzb'']) media_doc hd_profile (PList []) True False
        False [PStr ''1080p'', PStr ''720p''] demo_world)) = fired demo_world @ evs \<and>
    (\<forall>n args. (n, args) \<in> set evs \<longrightarrow> prefix ''provider.search.'' n \<longrightarrow> suffix ''.movie'' n \<longrightarrow>
      (\<exists>i q custom. args = [PDict media_doc, PDict q] \<and> asked_for (fmt ([PStr ''1080p'', PStr ''720p''] ! i)) custom q \<and>
         worth_searching demo_outside media_doc hd_profile (PList []) (True \<or> False) (now demo_world)
           [PStr ''1080p'', PStr ''720p''] i custom))"
  by (rule searched_only_wanted) (simp add: demo_outside_def fr.keeps_ret)

section \<open>A movie that can be out stays out\<close>

lemma by_dates_later:
  "by_dates pre dates t = Inr True \<Longrightarrow> t \<le> t' \<Longrightarrow> by_dates pre dates t' = Inr True"
proof -
  assume a: "by_dates pre dates t = Inr True" and t: "t \<le> t'"
  have le: "(x::rat) < of_int t \<Longrightarrow> x < of_int t'" for x
    using t by (meson less_le_trans of_int_le_iff)
  from a show ?thesis unfolding by_dates_def
    by (auto simp: rbind_eq_Inr split: if_splits dest!: le)
qed

lemma by_dates_dict: "by_dates pre dates t = Inr b \<Longrightarrow> truthy dates \<Longrightarrow> \<exists>d. dates = PDict d"
  by (cases dates) (auto simp: by_dates_def date_of_def rbind_eq_Inr)

lemma early_later:
  "early_year y ym \<Longrightarrow> fst ym < fst ym' \<or> fst ym = fst ym' \<and> snd ym \<le> snd ym' \<Longrightarrow> early_year y ym'"
proof -
  assume e: "early_year y ym" and l: "fst ym < fst ym' \<or> fst ym = fst ym' \<and> snd ym \<le> snd ym'"
  show ?thesis
  proof (cases y)
    case (Some r)
    have "(of_int (fst ym - 1) :: rat) < of_int (fst ym' - 1)" if "fst ym < fst ym'"
      using that by (simp only: of_int_less_iff)
    with e l Some show ?thesis by (auto simp: early_year_def)
  qed (simp add: early_year_def)
qed

lemma year_limit_later:
  "fst (ym :: int \<times> int) < fst ym' \<or> fst ym = fst ym' \<and> snd ym \<le> snd ym' \<Longrightarrow>
   fst ym + (if 10 < snd ym then 1 else 0) \<le> fst ym' + (if 10 < snd ym' then (1::int) else 0)"
  by auto

text \<open>Once a movie could have been released it could have been at every later time and date: a search
  that was due stays due.\<close>

theorem couldBeReleased_later:
  assumes "couldBeReleased pre dates year t ym = Inr True" "t \<le> t'"
    and "fst ym < fst ym' \<or> fst ym = fst ym' \<and> snd ym \<le> snd ym'"
  shows "couldBeReleased pre dates year t' ym' = Inr True"
proof -
  from assms(1) obtain y where y: "(if year = PNone then Inr None else rbind (num_res year) (\<lambda>y. Inr (Some y))) = Inr y"
    by (auto simp: couldBeReleased_def rbind_eq_Inr)
  define old where "old = (\<lambda>ym :: int \<times> int. if early_year y ym
            then (if \<not> truthy dates then Inr True
                  else rbind (date_of dates ''theater'') (\<lambda>th. rbind (date_of dates ''dvd'') (\<lambda>dv.
                       Inr (pv_eq th (PInt 0) \<and> pv_eq dv (PInt 0)))))
            else Inr False)"
  define late where "late = (\<lambda>ym :: int \<times> int. case y of None \<Rightarrow> False | Some y \<Rightarrow> (of_int (fst ym + (if 10 < snd ym then 1 else 0)) :: rat) < y)"
  have run: "couldBeReleased pre dates year t ym = rbind (old ym) (\<lambda>o1. if o1 then Inr True
      else if late ym then Inr False else by_dates pre dates t)" for t ym
    using y by (simp add: couldBeReleased_def old_def late_def)
  from assms(1) consider "old ym = Inr True" | "old ym = Inr False" "\<not> late ym" "by_dates pre dates t = Inr True"
    unfolding run by (auto simp: rbind_eq_Inr split: if_splits)
  then show ?thesis
  proof cases
    case 1
    then have "old ym' = Inr True"
      using early_later [OF _ assms(3), of y] by (auto simp: old_def split: if_splits)
    then show ?thesis by (simp add: run)
  next
    case 2
    have "\<not> late ym'"
      using 2(2) year_limit_later [OF assms(3)]
      by (auto simp: late_def split: option.splits)
    moreover have "\<exists>b. old ym' = Inr b"
      using by_dates_dict [OF 2(3)] by (auto simp: old_def date_of_def)
    ultimately show ?thesis using by_dates_later [OF 2(3) assms(2)] by (auto simp: run)
  qed
qed

theorem couldBeReleased_later_witness:
  "couldBeReleased False (PDict [(''theater'', PInt 1400000000), (''dvd'', PInt 1407000000)]) (PInt 2014)
     1500000000 (2017, 7) = Inr True"
  by (rule couldBeReleased_later [of _ _ _ 1410000000 "(2014, 9)"])
    (simp_all add: couldBeReleased_def by_dates_def date_of_def early_year_def num_res_def dgetd_def)

end
