(* ===== verification/Disk.thy ===== *)
theory Disk
  imports World Helpers
begin

text \<open>
  What the plugins read from the file system, and couchpotato/core/plugins/base.py where it looks at
  files. A \<open>disk\<close> is a snapshot: the model does not change it while a call reads it. Sizes are in MB
  (\<open>None\<close> where \<open>getsize\<close> raises), times in seconds. A Python set is a list without duplicates; the
  order in which the interpreter goes through a set is the argument \<open>set_order\<close>.
\<close>

record disk =
  d_isdir :: "string \<Rightarrow> bool"
  d_exists :: "string \<Rightarrow> bool"
  d_isfile :: "string \<Rightarrow> bool"
  d_size :: "string \<Rightarrow> rat option"
  d_mtime :: "string \<Rightarrow> rat"
  d_walk :: "string \<Rightarrow> (string \<times> string list) list"
  d_read :: "string \<Rightarrow> string option"
  set_order :: "string list \<Rightarrow> string list"

definition order_ok :: "disk \<Rightarrow> bool" where
  "order_ok dk \<longleftrightarrow> (\<forall>xs. distinct (set_order dk xs) \<and> set (set_order dk xs) = set xs)"

definition dirname :: "string \<Rightarrow> string" where
  "dirname p =
     (let head = take (length p - length (basename p)) p
      in if head \<noteq> [] \<and> \<not> list_all (\<lambda>c. c = CHR ''/'') head then rstrip_chars ''/'' head else head)"

definition join_path :: "string \<Rightarrow> string \<Rightarrow> string" where
  "join_path a b =
     (if prefix ''/'' b then b else if a = [] \<or> suffix ''/'' a then a @ b else a @ ''/'' @ b)"

text \<open>\<open>filesizeBetween\<close>: a size that cannot be read raises in the comparison, which answers \<open>False\<close>.\<close>

definition filesizeBetween :: "disk \<Rightarrow> string \<Rightarrow> rat \<Rightarrow> rat \<Rightarrow> bool" where
  "filesizeBetween dk f lo hi = (case d_size dk f of None \<Rightarrow> False | Some n \<Rightarrow> lo < n \<and> n < hi)"

text \<open>On a POSIX system the second time is 0.\<close>

definition getFileTimes :: "disk \<Rightarrow> string \<Rightarrow> rat list" where
  "getFileTimes dk f = [d_mtime dk f, 0]"

text \<open>\<open>checkFilesChanged\<close>: the age of the first file that is gone or changed in the last
  \<open>unchanged_for\<close> seconds, as a whole number of seconds, or \<open>0\<close> (false).\<close>

definition too_new :: "int \<Rightarrow> rat \<Rightarrow> rat list \<Rightarrow> int" where
  "too_new t unchanged_for ts = (case first_such (\<lambda>x. of_int t - unchanged_for < x) ts of
       Some x \<Rightarrow> trunc (of_int t - x) | None \<Rightarrow> 0)"

fun checkFilesChanged :: "disk \<Rightarrow> int \<Rightarrow> rat \<Rightarrow> string list \<Rightarrow> int" where
  "checkFilesChanged dk t unchanged_for [] = 0"
| "checkFilesChanged dk t unchanged_for (f # fs) =
     (if \<not> d_isfile dk f then t
      else (let n = too_new t unchanged_for (getFileTimes dk f)
            in if n \<noteq> 0 then n else checkFilesChanged dk t unchanged_for fs))"

text \<open>A file that changed less than a second ago counts as unchanged: its age is rounded to 0, which
  the loop reads as \<open>no\<close>, so a release that is still being unpacked is processed.\<close>

theorem fresh_file_missed:
  assumes "\<And>f. f \<in> set fs \<Longrightarrow> d_isfile dk f \<and> of_int t - 1 < d_mtime dk f \<and> d_mtime dk f \<le> of_int t"
    and "60 \<le> t"
  shows "checkFilesChanged dk t 60 fs = 0"
  using assms(1)
proof (induction fs)
  case (Cons f fs)
  have m: "of_int t - 1 < d_mtime dk f" "d_mtime dk f \<le> of_int t" "d_isfile dk f" using Cons.prems by auto
  then have "too_new t 60 (getFileTimes dk f) = 0"
    by (auto simp: too_new_def getFileTimes_def trunc_def floor_eq_iff split: option.split)
  with Cons m show ?case by simp
qed simp

definition demo_disk :: disk where
  "demo_disk = \<lparr>d_isdir = (\<lambda>_. True), d_exists = (\<lambda>_. True), d_isfile = (\<lambda>_. True), d_size = (\<lambda>_. Some 700),
     d_mtime = (\<lambda>_. 1400000000), d_walk = (\<lambda>f. [(f, [''a.mkv''])]), d_read = (\<lambda>_. None), set_order = remdups\<rparr>"

theorem fresh_file_missed_witness: "checkFilesChanged demo_disk 1400000000 60 [''/a.mkv'', ''/a.nfo''] = 0"
  by (rule fresh_file_missed) (simp_all add: demo_disk_def)

end
