(* ===== verification/Scanner.thy ===== *)
theory Scanner
  imports Searcher Disk
begin

text \<open>
  couchpotato/core/plugins/scanner.py, the scan of a folder: the files are collected into groups by
  their identifier, the remaining ones joined to the groups by name, identifier and folder, groups
  that still change left out, and each group completed with its files by kind, its metadata and the
  media it is. A group is a record while files are collected and the dict the rest of the program
  reads afterwards. The libraries enzyme and subliminal are fields of \<open>scan_libs\<close>; the callback
  \<open>on_found\<close> is an argument.
\<close>

record scan_libs =
  enzyme :: "string \<Rightarrow> doc res"
  subtitles_of :: "string \<Rightarrow> (string \<times> pv) list res"

section \<open>Kinds of files\<close>

definition has_ext :: "string list \<Rightarrow> string \<Rightarrow> bool" where
  "has_ext exts f = (getExt (lower f) \<in> set exts)"

definition is_media_file :: "disk \<Rightarrow> string \<Rightarrow> bool" where
  "is_media_file dk f = (filesizeBetween dk f 200 100000 \<and> has_ext ext_movie f \<and> \<not> isSampleFile f)"

definition is_trailer :: "disk \<Rightarrow> string \<Rightarrow> bool" where
  "is_trailer dk f =
     (search (seqs [Grp 1 (Alt Bos non_word_or_us), lit ''trailer'', Star digit, non_word_or_us]) (lower f) \<noteq> None \<and>
      filesizeBetween dk f 2 199)"

definition as_set :: "disk \<Rightarrow> string list \<Rightarrow> string list" where
  "as_set dk xs = set_order dk xs"

definition getMovieExtras :: "disk \<Rightarrow> string list \<Rightarrow> string list" where
  "getMovieExtras dk fs = as_set dk (filter (has_ext [''mds'']) fs)"

definition getSubtitles :: "disk \<Rightarrow> string list \<Rightarrow> string list" where
  "getSubtitles dk fs = as_set dk (filter (has_ext ext_subtitle) fs)"

definition getSubtitlesExtras :: "disk \<Rightarrow> string list \<Rightarrow> string list" where
  "getSubtitlesExtras dk fs = as_set dk (filter (has_ext [''idx'']) fs)"

definition getNfo :: "disk \<Rightarrow> string list \<Rightarrow> string list" where
  "getNfo dk fs = as_set dk (filter (has_ext ext_nfo) fs)"

definition getTrailers :: "disk \<Rightarrow> string list \<Rightarrow> string list" where
  "getTrailers dk fs = as_set dk (filter (is_trailer dk) fs)"

definition getMediaFiles :: "disk \<Rightarrow> string list \<Rightarrow> string list" where
  "getMediaFiles dk fs = as_set dk (filter (is_media_file dk) fs)"

definition getDVDFiles :: "disk \<Rightarrow> string list \<Rightarrow> string list" where
  "getDVDFiles dk fs = as_set dk (filter isDVDFile fs)"

section \<open>Collecting the files\<close>

record mgroup =
  unsorted :: "string list"
  identifiers :: "string list"
  is_dvd :: bool

record scan_state =
  movie_files :: "(string \<times> mgroup) list"
  leftovers :: "string list"

definition stopping :: "(world, bool) py" where
  "stopping = bnd (fire ''shuttingDown'' []) (\<lambda>v. ret (truthy v))"

text \<open>End of a round: \<open>if self.shuttingDown(): break\<close>.\<close>

definition next_round :: "'a \<Rightarrow> (world, 'a ctl) py" where
  "next_round a = bnd stopping (\<lambda>stop. ret (if stop then Brk a else Go a))"

definition group_at :: "(string \<times> mgroup) list \<Rightarrow> string \<Rightarrow> mgroup option" where
  "group_at = map_of"

definition add_files :: "string \<Rightarrow> string list \<Rightarrow> (string \<times> mgroup) list \<Rightarrow> (string \<times> mgroup) list" where
  "add_files i fs gs = map (\<lambda>(j, g). (j, if j = i then g\<lparr>unsorted := unsorted g @ fs\<rparr> else g)) gs"

definition quality_guess_file :: "outside \<Rightarrow> disk \<Rightarrow> string \<Rightarrow> (world, pv) py" where
  "quality_guess_file ou dk f =
     bnd (quality_guess_event ou (PStr f) (case d_size dk f of None \<Rightarrow> PNone | Some n \<Rightarrow> PFloat n)) (\<lambda>g.
     ret (case g of None \<Rightarrow> PNone | Some (m, d3) \<Rightarrow> PDict (dput (merged_dict m) ''is_3d'' (PBool d3))))"

definition quality_suffix :: "pv \<Rightarrow> string" where
  "quality_suffix q = (case q of PDict d \<Rightarrow> fmt (dgetd d ''identifier'' (PStr [])) | _ \<Rightarrow> [])"

definition collect_file :: "outside \<Rightarrow> disk \<Rightarrow> string \<Rightarrow> string \<Rightarrow> scan_state \<Rightarrow> (world, scan_state ctl) py" where
  "collect_file ou dk folder f st =
     (if \<not> d_exists dk f then ret (Go st)
      else if isSampleFile f then ret (Go (st\<lparr>leftovers := leftovers st @ [f]\<rparr>))
      else if \<not> keepFile f then ret (Go st)
      else let on_dvd = isDVDFile f in
        if filesizeBetween dk f 200 100000 \<or> on_dvd
        then let ident = createStringIdentifier f folder on_dvd in
             bnd (if on_dvd then ret (PDict [(''identifier'', PStr ''dvdr'')]) else quality_guess_file ou dk f) (\<lambda>q.
             let ids = (if truthy q then [ident @ '' '' @ quality_suffix q, ident] else [ident]);
                 gs = (if group_at (movie_files st) ident = None
                       then movie_files st @ [(ident, \<lparr>unsorted = [], identifiers = ids, is_dvd = on_dvd\<rparr>)]
                       else movie_files st)
             in next_round (st\<lparr>movie_files := add_files ident [f] gs\<rparr>))
        else next_round (st\<lparr>leftovers := leftovers st @ [f]\<rparr>))"

section \<open>Joining the remaining files to the groups\<close>

definition without_ext :: "string \<Rightarrow> string" where
  "without_ext f = take (length f - (length (getExt f) + 1)) f"

text \<open>By name: a group takes every remaining file whose path contains the path of one of its files
  without the extension.\<close>

definition join_by_name :: "disk \<Rightarrow> string list \<Rightarrow> string list \<Rightarrow> string list \<times> string list" where
  "join_by_name dk fs left = foldl (\<lambda>(got, left) f.
     let hits = filter (contains (without_ext f)) left
     in (got @ set_order dk hits, filter (\<lambda>x. x \<notin> set hits) left)) ([], left) fs"

definition ignored_count :: "string list \<Rightarrow> nat" where
  "ignored_count fs = length (filter (\<lambda>f. getExt f \<in> set ignored_extensions) fs)"

definition name_round ::
  "disk \<Rightarrow> string \<times> mgroup \<Rightarrow> scan_state \<times> string list \<Rightarrow> (world, (scan_state \<times> string list) ctl) py" where
  "name_round dk ig sti =
     (let i = fst ig; fs = unsorted (snd ig); st = fst sti;
          (got, left) = join_by_name dk fs (leftovers st);
          st' = st\<lparr>movie_files := add_files i got (movie_files st), leftovers := left\<rparr>
      in next_round (st', if 0 < ignored_count (fs @ got) then snd sti @ [i] else snd sti))"

text \<open>The identifiers of the files that remain, each with its files.\<close>

definition path_identifiers :: "disk \<Rightarrow> string \<Rightarrow> string list \<Rightarrow> (string \<times> string list) list" where
  "path_identifiers dk folder left =
     foldl (\<lambda>pis f. let i = createStringIdentifier f folder False in
       AList.update i ((case map_of pis i of None \<Rightarrow> [] | Some fs \<Rightarrow> fs) @ [f]) pis) [] (set_order dk left)"

text \<open>By identifier: the state carries the identifiers whose files have been taken.\<close>

definition ident_round ::
  "string \<times> string list \<Rightarrow> scan_state \<times> string list \<Rightarrow> (world, (scan_state \<times> string list) ctl) py" where
  "ident_round ifs sti =
     (let i = fst ifs; fs = snd ifs; st = fst sti in
      next_round (if group_at (movie_files st) i = None then sti
        else (st\<lparr>movie_files := add_files i fs (movie_files st),
                 leftovers := filter (\<lambda>x. x \<notin> set fs) (leftovers st)\<rparr>, snd sti @ [i])))"

text \<open>By folder. The set of leftovers keeps only the file that was found, instead of losing it:
  \<open>leftovers -= leftovers - set([ff])\<close>; it is only logged after that.\<close>

definition folder_step :: "string \<Rightarrow> string \<Rightarrow> scan_state \<Rightarrow> scan_state" where
  "folder_step folder ff st =
     (let i = createStringIdentifier (dirname ff) folder False in
      if group_at (movie_files st) i = None then st
      else st\<lparr>movie_files := add_files i [ff] (movie_files st),
              leftovers := filter (\<lambda>x. x = ff) (leftovers st)\<rparr>)"

definition folder_round :: "string \<Rightarrow> string \<times> string list \<Rightarrow> scan_state \<Rightarrow> (world, scan_state ctl) py" where
  "folder_round folder ifs st = next_round (foldl (\<lambda>st ff. folder_step folder ff st) st (snd ifs))"

text \<open>The groups of a list of files and the identifiers of those with an ignore file.\<close>

definition group_files_by_name ::
  "outside \<Rightarrow> disk \<Rightarrow> string \<Rightarrow> string list \<Rightarrow> (world, (string \<times> mgroup) list \<times> string list) py" where
  "group_files_by_name ou dk folder files =
     bnd (for_acc files \<lparr>movie_files = [], leftovers = []\<rparr> (collect_file ou dk folder)) (\<lambda>st0.
     let st1 = st0\<lparr>leftovers := set_order dk (leftovers st0)\<rparr> in
     bnd (for_acc (movie_files st1) (st1, []) (name_round dk)) (\<lambda>(st2, ignored).
     let pis = path_identifiers dk folder (leftovers st2) in
     bnd (for_acc pis (st2, []) ident_round) (\<lambda>(st3, taken).
     bnd (for_acc (filter (\<lambda>(i, _). i \<notin> set taken) pis) st3 (folder_round folder)) (\<lambda>st4.
     ret (movie_files st4, ignored)))))"

section \<open>Groups that are still changing\<close>

definition has_new_files :: "disk \<Rightarrow> rat \<Rightarrow> string list \<Rightarrow> bool" where
  "has_new_files dk newer_than fs = list_ex (\<lambda>f. list_ex (\<lambda>x. newer_than < x) (getFileTimes dk f)) fs"

fun valid_groups ::
  "disk \<Rightarrow> bool \<Rightarrow> rat \<Rightarrow> (string \<times> mgroup) list \<Rightarrow> (string \<times> mgroup) list \<Rightarrow> (world, (string \<times> mgroup) list) py" where
  "valid_groups dk check_file_date newer_than [] valid = bnd stopping (\<lambda>_. ret valid)"
| "valid_groups dk check_file_date newer_than ((i, g) # gs) valid =
     bnd stopping (\<lambda>stop.
     if stop then ret valid else
     bnd (gets now) (\<lambda>t.
       let changing = check_file_date \<and> checkFilesChanged dk t 60 (unsorted g) \<noteq> 0;
           old = 0 < newer_than \<and> \<not> has_new_files dk newer_than (unsorted g)
       in valid_groups dk check_file_date newer_than gs (if changing \<or> old then valid else valid @ [(i, g)])))"

section \<open>Metadata\<close>

definition codec_name :: "pv \<Rightarrow> pv" where
  "codec_name c = (if c = PStr ''AVC1'' then PStr ''H264'' else if c = PStr ''HEVC'' then PStr ''x265'' else c)"

definition audio_codec_map :: "(int \<times> string) list" where
  "audio_codec_map = [(0x2000, ''AC3''), (0x2001, ''DTS''), (0x0055, ''MP3''), (0x0050, ''MP2''), (0x0001, ''PCM''),
     (0x003, ''WAV''), (0x77a1, ''TTA1''), (0x5756, ''WAV''), (0x6750, ''Vorbis''), (0xF1AC, ''FLAC''), (0x00ff, ''AAC'')]"

definition audio_name :: "pv \<Rightarrow> pv" where
  "audio_name c = (case c of PInt n \<Rightarrow> (case map_of audio_codec_map n of Some s \<Rightarrow> PStr s | None \<Rightarrow> PNone)
     | PList _ \<Rightarrow> c | PDict _ \<Rightarrow> c | _ \<Rightarrow> PNone)"

text \<open>A title in the headers counts when it holds a year.\<close>

definition header_title :: "pv \<Rightarrow> string list" where
  "header_title t = (case t of PStr s \<Rightarrow> if s \<noteq> [] \<and> findYear s \<noteq> [] then [s] else [] | _ \<Rightarrow> [])"

text \<open>\<open>getMeta\<close>: anything that raises, an unknown format included, gives no metadata. The parsed file
  is a dict with the attributes the code reads.\<close>

definition getMeta :: "scan_libs \<Rightarrow> disk \<Rightarrow> string \<Rightarrow> doc" where
  "getMeta libs dk filename =
     (case rbind (enzyme libs filename) (\<lambda>p.
        rbind (rbind (dsub p ''video'') as_list) (\<lambda>vs. rbind (rbind (nth_res vs 0) as_dict) (\<lambda>v.
        rbind (dsub v ''codec'') (\<lambda>vc.
        rbind (rbind (dsub p ''audio'') as_list) (\<lambda>aus. rbind (rbind (nth_res aus 0) as_dict) (\<lambda>a.
        rbind (dsub a ''codec'') (\<lambda>ac.
        rbind (mapr as_dict vs) (\<lambda>vds.
        rbind (dsub v ''width'') (\<lambda>wi. rbind (dsub v ''height'') (\<lambda>he. rbind (dsub a ''channels'') (\<lambda>ch.
          Inr [(''titles'', PList (map PStr (set_order dk (header_title (dget p ''title'')
                  @ concat (map (\<lambda>vd. header_title (dget vd ''title'')) vds))))),
               (''video'', codec_name vc), (''audio'', audio_name ac),
               (''resolution_width'', PInt (tryInt wi 0)), (''resolution_height'', PInt (tryInt he 0)),
               (''audio_channels'', ch)]))))))))))) of
      Inr d \<Rightarrow> d | Inl _ \<Rightarrow> [])"

text \<open>\<open>round(x, 2)\<close>, to the even neighbour.\<close>

definition round2 :: "rat \<Rightarrow> rat" where
  "round2 x = (let y = x * 100; f = \<lfloor>y\<rfloor>; d = y - of_int f
     in of_int (if d < 1/2 \<or> d = 1/2 \<and> even f then f else f + 1) / 100)"

text \<open>The part of the metadata a file gives; when the aspect ratio cannot be computed what was set
  before stays.\<close>

definition file_meta :: "scan_libs \<Rightarrow> disk \<Rightarrow> string \<Rightarrow> doc \<Rightarrow> doc" where
  "file_meta libs dk f data0 =
     (let meta = getMeta libs dk f;
          data1 = dupdate data0
            [(''titles'', dgetd meta ''titles'' (PList [])),
             (''video'', dgetd meta ''video'' (PStr (getCodec f codecs_video))),
             (''audio'', dgetd meta ''audio'' (PStr (getCodec f codecs_audio))),
             (''audio_channels'', dgetd meta ''audio_channels'' (PFloat 2))]
      in if truthy (dget meta ''resolution_width'')
         then (let data2 = dupdate data1 [(''resolution_width'', dget meta ''resolution_width''),
                     (''resolution_height'', dget meta ''resolution_height'')]
               in case (num_of (dget meta ''resolution_width''), num_of (dget meta ''resolution_height'')) of
                    (Some w, Some h) \<Rightarrow> if h = 0 then data2 else dput data2 ''aspect'' (PFloat (round2 (w / h)))
                  | _ \<Rightarrow> data2)
         else dupdate data1 (getResolution f))"

definition add_size :: "rat \<Rightarrow> doc \<Rightarrow> doc" where
  "add_size n data = dput data ''size'' (PFloat ((case num_of (dgetd data ''size'' (PInt 0)) of Some x \<Rightarrow> x | None \<Rightarrow> 0) + n))"

definition files_meta :: "scan_libs \<Rightarrow> disk \<Rightarrow> string list \<Rightarrow> doc" where
  "files_meta libs dk fs = foldl (\<lambda>data f.
     (case d_size dk f of
        Some n \<Rightarrow> (if filesizeBetween dk f 200 100000
                   then add_size n (if truthy (dget data ''audio'') then data else file_meta libs dk f data) else data)
      | None \<Rightarrow> data)) [] fs"

definition quality_guess_files :: "outside \<Rightarrow> string list \<Rightarrow> doc \<Rightarrow> (world, pv) py" where
  "quality_guess_files ou fs data =
     bnd (catch (guess (guess_name_of ou) None fs data (dget data ''size'') True) (\<lambda>_. ret None)) (\<lambda>g.
     ret (case g of None \<Rightarrow> PNone | Some (m, d3) \<Rightarrow> PDict (dput (merged_dict m) ''is_3d'' (PBool d3))))"

text \<open>The quality that was snatched wins over the one guessed; comparing the two for the log needs
  both.\<close>

definition snatched_quality :: "pv \<Rightarrow> pv \<Rightarrow> doc \<Rightarrow> pv res" where
  "snatched_quality single0 guessed release_download =
     rbind (as_dict single0) (\<lambda>d0.
     let d = dput d0 ''is_3d'' (dgetd release_download ''is_3d'' (PInt 0)) in
     rbind (dsub d ''identifier'') (\<lambda>_. rbind (vsub guessed ''identifier'') (\<lambda>_. rbind (vsub guessed ''is_3d'') (\<lambda>_.
       Inr (PDict d)))))"

definition group_quality :: "outside \<Rightarrow> string list \<Rightarrow> bool \<Rightarrow> doc \<Rightarrow> doc \<Rightarrow> (world, pv) py" where
  "group_quality ou fs on_dvd data release_download =
     bnd (quality_guess_files ou fs (dput data ''quality'' PNone)) (\<lambda>guessed.
     bnd (if truthy (dget release_download ''quality'')
          then bnd (quality_single_event (fmt (dget release_download ''quality''))) (\<lambda>s.
               liftr (snatched_quality s guessed release_download))
          else ret PNone) (\<lambda>q.
     if truthy q then ret q
     else if truthy guessed then ret guessed
     else quality_single_event (if on_dvd then ''dvdr'' else ''dvdrip'')))"

definition getMetaData :: "outside \<Rightarrow> scan_libs \<Rightarrow> disk \<Rightarrow> string list \<Rightarrow> bool \<Rightarrow> string \<Rightarrow> doc \<Rightarrow> (world, doc) py" where
  "getMetaData ou libs dk fs on_dvd folder release_download =
     (let data = files_meta libs dk fs in
      bnd (group_quality ou fs on_dvd data release_download) (\<lambda>q.
      bnd (liftr (num_res (dgetd data ''resolution_width'' (PInt 0)))) (\<lambda>width.
      bnd (liftr (if 1280 \<le> width then Inr True else rbind (vget q ''hd'') (\<lambda>h. Inr (truthy h)))) (\<lambda>hd_type.
      bnd (liftr (nth_res fs 0)) (\<lambda>f0.
      let filename = sub_str cp_imdb [] f0;
          data1 = dupdate (dput data ''quality'' q)
            [(''quality_type'', PStr (if hd_type then ''HD'' else ''SD'')),
             (''group'', PStr (getGroup (drop (length folder) filename))),
             (''source'', case getSourceMedia filename of Some s \<Rightarrow> PStr s | None \<Rightarrow> PNone)] in
      bnd (liftr (vgetd q ''is_3d'' (PInt 0))) (\<lambda>d3.
      ret (if truthy d3 then dput data1 ''3d_type'' (PStr (get3dType filename)) else data1)))))))"

section \<open>Subtitles\<close>

definition idx_languages :: "disk \<Rightarrow> string \<Rightarrow> (string \<times> pv) list" where
  "idx_languages dk extra = (case (if d_isfile dk extra then d_read dk extra else None) of
       None \<Rightarrow> []
     | Some txt \<Rightarrow>
         (let langs = findall1 (seqs [chr (CHR 0x0A), lit ''id: '', Grp 1 (plus_re wordc)]) txt;
              sub_file = splitext_root extra @ ''.sub''
          in if langs \<noteq> [] \<and> d_isfile dk sub_file then [(sub_file, PList (map PStr langs))] else []))"

definition getSubtitleLanguage :: "scan_libs \<Rightarrow> disk \<Rightarrow> string list \<Rightarrow> string list \<Rightarrow> bool \<Rightarrow> doc" where
  "getSubtitleLanguage libs dk paths extras on_dvd =
     (let detected = (if on_dvd then [] else
            (case mapr (subtitles_of libs) paths of
               Inl _ \<Rightarrow> []
             | Inr found \<Rightarrow> dupdate [] (map (\<lambda>(p, l). (p, PList [l]))
                 (filter (\<lambda>(p, l). truthy l \<and> p \<notin> set paths) (concat found)))))
      in dupdate detected (concat (map (idx_languages dk) extras)))"

section \<open>Which media is it?\<close>

type_synonym file_kinds = "(string \<times> string list) list"

definition kind :: "file_kinds \<Rightarrow> string \<Rightarrow> string list" where
  "kind files k = (case map_of files k of None \<Rightarrow> [] | Some fs \<Rightarrow> fs)"

definition imdb_of_tag :: "string list \<Rightarrow> string option" where
  "imdb_of_tag movies = (case first_such (\<lambda>f. getCPImdb f \<noteq> None) movies of Some f \<Rightarrow> getCPImdb f | None \<Rightarrow> None)"

text \<open>The first nfo file that cannot be read as a text ends the search in them.\<close>

fun imdb_of_nfos :: "disk \<Rightarrow> string list \<Rightarrow> string option" where
  "imdb_of_nfos dk [] = None"
| "imdb_of_nfos dk (f # fs) = (case getImdb (\<lambda>p. if d_isfile dk p then d_read dk p else None) f True of
       Inl _ \<Rightarrow> None
     | Inr (Some t) \<Rightarrow> Some t
     | Inr None \<Rightarrow> imdb_of_nfos dk fs)"

definition imdb_in_name :: "string \<Rightarrow> string option" where
  "imdb_in_name f = (case getImdb (\<lambda>_. None) f False of Inr t \<Rightarrow> t | Inl _ \<Rightarrow> None)"

text \<open>The \<open>break\<close> leaves the inner loop only: every kind of file that has files overwrites what the kinds
  before it gave.\<close>

definition imdb_of_names :: "file_kinds \<Rightarrow> string option" where
  "imdb_of_names files = foldl (\<lambda>found (k, fs).
     if fs = [] then found
     else (case first_such (\<lambda>f. imdb_in_name f \<noteq> None) fs of Some f \<Rightarrow> imdb_in_name f | None \<Rightarrow> None)) None files"

definition pv_of_option :: "string option \<Rightarrow> pv" where
  "pv_of_option x = (case x of None \<Rightarrow> PNone | Some t \<Rightarrow> PStr t)"

definition query_of :: "pv \<Rightarrow> string option" where
  "query_of name_year = (case name_year of
       PDict d \<Rightarrow> if truthy (dget d ''name'') \<and> truthy (dget d ''year'')
                  then Some (fmt (dget d ''name'') @ '' '' @ fmt (dget d ''year'')) else None
     | _ \<Rightarrow> None)"

definition movie_search :: "string \<Rightarrow> (world, pv list) py" where
  "movie_search q = bnd (fire ''movie.search'' [PStr q, PInt 1]) (\<lambda>r. liftr (as_list r))"

fun imdb_of_search :: "outside \<Rightarrow> string \<Rightarrow> string list \<Rightarrow> (world, pv) py" where
  "imdb_of_search ou filename [] = ret PNone"
| "imdb_of_search ou filename (i # is) =
     (let name_year = getReleaseNameYear (guessit ou) i filename in
      if length i \<le> 2 then imdb_of_search ou filename is
      else (case query_of (PDict name_year) of
          None \<Rightarrow> imdb_of_search ou filename is
        | Some q \<Rightarrow>
            bnd (movie_search q) (\<lambda>movie1.
            bnd (if movie1 \<noteq> [] then ret movie1
                 else case query_of (dget name_year ''other'') of
                        Some q2 \<Rightarrow> if q2 \<noteq> q then movie_search q2 else ret movie1
                      | None \<Rightarrow> ret movie1) (\<lambda>movie.
            if movie = [] then imdb_of_search ou filename is
            else bnd (liftr (vget (hd movie) ''imdb'')) (\<lambda>imdb_id.
                 if truthy imdb_id then ret imdb_id else imdb_of_search ou filename is)))))"

definition media_or_info :: "pv \<Rightarrow> (world, pv) py" where
  "media_or_info imdb_id =
     catch (bnd (on_db (db_get_by ''media'' (PStr (''imdb-'' @ fmt imdb_id)))) (\<lambda>h. ret (PDict (hit_doc h))))
       (\<lambda>_. bnd (fire ''movie.info'' [imdb_id, PBool False]) (\<lambda>info.
            ret (PDict [(''identifier'', imdb_id), (''info'', info)])))"

definition determineMedia ::
  "outside \<Rightarrow> disk \<Rightarrow> string list \<Rightarrow> bool \<Rightarrow> file_kinds \<Rightarrow> doc \<Rightarrow> (world, pv) py" where
  "determineMedia ou dk idents on_dvd files release_download =
     (let by_files = (case imdb_of_tag (kind files ''movie'') of
            Some t \<Rightarrow> Some t
          | None \<Rightarrow> (case imdb_of_nfos dk (kind files ''nfo'') of Some t \<Rightarrow> Some t | None \<Rightarrow> imdb_of_names files));
          filename = (if on_dvd then [] else case kind files ''movie'' of [] \<Rightarrow> [] | f # _ \<Rightarrow> f) in
      bnd (if truthy (dget release_download ''imdb_id'') then ret (dget release_download ''imdb_id'')
           else if by_files \<noteq> None then ret (pv_of_option by_files)
           else imdb_of_search ou filename idents) (\<lambda>imdb_id.
      if truthy imdb_id then media_or_info imdb_id else ret (PDict [])))"

section \<open>The scan\<close>

definition file_kinds_of :: "disk \<Rightarrow> mgroup \<Rightarrow> file_kinds" where
  "file_kinds_of dk g =
     (let fs = unsorted g in
      [(''movie_extra'', getMovieExtras dk fs), (''subtitle'', getSubtitles dk fs),
       (''subtitle_extra'', getSubtitlesExtras dk fs), (''nfo'', getNfo dk fs), (''trailer'', getTrailers dk fs),
       (''leftover'', as_set dk fs),
       (''movie'', if is_dvd g then getDVDFiles dk fs else getMediaFiles dk fs)])"

text \<open>Files of a known kind are no leftovers.\<close>

definition sort_leftovers :: "disk \<Rightarrow> file_kinds \<Rightarrow> file_kinds" where
  "sort_leftovers dk files =
     (let known = concat (map snd (filter (\<lambda>(k, _). k \<noteq> ''leftover'') files))
      in map (\<lambda>(k, fs). (k, if k = ''leftover'' then filter (\<lambda>f. f \<notin> set known) fs else fs)) files)"

definition proper_dirname :: "string \<Rightarrow> string \<Rightarrow> pv" where
  "proper_dirname parentdir folder =
     (case first_such (\<lambda>n. lower n \<notin> set ignore_names \<and> 2 < length n)
             (rev (split_on path_sep (replace_path folder parentdir))) of
        Some n \<Rightarrow> PStr n | None \<Rightarrow> PNone)"

definition files_pv :: "file_kinds \<Rightarrow> pv" where
  "files_pv files = PDict (map (\<lambda>(k, fs). (k, PList (map PStr fs))) files)"

definition group_identifier :: "pv \<Rightarrow> doc \<Rightarrow> doc res" where
  "group_identifier media gr =
     (if \<not> truthy media then Inr gr
      else rbind (as_dict media) (\<lambda>m. rbind (getIdentifier m) (\<lambda>i.
           if truthy i then Inr (dput gr ''identifier'' i)
           else rbind (dsub m ''info'') (\<lambda>info. rbind (vget info ''imdb'') (\<lambda>j. Inr (dput gr ''identifier'' j))))))"

definition complete_group ::
  "outside \<Rightarrow> scan_libs \<Rightarrow> disk \<Rightarrow> string \<Rightarrow> doc \<Rightarrow> bool \<Rightarrow> mgroup \<Rightarrow> file_kinds \<Rightarrow> (world, doc) py" where
  "complete_group ou libs dk folder release_download simple g files =
     (let movies = kind files ''movie'' in
      bnd (getMetaData ou libs dk movies (is_dvd g) folder release_download) (\<lambda>meta.
      let langs = (if simple then [] else getSubtitleLanguage libs dk movies (kind files ''subtitle_extra'') (is_dvd g));
          parentdir = dirname (hd movies);
          sorted_files = sort_leftovers dk files in
      bnd (determineMedia ou dk (identifiers g) (is_dvd g) sorted_files release_download) (\<lambda>media.
      let gr = [(''identifiers'', PList (map PStr (identifiers g))), (''is_dvd'', PBool (is_dvd g)),
                (''files'', files_pv sorted_files), (''meta_data'', PDict meta), (''subtitle_language'', PDict langs),
                (''parentdir'', PStr parentdir), (''dirname'', proper_dirname parentdir folder), (''media'', media)] in
      liftr (group_identifier media gr))))"

text \<open>The callback may change the caller's own state: the view says where the world is in it.\<close>

type_synonym 's found_callback = "doc \<Rightarrow> nat \<Rightarrow> nat \<Rightarrow> ('s, unit) py"

fun complete_groups ::
  "'s world_view \<Rightarrow> outside \<Rightarrow> scan_libs \<Rightarrow> disk \<Rightarrow> string \<Rightarrow> doc \<Rightarrow> bool \<Rightarrow> bool \<Rightarrow> string list \<Rightarrow> 's found_callback \<Rightarrow>
   nat \<Rightarrow> (string \<times> mgroup) list \<Rightarrow> (string \<times> doc) list \<Rightarrow> ('s, (string \<times> doc) list) py" where
  "complete_groups v ou libs dk folder rd simple return_ignored ignored on_found n [] done = bnd (via v stopping) (\<lambda>_. ret done)"
| "complete_groups v ou libs dk folder rd simple return_ignored ignored on_found n ((i, g) # gs) done =
     bnd (via v stopping) (\<lambda>stop.
     if stop then ret done
     else if \<not> return_ignored \<and> i \<in> set ignored
     then complete_groups v ou libs dk folder rd simple return_ignored ignored on_found (n - 1) gs done
     else let files = file_kinds_of dk g in
       if kind files ''movie'' = []
       then complete_groups v ou libs dk folder rd simple return_ignored ignored on_found (n - 1) gs done
       else bnd (via v (complete_group ou libs dk folder rd simple g files)) (\<lambda>gr.
            bnd (on_found gr n (length gs)) (\<lambda>_.
            complete_groups v ou libs dk folder rd simple return_ignored ignored on_found n gs (done @ [(i, gr)]))))"

record scan_args =
  sa_folder :: string
  sa_files :: "string list"
  sa_download :: doc
  sa_simple :: bool
  sa_newer_than :: rat
  sa_return_ignored :: bool
  sa_check_date :: bool

definition walk_files :: "disk \<Rightarrow> string \<Rightarrow> (world, string list) py" where
  "walk_files dk folder = for_acc (d_walk dk folder) [] (\<lambda>(root, fs) files.
     next_round (files @ map (\<lambda>f. sp (join_path (sp root) f)) fs))"

text \<open>\<open>sa_files = []\<close>: no files are given, all files of the folder are scanned. A release that came with
  the scan is forgotten when more than one group is found. \<open>popitem\<close> takes the groups from the end.
  The pause while more than 100 threads are active is left out.\<close>

definition scan ::
  "'s world_view \<Rightarrow> outside \<Rightarrow> scan_libs \<Rightarrow> disk \<Rightarrow> 's found_callback \<Rightarrow> scan_args \<Rightarrow> ('s, (string \<times> doc) list) py" where
  "scan v ou libs dk on_found sa =
     (let folder = sp (sa_folder sa) in
      if folder = [] \<or> \<not> d_isdir dk folder then ret []
      else
        let check_date = (sa_files sa = [] \<and> sa_check_date sa) in
        bnd (if sa_files sa = [] then via v (walk_files dk folder) else ret (map sp (sa_files sa))) (\<lambda>files.
        bnd (via v (group_files_by_name ou dk folder files)) (\<lambda>(gs, ignored).
        bnd (via v (valid_groups dk check_date (sa_newer_than sa) (rev gs) [])) (\<lambda>valid.
        let rd = (if 1 < length valid then [] else sa_download sa) in
        complete_groups v ou libs dk folder rd (sa_simple sa) (sa_return_ignored sa) ignored on_found
          (length valid) (rev valid) []))))"

section \<open>Every file in one group\<close>

definition all_of :: "(string \<times> mgroup) list \<Rightarrow> string list" where
  "all_of gs = concat (map (unsorted \<circ> snd) gs)"

definition total_files :: "scan_state \<Rightarrow> string multiset" where
  "total_files st = mset (all_of (movie_files st)) + mset (leftovers st)"

definition keys_ok :: "scan_state \<Rightarrow> bool" where
  "keys_ok st = distinct (map fst (movie_files st))"

lemma keys_add_files [simp]: "map fst (add_files i fs gs) = map fst gs"
  by (simp add: add_files_def split_def)

lemma all_of_Nil [simp]: "all_of [] = []"
  by (simp add: all_of_def)

lemma all_of_Cons [simp]: "all_of ((i, g) # gs) = unsorted g @ all_of gs"
  by (simp add: all_of_def)

lemma add_files_absent: "i \<notin> set (map fst gs) \<Longrightarrow> all_of (add_files i fs gs) = all_of gs"
  by (induction gs) (auto simp: add_files_def)

lemma add_files_all:
  "distinct (map fst gs) \<Longrightarrow> mset (all_of (add_files i fs gs)) =
     mset (all_of gs) + (if i \<in> set (map fst gs) then mset fs else {#})"
proof (induction gs)
  case Nil
  then show ?case by (simp add: add_files_def)
next
  case (Cons jg gs)
  obtain j g where jg: "jg = (j, g)" by (cases jg)
  have step: "add_files i fs (jg # gs) = (j, if j = i then g\<lparr>unsorted := unsorted g @ fs\<rparr> else g) # add_files i fs gs"
    by (simp add: add_files_def jg)
  show ?case
  proof (cases "j = i")
    case True
    with Cons.prems jg have "i \<notin> set (map fst gs)" by auto
    with step True jg show ?thesis by (simp add: add_files_absent)
  next
    case False
    with step Cons jg show ?thesis by (auto simp: ac_simps)
  qed
qed

lemma group_at_iff: "group_at gs i \<noteq> None \<longleftrightarrow> i \<in> set (map fst gs)"
  by (simp add: group_at_def map_of_eq_None_iff)

lemma add_files_le:
  "distinct (map fst gs) \<Longrightarrow> mset (all_of (add_files i fs gs)) \<subseteq># mset (all_of gs) + mset fs"
  "distinct (map fst gs) \<Longrightarrow> mset (all_of gs) \<subseteq># mset (all_of (add_files i fs gs))"
  by (simp_all add: add_files_all)

text \<open>A round of a loop: what it returns, however it ends.\<close>

lemma next_round_run: "next_round a w = (Inr c, w') \<Longrightarrow>
   (c = Go a \<or> c = Brk a) \<and> ans w' = ans w \<and> ((\<forall>h. \<not> truthy (ans w h ''shuttingDown'' [])) \<longrightarrow> c = Go a)"
  by (auto simp: next_round_def stopping_def py_simps split: if_splits)

fun ctl_val :: "'a ctl \<Rightarrow> 'a" where
  "ctl_val (Go a) = a" | "ctl_val (Brk a) = a"

definition running :: "world \<Rightarrow> bool" where
  "running w \<longleftrightarrow> (\<forall>h. \<not> truthy (ans w h ''shuttingDown'' []))"

lemma ro_all_qualities: "keeps (=) all_qualities"
  by (simp add: all_qualities_def keeps_def)

lemma ro_quality_guess: "keeps (=) (quality_guess_event ou nm sz)"
  unfolding quality_guess_event_def guess_def by (auto intro!: ro.keeps_intros ro_all_qualities)

lemma ro_quality_guess_file: "keeps (=) (quality_guess_file ou dk f)"
  unfolding quality_guess_file_def by (intro ro.keeps_intros ro_quality_guess)

lemma quality_guess_file_ok: "\<exists>v. quality_guess_file ou dk f w = (Inr v, w)"
proof -
  obtain g v where g: "quality_guess_event ou (PStr f) (case d_size dk f of None \<Rightarrow> PNone | Some n \<Rightarrow> PFloat n) w = (Inr g, v)"
    using catch_ret_ok [of "bnd (liftr (attr_str (PStr f))) (\<lambda>n. guess (guess_name_of ou) (qcache ou n) [n] []
        (case d_size dk f of None \<Rightarrow> PNone | Some x \<Rightarrow> PFloat x) True)" None w]
    by (auto simp: quality_guess_event_def)
  moreover from keeps_eqD [OF ro_quality_guess g] have "v = w" .
  ultimately show ?thesis by (simp add: quality_guess_file_def bnd_run ret_run)
qed

definition main_file :: "disk \<Rightarrow> string \<Rightarrow> bool" where
  "main_file dk f = (d_exists dk f \<and> \<not> isSampleFile f \<and> keepFile f \<and> (filesizeBetween dk f 200 100000 \<or> isDVDFile f))"

lemma collect_file_step:
  assumes "collect_file ou dk folder f st w = (Inr c, w')" "keys_ok st"
  shows "keys_ok (ctl_val c) \<and> total_files (ctl_val c) \<subseteq># total_files st + {#f#} \<and>
    mset (all_of (movie_files st)) \<subseteq># mset (all_of (movie_files (ctl_val c))) \<and> ans w' = ans w \<and>
    (main_file dk f \<longrightarrow> f \<in> set (all_of (movie_files (ctl_val c)))) \<and> (running w \<longrightarrow> c = Go (ctl_val c))"
proof -
  consider (skip) "c = Go st" "w' = w" "\<not> main_file dk f"
    | (sample) "c = Go (st\<lparr>leftovers := leftovers st @ [f]\<rparr>)" "w' = w" "\<not> main_file dk f"
    | (left) "next_round (st\<lparr>leftovers := leftovers st @ [f]\<rparr>) w = (Inr c, w')" "\<not> main_file dk f"
    | (main) q where "main_file dk f" "let i = createStringIdentifier f folder (isDVDFile f);
        gs = (if group_at (movie_files st) i = None
              then movie_files st @ [(i, \<lparr>unsorted = [], identifiers = q, is_dvd = isDVDFile f\<rparr>)] else movie_files st)
        in next_round (st\<lparr>movie_files := add_files i [f] gs\<rparr>) w = (Inr c, w')"
  proof (cases "d_exists dk f \<and> \<not> isSampleFile f \<and> keepFile f \<and> (filesizeBetween dk f 200 100000 \<or> isDVDFile f)")
    case False
    with assms(1) that(1,2,3) show ?thesis
      by (auto simp: collect_file_def main_file_def py_simps Let_def split: if_splits)
  next
    case True
    then have m: "main_file dk f" by (simp add: main_file_def)
    obtain qv where q: "(if isDVDFile f then ret (PDict [(''identifier'', PStr ''dvdr'')]) else quality_guess_file ou dk f) w
        = (Inr qv, w)" using quality_guess_file_ok [of ou dk f w]
      by (cases "isDVDFile f") (auto simp: ret_run)
    from True have "d_exists dk f" "\<not> isSampleFile f" "keepFile f" "filesizeBetween dk f 200 100000 \<or> isDVDFile f"
      by simp_all
    then have "collect_file ou dk folder f st w =
      (let i = createStringIdentifier f folder (isDVDFile f);
           ids = (if truthy qv then [i @ '' '' @ quality_suffix qv, i] else [i]);
           gs = (if group_at (movie_files st) i = None
                 then movie_files st @ [(i, \<lparr>unsorted = [], identifiers = ids, is_dvd = isDVDFile f\<rparr>)] else movie_files st)
       in next_round (st\<lparr>movie_files := add_files i [f] gs\<rparr>) w)"
      by (simp only: collect_file_def Let_def bnd_run q if_True if_False prod.case sum.case not_True_eq_False)
    with assms(1) that(4) [OF m] show ?thesis by (simp only: Let_def)
  qed
  then show ?thesis
  proof cases
    case main
    let ?i = "createStringIdentifier f folder (isDVDFile f)"
    define gs where "gs = (if group_at (movie_files st) ?i = None
        then movie_files st @ [(?i, \<lparr>unsorted = [], identifiers = q, is_dvd = isDVDFile f\<rparr>)] else movie_files st)"
    have d: "distinct (map fst gs)" "?i \<in> set (map fst gs)" "all_of gs = all_of (movie_files st)"
      using assms(2) group_at_iff [of "movie_files st" ?i] by (auto simp: gs_def keys_ok_def all_of_def)
    let ?st = "st\<lparr>movie_files := add_files ?i [f] gs\<rparr>"
    from main(2) have "next_round ?st w = (Inr c, w')" by (simp add: Let_def gs_def)
    from next_round_run [OF this] have c: "ctl_val c = ?st" "ans w' = ans w" "running w \<longrightarrow> c = Go ?st"
      by (auto simp: running_def)
    have m: "mset (all_of (add_files ?i [f] gs)) = mset (all_of (movie_files st)) + {#f#}"
      using add_files_all [OF d(1), of ?i "[f]"] d by simp
    then have "set_mset (mset (all_of (add_files ?i [f] gs))) = set_mset (mset (all_of (movie_files st)) + {#f#})"
      by (simp only:)
    then have "f \<in> set (all_of (add_files ?i [f] gs))" by simp
    with c m d(1) show ?thesis by (auto simp: keys_ok_def total_files_def)
  next
    case left
    from next_round_run [OF left(1)] assms(2) left(2) show ?thesis
      by (auto simp: keys_ok_def total_files_def running_def)
  qed (use assms(2) in \<open>auto simp: keys_ok_def total_files_def\<close>)
qed

lemma collect_loop:
  assumes "for_acc fs st (collect_file ou dk folder) w = (Inr st', w')" "keys_ok st"
  shows "keys_ok st' \<and> total_files st' \<subseteq># total_files st + mset fs \<and> ans w' = ans w \<and>
    mset (all_of (movie_files st)) \<subseteq># mset (all_of (movie_files st')) \<and>
    (running w \<longrightarrow> (\<forall>f \<in> set fs. main_file dk f \<longrightarrow> f \<in> set (all_of (movie_files st'))))"
  using assms
proof (induction fs arbitrary: st w)
  case Nil
  then show ?case by (simp add: ret_run)
next
  case (Cons f fs)
  from Cons.prems(1) obtain c v where c: "collect_file ou dk folder f st w = (Inr c, v)"
    "(case c of Go a \<Rightarrow> for_acc fs a (collect_file ou dk folder) | Brk a \<Rightarrow> ret a) v = (Inr st', w')"
    by (auto simp: bnd_run split: prod.splits sum.splits)
  note step = collect_file_step [OF c(1) Cons.prems(2)]
  show ?case
  proof (cases c)
    case (Go a)
    from c(2) Go have run: "for_acc fs a (collect_file ou dk folder) v = (Inr st', w')" by simp
    from Go step have "keys_ok a" by simp
    note ih = Cons.IH [OF run this]
    have t: "total_files st' \<subseteq># total_files st + {#f#} + mset fs"
      using ih step Go by (auto intro: subset_mset.order_trans [of _ "total_files a + mset fs"])
    have m: "mset (all_of (movie_files st)) \<subseteq># mset (all_of (movie_files st'))"
      using ih step Go by (auto intro: subset_mset.order_trans)
    have "set (all_of (movie_files a)) \<subseteq> set (all_of (movie_files st'))"
      using ih set_mset_mono by fastforce
    with ih step Go t m show ?thesis by (auto simp: running_def)
  next
    case (Brk a)
    with c(2) have "st' = a" "w' = v" by (simp_all add: ret_run)
    with step Brk show ?thesis by (auto intro: subset_mset.order_trans)
  qed
qed

text \<open>A duplicate-free list is contained in every list with its elements.\<close>

lemma distinct_mset_le: "distinct xs \<Longrightarrow> set xs \<subseteq> set ys \<Longrightarrow> mset xs \<subseteq># mset ys"
  by (auto simp: subseteq_mset_def distinct_count_atmost_1 Suc_le_eq)

lemma order_le: "order_ok dk \<Longrightarrow> mset (set_order dk xs) \<subseteq># mset xs"
  by (rule distinct_mset_le) (simp_all add: order_ok_def)

lemma join_by_name_le:
  assumes "order_ok dk"
  shows "mset (fst (join_by_name dk fs left)) + mset (snd (join_by_name dk fs left)) \<subseteq># mset left"
proof -
  let ?step = "\<lambda>(got, left) f. (got @ set_order dk (filter (contains (without_ext f)) left),
      filter (\<lambda>x. x \<notin> set (filter (contains (without_ext f)) left)) left)"
  have one: "mset (fst (?step gl f)) + mset (snd (?step gl f)) \<subseteq># mset (fst gl) + mset (snd gl)" for gl f
  proof (cases gl)
    case (Pair got left)
    let ?h = "filter (contains (without_ext f)) left"
    have "mset (set_order dk ?h) \<subseteq># mset ?h" by (rule order_le [OF assms])
    moreover have "filter (\<lambda>x. x \<notin> set ?h) left = filter (\<lambda>x. \<not> contains (without_ext f) x) left"
      by (rule filter_cong) auto
    ultimately show ?thesis using multiset_partition [of "mset left" "contains (without_ext f)"]
      by (simp add: Pair mset_filter [symmetric] del: mset_filter)
  qed
  have "mset (fst (foldl ?step gl fs)) + mset (snd (foldl ?step gl fs)) \<subseteq># mset (fst gl) + mset (snd gl)" for gl
  proof (induction fs arbitrary: gl)
    case (Cons f fs)
    from Cons [of "?step gl f"] one [of gl f] show ?case
      by (simp only: foldl_Cons)
  qed simp
  from this [of "([], left)"] show ?thesis by (simp add: join_by_name_def Let_def)
qed

lemma for_acc_Cons_run:
  assumes "for_acc (x # xs) a f w = (Inr r, w')"
  shows "\<exists>c v. f x a w = (Inr c, v) \<and>
    (case c of Go b \<Rightarrow> for_acc xs b f v = (Inr r, w') | Brk b \<Rightarrow> r = b \<and> w' = v)"
  using assms by (auto simp: bnd_run ret_run split: prod.splits sum.splits ctl.splits)

lemma name_loop:
  assumes "for_acc igs sti (name_round dk) w = (Inr sti', w')" "keys_ok (fst sti)" "order_ok dk"
  shows "keys_ok (fst sti') \<and> total_files (fst sti') \<subseteq># total_files (fst sti) \<and>
    mset (all_of (movie_files (fst sti))) \<subseteq># mset (all_of (movie_files (fst sti')))"
  using assms(1,2)
proof (induction igs arbitrary: sti w)
  case Nil
  then show ?case by (simp add: ret_run)
next
  case (Cons ig igs)
  let ?st = "fst sti" and ?i = "fst ig"
  obtain got left where j: "join_by_name dk (unsorted (snd ig)) (leftovers ?st) = (got, left)"
    by (cases "join_by_name dk (unsorted (snd ig)) (leftovers ?st)")
  let ?new = "?st\<lparr>movie_files := add_files ?i got (movie_files ?st), leftovers := left\<rparr>"
  from for_acc_Cons_run [OF Cons.prems(1)] obtain c v where c: "name_round dk ig sti w = (Inr c, v)"
    "case c of Go b \<Rightarrow> for_acc igs b (name_round dk) v = (Inr sti', w') | Brk b \<Rightarrow> sti' = b \<and> w' = v" by blast
  from c(1) have "fst (ctl_val c) = ?new"
    by (auto simp: name_round_def Let_def j dest!: next_round_run)
  moreover have "keys_ok ?new" using Cons.prems(2) by (simp add: keys_ok_def)
  moreover have "total_files ?new \<subseteq># total_files ?st"
  proof -
    have "mset got + mset left \<subseteq># mset (leftovers ?st)"
      using join_by_name_le [OF assms(3), of "unsorted (snd ig)" "leftovers ?st"] by (simp add: j)
    moreover have "mset (all_of (add_files ?i got (movie_files ?st))) \<subseteq># mset (all_of (movie_files ?st)) + mset got"
      by (rule add_files_le(1)) (use Cons.prems(2) in \<open>simp add: keys_ok_def\<close>)
    ultimately have "mset (all_of (add_files ?i got (movie_files ?st))) + mset left
        \<subseteq># mset (all_of (movie_files ?st)) + mset got + mset left"
      "mset (all_of (movie_files ?st)) + (mset got + mset left) \<subseteq># mset (all_of (movie_files ?st)) + mset (leftovers ?st)"
      by (simp_all only: mset_subset_eq_mono_add_right_cancel mset_subset_eq_mono_add_left_cancel)
    from subset_mset.order_trans [OF this(1)] this(2) show ?thesis by (simp add: total_files_def add.assoc)
  qed
  moreover have "mset (all_of (movie_files ?st)) \<subseteq># mset (all_of (movie_files ?new))"
    using add_files_le(2) Cons.prems(2) by (simp add: keys_ok_def)
  ultimately have n: "keys_ok (fst (ctl_val c))" "total_files (fst (ctl_val c)) \<subseteq># total_files ?st"
    "mset (all_of (movie_files ?st)) \<subseteq># mset (all_of (movie_files (fst (ctl_val c))))" by simp_all
  show ?case
  proof (cases c)
    case (Go b)
    with c(2) have "for_acc igs b (name_round dk) v = (Inr sti', w')" by simp
    from Cons.IH [OF this] n Go show ?thesis by (auto intro: subset_mset.order_trans)
  next
    case (Brk b)
    with c(2) n show ?thesis by simp
  qed
qed

lemma update_appends:
  "distinct (map fst xs) \<Longrightarrow>
   mset (concat (map snd (AList.update i ((case map_of xs i of None \<Rightarrow> [] | Some fs \<Rightarrow> fs) @ [f]) xs))) =
     mset (concat (map snd xs)) + {#f#}"
  by (induction xs) auto

lemma path_identifiers_le:
  assumes "order_ok dk"
  shows "distinct (map fst (path_identifiers dk folder left)) \<and>
    mset (concat (map snd (path_identifiers dk folder left))) \<subseteq># mset left"
proof -
  let ?step = "\<lambda>pis f. AList.update (createStringIdentifier f folder False)
      ((case map_of pis (createStringIdentifier f folder False) of None \<Rightarrow> [] | Some fs \<Rightarrow> fs) @ [f]) pis"
  have "distinct (map fst pis) \<Longrightarrow> distinct (map fst (foldl ?step pis fs)) \<and>
      mset (concat (map snd (foldl ?step pis fs))) = mset (concat (map snd pis)) + mset fs" for pis fs
  proof (induction fs arbitrary: pis)
    case (Cons f fs)
    have "distinct (map fst (?step pis f))" using Cons.prems by (rule distinct_update)
    from Cons.IH [OF this] update_appends [OF Cons.prems] show ?case by simp
  qed simp
  from this [of "[]" "set_order dk left"] order_le [OF assms, of left] show ?thesis
    by (simp add: path_identifiers_def Let_def)
qed

text \<open>The files whose identifiers are not taken yet.\<close>

definition free_files :: "string list \<Rightarrow> (string \<times> string list) list \<Rightarrow> string multiset" where
  "free_files taken pis = mset (concat (map snd (filter (\<lambda>(i, _). i \<notin> set taken) pis)))"

lemma free_files_Nil [simp]: "free_files taken [] = {#}"
  by (simp add: free_files_def)

lemma free_files_Cons:
  "free_files taken ((i, fs) # pis) = (if i \<in> set taken then {#} else mset fs) + free_files taken pis"
  by (simp add: free_files_def)

lemma free_files_other: "i \<notin> set (map fst pis) \<Longrightarrow> free_files (taken @ [i]) pis = free_files taken pis"
  unfolding free_files_def by (rule arg_cong [of _ _ "\<lambda>xs. mset (concat (map snd xs))"], rule filter_cong)
    (auto simp: image_iff split: prod.splits)

lemma ident_loop:
  assumes "for_acc pis sti ident_round w = (Inr sti', w')" "keys_ok (fst sti)" "distinct (map fst pis)"
    and "set (map fst pis) \<inter> set (snd sti) = {}"
  shows "keys_ok (fst sti') \<and> (\<exists>more. snd sti' = snd sti @ more \<and> set more \<subseteq> set (map fst pis)) \<and>
    mset (all_of (movie_files (fst sti'))) + free_files (snd sti') pis
      \<subseteq># mset (all_of (movie_files (fst sti))) + free_files (snd sti) pis \<and>
    mset (all_of (movie_files (fst sti))) \<subseteq># mset (all_of (movie_files (fst sti')))"
  using assms
proof (induction pis arbitrary: sti w)
  case Nil
  then show ?case by (simp add: ret_run)
next
  case (Cons p pis)
  obtain i fs where p: "p = (i, fs)" by (cases p)
  let ?st = "fst sti"
  define new where "new = (if group_at (movie_files ?st) i = None then sti
      else (?st\<lparr>movie_files := add_files i fs (movie_files ?st),
               leftovers := filter (\<lambda>x. x \<notin> set fs) (leftovers ?st)\<rparr>, snd sti @ [i]))"
  from for_acc_Cons_run [OF Cons.prems(1)] obtain c v where c: "ident_round p sti w = (Inr c, v)"
    "case c of Go b \<Rightarrow> for_acc pis b ident_round v = (Inr sti', w') | Brk b \<Rightarrow> sti' = b \<and> w' = v" by blast
  from c(1) have cv: "ctl_val c = new"
    by (auto simp: ident_round_def Let_def p new_def dest!: next_round_run)
  have i: "i \<notin> set (map fst pis)" "i \<notin> set (snd sti)" using Cons.prems(3,4) p by auto
  have k: "keys_ok (fst new)" using Cons.prems(2) by (auto simp: new_def keys_ok_def)
  have same: "free_files (snd new) pis = free_files (snd sti) pis"
    using i(1) by (simp add: new_def free_files_other)
  have le: "mset (all_of (movie_files (fst new))) + free_files (snd new) (p # pis)
      \<subseteq># mset (all_of (movie_files ?st)) + free_files (snd sti) (p # pis)"
    using i Cons.prems(2) add_files_all [of "movie_files ?st" i fs] same
    by (auto simp: new_def p free_files_Cons keys_ok_def)
  have up: "mset (all_of (movie_files ?st)) \<subseteq># mset (all_of (movie_files (fst new)))"
    using add_files_le(2) [of "movie_files ?st"] Cons.prems(2) by (auto simp: new_def keys_ok_def)
  have ext: "\<exists>more. snd new = snd sti @ more \<and> set more \<subseteq> {i}" by (auto simp: new_def)
  show ?case
  proof (cases c)
    case (Brk b)
    with c(2) cv have "sti' = new" by simp
    with k le up ext show ?thesis by (auto simp: p)
  next
    case (Go b)
    with c(2) cv have run: "for_acc pis new ident_round v = (Inr sti', w')" by simp
    have "set (map fst pis) \<inter> set (snd new) = {}"
    proof -
      from ext have "set (snd new) \<subseteq> set (snd sti) \<union> {i}" by auto
      moreover from Cons.prems(4) have "set (map fst pis) \<inter> set (snd sti) = {}" by auto
      ultimately show ?thesis using i(1) by blast
    qed
    with Cons.IH [OF run k] Cons.prems(3)
    obtain more where ih: "keys_ok (fst sti')" "snd sti' = snd new @ more" "set more \<subseteq> set (map fst pis)"
      "mset (all_of (movie_files (fst sti'))) + free_files (snd sti') pis
        \<subseteq># mset (all_of (movie_files (fst new))) + free_files (snd new) pis"
      "mset (all_of (movie_files (fst new))) \<subseteq># mset (all_of (movie_files (fst sti')))" by auto
    have "i \<in> set (snd sti') \<longleftrightarrow> i \<in> set (snd new)" using ih(2,3) i(1) by auto
    then have "mset (all_of (movie_files (fst sti'))) + free_files (snd sti') (p # pis)
        \<subseteq># mset (all_of (movie_files (fst new))) + free_files (snd new) (p # pis)"
      using ih(4) by (simp add: p free_files_Cons)
    with le have "mset (all_of (movie_files (fst sti'))) + free_files (snd sti') (p # pis)
        \<subseteq># mset (all_of (movie_files ?st)) + free_files (snd sti) (p # pis)"
      by (rule subset_mset.order_trans [rotated])
    moreover have "\<exists>m. snd sti' = snd sti @ m \<and> set m \<subseteq> set (map fst (p # pis))" using ih(2,3) ext p by auto
    ultimately show ?thesis using ih(1,5) up by (auto intro: subset_mset.order_trans)
  qed
qed

lemma folder_step_le:
  assumes "keys_ok st"
  shows "keys_ok (folder_step folder ff st) \<and>
    mset (all_of (movie_files (folder_step folder ff st))) \<subseteq># mset (all_of (movie_files st)) + {#ff#} \<and>
    mset (all_of (movie_files st)) \<subseteq># mset (all_of (movie_files (folder_step folder ff st)))"
  using assms add_files_le [of "movie_files st" "createStringIdentifier (dirname ff) folder False" "[ff]"]
  by (auto simp: folder_step_def Let_def keys_ok_def)

lemma folder_steps_le:
  "keys_ok st \<Longrightarrow> keys_ok (foldl (\<lambda>st ff. folder_step folder ff st) st fs) \<and>
    mset (all_of (movie_files (foldl (\<lambda>st ff. folder_step folder ff st) st fs)))
      \<subseteq># mset (all_of (movie_files st)) + mset fs \<and>
    mset (all_of (movie_files st)) \<subseteq># mset (all_of (movie_files (foldl (\<lambda>st ff. folder_step folder ff st) st fs)))"
proof (induction fs arbitrary: st)
  case (Cons f fs)
  let ?a = "folder_step folder f st"
  let ?b = "foldl (\<lambda>st ff. folder_step folder ff st) ?a fs"
  note s = folder_step_le [OF Cons.prems, of folder f]
  note ih = Cons.IH [OF conjunct1 [OF s]]
  have "mset (all_of (movie_files ?a)) + mset fs \<subseteq># mset (all_of (movie_files st)) + {#f#} + mset fs"
    using s by (simp del: add_mset_add_single)
  with ih have "mset (all_of (movie_files ?b)) \<subseteq># mset (all_of (movie_files st)) + {#f#} + mset fs"
    by (blast intro: subset_mset.order_trans)
  moreover have "mset (all_of (movie_files st)) \<subseteq># mset (all_of (movie_files ?b))"
    using ih s by (blast intro: subset_mset.order_trans)
  ultimately show ?case using ih by simp
qed simp

lemma folder_loop:
  assumes "for_acc pis st (folder_round folder) w = (Inr st', w')" "keys_ok st"
  shows "keys_ok st' \<and> mset (all_of (movie_files st')) \<subseteq># mset (all_of (movie_files st)) + mset (concat (map snd pis)) \<and>
    mset (all_of (movie_files st)) \<subseteq># mset (all_of (movie_files st'))"
  using assms
proof (induction pis arbitrary: st w)
  case Nil
  then show ?case by (simp add: ret_run)
next
  case (Cons p pis)
  let ?new = "foldl (\<lambda>st ff. folder_step folder ff st) st (snd p)"
  from for_acc_Cons_run [OF Cons.prems(1)] obtain c v where c: "folder_round folder p st w = (Inr c, v)"
    "case c of Go b \<Rightarrow> for_acc pis b (folder_round folder) v = (Inr st', w') | Brk b \<Rightarrow> st' = b \<and> w' = v" by blast
  from next_round_run [OF c(1) [unfolded folder_round_def]] have cv: "ctl_val c = ?new" by auto
  note new = folder_steps_le [OF Cons.prems(2), of folder "snd p"]
  show ?case
  proof (cases c)
    case (Brk b)
    with c(2) cv new show ?thesis
      by (auto intro: subset_mset.order_trans)
  next
    case (Go b)
    with c(2) cv have run: "for_acc pis ?new (folder_round folder) v = (Inr st', w')" by simp
    note ih = Cons.IH [OF run conjunct1 [OF new]]
    have "mset (all_of (movie_files ?new)) + mset (concat (map snd pis))
        \<subseteq># mset (all_of (movie_files st)) + mset (snd p) + mset (concat (map snd pis))" using new by simp
    with ih have "mset (all_of (movie_files st')) \<subseteq># mset (all_of (movie_files st)) + mset (snd p) + mset (concat (map snd pis))"
      by (blast intro: subset_mset.order_trans)
    with ih new show ?thesis by (auto simp: add.assoc intro: subset_mset.order_trans)
  qed
qed

lemma name_loop_names:
  assumes "for_acc igs sti (name_round dk) w = (Inr sti', w')"
  shows "map fst (movie_files (fst sti')) = map fst (movie_files (fst sti))"
  using assms
proof (induction igs arbitrary: sti w)
  case (Cons ig igs)
  from for_acc_Cons_run [OF Cons.prems] obtain c v where c: "name_round dk ig sti w = (Inr c, v)"
    "case c of Go b \<Rightarrow> for_acc igs b (name_round dk) v = (Inr sti', w') | Brk b \<Rightarrow> sti' = b \<and> w' = v" by blast
  from c(1) have "map fst (movie_files (fst (ctl_val c))) = map fst (movie_files (fst sti))"
    by (auto simp: name_round_def Let_def dest!: next_round_run split: prod.splits)
  with c(2) Cons.IH show ?case by (auto split: ctl.splits)
qed (simp add: ret_run)

text \<open>The grouping raises nothing.\<close>

lemma for_acc_total:
  "(\<And>x a w. \<exists>c v. f x a w = (Inr c, v)) \<Longrightarrow> \<exists>r v. for_acc xs a f w = (Inr r, v)"
proof (induction xs arbitrary: a w)
  case (Cons x xs)
  from Cons.prems [of x a w] obtain c v where "f x a w = (Inr c, v)" by blast
  with Cons.IH [OF Cons.prems] show ?case by (cases c) (auto simp: bnd_run ret_run)
qed (simp add: ret_run)

lemma next_round_total: "\<exists>c v. next_round a w = (Inr c, v)"
  by (cases "fire ''shuttingDown'' [] w") (auto simp: next_round_def stopping_def py_simps)

lemma collect_file_total: "\<exists>c v. collect_file ou dk folder f st w = (Inr c, v)"
proof -
  obtain q where q: "(if isDVDFile f then ret (PDict [(''identifier'', PStr ''dvdr'')]) else quality_guess_file ou dk f) w
      = (Inr q, w)" using quality_guess_file_ok [of ou dk f w] by (cases "isDVDFile f") (auto simp: ret_run)
  show ?thesis by (simp add: collect_file_def Let_def ret_run next_round_total bnd_run q)
qed

lemma name_round_total: "\<exists>c v. name_round dk ig sti w = (Inr c, v)"
  by (simp add: name_round_def Let_def next_round_total split: prod.splits)

lemma ident_round_total: "\<exists>c v. ident_round p sti w = (Inr c, v)"
  by (simp only: ident_round_def Let_def next_round_total)

lemma folder_round_total: "\<exists>c v. folder_round folder p st w = (Inr c, v)"
  by (simp only: folder_round_def next_round_total)

lemma grouping_total: "\<exists>gs ignored w'. group_files_by_name ou dk folder files w = (Inr (gs, ignored), w')"
proof -
  obtain st0 w0 where a: "for_acc files \<lparr>movie_files = [], leftovers = []\<rparr> (collect_file ou dk folder) w = (Inr st0, w0)"
    using for_acc_total [of "collect_file ou dk folder"] collect_file_total by blast
  obtain st2 ig w2 where b: "for_acc (movie_files st0) (st0\<lparr>leftovers := set_order dk (leftovers st0)\<rparr>, []) (name_round dk) w0
      = (Inr (st2, ig), w2)"
    using for_acc_total [of "name_round dk"] name_round_total by (metis surj_pair)
  let ?pis = "path_identifiers dk folder (leftovers st2)"
  obtain st3 taken w3 where c: "for_acc ?pis (st2, []) ident_round w2 = (Inr (st3, taken), w3)"
    using for_acc_total [of ident_round] ident_round_total by (metis surj_pair)
  obtain st4 w4 where "for_acc (filter (\<lambda>(i, _). i \<notin> set taken) ?pis) st3 (folder_round folder) w3 = (Inr st4, w4)"
    using for_acc_total [of "folder_round folder"] folder_round_total by blast
  with a b c show ?thesis by (simp add: group_files_by_name_def Let_def bnd_run ret_run)
qed

text \<open>C28: grouping the files of a folder returns and puts no file into two groups: the files of all groups
  together are files of the list, each at most as often as the list has it, the groups have different
  identifiers; and unless the program is shutting down every main file (a film by its size, or a part
  of a DVD) is in a group.\<close>

theorem grouping_partitions:
  assumes "order_ok dk"
  shows "\<exists>gs ignored w'. group_files_by_name ou dk folder files w = (Inr (gs, ignored), w') \<and>
    distinct (map fst gs) \<and> mset (all_of gs) \<subseteq># mset files \<and>
    (running w \<longrightarrow> (\<forall>f \<in> set files. main_file dk f \<longrightarrow> f \<in> set (all_of gs)))"
proof -
  from grouping_total obtain gs ignored w' where all: "group_files_by_name ou dk folder files w = (Inr (gs, ignored), w')"
    by blast
  from all obtain st0 w0 st2 w2 st3 taken w3 st4 where run:
    "for_acc files \<lparr>movie_files = [], leftovers = []\<rparr> (collect_file ou dk folder) w = (Inr st0, w0)"
    "for_acc (movie_files st0) (st0\<lparr>leftovers := set_order dk (leftovers st0)\<rparr>, []) (name_round dk) w0 = (Inr (st2, ignored), w2)"
    "for_acc (path_identifiers dk folder (leftovers st2)) (st2, []) ident_round w2 = (Inr (st3, taken), w3)"
    "for_acc (filter (\<lambda>(i, _). i \<notin> set taken) (path_identifiers dk folder (leftovers st2))) st3 (folder_round folder) w3
       = (Inr st4, w')"
    "gs = movie_files st4"
    by (auto simp: group_files_by_name_def Let_def bnd_run ret_run split: prod.splits sum.splits)
  let ?pis = "path_identifiers dk folder (leftovers st2)"
  let ?free = "filter (\<lambda>(i, _). i \<notin> set taken) ?pis"
  have "keys_ok \<lparr>movie_files = [], leftovers = []\<rparr>" by (simp add: keys_ok_def)
  note a = collect_loop [OF run(1) this]
  let ?st1 = "st0\<lparr>leftovers := set_order dk (leftovers st0)\<rparr>"
  have k1: "keys_ok (fst (?st1, [] :: string list))" using a by (simp add: keys_ok_def)
  note b = name_loop [OF run(2) k1 assms]
  note p = path_identifiers_le [OF assms, of folder "leftovers st2"]
  have k2: "keys_ok (fst (st2, [] :: string list))" using b by simp
  have "set (map fst ?pis) \<inter> set (snd (st2, [] :: string list)) = {}" by simp
  note c = ident_loop [OF run(3) k2 conjunct1 [OF p] this]
  have k3: "keys_ok st3" using c by simp
  note d = folder_loop [OF run(4) k3]
  have "mset (all_of gs) \<subseteq># mset (all_of (movie_files st3)) + free_files taken ?pis"
    using d run(5) by (simp add: free_files_def)
  also have "\<dots> \<subseteq># mset (all_of (movie_files st2)) + free_files [] ?pis" using c by simp
  also have "\<dots> \<subseteq># total_files st2" using p by (simp add: free_files_def total_files_def)
  also have "\<dots> \<subseteq># total_files ?st1" using b by simp
  also have "\<dots> \<subseteq># total_files st0" using order_le [OF assms, of "leftovers st0"] by (simp add: total_files_def)
  also have "\<dots> \<subseteq># mset files" using a by (simp add: total_files_def)
  finally have le: "mset (all_of gs) \<subseteq># mset files" .
  have "mset (all_of (movie_files st0)) \<subseteq># mset (all_of (movie_files st2))" using b by simp
  also have "\<dots> \<subseteq># mset (all_of (movie_files st3))" using c by simp
  also have "\<dots> \<subseteq># mset (all_of gs)" using d run(5) by simp
  finally have "set (all_of (movie_files st0)) \<subseteq> set (all_of gs)" using set_mset_mono by fastforce
  with a le d run(5) all show ?thesis by (auto simp: keys_ok_def)
qed

theorem grouping_partitions_witness:
  "\<exists>gs ignored w'. group_files_by_name demo_outside demo_disk ''/m/'' [''/m/a.mkv'', ''/m/a.nfo''] demo_world
       = (Inr (gs, ignored), w') \<and>
    distinct (map fst gs) \<and> mset (all_of gs) \<subseteq># mset [''/m/a.mkv'', ''/m/a.nfo''] \<and>
    (running demo_world \<longrightarrow> (\<forall>f \<in> set [''/m/a.mkv'', ''/m/a.nfo'']. main_file demo_disk f \<longrightarrow> f \<in> set (all_of gs)))"
  by (rule grouping_partitions) (simp add: order_ok_def demo_disk_def)

end
