(* ===== verification/Events.thy ===== *)
theory Events
  imports Helpers
begin

text \<open>
  couchpotato/core/event.py with the part of libs/axl/axel.py it rests on (\<open>Event.handle\<close>,
  \<open>Event.fire\<close>, \<open>_execute\<close>): registering handlers, firing an event, collecting what the handlers
  returned, merging, and the two events every event fires in turn (\<open>result.modify.<name>\<close> and
  \<open><name>.after\<close>). A handler is any computation on the state of the program. An event that is
  neither single nor in order runs its handlers in threads: the order in which they run is the
  argument \<open>sched\<close>, a handler being one step of it. The exceptions of the model are those that \<open>except
  Exception\<close> catches: an interrupt or an exit, which passes through \<open>fireEvent\<close> in Python, is none. \<open>hash\<close> stands for the digest of the handler's
  name in its key.
\<close>

section \<open>Keys of handlers\<close>

text \<open>\<open>natsortKey\<close> alternates texts and numbers, so two keys never compare a text with a number;
  the order below puts numbers first where Python would raise.\<close>

instantiation natkey :: linorder
begin

fun less_eq_natkey :: "natkey \<Rightarrow> natkey \<Rightarrow> bool" where
  "less_eq_natkey (NK_int i) (NK_int j) = (i \<le> j)"
| "less_eq_natkey (NK_int i) (NK_str t) = True"
| "less_eq_natkey (NK_str s) (NK_int j) = False"
| "less_eq_natkey (NK_str s) (NK_str t) = (s \<le> t)"

definition less_natkey :: "natkey \<Rightarrow> natkey \<Rightarrow> bool" where
  "less_natkey a b = (a \<le> b \<and> \<not> b \<le> a)"

instance
proof
  fix a b c :: natkey
  show "(a < b) = (a \<le> b \<and> \<not> b \<le> a)" by (rule less_natkey_def)
  show "a \<le> a" by (cases a) auto
  show "a \<le> b \<Longrightarrow> b \<le> c \<Longrightarrow> a \<le> c" by (cases a; cases b; cases c) auto
  show "a \<le> b \<Longrightarrow> b \<le> a \<Longrightarrow> a = b" by (cases a; cases b) auto
  show "a \<le> b \<or> b \<le> a" by (cases a; cases b) auto
qed

end

record 's handler =
  h_hash :: string
  h_priority :: int
  h_run :: "pv list \<Rightarrow> ('s, pv) py"

type_synonym 's events = "(string \<times> 's handler list) list"

definition addEvent :: "string \<Rightarrow> 's handler \<Rightarrow> 's events \<Rightarrow> 's events" where
  "addEvent name h evs =
     AList.update name ((case map_of evs name of None \<Rightarrow> [] | Some hs \<Rightarrow> hs) @ [h]) evs"

definition handler_key :: "'s handler \<Rightarrow> string" where
  "handler_key h = str_of_int (h_priority h) @ ''.'' @ h_hash h"

text \<open>\<open>createHandle\<close> around \<open>runHandler\<close>: every exception of a handler is logged and gives \<open>None\<close>.
  (\<open>hasattr(handler, 'im_self')\<close> is false for every method of Python 3, so \<open>beforeCall\<close> and
  \<open>afterCall\<close> are not called.)\<close>

definition runHandler :: "pv list \<Rightarrow> 's handler \<Rightarrow> ('s, pv) py" where
  "runHandler args h = catch (h_run h args) (\<lambda>_. ret PNone)"

section \<open>Firing\<close>

definition by_key :: "'s handler list \<Rightarrow> 's handler list" where
  "by_key hs = sort_key (\<lambda>h. natsortKey (handler_key h)) hs"

text \<open>One thread takes the handlers from the queue; with \<open>event_return_on_result\<close> those after the
  first result are only taken off the queue.\<close>

fun execute_all :: "pv list \<Rightarrow> 's handler list \<Rightarrow> ('s, (string \<times> pv) list) py" where
  "execute_all args [] = ret []"
| "execute_all args (h # hs) =
     bnd (runHandler args h) (\<lambda>v. bnd (execute_all args hs) (\<lambda>rs. ret ((handler_key h, v) # rs)))"

fun execute_first :: "pv list \<Rightarrow> 's handler list \<Rightarrow> ('s, (string \<times> pv) list) py" where
  "execute_first args [] = ret []"
| "execute_first args (h # hs) =
     bnd (runHandler args h) (\<lambda>v.
       if v \<noteq> PNone then ret [(handler_key h, v)] else execute_first args hs)"

record 's opts =
  o_after :: bool
  o_complete :: "('s, unit) py option"
  o_single :: bool
  o_merge :: bool
  o_in_order :: bool

definition no_opts :: "'s opts" where
  "no_opts = \<lparr>o_after = False, o_complete = None, o_single = False, o_merge = False, o_in_order = False\<rparr>"

definition sort_results :: "(string \<times> pv) list \<Rightarrow> pv list" where
  "sort_results rs = map snd (sort_key (\<lambda>r. natsortKey (fst r)) rs)"

definition collect :: "('s handler list \<Rightarrow> 's handler list) \<Rightarrow> 's opts \<Rightarrow> 's handler list \<Rightarrow> pv list \<Rightarrow>
    ('s, pv list) py" where
  "collect sched opts hs args = (case hs of
       [h] \<Rightarrow> bnd (runHandler args h) (\<lambda>v. ret [v])
     | _ \<Rightarrow> bnd (if o_single opts then execute_first args (by_key hs)
                 else if o_in_order opts then execute_all args (by_key hs)
                 else execute_all args (sched hs)) (\<lambda>rs. ret (sort_results rs)))"

fun merge_dicts :: "pv \<Rightarrow> pv list \<Rightarrow> pv res" where
  "merge_dicts merged [] = Inr merged"
| "merge_dicts merged (r # rs) = rbind (mergeDicts merged r True) (\<lambda>m. merge_dicts m rs)"

fun merge_lists :: "pv list \<Rightarrow> pv list \<Rightarrow> pv res" where
  "merge_lists merged [] = Inr (PList merged)"
| "merge_lists merged (r # rs) =
     (if r \<in> set merged then merge_lists merged rs
      else rbind (as_list r) (\<lambda>xs. merge_lists (merged @ xs) rs))"

definition combine :: "'s opts \<Rightarrow> pv list \<Rightarrow> pv res" where
  "combine opts vals =
     (if o_single opts \<and> \<not> o_merge opts
      then Inr (case first_such (\<lambda>v. v \<noteq> PNone) vals of None \<Rightarrow> PNone | Some v \<Rightarrow> v)
      else (let results = filter truthy vals in
            if o_merge opts
            then (case results of
                PDict d # _ \<Rightarrow> merge_dicts (PDict []) (rev results)
              | PList xs # _ \<Rightarrow> merge_lists [] results
              | _ \<Rightarrow> Inr (PList results))
            else Inr (PList results)))"

text \<open>The names of the two follow-up events grow, and an event nobody listens to fires nothing: the
  chain of follow-up events ends after the longest name.\<close>

definition name_bound :: "'s events \<Rightarrow> nat" where
  "name_bound evs = foldr (\<lambda>e m. max (length (fst e)) m) evs 0"

lemma name_bound: "map_of evs name = Some hs \<Longrightarrow> length name \<le> name_bound evs"
  unfolding name_bound_def by (induction evs) (auto split: if_splits)

function fireEvent :: "'s events \<Rightarrow> ('s handler list \<Rightarrow> 's handler list) \<Rightarrow> 's opts \<Rightarrow> string \<Rightarrow> pv list \<Rightarrow>
    ('s, pv) py" where
  "fireEvent evs sched opts name args =
     (case map_of evs name of
        None \<Rightarrow> ret PNone
      | Some hs \<Rightarrow>
          catch
            (bnd (collect sched opts hs args) (\<lambda>vals.
             bnd (liftr (combine opts vals)) (\<lambda>results.
             bnd (fireEvent evs sched (no_opts\<lparr>o_single := True\<rparr>) (''result.modify.'' @ name) [results]) (\<lambda>modified.
             bnd (if o_after opts then ret PNone
                  else fireEvent evs sched (no_opts\<lparr>o_after := True\<rparr>) (name @ ''.after'') []) (\<lambda>_.
             bnd (case o_complete opts of None \<Rightarrow> ret () | Some f \<Rightarrow> f) (\<lambda>_.
             ret (if truthy modified then modified else results)))))))
            (\<lambda>_. ret PNone))"
  by pat_completeness auto
termination
  by (relation "measure (\<lambda>(evs, _, _, name, _). Suc (name_bound evs) - length name)")
    (auto dest: name_bound)

declare fireEvent.simps [simp del]

section \<open>Properties\<close>

text \<open>The handlers before the first one with a result.\<close>

fun all_none :: "pv list \<Rightarrow> 's handler list \<Rightarrow> 's \<Rightarrow> 's option" where
  "all_none args [] s = Some s"
| "all_none args (h # hs) s = (case runHandler args h s of (Inr PNone, t) \<Rightarrow> all_none args hs t | _ \<Rightarrow> None)"

lemma execute_first_found:
  assumes "all_none args pre s = Some t" "runHandler args h t = (Inr v, u)" "v \<noteq> PNone"
  shows "execute_first args (pre @ h # post) s = (Inr [(handler_key h, v)], u)"
  using assms(1)
proof (induction pre arbitrary: s)
  case Nil
  with assms(2,3) show ?case by (simp add: bnd_Inr ret_run)
next
  case (Cons g pre)
  then obtain s' where "runHandler args g s = (Inr PNone, s')" "all_none args pre s' = Some t"
    by (auto split: prod.splits sum.splits pv.splits)
  with Cons.IH show ?case by (simp add: bnd_Inr)
qed

lemma no_followup: "map_of evs n = None \<Longrightarrow> fireEvent evs sched opts n args = ret PNone"
  by (subst fireEvent.simps) simp

text \<open>A single event runs its handlers in the order of their keys up to the first that returns
  something; its result is the event's result, and the handlers after it do not run.\<close>

theorem single_event_first:
  assumes "map_of evs name = Some hs" "length hs \<ge> 2" "by_key hs = pre @ h # post"
    and "all_none args pre s = Some t" "runHandler args h t = (Inr v, u)" "v \<noteq> PNone"
    and "map_of evs (''result.modify.'' @ name) = None" "map_of evs (name @ ''.after'') = None"
  shows "fireEvent evs sched (no_opts\<lparr>o_single := True\<rparr>) name args s = (Inr v, u)"
proof -
  obtain h1 h2 hs' where hs: "hs = h1 # h2 # hs'" using assms(2) by (cases hs; cases "tl hs") auto
  have "collect sched (no_opts\<lparr>o_single := True\<rparr>) hs args s = (Inr [v], u)"
    using execute_first_found [OF assms(4-6), of post] assms(3)
    by (simp add: hs collect_def py_simps sort_results_def)
  then show ?thesis using assms(1,6-8)
    by (subst fireEvent.simps) (simp add: no_followup py_simps combine_def no_opts_def)
qed

lemma execute_all_pure:
  assumes "\<And>h s. h \<in> set hs \<Longrightarrow> runHandler args h s = (Inr (f h), s)"
  shows "execute_all args hs s = (Inr (map (\<lambda>h. (handler_key h, f h)) hs), s)"
  using assms by (induction hs arbitrary: s) (simp_all add: py_simps)

lemma sort_results_perm:
  assumes "mset rs = mset rs'" "inj_on (\<lambda>r. natsortKey (fst r)) (set rs)"
  shows "sort_results rs = sort_results rs'"
  unfolding sort_results_def
  using sort_key_inj_key_eq [of rs "sort_key (\<lambda>r. natsortKey (fst r)) rs'" "\<lambda>r. natsortKey (fst r)"] assms
  by simp

text \<open>C36: when the handlers do not change the state, the order in which their threads run does not
  change what the event returns.\<close>

theorem schedule_irrelevant:
  assumes "\<And>hs. mset (sched hs) = mset hs" "\<And>hs. mset (sched' hs) = mset hs"
    and "\<And>n hs. map_of evs n = Some hs \<Longrightarrow> inj_on (\<lambda>h. natsortKey (handler_key h)) (set hs)"
    and "\<And>n hs h args s. map_of evs n = Some hs \<Longrightarrow> h \<in> set hs \<Longrightarrow> runHandler args h s = (Inr (f h args), s)"
  shows "fireEvent evs sched opts name args s = fireEvent evs sched' opts name args s"
proof -
  have coll: "collect sched opts hs args = collect sched' opts hs args" if m: "map_of evs n = Some hs" for n hs opts args
  proof -
    have run: "execute_all args (q hs) s = (Inr (map (\<lambda>h. (handler_key h, f h args)) (q hs)), s)"
      if "\<And>hs. mset (q hs) = mset hs" for q s
      using that [of hs] assms(4) [OF m] by (intro execute_all_pure) (metis mset_eq_setD)
    let ?r = "\<lambda>h. (handler_key h, f h args)"
    have inj: "inj_on (\<lambda>r. natsortKey (fst r)) (?r ` set hs)"
      using assms(3) [OF m] by (auto simp: inj_on_def)
    have set: "set (sched hs) = set hs" using assms(1) [of hs] by (rule mset_eq_setD)
    have "sort_results (map ?r (sched hs)) = sort_results (map ?r (sched' hs))"
    proof (rule sort_results_perm)
      show "mset (map ?r (sched hs)) = mset (map ?r (sched' hs))" using assms(1,2) [of hs] by simp
      show "inj_on (\<lambda>r. natsortKey (fst r)) (set (map ?r (sched hs)))" using inj set by simp
    qed
    then have "bnd (execute_all args (sched hs)) (\<lambda>rs. ret (sort_results rs)) =
        bnd (execute_all args (sched' hs)) (\<lambda>rs. ret (sort_results rs))"
      using run [OF assms(1)] run [OF assms(2)] by (simp add: fun_eq_iff py_simps)
    then have "bnd (if o_single opts then execute_first args (by_key hs)
          else if o_in_order opts then execute_all args (by_key hs) else execute_all args (sched hs)) (\<lambda>rs. ret (sort_results rs)) =
        bnd (if o_single opts then execute_first args (by_key hs)
          else if o_in_order opts then execute_all args (by_key hs) else execute_all args (sched' hs)) (\<lambda>rs. ret (sort_results rs))"
      by simp
    then show ?thesis unfolding collect_def by (simp only:)
  qed
  have "fireEvent evs sched opts name args = fireEvent evs sched' opts name args"
    using coll
  proof (induction evs sched opts name args rule: fireEvent.induct)
    case (1 evs sched opts name args)
    show ?case
    proof (cases "map_of evs name")
      case None
      then show ?thesis by (simp add: no_followup)
    next
      case (Some hs)
      have c: "collect sched opts hs args = collect sched' opts hs args" by (rule "1.prems" [OF Some])
      have "fireEvent evs sched (no_opts\<lparr>o_single := True\<rparr>) (''result.modify.'' @ name) [r] =
          fireEvent evs sched' (no_opts\<lparr>o_single := True\<rparr>) (''result.modify.'' @ name) [r]" for r
        using "1.IH"(1) [OF Some] "1.prems" by blast
      moreover have "fireEvent evs sched (no_opts\<lparr>o_after := True\<rparr>) (name @ ''.after'') [] =
          fireEvent evs sched' (no_opts\<lparr>o_after := True\<rparr>) (name @ ''.after'') []" if "\<not> o_after opts"
        using "1.IH"(2) [OF Some that] "1.prems" by blast
      ultimately show ?thesis using c Some
        by (subst fireEvent.simps, subst fireEvent.simps [of evs sched']) (simp cong: if_cong)
    qed
  qed
  then show ?thesis by simp
qed

lemma merge_dicts_snoc:
  "merge_dicts m (rs @ [r]) = rbind (merge_dicts m rs) (\<lambda>m'. mergeDicts m' r True)"
proof (induction rs arbitrary: m)
  case Nil
  show ?case by (cases "mergeDicts m r True") simp_all
qed (simp add: rbind_assoc)

text \<open>When the results of an event are merged, a plain value of the handler that comes first wins
  over those of all later ones.\<close>

theorem merge_first_wins:
  assumes "combine (no_opts\<lparr>o_merge := True\<rparr>) (PDict d # vals) = Inr (PDict m)" "d \<noteq> []"
    and "distinct (map fst d)" "map_of d k = Some v" "is_scalar v"
  shows "dget m k = v"
proof -
  let ?rs = "filter truthy vals"
  have "merge_dicts (PDict []) (rev ?rs @ [PDict d]) = Inr (PDict m)"
    using assms(1,2) by (simp add: combine_def no_opts_def)
  then obtain m0 where "mergeDicts m0 (PDict d) True = Inr (PDict m)"
    unfolding merge_dicts_snoc rbind_eq_Inr by blast
  then obtain a where "m = merge_into True a d" by (cases m0) (auto simp: mergeDicts_def)
  with merge_into_scalar [OF assms(3-5)] show ?thesis by simp
qed

theorem merge_first_wins_witness:
  "\<exists>m. combine (no_opts\<lparr>o_merge := True\<rparr>) [PDict [(''year'', PInt 1999)], PDict [(''year'', PInt 2000), (''runtime'', PInt 136)]]
     = Inr (PDict m) \<and> dget m ''year'' = PInt 1999"
proof -
  let ?d = "[(''year'', PInt 1999)]"
  have c: "combine (no_opts\<lparr>o_merge := True\<rparr>) [PDict ?d, PDict [(''year'', PInt 2000), (''runtime'', PInt 136)]]
      = Inr (PDict [(''year'', PInt 1999), (''runtime'', PInt 136)])"
    by (simp add: combine_def no_opts_def mergeDicts_def dput_def)
  have "dget [(''year'', PInt 1999), (''runtime'', PInt 136)] ''year'' = PInt 1999"
    by (rule merge_first_wins [OF c]) simp_all
  with c show ?thesis by blast
qed

definition demo_handler :: "string \<Rightarrow> int \<Rightarrow> pv \<Rightarrow> unit handler" where
  "demo_handler h p v = \<lparr>h_hash = h, h_priority = p, h_run = (\<lambda>_. ret v)\<rparr>"

definition demo_events :: "unit events" where
  "demo_events = addEvent ''movie.info'' (demo_handler ''b'' 2 (PInt 2))
     (addEvent ''movie.info'' (demo_handler ''a'' 10 (PInt 10)) [])"

lemma demo_events_eq:
  "map_of demo_events n = Some hs \<longleftrightarrow>
     n = ''movie.info'' \<and> hs = [demo_handler ''a'' 10 (PInt 10), demo_handler ''b'' 2 (PInt 2)]"
  by (auto simp: demo_events_def addEvent_def)

lemma demo_keys:
  "natsortKey (handler_key (demo_handler ''a'' 10 (PInt 10))) = [NK_str [], NK_int 10, NK_str ''.a'']"
  "natsortKey (handler_key (demo_handler ''b'' 2 (PInt 2))) = [NK_str [], NK_int 2, NK_str ''.b'']"
  by (simp_all add: handler_key_def demo_handler_def) (code_simp, code_simp)

theorem single_event_first_witness:
  "fireEvent demo_events rev (no_opts\<lparr>o_single := True\<rparr>) ''movie.info'' [] () = (Inr (PInt 2), ())"
proof (rule single_event_first [where pre = "[]" and hs = "[demo_handler ''a'' 10 (PInt 10), demo_handler ''b'' 2 (PInt 2)]"
      and h = "demo_handler ''b'' 2 (PInt 2)" and post = "[demo_handler ''a'' 10 (PInt 10)]"])
  show "by_key [demo_handler ''a'' 10 (PInt 10), demo_handler ''b'' 2 (PInt 2)] =
      [] @ demo_handler ''b'' 2 (PInt 2) # [demo_handler ''a'' 10 (PInt 10)]"
    by (simp add: by_key_def demo_keys less_natkey_def)
qed (auto simp: demo_events_eq demo_events_def addEvent_def demo_handler_def runHandler_def py_simps)

theorem schedule_irrelevant_witness:
  "fireEvent demo_events rev no_opts ''movie.info'' [] () = fireEvent demo_events id no_opts ''movie.info'' [] ()"
  by (rule schedule_irrelevant [where f = "\<lambda>h args. if h_hash h = ''a'' then PInt 10 else PInt 2"])
    (auto simp: demo_events_eq demo_keys inj_on_def, auto simp: demo_handler_def runHandler_def py_simps)

end
