(* ===== verification/UpdateGuard.thy ===== *)
theory UpdateGuard
  imports Helpers
begin

text \<open>
  update_guard.py: the net under an automatic update. The state is the part of the clone the guard
  reads and writes (the JSON files and the note of a bad version in \<open>.git\<close>, the commit at HEAD),
  the watchdog threads of the running process and a counter of re-executions. Every call that
  leaves the process (git, opening, replacing and removing a file) may fail: \<open>fails\<close> is an
  arbitrary choice of the calls that do, \<open>ops\<close> counts them. \<open>pip\<close> is counted in \<open>pips\<close>; its result
  is not used. The watchdog reads the pending record and rolls back in two steps, between
  which the main thread may run.
\<close>

section \<open>The clone and the files of the guard\<close>

datatype dog = Sleeping pv | Decided pv

record guard =
  git_dir :: bool
  gfiles :: "(string \<times> pv) list"
  bad_file :: "string option"
  git_head :: string
  clock :: rat
  fails :: "nat \<Rightarrow> bool"
  ops :: nat
  pips :: nat
  dogs :: "dog list"
  restarts :: nat

definition PENDING :: string where "PENDING = ''couchtomato-update.json''"
definition ROLLED_BACK :: string where "ROLLED_BACK = ''couchtomato-rollback.json''"
definition MAX_BOOTS :: int where "MAX_BOOTS = 3"
definition CONFIRM_SECONDS :: int where "CONFIRM_SECONDS = 600"

definition ext_op :: "(guard, unit) py" where
  "ext_op = (\<lambda>g. (if fails g (ops g) then Inl OSError else Inr (), g\<lparr>ops := Suc (ops g)\<rparr>))"

definition guard_read :: "string \<Rightarrow> (guard, pv) py" where
  "guard_read name =
     bnd (gets git_dir) (\<lambda>d.
       if \<not> d then ret PNone
       else catch (bnd ext_op (\<lambda>_. gets (\<lambda>g. dget (gfiles g) name))) (\<lambda>_. ret PNone))"

definition guard_write :: "string \<Rightarrow> doc \<Rightarrow> (guard, unit) py" where
  "guard_write name data =
     bnd (gets git_dir) (\<lambda>d.
       if \<not> d then raise TypeError
       else bnd ext_op (\<lambda>_. bnd ext_op (\<lambda>_. modify (\<lambda>g. g\<lparr>gfiles := dput (gfiles g) name (PDict data)\<rparr>))))"

definition guard_remove :: "string \<Rightarrow> (guard, unit) py" where
  "guard_remove name =
     bnd (gets git_dir) (\<lambda>d.
       if \<not> d then raise TypeError
       else catch (bnd ext_op (\<lambda>_. modify (\<lambda>g. g\<lparr>gfiles := dremove (gfiles g) name\<rparr>))) (\<lambda>_. ret ()))"

definition head_commit :: "(guard, string) py" where
  "head_commit = bnd ext_op (\<lambda>_. gets git_head)"

definition git_reset :: "string \<Rightarrow> (guard, unit) py" where
  "git_reset c = bnd ext_op (\<lambda>_. modify (\<lambda>g. g\<lparr>git_head := c\<rparr>))"

definition install_requirements :: "(guard, unit) py" where
  "install_requirements = modify (\<lambda>g. g\<lparr>pips := Suc (pips g)\<rparr>)"

section \<open>The operations\<close>

definition mark_pending :: "string \<Rightarrow> string \<Rightarrow> bool \<Rightarrow> (guard, unit) py" where
  "mark_pending previous version requirements_changed =
     bnd (gets clock) (\<lambda>t.
     guard_write PENDING
       [(''previous'', PStr previous), (''version'', PStr version),
        (''requirements_changed'', PBool requirements_changed), (''updated_at'', PFloat t), (''boots'', PInt 0)])"

definition mark_bad :: "pv \<Rightarrow> (guard, unit) py" where
  "mark_bad version =
     bnd (gets git_dir) (\<lambda>d.
       if \<not> d then raise TypeError
       else bnd ext_op (\<lambda>_.
            bnd (modify (\<lambda>g. g\<lparr>bad_file := Some []\<rparr>)) (\<lambda>_.
            bnd (liftr (as_str version)) (\<lambda>v. modify (\<lambda>g. g\<lparr>bad_file := Some v\<rparr>)))))"

definition is_bad :: "string \<Rightarrow> (guard, bool) py" where
  "is_bad version =
     bnd (gets git_dir) (\<lambda>d.
       if \<not> d then raise TypeError
       else catch (bnd ext_op (\<lambda>_. gets (\<lambda>g. case bad_file g of None \<Rightarrow> False | Some v \<Rightarrow> strip v = version)))
              (\<lambda>_. ret False))"

definition rollback :: "pv \<Rightarrow> string \<Rightarrow> (guard, unit) py" where
  "rollback state reason =
     bnd (liftr (rbind (vsub state ''previous'') as_str)) (\<lambda>previous.
     bnd (git_reset previous) (\<lambda>_.
     bnd (liftr (vget state ''requirements_changed'')) (\<lambda>rc.
     bnd (whenp (truthy rc) install_requirements) (\<lambda>_.
     bnd (liftr (vsub state ''version'')) (\<lambda>version.
     bnd (mark_bad version) (\<lambda>_.
     bnd (gets clock) (\<lambda>t.
     bnd (guard_write ROLLED_BACK
            [(''version'', version), (''previous'', PStr previous), (''reason'', PStr reason), (''at'', PFloat t)]) (\<lambda>_.
     guard_remove PENDING))))))))"

definition pending :: "(guard, pv) py" where
  "pending = bnd (gets git_dir) (\<lambda>d. if d then guard_read PENDING else ret PNone)"

definition confirm :: "(guard, pv) py" where
  "confirm = bnd (gets git_dir) (\<lambda>d.
     if \<not> d then ret PNone
     else bnd (guard_read PENDING) (\<lambda>state. bnd (guard_remove PENDING) (\<lambda>_. ret state)))"

definition take_rollback :: "(guard, pv) py" where
  "take_rollback = bnd (gets git_dir) (\<lambda>d.
     if \<not> d then ret PNone
     else bnd (guard_read ROLLED_BACK) (\<lambda>note. bnd (guard_remove ROLLED_BACK) (\<lambda>_. ret note)))"

definition duration :: "int \<Rightarrow> string" where
  "duration seconds =
     (if 120 \<le> seconds then str_of_int (seconds div 60) @ '' minutes'' else str_of_int seconds @ '' seconds'')"

fun add_one :: "pv \<Rightarrow> pv res" where
  "add_one (PInt i) = Inr (PInt (i + 1))"
| "add_one (PBool b) = Inr (PInt ((if b then 1 else 0) + 1))"
| "add_one (PFloat r) = Inr (PFloat (r + 1))"
| "add_one _ = Inl TypeError"

text \<open>The part of \<open>on_start\<close> inside its \<open>try\<close>: the record to watch, if the start is to be watched.\<close>

definition check_boot :: "pv \<Rightarrow> (guard, pv option) py" where
  "check_boot state =
     bnd head_commit (\<lambda>h.
     bnd (liftr (vsub state ''version'')) (\<lambda>version.
       if PStr h \<noteq> version then bnd (guard_remove PENDING) (\<lambda>_. ret None)
       else bnd (liftr (as_dict state)) (\<lambda>d.
            bnd (liftr (add_one (dgetd d ''boots'' (PInt 0)))) (\<lambda>boots.
            let state' = dput d ''boots'' boots in
            bnd (guard_write PENDING state') (\<lambda>_.
            bnd (liftr (num_res boots)) (\<lambda>n.
              if of_int MAX_BOOTS < n
              then bnd (rollback (PDict state') (''it did not start ('' @ str_of_int MAX_BOOTS @ '' attempts)'')) (\<lambda>_. ret None)
              else ret (Some (PDict state'))))))))"

definition on_start :: "(guard, unit) py" where
  "on_start =
     bnd (gets git_dir) (\<lambda>d. if \<not> d then ret () else
     bnd (guard_read PENDING) (\<lambda>state. if \<not> truthy state then ret () else
     bnd (catch (check_boot state) (\<lambda>_. ret None)) (\<lambda>r. case r of
         None \<Rightarrow> ret ()
       | Some st \<Rightarrow> modify (\<lambda>g. g\<lparr>dogs := dogs g @ [Sleeping st]\<rparr>))))"

text \<open>The watchdog after its sleep: first it reads the record, then it acts on what it read.\<close>

definition dog_reads :: "pv \<Rightarrow> (guard, dog list) py" where
  "dog_reads state =
     bnd (guard_read PENDING) (\<lambda>current.
     catch (bnd (liftr (if truthy current then vget current ''version'' else Inr PNone)) (\<lambda>v.
            bnd (liftr (vsub state ''version'')) (\<lambda>sv.
            ret (if truthy current \<and> v = sv then [Decided current] else []))))
       (\<lambda>_. ret []))"

definition dog_acts :: "pv \<Rightarrow> (guard, unit) py" where
  "dog_acts current =
     catch
       (bnd (rollback current (''no healthy reply within '' @ duration CONFIRM_SECONDS)) (\<lambda>_.
        modify (\<lambda>g. g\<lparr>restarts := Suc (restarts g), dogs := []\<rparr>)))
       (\<lambda>_. ret ())"

section \<open>Runs\<close>

text \<open>A start of the process ends its old threads.\<close>

definition start :: "guard \<Rightarrow> guard" where
  "start g = snd (on_start (g\<lparr>dogs := []\<rparr>))"

text \<open>What can happen without a new update and without a hand on the clone.\<close>

inductive run_step :: "guard \<Rightarrow> guard \<Rightarrow> bool" where
  starts: "run_step g (start g)"
| reads: "dogs g = ds @ Sleeping st # es \<Longrightarrow> dog_reads st g = (Inr r, h) \<Longrightarrow>
    run_step g (h\<lparr>dogs := ds @ r @ es\<rparr>)"
| acts: "dogs g = ds @ Decided c # es \<Longrightarrow> run_step g (snd (dog_acts c (g\<lparr>dogs := ds @ es\<rparr>)))"
| confirms: "run_step g (snd (confirm g))"
| reports: "run_step g (snd (take_rollback g))"
| ticks: "0 \<le> t \<Longrightarrow> run_step g (g\<lparr>clock := clock g + t\<rparr>)"

inductive_cases run_stepE: "run_step g h"

inductive runs :: "guard \<Rightarrow> guard \<Rightarrow> bool" where
  here: "runs g g"
| more: "runs g h \<Longrightarrow> run_step h k \<Longrightarrow> runs g k"

section \<open>The abstract guard\<close>

text \<open>What the guard promises, without files: a commit, at most one update on trial with the number
  of its unconfirmed starts, and the version remembered as bad.\<close>

datatype trial = NoTrial | Trial string string nat

record spec =
  sp_head :: string
  sp_trial :: trial
  sp_bad :: "string option"

definition spec_start :: "spec \<Rightarrow> spec" where
  "spec_start s = (case sp_trial s of
       NoTrial \<Rightarrow> s
     | Trial previous version n \<Rightarrow>
         (if sp_head s \<noteq> version then s\<lparr>sp_trial := NoTrial\<rparr>
          else if n < 3 then s\<lparr>sp_trial := Trial previous version (n + 1)\<rparr>
          else \<lparr>sp_head = previous, sp_trial = NoTrial, sp_bad = Some version\<rparr>))"

definition spec_confirm :: "spec \<Rightarrow> spec" where
  "spec_confirm s = s\<lparr>sp_trial := NoTrial\<rparr>"

definition spec_install :: "string \<Rightarrow> string \<Rightarrow> spec \<Rightarrow> spec" where
  "spec_install previous version s = s\<lparr>sp_trial := Trial previous version 0\<rparr>"

definition trial_of :: "pv \<Rightarrow> trial" where
  "trial_of v = (case v of
       PDict d \<Rightarrow> Trial (str_or_empty (dget d ''previous'')) (str_or_empty (dget d ''version''))
         (case dget d ''boots'' of PInt n \<Rightarrow> nat n | _ \<Rightarrow> 0)
     | _ \<Rightarrow> NoTrial)"

definition guard_abs :: "guard \<Rightarrow> spec" where
  "guard_abs g = \<lparr>sp_head = git_head g, sp_trial = trial_of (dget (gfiles g) PENDING), sp_bad = bad_file g\<rparr>"

text \<open>A clone in which no call fails and whose record, if there is one, is one the guard wrote.\<close>

definition record_of :: "string \<Rightarrow> string \<Rightarrow> bool \<Rightarrow> rat \<Rightarrow> int \<Rightarrow> doc" where
  "record_of p v rc t n = [(''previous'', PStr p), (''version'', PStr v), (''requirements_changed'', PBool rc),
     (''updated_at'', PFloat t), (''boots'', PInt n)]"

definition healthy :: "guard \<Rightarrow> bool" where
  "healthy g \<longleftrightarrow> git_dir g \<and> (\<forall>n. \<not> fails g n) \<and>
     (dget (gfiles g) PENDING = PNone \<or> (\<exists>p v rc t n. dget (gfiles g) PENDING = PDict (record_of p v rc t n) \<and> 0 \<le> n))"

lemma ext_op_healthy: "(\<And>n. \<not> fails g n) \<Longrightarrow> ext_op g = (Inr (), g\<lparr>ops := Suc (ops g)\<rparr>)"
  by (simp add: ext_op_def)

lemma record_simps:
  "dget (record_of p v rc t n) ''previous'' = PStr p" "dsub (record_of p v rc t n) ''previous'' = Inr (PStr p)"
  "dget (record_of p v rc t n) ''version'' = PStr v" "dsub (record_of p v rc t n) ''version'' = Inr (PStr v)"
  "dgetd (record_of p v rc t n) ''boots'' d = PInt n" "dget (record_of p v rc t n) ''boots'' = PInt n"
  "dget (record_of p v rc t n) ''requirements_changed'' = PBool rc"
  "dput (record_of p v rc t n) ''boots'' (PInt m) = record_of p v rc t m"
  "record_of p v rc t n \<noteq> []"
  by (simp_all add: record_of_def dget_def dsub_def dgetd_def dput_def)

lemmas guard_eval = py_simps ext_op_def guard_read_def guard_write_def guard_remove_def head_commit_def
  git_reset_def install_requirements_def mark_bad_def

lemma file_names: "PENDING \<noteq> ROLLED_BACK" "ROLLED_BACK \<noteq> PENDING"
  by (simp_all add: PENDING_def ROLLED_BACK_def)

lemma rollback_healthy:
  assumes "git_dir g" "\<And>n. \<not> fails g n"
  shows "\<exists>h. rollback (PDict (record_of p v rc t n)) reason g = (Inr (), h) \<and> git_dir h \<and> fails h = fails g \<and>
    git_head h = p \<and> bad_file h = Some v \<and> dget (gfiles h) PENDING = PNone \<and> dogs h = dogs g \<and>
    dget (gfiles h) ROLLED_BACK = PDict [(''version'', PStr v), (''previous'', PStr p), (''reason'', PStr reason), (''at'', PFloat (clock g))]"
  using assms by (simp add: rollback_def guard_eval record_simps dget_dremove file_names)

lemma start_healthy:
  assumes "healthy g"
  shows "healthy (start g) \<and> guard_abs (start g) = spec_start (guard_abs g)"
proof (cases "dget (gfiles g) PENDING = PNone")
  case True
  with assms show ?thesis
    by (simp add: start_def on_start_def guard_eval healthy_def guard_abs_def spec_start_def trial_of_def)
next
  case False
  with assms obtain p v rc t n where g: "git_dir g" "\<And>n. \<not> fails g n"
    "dget (gfiles g) PENDING = PDict (record_of p v rc t n)" "0 \<le> n" by (auto simp: healthy_def)
  have abs: "guard_abs g = \<lparr>sp_head = git_head g, sp_trial = Trial p v (nat n), sp_bad = bad_file g\<rparr>"
    by (simp add: guard_abs_def trial_of_def g record_simps)
  consider "git_head g \<noteq> v" | "git_head g = v" "n < 3" | "git_head g = v" "3 \<le> n" by linarith
  then show ?thesis
  proof cases
    case 1
    then show ?thesis unfolding abs using g
      by (simp add: start_def on_start_def check_boot_def guard_eval record_simps healthy_def guard_abs_def
          spec_start_def trial_of_def dget_dremove)
  next
    case 2
    then have "nat n < 3" "nat (n + 1) = Suc (nat n)" using g(4) by linarith+
    moreover have "\<not> (3 :: rat) < of_int n + 1" using 2 by linarith
    moreover have "\<exists>p' v' rc' t' m. record_of p v rc t (n + 1) = record_of p' v' rc' t' m \<and> 0 \<le> m"
      using g(4) by (intro exI [of _ p] exI [of _ v] exI [of _ rc] exI [of _ t] exI [of _ "n + 1"]) simp
    moreover note 2
    ultimately show ?thesis unfolding abs using g
      by (auto simp: start_def on_start_def check_boot_def guard_eval record_simps healthy_def guard_abs_def
          spec_start_def trial_of_def MAX_BOOTS_def Let_def num_res_def)
  next
    case 3
    have n: "\<not> nat n < 3" "(3 :: rat) < of_int n + 1" using 3 by linarith+
    let ?h = "(g\<lparr>dogs := []\<rparr>)\<lparr>ops := Suc (Suc (Suc (Suc (ops g)))), gfiles := dput (gfiles g) PENDING (PDict (record_of p v rc t (n + 1)))\<rparr>"
    have h: "git_dir ?h" "\<And>n. \<not> fails ?h n" using g by simp_all
    from rollback_healthy [OF h, of p v rc t "n + 1" "''it did not start ('' @ str_of_int MAX_BOOTS @ '' attempts)''"]
    obtain k where k: "rollback (PDict (record_of p v rc t (n + 1))) (''it did not start ('' @ str_of_int MAX_BOOTS @ '' attempts)'') ?h = (Inr (), k)"
      "git_dir k" "fails k = fails ?h" "git_head k = p" "bad_file k = Some v" "dget (gfiles k) PENDING = PNone"
      by (elim exE conjE) (rule that)
    have "start g = k"
      using g 3 k(1) n(2)
      by (simp add: start_def on_start_def check_boot_def guard_eval record_simps MAX_BOOTS_def Let_def num_res_def)
    then show ?thesis unfolding abs using k g(2) n(1) 3(1)
      by (simp add: healthy_def guard_abs_def spec_start_def trial_of_def)
  qed
qed

lemma confirm_healthy:
  assumes "healthy g"
  shows "healthy (snd (confirm g)) \<and> guard_abs (snd (confirm g)) = spec_confirm (guard_abs g) \<and>
    fst (confirm g) = Inr (dget (gfiles g) PENDING)"
  using assms
  by (auto simp: healthy_def confirm_def guard_eval guard_abs_def spec_confirm_def trial_of_def dget_dremove)

lemma mark_pending_healthy:
  assumes "healthy g"
  shows "healthy (snd (mark_pending p v rc g)) \<and>
    guard_abs (snd (mark_pending p v rc g)) = spec_install p v (guard_abs g)"
proof -
  have d: "[(''previous'', PStr p), (''version'', PStr v), (''requirements_changed'', PBool rc),
      (''updated_at'', PFloat (clock g)), (''boots'', PInt 0)] = record_of p v rc (clock g) 0"
    by (simp add: record_of_def)
  have e: "\<exists>p' v' rc' t' n. record_of p v rc (clock g) 0 = record_of p' v' rc' t' n \<and> 0 \<le> n"
    by (intro exI [of _ p] exI [of _ v] exI [of _ rc] exI [of _ "clock g"] exI [of _ 0]) simp
  show ?thesis using assms e
    by (simp add: healthy_def mark_pending_def guard_eval d guard_abs_def spec_install_def trial_of_def record_simps)
qed

text \<open>C7: on a clone where no call fails, a start, a confirmation and the record of a new update do on
  files and commits exactly what the abstract guard does.\<close>

theorem guard_refines:
  assumes "healthy g"
  shows "healthy (start g) \<and> guard_abs (start g) = spec_start (guard_abs g) \<and>
    healthy (snd (confirm g)) \<and> guard_abs (snd (confirm g)) = spec_confirm (guard_abs g) \<and>
    healthy (snd (mark_pending p v rc g)) \<and>
    guard_abs (snd (mark_pending p v rc g)) = spec_install p v (guard_abs g)"
  using start_healthy [OF assms] confirm_healthy [OF assms] mark_pending_healthy [OF assms] by blast

lemma starts_refine: "healthy g \<Longrightarrow> healthy ((start ^^ n) g) \<and> guard_abs ((start ^^ n) g) = (spec_start ^^ n) (guard_abs g)"
  by (induction n) (auto simp: start_healthy)

lemma spec_start_trial:
  "sp_head s = v \<Longrightarrow> sp_trial s = Trial p v 0 \<Longrightarrow> n \<le> 3 \<Longrightarrow> (spec_start ^^ n) s = s\<lparr>sp_trial := Trial p v n\<rparr>"
  by (induction n) (auto simp: spec_start_def)

text \<open>C27: where no call fails and no watchdog acts, an update that is never confirmed runs for three starts and is taken
  back at the fourth: the clone is at the previous commit, the version is remembered as bad, and nothing is pending.\<close>

theorem unconfirmed_update_rolls_back:
  assumes "healthy g" "git_head g = v"
  shows "(\<forall>n \<le> 3. git_head ((start ^^ n) (snd (mark_pending p v rc g))) = v) \<and>
    guard_abs ((start ^^ 4) (snd (mark_pending p v rc g))) = \<lparr>sp_head = p, sp_trial = NoTrial, sp_bad = Some v\<rparr>"
proof -
  let ?g = "snd (mark_pending p v rc g)"
  have h: "healthy ?g" "guard_abs ?g = spec_install p v (guard_abs g)" using mark_pending_healthy [OF assms(1)] by auto
  let ?s = "spec_install p v (guard_abs g)"
  have s: "sp_head ?s = v" "sp_trial ?s = Trial p v 0" using assms(2) by (simp_all add: spec_install_def guard_abs_def)
  have 1: "git_head ((start ^^ n) ?g) = v" if "n \<le> 3" for n
  proof -
    have "sp_head (guard_abs ((start ^^ n) ?g)) = v"
      using starts_refine [OF h(1), of n] h(2) spec_start_trial [OF s that] s(1) by simp
    then show ?thesis by (simp add: guard_abs_def)
  qed
  have four: "(4 :: nat) = Suc 3" by simp
  have "guard_abs ((start ^^ 4) ?g) = spec_start ((spec_start ^^ 3) ?s)"
    using starts_refine [OF h(1), of 4] h(2) by (simp only: four funpow.simps comp_apply)
  also have "\<dots> = spec_start (?s\<lparr>sp_trial := Trial p v 3\<rparr>)" using spec_start_trial [OF s, of 3] by simp
  also have "\<dots> = \<lparr>sp_head = p, sp_trial = NoTrial, sp_bad = Some v\<rparr>" using s by (simp add: spec_start_def)
  finally show ?thesis using 1 by blast
qed

definition demo_guard :: guard where
  "demo_guard = \<lparr>git_dir = True, gfiles = [], bad_file = None, git_head = ''new'', clock = 0,
     fails = (\<lambda>_. False), ops = 0, pips = 0, dogs = [], restarts = 0\<rparr>"

lemma demo_guard_healthy: "healthy demo_guard"
  by (simp add: healthy_def demo_guard_def dget_def)

theorem guard_refines_witness:
  "guard_abs (start demo_guard) = spec_start (guard_abs demo_guard)"
  using guard_refines [OF demo_guard_healthy, of "''old''" "''new''" False] by blast

theorem unconfirmed_update_rolls_back_witness:
  "git_head ((start ^^ 4) (snd (mark_pending ''old'' ''new'' False demo_guard))) = ''old''"
  using unconfirmed_update_rolls_back [OF demo_guard_healthy, of "''new''" "''old''" False]
  by (simp add: guard_abs_def demo_guard_def)

section \<open>Runs with failing calls\<close>

text \<open>No update on trial and no watchdog that has made up its mind: then the commit stays.\<close>

definition settled :: "guard \<Rightarrow> bool" where
  "settled g \<longleftrightarrow> dget (gfiles g) PENDING = PNone \<and> (\<forall>c. Decided c \<notin> set (dogs g))"

definition same_commit :: "guard \<Rightarrow> guard \<Rightarrow> bool" where
  "same_commit g h \<longleftrightarrow> git_head h = git_head g \<and> bad_file h = bad_file g"

lemma read_settled:
  "dget (gfiles g) PENDING = PNone \<Longrightarrow>
   \<exists>h. guard_read PENDING g = (Inr PNone, h) \<and> git_head h = git_head g \<and> bad_file h = bad_file g \<and>
     gfiles h = gfiles g \<and> dogs h = dogs g"
  by (simp add: guard_eval)

lemma run_step_settled: "run_step g h \<Longrightarrow> settled g \<Longrightarrow> settled h \<and> same_commit g h"
proof (induction rule: run_step.induct)
  case (starts g)
  then show ?case by (simp add: settled_def same_commit_def start_def on_start_def guard_eval)
next
  case (reads g ds st es r h)
  then have p: "dget (gfiles g) PENDING = PNone" by (simp add: settled_def)
  obtain k where k: "guard_read PENDING g = (Inr PNone, k)" "git_head k = git_head g" "bad_file k = bad_file g"
    "gfiles k = gfiles g" using read_settled [OF p] by blast
  have "fst (dog_reads st g) = Inr [] \<and> snd (dog_reads st g) = k"
    using k(1) by (cases "vsub st ''version''") (auto simp: dog_reads_def bnd_Inr py_simps)
  then have "r = [] \<and> h = k" using reads(2) by simp
  with reads k show ?case by (auto simp: settled_def same_commit_def)
next
  case (acts g ds c es)
  then have False by (auto simp: settled_def)
  then show ?case ..
next
  case (confirms g)
  then show ?case by (auto simp: settled_def same_commit_def confirm_def guard_eval dget_dremove)
next
  case (reports g)
  then show ?case by (auto simp: settled_def same_commit_def take_rollback_def guard_eval dget_dremove)
next
  case (ticks t g)
  then show ?case by (simp add: settled_def same_commit_def)
qed

text \<open>Once an update is confirmed (nothing pending, no watchdog past its reading), whatever
  happens afterwards and whichever calls fail, the clone stays at its commit.\<close>

theorem confirmed_update_stays:
  assumes "runs g h" "settled g"
  shows "git_head h = git_head g \<and> bad_file h = bad_file g \<and> settled h"
  using assms
proof (induction rule: runs.induct)
  case (more g h k)
  then have "settled h" by blast
  from run_step_settled [OF more(2) this] more show ?case by (simp add: same_commit_def)
qed simp

theorem confirmed_update_stays_witness:
  "git_head (start (start demo_guard)) = ''new''"
proof -
  have "runs demo_guard (start (start demo_guard))"
    by (rule runs.more [OF runs.more [OF runs.here run_step.starts] run_step.starts])
  moreover have "settled demo_guard" by (simp add: settled_def demo_guard_def dget_def)
  ultimately show ?thesis using confirmed_update_stays [of demo_guard "start (start demo_guard)"]
    by (simp add: demo_guard_def)
qed

text \<open>The record and every decision of a watchdog name the same previous commit. What a computation
  may then do to the commit: leave it, or go to that one.\<close>

definition names_prev :: "string \<Rightarrow> pv \<Rightarrow> bool" where
  "names_prev p v = (case v of PDict d \<Rightarrow> dget d ''previous'' = PStr p | _ \<Rightarrow> True)"

definition towards :: "string \<Rightarrow> guard \<Rightarrow> guard \<Rightarrow> bool" where
  "towards p g h \<longleftrightarrow> git_head h \<in> {git_head g, p} \<and>
     (names_prev p (dget (gfiles g) PENDING) \<longrightarrow> names_prev p (dget (gfiles h) PENDING)) \<and>
     (dogs h = dogs g \<or> dogs h = [])"

interpretation gf: frame "towards p" for p
  by unfold_locales (auto simp: towards_def)

lemma towards_ops: "keeps (towards p) ext_op" "keeps (towards p) (guard_read n)" "keeps (towards p) head_commit"
  "keeps (towards p) (git_reset p)" "keeps (towards p) install_requirements" "keeps (towards p) (mark_bad v)"
  "keeps (towards p) (guard_remove n)" "keeps (towards p) (guard_write ROLLED_BACK d)"
  by (simp_all add: keeps_def guard_eval towards_def names_prev_def dget_dput dget_dremove file_names
      split: prod.splits sum.splits)

lemma towards_write: "dget d ''previous'' = PStr p \<Longrightarrow> keeps (towards p) (guard_write PENDING d)"
  by (simp add: keeps_def guard_eval towards_def names_prev_def split: prod.splits sum.splits)

lemma towards_rollback:
  assumes "names_prev p c"
  shows "keeps (towards p) (rollback c reason)"
proof (cases "rbind (vsub c ''previous'') as_str")
  case (Inl e)
  then show ?thesis by (simp add: rollback_def keeps_def py_simps gf.frame_refl)
next
  case (Inr q)
  then have "q = p" using assms
    by (cases c) (auto simp: names_prev_def rbind_eq_Inr dest: dsub_Inr)
  then have "rollback c reason = bnd (git_reset p) (\<lambda>_. snd (q, bnd (liftr (vget c ''requirements_changed'')) (\<lambda>rc.
     bnd (whenp (truthy rc) install_requirements) (\<lambda>_.
     bnd (liftr (vsub c ''version'')) (\<lambda>version.
     bnd (mark_bad version) (\<lambda>_.
     bnd (gets clock) (\<lambda>t.
     bnd (guard_write ROLLED_BACK
            [(''version'', version), (''previous'', PStr p), (''reason'', PStr reason), (''at'', PFloat t)]) (\<lambda>_.
     guard_remove PENDING))))))))"
    using Inr by (simp add: rollback_def liftr_def bnd_def fun_eq_iff)
  then show ?thesis by (auto intro!: gf.keeps_intros towards_ops)
qed

lemma towards_check_boot: "names_prev p st \<Longrightarrow> keeps (towards p) (check_boot st)"
proof -
  assume p: "names_prev p st"
  have d: "dget (dput d ''boots'' b) ''previous'' = PStr p" if "as_dict st = Inr d" for d b
    using p that by (cases st) (simp_all add: names_prev_def)
  have "keeps (towards p) (bnd (liftr (as_dict st)) (\<lambda>d.
            bnd (liftr (add_one (dgetd d ''boots'' (PInt 0)))) (\<lambda>boots.
            let state' = dput d ''boots'' boots in
            bnd (guard_write PENDING state') (\<lambda>_.
            bnd (liftr (num_res boots)) (\<lambda>n.
              if of_int MAX_BOOTS < n
              then bnd (rollback (PDict state') (''it did not start ('' @ str_of_int MAX_BOOTS @ '' attempts)'')) (\<lambda>_. ret None)
              else ret (Some (PDict state')))))))"
  proof (cases "as_dict st")
    case (Inl e)
    then show ?thesis by (simp add: keeps_def py_simps gf.frame_refl)
  next
    case (Inr d)
    have "bnd (liftr (Inr d :: doc res)) f = f d" for f :: "doc \<Rightarrow> (guard, pv option) py" by (simp add: bnd_def liftr_def)
    moreover have "names_prev p (PDict (dput d ''boots'' b))" for b using d [OF Inr] by (simp add: names_prev_def)
    ultimately show ?thesis unfolding Inr Let_def
      using d [OF Inr] by (auto intro!: gf.keeps_intros towards_write towards_rollback)
  qed
  then show ?thesis unfolding check_boot_def by (auto intro!: gf.keeps_intros towards_ops)
qed

definition two_commits :: "string \<Rightarrow> string \<Rightarrow> guard \<Rightarrow> bool" where
  "two_commits p q g \<longleftrightarrow> git_head g \<in> {p, q} \<and> names_prev p (dget (gfiles g) PENDING) \<and>
     (\<forall>c. Decided c \<in> set (dogs g) \<longrightarrow> names_prev p c)"

lemma towards_two: "towards p g h \<Longrightarrow> two_commits p q g \<Longrightarrow> two_commits p q h"
  by (auto simp: towards_def two_commits_def)

lemma read_value: "guard_read n g = (Inr v, h) \<Longrightarrow> v \<in> {PNone, dget (gfiles g) n} \<and> towards p g h"
  by (auto simp: guard_eval towards_def split: if_splits)

lemma on_start_two: "two_commits p q g \<Longrightarrow> two_commits p q (snd (on_start g))"
proof -
  assume a: "two_commits p q g"
  show ?thesis
  proof (cases "git_dir g")
    case False
    with a show ?thesis by (simp add: on_start_def py_simps)
  next
    case True
    obtain r h where rd: "guard_read PENDING g = (r, h)" by (cases "guard_read PENDING g")
    then obtain v where v: "r = Inr v" by (auto simp: guard_eval split: if_splits)
    from read_value [OF rd [unfolded v]] have vh: "v \<in> {PNone, dget (gfiles g) PENDING}" "towards p g h" by auto
    have np: "names_prev p v" using vh(1) a by (auto simp: two_commits_def names_prev_def)
    have h: "two_commits p q h" by (rule towards_two [OF vh(2) a])
    obtain r2 k where cb: "catch (check_boot v) (\<lambda>_. ret None) h = (r2, k)" by (cases "catch (check_boot v) (\<lambda>_. ret None) h")
    have "keeps (towards p) (catch (check_boot v) (\<lambda>_. ret None))"
      by (intro gf.keeps_catch towards_check_boot np gf.keeps_ret)
    from keepsD [OF this, of h] cb have "towards p h k" by simp
    then have k: "two_commits p q k" using towards_two h by blast
    then have "two_commits p q (k\<lparr>dogs := dogs k @ [Sleeping st]\<rparr>)" for st by (auto simp: two_commits_def)
    with k h show ?thesis using True rd v cb
      by (auto simp: on_start_def py_simps simp del: catch_run split: sum.split option.split)
  qed
qed

lemma run_step_two: "run_step g h \<Longrightarrow> two_commits p q g \<Longrightarrow> two_commits p q h"
proof (induction rule: run_step.induct)
  case (starts g)
  then have "two_commits p q (g\<lparr>dogs := []\<rparr>)" by (simp add: two_commits_def)
  from on_start_two [OF this] show ?case by (simp add: start_def)
next
  case (reads g ds st es r h)
  obtain r0 k where rd: "guard_read PENDING g = (r0, k)" by (cases "guard_read PENDING g")
  then obtain v where v: "r0 = Inr v" by (auto simp: guard_eval split: if_splits)
  from read_value [OF rd [unfolded v]] have vk: "v \<in> {PNone, dget (gfiles g) PENDING}" "towards p g k" by auto
  have np: "names_prev p v" using vk(1) reads(3) by (auto simp: two_commits_def names_prev_def)
  have "h = k \<and> set r \<subseteq> {Decided v}" using reads(2) rd v
    by (auto simp: dog_reads_def py_simps split: prod.splits sum.splits if_splits)
  with towards_two [OF vk(2) reads(3)] np reads(1,3) show ?case by (auto simp: two_commits_def)
next
  case (acts g ds c es)
  then have c: "names_prev p c" and g: "two_commits p q (g\<lparr>dogs := ds @ es\<rparr>)" by (auto simp: two_commits_def)
  have "keeps (towards p) (dog_acts c)"
    unfolding dog_acts_def
    by (intro gf.keeps_catch gf.keeps_bnd towards_rollback c gf.keeps_ret gf.keeps_modify) (simp add: towards_def)
  from towards_two [OF keepsD [OF this] g] show ?case .
next
  case (confirms g)
  have "keeps (towards p) confirm"
    unfolding confirm_def by (auto intro!: gf.keeps_intros towards_ops)
  from towards_two [OF keepsD [OF this] confirms] show ?case .
next
  case (reports g)
  have "keeps (towards p) take_rollback"
    unfolding take_rollback_def by (auto intro!: gf.keeps_intros towards_ops)
  from towards_two [OF keepsD [OF this] reports] show ?case .
next
  case (ticks t g)
  then show ?case by (simp add: two_commits_def)
qed

text \<open>C35: while an update from one commit to another is on trial, that is, the clone is at one of the two and every
  record of the update, in the file or with a watchdog that has made up its mind, names the first as the one before, it
  stays so and the clone stays at one of the two, whichever calls fail and however starts, watchdogs, confirmations and reports follow each other.\<close>

theorem update_two_commits:
  assumes "runs g h" "two_commits p q g"
  shows "git_head h \<in> {p, q} \<and> two_commits p q h"
proof -
  from assms have "two_commits p q h"
    by (induction rule: runs.induct) (auto dest: run_step_two)
  then show ?thesis by (simp add: two_commits_def)
qed

definition trial_guard :: guard where
  "trial_guard = demo_guard\<lparr>gfiles := [(PENDING, PDict (record_of ''old'' ''new'' False 0 1))],
     dogs := [Sleeping (PDict (record_of ''old'' ''new'' False 0 1))]\<rparr>"

theorem update_two_commits_witness:
  "git_head (start trial_guard) \<in> {''old'', ''new''}"
proof -
  have "runs trial_guard (start trial_guard)" by (rule runs.more [OF runs.here run_step.starts])
  moreover have "two_commits ''old'' ''new'' trial_guard"
    by (simp add: two_commits_def trial_guard_def demo_guard_def names_prev_def dget_def record_of_def)
  ultimately show ?thesis using update_two_commits by blast
qed

text \<open>The watchdog's reading of the record and its rollback are not one step: an update that is
  confirmed between the two is rolled back and remembered as bad all the same.\<close>

theorem watchdog_race:
  assumes "healthy g" "dget (gfiles g) PENDING = PDict (record_of p v rc t n)"
    and "dogs g = [Sleeping (PDict (record_of p v rc t m))]"
  shows "\<exists>h k. runs g h \<and> fst (confirm h) = Inr (PDict (record_of p v rc t n)) \<and>
    runs (snd (confirm h)) k \<and> git_head k = p \<and> bad_file k = Some v"
proof -
  let ?d = "PDict (record_of p v rc t n)"
  have g: "git_dir g" "\<And>n. \<not> fails g n" using assms(1) by (auto simp: healthy_def)
  let ?hr = "g\<lparr>ops := Suc (ops g)\<rparr>"
  have rd: "dog_reads (PDict (record_of p v rc t m)) g = (Inr [Decided ?d], ?hr)"
    using g assms(2) by (simp add: dog_reads_def guard_eval record_simps)
  let ?h = "?hr\<lparr>dogs := [Decided ?d]\<rparr>"
  have "run_step g ?h"
    using run_step.reads [of g "[]" "PDict (record_of p v rc t m)" "[]", OF _ rd] assms(3) by simp
  then have run: "runs g ?h" by (rule runs.more [OF runs.here])
  have hok: "healthy ?h" using assms(1) by (simp add: healthy_def)
  have cf: "fst (confirm ?h) = Inr ?d" using confirm_healthy [OF hok] assms(2) by simp
  let ?k = "snd (confirm ?h)"
  have kok: "git_dir ?k" "\<And>n. \<not> fails ?k n" and kd: "dogs ?k = [Decided ?d]"
    using confirm_healthy [OF hok] g by (auto simp: healthy_def confirm_def guard_eval)
  let ?kn = "?k\<lparr>dogs := []\<rparr>"
  have "git_dir ?kn" "\<And>n. \<not> fails ?kn n" using kok by simp_all
  from rollback_healthy [OF this, of p v rc t n "''no healthy reply within '' @ duration CONFIRM_SECONDS"] obtain u where
    u: "rollback ?d (''no healthy reply within '' @ duration CONFIRM_SECONDS) ?kn = (Inr (), u)" "git_head u = p" "bad_file u = Some v"
    by (elim exE conjE) (rule that)
  have "snd (dog_acts ?d ?kn) = u\<lparr>restarts := Suc (restarts u), dogs := []\<rparr>"
    using u(1) unfolding dog_acts_def by (simp only: catch_run bnd_run prod.case sum.case modify_run) simp
  moreover have "run_step ?k (snd (dog_acts ?d ?kn))"
    using run_step.acts [of ?k "[]" ?d "[]"] kd by (simp only: append_Nil append_Nil2)
  ultimately have "runs ?k (u\<lparr>restarts := Suc (restarts u), dogs := []\<rparr>)"
    using runs.more [OF runs.here] by metis
  with u run cf show ?thesis by (intro exI [of _ ?h] exI [of _ "u\<lparr>restarts := Suc (restarts u), dogs := []\<rparr>"]) simp
qed

theorem watchdog_race_witness:
  "\<exists>h k. runs trial_guard h \<and> fst (confirm h) = Inr (PDict (record_of ''old'' ''new'' False 0 1)) \<and>
    runs (snd (confirm h)) k \<and> git_head k = ''old''"
proof -
  have d: "dget (gfiles trial_guard) PENDING = PDict (record_of ''old'' ''new'' False 0 1)"
    by (simp add: trial_guard_def dget_def)
  have "\<exists>p v rc t n. record_of ''old'' ''new'' False 0 1 = record_of p v rc t n \<and> 0 \<le> n"
    by (rule exI [of _ "''old''"], rule exI [of _ "''new''"], rule exI [of _ False], rule exI [of _ 0], rule exI [of _ 1]) simp
  then have "healthy trial_guard"
    using d by (simp add: healthy_def) (simp add: trial_guard_def demo_guard_def)
  from watchdog_race [OF this d] show ?thesis by (simp add: trial_guard_def) blast
qed

end
