(* ===== verification/Steady.thy ===== *)
theory Steady
  imports MovieSearcher Scanner
begin

text \<open>
  What the handlers of the program have in common: none changes the clock or the listeners, and none
  tells a downloader to remove a download or to clean up after one (only the renamer does, on what
  the downloader reports). The locale proves both at once: a computation is \<open>fires Q\<close> for every predicate
  that restricts these two events only. The lemmas follow the structure of the definitions.
\<close>

locale calm =
  fixes Q :: "string \<times> pv list \<Rightarrow> bool"
  assumes others: "n \<notin> {''download.remove_failed'', ''download.process_complete''} \<Longrightarrow> Q (n, args)"
begin

lemma harm: "harmless Q"
  unfolding harmless_def special_def using others by blast

lemma calm_fire:
  "n \<notin> {''download.remove_failed'', ''download.process_complete''} \<Longrightarrow> keeps (fires Q) (fire n args)"
  "n \<notin> {''download.remove_failed'', ''download.process_complete''} \<Longrightarrow> keeps (fires Q) (fire_unit n args)"
  by (auto intro!: fires_fire fires_fire_unit others)

lemma calm_fire_async: "keeps (fires Q) (fire_async n args)"
  unfolding fire_async_def by (rule calm_fire) simp

lemmas calm_intros = fr.keeps_intros fires_on_db calm_fire calm_fire_async fires_call_handler

lemma calm_ro: "keeps (=) m \<Longrightarrow> keeps (fires Q) m"
  unfolding keeps_def by (metis fr.frame_refl)

section \<open>Media and releases\<close>

lemma calm_get_docs: "keeps (fires Q) (get_docs skip hs)"
  by (rule fires_get_docs)

lemma calm_forMedia_event: "keeps (fires Q) (forMedia_event i)"
  by (rule fires_forMedia_event)

lemma calm_media_tag: "keeps (fires Q) (media_tag i t u)"
  by (rule fires_media_tag)

lemma calm_restatus: "keeps (fires Q) (restatus i t a)"
  by (rule fires_restatus)

lemma calm_updateStatus: "keeps (fires Q) (updateStatus r s)"
  by (rule fires_updateStatus [OF harm])

lemma calm_media_get_event: "keeps (fires Q) (media_get_event i)"
  by (rule fires_media_get_event)

lemma calm_quality_single: "keeps (fires Q) (quality_single_event i)"
  by (rule fires_quality_single)

lemma calm_delete_release: "keeps (fires Q) (delete_release i)"
  unfolding delete_release_def by (auto intro!: calm_intros)

lemma calm_clean_release: "keeps (fires Q) (clean_release f i)"
  unfolding clean_release_def by (auto intro!: calm_intros calm_delete_release)

lemma calm_media_untag: "keeps (fires Q) (media_untag i t)"
  unfolding media_untag_def Let_def by (auto intro!: calm_intros)

lemma calm_media_delete: "keeps (fires Q) (media_delete i from)"
  unfolding media_delete_def delete_some_def Let_def
  by (auto intro!: calm_intros calm_forMedia_event calm_restatus calm_media_untag split: prod.splits)

lemma calm_ids_of: "keeps (fires Q) (ids_of n k)"
  unfolding ids_of_def by (intro calm_intros)

lemma calm_media_filters: "keeps (fires Q) (media_filters q)"
proof -
  have w: "keeps (fires Q) m \<Longrightarrow> keeps (fires Q) (when_list b m)" for b m
    by (simp add: when_list_def fr.keeps_bnd fr.keeps_ret)
  show ?thesis unfolding media_filters_def Let_def media_ids_with_status_def release_hits_with_status_def
    by (intro keeps_if calm_intros w calm_ids_of calm_get_docs)
qed

lemma calm_list_step: "keeps (fires Q) (list_step l m s)"
  unfolding list_step_def Let_def by (auto intro!: calm_intros calm_media_get_event split: option.split)

lemma calm_media_list: "keeps (fires Q) (media_list q)"
  unfolding media_list_def Let_def all_media_ids_def case_prod_beta
  by (intro keeps_if calm_intros calm_media_filters calm_list_step calm_ids_of)

section \<open>Movies\<close>

lemma calm_or_return:
  assumes "keeps (fires Q) m" "\<And>x. keeps (fires Q) (f x)"
  shows "keeps (fires Q) (or_return m d f)"
proof (rule keepsI)
  fix s
  have "or_return m d f s = (case m s of (Inl e, s') \<Rightarrow> (Inr d, s') | (Inr x, s') \<Rightarrow> f x s')" by (simp add: or_return_run)
  moreover have "fires Q s (snd (m s))" by (rule keepsD [OF assms(1)])
  moreover have "fires Q t (snd (f x t))" for x t by (rule keepsD [OF assms(2)])
  ultimately show "fires Q s (snd (or_return m d f s))"
    by (auto split: prod.splits sum.splits intro: fr.frame_trans)
qed

lemma calm_try_images: "keeps (fires Q) (try_images f xs d)"
  by (induction xs arbitrary: d) (auto intro!: calm_intros)

lemma calm_update_media: "keeps (fires Q) (update_media h isf t m i)"
  unfolding update_media_def Let_def by (intro calm_or_return calm_intros calm_try_images)

lemma calm_movie_update: "keeps (fires Q) (movie_update h isf stop i t d e)"
  unfolding movie_update_def Let_def
  by (auto intro!: calm_intros calm_update_media split: option.splits sum.splits)

lemma calm_remove_available: "keeps (fires Q) (remove_available i)"
  unfolding remove_available_def by (auto intro!: calm_intros calm_forMedia_event)

lemma calm_clean_history: "keeps (fires Q) (clean_history b i)"
  unfolding clean_history_def by (auto intro!: calm_intros calm_forMedia_event calm_updateStatus calm_delete_release)

lemma calm_previous_profile: "keeps (fires Q) (previous_profile d)"
  by (rule calm_ro [OF ro_previous_profile])

lemma calm_find_or_insert: "keeps (fires Q) (find_or_insert i d)"
  unfolding find_or_insert_def by (auto intro!: calm_intros calm_previous_profile split: option.split)

lemma calm_createOnComplete: "keeps (fires Q) (createOnComplete i)"
  unfolding createOnComplete_def by (auto intro!: calm_intros calm_media_get_event split: option.split)

lemma calm_add_to_database: "keeps (fires Q) (add_to_database p i t s d f r sa ua na)"
  unfolding add_to_database_def Let_def case_prod_beta
  by (auto intro!: calm_intros calm_media_get_event calm_remove_available calm_clean_history calm_find_or_insert
     calm_previous_profile calm_createOnComplete split: option.split)

lemma calm_movie_add: "keeps (fires Q) (movie_add p r sa ua na s)"
  unfolding movie_add_def wanted_info_def default_profile_def Let_def
  by (auto intro!: calm_intros calm_add_to_database split: option.split)

lemma calm_group_media: "keeps (fires Q) (group_media gr u)"
  unfolding group_media_def by (intro calm_intros calm_movie_add)

lemma calm_release_to_write: "keeps (fires Q) (release_to_write gr i m u)"
  unfolding release_to_write_def by (auto intro!: calm_intros split: option.split)

lemma calm_add_release: "keeps (fires Q) (add_release gr u i)"
  unfolding add_release_def by (intro calm_intros calm_restatus calm_group_media calm_release_to_write)

section \<open>The scan\<close>

lemma calm_stopping: "keeps (fires Q) stopping"
  unfolding stopping_def by (intro calm_intros) simp

lemma calm_next_round: "keeps (fires Q) (next_round a)"
  unfolding next_round_def by (intro calm_intros calm_stopping)

lemma calm_walk_files: "keeps (fires Q) (walk_files dk folder)"
  unfolding walk_files_def case_prod_beta by (intro fr.keeps_for_acc calm_next_round)

lemma calm_collect_file: "keeps (fires Q) (collect_file ou dk folder f s)"
  unfolding collect_file_def Let_def
  by (intro keeps_if calm_intros calm_next_round calm_ro [OF ro_quality_guess_file])

lemma calm_group_files: "keeps (fires Q) (group_files_by_name ou dk folder files)"
  unfolding group_files_by_name_def Let_def case_prod_beta name_round_def ident_round_def folder_round_def
  by (intro calm_intros calm_collect_file calm_next_round)

lemma calm_valid_groups: "keeps (fires Q) (valid_groups dk c n gs v)"
  by (induction dk c n gs v rule: valid_groups.induct) (auto simp: Let_def intro!: calm_intros calm_stopping)

lemma calm_quality_guess_files: "keeps (fires Q) (quality_guess_files ou fs d)"
  unfolding quality_guess_files_def guess_def by (auto intro!: calm_intros calm_ro [OF ro_all_qualities])

lemma calm_getMetaData: "keeps (fires Q) (getMetaData ou libs dk fs d folder rd)"
  unfolding getMetaData_def group_quality_def Let_def
  by (intro keeps_if calm_intros calm_quality_guess_files calm_quality_single)

lemma calm_imdb_of_search: "keeps (fires Q) (imdb_of_search ou f is)"
  by (induction ou f "is" rule: imdb_of_search.induct)
    (auto simp: Let_def movie_search_def intro!: calm_intros split: option.split)

lemma calm_determineMedia: "keeps (fires Q) (determineMedia ou dk ids d files rd)"
  unfolding determineMedia_def media_or_info_def Let_def
  by (auto intro!: calm_intros calm_imdb_of_search)

lemma calm_complete_group: "keeps (fires Q) (complete_group ou libs dk folder rd s g files)"
  unfolding complete_group_def Let_def by (intro calm_intros calm_getMetaData calm_determineMedia)

section \<open>The search for the next release, and a scan without a callback\<close>

lemma calm_getSearchProtocols: "keeps (fires Q) getSearchProtocols"
  unfolding getSearchProtocols_def by (auto intro!: calm_intros)

lemma calm_updateReleaseDate: "keeps (fires Q) (updateReleaseDate h isf stop i)"
  unfolding updateReleaseDate_def Let_def
  by (auto intro!: calm_intros calm_movie_update split: option.split)

lemma calm_search:
  assumes "\<And>m d. keeps (fires Q) (call_method ou m d)"
  shows "keeps (fires Q) (search_quality ou ps movie pr dates al ig fo iq st)"
proof -
  have u: "keeps (fires Q) (use_results ou movie q custom could t results st')" for q custom could t results st'
    by (rule fires_use_results [OF harm assms others]) simp
  have s: "keeps (fires Q) (searcher_search ps' movie q)" for ps' q
    by (rule fires_search) (rule others, simp)
  show ?thesis unfolding search_quality_def Let_def
    by (auto intro!: calm_intros calm_restatus calm_quality_single calm_media_get_event u s split: option.split)
qed

lemma calm_single_search:
  assumes "\<And>m d. keeps (fires Q) (call_method ou m d)"
  shows "keeps (fires Q) (single_search ou movie ps manual force)"
  unfolding single_search_def search_movie_def weekly_eta_def stop_after_search_def search_qualities_def
  by (auto intro!: calm_intros calm_getSearchProtocols calm_updateReleaseDate calm_search [OF assms] calm_restatus
      calm_media_delete calm_media_tag)

lemma calm_tryNextRelease:
  assumes "\<And>m d. keeps (fires Q) (call_method ou m d)"
  shows "keeps (fires Q) (tryNextRelease ou i manual force)"
  unfolding tryNextRelease_def ignore_snatched_def
  by (auto intro!: calm_intros calm_forMedia_event calm_updateStatus calm_media_get_event calm_single_search [OF assms]
      split: option.split)

lemma calm_complete_groups:
  "keeps (fires Q) (complete_groups own_world ou libs dk folder rd simple ri ig (\<lambda>_ _ _. ret ()) n gs d)"
proof (induction gs arbitrary: n d)
  case Nil
  show ?case by (simp add: fr.keeps_bnd fr.keeps_ret calm_stopping)
next
  case (Cons g gs)
  obtain i g' where g: "g = (i, g')" by (cases g)
  show ?case
    unfolding g complete_groups.simps Let_def via_own_world
    by (intro keeps_if fr.keeps_bnd fr.keeps_ret calm_stopping calm_complete_group Cons.IH)
qed

lemma calm_scan: "keeps (fires Q) (scan own_world ou libs dk (\<lambda>_ _ _. ret ()) sa)"
  unfolding scan_def Let_def case_prod_beta via_own_world
  by (intro keeps_if fr.keeps_bnd fr.keeps_ret calm_walk_files calm_group_files calm_valid_groups calm_complete_groups)

end

section \<open>The clock and the listeners\<close>

definition steady :: "world \<Rightarrow> world \<Rightarrow> bool" where
  "steady = fires (\<lambda>_. True)"

interpretation any: calm "\<lambda>_. True"
  by unfold_locales simp

interpretation st: frame steady
  unfolding steady_def by (rule fr.frame_axioms)

lemma steady_on_db: "keeps steady (on_db m)"
  by (simp add: steady_def fires_on_db)

lemma steady_fire: "keeps steady (fire n args)" "keeps steady (fire_unit n args)" "keeps steady (fire_async n args)"
  by (simp_all add: steady_def fires_fire fires_fire_unit fire_async_def)

lemma steady_call_handler: "keeps steady m \<Longrightarrow> keeps steady (call_handler m)"
  by (simp add: steady_def fires_call_handler)

lemmas steady_intros = st.keeps_intros steady_on_db steady_fire steady_call_handler

lemma steady_ans: "steady w v \<Longrightarrow> ans v = ans w \<and> now v = now w"
  by (simp add: steady_def fires_def)

lemmas steady_get_docs = any.calm_get_docs [folded steady_def]
lemmas steady_forMedia_event = any.calm_forMedia_event [folded steady_def]
lemmas steady_media_tag = any.calm_media_tag [folded steady_def]
lemmas steady_restatus = any.calm_restatus [folded steady_def]
lemmas steady_updateStatus = any.calm_updateStatus [folded steady_def]
lemmas steady_media_get_event = any.calm_media_get_event [folded steady_def]
lemmas steady_quality_single = any.calm_quality_single [folded steady_def]
lemmas steady_delete_release = any.calm_delete_release [folded steady_def]
lemmas steady_clean_release = any.calm_clean_release [folded steady_def]
lemmas steady_media_untag = any.calm_media_untag [folded steady_def]
lemmas steady_media_delete = any.calm_media_delete [folded steady_def]
lemmas steady_ids_of = any.calm_ids_of [folded steady_def]
lemmas steady_media_filters = any.calm_media_filters [folded steady_def]
lemmas steady_list_step = any.calm_list_step [folded steady_def]
lemmas steady_media_list = any.calm_media_list [folded steady_def]
lemmas steady_or_return = any.calm_or_return [folded steady_def]
lemmas steady_try_images = any.calm_try_images [folded steady_def]
lemmas steady_update_media = any.calm_update_media [folded steady_def]
lemmas steady_movie_update = any.calm_movie_update [folded steady_def]
lemmas steady_remove_available = any.calm_remove_available [folded steady_def]
lemmas steady_clean_history = any.calm_clean_history [folded steady_def]
lemmas steady_previous_profile = any.calm_previous_profile [folded steady_def]
lemmas steady_find_or_insert = any.calm_find_or_insert [folded steady_def]
lemmas steady_createOnComplete = any.calm_createOnComplete [folded steady_def]
lemmas steady_add_to_database = any.calm_add_to_database [folded steady_def]
lemmas steady_movie_add = any.calm_movie_add [folded steady_def]
lemmas steady_group_media = any.calm_group_media [folded steady_def]
lemmas steady_release_to_write = any.calm_release_to_write [folded steady_def]
lemmas steady_add_release = any.calm_add_release [folded steady_def]
lemmas steady_stopping = any.calm_stopping [folded steady_def]
lemmas steady_next_round = any.calm_next_round [folded steady_def]
lemmas steady_walk_files = any.calm_walk_files [folded steady_def]
lemmas steady_collect_file = any.calm_collect_file [folded steady_def]
lemmas steady_group_files = any.calm_group_files [folded steady_def]
lemmas steady_valid_groups = any.calm_valid_groups [folded steady_def]
lemmas steady_quality_guess_files = any.calm_quality_guess_files [folded steady_def]
lemmas steady_getMetaData = any.calm_getMetaData [folded steady_def]
lemmas steady_imdb_of_search = any.calm_imdb_of_search [folded steady_def]
lemmas steady_determineMedia = any.calm_determineMedia [folded steady_def]
lemmas steady_complete_group = any.calm_complete_group [folded steady_def]

text \<open>A relation on the state of a caller is kept by a scan when it is kept by the computations of the
  world and by the callback.\<close>

context frame
begin

lemma keeps_via:
  assumes "\<And>s w. steady (look v s) w \<Longrightarrow> R s (put_back v w s)" "keeps steady m"
  shows "keeps R (via v m)"
proof (rule keepsI)
  fix s
  have "steady (look v s) (snd (m (look v s)))" by (rule keepsD [OF assms(2)])
  with assms(1) show "R s (snd (via v m s))" by (simp add: via_run split_beta)
qed

lemma keeps_complete_groups:
  assumes view: "\<And>s w. steady (look v s) w \<Longrightarrow> R s (put_back v w s)"
    and found: "\<And>g n k. keeps R (on_found g n k)"
  shows "keeps R (complete_groups v ou libs dk folder rd simple ri ig on_found n gs d)"
proof (induction gs arbitrary: n d)
  case Nil
  show ?case by (simp add: keeps_bnd keeps_ret keeps_via [OF view steady_stopping])
next
  case (Cons g gs)
  obtain i g' where g: "g = (i, g')" by (cases g)
  show ?case
    unfolding g complete_groups.simps Let_def
    by (intro keeps_if keeps_bnd keeps_ret keeps_via [OF view] steady_stopping steady_complete_group found Cons.IH)
qed

lemma keeps_scan:
  assumes view: "\<And>s w. steady (look v s) w \<Longrightarrow> R s (put_back v w s)"
    and found: "\<And>g n k. keeps R (on_found g n k)"
  shows "keeps R (scan v ou libs dk on_found sa)"
  unfolding scan_def Let_def case_prod_beta
  by (intro keeps_if keeps_bnd keeps_ret keeps_via [OF view] steady_walk_files steady_group_files steady_valid_groups
    keeps_complete_groups [OF view found])

end

end
