(* ===== verification/FileSys.thy ===== *)
theory FileSys
  imports Disk ScanNames
begin

text \<open>
  A file system the renamer changes: files and symbolic links by path, folders by path, and the
  operations of \<open>os\<close> and \<open>shutil\<close> the program calls. Any operation may fail: \<open>f_fault\<close> says what happens
  to the n-th one that is tried, and nothing is assumed of it. Contents are opaque texts. Then the file
  operations of couchpotato/core/plugins/base.py and couchpotato/core/helpers/variable.py, and the
  pattern matching of \<open>fnmatch\<close>. Permissions are not modelled.
\<close>

section \<open>Files, links and folders\<close>

text \<open>A file has its size in MB, the time it was changed and its content.\<close>

datatype node = Regular rat rat string | Link string

text \<open>What can happen to an operation: it works; nothing happens and it raises; a copy of a file is cut
  short (to a size and content) and it raises; a move has copied the file, cannot remove the source,
  and raises.\<close>

datatype fault = Works | Denied | Cut rat string | Left_behind

record fsys =
  nodes :: "(string \<times> node) list"
  folders :: "string list"
  f_clock :: rat
  f_order :: "string list \<Rightarrow> string list"
  f_fault :: "nat \<Rightarrow> fault"
  f_ops :: nat

definition node_at :: "fsys \<Rightarrow> string \<Rightarrow> node option" where
  "node_at fs p = map_of (nodes fs) p"

definition put_node :: "string \<Rightarrow> node \<Rightarrow> fsys \<Rightarrow> fsys" where
  "put_node p n fs = fs\<lparr>nodes := AList.update p n (nodes fs)\<rparr>"

definition drop_node :: "string \<Rightarrow> fsys \<Rightarrow> fsys" where
  "drop_node p fs = fs\<lparr>nodes := AList.delete p (nodes fs)\<rparr>"

text \<open>Links are followed; a chain longer than the number of files is a cycle.\<close>

fun follow :: "nat \<Rightarrow> fsys \<Rightarrow> string \<Rightarrow> node option" where
  "follow 0 fs p = None"
| "follow (Suc n) fs p = (case node_at fs p of Some (Link t) \<Rightarrow> follow n fs t | x \<Rightarrow> x)"

definition file_at :: "fsys \<Rightarrow> string \<Rightarrow> node option" where
  "file_at fs p = follow (Suc (length (nodes fs))) fs p"

definition isdir :: "fsys \<Rightarrow> string \<Rightarrow> bool" where
  "isdir fs p = (p \<in> set (folders fs))"

definition isfile :: "fsys \<Rightarrow> string \<Rightarrow> bool" where
  "isfile fs p = (file_at fs p \<noteq> None)"

definition path_exists :: "fsys \<Rightarrow> string \<Rightarrow> bool" where
  "path_exists fs p = (isdir fs p \<or> isfile fs p)"

definition getsize :: "fsys \<Rightarrow> string \<Rightarrow> rat option" where
  "getsize fs p = (case file_at fs p of Some (Regular mb _ _) \<Rightarrow> Some mb | _ \<Rightarrow> None)"

definition below :: "string \<Rightarrow> string \<Rightarrow> bool" where
  "below base d = (d = base \<or> prefix (if suffix ''/'' base then base else base @ ''/'') d)"

text \<open>\<open>os.walk\<close>: the folders below one, each before what it holds, with the names of the files in each.\<close>

definition walk :: "fsys \<Rightarrow> string \<Rightarrow> (string \<times> string list) list" where
  "walk fs base = (if \<not> isdir fs base then [] else
     map (\<lambda>d. (d, map basename (filter (\<lambda>p. dirname p = d) (map fst (nodes fs)))))
       (sorted_by (split_on ''/'') (filter (below base) (folders fs))))"

definition walk_paths :: "fsys \<Rightarrow> string \<Rightarrow> string list" where
  "walk_paths fs base = concat (map (\<lambda>(root, names). map (join_path root) names) (walk fs base))"

text \<open>What a scan reads.\<close>

definition disk_of :: "fsys \<Rightarrow> disk" where
  "disk_of fs = \<lparr>d_isdir = isdir fs, d_exists = path_exists fs, d_isfile = isfile fs, d_size = getsize fs,
     d_mtime = (\<lambda>p. case file_at fs p of Some (Regular _ t _) \<Rightarrow> t | _ \<Rightarrow> 0), d_walk = walk fs,
     d_read = (\<lambda>p. case file_at fs p of Some (Regular _ _ b) \<Rightarrow> Some b | _ \<Rightarrow> None), set_order = f_order fs\<rparr>"

section \<open>The operations\<close>

definition attempt :: "(fsys, fault) py" where
  "attempt fs = (Inr (f_fault fs (f_ops fs)), fs\<lparr>f_ops := Suc (f_ops fs)\<rparr>)"

text \<open>An operation that works or does nothing: \<open>act\<close> is what it does, \<open>None\<close> where it must raise.\<close>

definition simple_op :: "(fsys \<Rightarrow> fsys option) \<Rightarrow> (fsys, unit) py" where
  "simple_op act = bnd attempt (\<lambda>x. bnd (gets act) (\<lambda>r.
     case r of Some fs' \<Rightarrow> if x = Works then modify (\<lambda>_. fs') else raise OSError | None \<Rightarrow> raise OSError))"

definition os_remove :: "string \<Rightarrow> (fsys, unit) py" where
  "os_remove p = simple_op (\<lambda>fs. if node_at fs p = None then None else Some (drop_node p fs))"

definition os_rename :: "string \<Rightarrow> string \<Rightarrow> (fsys, unit) py" where
  "os_rename a b = simple_op (\<lambda>fs. case node_at fs a of None \<Rightarrow> None
     | Some n \<Rightarrow> if isdir fs b \<or> \<not> isdir fs (dirname b) then None else Some (put_node b n (drop_node a fs)))"

definition os_link :: "string \<Rightarrow> string \<Rightarrow> (fsys, unit) py" where
  "os_link a b = simple_op (\<lambda>fs. case node_at fs a of None \<Rightarrow> None
     | Some n \<Rightarrow> if node_at fs b \<noteq> None \<or> isdir fs b \<or> \<not> isdir fs (dirname b) then None else Some (put_node b n fs))"

definition os_symlink :: "string \<Rightarrow> string \<Rightarrow> (fsys, unit) py" where
  "os_symlink target b = simple_op (\<lambda>fs.
     if node_at fs b \<noteq> None \<or> isdir fs b \<or> \<not> isdir fs (dirname b) then None else Some (put_node b (Link target) fs))"

definition os_rmdir :: "string \<Rightarrow> (fsys, unit) py" where
  "os_rmdir p = simple_op (\<lambda>fs.
     if \<not> isdir fs p \<or> list_ex (\<lambda>q. q \<noteq> p \<and> dirname q = p) (map fst (nodes fs) @ folders fs) then None
     else Some (fs\<lparr>folders := removeAll p (folders fs)\<rparr>))"

text \<open>\<open>os.makedirs\<close>: all folders of the path that are missing.\<close>

definition ancestors :: "string \<Rightarrow> string list" where
  "ancestors p = (let cs = split_on ''/'' p
     in filter (\<lambda>d. d \<noteq> []) (map (\<lambda>k. join ''/'' (take k cs)) [1..<Suc (length cs)]))"

definition os_makedirs :: "string \<Rightarrow> (fsys, unit) py" where
  "os_makedirs p = simple_op (\<lambda>fs. if list_ex (\<lambda>d. node_at fs d \<noteq> None) (ancestors p) \<or> isdir fs p then None
     else Some (fs\<lparr>folders := folders fs @ filter (\<lambda>d. \<not> isdir fs d) (ancestors p)\<rparr>))"

text \<open>\<open>shutil.move\<close> and \<open>shutil.copy\<close> of a file put it inside a destination that is a folder. A move may be a
  renaming or, between file systems, a copy followed by the removal of the source; a copy that is
  cut short is shorter than the file.\<close>

definition inside :: "fsys \<Rightarrow> string \<Rightarrow> string \<Rightarrow> string" where
  "inside fs a b = (if isdir fs b then join_path b (basename a) else b)"

definition cut_short :: "node \<Rightarrow> rat \<Rightarrow> string \<Rightarrow> rat \<Rightarrow> node option" where
  "cut_short n mb body t = (case n of Regular full _ _ \<Rightarrow> if mb < full then Some (Regular mb t body) else None
     | Link _ \<Rightarrow> None)"

definition shutil_move :: "string \<Rightarrow> string \<Rightarrow> (fsys, unit) py" where
  "shutil_move a b = bnd attempt (\<lambda>x. bnd (gets (\<lambda>fs. (node_at fs a, inside fs a b, fs))) (\<lambda>(src, b', fs).
     case src of
       None \<Rightarrow> raise OSError
     | Some n \<Rightarrow>
         if isdir fs b \<and> path_exists fs b' \<or> \<not> isdir fs (dirname b') then raise OSError
         else (case x of
             Works \<Rightarrow> modify (\<lambda>fs. put_node b' n (drop_node a fs))
           | Denied \<Rightarrow> raise OSError
           | Cut mb body \<Rightarrow> bnd (case cut_short n mb body (f_clock fs) of Some m \<Rightarrow> modify (put_node b' m) | None \<Rightarrow> ret ())
               (\<lambda>_. raise OSError)
           | Left_behind \<Rightarrow> bnd (modify (put_node b' n)) (\<lambda>_. raise OSError))))"

text \<open>\<open>shutil.copy\<close> reads through a link, writes a new file or over an old one, and then sets its mode.\<close>

definition shutil_copy :: "string \<Rightarrow> string \<Rightarrow> (fsys, unit) py" where
  "shutil_copy a b = bnd attempt (\<lambda>x. bnd (gets (\<lambda>fs. (file_at fs a, inside fs a b, fs))) (\<lambda>(src, b', fs).
     case src of
       Some (Regular mb _ body) \<Rightarrow>
         if \<not> isdir fs (dirname b') \<or> a = b' then raise OSError
         else (case x of
             Works \<Rightarrow> modify (put_node b' (Regular mb (f_clock fs) body))
           | Denied \<Rightarrow> raise OSError
           | Cut mb' body' \<Rightarrow>
               bnd (case cut_short (Regular mb 0 body) mb' body' (f_clock fs) of Some m \<Rightarrow> modify (put_node b' m) | None \<Rightarrow> ret ())
                 (\<lambda>_. raise OSError)
           | Left_behind \<Rightarrow> bnd (modify (put_node b' (Regular mb (f_clock fs) body))) (\<lambda>_. raise OSError))
     | _ \<Rightarrow> raise OSError))"

section \<open>The plugin's file operations\<close>

definition makeDir :: "string \<Rightarrow> (fsys, bool) py" where
  "makeDir path0 = (let path = sp path0 in
     catch (bnd (gets (\<lambda>fs. isdir fs path)) (\<lambda>there.
            bnd (if there then ret () else os_makedirs path) (\<lambda>_. ret True))) (\<lambda>_. ret False))"

text \<open>The content is a text. When it cannot be written, a file that is there is removed.\<close>

definition text_mb :: "string \<Rightarrow> rat" where
  "text_mb s = of_nat (length s) / (1024 * 1024)"

definition write_file :: "string \<Rightarrow> string \<Rightarrow> (fsys, unit) py" where
  "write_file p body = bnd attempt (\<lambda>x. bnd (gets id) (\<lambda>fs.
     if isdir fs p \<or> \<not> isdir fs (dirname p) \<or> x = Denied then raise OSError
     else case x of
       Cut mb part \<Rightarrow> bnd (modify (put_node p (Regular (text_mb part) (f_clock fs) part))) (\<lambda>_. raise OSError)
     | Left_behind \<Rightarrow> raise OSError
     | _ \<Rightarrow> modify (put_node p (Regular (text_mb body) (f_clock fs) body))))"

definition createFile :: "string \<Rightarrow> string \<Rightarrow> (fsys, unit) py" where
  "createFile path0 body = (let path = sp path0 in
     bnd (makeDir (dirname path)) (\<lambda>_.
     catch (write_file path body) (\<lambda>_.
       bnd (gets (\<lambda>fs. isfile fs path)) (\<lambda>there. whenp there (os_remove path)))))"

text \<open>\<open>deleteEmptyFolder\<close>: every folder below it that is empty, the deeper ones first.\<close>

definition listdir :: "string \<Rightarrow> (fsys, string list) py" where
  "listdir p = bnd (gets id) (\<lambda>fs.
     if \<not> isdir fs p then raise OSError
     else ret (map basename (filter (\<lambda>q. q \<noteq> p \<and> dirname q = p) (map fst (nodes fs) @ folders fs))))"

definition try_rmdir :: "string \<Rightarrow> (fsys, unit) py" where
  "try_rmdir p = catch (os_rmdir p) (\<lambda>_. ret ())"

definition deleteEmptyFolder :: "string \<Rightarrow> (fsys, unit) py" where
  "deleteEmptyFolder folder0 = (let folder = sp folder0 in
     bnd (listdir folder) (\<lambda>items.
     bnd (for_each items (\<lambda>item.
        bnd (gets (\<lambda>fs. map fst (walk fs (sp (join_path folder item))))) (\<lambda>subs.
        for_each (rev subs) try_rmdir))) (\<lambda>_.
     try_rmdir folder)))"

section \<open>Sizes\<close>

text \<open>\<open>getSize\<close>: a folder resets the sum to what it holds. A link in it that leads nowhere raises.\<close>

definition sum_sizes :: "fsys \<Rightarrow> string list \<Rightarrow> rat res" where
  "sum_sizes fs ps = rbind (mapr (\<lambda>p. case getsize fs p of Some n \<Rightarrow> Inr n | None \<Rightarrow> Inl OSError) ps) (\<lambda>ns. Inr (sum_list ns))"

definition getSize :: "fsys \<Rightarrow> string list \<Rightarrow> rat res" where
  "getSize fs paths = foldl (\<lambda>acc path0. let path = sp path0 in
     rbind acc (\<lambda>n.
       if isdir fs path then sum_sizes fs (map sp (walk_paths fs path))
       else if isfile fs path then rbind (sum_sizes fs [path]) (\<lambda>m. Inr (n + m))
       else Inr n)) (Inr 0) paths"

section \<open>Patterns of file names\<close>

text \<open>A set in brackets, without its closing bracket: single characters and ranges.\<close>

fun in_set :: "string \<Rightarrow> char \<Rightarrow> bool" where
  "in_set (a # CHR ''-'' # b # cs) c = (cp a \<le> cp c \<and> cp c \<le> cp b \<or> in_set cs c)"
| "in_set (a # cs) c = (a = c \<or> in_set cs c)"
| "in_set [] c = False"

text \<open>The end of the set: a bracket that comes first belongs to it.\<close>

definition bracket_set :: "string \<Rightarrow> (string \<times> string) option" where
  "bracket_set cs =
     (let neg = takeWhile (\<lambda>c. c = CHR ''!'') (take 1 cs);
          rest = drop (length neg) cs;
          first = takeWhile (\<lambda>c. c = CHR '']'') (take 1 rest);
          body = takeWhile (\<lambda>c. c \<noteq> CHR '']'') (drop (length first) rest);
          after = drop (length first + length body) rest
      in if after = [] then None else Some (neg @ first @ body, tl after))"

lemma bracket_set_shorter: "bracket_set cs = Some (s, rest) \<Longrightarrow> length rest < length cs"
  by (auto simp: bracket_set_def Let_def split: if_splits)

definition set_matches :: "string \<Rightarrow> char \<Rightarrow> bool" where
  "set_matches s c = (if prefix ''!'' s then \<not> in_set (tl s) c else in_set s c)"

function fnmatch :: "string \<Rightarrow> string \<Rightarrow> bool" where
  "fnmatch [] t = (t = [])"
| "fnmatch (p # ps) t =
     (if p = CHR ''*'' then fnmatch ps t \<or> (if t = [] then False else fnmatch (p # ps) (tl t))
      else if t = [] then False
      else if p = CHR ''?'' then fnmatch ps (tl t)
      else if p = CHR ''['' then
        (case bracket_set ps of
           None \<Rightarrow> hd t = p \<and> fnmatch ps (tl t)
         | Some (s, rest) \<Rightarrow> set_matches s (hd t) \<and> fnmatch rest (tl t))
      else hd t = p \<and> fnmatch ps (tl t))"
  by pat_completeness auto

termination
  by (relation "measure (\<lambda>(p, t). length p + length t)")
    (auto dest: bracket_set_shorter simp: less_Suc_eq_le intro: add_less_le_mono)

end
