(* ===== verification/RenamerFiles.thy ===== *)
theory RenamerFiles
  imports FileSys World
begin

text \<open>
  couchpotato/core/plugins/renamer.py, what it does to files: moving, copying or linking a file to the
  library (\<open>moveFile\<close>), and the \<open>.ignore\<close> files by which it marks a release (\<open>tagRelease\<close>,
  \<open>untagRelease\<close>, \<open>hastagRelease\<close>). The plugin's state is the world, the file system and its two flags.
\<close>

record rstate =
  rw :: world
  rfs :: fsys
  renaming_started :: bool
  checking_snatched :: bool

definition rview :: "rstate world_view" where
  "rview = \<lparr>look = rw, put_back = (\<lambda>w s. s\<lparr>rw := w\<rparr>)\<rparr>"

definition on_w :: "(world, 'a) py \<Rightarrow> (rstate, 'a) py" where
  "on_w m = via rview m"

definition on_fs :: "(fsys, 'a) py \<Rightarrow> (rstate, 'a) py" where
  "on_fs m = (\<lambda>s. case m (rfs s) of (r, f) \<Rightarrow> (r, s\<lparr>rfs := f\<rparr>))"

definition rconf :: "string \<Rightarrow> (rstate, pv) py" where
  "rconf attr = gets (\<lambda>s. conf (rw s) ''renamer'' attr)"

definition readf :: "(fsys \<Rightarrow> 'a) \<Rightarrow> (rstate, 'a) py" where
  "readf f = gets (\<lambda>s. f (rfs s))"

lemma on_w_run [py_simps]: "on_w m s = (case m (rw s) of (r, w) \<Rightarrow> (r, s\<lparr>rw := w\<rparr>))"
  by (simp add: on_w_def via_run rview_def)

lemma on_fs_run [py_simps]: "on_fs m s = (case m (rfs s) of (r, f) \<Rightarrow> (r, s\<lparr>rfs := f\<rparr>))"
  by (simp add: on_fs_def)

section \<open>Moving a file\<close>

definition by_move :: "string \<Rightarrow> string \<Rightarrow> (fsys, unit) py" where
  "by_move old dest =
     catch (shutil_move old dest) (\<lambda>e.
       bnd (gets (\<lambda>fs. (path_exists fs dest, getsize fs old, getsize fs dest))) (\<lambda>(there, n, m).
       if there
       then (case n of
           None \<Rightarrow> raise OSError
         | Some a \<Rightarrow> if m = Some a then os_remove old else bnd (os_remove dest) (\<lambda>_. raise e))
       else raise e))"

text \<open>A move that fails here is only logged.\<close>

definition by_symlink_reversed :: "string \<Rightarrow> string \<Rightarrow> (fsys, unit) py" where
  "by_symlink_reversed old dest =
     bnd (catch (shutil_move old dest) (\<lambda>_. ret ())) (\<lambda>_. catch (os_symlink dest old) (\<lambda>_. ret ()))"

definition by_link :: "string \<Rightarrow> string \<Rightarrow> (fsys, unit) py" where
  "by_link old dest =
     catch (os_link old dest) (\<lambda>_.
       bnd (shutil_copy old dest) (\<lambda>_.
       catch (bnd (os_symlink dest (sp old @ ''.link'')) (\<lambda>_.
              bnd (os_remove old) (\<lambda>_.
              os_rename (sp old @ ''.link'') old))) (\<lambda>_. ret ())))"

definition move_as :: "pv \<Rightarrow> string \<Rightarrow> string \<Rightarrow> (fsys, unit) py" where
  "move_as move_type old dest0 = (let dest = sp dest0 in
     bnd (gets (\<lambda>fs. path_exists fs dest \<and> isfile fs dest)) (\<lambda>there.
     if there then raise (UserError ''Destination already exists'')
     else if move_type \<notin> {PStr ''copy'', PStr ''link'', PStr ''symlink_reversed''} then by_move old dest
     else if move_type = PStr ''copy'' then shutil_copy old dest
     else if move_type = PStr ''symlink_reversed'' then by_symlink_reversed old dest
     else by_link old dest))"

definition moveFile :: "string \<Rightarrow> string \<Rightarrow> bool \<Rightarrow> (rstate, unit) py" where
  "moveFile old dest use_default =
     bnd (rconf (if use_default then ''default_file_action'' else ''file_action'')) (\<lambda>move_type.
     on_fs (move_as move_type old dest))"

section \<open>Marking a release\<close>

definition tag_text :: "string \<Rightarrow> string" where
  "tag_text tag = ''This file is from CouchPotato'' @ [CHR 0x0A] @ ''It has marked this release as '' @ [CHR 0x22] @ tag
     @ [CHR 0x22, CHR 0x0A] @ ''This file hides the release from the renamer'' @ [CHR 0x0A]
     @ ''Remove it if you want it to be renamed (again, or at least let it try again)'' @ [CHR 0x0A]"

definition ext_of :: "string \<Rightarrow> string" where
  "ext_of p = drop (length (splitext_root p)) p"

text \<open>The text list a dict holds under a key; anything else is no list.\<close>

definition str_list :: "pv \<Rightarrow> string list" where
  "str_list v = (case v of PList xs \<Rightarrow> map str_or_empty xs | _ \<Rightarrow> [])"

definition files_of_kind :: "doc \<Rightarrow> string \<Rightarrow> string list res" where
  "files_of_kind group0 kind = rbind (dsub group0 ''files'') (\<lambda>fs. rbind (vsub fs kind) (\<lambda>l. Inr (str_list l)))"

definition first_movie :: "doc \<Rightarrow> string res" where
  "first_movie group0 = rbind (files_of_kind group0 ''movie'') (\<lambda>ms. nth_res (sorted_by id ms) 0)"

definition tag_file :: "string \<Rightarrow> string \<Rightarrow> (fsys, unit) py" where
  "tag_file tag f = (if ext_of f = ''.ignore'' then ret ()
     else let name = splitext_root f @ ''.'' @ tag @ ''.ignore'' in
       bnd (gets (\<lambda>fs. isfile fs name)) (\<lambda>there. whenp (\<not> there) (createFile name (tag_text tag))))"

text \<open>The files of a download that are known, or all files of its folder.\<close>

definition download_files :: "fsys \<Rightarrow> doc \<Rightarrow> string list res" where
  "download_files fs release_download =
     (if truthy (dget release_download ''files'')
      then Inr (filter (path_exists fs) (str_list (dget release_download ''files'')))
      else rbind (dsub release_download ''folder'') (\<lambda>f.
        if truthy f then rbind (as_str f) (\<lambda>p. Inr (walk_paths fs (sp p))) else Inr []))"

definition tag_group :: "string \<Rightarrow> doc \<Rightarrow> (rstate, unit) py" where
  "tag_group tag group0 = (if tag = [] then ret ()
     else bnd (liftr (first_movie group0)) (\<lambda>f. on_fs (tag_file tag f)))"

definition tag_download :: "string \<Rightarrow> doc \<Rightarrow> (rstate, unit) py" where
  "tag_download tag release_download = (if tag = [] then ret ()
     else bnd (readf (\<lambda>fs. download_files fs release_download)) (\<lambda>fs.
          bnd (liftr fs) (\<lambda>files. on_fs (for_each files (tag_file tag)))))"

text \<open>The ignore files below a folder that carry a tag, and those of them that belong to a file.\<close>

definition ignore_files :: "fsys \<Rightarrow> string \<Rightarrow> string \<Rightarrow> string list" where
  "ignore_files fs folder tag = filter (fnmatch (''*'' @ tag @ ''.ignore'')) (map sp (walk_paths fs folder))"

definition ignores_of :: "string \<Rightarrow> string \<Rightarrow> string list \<Rightarrow> string list" where
  "ignores_of tag f igs =
     filter (fnmatch (fnEscape (splitext_root f @ ''.'' @ (if tag = [] then ''*'' else tag) @ ''.ignore''))) igs"

text \<open>\<open>hastagRelease\<close> takes a text for the name of a single file; \<open>untagRelease\<close> goes through its characters.\<close>

definition walked_files :: "fsys \<Rightarrow> string \<Rightarrow> string list" where
  "walked_files fs folder = map sp (filter (\<lambda>p. ext_of p \<noteq> ''.ignore'') (walk_paths fs folder))"

definition has_files :: "fsys \<Rightarrow> string \<Rightarrow> doc \<Rightarrow> string list" where
  "has_files fs folder release_download =
     (if truthy (dget release_download ''files'')
      then (case dget release_download ''files'' of PStr f \<Rightarrow> [f] | v \<Rightarrow> str_list v)
      else walked_files fs folder)"

definition untag_files :: "fsys \<Rightarrow> string \<Rightarrow> doc \<Rightarrow> string list" where
  "untag_files fs folder release_download =
     (if truthy (dget release_download ''files'')
      then (case dget release_download ''files'' of PStr f \<Rightarrow> map (\<lambda>c. [c]) f | v \<Rightarrow> str_list v)
      else walked_files fs folder)"

definition remove_ignores :: "string \<Rightarrow> string list \<Rightarrow> string list \<Rightarrow> (fsys, unit) py" where
  "remove_ignores tag files igs =
     for_each files (\<lambda>f. for_each (ignores_of tag f igs) (\<lambda>i. catch (os_remove i) (\<lambda>_. ret ())))"

definition untag_download :: "string \<Rightarrow> doc \<Rightarrow> (rstate, unit) py" where
  "untag_download tag release_download = (if release_download = [] then ret ()
     else bnd (liftr (rbind (dsub release_download ''folder'') as_str)) (\<lambda>f0. let folder = sp f0 in
       bnd (readf (\<lambda>fs. fs)) (\<lambda>fs.
       if \<not> isdir fs folder \<or> folder = [] then ret ()
       else on_fs (remove_ignores tag (untag_files fs folder release_download) (ignore_files fs folder tag)))))"

definition hastagRelease :: "string \<Rightarrow> doc \<Rightarrow> (rstate, bool) py" where
  "hastagRelease tag release_download = (if release_download = [] then ret False
     else bnd (liftr (rbind (dsub release_download ''folder'') as_str)) (\<lambda>f0. let folder = sp f0 in
       readf (\<lambda>fs. isdir fs folder \<and>
         list_ex (\<lambda>f. ignores_of tag f (ignore_files fs folder tag) \<noteq> []) (has_files fs folder release_download))))"

section \<open>A moved file is not lost\<close>

definition holds_body :: "fsys \<Rightarrow> string \<Rightarrow> rat \<Rightarrow> string \<Rightarrow> bool" where
  "holds_body fs p mb body \<longleftrightarrow> (\<exists>t. node_at fs p = Some (Regular mb t body))"

definition same_but :: "string set \<Rightarrow> fsys \<Rightarrow> fsys \<Rightarrow> bool" where
  "same_but ps fs fs' \<longleftrightarrow> folders fs' = folders fs \<and> (\<forall>p. p \<notin> ps \<longrightarrow> node_at fs' p = node_at fs p)"

lemma node_at_put [simp]: "node_at (put_node p n fs) q = (if q = p then Some n else node_at fs q)"
  by (simp add: node_at_def put_node_def update_conv')

lemma node_at_drop [simp]: "node_at (drop_node p fs) q = (if q = p then None else node_at fs q)"
  by (simp add: node_at_def drop_node_def delete_conv')

lemma fs_fields [simp]:
  "folders (put_node p n fs) = folders fs" "folders (drop_node p fs) = folders fs"
  "node_at (fs\<lparr>f_ops := k\<rparr>) = node_at fs" "isdir (fs\<lparr>f_ops := k\<rparr>) = isdir fs"
  by (simp_all add: put_node_def drop_node_def node_at_def isdir_def fun_eq_iff)

lemma file_at_Regular [simp]: "node_at fs p = Some (Regular mb t b) \<Longrightarrow> file_at fs p = Some (Regular mb t b)"
  by (simp add: file_at_def)

lemma file_at_count [simp]: "file_at (fs\<lparr>f_ops := k\<rparr>) p = file_at fs p"
proof -
  have "follow n (fs\<lparr>f_ops := k\<rparr>) q = follow n fs q" for n q
    by (induction n arbitrary: q) (auto split: option.splits node.splits)
  then show ?thesis by (simp add: file_at_def)
qed

lemma simple_op_cases:
  assumes "simple_op act fs = (r, fs')"
  obtains (worked) fs1 where "r = Inr ()" "act (fs\<lparr>f_ops := Suc (f_ops fs)\<rparr>) = Some fs1" "fs' = fs1"
  | (failed) "r = Inl OSError" "fs' = fs\<lparr>f_ops := Suc (f_ops fs)\<rparr>"
  using assms by (auto simp: simple_op_def attempt_def py_simps split: option.splits if_splits)

lemma os_remove_step:
  "os_remove p fs = (r, fs') \<Longrightarrow> same_but {p} fs fs' \<and> (r = Inl OSError \<longrightarrow> same_but {} fs fs')"
  unfolding os_remove_def by (erule simple_op_cases) (auto simp: same_but_def split: if_splits)

lemma shutil_move_step:
  assumes "shutil_move a d fs = (r, fs')" "node_at fs a = Some (Regular mb t body)" "\<not> isdir fs d" "a \<noteq> d"
  shows "same_but {a, d} fs fs' \<and>
    (r = Inr () \<longrightarrow> holds_body fs' d mb body) \<and>
    (r \<noteq> Inr () \<longrightarrow> r = Inl OSError \<and> holds_body fs' a mb body \<and>
       (fs' = fs\<lparr>f_ops := Suc (f_ops fs)\<rparr> \<or> holds_body fs' d mb body \<or> (\<exists>mb' b'. mb' < mb \<and> holds_body fs' d mb' b')))"
proof (cases "f_fault fs (f_ops fs)")
  case (Cut m b)
  then show ?thesis using assms
    by (cases "m < mb") (auto simp: shutil_move_def attempt_def py_simps inside_def same_but_def holds_body_def cut_short_def
        split: if_splits)
qed (use assms in \<open>auto simp: shutil_move_def attempt_def py_simps inside_def same_but_def holds_body_def split: if_splits\<close>)

lemma shutil_copy_step:
  assumes "shutil_copy a d fs = (r, fs')" "node_at fs a = Some (Regular mb t body)" "\<not> isdir fs d" "a \<noteq> d"
  shows "same_but {d} fs fs' \<and> (r = Inr () \<longrightarrow> holds_body fs' d mb body)"
proof (cases "f_fault fs (f_ops fs)")
  case (Cut m b)
  then show ?thesis using assms
    by (cases "m < mb") (auto simp: shutil_copy_def attempt_def py_simps inside_def same_but_def holds_body_def cut_short_def
        split: if_splits)
qed (use assms in \<open>auto simp: shutil_copy_def attempt_def py_simps inside_def same_but_def holds_body_def split: if_splits\<close>)

lemma same_but_trans: "same_but A fs1 fs2 \<Longrightarrow> same_but B fs2 fs3 \<Longrightarrow> A \<union> B \<subseteq> C \<Longrightarrow> same_but C fs1 fs3"
  by (auto simp: same_but_def) (metis subsetD)

lemma same_but_refl: "same_but A fs fs"
  by (simp add: same_but_def)

lemma holds_same: "same_but A fs fs' \<Longrightarrow> p \<notin> A \<Longrightarrow> holds_body fs' p mb b = holds_body fs p mb b"
  by (simp add: same_but_def holds_body_def)

lemma holds_size: "holds_body fs p mb b \<Longrightarrow> getsize fs p = Some mb \<and> isfile fs p"
  by (auto simp: holds_body_def getsize_def isfile_def)

definition kept :: "string \<Rightarrow> string \<Rightarrow> rat \<Rightarrow> string \<Rightarrow> unit res \<Rightarrow> fsys \<Rightarrow> bool" where
  "kept a d mb body r fs \<longleftrightarrow> (holds_body fs a mb body \<or> holds_body fs d mb body) \<and> (r = Inr () \<longrightarrow> holds_body fs d mb body)"

lemma by_move_keeps:
  assumes "by_move a d fs = (r, fs')" "node_at fs a = Some (Regular mb t body)" "\<not> isdir fs d" "\<not> isfile fs d"
  shows "same_but {a, d} fs fs' \<and> kept a d mb body r fs'"
proof -
  have ad: "a \<noteq> d" using assms(2,4) by (auto simp: isfile_def)
  obtain r1 f1 where m: "shutil_move a d fs = (r1, f1)" by (cases "shutil_move a d fs")
  note step = shutil_move_step [OF m assms(2,3) ad]
  show ?thesis
  proof (cases r1)
    case (Inr u)
    with assms(1) m have "r = Inr ()" "fs' = f1" by (auto simp: by_move_def py_simps)
    with step Inr show ?thesis by (simp add: kept_def)
  next
    case (Inl e)
    with step have a: "holds_body f1 a mb body" and sb: "same_but {a, d} fs f1" by auto
    have run: "(if path_exists f1 d then
        (case getsize f1 a of None \<Rightarrow> raise OSError
         | Some n \<Rightarrow> if getsize f1 d = Some n then os_remove a else bnd (os_remove d) (\<lambda>_. raise e))
        else raise e) f1 = (r, fs')"
      using assms(1) m Inl by (simp add: by_move_def py_simps)
    have nd: "\<not> isdir f1 d" using sb assms(3) by (simp add: same_but_def isdir_def)
    show ?thesis
    proof (cases "path_exists f1 d")
      case False
      with run have "r = Inl e" "fs' = f1" by (simp_all add: raise_run)
      with a sb show ?thesis by (simp add: kept_def)
    next
      case True
      from step Inl consider (none) "f1 = fs\<lparr>f_ops := Suc (f_ops fs)\<rparr>" | (whole) "holds_body f1 d mb body"
        | (part) mb' b' where "mb' < mb" "holds_body f1 d mb' b'" by auto
      then show ?thesis
      proof cases
        case none
        with True assms(3,4) show ?thesis by (simp add: path_exists_def isfile_def)
      next
        case whole
        with run True a have "os_remove a f1 = (r, fs')" by (simp add: holds_size)
        from conjunct1 [OF os_remove_step [OF this]] whole ad sb show ?thesis
          by (auto simp: kept_def holds_same intro: same_but_trans)
      next
        case part
        with run True a have "bnd (os_remove d) (\<lambda>_. raise e) f1 = (r, fs')" by (simp add: holds_size)
        then obtain r2 where "os_remove d f1 = (r2, fs')" "r \<noteq> Inr ()"
          by (auto simp: py_simps split: prod.splits sum.splits)
        from conjunct1 [OF os_remove_step [OF this(1)]] this(2) a ad sb show ?thesis
          by (auto simp: kept_def holds_same intro: same_but_trans)
      qed
    qed
  qed
qed

lemma by_link_keeps:
  assumes "by_link a d fs = (r, fs')" "node_at fs a = Some (Regular mb t body)" "\<not> isdir fs d" "\<not> isfile fs d"
  shows "same_but {a, d, sp a @ ''.link''} fs fs' \<and> kept a d mb body r fs'"
proof -
  let ?l = "sp a @ ''.link''"
  have ad: "a \<noteq> d" using assms(2,4) by (auto simp: isfile_def)
  obtain r1 f1 where m: "os_link a d fs = (r1, f1)" by (cases "os_link a d fs")
  from m [unfolded os_link_def] show ?thesis
  proof (cases rule: simple_op_cases)
    case (worked g)
    with assms(1) m have "r = Inr ()" "fs' = f1" by (auto simp: by_link_def py_simps)
    with worked assms(2) show ?thesis
      by (auto simp: kept_def holds_body_def same_but_def split: if_splits)
  next
    case failed
    then have same: "same_but {} fs f1" by (simp add: same_but_def)
    obtain r2 f2 where c: "shutil_copy a d f1 = (r2, f2)" by (cases "shutil_copy a d f1")
    have "node_at f1 a = Some (Regular mb t body)" "\<not> isdir f1 d" using failed assms(2,3) by auto
    note copy = shutil_copy_step [OF c this ad]
    have sb: "same_but {d} fs f2" using same_but_trans [OF same conjunct1 [OF copy]] by simp
    have a2: "holds_body f2 a mb body" using sb assms(2) ad by (simp add: same_but_def holds_body_def)
    show ?thesis
    proof (cases r2)
      case (Inl e)
      with assms(1) m failed c have "r = Inl e" "fs' = f2" by (auto simp: by_link_def py_simps)
      with a2 sb show ?thesis by (auto simp: kept_def intro: same_but_trans [OF _ same_but_refl])
    next
      case (Inr u)
      with copy have d2: "holds_body f2 d mb body" by simp
      obtain r3 f3 where y: "os_symlink d ?l f2 = (r3, f3)" by (cases "os_symlink d ?l f2")
      from y [unfolded os_symlink_def] show ?thesis
      proof (cases rule: simple_op_cases)
        case failed3: failed
        with assms(1) m failed c Inr y have "r = Inr ()" "fs' = f2\<lparr>f_ops := Suc (f_ops f2)\<rparr>"
          by (auto simp: by_link_def py_simps)
        with d2 sb show ?thesis by (auto simp: kept_def holds_body_def same_but_def)
      next
        case (worked g)
        then have l: "node_at f2 ?l = None" by (auto split: if_splits)
        then have ld: "?l \<noteq> d" using d2 by (auto simp: holds_body_def)
        have s3: "same_but {?l} f2 f3" using worked by (auto simp: same_but_def split: if_splits)
        obtain r4 f4 where x: "os_remove a f3 = (r4, f4)" by (cases "os_remove a f3")
        note s4 = conjunct1 [OF os_remove_step [OF x]]
        obtain r5 f5 where n: "os_rename ?l a f4 = (r5, f5)" by (cases "os_rename ?l a f4")
        have s5: "same_but {?l, a} f4 f5"
          using n unfolding os_rename_def
          by (rule simple_op_cases) (auto simp: same_but_def split: if_splits option.splits)
        have fin: "r = Inr ()" "fs' = f4 \<or> fs' = f5"
          using assms(1) m failed c Inr y worked x n by (auto simp: by_link_def py_simps split: sum.splits)
        have "same_but {a, ?l} f2 f4" by (rule same_but_trans [OF s3 s4]) simp
        moreover from this s5 have "same_but {a, ?l} f2 f5" by (rule same_but_trans) auto
        ultimately have "same_but {a, ?l} f2 fs'" using fin(2) by auto
        from same_but_trans [OF sb this] holds_same [OF this] d2 fin(1) ad ld show ?thesis
          by (auto simp: kept_def)
      qed
    qed
  qed
qed

lemma by_symlink_reversed_keeps:
  assumes "by_symlink_reversed a d fs = (r, fs')" "node_at fs a = Some (Regular mb t body)" "\<not> isdir fs d" "a \<noteq> d"
  shows "same_but {a, d} fs fs' \<and> (holds_body fs' a mb body \<or> holds_body fs' d mb body)"
proof -
  obtain r1 f1 where m: "shutil_move a d fs = (r1, f1)" by (cases "shutil_move a d fs")
  note step = shutil_move_step [OF m assms(2-4)]
  obtain r2 f2 where y: "os_symlink d a f1 = (r2, f2)" by (cases "os_symlink d a f1")
  have "fs' = f2" using assms(1) m y by (auto simp: by_symlink_reversed_def py_simps split: sum.splits)
  moreover have "same_but {a} f1 f2 \<and> (holds_body f1 a mb body \<longrightarrow> holds_body f2 a mb body)"
    using y unfolding os_symlink_def
    by (rule simple_op_cases) (auto simp: same_but_def holds_body_def split: if_splits)
  moreover have "holds_body f1 a mb body \<or> holds_body f1 d mb body" using step by (cases r1) auto
  ultimately show ?thesis using step assms(4) by (auto simp: holds_same intro: same_but_trans)
qed

lemma move_as_survives:
  assumes "move_as move_type old dest fs = (r, fs')" "node_at fs old = Some (Regular mb t body)" "\<not> isdir fs (sp dest)"
  shows "(holds_body fs' old mb body \<or> holds_body fs' (sp dest) mb body) \<and>
    same_but {old, sp dest, sp old @ ''.link''} fs fs' \<and>
    (r = Inr () \<and> move_type \<noteq> PStr ''symlink_reversed'' \<longrightarrow> holds_body fs' (sp dest) mb body)"
proof (cases "isfile fs (sp dest)")
  case True
  with assms(1) have "fs' = fs" "r = Inl (UserError ''Destination already exists'')"
    by (simp_all add: move_as_def Let_def py_simps path_exists_def)
  with assms(2) show ?thesis by (simp add: holds_body_def same_but_def)
next
  case False
  then have ne: "old \<noteq> sp dest" using assms(2) by (auto simp: isfile_def)
  have at: "holds_body fs old mb body" using assms(2) by (auto simp: holds_body_def)
  consider (link) "by_link old (sp dest) fs = (r, fs')" | (turned) "by_symlink_reversed old (sp dest) fs = (r, fs')"
      "move_type = PStr ''symlink_reversed''"
    | (copy) "shutil_copy old (sp dest) fs = (r, fs')" | (move) "by_move old (sp dest) fs = (r, fs')"
    using assms(1) False by (auto simp: move_as_def Let_def py_simps split: if_splits)
  then show ?thesis
  proof cases
    case link
    from by_link_keeps [OF this assms(2,3) False] show ?thesis by (auto simp: kept_def)
  next
    case turned
    from by_symlink_reversed_keeps [OF this(1) assms(2,3) ne] turned(2) show ?thesis by (auto simp: same_but_def)
  next
    case copy
    from shutil_copy_step [OF this assms(2,3) ne] at ne show ?thesis
      by (auto simp: holds_body_def same_but_def)
  next
    case move
    from by_move_keeps [OF this assms(2,3) False] show ?thesis by (auto simp: kept_def same_but_def)
  qed
qed

text \<open>Putting a file into the library never loses it, whatever operation fails and however the file
  is moved, copied or linked: afterwards its content is at the old place or at the new one, nothing
  but these two places and the link made in between has changed, and when the method returns the
  content is at the new place (except by the reversed link, which hides a failure).\<close>

theorem moved_file_survives:
  assumes "move_as move_type old dest fs = (r, fs')" "node_at fs old = Some (Regular mb t body)" "\<not> isdir fs (sp dest)"
  shows "(holds_body fs' old mb body \<or> holds_body fs' (sp dest) mb body) \<and>
    same_but {old, sp dest, sp old @ ''.link''} fs fs' \<and>
    (r = Inr () \<and> move_type \<noteq> PStr ''symlink_reversed'' \<longrightarrow> holds_body fs' (sp dest) mb body)"
  by (rule move_as_survives [OF assms])

text \<open>An example: a film of 4000 MB on a disk where moving copies the file and then fails to remove it.\<close>

definition demo_fs :: fsys where
  "demo_fs = \<lparr>nodes = [(''/from/a.mkv'', Regular 4000 1400000000 ''film'')], folders = [''/'', ''/from'', ''/to''],
     f_clock = 1400000100, f_order = remdups, f_fault = (\<lambda>n. if n = 0 then Left_behind else Denied), f_ops = 0\<rparr>"

lemma demo_dest: "sp ''/to/a.mkv'' = ''/to/a.mkv''"
  by code_simp

theorem moved_file_survives_witness:
  "let (r, fs') = move_as (PStr ''move'') ''/from/a.mkv'' ''/to/a.mkv'' demo_fs
   in (holds_body fs' ''/from/a.mkv'' 4000 ''film'' \<or> holds_body fs' (sp ''/to/a.mkv'') 4000 ''film'') \<and>
      same_but {''/from/a.mkv'', sp ''/to/a.mkv'', sp ''/from/a.mkv'' @ ''.link''} demo_fs fs' \<and>
      (r = Inr () \<and> PStr ''move'' \<noteq> PStr ''symlink_reversed'' \<longrightarrow> holds_body fs' (sp ''/to/a.mkv'') 4000 ''film'')"
proof -
  have "node_at demo_fs ''/from/a.mkv'' = Some (Regular 4000 1400000000 ''film'')" "\<not> isdir demo_fs (sp ''/to/a.mkv'')"
    by (simp_all add: node_at_def demo_fs_def isdir_def demo_dest)
  from moved_file_survives [OF surjective_pairing this] show ?thesis by (simp add: split_def)
qed

text \<open>With the reversed link a move that fails is taken for a success: nothing was moved, and the
  method returns.\<close>

theorem reversed_link_hides_failure:
  assumes "node_at fs old = Some n" "\<not> isdir fs (sp dest)" "\<not> isfile fs (sp dest)" "isdir fs (dirname (sp dest))"
    and "f_fault fs (f_ops fs) = Denied"
  shows "\<exists>fs'. move_as (PStr ''symlink_reversed'') old dest fs = (Inr (), fs') \<and> node_at fs' = node_at fs"
proof -
  have "shutil_move old (sp dest) fs = (Inl OSError, fs\<lparr>f_ops := Suc (f_ops fs)\<rparr>)"
    using assms by (simp add: shutil_move_def attempt_def py_simps inside_def)
  moreover obtain r2 f2 where y: "os_symlink (sp dest) old (fs\<lparr>f_ops := Suc (f_ops fs)\<rparr>) = (r2, f2)"
    by (cases "os_symlink (sp dest) old (fs\<lparr>f_ops := Suc (f_ops fs)\<rparr>)")
  moreover have "r2 = Inl OSError \<and> node_at f2 = node_at fs"
    using y unfolding os_symlink_def by (rule simple_op_cases) (use assms(1) in \<open>auto split: if_splits\<close>)
  ultimately show ?thesis using assms(3)
    by (auto simp: move_as_def Let_def py_simps by_symlink_reversed_def path_exists_def)
qed

theorem reversed_link_hides_failure_witness:
  "\<exists>fs'. move_as (PStr ''symlink_reversed'') ''/from/a.mkv'' ''/to/a.mkv'' (demo_fs\<lparr>f_fault := \<lambda>_. Denied\<rparr>) = (Inr (), fs') \<and>
     node_at fs' = node_at (demo_fs\<lparr>f_fault := \<lambda>_. Denied\<rparr>)"
  by (rule reversed_link_hides_failure [where n = "Regular 4000 1400000000 ''film''"])
    (simp_all add: node_at_def demo_fs_def isdir_def isfile_def file_at_def demo_dest dirname_def basename_def rstrip_on_def)

end
