(* ===== verification/RenamerNames.thy ===== *)
theory RenamerNames
  imports RenamerFiles ScanNames
begin

text \<open>
  couchpotato/core/plugins/renamer.py, the names a film's files get in the library: the values of the
  tags in the user's patterns, filling in a pattern (\<open>doReplace\<close>, \<open>replaceDoubles\<close>), and the plan of one
  group of files, which file goes where and which are removed. The settings that matter are read
  once and are the record \<open>naming\<close>.
\<close>

section \<open>Texts of values\<close>

text \<open>\<open>str\<close> of a float: the decimal number, with at least one digit after the point.\<close>

fun decimals :: "nat \<Rightarrow> nat \<Rightarrow> rat \<Rightarrow> nat" where
  "decimals 0 k x = k"
| "decimals (Suc n) k x = (if x * 10 ^ k = of_int \<lfloor>x * 10 ^ k\<rfloor> then k else decimals n (Suc k) x)"

definition float_text :: "rat \<Rightarrow> string" where
  "float_text x =
     (let k = decimals 16 1 \<bar>x\<bar>; n = nat \<lfloor>\<bar>x\<bar> * 10 ^ k\<rfloor>; ds = rjust0 (Suc k) (nat_digits n)
      in (if x < 0 then ''-'' else []) @ take (length ds - k) ds @ ''.'' @ drop (length ds - k) ds)"

definition to_text :: "pv \<Rightarrow> string" where
  "to_text v = (case v of PFloat x \<Rightarrow> float_text x | _ \<Rightarrow> fmt v)"

section \<open>Filling in a pattern\<close>

definition doubles :: "(re \<times> string) list" where
  "doubles = [(plus_re (chr (CHR ''.'')), ''.''), (plus_re (chr (CHR ''_'')), ''_''), (plus_re (chr (CHR ''-'')), ''-''),
     (plus_re space, '' ''), (lit ('' '' @ [CHR 0x5C]), [CHR 0x5C]), (lit '' /'', ''/''),
     (plus_re (Grp 1 (Seq space (chr (CHR ''.'')))), ''.''), (plus_re (Grp 1 (lit ''-.'')), ''.''),
     (plus_re (Grp 1 (seqs [space, chr (CHR ''-''), Cls (\<lambda>c. \<not> is_space c)])), ''-''), (lit '' ]'', '']'')]"

definition replaceDoubles :: "string \<Rightarrow> string" where
  "replaceDoubles s = rstrip_chars ('',_-/'' @ [CHR 0x5C] @ '' '') (foldl (\<lambda>s (r, w). sub_str r w s) s doubles)"

definition forbidden :: "char \<Rightarrow> bool" where
  "forbidden c = (c \<in> {CHR 0x00, CHR '':'', CHR ''*'', CHR ''?'', CHR 0x22, CHR ''<'', CHR ''>'', CHR ''|''})"

definition name_tags :: "string list" where
  "name_tags = [''thename'', ''namethe'']"

definition fill_tag :: "string \<times> pv \<Rightarrow> string \<Rightarrow> string" where
  "fill_tag xr s = replace_str (''<'' @ fst xr @ ''>'') (if snd xr = PNone then [] else to_text (snd xr)) s"

record naming =
  nm_folder :: string
  nm_file :: string
  nm_trailer :: string
  nm_nfo :: string
  nm_sep :: string
  nm_foldersep :: string
  nm_doubles :: bool
  nm_rename_nfo :: bool
  nm_cleanup :: bool
  nm_move_leftover :: bool
  nm_tab_threed :: bool

definition doReplace :: "naming \<Rightarrow> string \<Rightarrow> doc \<Rightarrow> bool \<Rightarrow> bool \<Rightarrow> string" where
  "doReplace nm s replacements0 remove_multiple folder =
     (let replacements = (if remove_multiple
            then dput (dput replacements0 ''cd'' (PStr [])) ''cd_nr'' (PStr []) else replacements0);
          s1 = fold fill_tag (filter (\<lambda>(x, _). x \<notin> set name_tags) replacements) s;
          s2 = (if nm_doubles nm then replaceDoubles (lstrip_chars ''. '' s1) else s1);
          s3 = fold (\<lambda>(x, r) s. replace_str (''<'' @ x @ ''>'') (to_text r) s) (filter (\<lambda>(x, _). x \<in> set name_tags) replacements) s2;
          s4 = filter (\<lambda>c. \<not> forbidden c) s3;
          sepr = (if folder then nm_foldersep nm else nm_sep nm)
      in replace_str '' '' (if sepr = [] then '' '' else sepr) s4)"

section \<open>The values of the tags\<close>

text \<open>\<open>The Movie\<close> becomes \<open>Movie, The\<close>.\<close>

definition capitalize :: "string \<Rightarrow> string" where
  "capitalize s = (case s of [] \<Rightarrow> [] | c # cs \<Rightarrow> upper_char_az c # lower cs)"

definition clean_title :: "string \<Rightarrow> string" where
  "clean_title s = filter (\<lambda>c. \<not> forbidden c \<and> c \<noteq> CHR ''/'' \<and> c \<noteq> CHR 0x5C) s"

definition title_the :: "string \<Rightarrow> string" where
  "title_the movie_name = (case first_such (\<lambda>p. p = lower (take (length p) movie_name)) [''the '', ''an '', ''a ''] of
       None \<Rightarrow> movie_name
     | Some p \<Rightarrow> drop (length p) movie_name @ '', '' @ capitalize (strip p))"

definition replace_in :: "string \<Rightarrow> string \<Rightarrow> pv \<Rightarrow> pv" where
  "replace_in a b v = (case v of PStr s \<Rightarrow> PStr (replace_str a b s) | _ \<Rightarrow> v)"

definition ratings :: "string list" where
  "ratings = [''G'', ''PG'', ''PG-13'', ''R'', ''NC-17'']"

text \<open>A title of forbidden characters only has no first letter, which raises.\<close>

definition replacements_of :: "naming \<Rightarrow> doc \<Rightarrow> doc \<Rightarrow> pv \<Rightarrow> string \<Rightarrow> doc res" where
  "replacements_of nm gr media category_label media_title =
     (let movie_name = clean_title media_title; name_the = title_the movie_name in
      rbind (rbind (dsub media ''info'') as_dict) (\<lambda>info.
      rbind (dsub info ''year'') (\<lambda>year.
      rbind (rbind (dsub gr ''meta_data'') as_dict) (\<lambda>meta.
      rbind (nth_res name_the 0) (\<lambda>initial.
      rbind (rbind (dsub meta ''quality'') as_dict) (\<lambda>quality.
      rbind (dsub quality ''label'') (\<lambda>quality_label.
      rbind (dsub meta ''quality_type'') (\<lambda>quality_type.
      rbind (dsub meta ''group'') (\<lambda>release_group.
      rbind (dsub meta ''source'') (\<lambda>source.
      rbind (dsub gr ''identifier'') (\<lambda>imdb_id.
      let mpaa = dgetd info ''mpaa'' (PStr []);
          d3 = dget meta ''3d_type'';
          short = (if truthy d3 then replace_in ''Full '' [] (replace_in ''Half '' ''H'' d3) else d3);
          tab = (\<lambda>v. if nm_tab_threed nm \<and> truthy v then replace_in ''OU'' ''TAB'' v else v)
      in Inr [(''ext'', PStr ''mkv''), (''namethe'', PStr (strip name_the)), (''thename'', PStr (strip movie_name)),
          (''year'', year), (''first'', PStr [upper_char_az initial]), (''quality'', quality_label),
          (''quality_type'', quality_type), (''video'', dget meta ''video''), (''audio'', dget meta ''audio''),
          (''group'', release_group), (''source'', source), (''resolution_width'', dget meta ''resolution_width''),
          (''resolution_height'', dget meta ''resolution_height''), (''audio_channels'', dget meta ''audio_channels''),
          (''imdb_id'', imdb_id), (''cd'', PStr []), (''cd_nr'', PStr []), (''mpaa'', mpaa),
          (''mpaa_only'', if mpaa \<in> PStr ` set ratings then mpaa else PStr ''Not Rated''),
          (''category'', category_label),
          (''3d'', PStr (if truthy (dgetd quality ''is_3d'' (PInt 0)) then ''3D'' else [])),
          (''3d_type'', tab d3), (''3d_type_short'', tab short)])))))))))))"

section \<open>Where a file goes\<close>

text \<open>The plan of a group: the new place of each file, the files to be removed, the values of the tags
  (which keep what the last file set), and the group with its \<open>filename\<close> and \<open>destination_dir\<close>.\<close>

record plan =
  renames :: "(string \<times> string) list"
  removes :: "string list"
  repl :: doc
  pgroup :: doc

definition plan_rename :: "string \<Rightarrow> string \<Rightarrow> plan \<Rightarrow> plan" where
  "plan_rename src dst p = p\<lparr>renames := AList.update src dst (renames p)\<rparr>"

definition upto_last :: "string \<Rightarrow> nat \<Rightarrow> string" where
  "upto_last s n = (if n = 0 then [] else take (length s - n) s)"

definition join3 :: "string \<Rightarrow> string \<Rightarrow> string \<Rightarrow> string" where
  "join3 a b c = join_path (join_path a b) c"

definition getRenameExtras ::
  "naming \<Rightarrow> (string list \<Rightarrow> string list) \<Rightarrow> string list \<Rightarrow> doc \<Rightarrow> string \<Rightarrow> string \<Rightarrow> bool \<Rightarrow> (string \<times> string) list" where
  "getRenameExtras nm order extras replacements destination current_file remove_multiple =
     map (\<lambda>extra. let r = dput replacements ''ext'' (PStr (getExt extra)) in
        (extra, join3 destination (doReplace nm (nm_folder nm) r remove_multiple True)
                  (doReplace nm (nm_file nm) r remove_multiple False)))
       (order (filter (\<lambda>s. contains (upto_last current_file (length (str_or_empty (dget replacements ''ext'')))) (sp s)) extras))"

definition merge_renames :: "(string \<times> string) list \<Rightarrow> (string \<times> string) list \<Rightarrow> (string \<times> string) list" where
  "merge_renames a b = fold (\<lambda>(k, v) m. AList.update k v m) b a"

text \<open>The part of a path from one of the folders of a DVD on.\<close>

definition dvd_structure :: "string \<Rightarrow> string option" where
  "dvd_structure f = (case first_such (\<lambda>d. find_str (''/'' @ d @ ''/'') (lower f) \<noteq> None)
       [''video_ts'', ''audio_ts'', ''bdmv'', ''certificate''] of
       None \<Rightarrow> None
     | Some d \<Rightarrow> (case find_str (''/'' @ d @ ''/'') (lower f) of None \<Rightarrow> None | Some n \<Rightarrow> Some (lstrip_chars ''/'' (drop n f))))"

definition file_replacements :: "naming \<Rightarrow> doc \<Rightarrow> doc \<Rightarrow> string \<Rightarrow> bool \<Rightarrow> int \<Rightarrow> doc" where
  "file_replacements nm gr r0 f multiple cd =
     (let original = splitext_root (basename f);
          folder0 = (case dget gr ''dirname'' of PStr d \<Rightarrow> removeCPTag d | _ \<Rightarrow> [])
      in dupdate r0 [(''original'', PStr original), (''original_folder'', PStr (if folder0 = [] then original else folder0)),
           (''ext'', PStr (getExt f)), (''cd'', PStr (if multiple then '' cd'' @ str_of_int cd else [])),
           (''cd_nr'', if multiple then PInt cd else PStr [])])"

text \<open>A subtitle in one language gets the language before its extension.\<close>

definition subtitle_name :: "pv \<Rightarrow> string \<Rightarrow> string \<Rightarrow> string res" where
  "subtitle_name langs ext sub_name =
     rbind (as_list langs) (\<lambda>ls. case ls of
         [l] \<Rightarrow> (let sfx = fmt l @ ''.'' @ ext in
           Inr (if suffix sfx sub_name then sub_name else replace_str ext sfx sub_name))
       | _ \<Rightarrow> Inr sub_name)"

definition plan_file ::
  "naming \<Rightarrow> (string list \<Rightarrow> string list) \<Rightarrow> string \<Rightarrow> bool \<Rightarrow> string \<Rightarrow> bool \<Rightarrow> string \<Rightarrow> int \<Rightarrow> plan \<Rightarrow> plan res" where
  "plan_file nm order destination on_dvd ft multiple f0 cd p =
     (let f = sp f0;
          r1 = file_replacements nm (pgroup p) (repl p) f multiple cd;
          final_folder = doReplace nm (nm_folder nm) r1 False True;
          file_name = doReplace nm (nm_file nm) r1 False False;
          r = dput r1 ''filename'' (PStr (upto_last file_name (length (getExt file_name) + 1)));
          final_file = (if ft = ''trailer'' then doReplace nm (nm_trailer nm) r True False
                        else if ft = ''nfo'' then doReplace nm (nm_nfo nm) r True False else file_name);
          p1 = p\<lparr>repl := r\<rparr>;
          p2 = (if on_dvd \<and> ft = ''movie''
                then (case dvd_structure f of Some d \<Rightarrow> plan_rename f (join3 destination final_folder d) p1 | None \<Rightarrow> p1)
                else if ft = ''leftover''
                then (if nm_move_leftover nm then plan_rename f (join3 destination final_folder (basename f)) p1 else p1)
                else if ft \<noteq> ''subtitle'' then plan_rename f (join3 destination final_folder final_file) p1 else p1)
      in if ft = ''subtitle'' then
           rbind (files_of_kind (pgroup p) ''movie'') (\<lambda>movies.
           let alone = (length movies = 1);
               sub_name = doReplace nm (nm_file nm) r alone False in
           rbind (rbind (dsub (pgroup p) ''subtitle_language'') (\<lambda>sl. vgetd sl f (PList []))) (\<lambda>langs.
           rbind (files_of_kind (pgroup p) ''subtitle_extra'') (\<lambda>extras.
           rbind (subtitle_name langs (getExt f) sub_name) (\<lambda>name.
           let p3 = plan_rename f (join3 destination final_folder name) p2
           in Inr (p3\<lparr>renames := merge_renames (renames p3) (getRenameExtras nm order extras r destination f alone)\<rparr>)))))
         else if ft = ''movie'' then
           rbind (files_of_kind (pgroup p) ''movie_extra'') (\<lambda>extras.
           Inr (p2\<lparr>renames := merge_renames (renames p2) (getRenameExtras nm order extras r destination f False),
                  pgroup := dupdate (pgroup p2)
                    [(''filename'', PStr (upto_last (doReplace nm (nm_file nm) r True False) (length (getExt final_file) + 1))),
                     (''destination_dir'', PStr (join_path destination final_folder))]\<rparr>))
         else Inr p2)"

fun plan_files ::
  "naming \<Rightarrow> (string list \<Rightarrow> string list) \<Rightarrow> string \<Rightarrow> bool \<Rightarrow> string \<Rightarrow> bool \<Rightarrow> string list \<Rightarrow> int \<Rightarrow> plan \<Rightarrow> plan res" where
  "plan_files nm order destination on_dvd ft multiple [] cd p = Inr p"
| "plan_files nm order destination on_dvd ft multiple (f # fs) cd p =
     rbind (plan_file nm order destination on_dvd ft multiple f cd p)
       (plan_files nm order destination on_dvd ft multiple fs (if multiple then cd + 1 else cd))"

definition fileIsAdded :: "string \<Rightarrow> doc \<Rightarrow> bool" where
  "fileIsAdded src gr = (truthy (dget gr ''before_rename'') \<and> src \<in> set (str_list (dget gr ''before_rename'')))"

text \<open>Files that may be cleaned up: unless the originals are kept, or the program added them itself.\<close>

definition removable :: "bool \<Rightarrow> doc \<Rightarrow> string \<Rightarrow> bool" where
  "removable keep_original gr f = (\<not> keep_original \<or> fileIsAdded f gr)"

definition plan_kind ::
  "naming \<Rightarrow> (string list \<Rightarrow> string list) \<Rightarrow> string \<Rightarrow> bool \<Rightarrow> bool \<Rightarrow> string \<times> string list \<Rightarrow> plan \<Rightarrow> plan res" where
  "plan_kind nm order destination on_dvd keep_original kfs p =
     (let ft = fst kfs; fs = snd kfs in
      if ft = ''nfo'' \<and> \<not> nm_rename_nfo nm
      then Inr (p\<lparr>removes := removes p @ (if nm_cleanup nm then filter (removable keep_original (pgroup p)) fs else [])\<rparr>)
      else if ft = ''subtitle_extra'' then Inr p
      else (let multiple = (1 < length fs \<and> \<not> on_dvd)
            in plan_files nm order destination on_dvd ft multiple (sorted_by id fs) (if multiple then 1 else 0) p))"

definition kinds_of :: "doc \<Rightarrow> (string \<times> string list) list res" where
  "kinds_of gr = rbind (rbind (dsub gr ''files'') as_dict) (\<lambda>d. Inr (map (\<lambda>(k, v). (k, str_list v)) d))"

definition plan_group ::
  "naming \<Rightarrow> (string list \<Rightarrow> string list) \<Rightarrow> string \<Rightarrow> bool \<Rightarrow> doc \<Rightarrow> doc \<Rightarrow> plan res" where
  "plan_group nm order destination keep_original replacements gr =
     rbind (kinds_of gr) (\<lambda>kinds. rbind (dsub gr ''is_dvd'') (\<lambda>on_dvd.
     foldr_res (plan_kind nm order destination (truthy on_dvd) keep_original) kinds
       \<lparr>renames = [], removes = [], repl = replacements, pgroup = gr\<rparr>))"

end
