(* ===== verification/RenamerExtract.thy ===== *)
theory RenamerExtract
  imports RenamerNames
begin

text \<open>
  couchpotato/core/plugins/renamer.py, \<open>extractFiles\<close>: the archives of a download are unpacked into the
  folder the renamer reads, and the other files follow them. The library unrar2 is the argument
  \<open>rar_list\<close>: what an archive holds, each entry with its name, whether it is a folder, and the file.
  The other arguments of the renamer that stand for code outside the repository are here too.
\<close>

record rename_libs =
  realpath_of :: "string \<Rightarrow> string"
  before_listeners :: "doc \<Rightarrow> doc"
  random_of :: "nat \<Rightarrow> string"
  free_mb :: "fsys \<Rightarrow> string \<Rightarrow> rat"
  rar_list :: "fsys \<Rightarrow> string \<Rightarrow> (string \<times> bool \<times> node) list res"

section \<open>Paths\<close>

definition comps :: "string \<Rightarrow> string list" where
  "comps p = filter (\<lambda>c. c \<noteq> [] \<and> c \<noteq> ''.'') (split_on ''/'' (normpath p))"

fun common :: "'a list \<Rightarrow> 'a list \<Rightarrow> nat" where
  "common (x # xs) (y # ys) = (if x = y then Suc (common xs ys) else 0)"
| "common _ _ = 0"

text \<open>\<open>os.path.relpath\<close> of absolute paths.\<close>

definition relpath :: "string \<Rightarrow> string \<Rightarrow> string" where
  "relpath p start =
     (let a = comps start; b = comps p; i = common a b;
          r = replicate (length a - i) ''..'' @ drop i b
      in if r = [] then ''.'' else join ''/'' r)"

section \<open>Archives\<close>

definition part_rar :: re where
  "part_rar = seqs [lit ''.part'', plus_re digit, lit ''.rar'', Eos]"

definition archive_regex :: re where
  "archive_regex = Seq (Grp 1 (seqs [Bos, Grp 2 (Star (Seq (NAhead part_rar) dot)), lit ''.'',
      opt (seqs [lit ''part'', Star (chr (CHR ''0'')), lit ''1.'']), lit ''rar''])) Eos"

definition restfile_regex :: "string \<Rightarrow> re" where
  "restfile_regex base = seqs [Bos, lit base, lit ''.'',
     Alt (seqs [lit ''part'', NAhead (seqs [Star (chr (CHR ''0'')), lit ''1.rar'', Eos]), plus_re digit, lit ''.rar'', Eos])
         (seqs [any_of ''rstuvw'', plus_re digit, Eos])]"

text \<open>The archives among the files: each with its first file and the part of the name its other files share.\<close>

definition archives_in :: "string list \<Rightarrow> (string \<times> string) list" where
  "archives_in files = concat (map (\<lambda>name. case search archive_regex name of
       None \<Rightarrow> [] | Some m \<Rightarrow> [(grp m 1, grp m 2)]) files)"

text \<open>The loop's state: the files that are left, the files that came out of archives, and the path of
  the entry looked at last, which the code keeps from one archive to the next.\<close>

record extraction =
  x_files :: "string list"
  x_extracted :: "string list"
  x_last :: "string option"

definition on_x :: "(fsys, 'a) py \<Rightarrow> (rstate \<times> extraction, 'a) py" where
  "on_x m = (\<lambda>(s, x). case on_fs m s of (r, s') \<Rightarrow> (r, (s', x)))"

definition in_r :: "(rstate, 'a) py \<Rightarrow> (rstate \<times> extraction, 'a) py" where
  "in_r m = (\<lambda>(s, x). case m s of (r, s') \<Rightarrow> (r, (s', x)))"

definition with_x :: "extraction \<Rightarrow> (rstate \<times> extraction, 'a) py \<Rightarrow> (rstate, 'a \<times> extraction) py" where
  "with_x x0 m = (\<lambda>s. case m (s, x0) of (r, (s', x)) \<Rightarrow> (rbind r (\<lambda>v. Inr (v, x)), s'))"

definition set_x :: "(extraction \<Rightarrow> extraction) \<Rightarrow> (rstate \<times> extraction, unit) py" where
  "set_x f = modify (\<lambda>(s, x). (s, f x))"

text \<open>Unpacking one entry: an entry whose file is there already is left alone.\<close>

definition unpack :: "string \<Rightarrow> node \<Rightarrow> (fsys, unit) py" where
  "unpack p n = simple_op (\<lambda>fs. if isdir fs (dirname p) \<and> \<not> isdir fs p then Some (put_node p n fs) else None)"

definition extract_entry :: "string \<Rightarrow> string \<times> bool \<times> node \<Rightarrow> (rstate \<times> extraction, unit) py" where
  "extract_entry extr_path e =
     (let p = sp (join_path extr_path (basename (fst e))) in
      bnd (set_x (\<lambda>x. x\<lparr>x_last := Some p\<rparr>)) (\<lambda>_.
      bnd (on_x (gets (\<lambda>fs. isfile fs p))) (\<lambda>there.
      if fst (snd e) \<or> there then ret ()
      else bnd (on_x (unpack p (snd (snd e)))) (\<lambda>_. set_x (\<lambda>x. x\<lparr>x_extracted := x_extracted x @ [p]\<rparr>)))))"

definition file_download :: "string \<Rightarrow> pv \<Rightarrow> doc" where
  "file_download f files = [(''folder'', PStr (dirname f)), (''files'', files)]"

definition extract_archive ::
  "rename_libs \<Rightarrow> string \<Rightarrow> string \<Rightarrow> bool \<Rightarrow> string \<Rightarrow> (rstate \<times> extraction, unit) py" where
  "extract_archive libs from_folder folder cleanup f =
     bnd (on_x (gets (\<lambda>fs. rar_list libs fs f))) (\<lambda>entries0.
     bnd (liftr entries0) (\<lambda>entries.
     let extr_path = join_path from_folder (relpath (dirname f) folder) in
     bnd (on_x (makeDir extr_path)) (\<lambda>_.
     bnd (for_each entries (extract_entry extr_path)) (\<lambda>_.
     if cleanup then ret () else
     bnd (gets (\<lambda>(s, x). x_last x)) (\<lambda>l. case l of
         None \<Rightarrow> raise NameError
       | Some p \<Rightarrow> bnd (on_x (gets (\<lambda>fs. isfile fs p))) (\<lambda>there.
           whenp there (in_r (tag_download ''extracted'' (file_download f (PList [PStr f]))))))))))"

text \<open>The files of an archive leave the list; with \<open>cleanup\<close> only those that could be removed.\<close>

definition drop_archive_file :: "bool \<Rightarrow> string \<Rightarrow> (rstate \<times> extraction, unit) py" where
  "drop_archive_file cleanup f =
     bnd (if cleanup then catch (bnd (on_x (os_remove f)) (\<lambda>_. ret True)) (\<lambda>_. ret False) else ret True) (\<lambda>gone.
     if \<not> gone then ret () else
     bnd (gets (\<lambda>(s, x). f \<in> set (x_files x))) (\<lambda>listed.
     if listed then set_x (\<lambda>x. x\<lparr>x_files := remove1 f (x_files x)\<rparr>) else raise ValueError))"

definition one_archive ::
  "rename_libs \<Rightarrow> string \<Rightarrow> string \<Rightarrow> bool \<Rightarrow> bool \<Rightarrow> string \<times> string \<Rightarrow> (rstate \<times> extraction, unit) py" where
  "one_archive libs from_folder folder cleanup check_date fb =
     (let f = fst fb in
      bnd (in_r (hastagRelease [] (file_download f (PStr f)))) (\<lambda>tagged.
      if tagged then ret () else
      bnd (gets (\<lambda>(s, x). filter (\<lambda>name. search (restfile_regex (snd fb)) name \<noteq> None) (x_files x) @ [f])) (\<lambda>parts.
      bnd (gets (\<lambda>(s, x). check_date \<and> checkFilesChanged (disk_of (rfs s)) (now (rw s)) 60 parts \<noteq> 0)) (\<lambda>too_new.
      if too_new then ret () else
      bnd (catch (bnd (extract_archive libs from_folder folder cleanup f) (\<lambda>_. ret True)) (\<lambda>_. ret False)) (\<lambda>ok.
      if ok then for_each parts (drop_archive_file cleanup) else ret ())))))"

section \<open>The other files\<close>

definition move_leftover :: "string \<Rightarrow> string \<Rightarrow> bool \<Rightarrow> string \<Rightarrow> (rstate \<times> extraction, unit) py" where
  "move_leftover from_folder folder cleanup f =
     (let move_to = join_path from_folder (relpath f folder) in
      bnd (catch (bnd (on_x (makeDir (dirname move_to))) (\<lambda>_. bnd (in_r (moveFile f move_to cleanup)) (\<lambda>_. ret True)))
             (\<lambda>_. bnd (on_x (gets (\<lambda>fs. (isfile fs move_to, getsize fs f, getsize fs move_to)))) (\<lambda>(there, n, m).
                if \<not> there then ret False
                else if n = None then raise OSError
                else if n = m then bnd (whenp cleanup (on_x (os_remove f))) (\<lambda>_. ret True)
                else ret False))) (\<lambda>moved.
      if \<not> moved then ret () else
      set_x (\<lambda>x. x\<lparr>x_files := remove1 f (x_files x), x_extracted := x_extracted x @ [move_to]\<rparr>)))"

text \<open>The whole method: the folder, the folder of the download, the files, and the files that were
  extracted. An empty text stands for \<open>None\<close>.\<close>

definition extract_body ::
  "rename_libs \<Rightarrow> string \<Rightarrow> string \<Rightarrow> string \<Rightarrow> bool \<Rightarrow> (rstate \<times> extraction, string \<times> string) py" where
  "extract_body libs from_folder folder media_folder cleanup =
     bnd (gets (\<lambda>(s, x). archives_in (x_files x))) (\<lambda>archives.
     bnd (for_each archives (one_archive libs from_folder folder cleanup (media_folder = []))) (\<lambda>_.
     bnd (gets (\<lambda>(s, x). x)) (\<lambda>x.
     if x_extracted x = [] \<or> folder = from_folder then ret (folder, media_folder)
     else bnd (for_each (x_files x) (move_leftover from_folder folder cleanup)) (\<lambda>_.
          bnd (whenp cleanup (on_x (deleteEmptyFolder media_folder))) (\<lambda>_.
          ret (from_folder, join_path from_folder (relpath media_folder folder)))))))"

definition extractFiles ::
  "rename_libs \<Rightarrow> string \<Rightarrow> string \<Rightarrow> string list \<Rightarrow> bool \<Rightarrow> (rstate, string \<times> string \<times> string list \<times> string list) py" where
  "extractFiles libs folder0 media_folder files0 cleanup =
     bnd (rconf ''from'') (\<lambda>fv.
     let from_folder = sp (str_or_empty fv);
         folder = (if folder0 = [] then from_folder else folder0) in
     bnd (readf (\<lambda>fs. if files0 = [] then map sp (walk_paths fs folder) else files0)) (\<lambda>files.
     bnd (with_x \<lparr>x_files = files, x_extracted = [], x_last = None\<rparr> (extract_body libs from_folder folder media_folder cleanup))
       (\<lambda>((fo, mf), x).
     ret (if mf = [] then ([], [], [], x_extracted x) else (fo, mf, x_files x @ x_extracted x, x_extracted x)))))"

end
