(* ===== verification/Manage.thy ===== *)
theory Manage
  imports Steady
begin

text \<open>
  couchpotato/core/plugins/manage.py: the update of the library, which scans the library's folders, adds
  what it finds, and, when it is a full update, removes the movies that are gone; and the
  adding of files that were renamed. The plugin's own state is \<open>in_progress\<close>: \<open>False\<close>, or a dict
  with the counts of every folder; \<open>m_added\<close> is the list \<open>added_identifiers\<close> that one update
  shares with the callbacks of its scans. The files on disk are a snapshot \<open>disk\<close>. Rebuilding the
  indexes of the database at the end does nothing to the model's documents and is left out.
\<close>

record mstate =
  mw :: world
  m_progress :: pv
  m_added :: "pv list"

definition mview :: "mstate world_view" where
  "mview = \<lparr>look = mw, put_back = (\<lambda>w s. s\<lparr>mw := w\<rparr>)\<rparr>"

definition on_m :: "(world, 'a) py \<Rightarrow> (mstate, 'a) py" where
  "on_m m = via mview m"

lemma on_m_run [py_simps]: "on_m m s = (case m (mw s) of (r, w) \<Rightarrow> (r, s\<lparr>mw := w\<rparr>))"
  by (simp add: on_m_def via_run mview_def)

definition mconf :: "string \<Rightarrow> (mstate, pv) py" where
  "mconf attr = gets (\<lambda>s. conf (mw s) ''manage'' attr)"

section \<open>Progress\<close>

text \<open>The counts of a folder; without an update there are none, and the lookup raises.\<close>

definition folder_progress :: "string \<Rightarrow> (mstate, doc) py" where
  "folder_progress folder = bnd (gets m_progress) (\<lambda>p. liftr (rbind (vsub p folder) as_dict))"

definition set_progress :: "string \<Rightarrow> doc \<Rightarrow> (mstate, unit) py" where
  "set_progress folder d = modify (\<lambda>s. case m_progress s of
     PDict ps \<Rightarrow> s\<lparr>m_progress := PDict (dput ps folder (PDict d))\<rparr> | _ \<Rightarrow> s)"

definition eta_of :: "doc \<Rightarrow> int \<Rightarrow> doc res" where
  "eta_of d t =
     rbind (rbind (dsub d ''started'') num_res) (\<lambda>started.
     rbind (rbind (dsub d ''total'') num_res) (\<lambda>tot. rbind (rbind (dsub d ''to_go'') num_res) (\<lambda>go.
       if tot = go then Inl ZeroDivisionError
       else Inr (dput d ''eta'' (PInt (trunc ((of_int t - started) / (tot - go) * go)))))))"

definition updateProgress :: "string \<Rightarrow> nat \<Rightarrow> (mstate, unit) py" where
  "updateProgress folder to_go =
     bnd (folder_progress folder) (\<lambda>d.
     bnd (liftr (rbind (dsub d ''to_go'') num_res)) (\<lambda>go.
     let d1 = (if of_nat to_go < go then dput d ''to_go'' (PInt (int to_go)) else d) in
     bnd (set_progress folder d1) (\<lambda>_.
     bnd (gets (\<lambda>s. now (mw s))) (\<lambda>t.
     bnd (liftr (eta_of d1 t)) (\<lambda>d2. set_progress folder d2)))))"

section \<open>Adding what was found\<close>

definition afterUpdate :: "string \<Rightarrow> string \<Rightarrow> (mstate, unit) py" where
  "afterUpdate folder identifier =
     bnd (gets m_progress) (\<lambda>p.
     if \<not> truthy p then ret () else
     bnd (on_m stopping) (\<lambda>stop.
     if stop then ret () else
     bnd (folder_progress folder) (\<lambda>d.
     bnd (liftr (dsub d ''total'')) (\<lambda>tot.
     bnd (on_m (media_get_event identifier)) (\<lambda>movie. case movie of
         None \<Rightarrow> ret ()
       | Some m \<Rightarrow>
           bnd (liftr (num_res tot)) (\<lambda>n.
           on_m (fire_unit ''notify.frontend'' [PStr ''movie.added'', PDict m,
             if 5 < n then PNone else PStr (''Added '' @ [CHR 0x22] @ fmt (getTitle (PDict m)) @ [CHR 0x22] @ '' to manage.'')])))))))"

definition update_found :: "outside \<Rightarrow> string \<Rightarrow> pv \<Rightarrow> (mstate, unit) py" where
  "update_found ou folder identifier =
     bnd (on_m (bnd stopping (\<lambda>stop.
       call_handler (movie_update (md5 ou) (is_file ou) stop PNone identifier PNone False)))) (\<lambda>_.
     catch (afterUpdate folder (fmt identifier)) (\<lambda>_. ret ()))"

definition addToLibrary :: "outside \<Rightarrow> string \<Rightarrow> mstate found_callback" where
  "addToLibrary ou folder gr total_found to_go =
     bnd (folder_progress folder) (\<lambda>d.
     bnd (liftr (dsub d ''total'')) (\<lambda>tot.
     bnd (whenp (tot = PNone) (set_progress folder
            (dupdate d [(''total'', PInt (int total_found)), (''to_go'', PInt (int total_found))]))) (\<lambda>_.
     bnd (updateProgress folder to_go) (\<lambda>_.
     bnd (liftr (rbind (dsub gr ''media'') (\<lambda>m. if truthy m then rbind (dsub gr ''identifier'') (\<lambda>i. Inr (truthy i)) else Inr False)))
       (\<lambda>known.
     if \<not> known then ret () else
     bnd (modify (\<lambda>s. s\<lparr>m_added := m_added s @ [dget gr ''identifier'']\<rparr>)) (\<lambda>_.
     bnd (on_m (add_release gr False PNone)) (\<lambda>_.
     update_found ou folder (dget gr ''identifier''))))))))"

section \<open>The update of the library\<close>

definition new_progress :: doc where
  "new_progress = [(''started'', PBool False), (''eta'', PInt (- 1)), (''total'', PNone), (''to_go'', PNone)]"

definition directories :: "(mstate, string list) py" where
  "directories = bnd (gets (\<lambda>s. get_setting (sett (mw s)) ''library'' ''manage'' (PList []) PNone)) (\<lambda>v.
     liftr (rbind (as_list v) (mapr as_str)))"

definition last_update_key :: "bool \<Rightarrow> string" where
  "last_update_key full = ''manage.last_update'' @ (if full then ''_full'' else [])"

definition last_update :: "bool \<Rightarrow> (mstate, rat) py" where
  "last_update full = bnd (on_m (on_db (getProperty (last_update_key full)))) (\<lambda>v.
     liftr (float_res (if truthy v then v else PInt 0)))"

definition enabled :: "pv \<Rightarrow> bool" where
  "enabled v = (truthy v \<or> v = PNone)"

text \<open>One folder: it is scanned for what changed since the last update, or for everything.\<close>

definition update_folder ::
  "outside \<Rightarrow> scan_libs \<Rightarrow> disk \<Rightarrow> bool \<Rightarrow> rat \<Rightarrow> string \<Rightarrow> unit \<Rightarrow> (mstate, unit ctl) py" where
  "update_folder ou libs dk full since directory _ =
     (let folder = normpath directory in
      bnd (folder_progress folder) (\<lambda>d.
      bnd (gets (\<lambda>s. now (mw s))) (\<lambda>t.
      bnd (set_progress folder (dput d ''started'' (PInt t))) (\<lambda>_.
      if \<not> d_isdir dk folder then ret (Go ()) else
      bnd (on_m (fire_unit ''notify.frontend'' [PStr ''manage.update'', PBool True,
             PStr (''Scanning for movies in '' @ [CHR 0x22] @ folder @ [CHR 0x22])])) (\<lambda>_.
      bnd (catch (bnd (scan mview ou libs dk (addToLibrary ou folder)
             \<lparr>sa_folder = folder, sa_files = [], sa_download = [], sa_simple = True,
              sa_newer_than = (if full then 0 else since), sa_return_ignored = True, sa_check_date = False\<rparr>)
             (\<lambda>_. ret ())) (\<lambda>_. ret ())) (\<lambda>_.
      bnd (on_m stopping) (\<lambda>stop.
      ret (if stop then Brk () else Go ()))))))))"

section \<open>Cleaning up\<close>

definition release_files :: "doc \<Rightarrow> string list list res" where
  "release_files release = rbind (as_dict (dgetd release ''files'' (PDict []))) (\<lambda>fs.
     mapr (\<lambda>(_, v). rbind (as_list v) (mapr as_str)) fs)"

definition clean_gone :: "disk \<Rightarrow> doc \<Rightarrow> (world, unit) py" where
  "clean_gone dk release =
     (if \<not> truthy (dget release ''files'') then ret () else
      bnd (liftr (release_files release)) (\<lambda>fss.
      whenp (list_ex (\<lambda>f. \<not> d_isfile dk (sp f)) (concat fss))
        (bnd (liftr (rbind (dsub release ''_id'') as_str)) (\<lambda>i. bnd (clean_release (d_isfile dk) i) (\<lambda>_. ret ())))))"

text \<open>Two releases with the same file: the one edited last wins. The rest of the kind of file in which
  it is found is skipped.\<close>

definition dup_file ::
  "doc \<Rightarrow> string \<Rightarrow> (string \<times> doc) list \<times> pv list \<Rightarrow> (world, ((string \<times> doc) list \<times> pv list) ctl) py" where
  "dup_file release f ud = (case map_of (fst ud) f of
       None \<Rightarrow> ret (Go (AList.update f release (fst ud), snd ud))
     | Some already_used \<Rightarrow>
         bnd (liftr (rbind (num_res (dgetd already_used ''last_edit'' (PInt 0))) (\<lambda>a.
                rbind (num_res (dgetd release ''last_edit'' (PInt 0))) (\<lambda>b.
                dsub (if b < a then release else already_used) ''_id'')))) (\<lambda>release_id.
         if release_id \<in> set (snd ud) then ret (Brk ud)
         else bnd (liftr (as_str release_id)) (\<lambda>i. bnd (delete_release i) (\<lambda>_.
              ret (Brk (fst ud, snd ud @ [release_id]))))))"

definition dup_release ::
  "doc \<Rightarrow> (string \<times> doc) list \<times> pv list \<Rightarrow> (world, ((string \<times> doc) list \<times> pv list) ctl) py" where
  "dup_release release ud =
     bnd (liftr (release_files release)) (\<lambda>fss.
     bnd (for_acc fss ud (\<lambda>fs ud. bnd (for_acc fs ud (dup_file release)) (\<lambda>ud'. ret (Go ud')))) (\<lambda>ud'.
     ret (Go ud')))"

definition clean_movie :: "disk \<Rightarrow> doc \<Rightarrow> pv list \<Rightarrow> (mstate, pv list ctl) py" where
  "clean_movie dk movie deleted =
     bnd (gets m_added) (\<lambda>added.
     bnd (liftr (getIdentifier movie)) (\<lambda>ident.
     bnd (on_m (if ident \<notin> set added
            then bnd (liftr (rbind (dsub movie ''_id'') as_str)) (\<lambda>i. bnd (media_delete i ''all'') (\<lambda>_. ret deleted))
            else bnd (liftr (rbind (as_list (dgetd movie ''releases'' (PList []))) (mapr as_dict))) (\<lambda>releases.
                 bnd (for_each releases (clean_gone dk)) (\<lambda>_.
                 if 1 < length releases
                 then bnd (for_acc releases ([], deleted) dup_release) (\<lambda>ud. ret (snd ud))
                 else ret deleted)))) (\<lambda>deleted'.
     bnd (on_m stopping) (\<lambda>stop.
     ret (if stop then Brk deleted' else Go deleted')))))"

definition done_query :: list_query where
  "done_query = \<lparr>lq_types = [''movie''], lq_status = [''done''], lq_release_status = [''done''], lq_status_or = True,
     lq_limit_offset = [], lq_with_tags = [], lq_starts_with = [], lq_search = []\<rparr>"

definition cleanup_library :: "disk \<Rightarrow> (mstate, unit) py" where
  "cleanup_library dk =
     bnd (on_m (catch (bnd (media_list done_query) (\<lambda>r. ret (Some r))) (\<lambda>_. ret None))) (\<lambda>r. case r of
         None \<Rightarrow> raise TypeError
       | Some (_, done_movies) \<Rightarrow>
           bnd (for_acc done_movies [] (clean_movie dk)) (\<lambda>_.
           bnd (on_m stopping) (\<lambda>_. ret ())))"

section \<open>Waiting for the folders\<close>

text \<open>One round of the loop at the end: the folders that have nothing to go are dropped. A folder whose
  scan found no group has no count, and comparing it raises.\<close>

definition wait_round :: "(mstate, unit) py" where
  "wait_round = bnd (gets m_progress) (\<lambda>p.
     bnd (liftr (rbind (as_dict p) (filterr (\<lambda>(_, v). rbind (vsub v ''to_go'') (\<lambda>g. rbind (num_res g) (\<lambda>n. Inr (0 < n)))))))
       (\<lambda>left. modify (\<lambda>s. s\<lparr>m_progress := PDict left\<rparr>)))"

text \<open>At most \<open>n\<close> rounds of the loop; the flag says whether it came to its end.\<close>

fun wait_rounds :: "nat \<Rightarrow> (mstate, bool) py" where
  "wait_rounds 0 = ret False"
| "wait_rounds (Suc n) = bnd (gets m_progress) (\<lambda>p.
     if \<not> truthy p then ret True else
     bnd (on_m stopping) (\<lambda>stop.
     if stop then ret True else bnd wait_round (\<lambda>_. wait_rounds n)))"

definition update_body :: "outside \<Rightarrow> scan_libs \<Rightarrow> disk \<Rightarrow> bool \<Rightarrow> rat \<Rightarrow> (mstate, unit) py" where
  "update_body ou libs dk full since =
     bnd directories (\<lambda>dirs0. let dirs = sorted_by id dirs0 in
     bnd (modify (\<lambda>s. s\<lparr>m_progress := PDict (dupdate [] (map (\<lambda>d. (normpath d, PDict new_progress)) dirs)), m_added := []\<rparr>)) (\<lambda>_.
     bnd (for_acc dirs () (update_folder ou libs dk full since)) (\<lambda>_.
     bnd (mconf ''cleanup'') (\<lambda>c.
     bnd (if truthy c \<and> full then bnd (on_m stopping) (\<lambda>stop. ret (\<not> stop)) else ret False) (\<lambda>clean.
     bnd (whenp clean (cleanup_library dk)) (\<lambda>_.
     bnd (gets (\<lambda>s. now (mw s))) (\<lambda>t.
     on_m (on_db (setProperty (last_update_key full) (str_of_int t @ ''.0''))))))))))"

text \<open>The whole update, waiting at most \<open>n\<close> rounds: \<open>False\<close> when it is still waiting after them.\<close>

definition updateLibrary :: "outside \<Rightarrow> scan_libs \<Rightarrow> disk \<Rightarrow> nat \<Rightarrow> bool \<Rightarrow> (mstate, bool) py" where
  "updateLibrary ou libs dk n full =
     bnd (last_update full) (\<lambda>since.
     bnd (gets m_progress) (\<lambda>p.
     if truthy p then ret True else
     bnd (mconf ''enabled'') (\<lambda>en.
     bnd (gets (\<lambda>s. now (mw s))) (\<lambda>t.
     if \<not> enabled en \<or> of_int t - 20 < since then ret True else
     bnd (modify (\<lambda>s. s\<lparr>m_progress := PDict []\<rparr>)) (\<lambda>_.
     bnd (on_m (fire_unit ''notify.frontend'' [PStr ''manage.updating'', PBool True])) (\<lambda>_.
     bnd (catch (update_body ou libs dk full since) (\<lambda>_. ret ())) (\<lambda>_.
     bnd (wait_rounds n) (\<lambda>ended.
     if \<not> ended then ret False else
     bnd (on_m (fire_unit ''notify.frontend'' [PStr ''manage.updating'', PBool False])) (\<lambda>_.
     bnd (modify (\<lambda>s. s\<lparr>m_progress := PBool False\<rparr>)) (\<lambda>_. ret True))))))))))"

definition updateLibraryView :: "string \<Rightarrow> (mstate, doc) py" where
  "updateLibraryView full =
     bnd (on_m (fire_async ''manage.update'' [PBool (full = ''1'')])) (\<lambda>_.
     bnd (gets m_progress) (\<lambda>p. ret [(''progress'', p), (''success'', PBool True)]))"

definition getProgress :: "(mstate, doc) py" where
  "getProgress = bnd (gets m_progress) (\<lambda>p. ret [(''progress'', p)])"

section \<open>Files that were renamed\<close>

definition add_group :: "doc \<Rightarrow> doc \<Rightarrow> (world, unit) py" where
  "add_group release_download gr =
     (if \<not> truthy (dget gr ''media'') then ret () else
      bnd (add_release gr True (if truthy (dget release_download ''release_id'') \<and> dget release_download ''status'' \<noteq> PStr ''seeding''
             then dget release_download ''release_id'' else PNone)) (\<lambda>_. ret ()))"

definition scanFilesToLibrary ::
  "outside \<Rightarrow> scan_libs \<Rightarrow> disk \<Rightarrow> string \<Rightarrow> string list \<Rightarrow> doc \<Rightarrow> (world, unit) py" where
  "scanFilesToLibrary ou libs dk folder files release_download =
     bnd (catch (scan own_world ou libs dk (\<lambda>_ _ _. ret ())
             \<lparr>sa_folder = normpath folder, sa_files = files, sa_download = release_download, sa_simple = False,
              sa_newer_than = 0, sa_return_ignored = True, sa_check_date = True\<rparr>)
            (\<lambda>_. ret [])) (\<lambda>groups.
     for_each (map snd groups) (add_group release_download))"

context calm
begin

lemma calm_scanFilesToLibrary: "keeps (fires Q) (scanFilesToLibrary ou libs dk f fs rd)"
  unfolding scanFilesToLibrary_def add_group_def
  by (intro keeps_if calm_intros calm_scan calm_add_release)

end

section \<open>An update that never ends\<close>

text \<open>A folder without a count, and the relation under which it stays so.\<close>

definition uncounted :: "string \<Rightarrow> mstate \<Rightarrow> bool" where
  "uncounted f s \<longleftrightarrow> (\<exists>ps d. m_progress s = PDict ps \<and> dget ps f = PDict d \<and> dget d ''to_go'' = PNone)"

definition blocks :: "string \<Rightarrow> mstate \<Rightarrow> mstate \<Rightarrow> bool" where
  "blocks f s t \<longleftrightarrow> ans (mw t) = ans (mw s) \<and> (uncounted f s \<longrightarrow> uncounted f t)"

interpretation bl: frame "blocks f" for f
  by unfold_locales (auto simp: blocks_def)

lemma blocks_view: "steady (look mview s) w \<Longrightarrow> blocks f s (put_back mview w s)"
  by (auto simp: blocks_def mview_def uncounted_def dest: steady_ans)

lemma blocks_on_m: "keeps steady m \<Longrightarrow> keeps (blocks f) (on_m m)"
  unfolding on_m_def by (rule bl.keeps_via [OF blocks_view])

lemma blocks_mconf: "keeps (blocks f) (mconf a)"
  by (simp add: mconf_def bl.keeps_gets)

lemma blocks_set_progress: "g \<noteq> f \<Longrightarrow> keeps (blocks f) (set_progress g d)"
  unfolding set_progress_def
  by (rule bl.keeps_modify) (auto simp: blocks_def uncounted_def split: pv.splits)

lemma blocks_folder_progress: "keeps (blocks f) (folder_progress g)"
  unfolding folder_progress_def by (intro bl.keeps_intros)

lemmas blocks_intros = bl.keeps_intros blocks_on_m blocks_mconf blocks_set_progress blocks_folder_progress
  steady_intros steady_stopping steady_media_get_event steady_movie_update steady_add_release steady_media_delete
  steady_clean_release steady_delete_release steady_media_list

lemma blocks_updateProgress: "g \<noteq> f \<Longrightarrow> keeps (blocks f) (updateProgress g n)"
  unfolding updateProgress_def Let_def by (intro blocks_intros)

lemma blocks_update_found: "keeps (blocks f) (update_found ou g i)"
  unfolding update_found_def afterUpdate_def by (auto intro!: blocks_intros split: option.split)

lemma blocks_note_added: "keeps (blocks f) (modify (\<lambda>s. s\<lparr>m_added := h s\<rparr>))"
  by (rule bl.keeps_modify) (simp add: blocks_def uncounted_def)

lemma blocks_addToLibrary: "g \<noteq> f \<Longrightarrow> keeps (blocks f) (addToLibrary ou g gr m n)"
  unfolding addToLibrary_def
  by (intro keeps_if blocks_intros blocks_updateProgress blocks_update_found blocks_note_added)

lemma blocks_update_folder:
  assumes "normpath dir = f \<Longrightarrow> \<not> d_isdir dk f"
  shows "keeps (blocks f) (update_folder ou libs dk full since dir u)"
proof (cases "normpath dir = f")
  case True
  with assms have "\<not> d_isdir dk f" by simp
  then show ?thesis
    by (auto simp: keeps_def update_folder_def folder_progress_def set_progress_def True py_simps blocks_def uncounted_def
        rbind_eq_Inr dest!: dsub_Inr split: prod.splits sum.splits pv.splits)
next
  case False
  then show ?thesis unfolding update_folder_def Let_def
    by (intro keeps_if blocks_intros bl.keeps_scan blocks_view blocks_addToLibrary)
qed

lemma blocks_clean_movie: "keeps (blocks f) (clean_movie dk m d)"
  unfolding clean_movie_def clean_gone_def dup_release_def dup_file_def
  by (auto intro!: blocks_intros split: option.split)

lemma blocks_cleanup: "keeps (blocks f) (cleanup_library dk)"
  unfolding cleanup_library_def by (auto intro!: blocks_intros blocks_clean_movie split: option.split prod.split)

lemma ro_last_update: "keeps (=) (last_update full)"
proof -
  have "keeps (=) (on_db (getProperty k))" for k
    by (auto simp: keeps_def on_db_def getProperty_def db_get_by_def py_simps split: prod.splits sum.splits)
  then have "keeps (=) (on_m (on_db (getProperty k)))" for k
    by (auto simp: keeps_def on_m_run split: prod.splits) (metis mstate.surjective mstate.update_convs(1) snd_conv)
  then show ?thesis unfolding last_update_def by (intro ro.keeps_intros)
qed

lemma dget_dupdate_all: "x \<in> set ds \<Longrightarrow> dget (dupdate d0 (map (\<lambda>d. (g d, v)) ds)) (g x) = v"
proof (induction ds arbitrary: d0)
  case (Cons d ds)
  show ?case
  proof (cases "x \<in> set ds")
    case True
    then show ?thesis using Cons.IH by (simp add: dupdate_def)
  next
    case False
    with Cons.prems have "x = d" by simp
    moreover have "dget (dupdate e (map (\<lambda>d. (g d, v)) ds)) k = v" if "dget e k = v" for e k
      using that by (induction ds arbitrary: e) (auto simp: dupdate_def dget_dput)
    ultimately show ?thesis by (simp add: dupdate_def dget_dput)
  qed
qed simp

lemma update_body_uncounted:
  assumes "directories s = (Inr dirs, s1)" "d \<in> set dirs" "\<not> d_isdir dk (normpath d)"
  shows "uncounted (normpath d) (snd (update_body ou libs dk full since s)) \<and>
    ans (mw (snd (update_body ou libs dk full since s))) = ans (mw s)"
proof -
  let ?f = "normpath d"
  let ?ds = "sorted_by id dirs"
  let ?s2 = "s1\<lparr>m_progress := PDict (dupdate [] (map (\<lambda>d. (normpath d, PDict new_progress)) ?ds)), m_added := []\<rparr>"
  have s1: "s1 = s" using assms(1) by (simp add: directories_def py_simps)
  define rest where "rest = bnd (for_acc ?ds () (update_folder ou libs dk full since)) (\<lambda>_.
     bnd (mconf ''cleanup'') (\<lambda>c.
     bnd (if truthy c \<and> full then bnd (on_m stopping) (\<lambda>stop. ret (\<not> stop)) else ret False) (\<lambda>clean.
     bnd (whenp clean (cleanup_library dk)) (\<lambda>_.
     bnd (gets (\<lambda>s. now (mw s))) (\<lambda>t.
     on_m (on_db (setProperty (last_update_key full) (str_of_int t @ ''.0''))))))))"
  have run: "update_body ou libs dk full since s = rest ?s2"
    using assms(1) by (simp add: update_body_def Let_def bnd_Inr modify_run rest_def)
  have "keeps (blocks ?f) rest" unfolding rest_def
    by (intro keeps_if blocks_intros blocks_cleanup blocks_update_folder) (simp_all add: assms(3))
  then have "blocks ?f ?s2 (snd (rest ?s2))" by (rule keepsD)
  moreover have "uncounted ?f ?s2"
    using assms(2) by (simp add: uncounted_def dget_dupdate_all) (simp add: new_progress_def dget_def)
  ultimately show ?thesis unfolding run by (simp add: blocks_def s1)
qed

lemma wait_round_uncounted: "uncounted f s \<Longrightarrow> \<exists>e. wait_round s = (Inl e, s)"
proof -
  assume "uncounted f s"
  then obtain ps d where p: "m_progress s = PDict ps" "dget ps f = PDict d" "dget d ''to_go'' = PNone"
    by (auto simp: uncounted_def)
  have "(f, PDict d) \<in> set ps" using p(2) by (auto simp: dget_def dest: map_of_SomeD split: option.splits)
  moreover have "\<exists>e. rbind (vsub (PDict d) ''to_go'') (\<lambda>g. rbind (num_res g) (\<lambda>n. Inr (0 < n))) = Inl e"
    using p(3) by (cases "dsub d ''to_go''") (auto simp: num_res_def dest!: dsub_Inr)
  ultimately have "\<exists>e. filterr (\<lambda>(_, v). rbind (vsub v ''to_go'') (\<lambda>g. rbind (num_res g) (\<lambda>n. Inr (0 < n)))) ps = Inl e"
  proof (induction ps)
    case (Cons p ps)
    show ?case
    proof (cases "p = (f, PDict d)")
      case True
      with Cons.prems(2) show ?thesis by (auto simp del: vsub.simps)
    next
      case False
      with Cons have "\<exists>e. filterr (\<lambda>(_, v). rbind (vsub v ''to_go'') (\<lambda>g. rbind (num_res g) (\<lambda>n. Inr (0 < n)))) ps = Inl e"
        by auto
      then show ?thesis by (auto simp: rbind_def split: sum.splits)
    qed
  qed simp
  then show ?thesis using p(1) by (auto simp: wait_round_def py_simps)
qed

lemma uncounted_truthy: "uncounted f s \<Longrightarrow> truthy (m_progress s)"
  by (auto simp: uncounted_def dget_def)

lemma update_refused:
  assumes "truthy (m_progress s)"
  shows "snd (updateLibrary ou libs dk n full s) = s"
proof -
  obtain r t where l: "last_update full s = (r, t)" by (cases "last_update full s")
  with keeps_eqD [OF ro_last_update] have "t = s" by blast
  with l assms show ?thesis by (cases r) (simp_all add: updateLibrary_def bnd_run gets_run ret_run)
qed

text \<open>C33: a folder of the library that is not there (an unmounted disk) blocks the update of the library for
  good: once an update has started, its last loop compares a count that was never set, which raises,
  so the update never says that it has ended, and every later update is refused.\<close>

theorem missing_folder_blocks:
  assumes "\<not> truthy (m_progress s)" "enabled (conf (mw s) ''manage'' ''enabled'')"
    and "last_update full s = (Inr since, s)" "since \<le> of_int (now (mw s)) - 20"
    and "directories s = (Inr dirs, s)" "d \<in> set dirs" "\<not> d_isdir dk (normpath d)"
    and "running (mw s)"
  shows "\<exists>r s'. updateLibrary ou libs dk n full s = (r, s') \<and> r \<noteq> Inr True \<and>
    (\<forall>ou libs dk n full. snd (updateLibrary ou libs dk n full s') = s')"
proof -
  let ?s1 = "s\<lparr>m_progress := PDict []\<rparr>"
  let ?ev = "(''notify.frontend'', [PStr ''manage.updating'', PBool True])"
  let ?s2 = "?s1\<lparr>mw := (mw s)\<lparr>fired := fired (mw s) @ [?ev]\<rparr>\<rparr>"
  let ?b = "catch (update_body ou libs dk full since) (\<lambda>_. ret ())"
  obtain v s3 where b: "?b ?s2 = (Inr v, s3)"
    using catch_ret_ok [of "update_body ou libs dk full since" "()"] by blast
  then have s3: "s3 = snd (update_body ou libs dk full since ?s2)"
    by (auto simp: py_simps split: prod.splits sum.splits)
  have "directories ?s2 = (Inr dirs, ?s2)"
    using assms(5) by (simp add: directories_def py_simps)
  from update_body_uncounted [OF this assms(6,7), of ou libs full since]
  have u: "uncounted (normpath d) s3" and a: "ans (mw s3) = ans (mw s)" by (simp_all add: s3)
  obtain r s4 where w: "wait_rounds n s3 = (r, s4)" by (cases "wait_rounds n s3")
  have nr: "r \<noteq> Inr True \<and> m_progress s4 = m_progress s3"
  proof (cases n)
    case 0
    with w show ?thesis by (auto simp: ret_run)
  next
    case (Suc k)
    let ?t = "s3\<lparr>mw := (mw s3)\<lparr>fired := fired (mw s3) @ [(''shuttingDown'', [])]\<rparr>\<rparr>"
    have "uncounted (normpath d) ?t" using u by (simp add: uncounted_def)
    from wait_round_uncounted [OF this] obtain e where "wait_round ?t = (Inl e, ?t)" by blast
    with w Suc uncounted_truthy [OF u] a assms(8) show ?thesis
      by (auto simp: py_simps stopping_def running_def)
  qed
  with uncounted_truthy [OF u] have "truthy (m_progress s4)" by simp
  note refused = update_refused [OF this]
  have "updateLibrary ou libs dk n full s = (case r of Inl e \<Rightarrow> Inl e | Inr _ \<Rightarrow> Inr False, s4)"
    using assms(1-4) b w nr
    by (simp add: updateLibrary_def mconf_def bnd_run gets_run modify_run on_m_run fire_unit_run ret_run split: sum.splits)
  with nr refused show ?thesis by (cases r) auto
qed

definition demo_mstate :: mstate where
  "demo_mstate = \<lparr>mw = demo_world\<lparr>now := 100, sett := demo_settings\<lparr>
       parser := [(''manage'', [(''library'', PStr ''/films''), (''enabled'', PStr ''1'')])],
       types := [(''manage'', [(''library'', PStr ''directories''), (''enabled'', PStr ''enabler'')])]\<rparr>\<rparr>,
     m_progress = PBool False, m_added = []\<rparr>"

lemma demo_directories: "directories demo_mstate = (Inr [''/films''], demo_mstate)"
proof -
  have "split_on ''::'' ''/films'' = [''/films'']" by code_simp
  then show ?thesis
    by (simp add: directories_def py_simps demo_mstate_def get_setting_def isOptionMeta_def optionMetaSuffix_def
        endswith_def suffix_def getType_def get_by_type_def getDirectories_def p_get_def directories_delimiter_def
        lower_def lower_char_def is_upper_az_def cp_def dget_def dhas_def strip_on_def lstrip_on_def rstrip_on_def is_space_def)
qed

lemma demo_enabled: "enabled (conf (mw demo_mstate) ''manage'' ''enabled'')"
  by (simp add: enabled_def conf_def demo_mstate_def get_setting_def isOptionMeta_def optionMetaSuffix_def
      endswith_def suffix_def getType_def get_by_type_def getEnabler_def getBool_def p_getboolean_def p_get_def
      lower_def lower_char_def is_upper_az_def cp_def dget_def dhas_def)

lemma demo_last_update: "last_update True demo_mstate = (Inr 0, demo_mstate)"
  by (simp add: last_update_def demo_mstate_def getProperty_def db_get_by_def query_def demo_world_def empty_db_def
      live_docs_def index_entries_def py_simps)

theorem missing_folder_blocks_witness:
  "\<exists>r s'. updateLibrary demo_outside \<lparr>enzyme = \<lambda>_. Inl ValueError, subtitles_of = \<lambda>_. Inr []\<rparr>
       (demo_disk\<lparr>d_isdir := \<lambda>_. False\<rparr>) 5 True demo_mstate = (r, s') \<and> r \<noteq> Inr True \<and>
    (\<forall>ou libs dk n full. snd (updateLibrary ou libs dk n full s') = s')"
  by (rule missing_folder_blocks [OF _ demo_enabled demo_last_update _ demo_directories, of "''/films''"])
    (simp_all add: demo_mstate_def demo_world_def running_def demo_disk_def)

end
