(* ===== verification/Renamer.thy ===== *)
theory Renamer
  imports RenamerExtract Manage
begin

text \<open>
  couchpotato/core/plugins/renamer.py, \<open>scan\<close>: what was downloaded is filed in the library. The part
  before the flag \<open>renaming_started\<close> is set is \<open>prepare\<close>; the work on what the scanner found is
  \<open>rename_groups\<close>, one group at a time. A release that comes with the call is a dict which the method changes;
  the dict as it is afterwards is the model's result.
\<close>

record renv =
  rn_libs :: rename_libs
  rn_ou :: outside
  rn_scan :: scan_libs

abbreviation sub_folder :: "renv \<Rightarrow> string \<Rightarrow> string \<Rightarrow> bool" where
  "sub_folder e \<equiv> isSubFolder (realpath_of (rn_libs e))"

section \<open>Settings\<close>

definition text_conf :: "world \<Rightarrow> string \<Rightarrow> string" where
  "text_conf w attr = str_or_empty (conf w ''renamer'' attr)"

definition flag_conf :: "world \<Rightarrow> string \<Rightarrow> bool" where
  "flag_conf w attr = truthy (conf w ''renamer'' attr)"

definition flag :: "string \<Rightarrow> (rstate, bool) py" where
  "flag attr = gets (\<lambda>s. flag_conf (rw s) attr)"

definition cd_keys :: "string list" where
  "cd_keys = [''<cd>'', ''<cd_nr>'', ''<original>'']"

definition file_pattern :: "string \<Rightarrow> string \<Rightarrow> string" where
  "file_pattern folder_name file_name0 =
     (let file_name = (if file_name0 = [] then ''<original>.<ext>'' else file_name0)
      in if \<not> list_ex (\<lambda>x. contains x folder_name) cd_keys \<and> \<not> list_ex (\<lambda>x. contains x file_name) cd_keys
         then ''<cd> '' @ file_name else file_name)"

definition naming_of :: "world \<Rightarrow> naming" where
  "naming_of w = \<lparr>nm_folder = text_conf w ''folder_name'',
     nm_file = file_pattern (text_conf w ''folder_name'') (text_conf w ''file_name''),
     nm_trailer = text_conf w ''trailer_name'', nm_nfo = text_conf w ''nfo_name'', nm_sep = text_conf w ''separator'',
     nm_foldersep = text_conf w ''foldersep'', nm_doubles = flag_conf w ''replace_doubles'',
     nm_rename_nfo = flag_conf w ''rename_nfo'', nm_cleanup = flag_conf w ''cleanup'',
     nm_move_leftover = flag_conf w ''move_leftover'', nm_tab_threed = flag_conf w ''use_tab_threed''\<rparr>"

definition moveTypeIsLinked :: "world \<Rightarrow> bool" where
  "moveTypeIsLinked w =
     (conf w ''renamer'' ''default_file_action'' \<in> {PStr ''copy'', PStr ''link'', PStr ''symlink_reversed''})"

definition ignored_paths :: "world \<Rightarrow> string list" where
  "ignored_paths w = (if text_conf w ''ignored_in_path'' = [] then []
     else split_on '':'' (text_conf w ''ignored_in_path''))"

definition keep_path :: "string list \<Rightarrow> string \<Rightarrow> bool" where
  "keep_path ignored filename = (\<not> list_ex (\<lambda>i. contains i (lower filename)) ignored)"

definition filesAfterIgnoring :: "world \<Rightarrow> string list \<Rightarrow> string list" where
  "filesAfterIgnoring w files = filter (keep_path (ignored_paths w)) files"

definition statusInfoComplete :: "doc \<Rightarrow> bool" where
  "statusInfoComplete rd = (truthy (dget rd ''id'') \<and> truthy (dget rd ''downloader'') \<and> truthy (dget rd ''folder''))"

definition movieInFromFolder :: "renv \<Rightarrow> world \<Rightarrow> string \<Rightarrow> bool" where
  "movieInFromFolder e w media_folder =
     (media_folder \<noteq> [] \<and> sub_folder e media_folder (sp (text_conf w ''from'')) \<or> media_folder = [])"

definition downloadIsTorrent :: "doc \<Rightarrow> bool" where
  "downloadIsTorrent rd = (rd \<noteq> [] \<and> dget rd ''protocol'' \<in> {PStr ''torrent'', PStr ''torrent_magnet''})"

section \<open>Before the work starts\<close>

text \<open>The folders that must not be inside the one that is read: the library and those of the categories.\<close>

definition no_process :: "string \<Rightarrow> (rstate, string list) py" where
  "no_process to_folder =
     bnd (on_w (call_handler (bnd all_categories (\<lambda>ds. ret (PList (map PDict ds)))))) (\<lambda>v.
     bnd (liftr (rbind (if truthy v then as_list v else Inr []) (mapr (\<lambda>c. rbind (vsub c ''destination'') as_str)))) (\<lambda>ds.
     ret (to_folder # ds)))"

text \<open>The folder of the download, or where it is below the folder \<open>from\<close>; \<open>None\<close> when it is nowhere.\<close>

definition locate_media :: "string \<Rightarrow> string \<Rightarrow> doc \<Rightarrow> (rstate, (doc \<times> string) option) py" where
  "locate_media from_folder media_folder rd =
     bnd (readf (\<lambda>fs. isdir fs media_folder)) (\<lambda>there.
     if media_folder = [] \<or> there then ret (Some (rd, media_folder)) else
     bnd (liftr (as_list (dgetd rd ''files'' (PList [])))) (\<lambda>files.
     let new_folder = (if length files = 1 then sp from_folder else sp (join_path from_folder (basename media_folder))) in
     bnd (readf (\<lambda>fs. isdir fs new_folder)) (\<lambda>new_there.
     if \<not> new_there then ret None else
     bnd (liftr (mapr as_str files)) (\<lambda>names.
     let new_files = map (\<lambda>f. join_path new_folder (relpath f media_folder)) names in
     readf (\<lambda>fs. if new_files \<noteq> [] \<and> \<not> isfile fs (hd new_files) then None
       else Some (dupdate rd [(''folder'', PStr new_folder), (''files'', PList (map PStr new_files))], new_folder))))))"

record scan_start =
  st_base :: string
  st_to :: string
  st_media :: string
  st_download :: doc

datatype started = Refused doc | Start scan_start

definition run_checker :: "(rstate, unit) py \<Rightarrow> doc \<Rightarrow> (rstate, unit) py" where
  "run_checker checker rd =
     (if rd \<noteq> [] then ret ()
      else bnd (rconf ''run_every'') (\<lambda>v. bnd (liftr (num_res v)) (\<lambda>n. whenp (0 < n) checker)))"

text \<open>The guards. \<open>checker\<close> is \<open>checkSnatched(fire_scan = False)\<close>.\<close>

definition prepare ::
  "renv \<Rightarrow> (rstate, unit) py \<Rightarrow> string \<Rightarrow> doc \<Rightarrow> string \<Rightarrow> (rstate, started) py" where
  "prepare e checker base0 rd0 to0 =
     bnd (rconf ''enabled'') (\<lambda>en.
     bnd (gets renaming_started) (\<lambda>busy.
     if \<not> enabled en \<or> busy then ret (Refused rd0) else
     bnd (gets (\<lambda>s. (sp (text_conf (rw s) ''from''), sp (text_conf (rw s) ''to'')))) (\<lambda>(from_folder, conf_to).
     let base_folder = (if base0 = [] then from_folder else base0);
         to_folder = (if to0 = [] then conf_to else to0);
         media0 = sp (str_or_empty (dget rd0 ''folder'')) in
     bnd (no_process to_folder) (\<lambda>shut.
     bnd (readf (\<lambda>fs. isdir fs base_folder \<and> isdir fs to_folder)) (\<lambda>there.
     if \<not> there \<or> list_ex (\<lambda>item. sub_folder e item base_folder) shut then ret (Refused rd0) else
     bnd (locate_media from_folder media0 rd0) (\<lambda>lm. case lm of
         None \<Rightarrow> ret (Refused rd0)
       | Some (rd, media_folder) \<Rightarrow>
           if list_ex (\<lambda>item. sub_folder e item media_folder) shut then ret (Refused rd)
           else bnd (run_checker checker rd) (\<lambda>_.
                ret (Start \<lparr>st_base = base_folder, st_to = to_folder, st_media = media_folder, st_download = rd\<rparr>))))))))"

section \<open>The files to look at\<close>

text \<open>The folder to scan (\<open>[]\<close> for none) and the files in it.\<close>

definition media_files :: "string \<Rightarrow> doc \<Rightarrow> (rstate, string \<times> string list) py" where
  "media_files media_folder rd =
     (if media_folder = [] then ret ([], [])
      else if truthy (dget rd ''files'')
      then bnd (liftr (rbind (as_list (dget rd ''files'')) (mapr as_str))) (\<lambda>files.
           ret (if length files = 1 then media_folder else dirname media_folder, files))
      else gets (\<lambda>s. (dirname media_folder, filesAfterIgnoring (rw s) (map sp (walk_paths (rfs s) media_folder)))))"

text \<open>What the database knows of the release that was downloaded.\<close>

definition download_facts :: "doc \<Rightarrow> doc \<Rightarrow> doc res" where
  "download_facts rls media =
     rbind (getIdentifier media) (\<lambda>imdb. rbind (dsub rls ''quality'') (\<lambda>q. rbind (dsub rls ''is_3d'') (\<lambda>d3.
     rbind (vget (dgetd rls ''info'' (PDict [])) ''protocol'') (\<lambda>p.
     rbind (if truthy p then Inr p else vget (dgetd rls ''info'' (PDict [])) ''type'') (\<lambda>protocol.
     rbind (dsub rls ''_id'') (\<lambda>i.
     Inr [(''imdb_id'', imdb), (''quality'', q), (''is_3d'', d3), (''protocol'', protocol), (''release_id'', i)]))))))"

definition extendReleaseDownload :: "doc \<Rightarrow> (world, doc) py" where
  "extendReleaseDownload rd =
     bnd (if rd \<noteq> [] \<and> truthy (dget rd ''id'')
          then catch (bnd (on_db (db_get_by ''release_download''
                   (PStr (fmt (dget rd ''downloader'') @ ''-'' @ fmt (dget rd ''id''))))) (\<lambda>h. ret (hit_doc h))) (\<lambda>_. ret [])
          else ret []) (\<lambda>rls.
     if rls = [] then ret rd else
     bnd (liftr (rbind (dsub rls ''media_id'') as_str)) (\<lambda>i.
     bnd (on_db (db_get i)) (\<lambda>media.
     bnd (liftr (download_facts rls media)) (\<lambda>d. ret (dupdate rd d)))))"

section \<open>One group: which film, and where to\<close>

record scan_ctx =
  sx_base :: string
  sx_to :: string
  sx_media :: string
  sx_download :: doc
  sx_torrent :: bool
  sx_keep :: bool
  sx_extracted :: "string list"
  sx_naming :: naming

definition connect_media :: "renv \<Rightarrow> doc \<Rightarrow> (rstate, pv) py" where
  "connect_media e gr =
     bnd (liftr (rbind (dsub gr ''media'') (\<lambda>m. vget m ''_id''))) (\<lambda>i.
     if \<not> truthy i
     then bnd (liftr (dsub gr ''identifier'')) (\<lambda>ident.
          on_w (call_handler (movie_add [(''identifier'', ident), (''profile_id'', PNone)] True False True True ''done'')))
     else on_w (bnd stopping (\<lambda>stop.
          call_handler (movie_update (md5 (rn_ou e)) (is_file (rn_ou e)) stop i PNone PNone False))))"

text \<open>The library folder and the label of the film's category.\<close>

definition category_place :: "string \<Rightarrow> doc \<Rightarrow> (rstate, string \<times> pv) py" where
  "category_place to_folder media =
     (let c = dget media ''category_id'' in
      if \<not> truthy c \<or> c = PStr ''-1'' then ret (to_folder, PStr [])
      else catch (bnd (liftr (as_str c)) (\<lambda>i. bnd (on_w (on_db (db_get i))) (\<lambda>category.
             bnd (liftr (dsub category ''label'')) (\<lambda>label.
             ret (case dget category ''destination'' of
                 PStr d \<Rightarrow> if d \<noteq> [] \<and> d \<noteq> ''None'' then sp d else to_folder
               | _ \<Rightarrow> to_folder, label)))))
           (\<lambda>_. ret (to_folder, PStr [])))"

text \<open>The listeners of \<open>renamer.before\<close> may add files, which join those that were unpacked.\<close>

definition before_rename :: "renv \<Rightarrow> scan_ctx \<Rightarrow> doc \<Rightarrow> (rstate, doc) py" where
  "before_rename e cx gr0 =
     (let gr1 = dput gr0 ''before_rename'' (PList []) in
      bnd (on_w (fire_unit ''renamer.before'' [PDict gr1])) (\<lambda>_.
      let gr = before_listeners (rn_libs e) gr1 in
      if sx_extracted cx = [] then ret gr
      else bnd (liftr (rbind (dsub gr ''before_rename'') as_list)) (\<lambda>l.
           ret (dput gr ''before_rename'' (PList (l @ map PStr (sx_extracted cx)))))))"

text \<open>The film's profile; one that is gone is taken off the film.\<close>

definition media_profile :: "doc \<Rightarrow> (world, pv) py" where
  "media_profile media =
     (if \<not> truthy (dget media ''profile_id'') then ret PNone
      else catch (bnd (liftr (as_str (dget media ''profile_id''))) (\<lambda>i. bnd (on_db (db_get i)) (\<lambda>p. ret (PDict p))))
        (\<lambda>_. bnd (liftr (rbind (dsub media ''_id'') as_str)) (\<lambda>i.
             bnd (on_db (db_get i)) (\<lambda>m.
             bnd (on_db (db_update (dput m ''profile_id'' PNone))) (\<lambda>_. ret PNone)))))"

section \<open>One group: the releases the film has already\<close>

record sorting_out =
  so_group :: doc
  so_files :: "string list"
  so_releases :: "doc list"
  so_recent :: bool
  so_better :: bool

definition isHigher_event :: "pv \<Rightarrow> doc \<Rightarrow> pv \<Rightarrow> (world, verdict option) py" where
  "isHigher_event q compare_with prof =
     catch (bnd (if no_profile prof then call_handler (bnd default_profile (\<lambda>d. ret (PDict d))) else ret PNone) (\<lambda>dflt.
            bnd (liftr (rbind (as_dict q) (\<lambda>qd. isHigher dflt qd compare_with prof))) (\<lambda>v. ret (Some v))))
       (\<lambda>_. ret None)"

definition group_quality_of :: "doc \<Rightarrow> string \<Rightarrow> pv res" where
  "group_quality_of gr k = rbind (dsub gr ''meta_data'') (\<lambda>m. rbind (vsub m ''quality'') (\<lambda>q. vsub q k))"

text \<open>A release that is done: a worse or equal one is replaced, a better one ends the renaming.\<close>

definition done_release :: "pv \<Rightarrow> string \<Rightarrow> doc \<Rightarrow> sorting_out \<Rightarrow> (rstate, sorting_out ctl) py" where
  "done_release prof media_title release so =
     bnd (liftr (rbind (dsub (so_group so) ''meta_data'') (\<lambda>m. vsub m ''quality''))) (\<lambda>q.
     bnd (liftr (dsub release ''quality'')) (\<lambda>rq.
     bnd (on_w (isHigher_event q [(''identifier'', rq), (''is_3d'', dgetd release ''is_3d'' (PBool False))] prof)) (\<lambda>v.
     if v = Some Higher \<or> v = Some Equal
     then bnd (flag ''remove_lower_quality_copies'') (\<lambda>rm.
          if \<not> rm then ret (Go so)
          else bnd (liftr (release_files release)) (\<lambda>fss.
               ret (Go (so\<lparr>so_files := so_files so @ concat fss, so_releases := so_releases so @ [release]\<rparr>))))
     else bnd (tag_group ''exists'' (so_group so)) (\<lambda>_.
          bnd (liftr (vsub q ''label'')) (\<lambda>label.
          bnd (on_w (fire_unit ''movie.renaming.canceled''
             [PStr (''Renaming of '' @ media_title @ '' ('' @ fmt label @ '') cancelled, exists in '' @ fmt (dget release ''quality'')
                @ '' already.''), PDict (so_group so)])) (\<lambda>_.
          ret (Brk (so\<lparr>so_better := True\<rparr>))))))))"

text \<open>A release that was snatched: the one the download belongs to, or one of the same quality.\<close>

definition note_download :: "doc \<Rightarrow> doc \<Rightarrow> string \<Rightarrow> sorting_out \<Rightarrow> (rstate, sorting_out ctl) py" where
  "note_download rd release status so =
     bnd (liftr (rbind (dsub release ''_id'') as_str)) (\<lambda>i.
     bnd (on_w (updateStatus i status)) (\<lambda>_.
     ret (Go (so\<lparr>so_group := dput (so_group so) ''release_download'' (PDict rd), so_recent := True\<rparr>))))"

definition snatched_release :: "doc \<Rightarrow> doc \<Rightarrow> sorting_out \<Rightarrow> (rstate, sorting_out ctl) py" where
  "snatched_release rd release so =
     (if truthy (dget rd ''release_id'')
      then bnd (liftr (dsub release ''_id'')) (\<lambda>i.
           if dget rd ''release_id'' \<noteq> i then ret (Go so)
           else bnd (liftr (dsub rd ''status'')) (\<lambda>st.
                if st = PStr ''completed'' then note_download rd release ''downloaded'' so
                else if st = PStr ''seeding'' then note_download rd release ''seeding'' so
                else ret (Go so)))
      else bnd (liftr (group_quality_of (so_group so) ''identifier'')) (\<lambda>qi.
           if dget release ''quality'' = qi then note_download rd release ''downloaded'' so else ret (Go so)))"

definition sort_release :: "doc \<Rightarrow> pv \<Rightarrow> string \<Rightarrow> doc \<Rightarrow> sorting_out \<Rightarrow> (rstate, sorting_out ctl) py" where
  "sort_release rd prof media_title release so =
     (if dget release ''status'' = PStr ''done'' then done_release prof media_title release so
      else if dget release ''status'' \<in> {PStr ''snatched'', PStr ''seeding''} then snatched_release rd release so
      else ret (Go so))"

definition sort_releases :: "scan_ctx \<Rightarrow> doc \<Rightarrow> pv \<Rightarrow> string \<Rightarrow> plan \<Rightarrow> (rstate, sorting_out) py" where
  "sort_releases cx media prof media_title p =
     bnd (liftr (rbind (dsub media ''_id'') as_str)) (\<lambda>i.
     bnd (on_w (forMedia_event i)) (\<lambda>v.
     bnd (liftr (rbind (as_list v) (mapr as_dict))) (\<lambda>releases.
     bnd (for_acc releases \<lparr>so_group = pgroup p, so_files = removes p, so_releases = [], so_recent = False, so_better = False\<rparr>
            (sort_release (sx_download cx) prof media_title)) (\<lambda>so.
     bnd (whenp (so_recent so) (bnd (on_w (media_tag i ''recent'' True)) (\<lambda>_. ret ()))) (\<lambda>_.
     ret so)))))"

text \<open>The files that belong to nothing, when they are to be cleaned up.\<close>

definition leftovers_to_remove :: "scan_ctx \<Rightarrow> doc \<Rightarrow> string list res" where
  "leftovers_to_remove cx gr = rbind (files_of_kind gr ''leftover'') (\<lambda>fs.
     Inr (if nm_cleanup (sx_naming cx) \<and> \<not> nm_move_leftover (sx_naming cx) then filter (removable (sx_keep cx) gr) fs else []))"

section \<open>One group: removing and moving\<close>

text \<open>The folders that may be empty afterwards are collected: not those around the library or the download.\<close>

definition remove_one ::
  "renv \<Rightarrow> scan_ctx \<Rightarrow> string \<Rightarrow> doc \<Rightarrow> (string \<times> string) list \<Rightarrow> string \<Rightarrow> string list \<Rightarrow> (rstate, string list ctl) py" where
  "remove_one e cx destination gr rename_files src0 delete_folders =
     (if map_of rename_files src0 \<notin> {None, Some []} then ret (Go delete_folders)
      else catch (let src = sp src0; parent_dir = dirname src in
        bnd (readf (\<lambda>fs. isfile fs src)) (\<lambda>there.
        if \<not> there then ret (Go delete_folders) else
        bnd (on_fs (os_remove src)) (\<lambda>_.
        readf (\<lambda>fs. Go (if parent_dir \<notin> set delete_folders \<and> isdir fs parent_dir \<and> \<not> sub_folder e destination parent_dir
            \<and> \<not> sub_folder e (sx_media cx) parent_dir \<and> sub_folder e parent_dir (sx_base cx)
          then delete_folders @ [parent_dir] else delete_folders)))))
        (\<lambda>_. bnd (tag_group ''failed_remove'' gr) (\<lambda>_. ret (Go delete_folders))))"

definition remove_files ::
  "renv \<Rightarrow> scan_ctx \<Rightarrow> string \<Rightarrow> doc \<Rightarrow> (string \<times> string) list \<Rightarrow> string list \<Rightarrow> (rstate, unit) py" where
  "remove_files e cx destination gr rename_files files =
     bnd (for_acc files [] (remove_one e cx destination gr rename_files)) (\<lambda>delete_folders.
     for_each (sorted_by_rev length delete_folders) (\<lambda>d. catch (on_fs (deleteEmptyFolder d)) (\<lambda>_. ret ())))"

text \<open>A place that was used already for a file of this group gets a random ending; the first failure
  ends the loop.\<close>

record moving =
  mv_renamed :: "string list"
  mv_failed :: bool

definition new_place :: "rename_libs \<Rightarrow> string list \<Rightarrow> string \<Rightarrow> string" where
  "new_place libs renamed dst =
     (if dst \<in> set renamed then dst @ ''.random-'' @ random_of libs (length renamed) else dst)"

definition move_one :: "renv \<Rightarrow> (string \<Rightarrow> bool) \<Rightarrow> string \<times> string \<Rightarrow> moving \<Rightarrow> (rstate, moving ctl) py" where
  "move_one e use_default sd mv =
     (if snd sd = [] then ret (Go mv) else
      let dst = new_place (rn_libs e) (mv_renamed mv) (snd sd) in
      bnd (on_fs (makeDir (dirname dst))) (\<lambda>_.
      catch (bnd (moveFile (fst sd) dst (use_default (fst sd))) (\<lambda>_. ret (Go (mv\<lparr>mv_renamed := mv_renamed mv @ [dst]\<rparr>))))
        (\<lambda>_. ret (Brk (mv\<lparr>mv_failed := True\<rparr>)))))"

definition move_all :: "renv \<Rightarrow> (string \<Rightarrow> bool) \<Rightarrow> (string \<times> string) list \<Rightarrow> (rstate, moving) py" where
  "move_all e use_default rename_files =
     for_acc rename_files \<lparr>mv_renamed = [], mv_failed = False\<rparr> (move_one e use_default)"

section \<open>One group: afterwards\<close>

definition remove_releases :: "doc list \<Rightarrow> (rstate, unit) py" where
  "remove_releases releases =
     for_each releases (\<lambda>r. catch (bnd (on_w (on_db (db_delete r))) (\<lambda>_. ret ())) (\<lambda>_. ret ()))"

text \<open>The folder of the download, or the first folder of the group's path below the folder that is read.\<close>

definition group_folder :: "scan_ctx \<Rightarrow> string \<Rightarrow> string" where
  "group_folder cx parentdir = (if sx_media cx \<noteq> [] then sx_media cx
     else sp (join_path (sx_base cx) (hd (split_on ''/'' (relpath parentdir (sx_base cx))))))"

definition drop_group_folder :: "scan_ctx \<Rightarrow> doc \<Rightarrow> (rstate, unit) py" where
  "drop_group_folder cx gr =
     bnd (liftr (rbind (dsub gr ''dirname'') (\<lambda>d. rbind (dsub gr ''parentdir'') (\<lambda>p. Inr (d, p))))) (\<lambda>(d, p).
     if \<not> truthy d \<or> \<not> truthy p \<or> sx_keep cx then ret ()
     else bnd (liftr (as_str p)) (\<lambda>parentdir.
          catch (whenp (nm_cleanup (sx_naming cx) \<or> nm_move_leftover (sx_naming cx))
                   (on_fs (deleteEmptyFolder (group_folder cx parentdir)))) (\<lambda>_. ret ())))"

definition downloaded_message :: "string \<Rightarrow> doc \<Rightarrow> pv" where
  "downloaded_message media_title r =
     (let d3 = dget r ''3d'' in
      PStr (''Downloaded '' @ media_title @ '' ('' @ fmt (dget r ''quality'') @ (if truthy d3 then '' '' @ fmt d3 else []) @ '')''))"

text \<open>The listeners of \<open>renamer.after\<close>: the last is the library's, which is in the model.\<close>

definition after_rename :: "renv \<Rightarrow> pv \<Rightarrow> doc \<Rightarrow> (rstate, unit) py" where
  "after_rename e message gr =
     bnd (on_w (fire_unit ''renamer.after'' [message, PDict gr])) (\<lambda>_.
     bnd (readf disk_of) (\<lambda>dk.
     catch (bnd (liftr (rbind (dsub gr ''destination_dir'') as_str)) (\<lambda>d.
            bnd (liftr (rbind (dsub gr ''renamed_files'') (\<lambda>l. Inr (str_list l)))) (\<lambda>files.
            on_w (scanFilesToLibrary (rn_ou e) (rn_scan e) dk d files
              (case dget gr ''release_download'' of PDict rd \<Rightarrow> rd | _ \<Rightarrow> []))))) (\<lambda>_. ret ())))"

text \<open>The files are moved; then the marks (removing the mark \<open>failed_rename\<close> of a group does nothing:
  \<open>untagRelease\<close> returns at once without a download), the releases that were replaced, the folder, and the
  listeners.\<close>

definition finish_group ::
  "renv \<Rightarrow> scan_ctx \<Rightarrow> string \<Rightarrow> plan \<Rightarrow> doc list \<Rightarrow> doc \<Rightarrow> (rstate, unit ctl) py" where
  "finish_group e cx media_title p replaced gr0 =
     bnd (move_all e (\<lambda>src. \<not> sx_torrent cx \<or> fileIsAdded src gr0) (renames p)) (\<lambda>mv.
     let gr = dput gr0 ''renamed_files'' (PList (map PStr (mv_renamed mv))) in
     if mv_failed mv then bnd (tag_group ''failed_rename'' gr) (\<lambda>_. ret (Go ()))
     else bnd (gets (\<lambda>s. movieInFromFolder e (rw s) (sx_media cx) \<and> sx_keep cx)) (\<lambda>stays.
          bnd (whenp stays (tag_group ''renamed_already'' gr)) (\<lambda>_.
          bnd (remove_releases replaced) (\<lambda>_.
          bnd (drop_group_folder cx gr) (\<lambda>_.
          bnd (after_rename e (downloaded_message media_title (repl p)) gr) (\<lambda>_.
          bnd (on_w stopping) (\<lambda>stop. ret (if stop then Brk () else Go ()))))))))"

definition space_missing :: "renv \<Rightarrow> string \<Rightarrow> (string \<times> string) list \<Rightarrow> (rstate, bool) py" where
  "space_missing e destination rename_files =
     bnd (flag ''check_space'') (\<lambda>b.
     if \<not> b then ret False else
     bnd (readf (\<lambda>fs. (getSize fs (map fst rename_files), free_mb (rn_libs e) fs destination))) (\<lambda>(sz, free).
     bnd (liftr sz) (\<lambda>n. ret (free < n))))"

definition rename_group :: "renv \<Rightarrow> scan_ctx \<Rightarrow> string \<times> doc \<Rightarrow> unit \<Rightarrow> (rstate, unit ctl) py" where
  "rename_group e cx ig _ =
     (let gr0 = dput (snd ig) ''release_download'' PNone in
      if \<not> truthy (dget gr0 ''media'') \<or> \<not> truthy (getTitle (PDict gr0))
      then bnd (tag_group ''unknown'' gr0) (\<lambda>_. ret (Go ()))
      else bnd (connect_media e gr0) (\<lambda>mv.
      if \<not> truthy mv then ret (Go ()) else
      bnd (liftr (as_dict mv)) (\<lambda>media.
      if \<not> truthy (dget media ''_id'') then ret (Go ()) else
      bnd (liftr (as_str (getTitle (PDict media)))) (\<lambda>media_title.
      bnd (category_place (sx_to cx) media) (\<lambda>(destination, label).
      bnd (before_rename e cx (dput gr0 ''media'' mv)) (\<lambda>gr1.
      bnd (liftr (replacements_of (sx_naming cx) gr1 media label media_title)) (\<lambda>r.
      bnd (readf f_order) (\<lambda>ordering.
      bnd (liftr (plan_group (sx_naming cx) ordering destination (sx_keep cx) r gr1)) (\<lambda>p.
      bnd (on_w (media_profile media)) (\<lambda>prof.
      bnd (sort_releases cx media prof media_title p) (\<lambda>so.
      if so_better so then ret (Go ()) else
      bnd (liftr (leftovers_to_remove cx (so_group so))) (\<lambda>lo.
      bnd (space_missing e destination (renames p)) (\<lambda>full.
      if full then bnd (tag_group ''not_enough_space'' (so_group so)) (\<lambda>_. ret (Go ()))
      else bnd (remove_files e cx destination (so_group so) (renames p) (so_files so @ lo)) (\<lambda>_.
           finish_group e cx media_title p (so_releases so) (so_group so)))))))))))))))"

section \<open>The scan\<close>

definition scan_found :: "renv \<Rightarrow> string \<Rightarrow> string list \<Rightarrow> doc \<Rightarrow> (rstate, (string \<times> doc) list) py" where
  "scan_found e folder files rd =
     bnd (readf disk_of) (\<lambda>dk.
     on_w (catch (scan own_world (rn_ou e) (rn_scan e) dk (\<lambda>_ _ _. ret ())
        \<lparr>sa_folder = folder, sa_files = files, sa_download = rd, sa_simple = False, sa_newer_than = 0,
         sa_return_ignored = False, sa_check_date = True\<rparr>) (\<lambda>_. ret [])))"

text \<open>The list of files of the download is the list that \<open>extractFiles\<close> changes.\<close>

definition left_files :: "scan_start \<Rightarrow> string list \<Rightarrow> doc \<Rightarrow> doc" where
  "left_files st files rd =
     (if st_media st \<noteq> [] \<and> truthy (dget rd ''files'') then dput rd ''files'' (PList (map PStr files)) else rd)"

text \<open>The work, between the setting and the clearing of the flag.\<close>

definition rename_groups :: "renv \<Rightarrow> scan_start \<Rightarrow> (rstate, doc) py" where
  "rename_groups e st =
     bnd (media_files (st_media st) (st_download st)) (\<lambda>(folder0, files0).
     bnd (on_w (if st_download st = [] then ret [] else extendReleaseDownload (st_download st))) (\<lambda>rd.
     bnd (gets (\<lambda>s. (rd \<noteq> [] \<and> downloadIsTorrent rd \<and> conf (rw s) ''renamer'' ''file_action'' \<noteq> PStr ''move'')
              \<or> moveTypeIsLinked (rw s))) (\<lambda>keep_original.
     bnd (flag ''unrar'') (\<lambda>unrar.
     bnd (flag ''cleanup'') (\<lambda>cleanup.
     bnd (if unrar then extractFiles (rn_libs e) folder0 (st_media st) files0 (cleanup \<and> \<not> keep_original)
          else ret (folder0, st_media st, files0, [])) (\<lambda>(folder, media_folder, files, extracted).
     let rd = (if unrar then left_files st files rd else rd) in
     bnd (scan_found e (if folder = [] then st_base st else folder) files rd) (\<lambda>groups.
     bnd (gets (\<lambda>s. naming_of (rw s))) (\<lambda>nm.
     bnd (whenp (groups = [] \<and> statusInfoComplete rd) (tag_download ''failed_rename'' rd)) (\<lambda>_.
     bnd (for_acc groups () (rename_group e \<lparr>sx_base = st_base st, sx_to = st_to st, sx_media = media_folder,
            sx_download = rd, sx_torrent = downloadIsTorrent rd, sx_keep = keep_original, sx_extracted = extracted,
            sx_naming = nm\<rparr>)) (\<lambda>_.
     ret rd))))))))))"

definition set_renaming :: "bool \<Rightarrow> (rstate, unit) py" where
  "set_renaming b = modify (\<lambda>s. s\<lparr>renaming_started := b\<rparr>)"

definition renamer_scan ::
  "renv \<Rightarrow> (rstate, unit) py \<Rightarrow> string \<Rightarrow> doc \<Rightarrow> string \<Rightarrow> (rstate, doc) py" where
  "renamer_scan e checker base_folder release_download to_folder =
     bnd (prepare e checker base_folder release_download to_folder) (\<lambda>st. case st of
         Refused rd \<Rightarrow> ret rd
       | Start start \<Rightarrow>
           bnd (set_renaming True) (\<lambda>_.
           bnd (rename_groups e start) (\<lambda>rd.
           bnd (set_renaming False) (\<lambda>_. ret rd))))"

section \<open>Requests\<close>

definition scan_request :: "doc \<Rightarrow> string \<times> doc \<times> string" where
  "scan_request kwargs =
     (let text = (\<lambda>k. str_or_empty (dget kwargs k));
          base_folder = text ''base_folder'';
          media0 = sp (text ''media_folder'');
          media_folder = (if media0 = [] then sp (text ''movie_folder'') else media0);
          files = map sp (splitString (text ''files'') ''|'' True)
      in (base_folder,
          if base_folder \<noteq> [] \<or> media_folder = [] then []
          else [(''folder'', PStr media_folder)] @
            (if truthy (dget kwargs ''download_id'')
             then [(''id'', dget kwargs ''download_id''), (''downloader'', dget kwargs ''downloader''),
                   (''status'', dgetd kwargs ''status'' (PStr ''completed'')), (''files'', PList (map PStr files))]
             else []),
          text ''to_folder''))"

definition scanView :: "renv \<Rightarrow> (rstate, unit) py \<Rightarrow> doc \<Rightarrow> (rstate, doc) py" where
  "scanView e checker kwargs = (case scan_request kwargs of (base_folder, rd, to_folder) \<Rightarrow>
     bnd (if tryInt (dgetd kwargs ''async'' (PInt 0)) 0 \<noteq> 0
          then on_w (fire_async ''renamer.scan'' [PStr base_folder, PDict rd, PStr to_folder])
          else catch (bnd (renamer_scan e checker base_folder rd to_folder) (\<lambda>_. ret ())) (\<lambda>_. ret ())) (\<lambda>_.
     ret [(''success'', PBool True)]))"

definition renamer_progress :: "(rstate, doc) py" where
  "renamer_progress = gets (\<lambda>s. [(''progress'', PBool (renaming_started s))])"

definition schedule_job :: "string \<Rightarrow> string \<Rightarrow> string \<Rightarrow> (world, unit) py" where
  "schedule_job job unit_name attr =
     bnd (fire_unit ''schedule.remove'' [PStr job]) (\<lambda>_.
     bnd (gets (\<lambda>w. (conf w ''renamer'' ''enabled'', conf w ''renamer'' attr))) (\<lambda>(en, every).
     if \<not> enabled en then ret ()
     else bnd (liftr (num_res every)) (\<lambda>n.
          whenp (0 < n) (fire_unit ''schedule.interval'' [PStr job, PStr unit_name, every]))))"

definition renamer_setCrons :: "(world, bool) py" where
  "renamer_setCrons =
     bnd (schedule_job ''renamer.check_snatched'' ''minutes'' ''run_every'') (\<lambda>_.
     bnd (schedule_job ''renamer.check_snatched_forced'' ''hours'' ''force_every'') (\<lambda>_. ret True))"

section \<open>An example of what is outside\<close>

definition demo_renv :: renv where
  "demo_renv = \<lparr>rn_libs = \<lparr>realpath_of = (\<lambda>p. p), before_listeners = (\<lambda>g. g), random_of = (\<lambda>_. ''x''),
     free_mb = (\<lambda>_ _. 100000), rar_list = (\<lambda>_ _. Inl OSError)\<rparr>, rn_ou = demo_outside,
     rn_scan = \<lparr>enzyme = (\<lambda>_. Inl ValueError), subtitles_of = (\<lambda>_. Inl ValueError)\<rparr>\<rparr>"

end
