(* ===== verification/RenamerFrame.thy ===== *)
theory RenamerFrame
  imports Renamer
begin

text \<open>
  What the work of the renamer keeps: a relation on its state that every change of the file system keeps, and
  every computation of the world that is \<open>fires Q\<close>, is kept by a whole scan up to its flag. The lemmas
  follow the structure of the definitions.
\<close>

locale rframe = frame R + calm Q for R :: "rstate \<Rightarrow> rstate \<Rightarrow> bool" and Q :: "string \<times> pv list \<Rightarrow> bool" +
  assumes any_files: "R s (s\<lparr>rfs := f\<rparr>)"
    and calm_world: "fires Q (rw s) w \<Longrightarrow> R s (s\<lparr>rw := w\<rparr>)"
begin

lemma keeps_on_fs: "keeps R (on_fs m)"
  by (auto simp: keeps_def on_fs_run any_files split: prod.split)

lemma keeps_on_w: "keeps (fires Q) m \<Longrightarrow> keeps R (on_w m)"
  by (auto simp: keeps_def on_w_run split: prod.split intro: calm_world) (metis snd_conv calm_world)

lemma keeps_reads: "keeps R (rconf a)" "keeps R (readf f)" "keeps R (flag a)"
  by (simp_all add: rconf_def readf_def flag_def keeps_gets)

lemmas r_intros = keeps_intros keeps_on_w keeps_on_fs keeps_reads

lemma keeps_moveFile: "keeps R (moveFile a b u)"
  unfolding moveFile_def by (intro r_intros)

lemma keeps_tags: "keeps R (tag_group t g)" "keeps R (tag_download t d)" "keeps R (hastagRelease t d)" "keeps R (untag_download t d)"
  unfolding tag_group_def tag_download_def hastagRelease_def untag_download_def Let_def by (intro keeps_if r_intros)+

text \<open>Unpacking.\<close>

lemma frame_x: "frame (\<lambda>s t. R (fst s) (fst t))"
  by unfold_locales (auto intro: frame_refl frame_trans)

lemma keeps_in_r: "keeps R m \<Longrightarrow> keeps (\<lambda>s t. R (fst s) (fst t)) (in_r m)"
  by (auto simp: keeps_def in_r_def split: prod.split) (metis snd_conv)

lemma keeps_on_x: "keeps (\<lambda>s t. R (fst s) (fst t)) (on_x m)"
proof -
  have "on_x m = in_r (on_fs m)" by (simp add: on_x_def in_r_def)
  then show ?thesis using keeps_in_r [OF keeps_on_fs] by simp
qed

lemma keeps_set_x: "keeps (\<lambda>s t. R (fst s) (fst t)) (set_x f)"
  unfolding set_x_def by (rule frame.keeps_modify [OF frame_x]) (auto intro: frame_refl)

lemma keeps_extract_body: "keeps (\<lambda>s t. R (fst s) (fst t)) (extract_body libs fr fo mf cl)"
proof -
  note x_intros = frame.keeps_intros [OF frame_x] keeps_in_r keeps_on_x keeps_set_x keeps_moveFile keeps_tags
  show ?thesis
    unfolding extract_body_def one_archive_def extract_archive_def extract_entry_def drop_archive_file_def move_leftover_def Let_def
    by (auto intro!: x_intros split: option.split)
qed

lemma keeps_with_x: "keeps (\<lambda>s t. R (fst s) (fst t)) m \<Longrightarrow> keeps R (with_x x m)"
  by (auto simp: keeps_def with_x_def split: prod.split) (metis fst_conv snd_conv)

lemma keeps_extractFiles: "keeps R (extractFiles libs fo mf fs cl)"
  unfolding extractFiles_def Let_def case_prod_beta by (intro r_intros keeps_with_x keeps_extract_body)

text \<open>The work.\<close>

lemma calm_media_profile: "keeps (fires Q) (media_profile m)"
  unfolding media_profile_def by (auto intro!: calm_intros)

lemma calm_isHigher_event: "keeps (fires Q) (isHigher_event q c p)"
  unfolding isHigher_event_def default_profile_def by (auto intro!: calm_intros)

lemma calm_extendReleaseDownload: "keeps (fires Q) (extendReleaseDownload rd)"
  unfolding extendReleaseDownload_def by (intro keeps_if calm_intros)

lemmas w_intros = r_intros calm_intros calm_stopping calm_movie_add calm_movie_update calm_media_profile calm_isHigher_event
  calm_extendReleaseDownload calm_forMedia_event calm_updateStatus calm_media_tag calm_scan calm_scanFilesToLibrary

lemma keeps_before: "keeps R (connect_media e gr)" "keeps R (category_place t m)"
  "keeps R (before_rename e cx gr)" "keeps R (locate_media a b rd)" "keeps R (no_process t)"
  "keeps R (media_files mf rd)" "keeps R (scan_found e fo fs rd)" "keeps R (space_missing e d rf)"
  unfolding connect_media_def category_place_def before_rename_def locate_media_def no_process_def media_files_def
    scan_found_def space_missing_def all_categories_def Let_def
  by (auto intro!: w_intros)

lemma keeps_sort_releases: "keeps R (sort_releases cx m pr t p)"
  unfolding sort_releases_def sort_release_def done_release_def snatched_release_def note_download_def
  by (auto intro!: w_intros keeps_tags)

lemma keeps_remove_files: "keeps R (remove_files e cx d gr rf fs)"
  unfolding remove_files_def remove_one_def Let_def by (intro keeps_if r_intros keeps_tags)

lemma keeps_move_all: "keeps R (move_all e u rf)"
  unfolding move_all_def move_one_def Let_def by (intro keeps_if r_intros keeps_moveFile)

lemma keeps_finish_group: "keeps R (finish_group e cx t p rs gr)"
  unfolding finish_group_def remove_releases_def drop_group_folder_def after_rename_def Let_def case_prod_beta
  by (auto intro!: w_intros keeps_tags keeps_move_all)

lemma keeps_rename_group: "keeps R (rename_group e cx ig u)"
  unfolding rename_group_def Let_def case_prod_beta
  by (intro keeps_if r_intros keeps_tags keeps_before keeps_sort_releases keeps_remove_files keeps_finish_group
      calm_media_profile)

lemma keeps_rename_groups: "keeps R (rename_groups e st)"
  unfolding rename_groups_def Let_def case_prod_beta
  by (intro keeps_if r_intros fr.keeps_ret keeps_tags keeps_before keeps_extractFiles keeps_rename_group calm_extendReleaseDownload)

lemma keeps_prepare: "keeps R checker \<Longrightarrow> keeps R (prepare e checker b rd t)"
  unfolding prepare_def run_checker_def Let_def case_prod_beta
  by (auto intro!: r_intros keeps_before split: option.split)

end

end
