(* ===== verification/RenamerFlag.thy ===== *)
theory RenamerFlag
  imports RenamerFrame
begin

text \<open>
  The flag \<open>renaming_started\<close> of the renamer: nothing between its setting and its clearing touches it,
  so an exception in the work leaves it set, and the guard at the start then refuses every later scan.
\<close>

definition same_flag :: "rstate \<Rightarrow> rstate \<Rightarrow> bool" where
  "same_flag s t \<longleftrightarrow> renaming_started t = renaming_started s"

interpretation fk: rframe same_flag "\<lambda>_. True"
  by unfold_locales (auto simp: same_flag_def)

lemmas flag_rename_groups = fk.keeps_rename_groups

section \<open>A scan that fails\<close>

lemma busy_refused: "renaming_started s \<Longrightarrow> renamer_scan e checker b rd t s = (Inr rd, s)"
  by (simp add: renamer_scan_def prepare_def rconf_def py_simps)

lemma scan_flag:
  assumes "\<not> renaming_started s" "keeps same_flag checker" "renamer_scan e checker b rd t s = (r, s')"
  shows "renaming_started s' \<longleftrightarrow> (\<exists>st s1 x. prepare e checker b rd t s = (Inr (Start st), s1) \<and>
    fst (rename_groups e st (s1\<lparr>renaming_started := True\<rparr>)) = Inl x)"
proof -
  note prep = fk.keeps_prepare [OF assms(2), of e b rd t]
  obtain p s1 where p: "prepare e checker b rd t s = (p, s1)" by (cases "prepare e checker b rd t s")
  with keepsD [OF prep, of s] assms(1) have s1: "\<not> renaming_started s1" by (simp add: same_flag_def)
  show ?thesis
  proof (cases "\<exists>st. p = Inr (Start st)")
    case True
    then obtain st where st: "p = Inr (Start st)" by blast
    obtain q s2 where q: "rename_groups e st (s1\<lparr>renaming_started := True\<rparr>) = (q, s2)"
      by (cases "rename_groups e st (s1\<lparr>renaming_started := True\<rparr>)")
    then have "renaming_started s2"
      using keepsD [where s = "s1\<lparr>renaming_started := True\<rparr>" and m = "rename_groups e st", OF flag_rename_groups] by (simp add: same_flag_def)
    with assms(3) p st q show ?thesis
      by (cases q) (auto simp: renamer_scan_def bnd_run ret_run modify_run set_renaming_def)
  next
    case False
    with assms(3) p have "s' = s1"
      by (cases p) (auto simp: renamer_scan_def bnd_run ret_run split: started.splits)
    with False p s1 show ?thesis by auto
  qed
qed

text \<open>C32: an exception in the work of one scan leaves the flag set, and from then on every scan, whatever it
  is asked for, returns at once and does nothing, until the program is started again.\<close>

theorem failed_scan_blocks:
  assumes "prepare e checker b rd t s = (Inr (Start st), s1)"
    and "rename_groups e st (s1\<lparr>renaming_started := True\<rparr>) = (Inl x, s2)"
  shows "renamer_scan e checker b rd t s = (Inl x, s2) \<and>
    (\<forall>checker' b' rd' t'. renamer_scan e checker' b' rd' t' s2 = (Inr rd', s2))"
proof -
  have "renaming_started s2"
    using keepsD [where s = "s1\<lparr>renaming_started := True\<rparr>" and m = "rename_groups e st", OF flag_rename_groups] assms(2)
    by (simp add: same_flag_def)
  moreover have "renamer_scan e checker b rd t s = (Inl x, s2)"
    using assms by (simp add: renamer_scan_def bnd_run modify_run set_renaming_def)
  ultimately show ?thesis by (simp add: busy_refused)
qed

text \<open>An example: the release that was downloaded is in the database, its film is not.\<close>

definition lost_film_world :: world where
  "lost_film_world = demo_world\<lparr>store := empty_db\<lparr>docs := [(oid (CHR ''r''), Live ''00010000''
     [(''_t'', PStr ''release''), (''media_id'', PStr (oid (CHR ''m''))), (''quality'', PStr ''720p''),
      (''download_info'', PDict [(''id'', PStr ''1''), (''downloader'', PStr ''sabnzbd'')])])]\<rparr>\<rparr>"

definition demo_renamer :: rstate where
  "demo_renamer = \<lparr>rw = lost_film_world, rfs = demo_fs\<lparr>folders := folders demo_fs @ [''/from/film'']\<rparr>,
     renaming_started = False, checking_snatched = False\<rparr>"

definition demo_rd :: doc where
  "demo_rd = [(''folder'', PStr ''/from/film''), (''id'', PStr ''1''), (''downloader'', PStr ''sabnzbd'')]"

lemma demo_conf: "conf lost_film_world ''renamer'' a = PNone"
proof -
  have "lower ''unicode'' = ''unicode''" by code_simp
  then show ?thesis
    by (simp add: conf_def lost_film_world_def demo_world_def demo_settings_def get_setting_def getType_def get_by_type_def
        Let_def getUnicode_def p_get_def dget_def)
qed

lemma demo_paths: "sp ''/from/film'' = ''/from/film''" "isSubFolder (\<lambda>p. p) ''/to'' ''/from'' = False"
  "isSubFolder (\<lambda>p. p) ''/to'' ''/from/film'' = False"
  by code_simp+

lemma demo_categories: "all_categories lost_film_world = (Inr [], lost_film_world)"
proof -
  have "fst (db_all ''category'' (- 1) 0 (store lost_film_world)) = Inr []"
    by code_simp
  then have "db_all ''category'' (- 1) 0 (store lost_film_world) = (Inr [], store lost_film_world)"
    by (simp add: db_all_def)
  then show ?thesis by (simp add: all_categories_def py_simps)
qed

lemma demo_prepare:
  "prepare demo_renv checker ''/from'' demo_rd ''/to'' demo_renamer =
     (Inr (Start \<lparr>st_base = ''/from'', st_to = ''/to'', st_media = ''/from/film'', st_download = demo_rd\<rparr>), demo_renamer)"
proof -
  have w: "rw demo_renamer = lost_film_world" by (simp add: demo_renamer_def)
  have d: "isdir (rfs demo_renamer) p \<longleftrightarrow> p \<in> {''/'', ''/from'', ''/to'', ''/from/film''}" for p
    by (auto simp: demo_renamer_def demo_fs_def isdir_def)
  have "no_process ''/to'' demo_renamer = (Inr [''/to''], demo_renamer)"
    by (simp add: no_process_def py_simps w demo_categories call_handler_def demo_renamer_def)
  then show ?thesis
    by (simp add: prepare_def rconf_def readf_def py_simps w demo_conf enabled_def text_conf_def Let_def d demo_rd_def
        demo_renv_def dget_def demo_paths locate_media_def run_checker_def) (simp add: demo_renamer_def)
qed

lemma demo_release_found:
  "\<exists>h. fst (db_get_by ''release_download'' (PStr ''sabnzbd-1'') (store lost_film_world)) = Inr h \<and>
     dget (hit_doc h) ''media_id'' = PStr (oid (CHR ''m''))"
proof -
  have "(case fst (db_get_by ''release_download'' (PStr ''sabnzbd-1'') (store lost_film_world)) of
      Inl _ \<Rightarrow> False | Inr h \<Rightarrow> dget (hit_doc h) ''media_id'' = PStr (oid (CHR ''m'')))"
    by code_simp
  then show ?thesis by (auto split: sum.splits)
qed

lemma demo_work:
  "\<exists>x s2. rename_groups demo_renv \<lparr>st_base = ''/from'', st_to = ''/to'', st_media = ''/from/film'', st_download = demo_rd\<rparr>
     (demo_renamer\<lparr>renaming_started := True\<rparr>) = (Inl x, s2)"
proof -
  let ?s = "demo_renamer\<lparr>renaming_started := True\<rparr>"
  have w: "rw ?s = lost_film_world" by (simp add: demo_renamer_def)
  obtain h where h: "db_get_by ''release_download'' (PStr ''sabnzbd-1'') (store lost_film_world) = (Inr h, store lost_film_world)"
    and m: "dget (hit_doc h) ''media_id'' = PStr (oid (CHR ''m''))"
    using demo_release_found by (auto simp: db_get_by_def)
  have "dsub (hit_doc h) ''media_id'' = Inr (PStr (oid (CHR ''m'')))" "hit_doc h \<noteq> []"
    using m by (auto simp: dsub_def dget_def split: option.splits)
  moreover have "db_get (oid (CHR ''m'')) (store lost_film_world) = (Inl RecordNotFound, store lost_film_world)"
    by (simp add: db_get_def lost_film_world_def empty_db_def lookup_def oid_neq py_simps)
  ultimately have "extendReleaseDownload demo_rd lost_film_world = (Inl RecordNotFound, lost_film_world)"
    using h by (simp add: extendReleaseDownload_def py_simps demo_rd_def dget_def)
  then show ?thesis
    by (simp add: rename_groups_def media_files_def py_simps w demo_rd_def dget_def)
qed

theorem failed_scan_blocks_witness:
  "\<exists>x s2. renamer_scan demo_renv (ret ()) ''/from'' demo_rd ''/to'' demo_renamer = (Inl x, s2) \<and>
     (\<forall>checker' b' rd' t'. renamer_scan demo_renv checker' b' rd' t' s2 = (Inr rd', s2))"
proof -
  from demo_work obtain x s2 where "rename_groups demo_renv \<lparr>st_base = ''/from'', st_to = ''/to'', st_media = ''/from/film'',
     st_download = demo_rd\<rparr> (demo_renamer\<lparr>renaming_started := True\<rparr>) = (Inl x, s2)" by blast
  from failed_scan_blocks [OF demo_prepare this] show ?thesis by blast
qed

end
