(* ===== verification/RenamerGuard.thy ===== *)
theory RenamerGuard
  imports RenamerFlag
begin

text \<open>
  The guards at the start of a scan: a library that is inside the folder that is read is never touched.
\<close>

lemma no_process_all:
  assumes "no_process to_folder s = (Inr shut, s1)" "db_all ''category'' (- 1) 0 (store (rw s)) = (Inr hs, db)"
    and "item = to_folder \<or> (\<exists>h \<in> set hs. dget (hit_doc h) ''destination'' = PStr item)"
  shows "item \<in> set shut"
proof -
  have st: "on_db (db_all ''category'' (- 1) 0) (rw s) = (Inr hs, rw s\<lparr>store := db\<rparr>)"
    using assms(2) by (simp add: on_db_run)
  then have v: "call_handler (bnd all_categories (\<lambda>ds. ret (PList (map PDict ds)))) (rw s) =
      (Inr (PList (map PDict (map hit_doc hs))), rw s\<lparr>store := db\<rparr>)"
    by (simp add: call_handler_def all_categories_def py_simps)
  let ?g = "\<lambda>c. rbind (vsub c ''destination'') as_str"
  obtain ds where ds: "mapr ?g (map PDict (map hit_doc hs)) = Inr ds" "shut = to_folder # ds"
    using assms(1) v by (cases "map hit_doc hs = []") (auto simp: no_process_def py_simps split: sum.splits)
  have mapr_in: "mapr ?g xs = Inr ys \<Longrightarrow> x \<in> set xs \<Longrightarrow> ?g x = Inr y \<Longrightarrow> y \<in> set ys" for xs ys x y
    by (induction xs arbitrary: ys) (auto simp: rbind_eq_Inr)
  show ?thesis
  proof (cases "item = to_folder")
    case True
    then show ?thesis using ds(2) by simp
  next
    case False
    with assms(3) obtain h where h: "h \<in> set hs" "dget (hit_doc h) ''destination'' = PStr item" by blast
    then have "dsub (hit_doc h) ''destination'' = Inr (PStr item)" by (auto simp: dsub_def dget_def split: option.splits)
    with h(1) mapr_in [OF ds(1), of "PDict (hit_doc h)" item] ds(2) show ?thesis by simp
  qed
qed

lemma no_process_reads: "no_process to_folder s = (n, s1) \<Longrightarrow> s1 = s"
  by (auto simp: no_process_def all_categories_def call_handler_def py_simps db_all_def
      split: prod.splits sum.splits option.splits)

text \<open>A folder is inside another when it is that folder or lies below it: the text of its real path is the other's, or
  the other's followed by a separator and more. The root, whose path already ends in the separator, has only itself
  inside it in this sense: the test of the code does not see what is below the root.\<close>

definition inside :: "renv \<Rightarrow> string \<Rightarrow> string \<Rightarrow> bool" where
  "inside e a b \<longleftrightarrow> a \<noteq> [] \<and> b \<noteq> [] \<and>
     (let ra = sp (realpath_of (rn_libs e) a); rb = sp (realpath_of (rn_libs e) b)
      in ra = rb \<or> (\<exists>rest. ra = rb @ ''/'' @ rest))"

lemma inside_sub_folder: "inside e a b \<Longrightarrow> sub_folder e a b"
  by (auto simp: inside_def Let_def isSubFolder_iff)

text \<open>C12: a library is never the source of a scan: if the folder to move to, or the folder of a category, is or
  is below (by their real paths) the folder that is read or the folder of the download that is there, the root folder
  aside, the scan ends at the guards, before anything has changed: no file, no document, no event, and not the
  flag.\<close>

theorem library_not_scanned:
  assumes "db_all ''category'' (- 1) 0 (store (rw s)) = (Inr hs, db)"
    and "item = (if to0 = [] then sp (text_conf (rw s) ''to'') else to0) \<or>
         (\<exists>h \<in> set hs. dget (hit_doc h) ''destination'' = PStr item)"
    and ins: "inside e item (if base0 = [] then sp (text_conf (rw s) ''from'') else base0) \<or>
         isdir (rfs s) (sp (str_or_empty (dget rd ''folder''))) \<and> inside e item (sp (str_or_empty (dget rd ''folder'')))"
  shows "snd (renamer_scan e checker base0 rd to0 s) = s"
proof -
  let ?base = "if base0 = [] then sp (text_conf (rw s) ''from'') else base0"
  let ?to = "if to0 = [] then sp (text_conf (rw s) ''to'') else to0"
  let ?media = "sp (str_or_empty (dget rd ''folder''))"
  obtain n where n: "no_process ?to s = (n, s)" using no_process_reads by (metis surj_pair)
  show ?thesis
  proof (cases "\<not> enabled (conf (rw s) ''renamer'' ''enabled'') \<or> renaming_started s")
    case True
    then show ?thesis by (simp add: renamer_scan_def prepare_def rconf_def py_simps)
  next
    case ready: False
    have run: "prepare e checker base0 rd to0 s = (bnd (liftr n) (\<lambda>shut.
       bnd (readf (\<lambda>fs. isdir fs ?base \<and> isdir fs ?to)) (\<lambda>there.
       if \<not> there \<or> list_ex (\<lambda>item. sub_folder e item ?base) shut then ret (Refused rd) else
       bnd (locate_media (sp (text_conf (rw s) ''from'')) ?media rd) (\<lambda>lm. case lm of
           None \<Rightarrow> ret (Refused rd)
         | Some (rd, media_folder) \<Rightarrow>
             if list_ex (\<lambda>item. sub_folder e item media_folder) shut then ret (Refused rd)
             else bnd (run_checker checker rd) (\<lambda>_.
                  ret (Start \<lparr>st_base = ?base, st_to = ?to, st_media = media_folder, st_download = rd\<rparr>)))))) s"
      using ready n by (simp add: prepare_def rconf_def py_simps Let_def split: sum.split prod.split)
    show ?thesis
    proof (cases n)
      case (Inl x)
      with run show ?thesis by (simp add: renamer_scan_def py_simps)
    next
      case (Inr shut)
      then have item: "item \<in> set shut" using no_process_all [OF _ assms(1,2)] n by simp
      have media: "isdir (rfs s) ?media \<Longrightarrow> locate_media (sp (text_conf (rw s) ''from'')) ?media rd s = (Inr (Some (rd, ?media)), s)"
        by (simp add: locate_media_def readf_def py_simps)
      have "list_ex (\<lambda>item. sub_folder e item ?base) shut \<or>
          isdir (rfs s) ?media \<and> list_ex (\<lambda>item. sub_folder e item ?media) shut"
        using item ins inside_sub_folder by (fastforce simp: list_ex_iff)
      with run Inr media show ?thesis by (auto simp: renamer_scan_def py_simps readf_def)
    qed
  qed
qed

theorem library_not_scanned_witness:
  "snd (renamer_scan demo_renv (ret ()) ''/from'' demo_rd ''/from/film'' demo_renamer) = demo_renamer"
proof (rule library_not_scanned [where item = "''/from/film''" and hs = "[]" and db = "store (rw demo_renamer)"])
  show "db_all ''category'' (- 1) 0 (store (rw demo_renamer)) = (Inr [], store (rw demo_renamer))"
    using demo_categories by (auto simp: demo_renamer_def all_categories_def db_all_def py_simps split: sum.splits prod.splits)
  have "sp ''/from/film'' = ''/from'' @ ''/'' @ ''film''" "sp ''/from'' = ''/from''" by code_simp+
  then show "inside demo_renv ''/from/film'' (if ''/from'' = [] then sp (text_conf (rw demo_renamer) ''from'') else ''/from'') \<or>
      isdir (rfs demo_renamer) (sp (str_or_empty (dget demo_rd ''folder''))) \<and>
      inside demo_renv ''/from/film'' (sp (str_or_empty (dget demo_rd ''folder'')))"
    by (auto simp: demo_renv_def inside_def)
qed simp

end
