(* ===== verification/RenamerMoves.thy ===== *)
theory RenamerMoves
  imports Renamer
begin

text \<open>
  Putting a group into the library loses no file: the steps of \<open>moveFile\<close> change nothing but the file, its
  new place, where there was no file before, and a link in between; so along the loop over a whole
  group every file on the disk is where it was or where it was to go.
\<close>

section \<open>One file\<close>

definition keeps_files :: "string set \<Rightarrow> fsys \<Rightarrow> fsys \<Rightarrow> bool" where
  "keeps_files X fs fs' \<longleftrightarrow> (\<forall>p mb b. p \<notin> X \<longrightarrow> holds_body fs p mb b \<longrightarrow> holds_body fs' p mb b)"

interpretation kf: frame "keeps_files X" for X
  by unfold_locales (auto simp: keeps_files_def)

lemma simple_op_same:
  assumes "simple_op act fs = (r, fs')" "\<And>g g'. act g = Some g' \<Longrightarrow> same_but A g g'"
  shows "same_but A fs fs'"
  using assms(1)
proof (cases rule: simple_op_cases)
  case (worked g)
  with assms(2) show ?thesis by (fastforce simp: same_but_def)
next
  case failed
  then show ?thesis by (simp add: same_but_def)
qed

lemma shutil_move_same: "shutil_move a d fs = (r, fs') \<Longrightarrow> \<not> isdir fs d \<Longrightarrow> same_but {a, d} fs fs'"
  by (cases "node_at fs a"; cases "f_fault fs (f_ops fs)"; cases "isdir fs (dirname d)")
    (auto simp: shutil_move_def attempt_def py_simps inside_def same_but_def cut_short_def split: if_splits node.splits)

lemma shutil_copy_same: "shutil_copy a d fs = (r, fs') \<Longrightarrow> \<not> isdir fs d \<Longrightarrow> same_but {d} fs fs'"
  by (cases "file_at fs a"; cases "f_fault fs (f_ops fs)"; cases "isdir fs (dirname d)")
    (auto simp: shutil_copy_def attempt_def py_simps inside_def same_but_def cut_short_def split: if_splits node.splits)

lemma remove_same: "os_remove p fs = (r, fs') \<Longrightarrow> same_but {p} fs fs'"
  unfolding os_remove_def by (erule simple_op_same) (auto simp: same_but_def split: if_splits)

lemma link_same: "os_link p q fs = (r, fs') \<Longrightarrow> same_but {q} fs fs'"
  unfolding os_link_def by (erule simple_op_same) (auto simp: same_but_def split: if_splits option.splits)

lemma symlink_same: "os_symlink p q fs = (r, fs') \<Longrightarrow> same_but {q} fs fs'"
  unfolding os_symlink_def by (erule simple_op_same) (auto simp: same_but_def split: if_splits)

lemma rename_same: "os_rename p q fs = (r, fs') \<Longrightarrow> same_but {p, q} fs fs'"
  unfolding os_rename_def by (erule simple_op_same) (auto simp: same_but_def split: if_splits option.splits)

lemmas os_same = remove_same link_same symlink_same rename_same

lemma by_move_same: "by_move a d fs = (r, fs') \<Longrightarrow> \<not> isdir fs d \<Longrightarrow> same_but {a, d} fs fs'"
proof -
  assume run: "by_move a d fs = (r, fs')" and nd: "\<not> isdir fs d"
  obtain r1 f1 where m: "shutil_move a d fs = (r1, f1)" by (cases "shutil_move a d fs")
  note s1 = shutil_move_same [OF m nd]
  obtain r2 f2 where x: "os_remove a f1 = (r2, f2)" by (cases "os_remove a f1")
  obtain r3 f3 where y: "os_remove d f1 = (r3, f3)" by (cases "os_remove d f1")
  have "fs' = f1 \<or> fs' = f2 \<or> fs' = f3"
    using run m x y
    by (cases r1; cases "path_exists f1 d"; cases "getsize f1 a"; cases r3) (auto simp: by_move_def py_simps split: if_splits)
  moreover have "same_but {a, d} fs f2" by (rule same_but_trans [OF s1 remove_same [OF x]]) simp
  moreover have "same_but {a, d} fs f3" by (rule same_but_trans [OF s1 remove_same [OF y]]) simp
  ultimately show ?thesis using s1 by blast
qed

lemma by_symlink_reversed_same:
  "by_symlink_reversed a d fs = (r, fs') \<Longrightarrow> \<not> isdir fs d \<Longrightarrow> same_but {a, d} fs fs'"
proof -
  assume run: "by_symlink_reversed a d fs = (r, fs')" and nd: "\<not> isdir fs d"
  obtain r1 f1 where m: "shutil_move a d fs = (r1, f1)" by (cases "shutil_move a d fs")
  obtain r2 f2 where y: "os_symlink d a f1 = (r2, f2)" by (cases "os_symlink d a f1")
  have "fs' = f2" using run m y by (cases r1; cases r2) (simp_all add: by_symlink_reversed_def py_simps)
  moreover have "same_but {a, d} fs f2" by (rule same_but_trans [OF shutil_move_same [OF m nd] symlink_same [OF y]]) simp
  ultimately show ?thesis by simp
qed

lemma by_link_same:
  assumes "by_link a d fs = (r, fs')" "\<not> isdir fs d"
  shows "same_but {a, d, sp a @ ''.link''} fs fs' \<and>
    (sp a @ ''.link'' \<notin> {a, d} \<longrightarrow> node_at fs (sp a @ ''.link'') \<noteq> None \<longrightarrow>
     node_at fs' (sp a @ ''.link'') = node_at fs (sp a @ ''.link''))"
proof -
  let ?l = "sp a @ ''.link''"
  obtain r1 f1 where m: "os_link a d fs = (r1, f1)" by (cases "os_link a d fs")
  note s1 = os_same(2) [OF m]
  have nd1: "\<not> isdir f1 d" using s1 assms(2) by (simp add: same_but_def isdir_def)
  obtain r2 f2 where c: "shutil_copy a d f1 = (r2, f2)" by (cases "shutil_copy a d f1")
  note s2 = same_but_trans [OF s1 shutil_copy_same [OF c nd1], of "{d}"]
  obtain r3 f3 where y: "os_symlink d ?l f2 = (r3, f3)" by (cases "os_symlink d ?l f2")
  note s3 = same_but_trans [OF s2 os_same(3) [OF y], of "{d, ?l}"]
  obtain r4 f4 where x: "os_remove a f3 = (r4, f4)" by (cases "os_remove a f3")
  note s4 = same_but_trans [OF s3 os_same(1) [OF x], of "{a, d, ?l}"]
  obtain r5 f5 where n: "os_rename ?l a f4 = (r5, f5)" by (cases "os_rename ?l a f4")
  note s5 = same_but_trans [OF s4 os_same(4) [OF n], of "{a, d, ?l}"]
  have fin: "fs' = f1 \<or> fs' = f2 \<or> fs' = f3 \<or> r3 = Inr () \<and> (fs' = f4 \<or> fs' = f5)"
    using assms(1) m c y x n
    by (auto simp: by_link_def py_simps split: sum.splits)
  have sym: "r3 = Inl OSError \<or> node_at f2 ?l = None"
    using y unfolding os_symlink_def by (rule simple_op_cases) (auto split: if_splits)
  have f3: "node_at f2 ?l \<noteq> None \<Longrightarrow> node_at f3 ?l = node_at f2 ?l"
    using y unfolding os_symlink_def by (rule simple_op_cases) (auto split: if_splits)
  have f2: "?l \<noteq> d \<Longrightarrow> node_at f2 ?l = node_at fs ?l \<and> node_at f1 ?l = node_at fs ?l"
    using s1 s2 by (auto simp: same_but_def)
  from fin s1 s2 s3 s4 s5 sym f3 f2 show ?thesis by (auto simp: same_but_def)
qed

lemma keeps_of_same:
  "same_but A fs fs' \<Longrightarrow> (\<And>p mb b. p \<in> A \<Longrightarrow> p \<notin> X \<Longrightarrow> holds_body fs p mb b \<Longrightarrow> holds_body fs' p mb b) \<Longrightarrow>
    folders fs' = folders fs \<and> keeps_files X fs fs'"
  by (auto simp: same_but_def keeps_files_def) (metis holds_body_def)

lemma move_as_keeps:
  assumes "move_as mt old dest fs = (r, fs')" "\<not> isdir fs (sp dest)"
  shows "folders fs' = folders fs \<and> keeps_files {old} fs fs'"
proof (cases "isfile fs (sp dest)")
  case True
  with assms(1) have "fs' = fs" by (simp add: move_as_def Let_def py_simps path_exists_def)
  then show ?thesis by (simp add: keeps_files_def)
next
  case False
  have dest: "\<not> holds_body fs (sp dest) mb b" for mb b using False holds_size by blast
  have two: "same_but {old, sp dest} fs fs' \<Longrightarrow> ?thesis" by (erule keeps_of_same) (auto simp: dest)
  have one: "same_but {sp dest} fs fs' \<Longrightarrow> ?thesis" by (erule keeps_of_same) (auto simp: dest)
  consider (link) "by_link old (sp dest) fs = (r, fs')" | (turned) "by_symlink_reversed old (sp dest) fs = (r, fs')"
    | (copy) "shutil_copy old (sp dest) fs = (r, fs')" | (move) "by_move old (sp dest) fs = (r, fs')"
    using assms(1) False by (auto simp: move_as_def Let_def py_simps split: if_splits)
  then show ?thesis
  proof cases
    case link
    from by_link_same [OF this assms(2)] dest show ?thesis
      by (intro keeps_of_same [where A = "{old, sp dest, sp old @ ''.link''}"]) (auto simp: holds_body_def)
  next
    case turned
    then show ?thesis using two by_symlink_reversed_same assms(2) by blast
  next
    case copy
    then show ?thesis using one shutil_copy_same assms(2) by blast
  next
    case move
    then show ?thesis using two by_move_same assms(2) by blast
  qed
qed

section \<open>The loop over a group\<close>

text \<open>The places a file may get: the planned one, or with a random ending.\<close>

definition places :: "rename_libs \<Rightarrow> nat \<Rightarrow> string \<Rightarrow> string list" where
  "places libs k dst = dst # map (\<lambda>n. dst @ ''.random-'' @ random_of libs n) [0..<k]"

definition all_places :: "rename_libs \<Rightarrow> (string \<times> string) list \<Rightarrow> string list" where
  "all_places libs rf = concat (map (\<lambda>(_, dst). if dst = [] then [] else places libs (length rf) dst) rf)"

text \<open>No place is, or will be, a folder, and none is a file that is still to be moved.\<close>

definition clear_places :: "rename_libs \<Rightarrow> fsys \<Rightarrow> (string \<times> string) list \<Rightarrow> bool" where
  "clear_places libs fs rf \<longleftrightarrow> list_all (\<lambda>q. \<not> isdir fs (sp q) \<and> sp q \<notin> set (map fst rf) \<and>
     list_all (\<lambda>q'. sp q \<notin> set (ancestors (sp (dirname q')))) (all_places libs rf)) (all_places libs rf)"

lemma makeDir_step:
  assumes "makeDir p fs = (r, fs')"
  shows "nodes fs' = nodes fs \<and> set (folders fs') \<subseteq> set (folders fs) \<union> set (ancestors (sp p)) \<and> (\<exists>b. r = Inr b)"
proof (cases "isdir fs (sp p)")
  case True
  with assms show ?thesis by (auto simp: makeDir_def Let_def py_simps)
next
  case False
  obtain r1 f1 where m: "os_makedirs (sp p) fs = (r1, f1)" by (cases "os_makedirs (sp p) fs")
  from m [unfolded os_makedirs_def] have "nodes f1 = nodes fs \<and> set (folders f1) \<subseteq> set (folders fs) \<union> set (ancestors (sp p))"
    by (rule simple_op_cases) (auto split: if_splits)
  with assms False m show ?thesis by (cases r1) (auto simp: makeDir_def Let_def py_simps)
qed

lemma holds_nodes: "nodes fs' = nodes fs \<Longrightarrow> holds_body fs' p mb b = holds_body fs p mb b"
  by (simp add: holds_body_def node_at_def)

definition no_reversed :: "rstate \<Rightarrow> bool" where
  "no_reversed s \<longleftrightarrow>
     PStr ''symlink_reversed'' \<notin> {conf (rw s) ''renamer'' ''default_file_action'', conf (rw s) ''renamer'' ''file_action''}"

text \<open>One round: every other file stays, and the file is where it was or at its place.\<close>

lemma move_one_step:
  assumes q_eq: "q = new_place (rn_libs e) (mv_renamed mv) dst"
    and run: "move_one e u (src, dst) mv s = (r, s')" and dst: "dst \<noteq> []"
    and q: "\<not> isdir (rfs s) (sp q)" "sp q \<notin> set (ancestors (sp (dirname q)))"
  obtains "set (folders (rfs s')) \<subseteq> set (folders (rfs s)) \<union> set (ancestors (sp (dirname q)))"
    "keeps_files {src} (rfs s) (rfs s')" "rw s' = rw s"
    "r = Inr (Go (mv\<lparr>mv_renamed := mv_renamed mv @ [q]\<rparr>)) \<or> r = Inr (Brk (mv\<lparr>mv_failed := True\<rparr>))"
    "\<And>mb b. holds_body (rfs s) src mb b \<Longrightarrow> holds_body (rfs s') src mb b \<or> holds_body (rfs s') (sp q) mb b"
    "\<And>mb b. holds_body (rfs s) src mb b \<Longrightarrow> r \<noteq> Inr (Brk (mv\<lparr>mv_failed := True\<rparr>)) \<Longrightarrow> no_reversed s \<Longrightarrow>
       holds_body (rfs s') (sp q) mb b"
proof -
  define attr where "attr = (if u src then ''default_file_action'' else ''file_action'')"
  let ?mt = "conf (rw s) ''renamer'' attr"
  obtain b0 f1 where m: "makeDir (dirname q) (rfs s) = (Inr b0, f1)" and f1: "nodes f1 = nodes (rfs s)"
    "set (folders f1) \<subseteq> set (folders (rfs s)) \<union> set (ancestors (sp (dirname q)))"
    using makeDir_step by (metis surj_pair)
  have nd: "\<not> isdir f1 (sp q)" using q f1(2) by (auto simp: isdir_def)
  obtain r2 f2 where v: "move_as ?mt src q f1 = (r2, f2)" by (cases "move_as ?mt src q f1")
  note k = move_as_keeps [OF v nd]
  have mf: "moveFile src q (u src) (s\<lparr>rfs := f1\<rparr>) = (r2, s\<lparr>rfs := f2\<rparr>)"
  proof -
    have "rconf attr (s\<lparr>rfs := f1\<rparr>) = (Inr ?mt, s\<lparr>rfs := f1\<rparr>)" by (simp add: rconf_def gets_run)
    then show ?thesis unfolding moveFile_def attr_def [symmetric] using v by (simp add: bnd_run on_fs_run)
  qed
  have s': "s' = s\<lparr>rfs := f2\<rparr>" "r = (case r2 of Inl _ \<Rightarrow> Inr (Brk (mv\<lparr>mv_failed := True\<rparr>))
      | Inr _ \<Rightarrow> Inr (Go (mv\<lparr>mv_renamed := mv_renamed mv @ [q]\<rparr>)))"
    using run dst m mf by (cases r2; simp add: move_one_def q_eq [symmetric] Let_def py_simps)+
  have surv: "holds_body f2 src mb b \<or> holds_body f2 (sp q) mb b" "r2 = Inr () \<and> ?mt \<noteq> PStr ''symlink_reversed'' \<Longrightarrow> holds_body f2 (sp q) mb b"
    if "holds_body (rfs s) src mb b" for mb b
  proof -
    from that f1(1) obtain t where "node_at f1 src = Some (Regular mb t b)" by (auto simp: holds_body_def node_at_def)
    note surv = move_as_survives [OF v this nd]
    from surv show "holds_body f2 src mb b \<or> holds_body f2 (sp q) mb b" by blast
    from surv show "r2 = Inr () \<and> ?mt \<noteq> PStr ''symlink_reversed'' \<Longrightarrow> holds_body f2 (sp q) mb b" by blast
  qed
  show ?thesis
  proof (rule that)
    show "set (folders (rfs s')) \<subseteq> set (folders (rfs s)) \<union> set (ancestors (sp (dirname q)))" using k f1(2) s'(1) by simp
    show "keeps_files {src} (rfs s) (rfs s')" 
      using k s'(1) by (simp add: keeps_files_def holds_nodes [OF f1(1)])
    show "rw s' = rw s" using s'(1) by simp
    show "r = Inr (Go (mv\<lparr>mv_renamed := mv_renamed mv @ [q]\<rparr>)) \<or> r = Inr (Brk (mv\<lparr>mv_failed := True\<rparr>))"
      unfolding s'(2) by (cases r2) (simp_all only: sum.case simp_thms)
  next
    fix mb b assume h: "holds_body (rfs s) src mb b"
    show "holds_body (rfs s') src mb b \<or> holds_body (rfs s') (sp q) mb b" using surv(1) [OF h] s'(1) by simp
    assume "r \<noteq> Inr (Brk (mv\<lparr>mv_failed := True\<rparr>))" "no_reversed s"
    then have "r2 = Inr () \<and> ?mt \<noteq> PStr ''symlink_reversed''" unfolding s'(2) by (cases r2) (auto simp: no_reversed_def attr_def)
    from surv(2) [OF h this] s'(1) show "holds_body (rfs s') (sp q) mb b" by simp
  qed
qed

lemma new_place_in: "length renamed < k \<Longrightarrow> new_place libs renamed dst \<in> set (places libs k dst)"
  by (auto simp: new_place_def places_def)

text \<open>A place can be used: it is no folder, and making the folders of the places does not make it one.\<close>

definition usable :: "string set \<Rightarrow> fsys \<Rightarrow> bool" where
  "usable Q fs \<longleftrightarrow> (\<forall>q \<in> Q. \<not> isdir fs (sp q) \<and> (\<forall>q' \<in> Q. sp q \<notin> set (ancestors (sp (dirname q')))))"

definition at_place :: "string list \<Rightarrow> fsys \<Rightarrow> rat \<Rightarrow> string \<Rightarrow> bool" where
  "at_place qs fs mb b \<longleftrightarrow> (\<exists>q \<in> set qs. holds_body fs (sp q) mb b)"

text \<open>Where the content of one planned file is afterwards; \<open>strict\<close>: at its place.\<close>

definition settled :: "rename_libs \<Rightarrow> nat \<Rightarrow> bool \<Rightarrow> fsys \<Rightarrow> fsys \<Rightarrow> string \<times> string \<Rightarrow> bool" where
  "settled libs k strict fs fs' sd \<longleftrightarrow> (\<forall>mb b. holds_body fs (fst sd) mb b \<longrightarrow>
     (holds_body fs' (fst sd) mb b \<or> snd sd \<noteq> [] \<and> at_place (places libs k (snd sd)) fs' mb b) \<and>
     (strict \<and> snd sd \<noteq> [] \<longrightarrow> at_place (places libs k (snd sd)) fs' mb b))"

definition all_done :: "moving res \<Rightarrow> bool" where
  "all_done r \<longleftrightarrow> (case r of Inr mv \<Rightarrow> \<not> mv_failed mv | Inl _ \<Rightarrow> False)"

lemma settled_earlier:
  "settled libs k strict g fs' sd \<Longrightarrow> keeps_files X fs g \<Longrightarrow> fst sd \<notin> X \<Longrightarrow> settled libs k strict fs fs' sd"
  unfolding settled_def keeps_files_def by blast

lemma move_loop:
  assumes "for_acc rf mv (move_one e u) s = (r, s')" "usable Q (rfs s)" "\<And>q. q \<in> Q \<Longrightarrow> sp q \<notin> set (map fst rf)"
    and "length (mv_renamed mv) + length rf \<le> k"
    and "\<And>sd. sd \<in> set rf \<Longrightarrow> snd sd \<noteq> [] \<Longrightarrow> set (places (rn_libs e) k (snd sd)) \<subseteq> Q" "distinct (map fst rf)"
  shows "keeps_files (set (map fst rf)) (rfs s) (rfs s') \<and>
    (\<forall>sd \<in> set rf. settled (rn_libs e) k (all_done r \<and> no_reversed s) (rfs s) (rfs s') sd)"
  using assms
proof (induction rf arbitrary: mv s)
  case Nil
  then show ?case by (simp add: ret_run keeps_files_def)
next
  case (Cons sd rf)
  obtain src dst where sd: "sd = (src, dst)" by (cases sd)
  have fresh: "src \<notin> set (map fst rf)" using Cons.prems(6) sd by simp
  have IH: "keeps_files (set (map fst rf)) (rfs t) (rfs s') \<and>
      (\<forall>sd \<in> set rf. settled (rn_libs e) k (all_done r \<and> no_reversed t) (rfs t) (rfs s') sd)"
    if "for_acc rf mv' (move_one e u) t = (r, s')" "usable Q (rfs t)" "length (mv_renamed mv') + length rf \<le> k" for mv' t
    by (rule Cons.IH [OF that(1,2) _ that(3)]) (use Cons.prems(3,5,6) in auto)
  show ?case
  proof (cases "dst = []")
    case True
    have "move_one e u sd mv = ret (Go mv)" using sd True by (simp add: move_one_def)
    then have later: "for_acc rf mv (move_one e u) s = (r, s')" using Cons.prems(1) by simp
    from IH [OF this Cons.prems(2)] Cons.prems(4)
    have "keeps_files (set (map fst rf)) (rfs s) (rfs s')"
      "\<forall>sd \<in> set rf. settled (rn_libs e) k (all_done r \<and> no_reversed s) (rfs s) (rfs s') sd" by simp_all
    moreover from this(1) fresh have "settled (rn_libs e) k (all_done r \<and> no_reversed s) (rfs s) (rfs s') sd"
      unfolding settled_def keeps_files_def sd True by simp
    ultimately show ?thesis by (simp add: keeps_files_def)
  next
    case False
    let ?q = "new_place (rn_libs e) (mv_renamed mv) dst"
    have q: "?q \<in> set (places (rn_libs e) k dst)" using Cons.prems(4) by (intro new_place_in) simp
    then have qQ: "?q \<in> Q" using Cons.prems(5) [of sd] sd False by auto
    obtain c s1 where one: "move_one e u (src, dst) mv s = (c, s1)" by (cases "move_one e u (src, dst) mv s")
    have "\<not> isdir (rfs s) (sp ?q)" "sp ?q \<notin> set (ancestors (sp (dirname ?q)))"
      using Cons.prems(2) qQ by (auto simp: usable_def)
    from move_one_step [OF refl one False this] show ?thesis
    proof cases
      case step: 1
      have sq: "sp ?q \<notin> set (map fst rf)" using Cons.prems(3) [OF qQ] by simp
      have place: "holds_body fs (sp ?q) mb b \<Longrightarrow> at_place (places (rn_libs e) k dst) fs mb b" for fs mb b
        using q by (auto simp: at_place_def)
      show ?thesis
      proof (cases "c = Inr (Brk (mv\<lparr>mv_failed := True\<rparr>))")
        case brk: True
        then have end': "r = Inr (mv\<lparr>mv_failed := True\<rparr>)" "s' = s1"
          using Cons.prems(1) sd one by (simp_all add: bnd_run ret_run)
        then have nd: "\<not> all_done r" by (simp add: all_done_def)
        have "settled (rn_libs e) k False (rfs s) (rfs s') sd"
          unfolding settled_def sd end'(2) fst_conv snd_conv using step(5) place \<open>dst \<noteq> []\<close> by blast
        moreover have "settled (rn_libs e) k False (rfs s) (rfs s') x" if "x \<in> set rf" for x
        proof -
          have "fst x \<noteq> src" using that fresh by auto
          then show ?thesis using step(2) unfolding settled_def keeps_files_def end'(2) by auto
        qed
        ultimately show ?thesis using nd step(2) end'(2) sd by (auto simp: keeps_files_def)
      next
        case False
        with step(4) have go: "c = Inr (Go (mv\<lparr>mv_renamed := mv_renamed mv @ [?q]\<rparr>))" by simp
        have later: "for_acc rf (mv\<lparr>mv_renamed := mv_renamed mv @ [?q]\<rparr>) (move_one e u) s1 = (r, s')"
          using Cons.prems(1) sd one go by (simp add: bnd_run)
        have us: "usable Q (rfs s1)" using step(1) Cons.prems(2) qQ unfolding usable_def isdir_def by blast
        have nr: "no_reversed s1 = no_reversed s" using step(3) by (simp add: no_reversed_def)
        from IH [OF later us] Cons.prems(4)
        have k: "keeps_files (set (map fst rf)) (rfs s1) (rfs s')"
          and tail: "\<forall>sd \<in> set rf. settled (rn_libs e) k (all_done r \<and> no_reversed s) (rfs s1) (rfs s') sd"
          by (simp_all add: nr)
        have "settled (rn_libs e) k (all_done r \<and> no_reversed s) (rfs s) (rfs s') sd"
          unfolding settled_def
        proof (intro allI impI conjI)
          fix mb b assume "holds_body (rfs s) (fst sd) mb b"
          then have h: "holds_body (rfs s) src mb b" using sd by simp
          have keep: "holds_body (rfs s1) (sp ?q) mb b \<Longrightarrow> holds_body (rfs s') (sp ?q) mb b"
            "holds_body (rfs s1) src mb b \<Longrightarrow> holds_body (rfs s') src mb b"
            using k sq fresh by (auto simp: keeps_files_def)
          show "holds_body (rfs s') (fst sd) mb b \<or> snd sd \<noteq> [] \<and> at_place (places (rn_libs e) k (snd sd)) (rfs s') mb b"
            using step(5) [OF h] keep place sd \<open>dst \<noteq> []\<close> by auto
          show "at_place (places (rn_libs e) k (snd sd)) (rfs s') mb b" if "(all_done r \<and> no_reversed s) \<and> snd sd \<noteq> []"
            using step(6) [OF h False] keep(1) place sd that by auto
        qed
        moreover have "settled (rn_libs e) k (all_done r \<and> no_reversed s) (rfs s) (rfs s') x" if "x \<in> set rf" for x
        proof -
          have "fst x \<notin> {src}" using that fresh by auto
          with tail that show ?thesis using settled_earlier step(2) by blast
        qed
        moreover have "keeps_files (set (map fst (sd # rf))) (rfs s) (rfs s')"
          using step(2) k sd by (simp add: keeps_files_def)
        ultimately show ?thesis by auto
      qed
    qed
  qed
qed

section \<open>The files of a group\<close>

lemma all_places_in:
  "sd \<in> set rf \<Longrightarrow> snd sd \<noteq> [] \<Longrightarrow> set (places libs (length rf) (snd sd)) \<subseteq> set (all_places libs rf)"
proof -
  assume sd: "sd \<in> set rf" "snd sd \<noteq> []"
  have "set (f x) \<subseteq> set (concat (map f xs))" if "x \<in> set xs" for f :: "string \<times> string \<Rightarrow> string list" and x xs
    using that by auto
  from this [OF sd(1)] have "set ((\<lambda>(_, dst). if dst = [] then [] else places libs (length rf) dst) sd) \<subseteq> set (all_places libs rf)"
    unfolding all_places_def .
  with sd(2) show ?thesis by (simp add: split_beta)
qed

text \<open>C11: moving the files of a group into the library loses nothing, whatever operation fails on the way.
  Every file on the disk that is not to be moved is still there. Every file that is to be moved is where
  it was or at its place in the library (the planned one, or with a random ending where two files
  were planned for one place). And when the loop ends without a failure, and no reversed links are
  made, all files are at their places.\<close>

theorem moving_loses_nothing:
  assumes "move_all e use_default rf s = (r, s')" "clear_places (rn_libs e) (rfs s) rf" "distinct (map fst rf)"
  shows "(\<forall>p mb b. p \<notin> set (map fst rf) \<longrightarrow> holds_body (rfs s) p mb b \<longrightarrow> holds_body (rfs s') p mb b) \<and>
    (\<forall>(src, dst) \<in> set rf. \<forall>mb b. holds_body (rfs s) src mb b \<longrightarrow>
       holds_body (rfs s') src mb b \<or> dst \<noteq> [] \<and> at_place (places (rn_libs e) (length rf) dst) (rfs s') mb b) \<and>
    (all_done r \<and> no_reversed s \<longrightarrow> (\<forall>(src, dst) \<in> set rf. \<forall>mb b. dst \<noteq> [] \<longrightarrow> holds_body (rfs s) src mb b \<longrightarrow>
       at_place (places (rn_libs e) (length rf) dst) (rfs s') mb b))"
proof -
  let ?Q = "set (all_places (rn_libs e) rf)"
  have us: "usable ?Q (rfs s)" and src: "\<And>q. q \<in> ?Q \<Longrightarrow> sp q \<notin> set (map fst rf)"
    using assms(2) by (auto simp: clear_places_def usable_def list_all_iff)
  have "keeps_files (set (map fst rf)) (rfs s) (rfs s') \<and>
      (\<forall>sd \<in> set rf. settled (rn_libs e) (length rf) (all_done r \<and> no_reversed s) (rfs s) (rfs s') sd)"
    by (rule move_loop [OF assms(1) [unfolded move_all_def] us src _ all_places_in assms(3)]) simp_all
  then show ?thesis unfolding keeps_files_def settled_def by (auto simp: split_beta)
qed

text \<open>An example: two films of one group have the same planned name, and moving works.\<close>

definition twin_fs :: fsys where
  "twin_fs = demo_fs\<lparr>nodes := [(''/from/a.mkv'', Regular 4000 1400000000 ''one''), (''/from/b.mkv'', Regular 3000 1400000000 ''two''),
     (''/to/x.mkv'', Regular 2000 1400000000 ''old'')], f_fault := (\<lambda>_. Works)\<rparr>"

definition twin_plan :: "(string \<times> string) list" where
  "twin_plan = [(''/from/a.mkv'', ''/to/film/a.mkv''), (''/from/b.mkv'', ''/to/film/a.mkv'')]"

definition twin_state :: rstate where
  "twin_state = \<lparr>rw = demo_world, rfs = twin_fs, renaming_started = True, checking_snatched = False\<rparr>"

lemma twin_clear: "clear_places (rn_libs demo_renv) (rfs twin_state) twin_plan"
  by code_simp

theorem moving_loses_nothing_witness:
  "holds_body (rfs (snd (move_all demo_renv (\<lambda>_. True) twin_plan twin_state))) ''/to/x.mkv'' 2000 ''old''"
proof -
  have "holds_body (rfs twin_state) ''/to/x.mkv'' 2000 ''old''"
    by (simp add: twin_state_def twin_fs_def holds_body_def node_at_def)
  moreover have "''/to/x.mkv'' \<notin> set (map fst twin_plan)" "distinct (map fst twin_plan)" by (simp_all add: twin_plan_def)
  ultimately show ?thesis using moving_loses_nothing [OF surjective_pairing twin_clear] by blast
qed

section \<open>Removing files\<close>

definition keeps_r :: "string set \<Rightarrow> rstate \<Rightarrow> rstate \<Rightarrow> bool" where
  "keeps_r X s t \<longleftrightarrow> keeps_files X (rfs s) (rfs t)"

interpretation kr: frame "keeps_r X" for X
  by unfold_locales (auto simp: keeps_r_def keeps_files_def)

lemma kr_on_fs: "keeps (keeps_files X) m \<Longrightarrow> keeps (keeps_r X) (on_fs m)"
  by (auto simp: keeps_def on_fs_run keeps_r_def split: prod.split) (metis snd_conv)

lemma kr_reads: "keeps (keeps_r X) (readf f)" "keeps (keeps_r X) (rconf a)"
  by (simp_all add: readf_def rconf_def kr.keeps_gets)

lemma kf_same: "(\<And>fs r fs'. m fs = (r, fs') \<Longrightarrow> same_but X fs fs') \<Longrightarrow> keeps (keeps_files X) m"
  unfolding keeps_def keeps_files_def same_but_def holds_body_def by (metis prod.collapse)

lemma kf_nodes: "(\<And>fs r fs'. m fs = (r, fs') \<Longrightarrow> nodes fs' = nodes fs) \<Longrightarrow> keeps (keeps_files X) m"
  unfolding keeps_def keeps_files_def by (metis holds_nodes prod.collapse)

lemma kf_os_remove: "p \<in> X \<Longrightarrow> keeps (keeps_files X) (os_remove p)"
  by (rule kf_same) (rule same_but_trans [OF same_but_refl remove_same], auto)

lemma kf_rmdir: "keeps (keeps_files X) (try_rmdir p)"
proof (rule kf_nodes)
  fix fs r fs' assume run: "try_rmdir p fs = (r, fs')"
  obtain r1 f1 where m: "os_rmdir p fs = (r1, f1)" by (cases "os_rmdir p fs")
  from m [unfolded os_rmdir_def] have "nodes f1 = nodes fs" by (rule simple_op_cases) (auto split: if_splits)
  with run m show "nodes fs' = nodes fs" by (cases r1) (auto simp: try_rmdir_def py_simps)
qed

lemma kf_deleteEmptyFolder: "keeps (keeps_files X) (deleteEmptyFolder d)"
  unfolding deleteEmptyFolder_def listdir_def Let_def by (intro keeps_if kf.keeps_intros kf_rmdir)

lemma kf_makeDir: "keeps (keeps_files X) (makeDir p)"
  by (rule kf_nodes) (use makeDir_step in blast)

lemma kf_put: "p \<in> X \<Longrightarrow> keeps (keeps_files X) (modify (\<lambda>fs. put_node p (g fs) fs))"
  by (rule kf.keeps_modify) (auto simp: keeps_files_def holds_body_def)

lemma kf_createFile: "sp p \<in> X \<Longrightarrow> keeps (keeps_files X) (createFile p b)"
proof -
  assume p: "sp p \<in> X"
  have "keeps (keeps_files X) attempt" by (rule kf_nodes) (auto simp: attempt_def)
  then have "keeps (keeps_files X) (write_file (sp p) b)"
    unfolding write_file_def using p
    by (auto intro!: kf.keeps_intros kf_put simp: split: fault.split)
  then show ?thesis unfolding createFile_def Let_def
    by (intro kf.keeps_intros kf_makeDir kf_os_remove p)
qed

text \<open>The mark that is set when a file cannot be removed.\<close>

definition mark_of :: "doc \<Rightarrow> string list" where
  "mark_of gr = (case first_movie gr of Inl _ \<Rightarrow> [] | Inr f \<Rightarrow> [sp (splitext_root f @ ''.failed_remove.ignore'')])"

lemma kr_failed_remove: "set (mark_of gr) \<subseteq> X \<Longrightarrow> keeps (keeps_r X) (tag_group ''failed_remove'' gr)"
  unfolding tag_group_def tag_file_def Let_def mark_of_def
  by (cases "first_movie gr") (auto intro!: kr.keeps_intros kr.keeps_liftr_bnd kr_on_fs kf.keeps_intros kf_createFile)

lemma removed_listed:
  assumes "remove_files e cx destination gr rf files s = (r, s')" "holds_body (rfs s) p mb b"
    and "p \<notin> sp ` {f \<in> set files. map_of rf f \<in> {None, Some []}}" "p \<notin> set (mark_of gr)"
  shows "holds_body (rfs s') p mb b"
proof -
  let ?X = "sp ` {f \<in> set files. map_of rf f \<in> {None, Some []}} \<union> set (mark_of gr)"
  have one: "keeps (keeps_r ?X) (remove_one e cx destination gr rf f dfs)" if "f \<in> set files" for f dfs
  proof (cases "map_of rf f \<in> {None, Some []}")
    case True
    with that have "sp f \<in> ?X" by blast
    with True show ?thesis unfolding remove_one_def Let_def
      by (simp only: if_False not_not simp_thms)
        (intro keeps_if kr.keeps_intros kr_reads kr_on_fs kf_os_remove kr_failed_remove Un_upper2; assumption)
  next
    case False
    then show ?thesis by (simp add: remove_one_def kr.keeps_ret)
  qed
  have "keeps (keeps_r ?X) (remove_files e cx destination gr rf files)"
    unfolding remove_files_def
    by (intro kr.keeps_bnd kr.keeps_for_acc_mem one kr.keeps_for_each kr.keeps_catch kr.keeps_ret kr_on_fs kf_deleteEmptyFolder)
  from keepsD [OF this, of s] assms show ?thesis by (auto simp: keeps_r_def keeps_files_def)
qed

text \<open>C30: cleaning up removes only files that are on the list, and of those none that is to be moved, as long as the
  list names it the way the plan does: a file is still there afterwards, with its content, when no name on the list
  stands for it, and also when it is to be moved and no other spelling of its name is on the list. (The one
  exception: the mark of a group whose file could not be removed is written, over what has its name. And another
  spelling is not recognised, see \<open>planned_file_removed\<close>.)\<close>

theorem only_listed_removed:
  assumes "remove_files e cx destination gr rf files s = (r, s')" "holds_body (rfs s) p mb b" "p \<notin> set (mark_of gr)"
    and "p \<notin> sp ` set files \<or> map_of rf p \<notin> {None, Some []} \<and> (\<forall>f \<in> set files. sp f = p \<longrightarrow> f = p)"
  shows "holds_body (rfs s') p mb b"
  by (rule removed_listed [OF assms(1,2) _ assms(3)]) (use assms(4) in auto)

theorem only_listed_removed_witness:
  "\<forall>cx. holds_body (rfs (snd (remove_files demo_renv cx ''/to'' [] twin_plan [''/from/a.mkv'', ''/to/x.mkv''] twin_state)))
     ''/from/a.mkv'' 4000 ''one'' \<and>
   holds_body (rfs (snd (remove_files demo_renv cx ''/to'' [] twin_plan [''/to/x.mkv''] twin_state))) ''/from/b.mkv'' 3000 ''two''"
proof
  fix cx
  have h: "holds_body (rfs twin_state) ''/from/a.mkv'' 4000 ''one''" "holds_body (rfs twin_state) ''/from/b.mkv'' 3000 ''two''"
    by (simp_all add: twin_state_def twin_fs_def holds_body_def node_at_def)
  have x: "sp ''/to/x.mkv'' = ''/to/x.mkv''" by code_simp
  have m: "mark_of [] = []" by (simp add: mark_of_def first_movie_def files_of_kind_def dsub_def)
  show "holds_body (rfs (snd (remove_files demo_renv cx ''/to'' [] twin_plan [''/from/a.mkv'', ''/to/x.mkv''] twin_state)))
      ''/from/a.mkv'' 4000 ''one'' \<and>
    holds_body (rfs (snd (remove_files demo_renv cx ''/to'' [] twin_plan [''/to/x.mkv''] twin_state))) ''/from/b.mkv'' 3000 ''two''"
  proof
    show "holds_body (rfs (snd (remove_files demo_renv cx ''/to'' [] twin_plan [''/from/a.mkv'', ''/to/x.mkv''] twin_state)))
      ''/from/a.mkv'' 4000 ''one''"
      by (rule only_listed_removed [OF surjective_pairing h(1)]) (simp_all add: m x twin_plan_def)
    show "holds_body (rfs (snd (remove_files demo_renv cx ''/to'' [] twin_plan [''/to/x.mkv''] twin_state))) ''/from/b.mkv'' 3000 ''two''"
      by (rule only_listed_removed [OF surjective_pairing h(2)]) (simp_all add: m x)
  qed
qed

text \<open>The guard looks a name up as it is listed, the removal normalises it first: a file that is to be moved is
  removed when it is listed under another spelling.\<close>

theorem planned_file_removed:
  "node_at (rfs (snd (remove_one demo_renv cx ''/to'' [] twin_plan ''/from//a.mkv'' [] twin_state))) ''/from/a.mkv'' = None"
proof -
  have "sp ''/from//a.mkv'' = ''/from/a.mkv''" by code_simp
  then show ?thesis
    by (simp add: remove_one_def twin_plan_def py_simps readf_def on_fs_run Let_def isfile_def node_at_def twin_state_def twin_fs_def
        os_remove_def simple_op_def attempt_def drop_node_def demo_fs_def)
qed

end
