(* ===== verification/CheckSnatched.thy ===== *)
theory CheckSnatched
  imports Renamer MovieSearcher
begin

text \<open>
  couchpotato/core/plugins/renamer.py, \<open>checkSnatched\<close>: every release that was snatched, is seeding or is
  missing is looked up in what the downloaders report, its status follows, and the downloads that are
  complete are scanned. The dicts the downloaders report are shared: the loop over the releases notes in
  them what is to be done, so they are a list in the state of the loop, and \<open>ck_scan\<close> holds positions
  in it. The branch that looks for a release by its name can never be reached (releases without an id
  are skipped before) and is left out.
\<close>

section \<open>Names of downloads\<close>

text \<open>couchpotato/core/plugins/base.py: the name a download is given, without a unique tag.\<close>

definition cpTag :: "world \<Rightarrow> doc \<Rightarrow> string res" where
  "cpTag w media =
     (if \<not> truthy (conf w ''renamer'' ''enabled'') then Inr []
      else rbind (getIdentifier media) (\<lambda>i. rbind (if truthy i then as_str i else Inr []) (\<lambda>identifier.
           let tag = ''.cp('' @ identifier @ '')'' in Inr (if 7 < length tag then tag else []))))"

definition take_upto :: "int \<Rightarrow> string \<Rightarrow> string" where
  "take_upto n s = (if 0 \<le> n then take (nat n) s else take (length s - nat (- n)) s)"

definition createNzbName :: "world \<Rightarrow> doc \<Rightarrow> doc \<Rightarrow> string res" where
  "createNzbName w data media =
     rbind (cpTag w media) (\<lambda>tag0.
     rbind (as_str (dget data ''name'')) (\<lambda>nm.
     let (release_name, tag) = (case scanForPassword nm of
            Some (n, password) \<Rightarrow> (n, tag0 @ ''{{'' @ password @ ''}}'')
          | None \<Rightarrow> (nm, if truthy (dget data ''password'') then tag0 @ ''{{'' @ fmt (dget data ''password'') @ ''}}'' else tag0))
     in Inr (toSafeString (take_upto (127 - int (length tag)) release_name) @ tag)))"

section \<open>One release\<close>

record check_state =
  ck_downloads :: "doc list"
  ck_scan :: "nat list"
  ck_required :: bool

definition in_c :: "(rstate, 'a) py \<Rightarrow> (rstate \<times> check_state, 'a) py" where
  "in_c m = (\<lambda>(s, c). case m s of (r, s') \<Rightarrow> (r, (s', c)))"

definition set_c :: "(check_state \<Rightarrow> check_state) \<Rightarrow> (rstate \<times> check_state, unit) py" where
  "set_c f = modify (\<lambda>(s, c). (s, f c))"

definition set_status :: "doc \<Rightarrow> string \<Rightarrow> (rstate \<times> check_state, unit) py" where
  "set_status rel status =
     in_c (bnd (on_w (bnd (liftr (as_str (dget rel ''_id''))) (\<lambda>i. updateStatus i status))) (\<lambda>_. ret ()))"

text \<open>The first download with the id and the downloader of the release.\<close>

fun find_download :: "doc \<Rightarrow> doc list \<Rightarrow> nat \<Rightarrow> nat option res" where
  "find_download download_info [] n = Inr None"
| "find_download download_info (rd # rds) n =
     rbind (dsub rd ''id'') (\<lambda>i. rbind (if i = dget download_info ''id'' then dsub rd ''downloader'' else Inr PNone) (\<lambda>d.
       if i = dget download_info ''id'' \<and> d = dget download_info ''downloader'' then Inr (Some n)
       else find_download download_info rds (Suc n)))"

text \<open>Not found: missing, and after a week ignored.\<close>

definition week :: int where
  "week = 7 * 24 * 60 * 60"

definition lost_release :: "doc \<Rightarrow> (rstate \<times> check_state, unit) py" where
  "lost_release rel =
     (if dget rel ''status'' \<noteq> PStr ''missing'' then set_status rel ''missing''
      else bnd (liftr (num_res (dget rel ''last_edit''))) (\<lambda>t.
           bnd (gets (\<lambda>(s, c). now (rw s))) (\<lambda>t0.
           whenp (t < of_int (t0 - week)) (set_status rel ''ignored''))))"

text \<open>What is to be done with a download is noted in its dict.\<close>

definition note_scan :: "nat \<Rightarrow> bool \<Rightarrow> bool \<Rightarrow> bool \<Rightarrow> (rstate \<times> check_state, unit) py" where
  "note_scan n paused scanned finished =
     set_c (\<lambda>c. c\<lparr>ck_downloads := (ck_downloads c)[n := dupdate (ck_downloads c ! n)
         [(''pause'', PBool paused), (''scan'', PBool scanned), (''process_complete'', PBool finished)]],
       ck_scan := ck_scan c @ [n]\<rparr>)"

definition moves :: "(rstate \<times> check_state, bool) py" where
  "moves = gets (\<lambda>(s, c). conf (rw s) ''renamer'' ''file_action'' = PStr ''move'')"

definition busy_release :: "renv \<Rightarrow> doc \<Rightarrow> doc \<Rightarrow> (rstate \<times> check_state, unit) py" where
  "busy_release e rel rd =
     bnd (set_status rel ''snatched'') (\<lambda>_.
     bnd (liftr (dsub rd ''folder'')) (\<lambda>f.
     bnd (gets (\<lambda>(s, c). movieInFromFolder e (rw s) (str_or_empty f))) (\<lambda>inside.
     whenp inside (in_c (tag_download ''downloading'' rd)))))"

definition seeding_release :: "doc \<Rightarrow> doc \<Rightarrow> nat \<Rightarrow> (rstate \<times> check_state, unit) py" where
  "seeding_release rel rd n =
     bnd moves (\<lambda>mv.
     bnd (liftr (dsub rd ''seed_ratio'')) (\<lambda>_.
     if \<not> mv \<and> dget rel ''status'' \<noteq> PStr ''seeding'' \<and> statusInfoComplete rd
     then bnd (in_c (untag_download ''downloading'' rd)) (\<lambda>_. note_scan n True True False)
     else set_status rel ''seeding''))"

definition failed_release :: "outside \<Rightarrow> doc \<Rightarrow> doc \<Rightarrow> (rstate \<times> check_state, unit) py" where
  "failed_release ou rel rd =
     bnd (set_status rel ''failed'') (\<lambda>_.
     bnd (in_c (on_w (fire_unit ''download.remove_failed'' [PDict rd]))) (\<lambda>_.
     bnd (gets (\<lambda>(s, c). flag_conf (rw s) ''next_on_failed'')) (\<lambda>b.
     whenp b (in_c (on_w (bnd (call_handler (bnd (liftr (as_str (dget rel ''media_id''))) (\<lambda>i.
        bnd (tryNextRelease ou i False False) (\<lambda>x. ret (PBool x))))) (\<lambda>_. ret ())))))))"

definition completed_release :: "doc \<Rightarrow> doc \<Rightarrow> nat \<Rightarrow> (rstate \<times> check_state, unit) py" where
  "completed_release rel rd n =
     (if \<not> statusInfoComplete rd then set_c (\<lambda>c. c\<lparr>ck_required := True\<rparr>)
      else if dget rel ''status'' = PStr ''seeding''
      then bnd moves (\<lambda>mv.
           if mv then note_scan n False True True
           else bnd (set_status rel ''downloaded'') (\<lambda>_. note_scan n False False True))
      else bnd (set_status rel ''snatched'') (\<lambda>_.
           bnd (in_c (untag_download ''downloading'' rd)) (\<lambda>_.
           note_scan n False True True)))"

definition found_download :: "renv \<Rightarrow> doc \<Rightarrow> nat \<Rightarrow> (rstate \<times> check_state, unit) py" where
  "found_download e rel n =
     bnd (gets (\<lambda>(s, c). ck_downloads c ! n)) (\<lambda>rd.
     bnd (liftr (rbind (dsub rd ''timeleft'') (\<lambda>_. rbind (dsub rd ''name'') (\<lambda>_. rbind (dsub rd ''status'') as_str)))) (\<lambda>st.
     if st = ''busy'' then busy_release e rel rd
     else if st = ''seeding'' then seeding_release rel rd n
     else if st = ''failed'' then failed_release (rn_ou e) rel rd
     else if st = ''completed'' then completed_release rel rd n
     else ret ()))"

definition check_release :: "renv \<Rightarrow> doc \<Rightarrow> (rstate \<times> check_state, unit) py" where
  "check_release e rel =
     (if \<not> truthy (dget rel ''media_id'') then ret () else
      bnd (in_c (on_w (bnd (liftr (as_str (dget rel ''media_id''))) (\<lambda>i. on_db (db_get i))))) (\<lambda>movie_dict.
      case dget rel ''download_info'' of
        PDict download_info \<Rightarrow>
          bnd (liftr (dsub rel ''info'')) (\<lambda>info.
          if \<not> truthy (dget download_info ''id'') \<or> \<not> truthy (dget download_info ''downloader'')
          then bnd (liftr (vsub info ''name'')) (\<lambda>_. set_c (\<lambda>c. c\<lparr>ck_required := True\<rparr>))
          else bnd (gets (\<lambda>(s, c). rw s)) (\<lambda>w.
               bnd (liftr (rbind (as_dict info) (\<lambda>d. createNzbName w d movie_dict))) (\<lambda>nzbname.
               bnd (gets (\<lambda>(s, c). ck_downloads c)) (\<lambda>rds.
               bnd (liftr (find_download download_info rds 0)) (\<lambda>at_pos. case at_pos of
                   None \<Rightarrow> lost_release rel
                 | Some n \<Rightarrow> found_download e rel n)))))
      | _ \<Rightarrow> set_status rel ''ignored''))"

section \<open>The downloads to scan\<close>

definition pause_download :: "doc \<Rightarrow> bool \<Rightarrow> (rstate, unit) py" where
  "pause_download rd b =
     bnd (rconf ''file_action'') (\<lambda>a.
     whenp (truthy (dget rd ''pause'') \<and> a \<in> {PStr ''link'', PStr ''symlink_reversed''})
       (on_w (fire_unit ''download.pause'' [PDict rd, PBool b])))"

text \<open>The nested scan has a download, so it never asks for the status itself.\<close>

definition scan_download :: "renv \<Rightarrow> nat \<Rightarrow> (rstate \<times> check_state, unit) py" where
  "scan_download e n =
     bnd (gets (\<lambda>(s, c). ck_downloads c ! n)) (\<lambda>rd.
     bnd (if truthy (dget rd ''scan'')
          then in_c (bnd (pause_download rd True) (\<lambda>_.
                     bnd (renamer_scan e (ret ()) [] rd []) (\<lambda>rd'.
                     bnd (pause_download rd' False) (\<lambda>_. ret rd'))))
          else ret rd) (\<lambda>rd.
     bnd (set_c (\<lambda>c. c\<lparr>ck_downloads := (ck_downloads c)[n := rd]\<rparr>)) (\<lambda>_.
     if \<not> truthy (dget rd ''process_complete'') then ret ()
     else bnd (in_c (hastagRelease ''failed_rename'' rd)) (\<lambda>bad.
          if bad then ret ()
          else bnd (in_c (untag_download ''renamed_already'' rd)) (\<lambda>_.
               in_c (on_w (fire_unit ''download.process_complete'' [PDict rd])))))))"

section \<open>All releases\<close>

text \<open>The ids to ask for, and how many downloaders do not report a status.\<close>

definition download_id :: "doc \<Rightarrow> pv list \<times> nat \<Rightarrow> (pv list \<times> nat) res" where
  "download_id rel ids =
     (if \<not> truthy (dget rel ''download_info'') then Inr ids
      else rbind (as_dict (dget rel ''download_info'')) (\<lambda>d.
        let ds = dget d ''status_support'' in
        Inr (if truthy (dget d ''id'') \<and> truthy (dget d ''downloader'') then fst ids @ [PDict d] else fst ids,
             if ds = PBool False \<or> ds = PStr ''False'' then Suc (snd ids) else snd ids)))"

definition check_all :: "renv \<Rightarrow> doc list \<Rightarrow> pv \<Rightarrow> (rstate \<times> check_state, unit) py" where
  "check_all e rels release_downloads =
     bnd (catch (bnd (liftr (rbind (as_list release_downloads) (mapr as_dict))) (\<lambda>rds.
            bnd (set_c (\<lambda>c. c\<lparr>ck_downloads := rds\<rparr>)) (\<lambda>_.
            for_each rels (check_release e)))) (\<lambda>_. ret ())) (\<lambda>_.
     bnd (gets (\<lambda>(s, c). ck_scan c)) (\<lambda>ns. for_each ns (scan_download e)))"

definition with_c :: "(rstate \<times> check_state, unit) py \<Rightarrow> (rstate, check_state) py" where
  "with_c m = (\<lambda>s. case m (s, \<lparr>ck_downloads = [], ck_scan = [], ck_required = False\<rparr>) of
     (r, (s', c)) \<Rightarrow> (rbind r (\<lambda>_. Inr c), s'))"

definition check_body :: "renv \<Rightarrow> bool \<Rightarrow> (rstate, bool) py" where
  "check_body e fire_scan =
     bnd (on_w (release_with_status [''snatched'', ''seeding'', ''missing''])) (\<lambda>rels.
     if rels = [] then ret True else
     case foldr_res download_id rels ([], 0) of
       Inl _ \<Rightarrow> ret False
     | Inr (download_ids, no_support) \<Rightarrow>
         bnd (if download_ids = [] then ret (PList []) else on_w (fire ''download.status'' [PList download_ids])) (\<lambda>rds.
         if \<not> truthy rds
         then bnd (whenp fire_scan (bnd (renamer_scan e (ret ()) [] [] []) (\<lambda>_. ret ()))) (\<lambda>_. ret True)
         else bnd (with_c (check_all e rels rds)) (\<lambda>c.
              bnd (whenp (fire_scan \<and> (ck_required c \<or> 0 < no_support))
                     (bnd (renamer_scan e (ret ()) [] [] []) (\<lambda>_. ret ()))) (\<lambda>_.
              ret True))))"

definition set_checking :: "bool \<Rightarrow> (rstate, unit) py" where
  "set_checking b = modify (\<lambda>s. s\<lparr>checking_snatched := b\<rparr>)"

text \<open>While the flag is set another check, also one a nested scan asks for, returns at once; so the nested
  scans have \<open>ret ()\<close> for it.\<close>

definition checkSnatched :: "renv \<Rightarrow> bool \<Rightarrow> (rstate, bool) py" where
  "checkSnatched e fire_scan =
     bnd (gets checking_snatched) (\<lambda>b.
     if b then ret False else
     bnd (set_checking True) (\<lambda>_.
     bnd (catch (check_body e fire_scan) (\<lambda>_. ret False)) (\<lambda>r.
     bnd (set_checking False) (\<lambda>_. ret r))))"

text \<open>The renamer's scan as the program starts it.\<close>

definition scan_with_check :: "renv \<Rightarrow> string \<Rightarrow> doc \<Rightarrow> string \<Rightarrow> (rstate, doc) py" where
  "scan_with_check e base_folder release_download to_folder =
     renamer_scan e (bnd (checkSnatched e False) (\<lambda>_. ret ())) base_folder release_download to_folder"

end
