(* ===== verification/DownloadSafety.thy ===== *)
theory DownloadSafety
  imports CheckSnatched RenamerFlag
begin

text \<open>
  A downloader is told to remove a download only when it reports the download as failed, and to clean
  up after one only when it reports it as complete: for the check of the downloads with all it causes, the
  scans of the renamer, the updates of the library and the search for the next release included.
\<close>

section \<open>What may be told\<close>

definition told :: "string \<times> pv list \<Rightarrow> bool" where
  "told ev \<longleftrightarrow>
     (fst ev = ''download.remove_failed'' \<longrightarrow> (\<exists>rd. snd ev = [PDict rd] \<and> dget rd ''status'' = PStr ''failed'')) \<and>
     (fst ev = ''download.process_complete'' \<longrightarrow> (\<exists>rd. snd ev = [PDict rd] \<and> dget rd ''status'' = PStr ''completed''))"

definition asks :: "rstate \<Rightarrow> rstate \<Rightarrow> bool" where
  "asks s t \<longleftrightarrow> fires told (rw s) (rw t)"

interpretation tl: calm told
  by unfold_locales (simp add: told_def)

interpretation ak: rframe asks told
  by unfold_locales (auto simp: asks_def intro: fr.frame_refl fr.frame_trans)

text \<open>A scan keeps what the downloader reported of the status, and what was noted.\<close>

definition same_report :: "doc \<Rightarrow> doc \<Rightarrow> bool" where
  "same_report rd rd' \<longleftrightarrow> dget rd' ''status'' = dget rd ''status'' \<and> dget rd' ''process_complete'' = dget rd ''process_complete''"

lemma asks_flags: "keeps asks (set_renaming b)" "keeps asks (set_checking b)"
  by (auto simp: set_renaming_def set_checking_def asks_def intro!: ak.keeps_modify fr.frame_refl)

lemma asks_scan: "keeps asks checker \<Longrightarrow> keeps asks (renamer_scan e checker b rd t)"
  unfolding renamer_scan_def
  by (auto intro!: ak.keeps_intros ak.keeps_prepare ak.keeps_rename_groups asks_flags split: started.split)

lemma prepare_report:
  assumes "prepare e checker b rd t s = (Inr x, s')"
  shows "(\<forall>rd'. x = Refused rd' \<longrightarrow> same_report rd rd') \<and> (\<forall>st. x = Start st \<longrightarrow> same_report rd (st_download st))"
proof -
  have lm: "locate_media f m rd s = (Inr (Some (rd', mf)), s') \<Longrightarrow> same_report rd rd'" for f m rd' mf s s'
    by (auto simp: locate_media_def Let_def readf_def py_simps same_report_def dupdate_def
        split: if_splits sum.splits)
  show ?thesis using assms
    by (auto simp: prepare_def py_simps Let_def rconf_def readf_def same_report_def
        split: if_splits sum.splits prod.splits option.splits dest!: lm)
qed

lemma extend_report: "extendReleaseDownload rd w = (Inr rd', w') \<Longrightarrow> same_report rd rd'"
proof -
  assume run: "extendReleaseDownload rd w = (Inr rd', w')"
  have d: "download_facts rls m = Inr d \<Longrightarrow> same_report rd (dupdate rd d)" for rls m d
    by (auto simp: download_facts_def rbind_eq_Inr same_report_def dupdate_def)
  from run show ?thesis unfolding extendReleaseDownload_def
    by (elim bnd_okE) (auto simp: ret_run liftr_run same_report_def split: if_splits dest!: d elim!: bnd_okE)
qed

lemma rename_groups_report: "rename_groups e st s = (Inr rd', s') \<Longrightarrow> same_report (st_download st) rd'"
proof -
  assume run: "rename_groups e st s = (Inr rd', s')"
  have ex: "on_w (if st_download st = [] then ret [] else extendReleaseDownload (st_download st)) t = (Inr rd, t') \<Longrightarrow>
      same_report (st_download st) rd" for t t' rd
    by (auto simp: on_w_run ret_run same_report_def split: if_splits prod.splits dest!: extend_report)
  have lf: "same_report rd rd1 \<Longrightarrow> same_report rd (if b then left_files st fs rd1 else rd1)" for rd rd1 b fs
    by (simp add: same_report_def left_files_def)
  from run show ?thesis unfolding rename_groups_def case_prod_beta Let_def
    by (elim bnd_okE) (auto simp: ret_run dest!: ex intro: lf)
qed

lemma scan_report:
  assumes "renamer_scan e checker b rd t s = (Inr rd', s')"
  shows "same_report rd rd'"
  using assms unfolding renamer_scan_def
  by (elim bnd_okE)
    (auto simp: ret_run same_report_def split: started.splits elim!: bnd_okE dest!: prepare_report rename_groups_report)

section \<open>The state of a check\<close>

text \<open>The statuses \<open>ST\<close> that were reported stay, and only complete downloads are noted for cleaning up. The
  positions \<open>NS\<close> have been noted.\<close>

definition noted_ok :: "pv list \<Rightarrow> nat list \<Rightarrow> check_state \<Rightarrow> bool" where
  "noted_ok ST NS c \<longleftrightarrow> set NS \<subseteq> set (ck_scan c) \<and> map (\<lambda>d. dget d ''status'') (ck_downloads c) = ST \<and>
     (\<forall>n \<in> set (ck_scan c). n < length ST \<and>
        (truthy (dget (ck_downloads c ! n) ''process_complete'') \<longrightarrow> ST ! n = PStr ''completed''))"

definition checks :: "pv list \<Rightarrow> nat list \<Rightarrow> rstate \<times> check_state \<Rightarrow> rstate \<times> check_state \<Rightarrow> bool" where
  "checks ST NS s t \<longleftrightarrow> (noted_ok ST NS (snd s) \<longrightarrow> asks (fst s) (fst t) \<and> noted_ok ST NS (snd t))"

interpretation cs: frame "checks ST NS" for ST NS
  by unfold_locales (auto simp: checks_def intro: ak.frame_refl ak.frame_trans)

lemma checks_in_c: "keeps asks m \<Longrightarrow> keeps (checks ST NS) (in_c m)"
  by (auto simp: keeps_def in_c_def checks_def split: prod.split) (metis snd_conv)

lemma checks_gets:
  "(\<And>s. noted_ok ST NS (snd s) \<Longrightarrow> keeps (checks ST NS) (f (g s))) \<Longrightarrow> keeps (checks ST NS) (bnd (gets g) f)"
  unfolding keeps_def checks_def by (auto simp: bnd_run gets_run)

lemma checks_value:
  assumes "keeps (checks ST NS) m" "\<And>s x t. m s = (Inr x, t) \<Longrightarrow> P x" "\<And>x. P x \<Longrightarrow> keeps (checks ST NS) (f x)"
  shows "keeps (checks ST NS) (bnd m f)"
proof (rule keepsI)
  fix s
  obtain r t where m: "m s = (r, t)" by (cases "m s")
  with keepsD [OF assms(1), of s] have st: "checks ST NS s t" by simp
  show "checks ST NS s (snd (bnd m f s))"
  proof (cases r)
    case (Inl e)
    with m st show ?thesis by (simp add: bnd_run)
  next
    case (Inr x)
    with m keepsD [OF assms(3) [OF assms(2)], of s x t t] cs.frame_trans [OF st] show ?thesis by (simp add: bnd_run)
  qed
qed

lemma checks_each: "(\<And>x. x \<in> set xs \<Longrightarrow> keeps (checks ST NS) (f x)) \<Longrightarrow> keeps (checks ST NS) (for_each xs f)"
  by (induction xs) (auto intro: cs.keeps_ret cs.keeps_bnd)

lemma checks_required: "keeps (checks ST NS) (set_c (\<lambda>c. c\<lparr>ck_required := b\<rparr>))"
  unfolding set_c_def by (rule cs.keeps_modify) (auto simp: checks_def noted_ok_def intro: ak.frame_refl)

lemma checks_note:
  assumes "n < length ST" "b \<longrightarrow> ST ! n = PStr ''completed''"
  shows "keeps (checks ST NS) (note_scan n p s b)"
proof -
  have st: "dget (dupdate d [(''pause'', x), (''scan'', y), (''process_complete'', z)]) ''status'' = dget d ''status''"
    "dget (dupdate d [(''pause'', x), (''scan'', y), (''process_complete'', z)]) ''process_complete'' = z" for d x y z
    by (simp_all add: dupdate_def)
  show ?thesis unfolding note_scan_def set_c_def using assms
    by (intro cs.keeps_modify) (auto simp: checks_def noted_ok_def nth_list_update map_update st list_eq_iff_nth_eq
        intro: ak.frame_refl split: if_splits)
qed

section \<open>One release\<close>

lemma asks_status: "keeps (checks ST NS) (set_status rel st)"
  unfolding set_status_def
  by (intro checks_in_c ak.keeps_intros ak.keeps_on_w tl.calm_intros tl.calm_updateStatus)

lemma checks_reads: "keeps (checks ST NS) (gets g)" "keeps (checks ST NS) moves"
  by (simp_all add: cs.keeps_gets moves_def)

lemmas c_intros = cs.keeps_intros checks_in_c asks_status checks_reads checks_required ak.keeps_tags

lemma checks_lost: "keeps (checks ST NS) (lost_release rel)"
  unfolding lost_release_def by (intro keeps_if c_intros)

lemma checks_busy: "keeps (checks ST NS) (busy_release e rel rd)"
  unfolding busy_release_def by (intro c_intros)

lemma checks_seeding: "n < length ST \<Longrightarrow> keeps (checks ST NS) (seeding_release rel rd n)"
  unfolding seeding_release_def by (intro keeps_if c_intros checks_note) simp_all

lemma checks_completed:
  "n < length ST \<Longrightarrow> ST ! n = PStr ''completed'' \<Longrightarrow> keeps (checks ST NS) (completed_release rel rd n)"
  unfolding completed_release_def by (intro keeps_if c_intros checks_note) simp_all

lemma asks_fire: "told (n, args) \<Longrightarrow> keeps asks (on_w (fire_unit n args))"
  by (intro ak.keeps_on_w fires_fire_unit)

lemma checks_failed:
  assumes "\<And>m d. keeps (fires told) (call_method ou m d)" "dget rd ''status'' = PStr ''failed''"
  shows "keeps (checks ST NS) (failed_release ou rel rd)"
proof -
  have t: "told (''download.remove_failed'', [PDict rd])" using assms(2) by (simp add: told_def)
  show ?thesis unfolding failed_release_def
    by (intro c_intros asks_fire [OF t] ak.keeps_intros ak.keeps_on_w tl.calm_intros fires_call_handler
        tl.calm_tryNextRelease assms(1))
qed

lemma checks_found:
  assumes "\<And>m d. keeps (fires told) (call_method (rn_ou e) m d)" "n < length ST"
  shows "keeps (checks ST NS) (found_download e rel n)"
  unfolding found_download_def
proof (rule checks_gets)
  fix s :: "rstate \<times> check_state" assume ok: "noted_ok ST NS (snd s)"
  let ?rd = "(case s of (s, c) \<Rightarrow> ck_downloads c ! n)"
  have st: "dget ?rd ''status'' = ST ! n" using ok assms(2) by (auto simp: noted_ok_def split: prod.split)
  have val: "rbind (dsub ?rd ''timeleft'') (\<lambda>_. rbind (dsub ?rd ''name'') (\<lambda>_. rbind (dsub ?rd ''status'') as_str)) = Inr x \<Longrightarrow>
      dget ?rd ''status'' = PStr x" for x
    by (auto simp: rbind_eq_Inr dest!: dsub_Inr elim: as_str.elims)
  show "keeps (checks ST NS) (bnd (liftr (rbind (dsub ?rd ''timeleft'') (\<lambda>_. rbind (dsub ?rd ''name'') (\<lambda>_. rbind (dsub ?rd ''status'') as_str)))) (\<lambda>st.
     if st = ''busy'' then busy_release e rel ?rd
     else if st = ''seeding'' then seeding_release rel ?rd n
     else if st = ''failed'' then failed_release (rn_ou e) rel ?rd
     else if st = ''completed'' then completed_release rel ?rd n
     else ret ()))"
  proof (rule cs.keeps_liftr_bnd)
    fix x assume "rbind (dsub ?rd ''timeleft'') (\<lambda>_. rbind (dsub ?rd ''name'') (\<lambda>_. rbind (dsub ?rd ''status'') as_str)) = Inr x"
    from val [OF this] st have x: "dget ?rd ''status'' = PStr x" "ST ! n = PStr x" by simp_all
    show "keeps (checks ST NS) (if x = ''busy'' then busy_release e rel ?rd
     else if x = ''seeding'' then seeding_release rel ?rd n
     else if x = ''failed'' then failed_release (rn_ou e) rel ?rd
     else if x = ''completed'' then completed_release rel ?rd n
     else ret ())"
      using x assms by (auto intro!: checks_busy checks_seeding checks_failed checks_completed cs.keeps_ret)
  qed
qed

lemma find_download_bound: "find_download d rds k = Inr (Some n) \<Longrightarrow> n < k + length rds"
  by (induction rds arbitrary: k) (fastforce simp: rbind_eq_Inr split: if_splits)+

lemma checks_release:
  assumes "\<And>m d. keeps (fires told) (call_method (rn_ou e) m d)"
  shows "keeps (checks ST NS) (check_release e rel)"
proof -
  have look: "keeps (checks ST NS) (bnd (gets (\<lambda>(s, c). ck_downloads c)) (\<lambda>rds.
      bnd (liftr (find_download info rds 0)) (\<lambda>at_pos. case at_pos of None \<Rightarrow> lost_release rel | Some n \<Rightarrow> found_download e rel n)))" for info
  proof (rule checks_gets)
    fix s :: "rstate \<times> check_state" assume "noted_ok ST NS (snd s)"
    then have len: "length (case s of (s, c) \<Rightarrow> ck_downloads c) = length ST" by (auto simp: noted_ok_def split: prod.split)
    show "keeps (checks ST NS) (bnd (liftr (find_download info (case s of (s, c) \<Rightarrow> ck_downloads c) 0))
        (\<lambda>at_pos. case at_pos of None \<Rightarrow> lost_release rel | Some n \<Rightarrow> found_download e rel n))"
      by (rule cs.keeps_liftr_bnd)
        (use len in \<open>auto split: option.split intro!: checks_lost checks_found assms dest!: find_download_bound\<close>)
  qed
  show ?thesis unfolding check_release_def
    by (auto intro!: c_intros look ak.keeps_on_w tl.calm_intros split: pv.split)
qed

section \<open>The downloads that are scanned\<close>

lemma asks_pause: "keeps asks (pause_download rd b)"
  unfolding pause_download_def by (intro ak.r_intros asks_fire) (simp add: told_def)

lemma checks_scan_download:
  assumes "n \<in> set NS"
  shows "keeps (checks ST NS) (scan_download e n)"
  unfolding scan_download_def
proof (rule checks_gets)
  fix s :: "rstate \<times> check_state" assume ok: "noted_ok ST NS (snd s)"
  let ?rd = "(case s of (s, c) \<Rightarrow> ck_downloads c ! n)"
  have rd: "dget ?rd ''status'' = ST ! n" "n < length ST"
    "truthy (dget ?rd ''process_complete'') \<Longrightarrow> ST ! n = PStr ''completed''"
    using ok assms by (auto simp: noted_ok_def subset_iff split: prod.splits)
  let ?scanned = "if truthy (dget ?rd ''scan'')
          then in_c (bnd (pause_download ?rd True) (\<lambda>_.
                     bnd (renamer_scan e (ret ()) [] ?rd []) (\<lambda>rd'.
                     bnd (pause_download rd' False) (\<lambda>_. ret rd'))))
          else ret ?rd"
  have k: "keeps (checks ST NS) ?scanned"
    by (intro keeps_if cs.keeps_ret checks_in_c ak.keeps_intros asks_pause asks_scan)
  have p: "same_report ?rd x" if "?scanned u = (Inr x, v)" for u x v
    using that by (auto simp: in_c_def ret_run same_report_def split: if_splits prod.splits elim!: bnd_okE dest!: scan_report)
  have put: "keeps (checks ST NS) (set_c (\<lambda>c. c\<lparr>ck_downloads := (ck_downloads c)[n := x]\<rparr>))" if "same_report ?rd x" for x
    unfolding set_c_def
    by (rule cs.keeps_modify) (use that rd in \<open>auto simp: checks_def noted_ok_def same_report_def map_update nth_list_update
        list_eq_iff_nth_eq intro: ak.frame_refl split: if_splits\<close>)
  show "keeps (checks ST NS) (bnd ?scanned (\<lambda>rd.
     bnd (set_c (\<lambda>c. c\<lparr>ck_downloads := (ck_downloads c)[n := rd]\<rparr>)) (\<lambda>_.
     if \<not> truthy (dget rd ''process_complete'') then ret ()
     else bnd (in_c (hastagRelease ''failed_rename'' rd)) (\<lambda>bad.
          if bad then ret ()
          else bnd (in_c (untag_download ''renamed_already'' rd)) (\<lambda>_.
               in_c (on_w (fire_unit ''download.process_complete'' [PDict rd])))))))"
  proof (rule checks_value [OF k p])
    fix x assume x: "same_report ?rd x"
    then have t: "truthy (dget x ''process_complete'') \<Longrightarrow> told (''download.process_complete'', [PDict x])"
      using rd by (auto simp: told_def same_report_def)
    show "keeps (checks ST NS) (bnd (set_c (\<lambda>c. c\<lparr>ck_downloads := (ck_downloads c)[n := x]\<rparr>)) (\<lambda>_.
     if \<not> truthy (dget x ''process_complete'') then ret ()
     else bnd (in_c (hastagRelease ''failed_rename'' x)) (\<lambda>bad.
          if bad then ret ()
          else bnd (in_c (untag_download ''renamed_already'' x)) (\<lambda>_.
               in_c (on_w (fire_unit ''download.process_complete'' [PDict x]))))))"
      by (auto intro!: c_intros put x asks_fire t)
  qed
qed

section \<open>The whole check\<close>

lemma asks_check_all:
  assumes "\<And>m d. keeps (fires told) (call_method (rn_ou e) m d)"
  shows "keeps asks (with_c (check_all e rels v))"
proof (rule keepsI)
  fix s
  let ?c0 = "\<lparr>ck_downloads = [], ck_scan = [], ck_required = False\<rparr>"
  show "asks s (snd (with_c (check_all e rels v) s))"
  proof (cases "rbind (as_list v) (mapr as_dict)")
    case (Inl x)
    then show ?thesis by (simp add: with_c_def check_all_def py_simps ak.frame_refl)
  next
    case (Inr rds)
    let ?ST = "map (\<lambda>d. dget d ''status'') rds"
    let ?go = "bnd (catch (for_each rels (check_release e)) (\<lambda>_. ret ())) (\<lambda>_.
       bnd (gets (\<lambda>(s, c). ck_scan c)) (\<lambda>ns. for_each ns (scan_download e)))"
    have scan: "keeps (checks ?ST []) (bnd (gets (\<lambda>(s, c). ck_scan c)) (\<lambda>ns. for_each ns (scan_download e)))"
    proof (rule keepsI)
      fix s :: "rstate \<times> check_state"
      let ?ns = "ck_scan (snd s)"
      have "keeps (checks ?ST ?ns) (for_each ?ns (scan_download e))"
        by (intro checks_each checks_scan_download)
      from keepsD [OF this, of s] have "checks ?ST ?ns s (snd (for_each ?ns (scan_download e) s))" .
      moreover have "noted_ok ST [] c \<Longrightarrow> noted_ok ST (ck_scan c) c" "noted_ok ST ns c \<Longrightarrow> noted_ok ST [] c" for ST c ns
        by (simp_all add: noted_ok_def)
      ultimately have "checks ?ST [] s (snd (for_each ?ns (scan_download e) s))" unfolding checks_def by blast
      then show "checks ?ST [] s (snd (bnd (gets (\<lambda>(s, c). ck_scan c)) (\<lambda>ns. for_each ns (scan_download e)) s))"
        by (simp add: bnd_run gets_run case_prod_beta)
    qed
    have "keeps (checks ?ST []) ?go"
      by (intro cs.keeps_bnd cs.keeps_catch cs.keeps_for_each cs.keeps_ret checks_release assms scan)
    from keepsD [OF this, of "(s, ?c0\<lparr>ck_downloads := rds\<rparr>)"]
    have "asks s (fst (snd (?go (s, ?c0\<lparr>ck_downloads := rds\<rparr>))))"
      by (simp add: checks_def noted_ok_def)
    moreover have "check_all e rels v (s, ?c0) = ?go (s, ?c0\<lparr>ck_downloads := rds\<rparr>)"
      using Inr by (simp add: check_all_def bnd_run catch_run liftr_run set_c_def modify_run)
    ultimately show ?thesis by (auto simp: with_c_def split: prod.split)
  qed
qed

lemma asks_checkSnatched:
  assumes "\<And>m d. keeps (fires told) (call_method (rn_ou e) m d)"
  shows "keeps asks (checkSnatched e fire_scan)"
proof -
  have r: "keeps (fires told) (release_with_status st)" for st
    unfolding release_with_status_def by (auto intro!: tl.calm_intros tl.calm_get_docs)
  have f: "keeps asks (on_w (fire ''download.status'' args))" for args
    by (intro ak.keeps_on_w tl.calm_fire) simp
  show ?thesis unfolding checkSnatched_def check_body_def
    by (auto intro!: ak.keeps_intros ak.keeps_on_w r f asks_flags asks_scan asks_check_all assms split: sum.split prod.split)
qed

text \<open>C31: the check of the downloads, with the scans, the library updates and the searches it causes, tells a
  downloader to remove a download only when the downloader reported it as failed, and to clean up after
  a download only when the downloader reported it as complete.\<close>

theorem downloads_told_rightly:
  assumes "\<And>m d. keeps (fires (\<lambda>ev. fst ev \<notin> {''download.remove_failed'', ''download.process_complete''})) (call_method (rn_ou e) m d)"
  shows "\<exists>evs. fired (rw (snd (checkSnatched e fire_scan s))) = fired (rw s) @ evs \<and>
    (\<forall>args. (''download.remove_failed'', args) \<in> set evs \<longrightarrow> (\<exists>rd. args = [PDict rd] \<and> dget rd ''status'' = PStr ''failed'')) \<and>
    (\<forall>args. (''download.process_complete'', args) \<in> set evs \<longrightarrow> (\<exists>rd. args = [PDict rd] \<and> dget rd ''status'' = PStr ''completed''))"
proof -
  have "keeps (fires told) (call_method (rn_ou e) m d)" for m d
    by (rule fires_mono [OF assms]) (simp add: told_def)
  from keepsD [OF asks_checkSnatched [OF this], of s fire_scan]
  have "fires told (rw s) (rw (snd (checkSnatched e fire_scan s)))" by (simp add: asks_def)
  then show ?thesis unfolding fires_def told_def by fastforce
qed

theorem downloads_told_rightly_witness:
  "\<exists>evs. fired (rw (snd (checkSnatched demo_renv True demo_renamer))) = fired (rw demo_renamer) @ evs \<and>
    (\<forall>args. (''download.remove_failed'', args) \<in> set evs \<longrightarrow> (\<exists>rd. args = [PDict rd] \<and> dget rd ''status'' = PStr ''failed'')) \<and>
    (\<forall>args. (''download.process_complete'', args) \<in> set evs \<longrightarrow> (\<exists>rd. args = [PDict rd] \<and> dget rd ''status'' = PStr ''completed''))"
  by (rule downloads_told_rightly) (simp add: demo_renv_def demo_outside_def fr.keeps_ret)

end
