(* ===== verification/Web.thy ===== *)
theory Web
  imports Scanner
begin

text \<open>
  The HTTP side of couchpotato/core/plugins/base.py: \<open>Plugin.urlopen\<close> with the hosts it leaves alone
  after too many failures, the pause between two calls to a host (\<open>wait\<close>), FlareSolverr, and the cache of
  pages (\<open>getCache\<close>, \<open>setCache\<close>). The HTTP client, the clean-up of HTML entities, MD5 and what other
  threads do while this one sleeps are the record \<open>net\<close>; every request is kept in the trace \<open>requested\<close>.
\<close>

section \<open>Addresses\<close>

text \<open>\<open>urllib.parse.quote(url.encode('utf-8'), safe = ...)\<close>.\<close>

definition utf8 :: "char \<Rightarrow> nat list" where
  "utf8 c = (if cp c < 128 then [cp c] else [192 + cp c div 64, 128 + cp c mod 64])"

definition pct_digit :: "nat \<Rightarrow> char" where
  "pct_digit n = (if n < 10 then char_of (48 + n) else char_of (55 + n))"

definition url_safe :: "char \<Rightarrow> bool" where
  "url_safe c \<longleftrightarrow> cp c < 128 \<and> (is_lower_az c \<or> is_upper_az c \<or> is_digit c \<or> c \<in> set ''_.-~%/:=&?#+!$,;@()*[]'' \<or> cp c = 39)"

definition quote_url :: "string \<Rightarrow> string" where
  "quote_url s = concat (map (\<lambda>c. if url_safe c then [c]
     else concat (map (\<lambda>b. [CHR ''%'', pct_digit (b div 16), pct_digit (b mod 16)]) (utf8 c))) s)"

text \<open>\<open>urllib.parse.urlparse\<close>: the scheme, the host name (\<open>None\<close> when there is none) and the port. Hosts in
  brackets are not checked further.\<close>

definition scheme_char :: "char \<Rightarrow> bool" where
  "scheme_char c \<longleftrightarrow> is_lower_az c \<or> is_upper_az c \<or> is_digit c \<or> c \<in> set ''+-.''"

definition url_text :: "string \<Rightarrow> string" where
  "url_text u = filter (\<lambda>c. cp c \<notin> {9, 10, 13}) (lstrip_on (\<lambda>c. cp c \<le> 32) u)"

definition split_scheme :: "string \<Rightarrow> string \<times> string" where
  "split_scheme u =
     (let s = takeWhile (\<lambda>c. c \<noteq> CHR '':'') u
      in if length s < length u \<and> s \<noteq> [] \<and> (is_lower_az (hd s) \<or> is_upper_az (hd s)) \<and> list_all scheme_char s
         then (lower s, drop (Suc (length s)) u) else ([], u))"

definition upto_char :: "char \<Rightarrow> string \<Rightarrow> string" where
  "upto_char x s = takeWhile (\<lambda>c. c \<noteq> x) s"

definition after_char :: "char \<Rightarrow> string \<Rightarrow> string" where
  "after_char x s = drop 1 (dropWhile (\<lambda>c. c \<noteq> x) s)"

definition after_last :: "char \<Rightarrow> string \<Rightarrow> string" where
  "after_last x s = rev (takeWhile (\<lambda>c. c \<noteq> x) (rev s))"

definition netloc :: "string \<Rightarrow> string res" where
  "netloc rest =
     (let n = (if prefix ''//'' rest then takeWhile (\<lambda>c. c \<notin> set ''/?#'') (drop 2 rest) else [])
      in if (CHR ''['' \<in> set n) \<noteq> (CHR '']'' \<in> set n) then Inl ValueError else Inr n)"

definition hostinfo :: "string \<Rightarrow> string \<times> string" where
  "hostinfo loc =
     (let h = after_last (CHR ''@'') loc
      in if CHR ''['' \<in> set h
         then (let b = after_char (CHR ''['') h in (upto_char (CHR '']'') b, after_char (CHR '':'') (after_char (CHR '']'') b)))
         else (upto_char (CHR '':'') h, after_char (CHR '':'') h))"

definition hostname_of :: "string \<Rightarrow> string option" where
  "hostname_of h = (if h = [] then None else Some (lower (upto_char (CHR ''%'') h) @ dropWhile (\<lambda>c. c \<noteq> CHR ''%'') h))"

definition port_of :: "string \<Rightarrow> nat option res" where
  "port_of p =
     (if p = [] then Inr None
      else if \<not> list_all is_digit p then Inl ValueError
      else if 65535 < digits_val 0 p then Inl ValueError else Inr (Some (digits_val 0 p)))"

record url_parts =
  u_scheme :: string
  u_host :: "string option"
  u_port :: string

definition urlparse :: "string \<Rightarrow> url_parts res" where
  "urlparse url =
     (let (sch, rest) = split_scheme (url_text url)
      in rbind (netloc rest) (\<lambda>n. Inr \<lparr>u_scheme = sch, u_host = hostname_of (fst (hostinfo n)), u_port = snd (hostinfo n)\<rparr>))"

definition opt_str :: "string option \<Rightarrow> string" where
  "opt_str x = (case x of None \<Rightarrow> ''None'' | Some s \<Rightarrow> s)"

definition host_key :: "url_parts \<Rightarrow> string res" where
  "host_key u = rbind (port_of (u_port u)) (\<lambda>p.
     Inr (opt_str (u_host u) @ (case p of None \<Rightarrow> [] | Some n \<Rightarrow> if n = 0 then [] else '':'' @ str_of_int (int n))))"

section \<open>Pages, replies and the state\<close>

text \<open>What \<open>urlopen\<close> returns: text, the bytes of an answer, an answer that is read later, or, for an answer
  that is neither a success nor an error, the data that was sent.\<close>

datatype page = Text string | Bytes string | Streamed string | Sent pv

fun page_truthy :: "page \<Rightarrow> bool" where
  "page_truthy (Text s) = (s \<noteq> [])"
| "page_truthy (Bytes s) = (s \<noteq> [])"
| "page_truthy (Streamed s) = True"
| "page_truthy (Sent v) = truthy v"

record response =
  status_code :: int
  headers :: "(string \<times> string) list"
  content :: string
  text_body :: string

datatype reply = Answer response | Failed exn

text \<open>The exceptions of the HTTP client that count as a failed request: those that are an \<open>IOError\<close>, the
  errors of \<open>raise_for_status\<close> included.\<close>

fun is_io :: "exn \<Rightarrow> bool" where
  "is_io OSError = True"
| "is_io (HTTPError _) = True"
| "is_io _ = False"

record request =
  rq_method :: string
  rq_url :: string
  rq_headers :: doc
  rq_data :: pv
  rq_timeout :: int
  rq_stream :: bool
  rq_proxies :: "(string \<times> string) list option"

record web =
  bw :: world
  http_last_use :: "(string \<times> int) list"
  http_last_use_queue :: "(string \<times> string list) list"
  http_failed_request :: "(string \<times> int) list"
  http_failed_disabled :: "(string \<times> int) list"
  cloudflare_hosts :: "(string \<times> int) list"
  pages :: "(string \<times> int \<times> page) list"
  requested :: "request list"
  stuck :: bool

record net =
  patience :: nat
  send :: "web \<Rightarrow> request \<Rightarrow> reply"
  flare_reply :: "web \<Rightarrow> string \<Rightarrow> pv res"
  sleep :: "rat \<Rightarrow> web \<Rightarrow> web"
  unescape :: "string \<Rightarrow> string"
  page_md5 :: "string \<Rightarrow> string"
  getproxies :: "(string \<times> string) list"
  dev :: bool

text \<open>The attributes of a plugin class.\<close>

record plug =
  p_name :: string
  p_user_agent :: string
  http_time_between_calls :: int

definition on_bw :: "(world, 'a) py \<Rightarrow> (web, 'a) py" where
  "on_bw m = (\<lambda>s. case m (bw s) of (r, w) \<Rightarrow> (r, s\<lparr>bw := w\<rparr>))"

lemma on_bw_run [py_simps]: "on_bw m s = (case m (bw s) of (r, w) \<Rightarrow> (r, s\<lparr>bw := w\<rparr>))"
  by (simp add: on_bw_def)

definition clock :: "web \<Rightarrow> int" where
  "clock s = now (bw s)"

definition env_setting :: "web \<Rightarrow> string \<Rightarrow> pv" where
  "env_setting s attr = get_setting (sett (bw s)) attr ''core'' (PStr []) PNone"

definition tab :: "(string \<times> int) list \<Rightarrow> string \<Rightarrow> int" where
  "tab t k = (case map_of t k of None \<Rightarrow> 0 | Some n \<Rightarrow> n)"


section \<open>The file cache\<close>

text \<open>libs/cache/__init__.py, \<open>FileSystemCache\<close>: one file for each key with its expiry and its value, in
  the order in which the directory lists them. More than 500 files are thinned out before one is written.\<close>

definition prune :: "int \<Rightarrow> (string \<times> int \<times> page) list \<Rightarrow> (string \<times> int \<times> page) list" where
  "prune t fs = (if length fs \<le> 500 then fs
     else map snd (filter (\<lambda>(i, (k, expires, v)). \<not> (expires \<le> t \<or> i mod 3 = 0)) (enumerate 0 fs)))"

definition cache_get :: "net \<Rightarrow> string \<Rightarrow> (web, page option) py" where
  "cache_get e key0 = (let key = page_md5 e key0 in
     bnd (gets (\<lambda>s. map_of (pages s) key)) (\<lambda>f. case f of
        None \<Rightarrow> ret None
      | Some (expires, v) \<Rightarrow> bnd (gets clock) (\<lambda>t.
          if t \<le> expires then ret (Some v)
          else bnd (modify (\<lambda>s. s\<lparr>pages := AList.delete key (pages s)\<rparr>)) (\<lambda>_. ret None))))"

definition cache_set :: "net \<Rightarrow> string \<Rightarrow> page \<Rightarrow> int \<Rightarrow> (web, unit) py" where
  "cache_set e key0 v timeout = (let key = page_md5 e key0 in
     modify (\<lambda>s. s\<lparr>pages := AList.update key (clock s + timeout, v) (prune (clock s) (pages s))\<rparr>))"

section \<open>The pause between two calls\<close>

text \<open>\<open>Plugin.wait\<close>: a call waits until it is the first in the queue of its host and the last call is long
  enough ago. One round of the loop; \<open>True\<close> ends it. Sleeping is what the other threads do meanwhile.\<close>

definition pause :: "net \<Rightarrow> rat \<Rightarrow> (web, unit) py" where
  "pause e d = modify (sleep e d)"

definition head_of_queue :: "string \<Rightarrow> web \<Rightarrow> string res" where
  "head_of_queue host s = (case map_of (http_last_use_queue s) host of
     None \<Rightarrow> Inl KeyError | Some [] \<Rightarrow> Inl IndexError | Some (u # _) \<Rightarrow> Inr u)"

definition wait_turn :: "net \<Rightarrow> plug \<Rightarrow> string \<Rightarrow> string \<Rightarrow> (web, bool) py" where
  "wait_turn e p host url =
     bnd (gets (\<lambda>s. tab (http_last_use s) host - clock s + http_time_between_calls p)) (\<lambda>wait.
     bnd (gets (head_of_queue host)) (\<lambda>h.
     bnd (liftr h) (\<lambda>first.
     if first \<noteq> url then bnd (pause e (1 / 10)) (\<lambda>_. ret False)
     else if 0 < wait then bnd (pause e (of_int (min wait 30))) (\<lambda>_. ret False)
     else bnd (modify (\<lambda>s. s\<lparr>http_last_use_queue :=
                 AList.update host (tl (the (map_of (http_last_use_queue s) host))) (http_last_use_queue s)\<rparr>)) (\<lambda>_.
          bnd (modify (\<lambda>s. s\<lparr>http_last_use := AList.update host (clock s) (http_last_use s)\<rparr>)) (\<lambda>_.
          ret True)))))"

text \<open>The loop with fuel: \<open>False\<close> says that it was still waiting when the fuel ran out. The fuel is part of \<open>net\<close>;
  a run that needs more raises the flag \<open>stuck\<close>: in the program it waits on, and what the model does from
  there has not happened.\<close>

fun wait_turns :: "nat \<Rightarrow> net \<Rightarrow> plug \<Rightarrow> string \<Rightarrow> string \<Rightarrow> (web, bool) py" where
  "wait_turns 0 e p host url = ret False"
| "wait_turns (Suc n) e p host url =
     bnd (on_bw stopping) (\<lambda>stop. if stop then ret True
       else bnd (wait_turn e p host url) (\<lambda>ended. if ended then ret True else wait_turns n e p host url))"

definition join_queue :: "string \<Rightarrow> string \<Rightarrow> (web, unit) py" where
  "join_queue host url = modify (\<lambda>s. s\<lparr>http_last_use_queue := AList.update host
     ((case map_of (http_last_use_queue s) host of None \<Rightarrow> [] | Some q \<Rightarrow> q) @ [url]) (http_last_use_queue s)\<rparr>)"

definition wait :: "net \<Rightarrow> plug \<Rightarrow> string \<Rightarrow> string \<Rightarrow> (web, unit) py" where
  "wait e p host url =
     (if http_time_between_calls p = 0 then ret ()
      else catch (bnd (join_queue host url) (\<lambda>_.
                  bnd (wait_turns (patience e) e p host url) (\<lambda>ended.
                  whenp (\<not> ended) (modify (\<lambda>s. s\<lparr>stuck := True\<rparr>)))))
        (\<lambda>_. pause e (of_int (http_time_between_calls p))))"

section \<open>FlareSolverr\<close>

definition response_header :: "response \<Rightarrow> string \<Rightarrow> string option" where
  "response_header r k = map_of (map (\<lambda>(h, v). (lower h, v)) (headers r)) (lower k)"

definition isCloudflareChallenge :: "response \<Rightarrow> bool" where
  "isCloudflareChallenge r =
     (if status_code r \<notin> {403, 429, 503} then False
      else if response_header r ''cf-mitigated'' = Some ''challenge'' then True
      else if \<not> contains ''cloudflare'' (lower (case response_header r ''Server'' of None \<Rightarrow> [] | Some v \<Rightarrow> v)) then False
      else (let txt = take 20000 (text_body r)
            in contains ''Just a moment'' txt \<or> contains ''challenge-platform'' txt \<or> contains ''_cf_chl'' txt))"

definition anychar :: re where "anychar = Cls (\<lambda>_. True)"

definition browser_json_re :: re where
  "browser_json_re = seqs [Star space, lit ''<html><head>'', LStar anychar, lit ''</head><body><pre'', Star (none_of ''>''),
     lit ''>'', Grp 1 (LStar anychar), lit ''</pre>'', Star anychar, lit ''</html>'', Star space, Eos]"

definition unwrapBrowserJson :: "net \<Rightarrow> string \<Rightarrow> string" where
  "unwrapBrowserJson e body = (case match_at_start browser_json_re body of
       None \<Rightarrow> body
     | Some m \<Rightarrow> (case group m 1 of
          None \<Rightarrow> body
        | Some t \<Rightarrow> if take 1 (lstrip_on is_space t) \<in> {''['', ''{''} then unescape e t else body))"

text \<open>\<open>reply.get('solution') or {}\<close>.\<close>

definition or_empty :: "pv \<Rightarrow> pv \<Rightarrow> pv" where
  "or_empty v e = (if truthy v then v else e)"

definition openViaFlareSolverr :: "net \<Rightarrow> string \<Rightarrow> string \<Rightarrow> (web, page) py" where
  "openViaFlareSolverr e flaresolverr url =
     (let at_url = rstrip_chars ''/'' (cleanHost flaresolverr True False [] []) @ ''/v1'' in
      bnd (modify (\<lambda>s. s\<lparr>requested := requested s @ [\<lparr>rq_method = ''post'', rq_url = at_url, rq_headers = [],
         rq_data = PDict [(''cmd'', PStr ''request.get''), (''url'', PStr url), (''maxTimeout'', PInt 60000)],
         rq_timeout = 75, rq_stream = False, rq_proxies = None\<rparr>]\<rparr>)) (\<lambda>_.
      bnd (gets (\<lambda>s. flare_reply e s at_url)) (\<lambda>r.
      bnd (liftr r) (\<lambda>reply.
      bnd (liftr (vget reply ''solution'')) (\<lambda>sol.
      let solution = or_empty sol (PDict []) in
      bnd (liftr (vget reply ''status'')) (\<lambda>st.
      bnd (liftr (if st \<noteq> PStr ''ok'' then Inr True else rbind (vget solution ''status'') (\<lambda>c. Inr (c \<noteq> PInt 200)))) (\<lambda>bad.
      if bad then bnd (liftr (vget solution ''status'')) (\<lambda>_. raise OSError)
      else bnd (liftr (rbind (vget solution ''response'') (\<lambda>v. as_str (or_empty v (PStr []))))) (\<lambda>body.
           ret (Bytes (concat (map (map char_of \<circ> utf8) (unwrapBrowserJson e body))))))))))))"


section \<open>Opening a page\<close>

definition request_headers :: "plug \<Rightarrow> url_parts \<Rightarrow> string \<Rightarrow> doc \<Rightarrow> doc" where
  "request_headers p u host h =
     foldl (\<lambda>h (k, v). dput h k (dgetd h k v)) h
       [(''Referer'', PStr (u_scheme u @ ''://'' @ host)), (''Host'', PNone), (''User-Agent'', PStr (p_user_agent p)),
        (''Accept-encoding'', PStr ''gzip''), (''Connection'', PStr ''keep-alive''), (''Cache-Control'', PStr ''max-age=0'')]"

definition proxy_url :: "net \<Rightarrow> web \<Rightarrow> (string \<times> string) list option" where
  "proxy_url e s =
     (if \<not> truthy (env_setting s ''use_proxy'') then None
      else if truthy (env_setting s ''proxy_server'')
      then (let server = fmt (env_setting s ''proxy_server'');
                loc = (if truthy (env_setting s ''proxy_username'')
                  then fmt (env_setting s ''proxy_username'') @ '':'' @ fmt (env_setting s ''proxy_password'') @ ''@'' @ server
                  else server)
            in Some [(''http'', ''http://'' @ loc), (''https'', ''https://'' @ loc)])
      else Some (getproxies e))"

text \<open>Is the host left alone? After fifteen minutes it is forgotten.\<close>

definition left_alone :: "string \<Rightarrow> (web, bool) py" where
  "left_alone host =
     bnd (gets (\<lambda>s. (tab (http_failed_disabled s) host, clock s))) (\<lambda>(d, t).
     if \<not> 0 < d then ret False
     else if t - 900 < d then ret True
     else bnd (gets (\<lambda>s. map_of (http_failed_request s) host)) (\<lambda>c.
          if c = None then raise KeyError
          else bnd (modify (\<lambda>s. s\<lparr>http_failed_request := AList.delete host (http_failed_request s),
                                http_failed_disabled := AList.delete host (http_failed_disabled s)\<rparr>)) (\<lambda>_. ret False)))"

definition disable_host :: "string \<Rightarrow> web \<Rightarrow> web" where
  "disable_host host s = s\<lparr>http_failed_disabled := AList.update host (clock s) (http_failed_disabled s)\<rparr>"

definition count_failures :: "string \<Rightarrow> int \<Rightarrow> web \<Rightarrow> web" where
  "count_failures host n s = s\<lparr>http_failed_request := AList.update host n (http_failed_request s)\<rparr>"

definition note_failure :: "string \<Rightarrow> int option \<Rightarrow> web \<Rightarrow> web" where
  "note_failure host status s0 =
     (let s = (if status = Some 429 then disable_host host (count_failures host 1 s0) else s0);
          n = tab (http_failed_request s) host
      in if n = 0 then count_failures host 1 s
         else (let s' = count_failures host (n + 1) s
               in if 5 < n + 1 \<and> \<not> isLocalIP host then disable_host host s' else s'))"

definition attempt :: "('s, 'a) py \<Rightarrow> ('s, 'a res) py" where
  "attempt m = (\<lambda>s. case m s of (r, t) \<Rightarrow> (Inr r, t))"

text \<open>The body of the \<open>try\<close>: the status of the answer, where there was one, and the page or the exception.\<close>

definition send_request :: "net \<Rightarrow> request \<Rightarrow> (web, reply) py" where
  "send_request e rq = bnd (gets (\<lambda>s. send e s rq)) (\<lambda>r. bnd (modify (\<lambda>s. s\<lparr>requested := requested s @ [rq]\<rparr>)) (\<lambda>_. ret r))"

definition open_flare :: "net \<Rightarrow> pv \<Rightarrow> string \<Rightarrow> (web, page res) py" where
  "open_flare e flaresolverr url = attempt (bnd (liftr (as_str flaresolverr)) (\<lambda>f. openViaFlareSolverr e f url))"

definition fetch :: "net \<Rightarrow> request \<Rightarrow> string \<Rightarrow> pv \<Rightarrow> (web, int option \<times> page res) py" where
  "fetch e rq host flaresolverr =
     bnd (gets (\<lambda>s. truthy flaresolverr \<and> clock s - 3600 < tab (cloudflare_hosts s) host)) (\<lambda>challenged.
     if challenged then bnd (open_flare e flaresolverr (rq_url rq)) (\<lambda>r. ret (None, r))
     else bnd (send_request e rq) (\<lambda>reply. case reply of
         Failed x \<Rightarrow> ret (None, Inl x)
       | Answer r \<Rightarrow>
           if status_code r = 200
           then ret (Some 200, Inr (if rq_stream rq then Streamed (content r) else Bytes (content r)))
           else if truthy flaresolverr \<and> isCloudflareChallenge r
           then bnd (modify (\<lambda>s. s\<lparr>cloudflare_hosts := AList.update host (clock s) (cloudflare_hosts s)\<rparr>)) (\<lambda>_.
                bnd (open_flare e flaresolverr (rq_url rq)) (\<lambda>p. ret (Some (status_code r), p)))
           else if 400 \<le> status_code r \<and> status_code r < 600
           then ret (Some (status_code r), Inl (HTTPError (status_code r)))
           else ret (Some (status_code r), Inr (Sent (rq_data rq)))))"

definition has_len :: "pv \<Rightarrow> bool res" where
  "has_len v = (case v of PNone \<Rightarrow> Inl TypeError | PBool _ \<Rightarrow> Inl TypeError | PInt _ \<Rightarrow> Inl TypeError
     | PFloat _ \<Rightarrow> Inl TypeError | _ \<Rightarrow> Inr (truthy v))"

record url_options =
  o_timeout :: int
  o_data :: pv
  o_headers :: doc
  o_files :: bool
  show_error :: bool
  o_stream :: bool

definition plain_get :: url_options where
  "plain_get = \<lparr>o_timeout = 30, o_data = PDict [], o_headers = [], o_files = False, show_error = True, o_stream = False\<rparr>"

definition urlopen :: "net \<Rightarrow> plug \<Rightarrow> string \<Rightarrow> url_options \<Rightarrow> (web, page) py" where
  "urlopen e p url0 ops =
     (let url = quote_url url0; data = or_empty (o_data ops) (PDict []) in
      bnd (liftr (urlparse url)) (\<lambda>u.
      bnd (liftr (host_key u)) (\<lambda>host.
      bnd (gets (proxy_url e)) (\<lambda>proxies.
      bnd (left_alone host) (\<lambda>alone.
      if alone then (if show_error ops then ret (Text []) else raise (UserError ''Disabled calls''))
      else
      bnd (wait e p host url) (\<lambda>_.
      bnd (liftr (has_len data)) (\<lambda>posts.
      bnd (gets (\<lambda>s. if posts \<or> o_files ops \<or> o_stream ops then PNone else env_setting s ''flaresolverr_host'')) (\<lambda>flaresolverr.
      bnd (fetch e \<lparr>rq_method = (if posts \<or> o_files ops then ''post'' else ''get''), rq_url = url,
             rq_headers = request_headers p u host (o_headers ops), rq_data = data,
             rq_timeout = o_timeout ops, rq_stream = o_stream ops, rq_proxies = proxies\<rparr> host flaresolverr) (\<lambda>(status, r).
      case r of
        Inl x \<Rightarrow> bnd (whenp (is_io x) (modify (note_failure host status))) (\<lambda>_. raise x)
      | Inr pg \<Rightarrow>
          bnd (modify (count_failures host 0)) (\<lambda>_.
          bnd (modify (\<lambda>s. s\<lparr>http_last_use := AList.update host (clock s) (http_last_use s)\<rparr>)) (\<lambda>_.
          ret pg)))))))))))"

section \<open>The cache of pages\<close>

definition setCache :: "net \<Rightarrow> string \<Rightarrow> page \<Rightarrow> int \<Rightarrow> (web, page) py" where
  "setCache e cache_key v timeout = bnd (cache_set e (page_md5 e cache_key) v timeout) (\<lambda>_. ret v)"

text \<open>\<open>getCache(cache_key, url)\<close>; \<open>None\<close> is Python's \<open>None\<close>, of a key that is not there and no address. The
  dict an answer may be (\<open>Sent\<close>) is false when it is empty.\<close>

definition ask_page :: "net \<Rightarrow> plug \<Rightarrow> string \<Rightarrow> string \<Rightarrow> url_options \<Rightarrow> int \<Rightarrow> bool \<Rightarrow> (web, page option) py" where
  "ask_page e p cache_key url ops cache_timeout use_cache =
     (if url = [] then ret None
      else catch
        (bnd (urlopen e p url ops) (\<lambda>data.
         bnd (if page_truthy data \<and> 0 < cache_timeout \<and> use_cache
              then bnd (setCache e cache_key data cache_timeout) (\<lambda>_. ret ()) else ret ()) (\<lambda>_.
         ret (Some data))))
        (\<lambda>x. if show_error ops then ret (Some (Text [])) else raise x))"

definition getCache :: "net \<Rightarrow> plug \<Rightarrow> string \<Rightarrow> string \<Rightarrow> url_options \<Rightarrow> int \<Rightarrow> (web, page option) py" where
  "getCache e p cache_key url ops cache_timeout =
     (let use_cache = \<not> truthy (o_data ops) \<and> \<not> o_files ops in
      bnd (if use_cache then cache_get e (page_md5 e cache_key) else ret None) (\<lambda>cached.
      case cached of
        Some v \<Rightarrow> if page_truthy v then ret (Some v) else ask_page e p cache_key url ops cache_timeout use_cache
      | None \<Rightarrow> ask_page e p cache_key url ops cache_timeout use_cache))"


section \<open>How often a failing host is requested\<close>

text \<open>A client that only fails: no answer, or an answer that is an error.\<close>

definition refuses :: "reply \<Rightarrow> bool" where
  "refuses r = (case r of Failed x \<Rightarrow> is_io x | Answer a \<Rightarrow> 400 \<le> status_code a \<and> status_code a < 600)"

text \<open>Other threads open no pages while this one sleeps, and the clock does not go back.\<close>

definition quiet :: "net \<Rightarrow> bool" where
  "quiet e \<longleftrightarrow> (\<forall>d s. requested (sleep e d s) = requested s \<and> http_failed_request (sleep e d s) = http_failed_request s \<and>
     http_failed_disabled (sleep e d s) = http_failed_disabled s \<and> sett (bw (sleep e d s)) = sett (bw s) \<and>
     clock s \<le> clock (sleep e d s))"

definition host_of_url :: "string \<Rightarrow> string res" where
  "host_of_url url = rbind (urlparse (quote_url url)) host_key"

definition budget :: "int \<Rightarrow> string \<Rightarrow> web \<Rightarrow> int" where
  "budget t0 host s =
     (let d = tab (http_failed_disabled s) host
      in if t0 \<le> d then 0 else if 0 < d then 6 else max 1 (6 - tab (http_failed_request s) host))"

definition spends :: "int \<Rightarrow> string \<Rightarrow> web \<Rightarrow> web \<Rightarrow> bool" where
  "spends t0 host s t \<longleftrightarrow>
     (0 \<le> tab (http_failed_request s) host \<and> t0 \<le> clock s \<longrightarrow>
      0 \<le> tab (http_failed_request t) host \<and> t0 \<le> clock t \<and> sett (bw t) = sett (bw s) \<and>
      int (length (requested t)) + budget t0 host t \<le> int (length (requested s)) + budget t0 host s)"

interpretation sp: frame "spends t0 host" for t0 host
  by unfold_locales (auto simp: spends_def)

text \<open>Steps that touch neither the trace nor the tables of failures.\<close>

definition idle :: "web \<Rightarrow> web \<Rightarrow> bool" where
  "idle s t \<longleftrightarrow> requested t = requested s \<and> http_failed_request t = http_failed_request s \<and>
     http_failed_disabled t = http_failed_disabled s \<and> sett (bw t) = sett (bw s) \<and> clock s \<le> clock t"

interpretation idl: frame idle
  by unfold_locales (auto simp: idle_def)

lemma idle_stopping: "keeps idle (on_bw stopping)"
  by (simp add: keeps_def idle_def on_bw_def stopping_def py_simps clock_def)

lemma idle_pause: "quiet e \<Longrightarrow> keeps idle (pause e d)"
  unfolding pause_def by (rule idl.keeps_modify) (simp add: quiet_def idle_def)

lemma idle_wait_turn: "quiet e \<Longrightarrow> keeps idle (wait_turn e p host url)"
  unfolding wait_turn_def
  by (intro idl.keeps_intros keeps_if idle_pause idl.keeps_modify; assumption?) (simp_all add: idle_def clock_def)

lemma idle_wait_turns: "quiet e \<Longrightarrow> keeps idle (wait_turns n e p host url)"
  by (induction n) (auto intro!: idl.keeps_intros idle_stopping idle_wait_turn)

lemma idle_wait: "quiet e \<Longrightarrow> keeps idle (wait e p host url)"
  unfolding wait_def join_queue_def
  by (intro idl.keeps_intros keeps_if idle_wait_turns idle_pause idl.keeps_modify; assumption?)
    (simp_all add: idle_def clock_def)

lemma tab_update [simp]: "tab (AList.update k v t) k' = (if k = k' then v else tab t k')"
  by (simp add: tab_def update_conv')

lemma tab_delete [simp]: "tab (AList.delete k t) k' = (if k = k' then 0 else tab t k')"
  by (simp add: tab_def delete_conv')


lemma idle_spends: "idle s t \<Longrightarrow> spends t0 host s t"
  by (auto simp: idle_def spends_def budget_def Let_def)

lemma left_alone_budget:
  assumes "left_alone host s = (r, t)" "clock s < t0 + 900"
  shows "spends t0 host s t" "r = Inr False \<Longrightarrow> \<not> 0 < tab (http_failed_disabled t) host"
  using assms by (auto simp: left_alone_def py_simps spends_def budget_def clock_def split: if_splits)

lemma budget_requested [simp]: "budget t0 host (s\<lparr>requested := rs\<rparr>) = budget t0 host s"
  "clock (s\<lparr>requested := rs\<rparr>) = clock s"
  by (simp_all add: budget_def clock_def Let_def)

lemma fetch_refused:
  assumes "\<not> truthy v" "refuses (send e s rq)"
  obtains st x where "fetch e rq host v s = (Inr (st, Inl x), s\<lparr>requested := requested s @ [rq]\<rparr>)" "is_io x"
  using assms by (cases "send e s rq") (auto simp: fetch_def send_request_def py_simps refuses_def)

lemma note_budget:
  assumes "\<not> 0 < tab (http_failed_disabled s) host" "0 < t0" "\<not> isLocalIP host" "0 \<le> tab (http_failed_request s) host"
    "t0 \<le> clock s"
  shows "budget t0 host (note_failure host st s) + 1 \<le> budget t0 host s"
    "0 \<le> tab (http_failed_request (note_failure host st s)) host" "clock (note_failure host st s) = clock s"
    "requested (note_failure host st s) = requested s" "sett (bw (note_failure host st s)) = sett (bw s)"
  using assms by (auto simp: note_failure_def budget_def count_failures_def disable_host_def clock_def Let_def split: if_splits)

lemma urlopen_spends:
  assumes refuses: "\<And>s rq. refuses (send e s rq)" and q: "quiet e" and host: "host_of_url url = Inr host" "\<not> isLocalIP host"
    and t0: "0 < t0" "clock s < t0 + 900" and flare: "\<not> truthy (env_setting s ''flaresolverr_host'')"
  shows "spends t0 host s (snd (urlopen e p url ops s))"
proof -
  from host(1) obtain u where u: "urlparse (quote_url url) = Inr u" "host_key u = Inr host"
    by (auto simp: host_of_url_def rbind_eq_Inr)
  obtain r t where la: "left_alone host s = (r, t)" by (cases "left_alone host s")
  note l = left_alone_budget [OF la t0(2)]
  show ?thesis
  proof (cases "r = Inr False")
    case False
    with u la l(1) show ?thesis
      by (cases r) (auto simp: urlopen_def py_simps Let_def split: if_splits)
  next
    case True
    obtain r1 t1 where w: "wait e p host (quote_url url) t = (r1, t1)" by (cases "wait e p host (quote_url url) t")
    from keepsD [OF idle_wait [OF q], of t p host "quote_url url"] w have id: "idle t t1" by simp
    then have st: "spends t0 host s t1" using l(1) idle_spends sp.frame_trans by blast
    have d: "\<not> 0 < tab (http_failed_disabled t1) host" using l(2) [OF True] id by (simp add: idle_def)
    show ?thesis
    proof (cases "\<exists>x. r1 = Inl x \<or> has_len (or_empty (o_data ops) (PDict [])) = Inl x")
      case True
      with u la \<open>r = Inr False\<close> w st show ?thesis
        by (cases r1) (auto simp: urlopen_def py_simps Let_def)
    next
      case False
      then obtain posts where posts: "has_len (or_empty (o_data ops) (PDict [])) = Inr posts" "r1 = Inr ()"
        by (cases r1; cases "has_len (or_empty (o_data ops) (PDict []))") auto
      let ?fl = "if posts \<or> o_files ops \<or> o_stream ops then PNone else env_setting t1 ''flaresolverr_host''"
      let ?rq = "\<lparr>rq_method = (if posts \<or> o_files ops then ''post'' else ''get''), rq_url = quote_url url,
             rq_headers = request_headers p u host (o_headers ops), rq_data = or_empty (o_data ops) (PDict []),
             rq_timeout = o_timeout ops, rq_stream = o_stream ops, rq_proxies = proxy_url e s\<rparr>"
      show ?thesis
      proof (cases "0 \<le> tab (http_failed_request s) host \<and> t0 \<le> clock s")
        case False
        then show ?thesis by (auto simp: spends_def)
      next
        case True
        with st have pre: "0 \<le> tab (http_failed_request t1) host" "t0 \<le> clock t1" "sett (bw t1) = sett (bw s)"
          by (auto simp: spends_def)
        then have "\<not> truthy ?fl" using flare by (simp add: env_setting_def)
        from fetch_refused [OF this refuses] obtain st x where
          f: "fetch e ?rq host ?fl t1 = (Inr (st, Inl x), t1\<lparr>requested := requested t1 @ [?rq]\<rparr>)" "is_io x" .
        let ?t2 = "t1\<lparr>requested := requested t1 @ [?rq]\<rparr>"
        have run: "urlopen e p url ops s = (Inl x, note_failure host st ?t2)"
          using u la \<open>r = Inr False\<close> w posts f by (simp add: urlopen_def py_simps Let_def del: proxy_url_def)
        have n: "budget t0 host (note_failure host st ?t2) + 1 \<le> budget t0 host ?t2"
          "0 \<le> tab (http_failed_request (note_failure host st ?t2)) host" "clock (note_failure host st ?t2) = clock ?t2"
          "requested (note_failure host st ?t2) = requested ?t2" "sett (bw (note_failure host st ?t2)) = sett (bw ?t2)"
          by (rule note_budget; use d t0(1) host(2) pre in simp)+
        show ?thesis using st n run pre True by (auto simp: spends_def)
      qed
    qed
  qed
qed

text \<open>A sequence of calls, each at its time; exceptions are caught by the callers.\<close>

definition at_time :: "int \<Rightarrow> (web, unit) py" where
  "at_time t = modify (\<lambda>s. s\<lparr>bw := (bw s)\<lparr>now := t\<rparr>\<rparr>)"

definition open_all :: "net \<Rightarrow> plug \<Rightarrow> (int \<times> string \<times> url_options) list \<Rightarrow> (web, unit) py" where
  "open_all e p calls = for_each calls (\<lambda>(t, url, ops). bnd (at_time t) (\<lambda>_.
     catch (bnd (urlopen e p url ops) (\<lambda>_. ret ())) (\<lambda>_. ret ())))"

text \<open>C15: a host outside the local network that refuses every request, with no answer or with an error, is sent at
  most six requests by whatever one thread tries within fifteen minutes, as long as FlareSolverr is not used and no
  other thread opens pages meanwhile: after the sixth failure, or after an answer "too many requests", it is left
  alone.\<close>

theorem failing_host_bound:
  assumes refuses: "\<And>s rq. refuses (send e s rq)" and q: "quiet e" and host: "\<not> isLocalIP host"
    and flare: "\<not> truthy (env_setting s ''flaresolverr_host'')" and n: "0 \<le> tab (http_failed_request s) host"
    and calls: "0 < t0" "t0 \<le> clock s" "\<And>t url ops. (t, url, ops) \<in> set calls \<Longrightarrow> t0 \<le> t \<and> t < t0 + 900 \<and> host_of_url url = Inr host"
  shows "length (requested (snd (open_all e p calls s))) \<le> length (requested s) + 6"
proof -
  have "spends t0 host s (snd (open_all e p calls s))"
    using calls(3) flare n calls(2)
  proof (induction calls arbitrary: s)
    case Nil
    then show ?case by (simp add: open_all_def ret_run sp.frame_refl)
  next
    case (Cons c calls)
    obtain t url ops where c: "c = (t, url, ops)" by (cases c) auto
    with Cons.prems(1) have t: "t0 \<le> t" "t < t0 + 900" "host_of_url url = Inr host" by auto
    let ?s = "s\<lparr>bw := (bw s)\<lparr>now := t\<rparr>\<rparr>"
    have "spends t0 host s ?s" using t by (auto simp: spends_def budget_def clock_def Let_def)
    moreover have "spends t0 host ?s (snd (urlopen e p url ops ?s))"
      using t Cons.prems by (intro urlopen_spends [OF refuses q _ host calls(1)]) (simp_all add: clock_def env_setting_def)
    ultimately have 1: "spends t0 host s (snd (urlopen e p url ops ?s))" (is "spends _ _ _ ?t") by (rule sp.frame_trans)
    with Cons.prems have "\<not> truthy (env_setting ?t ''flaresolverr_host'')" "0 \<le> tab (http_failed_request ?t) host" "t0 \<le> clock ?t"
      by (auto simp: spends_def env_setting_def)
    then have 2: "spends t0 host ?t (snd (open_all e p calls ?t))" using Cons.prems(1) by (intro Cons.IH) auto
    have "open_all e p (c # calls) s = open_all e p calls ?t"
      by (auto simp: open_all_def c at_time_def py_simps split: prod.split sum.split)
    with 1 2 show ?case by (metis sp.frame_trans)
  qed
  with n calls(2) have "int (length (requested (snd (open_all e p calls s)))) + budget t0 host (snd (open_all e p calls s))
      \<le> int (length (requested s)) + budget t0 host s" by (simp add: spends_def)
  moreover have "budget t0 host s \<le> 6" using n by (simp add: budget_def Let_def)
  moreover have "0 \<le> budget t0 host (snd (open_all e p calls s))" by (simp add: budget_def Let_def max_def)
  ultimately show ?thesis by linarith
qed


section \<open>The pause ends\<close>

text \<open>While a call whose turn it is sleeps for whole seconds, the clock goes on by that much, other calls may join the
  queue behind it, and the last call of the host stays the last.\<close>

definition sleeps_well :: "net \<Rightarrow> string \<Rightarrow> bool" where
  "sleeps_well e host \<longleftrightarrow> (\<forall>n s. 0 \<le> n \<longrightarrow> clock s + n \<le> clock (sleep e (of_int n) s) \<and>
     (\<forall>q. map_of (http_last_use_queue s) host = Some q \<longrightarrow>
        (\<exists>r. map_of (http_last_use_queue (sleep e (of_int n) s)) host = Some (q @ r))) \<and>
     tab (http_last_use (sleep e (of_int n) s)) host = tab (http_last_use s) host) \<and>
     (\<forall>d s. stuck (sleep e d s) = stuck s)"

text \<open>How a wait that is over ended: its turn came and the call before is long enough ago, or the program is
  shutting down and the address is still in the queue.\<close>

definition waited :: "plug \<Rightarrow> string \<Rightarrow> string \<Rightarrow> string list \<Rightarrow> web \<Rightarrow> web \<Rightarrow> bool" where
  "waited p host url q s t \<longleftrightarrow> stuck t = stuck s \<and>
     ((\<exists>r. map_of (http_last_use_queue t) host = Some (q @ r)) \<and> tab (http_last_use t) host = clock t \<and>
        tab (http_last_use s) host + http_time_between_calls p \<le> clock t
      \<or> (\<exists>x. on_bw stopping x = (Inr True, t)) \<and> (\<exists>r. map_of (http_last_use_queue t) host = Some r \<and> url \<in> set r))"

text \<open>What one look at the queue that finds another call first leaves, and so many of them.\<close>

definition nap :: "net \<Rightarrow> web \<Rightarrow> web" where
  "nap e s = sleep e (1 / 10) (snd (on_bw stopping s))"

fun naps :: "net \<Rightarrow> nat \<Rightarrow> web \<Rightarrow> web" where
  "naps e 0 s = s"
| "naps e (Suc n) s = naps e n (nap e s)"

definition rounds_left :: "plug \<Rightarrow> string \<Rightarrow> web \<Rightarrow> nat" where
  "rounds_left p host s = nat ((max 0 (tab (http_last_use s) host - clock s + http_time_between_calls p) + 29) div 30)"

lemma rounds_left_sleep:
  assumes "sleeps_well e host" and w: "w = tab (http_last_use s) host - clock s + http_time_between_calls p" "0 < w"
  shows "rounds_left p host (sleep e (of_int (min w 30)) s) < rounds_left p host s"
proof -
  let ?t = "sleep e (of_int (min w 30)) s"
  have "clock s + min w 30 \<le> clock ?t" "tab (http_last_use ?t) host = tab (http_last_use s) host"
    using assms(1) w(2) by (simp_all add: sleeps_well_def min_def)
  then have "tab (http_last_use ?t) host - clock ?t + http_time_between_calls p \<le> w - min w 30" using w(1) by simp
  then have "(max 0 (tab (http_last_use ?t) host - clock ?t + http_time_between_calls p) + 29) div 30
      \<le> (max 0 (w - min w 30) + 29) div 30" by (intro zdiv_mono1) auto
  also have "\<dots> < (max 0 w + 29) div 30" using w(2) by (cases "w \<le> 30") (auto simp: max_def min_def)
  finally show ?thesis using w by (simp add: rounds_left_def)
qed

lemma stopping_frame:
  assumes "on_bw stopping s = (r, s1)"
  shows "\<exists>b. r = Inr b" "http_last_use_queue s1 = http_last_use_queue s" "http_last_use s1 = http_last_use s"
    "clock s1 = clock s" "stuck s1 = stuck s"
  using assms by (auto simp: on_bw_def stopping_def py_simps clock_def)

lemma wait_turns_end:
  assumes "sleeps_well e host"
  shows "map_of (http_last_use_queue s) host = Some (url # q) \<Longrightarrow> rounds_left p host s < n \<Longrightarrow>
    \<exists>t. wait_turns n e p host url s = (Inr True, t) \<and> waited p host url q s t"
proof (induction n arbitrary: s q)
  case 0
  then show ?case by simp
next
  case (Suc n)
  obtain stop s1 where run: "on_bw stopping s = (Inr stop, s1)"
    using stopping_frame(1) [OF prod.collapse [symmetric], of s] by (metis prod.collapse)
  note s1 = stopping_frame(2-5) [OF run]
  let ?w = "tab (http_last_use s1) host - clock s1 + http_time_between_calls p"
  consider stop | "\<not> stop" "?w \<le> 0" | "\<not> stop" "0 < ?w" by linarith
  then show ?case
  proof cases
    case 1
    then have "wait_turns (Suc n) e p host url s = (Inr True, s1)" using run by (simp add: py_simps del: on_bw_run)
    moreover have "waited p host url q s s1" unfolding waited_def using run s1 1 Suc.prems(1) by auto
    ultimately show ?thesis by blast
  next
    case 2
    let ?t = "s1\<lparr>http_last_use_queue := AList.update host q (http_last_use_queue s1),
        http_last_use := AList.update host (clock s1) (http_last_use s1)\<rparr>"
    have "wait_turn e p host url s1 = (Inr True, ?t)"
      using 2 Suc.prems(1) s1(1) by (simp add: wait_turn_def py_simps head_of_queue_def clock_def)
    then have "wait_turns (Suc n) e p host url s = (Inr True, ?t)" using run 2 by (simp add: py_simps del: on_bw_run)
    moreover have "waited p host url q s ?t" unfolding waited_def using s1 2
      by (intro conjI disjI1) (auto simp: update_conv' clock_def tab_def)
    ultimately show ?thesis by blast
  next
    case 3
    let ?t = "sleep e (of_int (min ?w 30)) s1"
    have less: "rounds_left p host ?t < rounds_left p host s1" by (rule rounds_left_sleep [OF assms refl 3(2)])
    have same: "rounds_left p host s1 = rounds_left p host s" using s1 by (simp add: rounds_left_def)
    have m: "0 \<le> min ?w 30" using 3(2) by simp
    have "map_of (http_last_use_queue s1) host = Some (url # q)" using Suc.prems(1) s1(1) by simp
    with m assms obtain r where k: "map_of (http_last_use_queue ?t) host = Some ((url # q) @ r)"
      unfolding sleeps_well_def by blast
    have k2: "tab (http_last_use ?t) host = tab (http_last_use s1) host" "stuck ?t = stuck s1"
      using m assms unfolding sleeps_well_def by blast+
    obtain u where u: "wait_turns n e p host url ?t = (Inr True, u)" "waited p host url (q @ r) ?t u"
      using Suc.IH [of ?t "q @ r"] k less same Suc.prems(2) by auto
    have "wait_turn e p host url s1 = (Inr False, ?t)"
      using 3(2) Suc.prems(1) s1(1) by (simp add: wait_turn_def py_simps head_of_queue_def pause_def)
    with u run 3 have "wait_turns (Suc n) e p host url s = (Inr True, u)" by (simp add: py_simps del: on_bw_run)
    moreover have "waited p host url q s u" using u(2) k2 s1 unfolding waited_def by auto
    ultimately show ?thesis by blast
  qed
qed

text \<open>While another call is first, a round is a nap.\<close>

lemma wait_turns_naps:
  assumes "sleeps_well e host"
  shows "(\<And>j. j < k \<Longrightarrow> \<exists>u r. map_of (http_last_use_queue (naps e j s)) host = Some (u # r) \<and> u \<noteq> url \<and> url \<in> set r) \<Longrightarrow>
    map_of (http_last_use_queue (naps e k s)) host = Some (url # q) \<Longrightarrow> rounds_left p host (naps e k s) < n \<Longrightarrow>
    \<exists>t. wait_turns (k + n) e p host url s = (Inr True, t) \<and> waited p host url q (naps e k s) t"
proof (induction k arbitrary: s)
  case 0
  with wait_turns_end [OF assms] show ?case by simp
next
  case (Suc k)
  obtain stop s1 where run: "on_bw stopping s = (Inr stop, s1)"
    using stopping_frame(1) [OF prod.collapse [symmetric], of s] by (metis prod.collapse)
  note s1 = stopping_frame(2-5) [OF run]
  have st: "stuck (naps e j x) = stuck x" for j x
    using assms stopping_frame(5) [OF prod.collapse [symmetric]]
    by (induction j arbitrary: x) (simp_all add: nap_def sleeps_well_def)
  from Suc.prems(1) [of 0] obtain u r where hd: "map_of (http_last_use_queue s) host = Some (u # r)" "u \<noteq> url" "url \<in> set r"
    by auto
  show ?case
  proof (cases stop)
    case True
    then have "wait_turns (Suc k + n) e p host url s = (Inr True, s1)" using run by (simp add: py_simps del: on_bw_run)
    moreover have "waited p host url q (naps e (Suc k) s) s1" unfolding waited_def st
      using run s1 hd True by auto
    ultimately show ?thesis by blast
  next
    case False
    have "wait_turn e p host url s1 = (Inr False, nap e s)"
      using hd s1(1) run by (simp add: wait_turn_def py_simps head_of_queue_def pause_def nap_def del: on_bw_run)
    with run False have "wait_turns (Suc k + n) e p host url s = wait_turns (k + n) e p host url (nap e s)"
      by (simp add: py_simps del: on_bw_run)
    moreover have "\<exists>t. wait_turns (k + n) e p host url (nap e s) = (Inr True, t) \<and> waited p host url q (naps e k (nap e s)) t"
    proof (rule Suc.IH)
      show "\<exists>u r. map_of (http_last_use_queue (naps e j (nap e s))) host = Some (u # r) \<and> u \<noteq> url \<and> url \<in> set r" if "j < k" for j
        using Suc.prems(1) [of "Suc j"] that by simp
    qed (use Suc.prems(2,3) in simp_all)
    ultimately show ?thesis by simp
  qed
qed


text \<open>Storing other pages keeps a page, as long as there are not more than 500 files.\<close>

definition store_others :: "net \<Rightarrow> (int \<times> string \<times> page \<times> int) list \<Rightarrow> (web, unit) py" where
  "store_others e others = for_each others (\<lambda>(t, k, v, n). bnd (at_time t) (\<lambda>_. bnd (setCache e k v n) (\<lambda>_. ret ())))"

lemma store_others_keep:
  "length (pages s) + length others \<le> 500 \<Longrightarrow>
   (\<And>t k v n. (t, k, v, n) \<in> set others \<Longrightarrow> page_md5 e (page_md5 e k) \<noteq> key) \<Longrightarrow>
   map_of (pages (snd (store_others e others s))) key = map_of (pages s) key"
proof (induction others arbitrary: s)
  case Nil
  then show ?case by (simp add: store_others_def py_simps)
next
  case (Cons x others)
  obtain t k v n where x: "x = (t, k, v, n)" by (cases x)
  let ?k = "page_md5 e (page_md5 e k)"
  let ?s = "s\<lparr>bw := (bw s)\<lparr>now := t\<rparr>, pages := AList.update ?k (t + n, v) (pages s)\<rparr>"
  have "prune t (pages s) = pages s" using Cons.prems(1) by (simp add: prune_def)
  then have run: "store_others e (x # others) s = store_others e others ?s"
    by (simp add: x store_others_def py_simps at_time_def setCache_def cache_set_def Let_def clock_def)
  have len: "length (AList.update a b xs) \<le> Suc (length xs)" for a and b :: "int \<times> page" and xs by (induction xs) auto
  have "map_of (pages (snd (store_others e others ?s))) key = map_of (pages ?s) key"
    by (rule Cons.IH) (use Cons.prems len [of ?k "(t + n, v)" "pages s"] in auto)
  with Cons.prems(2) [of t k v n] run show ?case by (simp add: x update_conv')
qed

text \<open>C39: a page that was fetched and kept is given again without a request for as long as its time-out says,
  whatever other pages are stored meanwhile, as long as they are not so many that files of the cache are thinned out
  (more than 500).\<close>

theorem getCache_remembers:
  assumes first: "getCache e p key url ops timeout s = (Inr (Some v), t)" "map_of (pages s) (page_md5 e (page_md5 e key)) = None"
    and kept: "\<not> truthy (o_data ops)" "\<not> o_files ops" "page_truthy v" "0 < timeout"
    and others: "pages u = pages (snd (store_others e others t))" "length (pages t) + length others \<le> 500"
      "\<And>x k v n. (x, k, v, n) \<in> set others \<Longrightarrow> page_md5 e (page_md5 e k) \<noteq> page_md5 e (page_md5 e key)"
    and later: "clock u \<le> clock t + timeout"
    and again: "\<not> truthy (o_data ops')" "\<not> o_files ops'"
  shows "getCache e p' key url' ops' timeout' u = (Inr (Some v), u)"
proof -
  have "ask_page e p key url ops timeout True s = (Inr (Some v), t)"
    using first kept by (simp add: getCache_def cache_get_def py_simps Let_def)
  then have "map_of (pages t) (page_md5 e (page_md5 e key)) = Some (clock t + timeout, v)"
    using kept
    by (auto simp: ask_page_def py_simps setCache_def cache_set_def Let_def update_conv' clock_def split: if_splits prod.splits sum.splits)
  with store_others_keep [OF others(2,3)] others(1)
  have "map_of (pages u) (page_md5 e (page_md5 e key)) = Some (clock t + timeout, v)" by simp
  then show ?thesis using later again kept(3) by (simp add: getCache_def cache_get_def py_simps Let_def)
qed

section \<open>Examples\<close>

text \<open>A client that never gets an answer, and one that always gets a page.\<close>

definition demo_net :: net where
  "demo_net = \<lparr>patience = 3, send = (\<lambda>_ _. Failed OSError), flare_reply = (\<lambda>_ _. Inl OSError),
     sleep = (\<lambda>d s. s\<lparr>bw := (bw s)\<lparr>now := now (bw s) + max 0 \<lceil>d\<rceil>\<rparr>\<rparr>), unescape = (\<lambda>t. t), page_md5 = (\<lambda>t. t),
     getproxies = [], dev = False\<rparr>"

definition page_net :: net where
  "page_net = demo_net\<lparr>send := (\<lambda>_ _. Answer \<lparr>status_code = 200, headers = [], content = ''page'', text_body = ''page''\<rparr>)\<rparr>"

definition demo_web :: web where
  "demo_web = \<lparr>bw = demo_world, http_last_use = [], http_last_use_queue = [], http_failed_request = [],
     http_failed_disabled = [], cloudflare_hosts = [], pages = [], requested = [], stuck = False\<rparr>"

definition demo_plug :: plug where
  "demo_plug = \<lparr>p_name = ''newznab'', p_user_agent = ''agent'', http_time_between_calls = 10\<rparr>"

lemma demo_net_quiet: "quiet demo_net" "sleeps_well demo_net host"
  by (simp_all add: quiet_def sleeps_well_def demo_net_def clock_def)


definition demo_calls :: "(int \<times> string \<times> url_options) list" where
  "demo_calls = map (\<lambda>i. (1000 + int i, ''https://example.com/search?q='', plain_get)) [0..<8]"

lemma demo_host: "host_of_url ''https://example.com/search?q='' = Inr ''example.com''" "\<not> isLocalIP ''example.com''"
  by code_simp+

lemma no_flare: "\<not> truthy (get_setting demo_settings ''flaresolverr_host'' ''core'' (PStr []) PNone)"
  by code_simp

theorem failing_host_bound_witness:
  "length (requested (snd (open_all demo_net demo_plug demo_calls (demo_web\<lparr>bw := demo_world\<lparr>now := 1000\<rparr>\<rparr>)))) \<le> 0 + 6"
proof -
  let ?s = "demo_web\<lparr>bw := demo_world\<lparr>now := 1000\<rparr>\<rparr>"
  have "length (requested (snd (open_all demo_net demo_plug demo_calls ?s))) \<le> length (requested ?s) + 6"
  proof (rule failing_host_bound [OF _ demo_net_quiet(1) demo_host(2), of _ 1000])
    show "refuses (send demo_net s rq)" for s rq by (simp add: refuses_def demo_net_def)
    show "\<not> truthy (env_setting ?s ''flaresolverr_host'')" using no_flare by (simp add: env_setting_def demo_world_def)
    show "1000 \<le> t \<and> t < 1000 + 900 \<and> host_of_url url = Inr ''example.com''" if "(t, url, ops) \<in> set demo_calls" for t url ops
      using that demo_host(1) by (auto simp: demo_calls_def)
  qed (simp_all add: demo_web_def tab_def clock_def)
  then show ?thesis by (simp add: demo_web_def)
qed

text \<open>Another call is first in the queue and leaves during the first nap.\<close>

definition busy_net :: net where
  "busy_net = demo_net\<lparr>sleep := (\<lambda>d s. let s' = sleep demo_net d s
     in if d = 1 / 10 then s'\<lparr>http_last_use_queue := map (\<lambda>(h, q). (h, tl q)) (http_last_use_queue s')\<rparr> else s')\<rparr>"

definition busy_web :: web where
  "busy_web = demo_web\<lparr>http_last_use_queue := [(''example.com'', [''https://example.com/other''])]\<rparr>"

lemma busy_sleeps: "sleeps_well busy_net host"
proof -
  have "of_int n \<noteq> (1 / 10 :: rat)" for n :: int
  proof
    assume "of_int n = (1 / 10 :: rat)"
    then have "of_int (10 * n) = (of_int 1 :: rat)" by simp
    then have "10 * n = 1" by (simp only: of_int_eq_iff)
    then show False by presburger
  qed
  then show ?thesis by (simp add: sleeps_well_def busy_net_def demo_net_def clock_def Let_def)
qed


text \<open>A page is fetched and asked for again four minutes later.\<close>

definition fetch_plug :: plug where
  "fetch_plug = demo_plug\<lparr>http_time_between_calls := 0\<rparr>"

definition fetched_web :: web where
  "fetched_web = snd (getCache page_net fetch_plug ''film'' ''https://example.com/'' plain_get 300 demo_web)"

lemma demo_url:
  "urlparse (quote_url ''https://example.com/'') = Inr \<lparr>u_scheme = ''https'', u_host = Some ''example.com'', u_port = []\<rparr>"
  "host_key \<lparr>u_scheme = ''https'', u_host = Some ''example.com'', u_port = []\<rparr> = Inr ''example.com''"
  by code_simp+

lemma fetched_page:
  "fst (getCache page_net fetch_plug ''film'' ''https://example.com/'' plain_get 300 demo_web) = Inr (Some (Bytes ''page'')) \<and>
   clock (snd (getCache page_net fetch_plug ''film'' ''https://example.com/'' plain_get 300 demo_web)) = 0"
  using no_flare demo_url
  by (simp add: getCache_def cache_get_def ask_page_def urlopen_def py_simps plain_get_def Let_def or_empty_def left_alone_def
      wait_def has_len_def fetch_def send_request_def demo_web_def fetch_plug_def demo_plug_def page_net_def demo_net_def
      env_setting_def demo_world_def setCache_def cache_set_def clock_def tab_def count_failures_def)

theorem getCache_remembers_witness:
  "\<exists>u. pages u = pages (snd (store_others page_net [(100, ''other'', Bytes ''x'', 300)] fetched_web)) \<and> clock u = 240 \<and>
    getCache page_net demo_plug ''film'' ''https://example.com/'' plain_get 300 u = (Inr (Some (Bytes ''page'')), u)"
proof -
  let ?u = "(snd (store_others page_net [(100, ''other'', Bytes ''x'', 300)] fetched_web))\<lparr>bw := (bw fetched_web)\<lparr>now := 240\<rparr>\<rparr>"
  have f: "getCache page_net fetch_plug ''film'' ''https://example.com/'' plain_get 300 demo_web
      = (Inr (Some (Bytes ''page'')), fetched_web)"
    using fetched_page by (simp add: prod_eq_iff fetched_web_def)
  have len: "length (pages fetched_web) = 1"
    using no_flare demo_url
    by (simp add: fetched_web_def getCache_def cache_get_def ask_page_def urlopen_def py_simps plain_get_def Let_def or_empty_def left_alone_def
      wait_def has_len_def fetch_def send_request_def demo_web_def fetch_plug_def demo_plug_def page_net_def demo_net_def
      env_setting_def demo_world_def setCache_def cache_set_def clock_def tab_def count_failures_def prune_def)
  have "getCache page_net demo_plug ''film'' ''https://example.com/'' plain_get 300 ?u = (Inr (Some (Bytes ''page'')), ?u)"
  proof (rule getCache_remembers [OF f, where others = "[(100, ''other'', Bytes ''x'', 300)]"])
    show "clock ?u \<le> clock fetched_web + 300"
      using fetched_page by (simp add: fetched_web_def clock_def)
  qed (use len in \<open>simp_all add: plain_get_def demo_web_def page_net_def demo_net_def\<close>)
  then show ?thesis by (intro exI [of _ ?u]) (simp add: clock_def)
qed

end
