(* ===== verification/Library.thy ===== *)
theory Library
  imports Media
begin

text \<open>
  couchpotato/core/media/_base/library/main.py and couchpotato/core/media/movie/library.py: the root of a
  media, its ancestors and children, the tree below it, and the titles a search asks for. \<open>root\<close> and
  \<open>related\<close> follow \<open>parent_id\<close> without a bound: they are partial functions, and \<open>None\<close> is a loop that does
  not end. \<open>tree\<close> calls itself through an event; its first argument is how many of these calls fit on the
  stack of the interpreter.
\<close>

definition library_key :: "pv \<Rightarrow> string res" where
  "library_key media_type = (case media_type of PStr t \<Rightarrow> Inr (last (split_on ''.'' t)) | _ \<Rightarrow> Inl AttributeError)"

definition doc_key :: "doc \<Rightarrow> string res" where
  "doc_key d = rbind (dsub d ''type'') library_key"

text \<open>\<open>cur and cur.get('parent_id')\<close>, and \<open>db.get('id', cur['parent_id'])\<close>.\<close>

definition has_parent :: "doc \<Rightarrow> bool" where
  "has_parent cur \<longleftrightarrow> cur \<noteq> [] \<and> truthy (dget cur ''parent_id'')"

definition get_parent :: "database \<Rightarrow> doc \<Rightarrow> doc res" where
  "get_parent db cur = rbind (as_str (dget cur ''parent_id'')) (\<lambda>i. fst (db_get i db))"

partial_function (option) library_root :: "database \<Rightarrow> doc \<Rightarrow> doc res option" where
  "library_root db cur =
     (if \<not> has_parent cur then Some (Inr cur)
      else case get_parent db cur of
        Inl e \<Rightarrow> Some (Inl e)
      | Inr d \<Rightarrow> library_root db d)"

partial_function (option) related_up :: "database \<Rightarrow> doc \<Rightarrow> doc \<Rightarrow> doc res option" where
  "related_up db cur result =
     (if \<not> has_parent cur then Some (Inr result)
      else case get_parent db cur of
        Inl e \<Rightarrow> Some (Inl e)
      | Inr d \<Rightarrow> (case doc_key d of
          Inl e \<Rightarrow> Some (Inl e)
        | Inr k \<Rightarrow> related_up db d (dput result k (PDict d))))"

text \<open>\<open>result[key].append(item['doc'])\<close>: what is at the key need not be a list.\<close>

fun add_related :: "hit list \<Rightarrow> doc \<Rightarrow> doc res" where
  "add_related [] result = Inr result"
| "add_related (h # hs) result =
     rbind (doc_key (hit_doc h)) (\<lambda>k0. let key = k0 @ ''s'' in
       case dgetd result key (PList []) of
         PList xs \<Rightarrow> add_related hs (dput result key (PList (xs @ [PDict (hit_doc h)])))
       | _ \<Rightarrow> Inl AttributeError)"

definition children :: "database \<Rightarrow> pv \<Rightarrow> hit list res" where
  "children db i = fst (db_get_many ''media_children'' i db)"

definition related :: "database \<Rightarrow> doc \<Rightarrow> doc res option" where
  "related db media = (case doc_key media of
     Inl e \<Rightarrow> Some (Inl e)
   | Inr k \<Rightarrow> (case related_up db media [(k, PDict media)] of
        None \<Rightarrow> None
      | Some r \<Rightarrow> Some (rbind r (\<lambda>result. rbind (dsub media ''_id'') (\<lambda>i. rbind (children db i) (\<lambda>hs. add_related hs result))))))"

section \<open>The tree\<close>

text \<open>One child: its list starts as an empty dict, which a value of another kind makes room for.\<close>

definition put_child :: "string \<Rightarrow> string \<Rightarrow> pv \<Rightarrow> doc \<Rightarrow> doc" where
  "put_child key i subtree result =
     dput result key (PDict (dput (case dget result key of PDict d \<Rightarrow> d | _ \<Rightarrow> []) i subtree))"

definition unique_children :: "string list \<Rightarrow> doc \<Rightarrow> doc" where
  "unique_children keys result = foldl (\<lambda>r key. dput r key (case dget r key of
     PDict d \<Rightarrow> PList (map snd d) | v \<Rightarrow> v)) result keys"

fun tree :: "nat \<Rightarrow> doc \<Rightarrow> (world, pv) py" where
  "tree 0 media = raise RuntimeError"
| "tree (Suc n) media =
     bnd (liftr (dsub media ''_id'')) (\<lambda>i.
     bnd (on_db (db_get_many ''media_children'' i)) (\<lambda>hs.
     bnd (for_acc hs (media, []) (\<lambda>h (result, keys).
       bnd (liftr (doc_key (hit_doc h))) (\<lambda>k0. let key = k0 @ ''s'' in
       bnd (liftr (as_str (hit_id h))) (\<lambda>j.
       bnd (call_handler (tree n (hit_doc h))) (\<lambda>subtree.
       ret (Go (put_child key j subtree result, if key \<in> set keys then keys else keys @ [key])))))))
     (\<lambda>(result, keys).
     bnd (liftr (as_str i)) (\<lambda>mid.
     bnd (forMedia_event mid) (\<lambda>rels.
     ret (PDict (dput (unique_children keys result) ''releases'' rels)))))))"

text \<open>\<open>tree(media = None, media_id = None)\<close>.\<close>

definition library_tree :: "nat \<Rightarrow> doc \<Rightarrow> string \<Rightarrow> (world, pv) py" where
  "library_tree n media media_id =
     (if media \<noteq> [] then tree n media
      else if media_id \<noteq> [] then bnd (on_db (db_get media_id)) (tree n)
      else ret PNone)"

section \<open>The titles of a movie\<close>

text \<open>\<open>MovieLibraryPlugin.query\<close>: the answer, and the media as it is left; \<open>titles.insert(0, ...)\<close> changes the
  list of the media itself.\<close>

definition with_year :: "pv \<Rightarrow> pv \<Rightarrow> pv res" where
  "with_year info title = (case title of
     PStr t \<Rightarrow> rbind (vsub info ''year'') (\<lambda>y. Inr (PStr (t @ '' '' @ fmt y)))
   | _ \<Rightarrow> rbind (vsub info ''year'') (\<lambda>_. Inl TypeError))"

definition library_query :: "doc \<Rightarrow> bool \<Rightarrow> bool \<Rightarrow> (pv \<times> doc) res" where
  "library_query media fst_only include_year =
     (if dget media ''type'' \<noteq> PStr ''movie'' then Inr (PNone, media) else
      let default_title = getTitle (PDict media) in
      rbind (dsub media ''info'') (\<lambda>info.
      rbind (vgetd info ''titles'' (PList [])) (\<lambda>ts.
      case ts of
        PList titles0 \<Rightarrow>
          (let titles = default_title # titles0;
               media' = (case info of PDict d \<Rightarrow> if dhas d ''titles''
                 then dput media ''info'' (PDict (dput d ''titles'' (PList titles))) else media | _ \<Rightarrow> media)
           in rbind (if include_year then mapr (with_year info) titles else Inr titles) (\<lambda>shown.
              Inr (if fst_only then hd shown else PList shown, media')))
      | _ \<Rightarrow> Inl AttributeError)))"

definition library_title :: "doc \<Rightarrow> pv" where
  "library_title media = (case library_query media True False of Inr (v, _) \<Rightarrow> v | Inl _ \<Rightarrow> PNone)"

text \<open>\<open>queryView\<close> and \<open>treeView\<close> read the media and answer the event.\<close>

definition queryView :: "string \<Rightarrow> (world, pv) py" where
  "queryView media_id = bnd (on_db (db_get media_id)) (\<lambda>media.
     ret (PDict [(''result'', case library_query media True True of Inr (v, _) \<Rightarrow> v | Inl _ \<Rightarrow> PNone)]))"

definition treeView :: "nat \<Rightarrow> string \<Rightarrow> (world, pv) py" where
  "treeView n media_id = bnd (on_db (db_get media_id)) (\<lambda>media.
     bnd (call_handler (tree n media)) (\<lambda>t. ret (PDict [(''result'', t)])))"


section \<open>When the root is found\<close>

definition parent_of :: "database \<Rightarrow> doc \<Rightarrow> doc option" where
  "parent_of db d = (if has_parent d then (case get_parent db d of Inr d' \<Rightarrow> Some d' | Inl _ \<Rightarrow> None) else None)"

fun ancestor :: "database \<Rightarrow> nat \<Rightarrow> doc \<Rightarrow> doc option" where
  "ancestor db 0 d = Some d"
| "ancestor db (Suc n) d = Option.bind (parent_of db d) (ancestor db n)"

lemma ancestor_add: "ancestor db (m + n) d = Option.bind (ancestor db m d) (ancestor db n)"
  by (induction m arbitrary: d) (auto simp: bind_assoc split: Option.bind_split)

lemma ancestor_last: "ancestor db (Suc n) d = Option.bind (ancestor db n d) (parent_of db)"
  using ancestor_add [of db n 1 d] by (cases "ancestor db n d") (auto split: Option.bind_split)

lemma parent_of_live:
  assumes "parent_of db d = Some d'" shows "d' \<in> set (live_docs db)"
proof -
  from assms obtain i where i: "fst (db_get i db) = Inr d'"
    by (cases "get_parent db d") (auto simp: parent_of_def get_parent_def rbind_eq_Inr split: if_splits)
  then obtain r b where l: "lookup db i = Some (Live r b)" "d' = with_meta i r b"
    by (cases "lookup db i"; cases "the (lookup db i)") (auto simp: db_get_def)
  then have "(i, Live r b) \<in> set (docs db)" by (simp add: lookup_def map_of_SomeD)
  with l(2) show ?thesis by (force simp: live_docs_def)
qed

lemma root_ends: "ancestor db n d = None \<Longrightarrow> library_root db d \<noteq> None"
proof (induction n arbitrary: d)
  case (Suc n)
  then show ?case
    by (subst library_root.simps) (auto simp: parent_of_def split: sum.split if_splits)
qed simp

lemma root_result: "library_root db d = Some r \<Longrightarrow>
    \<exists>n e. ancestor db n d = Some e \<and> parent_of db e = None \<and> (\<forall>x. r = Inr x \<longleftrightarrow> x = e \<and> \<not> has_parent e)"
proof (induction rule: library_root.raw_induct [rotated, consumes 1, case_names step])
  case (step rt db cur r)
  show ?case
  proof (cases "parent_of db cur")
    case None
    with step(2) have "\<forall>x. r = Inr x \<longleftrightarrow> x = cur \<and> \<not> has_parent cur"
      by (auto simp: parent_of_def split: sum.splits if_splits)
    with None show ?thesis by (intro exI [of _ 0] exI [of _ cur]) simp
  next
    case (Some d)
    then have "rt db d = Some r" using step(2) by (auto simp: parent_of_def split: sum.splits if_splits)
    from step(1) [OF this] obtain n e where "ancestor db n d = Some e" "parent_of db e = None"
      "\<forall>x. r = Inr x \<longleftrightarrow> x = e \<and> \<not> has_parent e" by blast
    with Some show ?thesis by (intro exI [of _ "Suc n"] exI [of _ e]) simp
  qed
qed

lemma no_ancestor_after_loop:
  assumes "ancestor db m d = Some e" "ancestor db n e = Some e" "0 < n"
  shows "ancestor db k d \<noteq> None"
proof -
  have "ancestor db (j * n) e = Some e" for j using assms(2) by (induction j) (simp_all add: ancestor_add)
  then have "ancestor db (m + k * n) d = Some e" using assms(1) by (simp add: ancestor_add)
  moreover have "k \<le> m + k * n" using assms(3) by (simp add: trans_le_add2)
  then obtain j where "m + k * n = k + j" using le_Suc_ex by blast
  ultimately have "Option.bind (ancestor db k d) (ancestor db j) = Some e" by (simp add: ancestor_add)
  then show ?thesis by (cases "ancestor db k d") simp_all
qed

lemma endless_loop:
  assumes "\<And>n. ancestor db n d \<noteq> None"
  shows "\<exists>m n e. 0 < n \<and> ancestor db m d = Some e \<and> ancestor db n e = Some e"
proof -
  let ?f = "\<lambda>n. the (ancestor db (n + 1) d)"
  have "?f n \<in> set (live_docs db)" for n
  proof -
    obtain e where e: "ancestor db (Suc n) d = Some e" using assms by blast
    then have "e \<in> set (live_docs db)" unfolding ancestor_last by (auto simp: bind_eq_Some_conv dest!: parent_of_live)
    with e show ?thesis by simp
  qed
  then have "finite (range ?f)" by (intro finite_subset [OF _ finite_set [of "live_docs db"]]) auto
  then have "\<not> inj ?f" using finite_imageD infinite_UNIV_nat by blast
  then obtain i j where ij: "i < j" "?f i = ?f j" unfolding inj_def by (metis nat_neq_iff)
  from assms obtain e e' where e: "ancestor db (Suc i) d = Some e" "ancestor db (Suc j) d = Some e'" by blast
  with ij have "e' = e" by simp
  have "Suc j = Suc i + (j - i)" using ij(1) by simp
  then have "ancestor db (Suc j) d = ancestor db (j - i) e" using e(1) ancestor_add [of db "Suc i" "j - i" d] by (metis Option.bind.bind_lunit)
  with e \<open>e' = e\<close> have "ancestor db (j - i) e = Some e" by simp
  with e(1) ij(1) show ?thesis by (intro exI [of _ "Suc i"] exI [of _ "j - i"] exI [of _ e]) simp
qed

text \<open>C23: following the parents of a media never ends exactly when one of its ancestors is its own ancestor;
  and the root that is found is the first ancestor without a parent.\<close>

theorem root_returns:
  "(library_root db media = None) = (\<exists>m n e. 0 < n \<and> ancestor db m media = Some e \<and> ancestor db n e = Some e) \<and>
   (library_root db media = Some (Inr r)) = (\<exists>n. ancestor db n media = Some r \<and> \<not> has_parent r)"
proof
  show "(library_root db media = None) = (\<exists>m n e. 0 < n \<and> ancestor db m media = Some e \<and> ancestor db n e = Some e)"
  proof
    assume "library_root db media = None"
    then show "\<exists>m n e. 0 < n \<and> ancestor db m media = Some e \<and> ancestor db n e = Some e"
      by (intro endless_loop) (use root_ends in blast)
  next
    assume "\<exists>m n e. 0 < n \<and> ancestor db m media = Some e \<and> ancestor db n e = Some e"
    then obtain m n e where "0 < n" "ancestor db m media = Some e" "ancestor db n e = Some e" by blast
    then have all: "ancestor db k media \<noteq> None" for k using no_ancestor_after_loop by metis
    show "library_root db media = None"
    proof (rule ccontr)
      assume "library_root db media \<noteq> None"
      then obtain n e where "ancestor db n media = Some e" "parent_of db e = None" by (auto dest!: root_result)
      then have "ancestor db (Suc n) media = None" by (simp add: ancestor_last del: ancestor.simps)
      with all show False by blast
    qed
  qed
  show "(library_root db media = Some (Inr r)) = (\<exists>n. ancestor db n media = Some r \<and> \<not> has_parent r)"
  proof
    assume "library_root db media = Some (Inr r)"
    from root_result [OF this] obtain n e where "ancestor db n media = Some e" "Inr r = (Inr r :: doc res) \<longleftrightarrow> r = e \<and> \<not> has_parent e"
      by blast
    then show "\<exists>n. ancestor db n media = Some r \<and> \<not> has_parent r" by blast
  next
    assume "\<exists>n. ancestor db n media = Some r \<and> \<not> has_parent r"
    then obtain n where "ancestor db n media = Some r" "\<not> has_parent r" by blast
    then show "library_root db media = Some (Inr r)"
    proof (induction n arbitrary: media)
      case 0
      then show ?case by (subst library_root.simps) simp
    next
      case (Suc n)
      then obtain d where "parent_of db media = Some d" "ancestor db n d = Some r" by (auto simp: bind_eq_Some_conv)
      with Suc show ?case by (subst library_root.simps) (auto simp: parent_of_def split: if_splits sum.splits)
    qed
  qed
qed

end
