(* ===== verification/Provider.thy ===== *)
theory Provider
  imports Web Library MovieSearcher
begin

text \<open>
  couchpotato/core/media/_base/providers/base.py, the classes every provider of releases extends:
  \<open>Provider\<close> (pages as JSON and text), \<open>YarrProvider\<close> (login, search, download, belongsTo, sizes and
  categories) and \<open>ResultList\<close>, which keeps the results that pass the searcher. What a site's own class
  overrides is the record \<open>yarr\<close>; the state of a provider object is \<open>prov\<close>.
\<close>

section \<open>The state and the class\<close>

record prov =
  pw :: web
  last_login_check :: "int option"
  login_failures :: int
  proxy_domain :: string

record yarr =
  y_plug :: plug
  y_protocol :: pv
  y_type :: pv
  y_urls :: "(string \<times> string) list"
  y_download :: pv
  enabled_option :: string
  login_params :: pv
  login_success :: "page \<Rightarrow> bool res"
  login_check_success :: "page \<Rightarrow> bool res"
  login_fail_msg :: "string option"
  size_gb :: "string list"
  size_mb :: "string list"
  size_kb :: "string list"
  cat_ids :: "(pv list \<times> string list) list"
  cat_backup_id :: pv
  proxy_list :: "string list"
  correct_proxy :: "page option \<Rightarrow> bool res"

definition on_pw :: "(web, 'a) py \<Rightarrow> (prov, 'a) py" where
  "on_pw m = (\<lambda>s. case m (pw s) of (r, w) \<Rightarrow> (r, s\<lparr>pw := w\<rparr>))"

definition on_pworld :: "(world, 'a) py \<Rightarrow> (prov, 'a) py" where
  "on_pworld m = on_pw (on_bw m)"

lemma on_pw_run [py_simps]: "on_pw m s = (case m (pw s) of (r, w) \<Rightarrow> (r, s\<lparr>pw := w\<rparr>))"
  by (simp add: on_pw_def)

text \<open>\<open>self.conf\<close>: the section is the part of the name before a colon, in lower case.\<close>

definition conf_section :: "plug \<Rightarrow> string" where
  "conf_section p = lower (upto_char (CHR '':'') (lower (p_name p)))"

definition conf_of :: "plug \<Rightarrow> string \<Rightarrow> pv \<Rightarrow> prov \<Rightarrow> pv" where
  "conf_of p attr dflt s = get_setting (sett (bw (pw s))) attr (conf_section p) dflt PNone"

definition on_sett :: "(settings, 'a) py \<Rightarrow> (world, 'a) py" where
  "on_sett m = (\<lambda>w. case m (sett w) of (r, t) \<Rightarrow> (r, w\<lparr>sett := t\<rparr>))"

lemma on_sett_run [py_simps]: "on_sett m w = (case m (sett w) of (r, t) \<Rightarrow> (r, w\<lparr>sett := t\<rparr>))"
  by (simp add: on_sett_def)

definition conf_set :: "plug \<Rightarrow> string \<Rightarrow> pv \<Rightarrow> (prov, unit) py" where
  "conf_set p attr v = on_pworld (on_sett (bnd (addSection (conf_section p)) (\<lambda>_.
     bnd (set_setting (conf_section p) attr v) (\<lambda>_. save))))"

definition isEnabled :: "yarr \<Rightarrow> prov \<Rightarrow> bool" where
  "isEnabled y s = (let v = conf_of (y_plug y) (enabled_option y) PNone s in truthy v \<or> v = PNone)"

section \<open>Pages\<close>

definition getHTMLData :: "net \<Rightarrow> yarr \<Rightarrow> string \<Rightarrow> url_options \<Rightarrow> int \<Rightarrow> (prov, page option) py" where
  "getHTMLData e y url opts timeout = on_pw (getCache e (y_plug y) (page_md5 e url) url opts timeout)"

text \<open>\<open>json.loads\<close> is an argument, of the text or bytes without white space around them; what a page is that
  is no text raises, and everything raised is an empty list.\<close>

fun page_text :: "page \<Rightarrow> string res" where
  "page_text (Text t) = Inr t"
| "page_text (Bytes t) = Inr t"
| "page_text _ = Inl AttributeError"

definition getJsonData :: "net \<Rightarrow> (string \<Rightarrow> pv res) \<Rightarrow> yarr \<Rightarrow> string \<Rightarrow> url_options \<Rightarrow> int \<Rightarrow> (prov, pv) py" where
  "getJsonData e loads y url opts timeout =
     bnd (getHTMLData e y url opts timeout) (\<lambda>data. case data of
       None \<Rightarrow> ret (PList [])
     | Some p \<Rightarrow> if \<not> page_truthy p then ret (PList [])
         else (case rbind (page_text p) (\<lambda>t. loads (strip t)) of
            Inr v \<Rightarrow> ret v | Inl _ \<Rightarrow> ret (PList [])))"

section \<open>Logging in\<close>

definition disableAccount :: "yarr \<Rightarrow> (prov, unit) py" where
  "disableAccount y =
     bnd (conf_set (y_plug y) (enabled_option y) (PBool False)) (\<lambda>_.
     modify (\<lambda>s. s\<lparr>login_failures := 0\<rparr>))"

definition url_of :: "yarr \<Rightarrow> string \<Rightarrow> string res" where
  "url_of y k = (case map_of (y_urls y) k of None \<Rightarrow> Inl KeyError | Some u \<Rightarrow> Inr u)"

definition set_login :: "int option \<Rightarrow> (prov, unit) py" where
  "set_login t = modify (\<lambda>s. s\<lparr>last_login_check := t\<rparr>)"

text \<open>\<open>self.last_login_check\<close> as a truth value.\<close>

definition logged_in :: "prov \<Rightarrow> bool" where
  "logged_in s \<longleftrightarrow> last_login_check s \<notin> {None, Some 0}"

definition pclock :: "prov \<Rightarrow> int" where
  "pclock s = clock (pw s)"

text \<open>The hourly check that the login still holds, and the page it left in \<open>output\<close>.\<close>

definition check_login :: "net \<Rightarrow> yarr \<Rightarrow> int \<Rightarrow> (prov, bool \<times> page option) py" where
  "check_login e y t =
     bnd (attempt (bnd (liftr (url_of y ''login_check'')) (\<lambda>u. on_pw (urlopen e (y_plug y) u plain_get)))) (\<lambda>r.
     case r of
       Inr out \<Rightarrow> if login_check_success y out = Inr True
         then bnd (set_login (Some t)) (\<lambda>_. ret (True, Some out))
         else bnd (set_login None) (\<lambda>_. ret (False, Some out))
     | Inl _ \<Rightarrow> bnd (set_login None) (\<lambda>_. ret (False, None)))"

text \<open>\<open>self.login_fail_msg in output\<close>: a text is never in bytes, and \<open>output\<close> is unbound when no page came.\<close>

definition fail_msg_in :: "string \<Rightarrow> page option \<Rightarrow> bool res" where
  "fail_msg_in msg out = (case out of
     None \<Rightarrow> Inl NameError
   | Some (Text t) \<Rightarrow> Inr (contains msg t)
   | Some (Bytes _) \<Rightarrow> Inl TypeError
   | Some (Streamed _) \<Rightarrow> Inr False
   | Some (Sent v) \<Rightarrow> (case v of PDict d \<Rightarrow> Inr (dhas d msg) | PStr t \<Rightarrow> Inr (contains msg t) | _ \<Rightarrow> Inl TypeError))"

text \<open>A client error counts; the third in a row disables the provider.\<close>

definition count_login_failure :: "yarr \<Rightarrow> exn \<Rightarrow> (prov, unit) py" where
  "count_login_failure y x = (case x of
     HTTPError code \<Rightarrow>
       if 400 \<le> code \<and> code < 500
       then bnd (modify (\<lambda>s. s\<lparr>login_failures := login_failures s + 1\<rparr>)) (\<lambda>_.
            bnd (gets login_failures) (\<lambda>n. whenp (3 \<le> n) (disableAccount y)))
       else ret ()
   | _ \<Rightarrow> ret ())"

definition with_data :: "pv \<Rightarrow> url_options" where
  "with_data d = plain_get\<lparr>o_data := d\<rparr>"

text \<open>The page the site answers to the login, and what \<open>loginSuccess\<close> makes of it.\<close>

definition try_login :: "net \<Rightarrow> yarr \<Rightarrow> page option \<Rightarrow> (prov, page option \<times> bool res) py" where
  "try_login e y out0 =
     bnd (attempt (bnd (liftr (url_of y ''login'')) (\<lambda>u. on_pw (urlopen e (y_plug y) u (with_data (login_params y)))))) (\<lambda>r.
     case r of
       Inl x \<Rightarrow> ret (out0, Inl x)
     | Inr out \<Rightarrow> ret (Some out, login_success y out))"

definition login :: "net \<Rightarrow> yarr \<Rightarrow> (prov, bool) py" where
  "login e y =
     bnd (gets pclock) (\<lambda>t.
     bnd (gets (\<lambda>s. logged_in s \<and> the (last_login_check s) < t - 3600)) (\<lambda>stale.
     bnd (if stale then check_login e y t else ret (False, None)) (\<lambda>(checked, out0).
     if checked then ret True else
     bnd (gets logged_in) (\<lambda>inside.
     if inside then ret True else
     bnd (try_login e y out0) (\<lambda>(out, success). case success of
         Inr True \<Rightarrow> bnd (set_login (Some t)) (\<lambda>_. bnd (modify (\<lambda>s. s\<lparr>login_failures := 0\<rparr>)) (\<lambda>_. ret True))
       | _ \<Rightarrow>
         bnd (case success of Inl x \<Rightarrow> count_login_failure y x | Inr _ \<Rightarrow> ret ()) (\<lambda>_.
         bnd (set_login None) (\<lambda>_.
         bnd (case login_fail_msg y of
                None \<Rightarrow> ret False
              | Some msg \<Rightarrow> if msg = [] then ret False else liftr (fail_msg_in msg out)) (\<lambda>rejected.
         bnd (whenp rejected (disableAccount y)) (\<lambda>_. ret False)))))))))"


section \<open>Downloading\<close>

definition loginDownload :: "net \<Rightarrow> yarr \<Rightarrow> string \<Rightarrow> (prov, page option) py" where
  "loginDownload e y url =
     catch (bnd (login e y) (\<lambda>_. bnd (on_pw (urlopen e (y_plug y) url plain_get)) (\<lambda>p. ret (Some p))))
       (\<lambda>_. ret None)"

definition app_identifier :: "(world, string) py" where
  "app_identifier = bnd (fire ''app.version'' []) (\<lambda>v. ret (''CouchPotato '' @ fmt v))"

definition yarr_download :: "net \<Rightarrow> yarr \<Rightarrow> string \<Rightarrow> (prov, page) py" where
  "yarr_download e y url =
     catch (bnd (on_pworld app_identifier) (\<lambda>i.
            on_pw (urlopen e (y_plug y) url (plain_get\<lparr>o_headers := [(''User-Agent'', PStr i)], show_error := False\<rparr>))))
       (\<lambda>_. ret (Text ''try_next''))"

definition belongsTo :: "yarr \<Rightarrow> string \<Rightarrow> string \<Rightarrow> string \<Rightarrow> bool" where
  "belongsTo y url provider host =
     (if provider \<noteq> [] \<and> provider = p_name (y_plug y) then True
      else case urlparse url of
        Inl _ \<Rightarrow> False
      | Inr u \<Rightarrow> (case u_host u of
          None \<Rightarrow> False
        | Some h \<Rightarrow> host \<noteq> [] \<and> contains h host \<or> list_ex (\<lambda>(_, d). contains h d) (y_urls y)))"

section \<open>Sizes, categories, ages\<close>

definition parseSize :: "yarr \<Rightarrow> string \<Rightarrow> rat" where
  "parseSize y size0 =
     (let size_raw = lower size0;
          n = tryFloat (PStr (strip (filter (\<lambda>c. is_digit c \<or> c = CHR ''.'') size0)))
      in if list_ex (\<lambda>u. contains u size_raw) (size_gb y) then n * 1024
         else if list_ex (\<lambda>u. contains u size_raw) (size_mb y) then n
         else if list_ex (\<lambda>u. contains u size_raw) (size_kb y) then n / 1024
         else 0)"

definition getCatId :: "yarr \<Rightarrow> doc \<Rightarrow> pv list res" where
  "getCatId y quality =
     rbind (if truthy (dget quality ''custom'') then vget (dget quality ''custom'') ''3d'' else Inr (PBool False)) (\<lambda>want_3d.
     Inr (case first_such (\<lambda>(ids, qualities). dget quality ''identifier'' \<in> PStr ` set qualities \<or>
            truthy want_3d \<and> ''3d'' \<in> set qualities) (cat_ids y) of
        Some (ids, _) \<Rightarrow> ids
      | None \<Rightarrow> if truthy (cat_backup_id y) then [cat_backup_id y] else []))"

text \<open>\<open>NZBProvider.calculateAge\<close>, in days.\<close>

definition calculateAge :: "int \<Rightarrow> int \<Rightarrow> rat" where
  "calculateAge now_s unix = of_int (now_s - unix) / 24 / 60 / 60"

section \<open>The results that are kept\<close>

record result_list =
  result_ids :: "pv list"
  kept :: "doc list"

definition fillResult :: "yarr \<Rightarrow> settings \<Rightarrow> doc \<Rightarrow> doc" where
  "fillResult y st result = merge_into False
     [(''id'', PInt 0), (''protocol'', y_protocol y), (''type'', y_type y), (''provider'', PStr (p_name (y_plug y))),
      (''download'', if (case map_of (y_urls y) ''login'' of None \<Rightarrow> False | Some u \<Rightarrow> u \<noteq> [])
         then PStr ''loginDownload'' else y_download y),
      (''seed_ratio'', get_setting st ''seed_ratio'' (lower (p_name (y_plug y))) (PStr []) PNone),
      (''seed_time'', get_setting st ''seed_time'' (lower (p_name (y_plug y))) (PStr []) PNone),
      (''url'', PStr []), (''name'', PStr []), (''age'', PInt 0), (''size'', PInt 0), (''description'', PStr []), (''score'', PInt 0)]
     result"

definition found_extra :: "doc \<Rightarrow> doc" where
  "found_extra r = dput r ''provider_extra'' (PStr (if \<not> truthy (dget r ''provider_extra'') then []
     else '', '' @ fmt (dget r ''provider_extra'')))"

definition correct_release_event :: "outside \<Rightarrow> doc \<Rightarrow> doc \<Rightarrow> doc \<Rightarrow> bool \<Rightarrow> (world, pv \<times> doc) py" where
  "correct_release_event ou r media q imdb = catch (correctRelease ou r media q imdb) (\<lambda>_. ret (PNone, r))"

definition score_event :: "outside \<Rightarrow> doc \<Rightarrow> doc \<Rightarrow> (world, pv) py" where
  "score_event ou r media = call_handler
     (bnd (calculate (guessit ou) (\<lambda>m d. bnd (call_method ou m d) (\<lambda>v. liftr (num_res v))) r media) (\<lambda>x. ret (PFloat x)))"

text \<open>\<open>ResultList.append\<close>.\<close>

definition result_append :: "outside \<Rightarrow> yarr \<Rightarrow> doc \<Rightarrow> doc \<Rightarrow> bool \<Rightarrow> doc \<Rightarrow> result_list \<Rightarrow> (world, result_list) py" where
  "result_append ou y media q imdb result rl =
     bnd (gets sett) (\<lambda>st.
     bnd (correct_release_event ou (fillResult y st result) media q imdb) (\<lambda>(is_correct, r).
     bnd (liftr (dsub r ''id'')) (\<lambda>i.
     if \<not> truthy is_correct \<or> list_ex (pv_eq i) (result_ids rl) then ret rl
     else bnd (liftr (float_res is_correct)) (\<lambda>weight.
          bnd (score_event ou r media) (\<lambda>sc.
          bnd (liftr (rbind (dsub r ''score'') (\<lambda>v. rbind (num_res v) (\<lambda>a. rbind (num_res sc) (\<lambda>b. Inr (a + b)))))) (\<lambda>old_score.
          bnd (liftr (dsub result ''id'')) (\<lambda>j.
          ret (rl\<lparr>result_ids := result_ids rl @ [j],
                  kept := kept rl @ [found_extra (dput r ''score'' (PInt (trunc (old_score * weight))))]\<rparr>))))))))"

text \<open>A site's class hands over what it reads from a page, row by row, in a \<open>try\<close> of its own: the rows after
  one that raises are lost.\<close>

fun append_rows :: "outside \<Rightarrow> yarr \<Rightarrow> doc \<Rightarrow> doc \<Rightarrow> bool \<Rightarrow> doc list \<Rightarrow> result_list \<Rightarrow> (world, result_list) py" where
  "append_rows ou y media q imdb [] rl = ret rl"
| "append_rows ou y media q imdb (r # rows) rl =
     bnd (catch (bnd (result_append ou y media q imdb r rl) (\<lambda>rl'. ret (Some rl'))) (\<lambda>_. ret None)) (\<lambda>o1.
       case o1 of None \<Rightarrow> ret rl | Some rl' \<Rightarrow> append_rows ou y media q imdb rows rl')"

definition no_results :: result_list where
  "no_results = \<lparr>result_ids = [], kept = []\<rparr>"

section \<open>The search\<close>

text \<open>\<open>YarrProvider.search\<close>, for a site that searches with the identifier of the movie (\<open>_search\<close>) and for
  one that is asked for every possible title (\<open>_searchOnTitle\<close>): what the site's class reads is the argument
  \<open>scrape\<close>. The media is returned as \<open>library.query\<close> leaves it.\<close>

definition needs_login :: "yarr \<Rightarrow> bool" where
  "needs_login y = (case map_of (y_urls y) ''login'' of None \<Rightarrow> False | Some u \<Rightarrow> u \<noteq> [])"

fun on_titles :: "(string \<Rightarrow> doc \<Rightarrow> doc \<Rightarrow> (prov, doc list) py) \<Rightarrow> outside \<Rightarrow> yarr \<Rightarrow> doc \<Rightarrow> doc \<Rightarrow> string list \<Rightarrow>
    result_list \<Rightarrow> (prov, result_list) py" where
  "on_titles scrape ou y media q [] rl = ret rl"
| "on_titles scrape ou y media q (t # ts) rl =
     bnd (scrape t media q) (\<lambda>rows.
     bnd (on_pworld (append_rows ou y media q False rows rl)) (\<lambda>rl'. on_titles scrape ou y media q ts rl'))"

definition yarr_search ::
  "net \<Rightarrow> outside \<Rightarrow> yarr \<Rightarrow> (doc \<Rightarrow> doc \<Rightarrow> (prov, doc list) py) option \<Rightarrow>
   (string \<Rightarrow> doc \<Rightarrow> doc \<Rightarrow> (prov, doc list) py) \<Rightarrow> doc \<Rightarrow> doc \<Rightarrow> (prov, doc list \<times> doc) py" where
  "yarr_search e ou y by_imdb by_title media q =
     bnd (gets (isEnabled y)) (\<lambda>enabled.
     if \<not> enabled then ret ([], media) else
     bnd (if needs_login y then login e y else ret True) (\<lambda>inside.
     if \<not> inside then ret ([], media) else
     (case by_imdb of
        Some scrape \<Rightarrow>
          bnd (scrape media q) (\<lambda>rows.
          bnd (on_pworld (append_rows ou y media q True rows no_results)) (\<lambda>rl. ret (kept rl, media)))
      | None \<Rightarrow>
          (let (title, media') = (case library_query media True False of Inr (v, m) \<Rightarrow> (v, m) | Inl _ \<Rightarrow> (PNone, media)) in
           bnd (liftr (attr_str title)) (\<lambda>t.
           bnd (on_titles by_title ou y media' q (possibleTitles t) no_results) (\<lambda>rl. ret (kept rl, media')))))))"


section \<open>Sites that look for a text in the answer\<close>

text \<open>\<open>'logout.php' in output.lower()\<close>, as the classes of a dozen sites write \<open>loginSuccess\<close>: a text can not be
  looked for in bytes.\<close>

definition looks_for :: "string list \<Rightarrow> page \<Rightarrow> bool res" where
  "looks_for ws out = (case out of
     Text t \<Rightarrow> Inr (list_ex (\<lambda>w. contains w (lower t)) ws)
   | Bytes _ \<Rightarrow> Inl TypeError
   | Streamed _ \<Rightarrow> Inl AttributeError
   | Sent (PStr t) \<Rightarrow> Inr (list_ex (\<lambda>w. contains w (lower t)) ws)
   | Sent _ \<Rightarrow> Inl AttributeError)"

lemma flare_not_text: "openViaFlareSolverr e f u s = (Inr (Text t), s') \<Longrightarrow> False"
  by (auto simp: openViaFlareSolverr_def Let_def py_simps split: if_splits sum.splits prod.splits)

lemma fetch_not_text: "fetch e rq host v s = (Inr (st, Inr (Text t)), s') \<Longrightarrow> False"
  by (auto simp: fetch_def open_flare_def attempt_def send_request_def py_simps
      split: if_splits sum.splits prod.splits reply.splits dest!: flare_not_text)

lemma fetch_sent: "fetch e rq host v s = (Inr (st, Inr (Sent d)), s') \<Longrightarrow> d = rq_data rq"
  by (auto simp: fetch_def open_flare_def attempt_def send_request_def openViaFlareSolverr_def Let_def py_simps
      split: if_splits sum.splits prod.splits reply.splits)

lemma urlopen_page:
  assumes "urlopen e p u ops s = (Inr pg, t)"
  shows "pg = Text x \<Longrightarrow> x = []" "pg = Sent d \<Longrightarrow> d = or_empty (o_data ops) (PDict [])"
proof -
  from assms have "pg = Text [] \<or> (\<exists>rq host v s1 st s2. fetch e rq host v s1 = (Inr (st, Inr pg), s2) \<and>
      rq_data rq = or_empty (o_data ops) (PDict []))"
    unfolding urlopen_def Let_def
    by (elim bnd_okE) (fastforce simp: ret_run raise_run split: if_splits sum.splits prod.splits elim!: bnd_okE)
  then show "pg = Text x \<Longrightarrow> x = []" "pg = Sent d \<Longrightarrow> d = or_empty (o_data ops) (PDict [])"
    by (auto dest: fetch_not_text fetch_sent)
qed

lemma looks_for_page:
  assumes "urlopen e p u ops s = (Inr pg, t)" "[] \<notin> set ws" "\<And>x. or_empty (o_data ops) (PDict []) \<noteq> PStr x"
  shows "looks_for ws pg \<noteq> Inr True"
proof -
  have "\<not> contains w []" if "w \<in> set ws" for w using assms(2) that by auto
  then show ?thesis using urlopen_page [OF assms(1)] assms(3)
    by (auto simp: looks_for_def list_ex_iff lower_def split: page.splits pv.splits) metis
qed


text \<open>A provider of such a site that is not logged in.\<close>

definition looking_site :: "yarr \<Rightarrow> bool" where
  "looking_site y \<longleftrightarrow> (\<exists>ws. [] \<notin> set ws \<and> login_success y = looks_for ws) \<and> (\<exists>d. login_params y = PDict d)"

lemma try_login_fails:
  assumes "looking_site y" "try_login e y out0 s = (Inr (out, success), t)"
  shows "success \<noteq> Inr True"
proof -
  from assms(1) obtain ws d where y: "[] \<notin> set ws" "login_success y = looks_for ws" "login_params y = PDict d"
    by (auto simp: looking_site_def)
  have d: "or_empty (o_data (with_data (login_params y))) (PDict []) \<noteq> PStr x" for x
    by (simp add: y with_data_def or_empty_def)
  from assms(2) show ?thesis unfolding try_login_def attempt_def
    by (auto simp: py_simps y(2) split: sum.splits prod.splits dest!: looks_for_page [OF _ y(1) d])
qed

lemma try_login_keeps: "try_login e y out0 s = (r, t) \<Longrightarrow> last_login_check t = last_login_check s"
  by (auto simp: try_login_def attempt_def py_simps split: sum.splits prod.splits)

definition stays_out :: "prov \<Rightarrow> prov \<Rightarrow> bool" where
  "stays_out s t \<longleftrightarrow> (\<not> logged_in s \<longrightarrow> \<not> logged_in t)"

interpretation so: frame stays_out
  by unfold_locales (auto simp: stays_out_def)

lemma stays_out_disable: "keeps stays_out (disableAccount y)"
  unfolding disableAccount_def conf_set_def on_pworld_def
  by (intro so.keeps_intros so.keeps_modify)
    (auto simp: keeps_def on_pw_def stays_out_def logged_in_def split: prod.split)

lemma stays_out_count: "keeps stays_out (count_login_failure y x)"
  unfolding count_login_failure_def
  by (cases x) (auto intro!: so.keeps_intros so.keeps_modify stays_out_disable simp: stays_out_def logged_in_def)

lemma never_inside:
  assumes "looking_site y" "\<not> logged_in s"
  shows "fst (login e y s) \<noteq> Inr True \<and> \<not> logged_in (snd (login e y s))"
proof -
  obtain r t where tl: "try_login e y None s = (r, t)" by (cases "try_login e y None s")
  show ?thesis
  proof (cases r)
    case (Inl x)
    then show ?thesis using tl by (auto simp: try_login_def attempt_def py_simps split: sum.splits prod.splits)
  next
    case (Inr os)
    obtain out success where os: "os = (out, success)" by (cases os)
    have f: "success \<noteq> Inr True" by (rule try_login_fails [OF assms(1)]) (use tl Inr os in simp)
    have t: "\<not> logged_in t" using try_login_keeps [OF tl] assms(2) by (simp add: logged_in_def)
    let ?fail = "bnd (case success of Inl x \<Rightarrow> count_login_failure y x | Inr _ \<Rightarrow> ret ()) (\<lambda>_.
         bnd (set_login None) (\<lambda>_.
         bnd (case login_fail_msg y of
                None \<Rightarrow> ret False
              | Some msg \<Rightarrow> if msg = [] then ret False else liftr (fail_msg_in msg out)) (\<lambda>rejected.
         bnd (whenp rejected (disableAccount y)) (\<lambda>_. ret False))))"
    have run: "login e y s = ?fail t"
      using tl Inr os f assms(2) by (simp add: login_def py_simps split: sum.split bool.split)
    have "fst (?fail t) \<noteq> Inr True" by (auto simp: py_simps split: sum.splits prod.splits)
    moreover have "keeps stays_out ?fail"
      unfolding set_login_def
      by (auto intro!: so.keeps_intros stays_out_count stays_out_disable so.keeps_modify split: sum.split option.split
          simp: stays_out_def logged_in_def)
    then have "\<not> logged_in (snd (?fail t))" using t keepsD [of stays_out ?fail t] by (simp add: stays_out_def)
    ultimately show ?thesis unfolding run ..
  qed
qed

text \<open>C16: a provider of a site that wants a login, and that looks for a text in the answer to it, finds nothing
  ever: the answer is bytes, the login never succeeds, and every search ends without a result.\<close>

theorem login_never_succeeds:
  assumes "looking_site y" "needs_login y" "\<not> logged_in s"
    and run: "yarr_search e ou y by_imdb by_title media q s = (Inr (rs, media'), t)"
  shows "rs = [] \<and> \<not> logged_in t"
proof -
  obtain r u where l: "login e y s = (r, u)" by (cases "login e y s")
  with never_inside [OF assms(1,3), of e] have "r \<noteq> Inr True" "\<not> logged_in u" by simp_all
  with run l assms(2,3) show ?thesis
    by (auto simp: yarr_search_def py_simps split: if_splits sum.splits)
qed


section \<open>What is kept passed the searcher\<close>

text \<open>What a search of a provider leaves as it is: the settings and the database.\<close>

definition same_sett :: "world \<Rightarrow> world \<Rightarrow> bool" where
  "same_sett w v \<longleftrightarrow> sett v = sett w \<and> store v = store w"

text \<open>A provider's own code writes neither, and its \<open>get_more_info\<close> leaves the id of the result.\<close>

definition honest_hook :: "outside \<Rightarrow> doc \<Rightarrow> bool" where
  "honest_hook ou r \<longleftrightarrow> (\<forall>m. keeps same_sett (call_method ou m r)) \<and>
     (\<forall>w d w'. call_method ou (dget r ''get_more_info'') r w = (Inr (PDict d), w') \<longrightarrow> dget d ''id'' = dget r ''id'')"

text \<open>The release \<open>r\<close> passes every test of the searcher, in the state \<open>w\<close>: it is for a movie, not too old for the
  retention of the usenet servers, its name has the words asked for and none to ignore, its size is one the quality
  allows, no other quality is found in it, it is in 3D if and only if that is wanted, the provider's own check does
  not refuse what its \<open>get_more_info\<close> made of it, \<open>d\<close>; and unless the movie was searched by its identifier, its
  description has the identifier or its name a title and the year of the movie.\<close>

definition tested :: "outside \<Rightarrow> doc \<Rightarrow> doc \<Rightarrow> bool \<Rightarrow> world \<Rightarrow> doc \<Rightarrow> doc \<Rightarrow> bool" where
  "tested ou media q imdb w r d \<longleftrightarrow>
     dget media ''type'' = PStr ''movie'' \<and> outside_retention (sett w) r = Inr False \<and>
     (\<exists>nm. dget r ''name'' = PStr nm \<and> correctWords ou (sett w) nm media = Inr True) \<and> size_fits r q = Inr True \<and>
     (\<exists>info v1 w1 v2 w2 w3. dget media ''info'' = PDict info \<and>
        call_handler (containsOtherQuality ou r (dget info ''year'') q) w = (Inr v1, w1) \<and> \<not> (truthy v1 \<and> is_dict v1) \<and>
        call_handler (correct3D ou r q) w1 = (Inr v2, w2) \<and> truthy v2 \<and>
        provider_hooks ou r w2 = (Inr (Some d), w3) \<and>
        (truthy (dget d ''extra_check'') \<longrightarrow> (\<exists>u b. call_method ou (dget d ''extra_check'') d u = (Inr b, w3) \<and> truthy b)) \<and>
        (imdb \<or> names_imdb d media = Inr True \<or>
         (\<exists>nm titles. dget d ''name'' = PStr nm \<and> info_titles media = Inr titles \<and>
            (\<exists>t \<in> set titles. \<exists>p \<in> set (possibleTitles t). title_matches ou nm (dget info ''year'') p))))"

lemma name_of: "rbind (dsub r ''name'') as_str = Inr nm \<Longrightarrow> dget r ''name'' = PStr nm"
  by (auto simp: rbind_eq_Inr dest!: dsub_Inr elim!: as_str.elims)

lemma year_of:
  assumes "rbind (dsub m ''info'') (\<lambda>i. vsub i ''year'') = Inr y"
  shows "\<exists>info. dget m ''info'' = PDict info \<and> y = dget info ''year''"
proof -
  from assms obtain i where i: "dsub m ''info'' = Inr i" "vsub i ''year'' = Inr y" by (auto simp: rbind_eq_Inr)
  then show ?thesis by (cases i) (auto dest!: dsub_Inr)
qed

lemma hooks_checked:
  assumes "provider_hooks ou r w = (Inr (Some d), w')" "honest_hook ou r"
  shows "dget d ''id'' = dget r ''id''"
    and "truthy (dget d ''extra_check'') \<longrightarrow> (\<exists>u b. call_method ou (dget d ''extra_check'') d u = (Inr b, w') \<and> truthy b)"
  using assms unfolding provider_hooks_def honest_hook_def
  by (auto simp: py_simps split: if_splits sum.splits prod.splits elim!: as_dict.elims)

lemma identified:
  assumes "rbind (names_imdb x media) (\<lambda>by_imdb. if by_imdb then Inr (PBool True, x)
      else rbind (info_titles media) (\<lambda>titles. rbind (rbind (dsub x ''name'') as_str) (\<lambda>nm. Inr (PBool (P nm titles), x))))
    = Inr (v, d)" "truthy v"
  shows "x = d \<and> (names_imdb d media = Inr True \<or> (\<exists>titles nm. info_titles media = Inr titles \<and>
    rbind (dsub d ''name'') as_str = Inr nm \<and> P nm titles))"
proof -
  from assms(1) obtain b where b: "names_imdb x media = Inr b" by (auto simp: rbind_eq_Inr)
  show ?thesis
  proof (cases b)
    case False
    with assms b show ?thesis by (auto simp: rbind_eq_Inr)
  qed (use assms b in simp)
qed

lemma correctRelease_tested:
  assumes run: "correctRelease ou r media q imdb w = (Inr (v, d), w')" and v: "truthy v" and h: "honest_hook ou r"
  shows "tested ou media q imdb w r d \<and> dget d ''id'' = dget r ''id''"
proof -
  from run v obtain nm year v1 w1 v2 w2 w3 where t: "dget media ''type'' = PStr ''movie''"
      "outside_retention (sett w) r = Inr False" "rbind (dsub r ''name'') as_str = Inr nm"
      "correctWords ou (sett w) nm media = Inr True" "size_fits r q = Inr True"
      "rbind (dsub media ''info'') (\<lambda>i. vsub i ''year'') = Inr year"
      "call_handler (containsOtherQuality ou r year q) w = (Inr v1, w1)" "\<not> (truthy v1 \<and> is_dict v1)"
      "call_handler (correct3D ou r q) w1 = (Inr v2, w2)" "truthy v2"
      "provider_hooks ou r w2 = (Inr (Some d), w3)"
      "imdb \<or> names_imdb d media = Inr True \<or> (\<exists>titles nm. info_titles media = Inr titles \<and>
         rbind (dsub d ''name'') as_str = Inr nm \<and> list_ex (title_matches ou nm year) (concat (map possibleTitles titles)))"
    unfolding correctRelease_def
    by (auto simp: ret_run raise_run liftr_run gets_run split: if_splits option.splits elim!: bnd_okE
        dest!: identified)
  obtain info where info: "dget media ''info'' = PDict info" "year = dget info ''year''" using year_of [OF t(6)] by blast
  have "imdb \<or> names_imdb d media = Inr True \<or>
      (\<exists>nm titles. dget d ''name'' = PStr nm \<and> info_titles media = Inr titles \<and>
         (\<exists>t \<in> set titles. \<exists>p \<in> set (possibleTitles t). title_matches ou nm (dget info ''year'') p))"
    using t(12) info(2) name_of [of d] by (auto simp: list_ex_iff)
  with t info hooks_checked [OF t(11) h] name_of [OF t(3)] show ?thesis unfolding tested_def by blast
qed


text \<open>None of this changes the settings or the database.\<close>

interpretation sa: frame same_sett
  by unfold_locales (simp_all add: same_sett_def)

lemma same_sett_read: "keeps (=) m \<Longrightarrow> keeps same_sett m"
  by (auto simp: keeps_def same_sett_def)

lemma same_sett_fire: "keeps same_sett (fire n args)"
  by (simp add: keeps_def fire_def same_sett_def)

lemma same_sett_call_handler: "keeps same_sett m \<Longrightarrow> keeps same_sett (call_handler m)"
  by (auto simp: call_handler_def intro: sa.keeps_intros)

lemma same_sett_all_qualities: "keeps same_sett all_qualities"
  by (simp add: keeps_def all_qualities_def same_sett_def)

lemmas same_sett_intros = sa.keeps_intros read_only_on_db [THEN same_sett_read] same_sett_fire same_sett_call_handler same_sett_all_qualities

lemma same_sett_quality_guess_event: "keeps same_sett (quality_guess_event ou nm sz)"
  unfolding quality_guess_event_def guess_def
  by (auto intro!: same_sett_intros split: option.split)

lemma same_sett_correctRelease:
  assumes h: "\<And>r. honest_hook ou r"
  shows "keeps same_sett (correctRelease ou r media q imdb)"
proof -
  have c: "keeps same_sett (call_method ou m d)" for m d using h [of d] by (simp add: honest_hook_def)
  show ?thesis
    unfolding correctRelease_def containsOtherQuality_def qualities_in_def correct3D_def provider_hooks_def Let_def
    by (auto intro!: same_sett_intros same_sett_quality_guess_event c split: option.split)
qed

lemma same_sett_sceneScore: "keeps same_sett (sceneScore nm)"
proof -
  have "keeps same_sett (scene_loop ns)" for ns
    by (induction ns) (auto intro!: same_sett_intros split: sum.split option.split)
  then show ?thesis by (simp add: sceneScore_def)
qed

lemma same_sett_append:
  assumes h: "\<And>r. honest_hook ou r"
  shows "keeps same_sett (result_append ou y media q imdb row rl)"
proof -
  have c: "keeps same_sett (call_method ou m d)" for m d using h [of d] by (simp add: honest_hook_def)
  show ?thesis
    unfolding result_append_def correct_release_event_def score_event_def calculate_def Let_def
    by (auto intro!: same_sett_intros same_sett_correctRelease h same_sett_sceneScore c split: option.split)
qed

text \<open>The results kept so far: their ids are theirs, no two are equal, and each passed.\<close>

definition kept_from :: "outside \<Rightarrow> yarr \<Rightarrow> doc \<Rightarrow> doc \<Rightarrow> bool \<Rightarrow> world \<Rightarrow> doc \<Rightarrow> bool" where
  "kept_from ou y media q imdb w r \<longleftrightarrow> (\<exists>row v d sc. same_sett w v \<and> tested ou media q imdb v (fillResult y (sett w) row) d \<and>
     r = found_extra (dput d ''score'' sc))"

definition list_ok :: "outside \<Rightarrow> yarr \<Rightarrow> doc \<Rightarrow> doc \<Rightarrow> bool \<Rightarrow> world \<Rightarrow> result_list \<Rightarrow> bool" where
  "list_ok ou y media q imdb w rl \<longleftrightarrow> result_ids rl = map (\<lambda>r. dget r ''id'') (kept rl) \<and>
     sorted_wrt (\<lambda>i j. \<not> pv_eq j i) (result_ids rl) \<and> (\<forall>r \<in> set (kept rl). kept_from ou y media q imdb w r)"

lemma list_ok_same: "list_ok ou y media q imdb w rl \<Longrightarrow> same_sett w v \<Longrightarrow> list_ok ou y media q imdb v rl"
  by (fastforce simp: list_ok_def kept_from_def same_sett_def)

lemma merge_into_keeps: "k \<notin> fst ` set src \<Longrightarrow> map_of (merge_into b dst src) k = map_of dst k"
proof (induction src arbitrary: dst)
  case (Cons kv src)
  then show ?case by (cases kv) (auto simp: dput_def update_conv')
qed simp

lemma merge_into_takes:
  "map_of src k = Some v \<Longrightarrow> distinct (map fst src) \<Longrightarrow> map_of dst k = Some (PInt i) \<Longrightarrow> map_of (merge_into b dst src) k = Some v"
proof (induction src arbitrary: dst)
  case (Cons kv src)
  obtain k' v' where kv: "kv = (k', v')" by (cases kv)
  show ?case
  proof (cases "k' = k")
    case True
    with Cons.prems kv show ?thesis
      by (simp add: merge_into_keeps dput_def update_conv' split: pv.split)
  next
    case False
    with Cons kv show ?thesis by (simp add: dput_def update_conv')
  qed
qed simp

lemma fill_id: "dsub result ''id'' = Inr j \<Longrightarrow> distinct (map fst result) \<Longrightarrow> dget (fillResult y st result) ''id'' = j"
  unfolding fillResult_def dget_def
  by (subst merge_into_takes [where v = j and i = 0]) (auto simp: dsub_def split: option.splits)

lemma append_ok:
  assumes run: "result_append ou y media q imdb row rl w = (Inr rl', w')" and ok: "list_ok ou y media q imdb w rl"
    and h: "\<And>r. honest_hook ou r" and row: "distinct (map fst row)"
  shows "list_ok ou y media q imdb w rl'"
proof -
  let ?r = "fillResult y (sett w) row"
  from run obtain v r i w1 where c: "correct_release_event ou ?r media q imdb w = (Inr (v, r), w1)" "dsub r ''id'' = Inr i"
    and rest: "rl' = rl \<or> truthy v \<and> \<not> list_ex (pv_eq i) (result_ids rl) \<and> (\<exists>j sc. dsub row ''id'' = Inr j \<and>
      rl' = rl\<lparr>result_ids := result_ids rl @ [j], kept := kept rl @ [found_extra (dput r ''score'' sc)]\<rparr>)"
    unfolding result_append_def
    by (auto simp: ret_run liftr_run gets_run split: if_splits elim!: bnd_okE) blast
  show ?thesis
  proof (cases "rl' = rl")
    case False
    with rest obtain j sc where j: "truthy v" "\<not> list_ex (pv_eq i) (result_ids rl)" "dsub row ''id'' = Inr j"
      "rl' = rl\<lparr>result_ids := result_ids rl @ [j], kept := kept rl @ [found_extra (dput r ''score'' sc)]\<rparr>" by blast
    with c(1) obtain w2 where "correctRelease ou ?r media q imdb w = (Inr (v, r), w2)"
      by (auto simp: correct_release_event_def py_simps split: sum.splits prod.splits)
    from correctRelease_tested [OF this j(1) h] have p: "tested ou media q imdb w ?r r" "dget r ''id'' = dget ?r ''id''" by simp_all
    let ?k = "found_extra (dput r ''score'' sc)"
    have k: "kept_from ou y media q imdb w ?k" unfolding kept_from_def using p(1) sa.frame_refl by blast
    have "dget ?k ''id'' = dget r ''id''" by (simp add: found_extra_def dget_dput)
    then have "dget ?k ''id'' = j" "i = j" using fill_id [OF j(3) row] p(2) c(2) by (auto dest: dsub_Inr)
    with ok j k show ?thesis by (auto simp: list_ok_def sorted_wrt_append list_ex_iff)
  qed (use ok in simp)
qed

lemma append_rows_ok:
  assumes h: "\<And>r. honest_hook ou r"
  shows "append_rows ou y media q imdb rows rl w = (Inr rl', w') \<Longrightarrow> list_ok ou y media q imdb w rl \<Longrightarrow>
    \<forall>r \<in> set rows. distinct (map fst r) \<Longrightarrow> list_ok ou y media q imdb w' rl'"
proof (induction rows arbitrary: rl w)
  case (Cons r rows)
  let ?one = "catch (bnd (result_append ou y media q imdb r rl) (\<lambda>rl'. ret (Some rl'))) (\<lambda>_. ret None)"
  from Cons.prems(1) obtain o1 w1 where o: "?one w = (Inr o1, w1)"
    "(case o1 of None \<Rightarrow> ret rl | Some rl' \<Rightarrow> append_rows ou y media q imdb rows rl') w1 = (Inr rl', w')"
    by (auto elim!: bnd_okE)
  have "keeps same_sett ?one" by (intro same_sett_intros same_sett_append h)
  from keepsD [OF this, of w] o(1) have st: "same_sett w w1" by simp
  show ?case
  proof (cases o1)
    case None
    with o(2) list_ok_same [OF Cons.prems(2) st] show ?thesis by (simp add: ret_run)
  next
    case (Some rl1)
    with o(1) have "result_append ou y media q imdb r rl w = (Inr rl1, w1)"
      by (auto simp: py_simps split: sum.splits prod.splits)
    from append_ok [OF this Cons.prems(2) h] Cons.prems(3) have "list_ok ou y media q imdb w rl1" by simp
    from list_ok_same [OF this st] Cons.IH [of rl1 w1] Cons.prems(3) o(2) Some show ?thesis by auto
  qed
qed (simp add: ret_run)

lemma bnd_ok_iff: "(bnd m f s = (Inr y, t)) = (\<exists>x s'. m s = (Inr x, s') \<and> f x s' = (Inr y, t))"
  by (auto simp: bnd_def split: prod.splits sum.splits)

lemma if_ok_iff: "((if b then m else n) s = r) = (b \<and> m s = r \<or> \<not> b \<and> n s = r)"
  by simp

lemma on_pworld_ok: "on_pworld m s = (Inr x, t) \<Longrightarrow> m (bw (pw s)) = (Inr x, bw (pw t))"
  by (auto simp: on_pworld_def on_pw_run on_bw_run split: prod.splits)

abbreviation psett :: "prov \<Rightarrow> settings" where
  "psett s \<equiv> sett (bw (pw s))"

text \<open>What a site's class reads from a page are dicts, and reading it writes no setting and no document.\<close>

definition reads_dicts :: "(prov, doc list) py \<Rightarrow> bool" where
  "reads_dicts m \<longleftrightarrow> (\<forall>s rows t. m s = (Inr rows, t) \<longrightarrow>
     (\<forall>r \<in> set rows. distinct (map fst r)) \<and> same_sett (bw (pw s)) (bw (pw t)))"

lemma on_titles_ok:
  assumes h: "\<And>r. honest_hook ou r" and d: "\<And>t. reads_dicts (scrape t media q)"
  shows "on_titles scrape ou y media q ts rl s = (Inr rl', s') \<Longrightarrow> list_ok ou y media q False (bw (pw s)) rl \<Longrightarrow>
    list_ok ou y media q False (bw (pw s')) rl'"
proof (induction ts arbitrary: rl s)
  case (Cons t ts)
  from Cons.prems(1) obtain rows s1 rl1 s2 where r: "scrape t media q s = (Inr rows, s1)"
    "on_pworld (append_rows ou y media q False rows rl) s1 = (Inr rl1, s2)"
    "on_titles scrape ou y media q ts rl1 s2 = (Inr rl', s')" by (auto elim!: bnd_okE)
  from d r(1) have s: "same_sett (bw (pw s)) (bw (pw s1))" "\<forall>r \<in> set rows. distinct (map fst r)"
    by (auto simp: reads_dicts_def)
  from append_rows_ok [OF h on_pworld_ok [OF r(2)] list_ok_same [OF Cons.prems(2) s(1)] s(2)] Cons.IH r(3)
  show ?case by blast
qed (simp add: ret_run)



section \<open>Examples\<close>

definition demo_site :: yarr where
  "demo_site = \<lparr>y_plug = fetch_plug, y_protocol = PStr ''torrent'', y_type = PStr ''movie'',
     y_urls = [(''login'', ''https://example.com/'')], y_download = PStr ''download'', enabled_option = ''enabled'',
     login_params = PDict [(''username'', PStr ''me'')], login_success = looks_for [''logout.php''],
     login_check_success = looks_for [''logout.php''], login_fail_msg = None,
     size_gb = [''gb'', ''gib''], size_mb = [''mb'', ''mib''], size_kb = [''kb'', ''kib''], cat_ids = [], cat_backup_id = PNone,
     proxy_list = [], correct_proxy = (\<lambda>_. Inr True)\<rparr>"

definition open_site :: yarr where
  "open_site = demo_site\<lparr>y_urls := []\<rparr>"

definition demo_prov :: prov where
  "demo_prov = \<lparr>pw = demo_web, last_login_check = None, login_failures = 0, proxy_domain = []\<rparr>"

lemma demo_site_enabled: "isEnabled demo_site demo_prov" "isEnabled open_site demo_prov"
proof -
  have "get_setting demo_settings ''enabled'' ''newznab'' PNone PNone = PNone" by code_simp
  moreover have "conf_section fetch_plug = ''newznab''" by code_simp
  ultimately show "isEnabled demo_site demo_prov" "isEnabled open_site demo_prov"
    by (simp_all add: isEnabled_def conf_of_def demo_prov_def demo_web_def demo_world_def open_site_def demo_site_def)
qed

lemma demo_login: "fst (login page_net demo_site demo_prov) = Inr False"
  using demo_url
  by (simp add: login_def try_login_def attempt_def url_of_def urlopen_def py_simps with_data_def plain_get_def Let_def or_empty_def
      left_alone_def wait_def has_len_def fetch_def send_request_def demo_web_def fetch_plug_def demo_plug_def page_net_def
      demo_net_def demo_site_def demo_prov_def logged_in_def pclock_def clock_def tab_def count_failures_def looks_for_def
      count_login_failure_def set_login_def fail_msg_in_def)

text \<open>The login of this site fails, so nothing is found.\<close>

theorem login_never_succeeds_witness:
  "\<exists>t. yarr_search page_net demo_outside demo_site None (\<lambda>_ _ _. ret [[]]) media_doc [] demo_prov = (Inr ([], media_doc), t) \<and>
    \<not> logged_in t"
proof -
  obtain u where l: "login page_net demo_site demo_prov = (Inr False, u)"
    using demo_login by (cases "login page_net demo_site demo_prov") simp
  have n: "needs_login demo_site" by (simp add: needs_login_def demo_site_def)
  have "yarr_search page_net demo_outside demo_site None (\<lambda>_ _ _. ret [[]]) media_doc [] demo_prov = (Inr ([], media_doc), u)"
    using l n demo_site_enabled by (simp add: yarr_search_def py_simps)
  moreover have "looking_site demo_site" unfolding looking_site_def
    by (intro conjI exI [of _ "[''logout.php'']"]) (simp_all add: demo_site_def)
  from login_never_succeeds [OF this n _ calculation] have "\<not> logged_in u" by (simp add: logged_in_def demo_prov_def)
  ultimately show ?thesis by blast
qed

text \<open>A row that is not about a movie is not kept.\<close>


text \<open>A film, and a release of another name that was found for it.\<close>

definition demo_film :: doc where
  "demo_film = [(''type'', PStr ''movie''), (''info'', PDict [(''titles'', PList [PStr ''Movie'']), (''year'', PInt 2013)])]"

definition demo_hit :: doc where
  "demo_hit = [(''name'', PStr ''Other''), (''size'', PInt 700), (''provider'', PStr ''newznab'')]"

lemma demo_no_qualities: "all_qualities demo_world = (Inl RecordNotFound, demo_world)"
  by (simp add: all_qualities_def qualities_def query_def demo_world_def empty_db_def live_docs_def index_entries_def)

lemma demo_names:
  "simplifyString ''Movie'' = ''movie''" "simplifyString ''Other'' = ''other''" "quoted_part ''Other'' = None" "split_on ''movie'' ''other'' = [''other'']"
  "nameRatioScore ''Other'' ''Movie'' = 9" "check_names_of ''Other'' = [''Other'']"
  "\<not> has_year_and_group (scene_name ''Other'')" "halfMultipartScore ''Other'' = 0"
  "duplicateScore ''Other'' (PStr ''Movie'') = 0" "nameScore ''Other'' (str_of_int 2013) [] = 0"
  "strip ''other'' = ''other''" "partialIgnoredScore ''Other'' (PStr ''Movie'') [] = 0"
  by code_simp+

lemma demo_position: "namePositionScore gs qs ''Other'' ''Movie'' = Inr 0"
  by (simp add: namePositionScore_def Let_def demo_names)

lemma demo_search:
  "search_words (sett demo_world) (PStr []) demo_film ''preferred'' = Inr []"
  "search_words (sett demo_world) (PStr []) demo_film ''ignored'' = Inr []"
  by code_simp+

lemma demo_provider: "providerScore (sett demo_world) (PStr ''newznab'') = 0"
  by code_simp

lemma demo_doc:
  "rbind (dsub demo_hit ''name'') as_str = Inr ''Other''" "dsub demo_hit ''size'' = Inr (PInt 700)"
  "dsub demo_hit ''provider'' = Inr (PStr ''newznab'')" "truthy (dget demo_hit ''extra_score'') = False"
  "rbind (dsub demo_film ''info'') (\<lambda>i. vsub i ''year'') = Inr (PInt 2013)" "info_titles demo_film = Inr [''Movie'']"
  "seedersScore demo_hit = 0" "getTitle (PDict demo_film) = PStr ''Movie''" "sizeScore (PInt 700) = 0"
  by code_simp+

lemma demo_score: "fst (calculate gs extra demo_hit demo_film demo_world) = Inr 9"
  by (simp add: calculate_def py_simps demo_search demo_no_qualities demo_provider demo_doc demo_position demo_names
      sceneScore_def)

text \<open>A site that is open to all and has one release; it passes and is kept.\<close>

definition search_settings :: settings where
  "search_settings = demo_settings\<lparr>parser := (''searcher'', [(''required_words'', PStr []), (''ignored_words'', PStr [])])
     # parser demo_settings\<rparr>"

definition search_world :: world where
  "search_world = demo_world\<lparr>sett := search_settings\<rparr>"

definition search_prov :: prov where
  "search_prov = demo_prov\<lparr>pw := demo_web\<lparr>bw := search_world\<rparr>\<rparr>"

definition wanted_quality :: doc where
  "wanted_quality = [(''identifier'', PStr ''720p''), (''label'', PStr ''720p''), (''allow'', PList []),
     (''custom'', PDict [(''3d'', PBool False)]), (''size_min'', PInt 100), (''size_max'', PInt 1000)]"

definition site_row :: doc where
  "site_row = [(''id'', PInt 7), (''name'', PStr ''Other''), (''size'', PInt 700), (''seeders'', PInt 0)]"

definition site_result :: doc where
  "site_result = fillResult open_site search_settings site_row"

lemma search_conf:
  "search_words search_settings (PStr []) demo_film ''preferred'' = Inr []"
  "search_words search_settings (PStr []) demo_film ''ignored'' = Inr []"
  "search_words search_settings PNone demo_film ''required'' = Inr []"
  "search_words search_settings PNone demo_film ''ignored'' = Inr []"
  "providerScore search_settings (PStr ''newznab'') = 0"
  "get_setting search_settings ''enabled'' ''newznab'' PNone PNone = PNone"
  "get_setting search_settings ''seed_ratio'' ''newznab'' (PStr []) PNone = PStr []"
  "get_setting search_settings ''seed_time'' ''newznab'' (PStr []) PNone = PStr []"
  "lower ''newznab'' = ''newznab''" "conf_section fetch_plug = ''newznab''"
  by code_simp+

lemma site_result_eq:
  "site_result = [(''id'', PInt 7), (''protocol'', PStr ''torrent''), (''type'', PStr ''movie''), (''provider'', PStr ''newznab''),
     (''download'', PStr ''download''), (''seed_ratio'', PStr []), (''seed_time'', PStr []), (''url'', PStr []),
     (''name'', PStr ''Other''), (''age'', PInt 0), (''size'', PInt 700), (''description'', PStr []), (''score'', PInt 0),
     (''seeders'', PInt 0)]"
  by (simp add: site_result_def fillResult_def site_row_def open_site_def demo_site_def fetch_plug_def demo_plug_def
      search_conf dput_def)

lemma site_seen:
  "dget site_result ''seeders'' = PInt 0" "dsub site_result ''name'' = Inr (PStr ''Other'')" "dget site_result ''name'' = PStr ''Other''"
  "dsub site_result ''size'' = Inr (PInt 700)" "dsub site_result ''provider'' = Inr (PStr ''newznab'')"
  "dget site_result ''extra_score'' = PNone" "dget site_result ''get_more_info'' = PNone" "dget site_result ''extra_check'' = PNone"
  "dsub site_result ''id'' = Inr (PInt 7)" "dsub site_result ''score'' = Inr (PInt 0)" "dget site_result ''size'' = PInt 700"
  by (simp_all add: site_result_eq dget_def dsub_def)

lemma search_world_qualities: "all_qualities search_world = (Inl RecordNotFound, search_world)"
  using demo_no_qualities by (simp add: all_qualities_def search_world_def demo_world_def)

lemma site_guess: "quality_guess_event demo_outside nm sz search_world = (Inr None, search_world)"
  by (auto simp: quality_guess_event_def guess_def py_simps search_world_qualities demo_outside_def split: sum.split)

lemma site_words: "correctWords demo_outside search_settings ''Other'' demo_film = Inr True"
proof -
  have "search_title_event demo_film = PStr ''Movie''" "wsplit (simplifyString ''Movie'') = [''movie'']"
    "wsplit (simplifyString ''Other'') = [''other'']" by code_simp+
  then show ?thesis
    by (simp add: correctWords_def containsWords_def search_conf word_set_matches_def attr_str_def pron_tags_def Let_def)
qed

lemma site_correct: "correctRelease demo_outside site_result demo_film wanted_quality True search_world
    = (Inr (PBool True, site_result), search_world)"
proof -
  have o: "call_handler (containsOtherQuality demo_outside site_result (PInt 2013) wanted_quality) search_world
      = (Inr (PDict []), search_world)"
  proof -
    have "qualities_in demo_outside site_result (PInt 2013) search_world = (Inr [], search_world)"
      by (simp add: qualities_in_def py_simps site_guess site_seen Let_def num_res_def) (simp add: demo_outside_def)
    then show ?thesis
      by (simp add: call_handler_def containsOtherQuality_def py_simps Let_def wanted_quality_def dget_def dsub_def)
  qed
  have d: "call_handler (correct3D demo_outside site_result wanted_quality) search_world = (Inr (PBool True), search_world)"
  proof -
    have "dget wanted_quality ''custom'' = PDict [(''3d'', PBool False)]" "dget [(''3d'', PBool False)] ''3d'' = PBool False"
      by (simp_all add: wanted_quality_def dget_def)
    then show ?thesis by (simp add: call_handler_def correct3D_def py_simps site_guess pv_eq_def)
  qed
  have f: "size_fits site_result wanted_quality = Inr True"
  proof -
    have "dsub wanted_quality ''size_min'' = Inr (PInt 100)" "dsub wanted_quality ''size_max'' = Inr (PInt 1000)"
      by (simp_all add: wanted_quality_def dsub_def)
    then show ?thesis by (simp add: size_fits_def site_seen)
  qed
  have m: "dget demo_film ''type'' = PStr ''movie''" "wanted_quality \<noteq> []" "sett search_world = search_settings"
    by (simp_all add: demo_film_def dget_def wanted_quality_def search_world_def)
  have a: "outside_retention search_settings site_result = Inr False" by (simp add: outside_retention_def site_seen)
  have h: "provider_hooks demo_outside site_result search_world = (Inr (Some site_result), search_world)"
    by (simp add: provider_hooks_def site_seen py_simps)
  show ?thesis
    by (simp add: correctRelease_def m a py_simps site_words site_seen demo_doc o d f h)
qed

lemma site_kept:
  "\<exists>r w. result_append demo_outside open_site demo_film wanted_quality True site_row no_results search_world
     = (Inr \<lparr>result_ids = [PInt 7], kept = [r]\<rparr>, w)"
proof -
  have fill: "fillResult open_site search_settings site_row = site_result" by (simp add: site_result_def)
  have st: "sett search_world = search_settings" by (simp add: search_world_def)
  have id: "dsub site_row ''id'' = Inr (PInt 7)" by (simp add: site_row_def dsub_def)
  have more: "seedersScore site_result = 0" "sizeScore (PInt 700) = 0"
    by (simp add: seedersScore_def site_seen) code_simp
  obtain x w where c: "calculate (guessit demo_outside) f site_result demo_film search_world = (Inr x, w)" for f
  proof -
    have "\<exists>x w. \<forall>f. calculate (guessit demo_outside) f site_result demo_film search_world = (Inr x, w)"
      by (simp add: calculate_def py_simps st search_conf search_world_qualities demo_doc site_seen demo_position demo_names
          sceneScore_def more)
    with that show thesis by blast
  qed
  have s: "score_event demo_outside site_result demo_film search_world = (Inr (PFloat x), w)"
    by (simp add: score_event_def call_handler_def py_simps c)
  show ?thesis
    by (simp add: result_append_def correct_release_event_def py_simps fill st site_correct site_seen no_results_def s id
        num_res_def)
qed


end
