(* ===== verification/TitleScore.thy ===== *)
theory TitleScore
  imports Provider
begin

text \<open>
  What \<open>library.query\<close> does to the score of the releases found after it: it puts the title of the movie once
  more into the list of its titles, and \<open>score.calculate\<close> adds the points of every title in that list.
\<close>

definition title_points :: "(string \<Rightarrow> doc res) \<Rightarrow> world \<Rightarrow> string \<Rightarrow> string \<Rightarrow> int res" where
  "title_points gs w name t =
     rbind (namePositionScore gs (case fst (all_qualities w) of Inr q \<Rightarrow> Some q | Inl _ \<Rightarrow> None) name t) (\<lambda>p.
       Inr (nameRatioScore name t + p))"

lemma mapr_as_str: "mapr as_str vs = Inr ts \<Longrightarrow> vs = map PStr ts"
  by (induction vs arbitrary: ts) (auto simp: rbind_eq_Inr elim!: as_str.elims)

lemma query_media:
  assumes q: "library_query media True False = Inr (PStr t, media')" and m: "dget media ''type'' = PStr ''movie''"
    and ts: "info_titles media = Inr ts"
  obtains d where "dsub media ''info'' = Inr (PDict d)" "dsub d ''titles'' = Inr (PList (map PStr ts))"
    "media' = dput media ''info'' (PDict (dput d ''titles'' (PList (PStr t # map PStr ts))))" "getTitle (PDict media) = PStr t"
proof -
  from ts obtain d v where d: "dsub media ''info'' = Inr (PDict d)" "dsub d ''titles'' = Inr v" "rbind (as_list v) (mapr as_str) = Inr ts"
    unfolding info_titles_def by (cases "dsub media ''info''"; cases "projr (dsub media ''info'')") (auto simp: rbind_eq_Inr)
  then have "dgetd d ''titles'' (PList []) = v" "dhas d ''titles''" by (auto simp: dsub_def dgetd_def dhas_def split: option.splits)
  with q m d obtain vs where "v = PList vs" "getTitle (PDict media) = PStr t"
    "media' = dput media ''info'' (PDict (dput d ''titles'' (PList (PStr t # vs))))"
    by (auto simp: library_query_def Let_def rbind_eq_Inr split: pv.splits)
  with d that show thesis by (auto dest!: mapr_as_str)
qed

lemma getTitle_put:
  assumes d: "dsub media ''info'' = Inr (PDict d)" and t: "getTitle (PDict media) = PStr t"
  shows "getTitle (PDict (dput media ''info'' (PDict (dput d ''titles'' (PList (PStr t # ts)))))) = PStr t"
proof -
  let ?m = "dput media ''info'' (PDict (dput d ''titles'' (PList (PStr t # ts))))"
  have same: "vsub (PDict ?m) k = vsub (PDict media) k" if "k \<noteq> ''info''" for k using that by simp
  have new: "rbind (vsub (PDict ?m) ''info'') (\<lambda>i. rbind (vsub i ''titles'') first_title) = Inr (PStr t)"
    by (simp add: first_title_def nth_res_def)
  show ?thesis using t unfolding getTitle_def new
    by (cases "vsub (PDict media) ''title''"; cases "rbind (vsub (PDict media) ''titles'') first_title") (simp_all add: same)
qed

lemma calculate_again:
  assumes d: "dsub media ''info'' = Inr (PDict d)" "dsub d ''titles'' = Inr (PList (map PStr ts))" "getTitle (PDict media) = PStr t"
    and m: "media' = dput media ''info'' (PDict (dput d ''titles'' (PList (PStr t # map PStr ts))))"
    and run: "calculate gs extra nzb media w = (Inr x, w')"
    and k: "rbind (dsub nzb ''name'') as_str = Inr name" "title_points gs w name t = Inr k"
  shows "calculate gs extra nzb media' w = (Inr (x + of_int k), w')"
proof -
  have s: "search_words s e media' kind = search_words s e media kind" for s e kind
    by (simp add: m search_words_def category_words_def)
  have y: "rbind (dsub media' ''info'') (\<lambda>i. vsub i ''year'') = rbind (dsub media ''info'') (\<lambda>i. vsub i ''year'')"
    by (simp add: m d(1))
  have l: "mapr as_str (map PStr xs) = Inr xs" for xs by (induction xs) simp_all
  have i: "info_titles media' = Inr (t # ts)" "info_titles media = Inr ts" by (simp_all add: info_titles_def m d l)
  have g: "getTitle (PDict media') = getTitle (PDict media)" unfolding m d(3) by (rule getTitle_put [OF d(1,3)])
  obtain qs u where a: "catch (bnd all_qualities (\<lambda>qs. ret (Some qs))) (\<lambda>_. ret None) w = (Inr qs, u)"
    "qs = (case fst (all_qualities w) of Inr q \<Rightarrow> Some q | Inl _ \<Rightarrow> None)"
    by (cases "all_qualities w"; cases "fst (all_qualities w)") (simp_all add: py_simps)
  have p: "rbind (namePositionScore gs qs name t) (\<lambda>p. Inr (nameRatioScore name t + p)) = Inr k"
    using k(2) a(2) by (simp add: title_points_def)
  note steps = calculate_def bnd_ok_iff gets_run liftr_run Let_def a(1) i k(1)
  from run show ?thesis
    by (auto simp: steps s y g p ret_run [of "_ + _"] simp del: bnd_ret split del: if_split)
qed


text \<open>C21: asking \<open>library.query\<close> for the title of a movie, as every provider that searches by title does first,
  changes the score of what is found after it: the points of that title are added once more.\<close>

theorem asked_title_counts_again:
  assumes "library_query media True False = Inr (PStr t, media')" "dget media ''type'' = PStr ''movie''"
    and "info_titles media = Inr ts" "rbind (dsub nzb ''name'') as_str = Inr name" "title_points gs w name t = Inr k"
    and "calculate gs extra nzb media w = (Inr x, w')"
  shows "calculate gs extra nzb media' w = (Inr (x + of_int k), w')"
  by (rule query_media [OF assms(1-3)]) (rule calculate_again [OF _ _ _ _ assms(6,4,5)])


text \<open>A release with another name: nine points for the title, and eighteen when it was asked for.\<close>

definition asked_film :: doc where
  "asked_film = [(''type'', PStr ''movie''), (''info'', PDict [(''titles'', PList [PStr ''Movie'', PStr ''Movie'']), (''year'', PInt 2013)])]"

lemma demo_query: "library_query demo_film True False = Inr (PStr ''Movie'', asked_film)"
  by code_simp

lemma demo_points: "title_points gs demo_world ''Other'' ''Movie'' = Inr 9"
  by (simp add: title_points_def demo_position demo_names)

theorem asked_title_counts_again_witness:
  "fst (calculate (\<lambda>_. Inl ValueError) (\<lambda>_ _. ret 0) demo_hit demo_film demo_world) = Inr 9 \<and>
   fst (calculate (\<lambda>_. Inl ValueError) (\<lambda>_ _. ret 0) demo_hit asked_film demo_world) = Inr 18"
proof -
  obtain w' where run: "calculate (\<lambda>_. Inl ValueError) (\<lambda>_ _. ret 0) demo_hit demo_film demo_world = (Inr 9, w')"
    using demo_score [of "\<lambda>_. Inl ValueError" "\<lambda>_ _. ret 0"] by (cases "calculate (\<lambda>_. Inl ValueError) (\<lambda>_ _. ret 0) demo_hit demo_film demo_world") simp
  have "calculate (\<lambda>_. Inl ValueError) (\<lambda>_ _. ret 0) demo_hit asked_film demo_world = (Inr (9 + of_int 9), w')"
    by (rule asked_title_counts_again [OF demo_query _ _ _ demo_points run])
      (simp_all add: demo_film_def demo_hit_def dget_def dsub_def info_titles_def)
  with run show ?thesis by simp
qed

end
