(* ===== verification/Downloader.thy ===== *)
theory Downloader
  imports CheckSnatched Provider
begin

text \<open>
  couchpotato/core/_base/downloader/main.py, the class every download program's client extends, and
  couchpotato/core/downloaders/blackhole.py, the one that writes to a folder. The state \<open>dstate\<close> has the HTTP
  side, the file system and the order the list of torrent sources was last shuffled into. What a client's own
  class overrides is the record \<open>client\<close>; the handlers of the events \<open>download...\<close> call it.
\<close>

section \<open>State and class\<close>

record dstate =
  dlw :: web
  dlfs :: fsys
  torrent_sources :: "string list"

record denv =
  dl_net :: net
  shuffled :: "string list \<Rightarrow> string list"

text \<open>What a client has by itself, and what it overrides. \<open>download\<close> may change the dict of the release it is
  given: it is part of the state.\<close>

record client =
  c_plug :: plug
  c_option :: string
  c_protocol :: "string list"
  c_status_support :: bool

record methods = client +
  is_enabled :: "bool \<Rightarrow> doc \<Rightarrow> (dstate, bool) py"
  c_download :: "doc \<Rightarrow> page option \<Rightarrow> (dstate \<times> doc, pv) py"
  c_status :: "pv list \<Rightarrow> (dstate, pv) py"
  c_remove_failed :: "doc \<Rightarrow> (dstate, pv) py"
  c_process_complete :: "doc \<Rightarrow> pv \<Rightarrow> (dstate, pv) py"
  c_pause :: "doc \<Rightarrow> bool \<Rightarrow> (dstate, unit) py"
  c_test :: "(dstate, pv) py"

definition on_dw :: "(web, 'a) py \<Rightarrow> (dstate, 'a) py" where
  "on_dw m = (\<lambda>s. case m (dlw s) of (r, w) \<Rightarrow> (r, s\<lparr>dlw := w\<rparr>))"

definition on_df :: "(fsys, 'a) py \<Rightarrow> (dstate, 'a) py" where
  "on_df m = (\<lambda>s. case m (dlfs s) of (r, f) \<Rightarrow> (r, s\<lparr>dlfs := f\<rparr>))"

lemma on_dw_run [py_simps]: "on_dw m s = (case m (dlw s) of (r, w) \<Rightarrow> (r, s\<lparr>dlw := w\<rparr>))"
  by (simp add: on_dw_def)

lemma on_df_run [py_simps]: "on_df m s = (case m (dlfs s) of (r, f) \<Rightarrow> (r, s\<lparr>dlfs := f\<rparr>))"
  by (simp add: on_df_def)

definition in_d :: "('s, 'a) py \<Rightarrow> ('s \<times> doc, 'a) py" where
  "in_d m = (\<lambda>(s, data). case m s of (r, t) \<Rightarrow> (r, (t, data)))"

lemma in_d_run [py_simps]: "in_d m (s, data) = (case m s of (r, t) \<Rightarrow> (r, (t, data)))"
  by (simp add: in_d_def)

definition set_data :: "string \<Rightarrow> pv \<Rightarrow> ('s \<times> doc, unit) py" where
  "set_data k v = modify (\<lambda>(s, data). (s, dput data k v))"

definition dconf :: "('x client_scheme) \<Rightarrow> string \<Rightarrow> pv \<Rightarrow> dstate \<Rightarrow> pv" where
  "dconf d attr dflt s = get_setting (sett (bw (dlw s))) attr (conf_section (c_plug d)) dflt PNone"

section \<open>Is a client enabled?\<close>

definition plugin_enabled :: "('x client_scheme) \<Rightarrow> dstate \<Rightarrow> bool" where
  "plugin_enabled d s = (let v = dconf d (c_option d) PNone s in truthy v \<or> v = PNone)"

definition isCorrectProtocol :: "('x client_scheme) \<Rightarrow> pv \<Rightarrow> bool" where
  "isCorrectProtocol d protocol = (protocol \<in> PStr ` set (c_protocol d))"

definition base_enabled :: "('x client_scheme) \<Rightarrow> bool \<Rightarrow> doc \<Rightarrow> dstate \<Rightarrow> bool" where
  "base_enabled d manual data s =
     (let d_manual = dconf d ''manual'' (PBool False) s
      in plugin_enabled d s \<and> (truthy d_manual \<and> manual \<or> d_manual = PBool False) \<and>
         (data = [] \<or> isCorrectProtocol d (dget data ''protocol'')))"

fun enabled_protocol :: "('x methods_scheme) \<Rightarrow> string list \<Rightarrow> (dstate, string list) py" where
  "enabled_protocol d [] = ret []"
| "enabled_protocol d (p # ps) =
     bnd (is_enabled d True [(''protocol'', PStr p)]) (\<lambda>b. if b then ret (c_protocol d) else enabled_protocol d ps)"

definition base_getEnabledProtocol :: "('x methods_scheme) \<Rightarrow> (dstate, string list) py" where
  "base_getEnabledProtocol d = enabled_protocol d (c_protocol d)"

section \<open>The handlers\<close>

definition isDisabled :: "('x methods_scheme) \<Rightarrow> bool \<Rightarrow> doc \<Rightarrow> (dstate, bool) py" where
  "isDisabled d manual data = bnd (is_enabled d manual data) (\<lambda>b. ret (\<not> b))"

definition isEnabled_handler :: "('x methods_scheme) \<Rightarrow> bool \<Rightarrow> doc \<Rightarrow> (dstate, pv) py" where
  "isEnabled_handler d manual data = bnd (is_enabled d manual data) (\<lambda>b. ret (if b then PBool True else PNone))"

definition download_handler :: "('x methods_scheme) \<Rightarrow> doc \<Rightarrow> bool \<Rightarrow> page option \<Rightarrow> (dstate \<times> doc, pv) py" where
  "download_handler d media manual filedata =
     bnd (gets snd) (\<lambda>data.
     bnd (in_d (isDisabled d manual data)) (\<lambda>off. if off then ret PNone else c_download d media filedata))"

text \<open>\<open>release_download and release_download.get('downloader') == self.getName()\<close>.\<close>

definition is_mine :: "('x client_scheme) \<Rightarrow> doc \<Rightarrow> bool" where
  "is_mine d rd \<longleftrightarrow> rd \<noteq> [] \<and> dget rd ''downloader'' = PStr (p_name (c_plug d))"

definition my_ids :: "('x client_scheme) \<Rightarrow> doc list \<Rightarrow> pv list res" where
  "my_ids d download_ids = rbind (mapr (\<lambda>i. rbind (dsub i ''downloader'') (\<lambda>n.
     if n = PStr (p_name (c_plug d)) then rbind (dsub i ''id'') (\<lambda>v. Inr [v]) else Inr [])) download_ids) (\<lambda>vs. Inr (concat vs))"

definition status_handler :: "('x methods_scheme) \<Rightarrow> doc list \<Rightarrow> (dstate, pv) py" where
  "status_handler d download_ids =
     bnd (isDisabled d True []) (\<lambda>off. if off then ret PNone
       else bnd (liftr (my_ids d download_ids)) (\<lambda>ids. if ids = [] then ret PNone else c_status d ids))"

definition removeFailed_handler :: "('x methods_scheme) \<Rightarrow> doc \<Rightarrow> (dstate, pv) py" where
  "removeFailed_handler d rd =
     bnd (isDisabled d True []) (\<lambda>off.
     if off then ret PNone
     else if is_mine d rd
     then bnd (gets (\<lambda>s. truthy (dconf d ''delete_failed'' PNone s))) (\<lambda>b.
          if b then c_remove_failed d rd else ret (PBool False))
     else ret PNone)"

definition processComplete_handler :: "('x methods_scheme) \<Rightarrow> doc \<Rightarrow> (dstate, pv) py" where
  "processComplete_handler d rd =
     bnd (isDisabled d True []) (\<lambda>off.
     if off then ret PNone
     else if is_mine d rd
     then bnd (gets (\<lambda>s. (truthy (dconf d ''remove_complete'' (PBool False) s), dconf d ''delete_files'' (PBool False) s))) (\<lambda>(b, files).
          if b then c_process_complete d rd files else ret (PBool False))
     else ret PNone)"

definition pause_handler :: "('x methods_scheme) \<Rightarrow> doc \<Rightarrow> bool \<Rightarrow> (dstate, pv) py" where
  "pause_handler d rd paused =
     bnd (isDisabled d True []) (\<lambda>off.
     if off then ret PNone
     else if is_mine d rd then bnd (c_pause d rd paused) (\<lambda>_. ret (PBool True)) else ret (PBool False))"

definition test_handler :: "('x methods_scheme) \<Rightarrow> (dstate, pv) py" where
  "test_handler d = bnd (c_test d) (\<lambda>t. case t of
       PTup (a # b # _) \<Rightarrow> ret (PDict [(''success'', a), (''msg'', b)])
     | PTup _ \<Rightarrow> raise IndexError
     | _ \<Rightarrow> ret (PDict [(''success'', t)]))"

definition downloadReturnId :: "('x client_scheme) \<Rightarrow> pv \<Rightarrow> pv" where
  "downloadReturnId d i = PDict [(''downloader'', PStr (p_name (c_plug d))), (''status_support'', PBool (c_status_support d)), (''id'', i)]"

text \<open>\<open>ReleaseDownloadList\<close>: every status a client reports has these keys.\<close>

definition fill_status :: "('x client_scheme) \<Rightarrow> doc \<Rightarrow> doc" where
  "fill_status d result = merge_into False
     [(''id'', PInt 0), (''status'', PStr ''busy''), (''downloader'', PStr (p_name (c_plug d))), (''folder'', PStr []), (''files'', PList [])]
     result"

section \<open>A magnet link as a torrent\<close>

definition btih_re :: re where
  "btih_re = Seq (lit ''urn:btih:'') (Grp 1 (rep_between 32 40 wordc))"

text \<open>\<open>base64.b32decode\<close> of 32 characters: five bits each, 20 bytes; then as hexadecimal digits.\<close>

definition b32_val :: "char \<Rightarrow> nat option" where
  "b32_val c = (if is_upper_az c then Some (cp c - 65) else if c \<in> set ''234567'' then Some (cp c - 24) else None)"

fun b32_number :: "nat \<Rightarrow> string \<Rightarrow> nat res" where
  "b32_number acc [] = Inr acc"
| "b32_number acc (c # cs) = (case b32_val c of None \<Rightarrow> Inl ValueError | Some v \<Rightarrow> b32_number (32 * acc + v) cs)"

fun hex_digits :: "nat \<Rightarrow> nat \<Rightarrow> string" where
  "hex_digits 0 n = []"
| "hex_digits (Suc k) n = hex_digits k (n div 16) @ [pct_digit (n mod 16)]"

definition b32_to_hex :: "string \<Rightarrow> string res" where
  "b32_to_hex h = rbind (b32_number 0 h) (\<lambda>n. Inr (hex_digits 40 n))"

definition torrent_hash_of :: "pv \<Rightarrow> string res" where
  "torrent_hash_of magnet_link =
     rbind (as_str magnet_link) (\<lambda>m. case findall1 btih_re m of
       [] \<Rightarrow> Inl IndexError
     | h # _ \<Rightarrow> (let torrent_hash = map upper_char_az h
                in if length torrent_hash = 32 then b32_to_hex torrent_hash else Inr torrent_hash))"

text \<open>\<open>source % torrent_hash\<close>.\<close>

definition source_url :: "string \<Rightarrow> string \<Rightarrow> string" where
  "source_url source h = join h (split_on ''%s'' source)"

definition is_torrent :: "page \<Rightarrow> bool" where
  "is_torrent p = (case p of Bytes (c # _) \<Rightarrow> c = CHR ''d'' | _ \<Rightarrow> False)"

fun ask_sources :: "denv \<Rightarrow> ('x client_scheme) \<Rightarrow> string \<Rightarrow> string list \<Rightarrow> (dstate, page option) py" where
  "ask_sources e d h [] = ret None"
| "ask_sources e d h (source # sources) =
     bnd (catch (bnd (on_dw (urlopen (dl_net e) (c_plug d) (source_url source h)
              (plain_get\<lparr>o_headers := [(''Referer'', PStr (source_url source h))], show_error := False\<rparr>)))
            (\<lambda>p. ret (Some p))) (\<lambda>_. ret None)) (\<lambda>r.
       case r of
         Some p \<Rightarrow> if is_torrent p then ret (Some p) else ask_sources e d h sources
       | None \<Rightarrow> ask_sources e d h sources)"

definition magnetToTorrent :: "denv \<Rightarrow> ('x client_scheme) \<Rightarrow> pv \<Rightarrow> (dstate, page option) py" where
  "magnetToTorrent e d magnet_link =
     bnd (liftr (torrent_hash_of magnet_link)) (\<lambda>h.
     bnd (modify (\<lambda>s. s\<lparr>torrent_sources := shuffled e (torrent_sources s)\<rparr>)) (\<lambda>_.
     bnd (gets torrent_sources) (\<lambda>sources. ask_sources e d h sources)))"

section \<open>The file that is written\<close>

definition createFileName :: "world \<Rightarrow> doc \<Rightarrow> page \<Rightarrow> doc \<Rightarrow> string res" where
  "createFileName w data filedata media =
     rbind (createNzbName w data media) (\<lambda>nm.
     rbind (if dget data ''protocol'' \<noteq> PStr ''nzb'' then Inr False
            else rbind (fail_msg_in ''DOCTYPE nzb'' (Some filedata)) (\<lambda>a.
              if a then Inr False else rbind (fail_msg_in ''</nzb>'' (Some filedata)) (\<lambda>b. Inr (\<not> b)))) (\<lambda>rar.
     Inr (nm @ ''.'' @ (if rar then ''rar'' else fmt (dget data ''protocol'')))))"

section \<open>Blackhole\<close>

definition blackhole :: client where
  "blackhole = \<lparr>c_plug = \<lparr>p_name = ''Blackhole'',
       p_user_agent = ''Mozilla/5.0 (Macintosh; Intel Mac OS X 10.11; rv:45.0) Gecko/20100101 Firefox/45.0'',
       http_time_between_calls = 0\<rparr>,
     c_option = ''enabled'', c_protocol = [''nzb'', ''torrent'', ''torrent_magnet''], c_status_support = False\<rparr>"

definition bconf :: "string \<Rightarrow> dstate \<Rightarrow> pv" where
  "bconf attr s = dconf blackhole attr PNone s"

definition blackhole_enabled :: "bool \<Rightarrow> doc \<Rightarrow> (dstate, bool) py" where
  "blackhole_enabled manual data =
     bnd (liftr (if data = [] then Inr [''both'']
            else rbind (as_str (dget data ''protocol'')) (\<lambda>p. Inr [''both'', if contains ''torrent'' p then ''torrent'' else p]))) (\<lambda>for_protocol.
     gets (\<lambda>s. base_enabled blackhole manual data s \<and> bconf ''use_for'' s \<in> PStr ` set for_protocol))"

definition page_len :: "page \<Rightarrow> nat res" where
  "page_len p = (case p of Text t \<Rightarrow> Inr (length t) | Bytes b \<Rightarrow> Inr (length b) | Streamed _ \<Rightarrow> Inl TypeError
     | Sent (PStr t) \<Rightarrow> Inr (length t) | Sent (PList vs) \<Rightarrow> Inr (length vs) | Sent (PTup vs) \<Rightarrow> Inr (length vs)
     | Sent (PDict d) \<Rightarrow> Inr (length d) | Sent _ \<Rightarrow> Inl TypeError)"

text \<open>\<open>not filedata or len(filedata) < 50\<close>.\<close>

definition too_short :: "page option \<Rightarrow> bool res" where
  "too_short f = (case f of None \<Rightarrow> Inr True
     | Some p \<Rightarrow> if \<not> page_truthy p then Inr True else rbind (page_len p) (\<lambda>n. Inr (n < 50)))"

definition get_magnet :: "denv \<Rightarrow> page option \<Rightarrow> (dstate \<times> doc, page option) py" where
  "get_magnet e filedata =
     bnd (gets snd) (\<lambda>data.
     if dget data ''protocol'' \<noteq> PStr ''torrent_magnet'' then ret filedata
     else catch (bnd (in_d (magnetToTorrent e blackhole (dget data ''url''))) (\<lambda>f.
                 bnd (set_data ''protocol'' (PStr ''torrent'')) (\<lambda>_. ret f)))
            (\<lambda>_. ret filedata))"

text \<open>What is written; \<open>None\<close> where nothing is available.\<close>

definition release_file :: "denv \<Rightarrow> page option \<Rightarrow> (dstate \<times> doc, page option) py" where
  "release_file e filedata0 =
     bnd (liftr (too_short filedata0)) (\<lambda>short0.
     if \<not> short0 then ret filedata0 else
     bnd (get_magnet e filedata0) (\<lambda>filedata.
     bnd (liftr (too_short filedata)) (\<lambda>short.
     if \<not> short then ret filedata else
     bnd (in_d (gets (\<lambda>s. truthy (bconf ''magnet_file'' s)))) (\<lambda>magnet_file.
     if \<not> magnet_file then ret None else
     bnd (gets (\<lambda>(s, data). as_str (dget data ''url''))) (\<lambda>u.
     bnd (liftr u) (\<lambda>url.
     bnd (set_data ''protocol'' (PStr ''magnet'')) (\<lambda>_. ret (Some (Text (url @ [CHR 0x0A]))))))))))"

text \<open>The sub folder is used only when it is new.\<close>

definition place_in :: "string \<Rightarrow> string \<Rightarrow> (dstate, string) py" where
  "place_in full_path file_name =
     bnd (gets (\<lambda>s. truthy (bconf ''create_subdir'' s))) (\<lambda>sub_dir.
     if \<not> sub_dir then ret full_path else
     (let new_path = splitext_root full_path in
      catch (bnd (on_df (gets (\<lambda>fs. path_exists fs new_path))) (\<lambda>there.
             if there then ret full_path
             else bnd (on_df (os_makedirs new_path)) (\<lambda>_. ret (join_path new_path file_name))))
        (\<lambda>_. ret full_path)))"

text \<open>A text is encoded; what is neither text nor bytes raises once the file is open.\<close>

definition file_body :: "page \<Rightarrow> string option" where
  "file_body p = (case p of Text t \<Rightarrow> Some (concat (map (map char_of \<circ> utf8) t)) | Bytes b \<Rightarrow> Some b | _ \<Rightarrow> None)"

definition os_chmod :: "string \<Rightarrow> (fsys, unit) py" where
  "os_chmod p = simple_op (\<lambda>fs. if path_exists fs p then Some fs else None)"

definition write_release :: "string \<Rightarrow> page \<Rightarrow> (dstate, pv) py" where
  "write_release full_path filedata =
     catch (bnd (on_df (gets (\<lambda>fs. isfile fs full_path))) (\<lambda>there.
            bnd (if there then ret () else (case file_body filedata of
                   Some body \<Rightarrow> bnd (on_df (write_file full_path body)) (\<lambda>_. on_df (os_chmod full_path))
                 | None \<Rightarrow> bnd (on_df (write_file full_path [])) (\<lambda>_. raise TypeError))) (\<lambda>_.
            ret (downloadReturnId blackhole (PStr [])))))
       (\<lambda>_. ret (PBool False))"

definition blackhole_download :: "denv \<Rightarrow> doc \<Rightarrow> page option \<Rightarrow> (dstate \<times> doc, pv) py" where
  "blackhole_download e media filedata0 =
     bnd (in_d (gets (\<lambda>s. (bconf ''directory'' s, dlfs s)))) (\<lambda>(folder, fs). case folder of
       PStr directory \<Rightarrow>
         if directory = [] \<or> \<not> isdir fs directory then ret (PBool False)
         else catch
           (bnd (release_file e filedata0) (\<lambda>f. case f of
              None \<Rightarrow> ret (PBool False)
            | Some filedata \<Rightarrow>
                bnd (gets (\<lambda>(s, data). createFileName (bw (dlw s)) data filedata media)) (\<lambda>r.
                bnd (liftr r) (\<lambda>file_name.
                bnd (in_d (place_in (join_path directory file_name) file_name)) (\<lambda>full_path.
                in_d (write_release full_path filedata))))))
           (\<lambda>_. ret (PBool False))
     | _ \<Rightarrow> ret (PBool False))"

definition blackhole_test :: "(dstate, pv) py" where
  "blackhole_test =
     bnd (gets (\<lambda>s. (bconf ''directory'' s, dlfs s))) (\<lambda>(folder, fs). case folder of
       PStr directory \<Rightarrow>
         if directory = [] \<or> \<not> isdir fs directory then ret (PBool False)
         else (let test_file = sp (join_path directory ''couchpotato_test.txt'') in
           bnd (on_df (createFile test_file ''This is a test file'')) (\<lambda>_.
           bnd (on_df (gets (\<lambda>fs. isfile fs test_file))) (\<lambda>there.
           if there then bnd (on_df (os_remove test_file)) (\<lambda>_. ret (PBool True)) else ret (PBool False))))
     | _ \<Rightarrow> ret (PBool False))"

definition blackhole_methods :: "denv \<Rightarrow> methods" where
  "blackhole_methods e = client.extend blackhole
     \<lparr>is_enabled = blackhole_enabled, c_download = blackhole_download e, c_status = (\<lambda>_. ret (PList [])),
      c_remove_failed = (\<lambda>_. ret PNone), c_process_complete = (\<lambda>_ _. ret PNone), c_pause = (\<lambda>_ _. ret ()),
      c_test = blackhole_test\<rparr>"

definition blackhole_protocols :: "denv \<Rightarrow> (dstate, string list) py" where
  "blackhole_protocols e =
     bnd (gets (bconf ''use_for'')) (\<lambda>u.
     if u = PStr ''both'' then base_getEnabledProtocol (blackhole_methods e)
     else if u = PStr ''torrent'' then ret [''torrent'', ''torrent_magnet''] else ret [''nzb''])"


section \<open>The contract of a client\<close>

text \<open>To be enabled is only read. Then every handler of a client that is off answers nothing and changes nothing, and
  one that is told about another client's download leaves it alone.\<close>

locale client_class =
  fixes d :: methods
  assumes enabled_reads: "keeps (=) (is_enabled d manual data)"
begin

lemma enabled_run: "is_enabled d manual data s = (fst (is_enabled d manual data s), s)"
  using keepsD [OF enabled_reads, of s] by (metis prod.collapse)

lemma isDisabled_run: "isDisabled d manual data s = (map_sum id Not (fst (is_enabled d manual data s)), s)"
  by (subst enabled_run) (simp add: isDisabled_def py_simps enabled_run [symmetric] split: sum.split prod.split, metis enabled_run prod.inject)

lemma off_download:
  assumes "fst (is_enabled d manual data s) \<noteq> Inr True"
  shows "snd (download_handler d media manual f (s, data)) = (s, data) \<and>
    (\<forall>v. fst (download_handler d media manual f (s, data)) = Inr v \<longrightarrow> v = PNone)"
  using assms by (cases "fst (is_enabled d manual data s)") (auto simp: download_handler_def py_simps isDisabled_run)

lemma off_others:
  assumes "fst (is_enabled d True [] s) \<noteq> Inr True"
  shows "snd (status_handler d ids s) = s" "snd (removeFailed_handler d rd s) = s"
    "snd (processComplete_handler d rd s) = s" "snd (pause_handler d rd b s) = s"
  using assms by (cases "fst (is_enabled d True [] s)";
      simp add: status_handler_def removeFailed_handler_def processComplete_handler_def pause_handler_def py_simps isDisabled_run)+

lemma not_mine:
  assumes "\<not> is_mine d rd"
  shows "snd (removeFailed_handler d rd s) = s" "snd (processComplete_handler d rd s) = s" "snd (pause_handler d rd b s) = s"
  using assms by (cases "fst (is_enabled d True [] s)";
      simp add: removeFailed_handler_def processComplete_handler_def pause_handler_def py_simps isDisabled_run)+

end

interpretation bh: client_class "blackhole_methods e" for e
  by unfold_locales
    (auto simp: keeps_def blackhole_methods_def client.defs blackhole_enabled_def py_simps split: sum.split)

section \<open>What Blackhole writes\<close>

text \<open>C19: a release that a usenet provider fetched is never written to the folder: the test for its kind looks for a
  text in the bytes of the file, and the download fails.\<close>

theorem blackhole_loses_nzbs:
  assumes "dget data ''protocol'' = PStr ''nzb''" "50 \<le> length body"
  shows "blackhole_download e media (Some (Bytes body)) (s, data) = (Inr (PBool False), (s, data))"
proof -
  have "too_short (Some (Bytes body)) = Inr False" using assms(2) by (auto simp: too_short_def page_len_def)
  moreover have "\<exists>x. createFileName (bw (dlw s)) data (Bytes body) media = Inl x"
    using assms(1) by (cases "createNzbName (bw (dlw s)) data media") (simp_all add: createFileName_def fail_msg_in_def)
  ultimately show ?thesis
    by (auto simp: blackhole_download_def release_file_def py_simps split: pv.split)
qed

text \<open>Files that are there stay as they are.\<close>

definition same_files :: "fsys \<Rightarrow> fsys \<Rightarrow> bool" where
  "same_files f g \<longleftrightarrow> (\<forall>p mb tm b. node_at f p = Some (Regular mb tm b) \<longrightarrow> node_at g p = Some (Regular mb tm b))"

interpretation sf: frame same_files
  by unfold_locales (auto simp: same_files_def)

lemma os_makedirs_nodes: "nodes (snd (os_makedirs p fs)) = nodes fs"
  by (auto simp: os_makedirs_def simple_op_def FileSys.attempt_def py_simps split: fault.split option.split)

lemma regular_isfile: "node_at fs p = Some (Regular mb tm b) \<Longrightarrow> isfile fs p"
  by (simp add: isfile_def file_at_def)

lemma follow_nodes: "nodes f = nodes g \<Longrightarrow> follow n f p = follow n g p"
  by (induction n arbitrary: p) (simp_all add: node_at_def split: option.split node.split)

lemma isfile_nodes: "nodes f = nodes g \<Longrightarrow> isfile f p = isfile g p"
  using follow_nodes [of f g] by (simp add: isfile_def file_at_def)

lemma write_file_steps:
  "write_file p body fs = (r, fs') \<Longrightarrow> \<not> isfile fs p \<Longrightarrow> same_files fs fs' \<and>
     (r = Inr () \<longrightarrow> node_at fs' p = Some (Regular (text_mb body) (f_clock fs) body))"
  by (auto simp: write_file_def FileSys.attempt_def py_simps same_files_def put_node_def node_at_def update_conv' isfile_def file_at_def
      split: if_splits fault.splits)

lemma on_dw_files: "dlfs (snd (on_dw m s)) = dlfs s"
  by (simp add: on_dw_def split: prod.split)

lemma ask_sources_files: "dlfs (snd (ask_sources e d h sources s)) = dlfs s"
proof (induction sources arbitrary: s)
  case (Cons x xs)
  then show ?case
    using on_dw_files by (auto simp: py_simps split: prod.split sum.split option.split)
qed (simp add: ret_run)

lemma release_file_files: "release_file e f (s, data) = (r, (t, data')) \<Longrightarrow> dlfs t = dlfs s"
proof -
  have m: "dlfs (snd (magnetToTorrent e d l u)) = dlfs u" for d :: client and l u
    by (auto simp: magnetToTorrent_def py_simps ask_sources_files split: sum.split)
  have g: "dlfs (fst (snd (get_magnet e f (u, d)))) = dlfs u" for u d
    using m [of blackhole "dget d ''url''" u]
    by (auto simp: get_magnet_def set_data_def py_simps split: sum.split prod.split)
  assume "release_file e f (s, data) = (r, (t, data'))"
  with g [of s data] show ?thesis
    by (auto simp: release_file_def set_data_def py_simps split: if_splits sum.splits prod.splits)
qed

lemma os_chmod_nodes: "nodes (snd (os_chmod p fs)) = nodes fs"
  by (simp add: os_chmod_def simple_op_def FileSys.attempt_def py_simps)

lemma write_release_steps:
  assumes "write_release p pg s = (r, t)"
  shows "same_files (dlfs s) (dlfs t) \<and> (r = Inr (PBool False) \<or> r = Inr (downloadReturnId blackhole (PStr [])) \<and>
     (isfile (dlfs s) p \<or> (\<exists>b. file_body pg = Some b \<and> node_at (dlfs t) p = Some (Regular (text_mb b) (f_clock (dlfs s)) b))))"
proof (cases "isfile (dlfs s) p")
  case True
  with assms show ?thesis by (auto simp: write_release_def py_simps sf.frame_refl)
next
  case False
  show ?thesis
  proof (cases "file_body pg")
    case None
    obtain r1 f1 where w: "write_file p [] (dlfs s) = (r1, f1)" by (cases "write_file p [] (dlfs s)")
    from write_file_steps [OF w False] assms False None w show ?thesis
      by (cases r1) (auto simp: write_release_def py_simps)
  next
    case (Some b)
    obtain r1 f1 where w: "write_file p b (dlfs s) = (r1, f1)" by (cases "write_file p b (dlfs s)")
    have "nodes (dlfs t) = nodes f1 \<and> (r = Inr (PBool False) \<or> r1 = Inr () \<and> r = Inr (downloadReturnId blackhole (PStr [])))"
      using assms False Some w os_chmod_nodes [of p f1]
      by (cases r1) (auto simp: write_release_def py_simps split: prod.splits sum.splits)
    with write_file_steps [OF w False] Some show ?thesis by (auto simp: same_files_def node_at_def)
  qed
qed

lemma place_in_steps:
  assumes "place_in p n s = (r, t)"
  shows "nodes (dlfs t) = nodes (dlfs s) \<and> (\<forall>q. r = Inr q \<longrightarrow> q = p \<or> q = join_path (splitext_root p) n)"
  using assms os_makedirs_nodes
  by (auto simp: place_in_def Let_def py_simps split: if_splits prod.splits sum.splits) (metis snd_conv)+

text \<open>C20: Blackhole changes no file that is there; and when it says that it has a release, the release is in the
  folder of the settings or in a folder of its name below it, with the content that was fetched, unless a file of
  that name was there before.\<close>

theorem blackhole_writes_once:
  assumes run: "blackhole_download e media f (s, data) = (r, (t, data'))"
  shows "same_files (dlfs s) (dlfs t) \<and> (r = Inr (PBool False) \<or>
    (\<exists>dir nm pg u p. r = Inr (downloadReturnId blackhole (PStr [])) \<and> bconf ''directory'' s = PStr dir \<and> isdir (dlfs s) dir \<and>
       release_file e f (s, data) = (Inr (Some pg), (u, data')) \<and> createFileName (bw (dlw u)) data' pg media = Inr nm \<and>
       p \<in> {join_path dir nm, join_path (splitext_root (join_path dir nm)) nm} \<and>
       (isfile (dlfs s) p \<or> (\<exists>b mb tm. file_body pg = Some b \<and> node_at (dlfs t) p = Some (Regular mb tm b)))))"
proof (cases "\<exists>dir. bconf ''directory'' s = PStr dir \<and> dir \<noteq> [] \<and> isdir (dlfs s) dir")
  case False
  with run show ?thesis by (auto simp: blackhole_download_def py_simps sf.frame_refl split: pv.splits if_splits)
next
  case True
  then obtain dir where dir: "bconf ''directory'' s = PStr dir" "dir \<noteq> []" "isdir (dlfs s) dir" by blast
  obtain r1 u data1 where rf: "release_file e f (s, data) = (r1, (u, data1))" by (cases "release_file e f (s, data)") auto
  have u: "dlfs u = dlfs s" by (rule release_file_files [OF rf])
  have su: "same_files (dlfs s) (dlfs u)" by (simp add: u sf.frame_refl)
  note start = blackhole_download_def py_simps dir rf
  consider (none) "\<exists>x. r1 = Inl x \<or> r1 = Inr None" | (some) pg where "r1 = Inr (Some pg)" by (cases r1) auto
  then show ?thesis
  proof cases
    case none
    with run su show ?thesis by (auto simp: start)
  next
    case some
    show ?thesis
    proof (cases "createFileName (bw (dlw u)) data1 pg media")
      case (Inl x)
      with run some su show ?thesis by (auto simp: start)
    next
      case (Inr nm)
      obtain r2 v where pl: "place_in (join_path dir nm) nm u = (r2, v)" by (cases "place_in (join_path dir nm) nm u")
      note place = place_in_steps [OF pl]
      have sv: "same_files (dlfs s) (dlfs v)" using place u by (simp add: same_files_def node_at_def)
      have there: "isfile (dlfs v) p = isfile (dlfs s) p" for p by (rule isfile_nodes) (use place u in simp)
      show ?thesis
      proof (cases r2)
        case (Inl x)
        with run some Inr pl sv show ?thesis by (auto simp: start)
      next
        case (Inr p)
        obtain r3 w where wr: "write_release p pg v = (r3, w)" by (cases "write_release p pg v")
        note steps = write_release_steps [OF wr]
        have "r = r3" "t = w" "data' = data1"
          using run some \<open>createFileName _ _ _ _ = _\<close> Inr pl wr steps by (auto simp: start)
        with steps sv place some rf \<open>createFileName _ _ _ _ = _\<close> dir Inr there show ?thesis
          by (auto intro: sf.frame_trans)
      qed
    qed
  qed
qed

section \<open>Examples\<close>

definition watch_settings :: settings where
  "watch_settings = demo_settings\<lparr>parser := [(''blackhole'', [(''directory'', PStr ''/watch'')])]\<rparr>"

definition watch_fs :: fsys where
  "watch_fs = \<lparr>nodes = [(''/watch/Old.torrent'', Regular 1 0 ''d'')], folders = [''/watch''], f_clock = 7, f_order = id,
     f_fault = (\<lambda>_. Works), f_ops = 0\<rparr>"

definition watch_state :: dstate where
  "watch_state = \<lparr>dlw = demo_web\<lparr>bw := demo_world\<lparr>sett := watch_settings\<rparr>\<rparr>, dlfs = watch_fs, torrent_sources = []\<rparr>"

definition watch_env :: denv where
  "watch_env = \<lparr>dl_net = demo_net, shuffled = id\<rparr>"

definition torrent_data :: doc where
  "torrent_data = [(''protocol'', PStr ''torrent''), (''name'', PStr ''Movie 2013'')]"

definition torrent_body :: string where
  "torrent_body = CHR ''d'' # replicate 60 (CHR ''e'')"

lemma watch_conf:
  "get_setting watch_settings ''directory'' ''blackhole'' PNone PNone = PStr ''/watch''"
  "get_setting watch_settings ''create_subdir'' ''blackhole'' PNone PNone = PNone"
  "get_setting watch_settings ''enabled'' ''renamer'' (PStr []) PNone = PStr []"
  "conf_section (c_plug blackhole) = ''blackhole''"
  by code_simp+

theorem blackhole_loses_nzbs_witness:
  "blackhole_download watch_env [] (Some (Bytes torrent_body)) (watch_state, [(''protocol'', PStr ''nzb'')])
     = (Inr (PBool False), (watch_state, [(''protocol'', PStr ''nzb'')]))"
  by (rule blackhole_loses_nzbs) (simp_all add: dget_def torrent_body_def)

lemma watch_name: "createFileName (bw (dlw watch_state)) torrent_data (Bytes torrent_body) [] = Inr ''Movie 2013.torrent''"
proof -
  have "get_setting watch_settings ''enabled'' ''renamer'' PNone PNone = PNone" by code_simp
  then have "cpTag (bw (dlw watch_state)) [] = Inr []" by (simp add: cpTag_def conf_def watch_state_def)
  moreover have "scanForPassword ''Movie 2013'' = None" "toSafeString (take_upto 127 ''Movie 2013'') = ''Movie 2013''" by code_simp+
  ultimately show ?thesis by (simp add: createFileName_def createNzbName_def torrent_data_def dget_def)
qed

lemma watch_run:
  "\<exists>t. blackhole_download watch_env [] (Some (Bytes torrent_body)) (watch_state, torrent_data)
       = (Inr (downloadReturnId blackhole (PStr [])), (t, torrent_data)) \<and>
     node_at (dlfs t) ''/watch/Movie 2013.torrent'' = Some (Regular (text_mb torrent_body) 7 torrent_body)"
proof -
  have b: "bconf ''directory'' watch_state = PStr ''/watch''" "bconf ''create_subdir'' watch_state = PNone"
    using watch_conf by (simp_all add: bconf_def dconf_def watch_state_def)
  have p: "dirname ''/watch/Movie 2013.torrent'' = ''/watch''" "join_path ''/watch'' ''Movie 2013.torrent'' = ''/watch/Movie 2013.torrent''"
    by code_simp+
  have l: "too_short (Some (Bytes torrent_body)) = Inr False" by (simp add: too_short_def page_len_def torrent_body_def)
  have f: "isdir (dlfs watch_state) ''/watch''" "\<not> isdir (dlfs watch_state) ''/watch/Movie 2013.torrent''"
    "\<not> isfile (dlfs watch_state) ''/watch/Movie 2013.torrent''" "f_fault (dlfs watch_state) n = Works" "f_clock (dlfs watch_state) = 7" for n
    by (simp_all add: isdir_def isfile_def file_at_def node_at_def watch_state_def watch_fs_def)
  have w: "isfile (fs\<lparr>nodes := AList.update p (Regular mb tm body) ns, f_ops := n\<rparr>) p" for fs p mb tm body ns n
    by (simp add: isfile_def file_at_def node_at_def update_conv')
  show ?thesis
    using f by (simp add: w blackhole_download_def py_simps b p l release_file_def watch_name place_in_def write_release_def
        file_body_def write_file_def os_chmod_def simple_op_def path_exists_def FileSys.attempt_def isdir_def node_at_def put_node_def update_conv')
qed

theorem blackhole_writes_once_witness:
  "\<exists>t. blackhole_download watch_env [] (Some (Bytes torrent_body)) (watch_state, torrent_data)
       = (Inr (downloadReturnId blackhole (PStr [])), (t, torrent_data)) \<and>
     node_at (dlfs t) ''/watch/Old.torrent'' = Some (Regular 1 0 ''d'')"
proof -
  obtain t where run: "blackhole_download watch_env [] (Some (Bytes torrent_body)) (watch_state, torrent_data)
      = (Inr (downloadReturnId blackhole (PStr [])), (t, torrent_data))" using watch_run by blast
  moreover have "same_files (dlfs watch_state) (dlfs t)" using blackhole_writes_once [OF run] by blast
  then have "node_at (dlfs t) ''/watch/Old.torrent'' = Some (Regular 1 0 ''d'')"
    by (simp add: same_files_def node_at_def watch_state_def watch_fs_def)
  ultimately show ?thesis by blast
qed

end
