(* ===== verification/Notifier.thy ===== *)
theory Notifier
  imports Manage Provider
begin

text \<open>
  couchpotato/core/notifications/core/main.py and base.py: the notifications in the database, and the messages the
  browser polls for. A browser that waits is a listener: a number for its callback and the id of the last
  message it has. What \<open>main_ioloop.add_callback\<close> and \<open>callback\<close> are given is the trace \<open>delivered\<close>. Every
  operation below that takes the lock \<open>m_lock\<close> is one step; \<open>addListener\<close> takes it twice and is two steps.
\<close>

section \<open>State\<close>

record notifier =
  nw :: world
  messages :: "doc list"
  listeners :: "(nat \<times> pv) list"
  delivered :: "(nat \<times> doc list) list"
  message_ids :: "nat \<Rightarrow> string"
  ids_drawn :: nat

definition on_nw :: "(world, 'a) py \<Rightarrow> (notifier, 'a) py" where
  "on_nw m = (\<lambda>s. case m (nw s) of (r, w) \<Rightarrow> (r, s\<lparr>nw := w\<rparr>))"

lemma on_nw_run [py_simps]: "on_nw m s = (case m (nw s) of (r, w) \<Rightarrow> (r, s\<lparr>nw := w\<rparr>))"
  by (simp add: on_nw_def)

definition ntime :: "notifier \<Rightarrow> int" where
  "ntime s = now (nw s)"

section \<open>Notifications in the database\<close>

text \<open>Four weeks and older are removed at the start of the program.\<close>

definition clean_old :: "hit \<Rightarrow> (world, unit) py" where
  "clean_old h =
     bnd (liftr (num_res (dgetd (hit_doc h) ''time'' (PInt 0)))) (\<lambda>t.
     bnd (gets now) (\<lambda>n. whenp (t \<le> of_int (n - 2419200)) (bnd (on_db (db_delete (hit_doc h))) (\<lambda>_. ret ()))))"

definition notify_clean :: "(world, unit) py" where
  "notify_clean = catch (bnd (on_db (db_all ''notification'' (- 1) 0)) (\<lambda>hs. for_each hs clean_old)) (\<lambda>_. ret ())"

definition mark_read :: "string list \<Rightarrow> hit \<Rightarrow> (world, unit) py" where
  "mark_read ids h = whenp (ids = [] \<or> hit_id h \<in> PStr ` set ids)
     (bnd (on_db (db_update (dput (hit_doc h) ''read'' (PBool True)))) (\<lambda>_. ret ()))"

definition markAsRead :: "string \<Rightarrow> (world, pv) py" where
  "markAsRead ids0 =
     (let ids = (if ids0 = [] then [] else splitString ids0 '','' True) in
      catch (bnd (on_db (db_all ''notification_unread'' (- 1) 0)) (\<lambda>hs.
             bnd (for_each hs (mark_read ids)) (\<lambda>_. ret (PDict [(''success'', PBool True)]))))
        (\<lambda>_. ret (PDict [(''success'', PBool False)])))"

text \<open>An offset below zero is never reached: the index runs to its end.\<close>

definition notes_page :: "int \<Rightarrow> int \<Rightarrow> (world, hit list) py" where
  "notes_page limit offset =
     (if offset < 0 then ret [] else on_db (db_all ''notification'' limit (nat offset)))"

definition notification_listView :: "string \<Rightarrow> (world, pv) py" where
  "notification_listView limit_offset =
     bnd (if limit_offset = [] then notes_page 200 0
          else (let splt = splitString limit_offset '','' True in
            bnd (liftr (nth_res splt 0)) (\<lambda>a.
            bnd (if length splt = 1 then ret 0 else bnd (liftr (nth_res splt 1)) (\<lambda>b. ret (tryInt (PStr b) 0))) (\<lambda>offset.
            notes_page (tryInt (PStr a) 0) offset)))) (\<lambda>hs.
     let notifications = map (PDict \<circ> hit_doc) hs in
     ret (PDict [(''success'', PBool True), (''empty'', PBool (notifications = [])), (''notifications'', PList notifications)]))"

section \<open>Messages for the browser\<close>

text \<open>All listeners are told, the last one first, and forgotten; at shutdown they are forgotten untold.\<close>

fun tell :: "doc \<Rightarrow> (nat \<times> pv) list \<Rightarrow> (notifier, unit) py" where
  "tell msg [] = ret ()"
| "tell msg (l # ls) =
     bnd (on_nw stopping) (\<lambda>stop.
     if stop then ret ()
     else bnd (modify (\<lambda>s. s\<lparr>delivered := delivered s @ [(fst l, [msg])]\<rparr>)) (\<lambda>_. tell msg ls))"

definition new_message :: "pv \<Rightarrow> doc \<Rightarrow> pv \<Rightarrow> notifier \<Rightarrow> doc" where
  "new_message mtype data msg s =
     [(''message_id'', PStr (message_ids s (ids_drawn s))), (''time'', PInt (ntime s)), (''type'', mtype), (''data'', PDict data),
      (''message'', msg)]"

definition frontend :: "pv \<Rightarrow> doc \<Rightarrow> pv \<Rightarrow> (notifier, unit) py" where
  "frontend mtype data msg =
     bnd (gets (new_message mtype data msg)) (\<lambda>m.
     bnd (modify (\<lambda>s. s\<lparr>ids_drawn := Suc (ids_drawn s), messages := messages s @ [m]\<rparr>)) (\<lambda>_.
     bnd (gets listeners) (\<lambda>ls.
     bnd (tell m (rev ls)) (\<lambda>_.
     modify (\<lambda>s. s\<lparr>listeners := []\<rparr>)))))"

text \<open>\<open>list(map(itemgetter('message_id'), messages)).index(last_id)\<close>: nothing when the id is not there.\<close>

definition after_id :: "pv \<Rightarrow> doc list \<Rightarrow> doc list" where
  "after_id last_id ms = drop 1 (dropWhile (\<lambda>m. \<not> pv_eq (dget m ''message_id'') last_id) ms)"

definition getMessages :: "pv \<Rightarrow> (notifier, doc list) py" where
  "getMessages last_id = gets (\<lambda>s. after_id last_id (messages s))"

definition add_waiting :: "nat \<Rightarrow> pv \<Rightarrow> (notifier, unit) py" where
  "add_waiting cb last_id = modify (\<lambda>s. s\<lparr>listeners := listeners s @ [(cb, last_id)]\<rparr>)"

text \<open>The first step of \<open>addListener\<close>; \<open>True\<close> when the answer went out and there is no second step.\<close>

definition poll :: "nat \<Rightarrow> pv \<Rightarrow> (notifier, bool) py" where
  "poll cb last_id =
     (if \<not> truthy last_id then ret False
      else bnd (getMessages last_id) (\<lambda>ms.
        if ms = [] then ret False
        else bnd (modify (\<lambda>s. s\<lparr>delivered := delivered s @ [(cb, ms)]\<rparr>)) (\<lambda>_. ret True)))"

definition addListener :: "nat \<Rightarrow> pv \<Rightarrow> (notifier, unit) py" where
  "addListener cb last_id = bnd (poll cb last_id) (\<lambda>answered. if answered then ret () else add_waiting cb last_id)"

definition removeListener :: "nat \<Rightarrow> (notifier, unit) py" where
  "removeListener cb = modify (\<lambda>s. s\<lparr>listeners := filter (\<lambda>l. fst l \<noteq> cb) (listeners s)\<rparr>)"

text \<open>Every 15 seconds the messages that are 15 seconds old go.\<close>

definition cleanMessages :: "(notifier, unit) py" where
  "cleanMessages = modify (\<lambda>s. s\<lparr>messages :=
     filter (\<lambda>m. case dget m ''time'' of PInt t \<Rightarrow> ntime s - 15 < t | _ \<Rightarrow> False) (messages s)\<rparr>)"

text \<open>The first request of a browser: the notifications of the last week.\<close>

definition listener_view :: "bool \<Rightarrow> (notifier, pv) py" where
  "listener_view init =
     bnd (if \<not> init then ret [] else
       on_nw (bnd (on_db (db_all ''notification'' (- 1) 0)) (\<lambda>hs.
         for_acc hs [] (\<lambda>h acc.
           catch (bnd (liftr (as_str (hit_id h))) (\<lambda>i.
                  bnd (on_db (db_get i)) (\<lambda>d.
                  bnd (liftr (num_res (dget d ''time''))) (\<lambda>t.
                  bnd (gets now) (\<lambda>n. ret (Go (if of_int (n - 604800) < t then acc @ [PDict d] else acc)))))))
             (\<lambda>x. if x = RecordDeleted then ret (Go acc) else raise x))))) (\<lambda>ms.
     ret (PDict [(''success'', PBool True), (''result'', PList ms)]))"

section \<open>Sending\<close>

text \<open>\<open>notify\<close> of the core: the document in the database, and a message. \<open>None\<close> when something raised.\<close>

definition notify :: "pv \<Rightarrow> doc \<Rightarrow> pv \<Rightarrow> (notifier, pv) py" where
  "notify message data listener =
     bnd (gets ntime) (\<lambda>t.
     let n = [(''_t'', PStr ''notification''), (''time'', PInt t), (''message'', message)]
       @ (if truthy (dget data ''sticky'') then [(''sticky'', PBool True)] else [])
       @ (if truthy (dget data ''important'') then [(''important'', PBool True)] else []) in
     catch (bnd (on_nw (on_db (db_insert n))) (\<lambda>r.
            bnd (frontend listener (dupdate n r) PNone) (\<lambda>_. ret (PBool True))))
       (\<lambda>_. ret PNone))"

text \<open>base.py: a client of a notification service listens to the events of \<open>listen_to\<close> that are not in
  \<open>dont_listen_to\<close>; \<open>notify_by\<close> is its own \<open>notify\<close>.\<close>

definition core_listen_to :: "string list" where
  "core_listen_to = [''media.available'', ''renamer.after'', ''movie.snatched'', ''updater.available'', ''updater.updated'',
     ''updater.failed'', ''core.message'', ''core.message.important'']"

definition service_listen_to :: "string list" where
  "service_listen_to = filter (\<lambda>l. l \<noteq> ''core.message'') core_listen_to"

definition listens :: "string list \<Rightarrow> string list \<Rightarrow> string \<Rightarrow> bool" where
  "listens listen_to dont_listen_to l \<longleftrightarrow> l \<in> set listen_to \<and> l \<notin> set dont_listen_to"

definition nconf :: "plug \<Rightarrow> string \<Rightarrow> pv \<Rightarrow> notifier \<Rightarrow> pv" where
  "nconf p attr dflt s = get_setting (sett (nw s)) attr (conf_section p) dflt PNone"

definition notify_if_enabled ::
  "plug \<Rightarrow> (pv \<Rightarrow> doc \<Rightarrow> pv \<Rightarrow> (notifier, pv) py) \<Rightarrow> pv \<Rightarrow> doc \<Rightarrow> pv \<Rightarrow> (notifier, pv) py" where
  "notify_if_enabled p notify_by message data listener =
     bnd (gets (nconf p ''enabled'' PNone)) (\<lambda>v. if truthy v \<or> v = PNone then notify_by message data listener else ret (PBool False))"

definition notify_handler ::
  "plug \<Rightarrow> (pv \<Rightarrow> doc \<Rightarrow> pv \<Rightarrow> (notifier, pv) py) \<Rightarrow> string \<Rightarrow> pv \<Rightarrow> doc \<Rightarrow> doc \<Rightarrow> (notifier, pv) py" where
  "notify_handler p notify_by listener message grp0 data =
     bnd (gets (nconf p ''on_snatch'' (PBool True))) (\<lambda>on_snatch.
     if \<not> truthy on_snatch \<and> listener = ''movie.snatched'' then ret PNone
     else notify_if_enabled p notify_by message (if data \<noteq> [] then data else grp0) (PStr listener))"

definition test_notify :: "plug \<Rightarrow> (pv \<Rightarrow> doc \<Rightarrow> pv \<Rightarrow> (notifier, pv) py) \<Rightarrow> (notifier, pv) py" where
  "test_notify p notify_by = bnd (notify_if_enabled p notify_by (PStr ''ZOMG Lazors Pewpewpew!'') [] (PStr ''test'')) (\<lambda>v.
     ret (PDict [(''success'', v)]))"

section \<open>Messages from the project\<close>

definition one_message :: "pv \<Rightarrow> rat \<Rightarrow> (world, rat ctl) py" where
  "one_message v last_check =
     bnd (liftr (as_dict v)) (\<lambda>message.
     bnd (liftr (num_res (dget message ''time''))) (\<lambda>t.
     bnd (if last_check < t
          then (let m = dput message ''sticky'' (PBool True) in
            fire_unit (if truthy (dget m ''important'') then ''core.message.important'' else ''core.message'') [dget m ''message'', PDict m])
          else ret ()) (\<lambda>_.
     ret (Go (if last_check < t then t else last_check)))))"

definition fmt_num :: "rat \<Rightarrow> string" where
  "fmt_num x = (if of_int (floor x) = x then str_of_int (floor x) else fmt (PFloat x))"

definition checkMessages :: "(world, unit) py" where
  "checkMessages =
     bnd (on_db (getProperty ''messages.last_check'')) (\<lambda>p.
     let last_check = tryInt (if truthy p then p else PInt 0) 0 in
     bnd (fire ''cp.messages'' [PInt last_check]) (\<lambda>v.
     bnd (liftr (as_list (or_empty v (PList [])))) (\<lambda>ms.
     bnd (for_acc ms (of_int last_check) one_message) (\<lambda>last.
     on_db (setProperty ''messages.last_check'' (fmt_num last))))))"

section \<open>What is marked as read\<close>

definition unread :: "doc \<Rightarrow> bool" where
  "unread d \<longleftrightarrow> is_type d ''notification'' \<and> \<not> truthy (dget d ''read'')"

lemma unread_entries:
  "map (\<lambda>e. hit_doc (mk_hit e)) (index_entries NotificationUnreadIndex ds) = filter unread ds"
  by (induction ds) (simp_all add: index_entries_def NotificationUnreadIndex_def unread_def mk_hit_def)

lemma split_empty: "splitString [] '','' True = []"
  by code_simp

lemma for_each_cong: "(\<And>x. x \<in> set xs \<Longrightarrow> f x = g (h x)) \<Longrightarrow> for_each xs f = for_each (map h xs) g"
  by (induction xs) simp_all

text \<open>Marking notifications as read sets \<open>read\<close> on exactly the unread notifications that are named, or on all of them
  when none is named, and changes nothing else in the database.\<close>

theorem markAsRead_exactly:
  assumes ok: "w_ok w"
  shows "\<exists>w'. markAsRead ids0 w = (Inr (PDict [(''success'', PBool True)]), w') \<and> w_ok w' \<and>
    (\<forall>j d. w_live w j = Some d \<longrightarrow> (\<exists>d2. w_live w' j = Some d2 \<and>
       (\<forall>k. k \<noteq> ''_rev'' \<longrightarrow> k \<noteq> ''read'' \<longrightarrow> dget d2 k = dget d k) \<and>
       dget d2 ''read'' = (if unread d \<and> (splitString ids0 '','' True = [] \<or> j \<in> set (splitString ids0 '','' True))
         then PBool True else dget d ''read'')))"
proof -
  define ids where "ids = (if ids0 = [] then [] else splitString ids0 '','' True)"
  define hs where "hs = sorted_by (\<lambda>h. key_rank (hit_key h)) (map mk_hit (index_entries NotificationUnreadIndex (live_docs (store w))))"
  define ds where "ds = map hit_doc hs"
  let ?P = "\<lambda>d. ids = [] \<or> dget d ''_id'' \<in> PStr ` set ids"
  have all: "on_db (db_all ''notification_unread'' (- 1) 0) w = (Inr hs, w)"
    by (simp add: py_simps db_all_def take_limit_def hs_def)
  have dok: "db_ok (store w)" using ok by (simp add: w_ok_def)
  have m: "mset ds = mset (filter unread (live_docs (store w)))"
    by (simp add: ds_def hs_def unread_entries [symmetric] image_mset.compositionality comp_def)
  then have sd: "set ds = set (filter unread (live_docs (store w)))" by (rule mset_eq_setD)
  have "mset (map doc_id ds) = mset (map doc_id (filter unread (live_docs (store w))))" using m by (simp add: mset_map)
  then have dist: "distinct (map doc_id ds)"
    using distinct_map_filter [OF distinct_live_docs [OF dok]] mset_eq_imp_distinct_iff by blast
  have lv: "w_live w (doc_id d) = Some d" if "d \<in> set (live_docs (store w))" for d
  proof -
    from that set_live_docs [OF dok] obtain i where i: "live (store w) i = Some d" by blast
    with dbs.meta_law [OF dok i] show ?thesis by (simp add: w_live_def doc_id_def)
  qed
  have "hit_id h = dget (hit_doc h) ''_id''" if "h \<in> set hs" for h
    using that by (auto simp: hs_def mk_hit_def)
  then have "for_each hs (mark_read ids) =
      for_each ds (\<lambda>d. whenp (?P d) (bnd (on_db (db_update (dput d ''read'' (PBool True)))) (\<lambda>_. ret ())))"
    unfolding ds_def by (intro for_each_cong) (simp add: mark_read_def)
  moreover have "\<forall>d \<in> set ds. w_live w (doc_id d) = Some d" using lv sd by simp
  have "''read'' \<noteq> ''_id''" "''read'' \<noteq> ''_rev''" by simp_all
  from ws.for_each_put [OF ok \<open>\<forall>d \<in> set ds. _\<close> dist this, of ?P "PBool True"]
  obtain w' where "for_each ds (\<lambda>d. whenp (?P d) (bnd (on_db (db_update (dput d ''read'' (PBool True)))) (\<lambda>_. ret ()))) w = (Inr (), w')"
    and ok': "w_ok w'"
    and upd: "\<forall>d \<in> set ds. \<exists>d2. w_live w' (doc_id d) = Some d2 \<and> dget d2 ''read'' = (if ?P d then PBool True else dget d ''read'') \<and>
       (\<forall>k'. k' \<noteq> ''_rev'' \<longrightarrow> k' \<noteq> ''read'' \<longrightarrow> dget d2 k' = dget d k')"
    and rest: "\<forall>j. j \<notin> doc_id ` set ds \<longrightarrow> w_live w' j = w_live w j"
    by (elim exE conjE) (rule that)
  ultimately have run: "markAsRead ids0 w = (Inr (PDict [(''success'', PBool True)]), w')"
    using all by (simp add: markAsRead_def py_simps ids_def [symmetric])
  have "\<exists>d2. w_live w' j = Some d2 \<and> (\<forall>k. k \<noteq> ''_rev'' \<longrightarrow> k \<noteq> ''read'' \<longrightarrow> dget d2 k = dget d k) \<and>
      dget d2 ''read'' = (if unread d \<and> (ids = [] \<or> j \<in> set ids) then PBool True else dget d ''read'')"
    if j: "w_live w j = Some d" for j d
  proof -
    have i: "dget d ''_id'' = PStr j" "doc_id d = j"
      using dbs.meta_law [OF dok, of j d] j by (simp_all add: w_live_def doc_id_def)
    show ?thesis
    proof (cases "d \<in> set ds")
      case True
      with upd i(2) obtain d2 where d2: "w_live w' j = Some d2" "dget d2 ''read'' = (if ?P d then PBool True else dget d ''read'')"
        "\<forall>k'. k' \<noteq> ''_rev'' \<longrightarrow> k' \<noteq> ''read'' \<longrightarrow> dget d2 k' = dget d k'" by blast
      moreover have "unread d" using True sd by simp
      moreover have "?P d \<longleftrightarrow> ids = [] \<or> j \<in> set ids" using i(1) by auto
      ultimately show ?thesis by simp
    next
      case False
      have l: "d \<in> set (live_docs (store w))" using set_live_docs [OF dok] j by (auto simp: w_live_def)
      with False sd have "\<not> unread d" by simp
      moreover have "j \<notin> doc_id ` set ds"
      proof
        assume "j \<in> doc_id ` set ds"
        then obtain e where e: "e \<in> set ds" "doc_id e = j" by blast
        with sd lv [of e] j have "e = d" by simp
        with e(1) False show False by simp
      qed
      ultimately show ?thesis using rest j by simp
    qed
  qed
  moreover have "ids = splitString ids0 '','' True" by (simp add: ids_def split_empty)
  ultimately show ?thesis using run ok' by blast
qed

section \<open>Who gets a message\<close>

lemma frontend_tells:
  assumes on: "\<And>evs. \<not> truthy (ans (nw s) evs ''shuttingDown'' [])"
  shows "\<exists>t. frontend mtype data msg s = (Inr (), t) \<and> listeners t = [] \<and>
    messages t = messages s @ [new_message mtype data msg s] \<and>
    delivered t = delivered s @ map (\<lambda>l. (fst l, [new_message mtype data msg s])) (rev (listeners s))"
proof -
  have told: "\<exists>u. tell m ls s' = (Inr (), u) \<and> delivered u = delivered s' @ map (\<lambda>l. (fst l, [m])) ls \<and> messages u = messages s'"
    if "\<And>evs. \<not> truthy (ans (nw s') evs ''shuttingDown'' [])" for m ls s'
    using that
  proof (induction ls arbitrary: s')
    case (Cons l ls)
    let ?w = "(nw s')\<lparr>fired := fired (nw s') @ [(''shuttingDown'', [])]\<rparr>"
    let ?s = "s'\<lparr>nw := ?w, delivered := delivered s' @ [(fst l, [m])]\<rparr>"
    have "tell m (l # ls) s' = tell m ls ?s" using Cons.prems by (simp add: py_simps stopping_def)
    moreover have "\<not> truthy (ans (nw ?s) evs ''shuttingDown'' [])" for evs using Cons.prems by simp
    from Cons.IH [of ?s, OF this] obtain u where "tell m ls ?s = (Inr (), u)" "messages u = messages s'"
      "delivered u = (delivered s' @ [(fst l, [m])]) @ map (\<lambda>l. (fst l, [m])) ls" by auto
    ultimately show ?case by simp
  qed (simp add: ret_run)
  let ?m = "new_message mtype data msg s"
  let ?s = "s\<lparr>ids_drawn := Suc (ids_drawn s), messages := messages s @ [?m]\<rparr>"
  have "\<not> truthy (ans (nw ?s) evs ''shuttingDown'' [])" for evs using on by simp
  from told [of ?s ?m "rev (listeners s)", OF this] obtain u where
    "tell ?m (rev (listeners s)) ?s = (Inr (), u)" "delivered u = delivered s @ map (\<lambda>l. (fst l, [?m])) (rev (listeners s))"
    "messages u = messages s @ [?m]" by auto
  then show ?thesis by (simp add: frontend_def py_simps)
qed

text \<open>A message for the browser goes once to each listener that waits, the one that came last first, and is kept for
  those that poll later; nobody waits afterwards.\<close>

theorem frontend_tells_all:
  assumes on: "\<And>evs. \<not> truthy (ans (nw s) evs ''shuttingDown'' [])"
  shows "\<exists>t. frontend mtype data msg s = (Inr (), t) \<and> listeners t = [] \<and>
    messages t = messages s @ [new_message mtype data msg s] \<and>
    delivered t = delivered s @ map (\<lambda>l. (fst l, [new_message mtype data msg s])) (rev (listeners s))"
  using assms by (rule frontend_tells)

text \<open>A browser that polls with the id of a message that has been cleaned is answered nothing, and waits, whatever
  newer messages there are: what came between its polls is lost to it.\<close>

theorem cleaned_id_waits:
  assumes old: "\<And>m. m \<in> set (messages s) \<Longrightarrow> pv_eq (dget m ''message_id'') i \<Longrightarrow> \<exists>t. dget m ''time'' = PInt t \<and> t + 15 \<le> ntime s"
    and s': "cleanMessages s = (Inr (), s')"
  shows "addListener cb i s' = (Inr (), s'\<lparr>listeners := listeners s' @ [(cb, i)]\<rparr>)"
proof -
  have "\<not> pv_eq (dget m ''message_id'') i" if "m \<in> set (messages s')" for m
    using old [of m] that s' by (auto simp: cleanMessages_def py_simps)
  then have "dropWhile (\<lambda>m. \<not> pv_eq (dget m ''message_id'') i) (messages s') = []" by (simp add: dropWhile_eq_Nil_conv)
  then have "after_id i (messages s') = []" by (simp only: after_id_def drop_Nil)
  then show ?thesis by (simp add: addListener_def poll_def getMessages_def add_waiting_def py_simps)
qed

text \<open>A message that comes between the two steps of \<open>addListener\<close> is not sent to that browser.\<close>

theorem lost_between_steps:
  assumes "\<And>evs. \<not> truthy (ans (nw s) evs ''shuttingDown'' [])" "after_id i (messages s) = []" "cb \<notin> fst ` set (listeners s)"
    and run: "bnd (poll cb i) (\<lambda>_. bnd (frontend mtype data msg) (\<lambda>_. add_waiting cb i)) s = (r, t)"
  shows "cb \<notin> fst ` set (drop (length (delivered s)) (delivered t))"
proof -
  have "poll cb i s = (Inr False, s)" using assms(2) by (simp add: poll_def getMessages_def py_simps)
  with run frontend_tells [OF assms(1), of mtype data msg] assms(3) show ?thesis
    by (auto simp: py_simps add_waiting_def) (metis fst_conv image_eqI)
qed

section \<open>Examples\<close>

definition demo_note :: doc where
  "demo_note = with_meta (oid (CHR ''n'')) ''00010000'' [(''_t'', PStr ''notification''), (''time'', PInt 5)]"

definition demo_note_world :: world where
  "demo_note_world = demo_world\<lparr>store := empty_db\<lparr>docs := [(oid (CHR ''n''), Live ''00010000''
     [(''_t'', PStr ''notification''), (''time'', PInt 5)])]\<rparr>\<rparr>"

lemma demo_note_ok: "w_ok demo_note_world"
  by (simp add: w_ok_def demo_note_world_def demo_world_def empty_db_def db_ok_def oid_def rev_ok_def hex_val_def is_digit_def cp_def
      dhas_def)

lemma demo_note_live: "w_live demo_note_world (oid (CHR ''n'')) = Some demo_note"
  by (simp add: w_live_def live_def lookup_def demo_note_world_def demo_world_def empty_db_def demo_note_def)

theorem markAsRead_exactly_witness:
  "\<exists>w' d. markAsRead [] demo_note_world = (Inr (PDict [(''success'', PBool True)]), w') \<and>
     w_live w' (oid (CHR ''n'')) = Some d \<and> dget d ''read'' = PBool True"
proof -
  have "unread demo_note" by (simp add: unread_def demo_note_def is_type_def doc_eval)
  with markAsRead_exactly [OF demo_note_ok, of "[]"] demo_note_live split_empty show ?thesis by fastforce
qed

definition demo_notifier :: notifier where
  "demo_notifier = \<lparr>nw = demo_world\<lparr>now := 100\<rparr>, messages = [[(''message_id'', PStr ''m1''), (''time'', PInt 80)],
       [(''message_id'', PStr ''m2''), (''time'', PInt 95)]],
     listeners = [(1, PStr ''m2''), (2, PStr ''m2'')], delivered = [], message_ids = (\<lambda>n. ''m'' @ str_of_int (int n)), ids_drawn = 3\<rparr>"

theorem frontend_tells_all_witness:
  "\<exists>t. frontend (PStr ''movie.update'') [] PNone demo_notifier = (Inr (), t) \<and> listeners t = [] \<and> map fst (delivered t) = [2, 1]"
proof -
  have "\<not> truthy (ans (nw demo_notifier) evs ''shuttingDown'' [])" for evs by (simp add: demo_notifier_def demo_world_def)
  from frontend_tells_all [OF this, of "PStr ''movie.update''" "[]" PNone] obtain t where
    "frontend (PStr ''movie.update'') [] PNone demo_notifier = (Inr (), t)" "listeners t = []"
    "delivered t = delivered demo_notifier @ map (\<lambda>l. (fst l, [new_message (PStr ''movie.update'') [] PNone demo_notifier])) (rev (listeners demo_notifier))"
    by blast
  then show ?thesis by (simp add: demo_notifier_def)
qed

text \<open>The browser had message m1; m2 came since, and m1 has just been cleaned.\<close>

theorem cleaned_id_waits_witness:
  "\<exists>s'. cleanMessages demo_notifier = (Inr (), s') \<and> messages s' = [[(''message_id'', PStr ''m2''), (''time'', PInt 95)]] \<and>
     addListener 3 (PStr ''m1'') s' = (Inr (), s'\<lparr>listeners := listeners s' @ [(3, PStr ''m1'')]\<rparr>)"
proof -
  let ?s = "snd (cleanMessages demo_notifier)"
  have run: "cleanMessages demo_notifier = (Inr (), ?s)" by (simp add: cleanMessages_def py_simps)
  have "\<exists>t. dget m ''time'' = PInt t \<and> t + 15 \<le> ntime demo_notifier"
    if "m \<in> set (messages demo_notifier)" "pv_eq (dget m ''message_id'') (PStr ''m1'')" for m
    using that by (auto simp: demo_notifier_def dget_def ntime_def pv_eq_def)
  from cleaned_id_waits [OF this run] have "addListener 3 (PStr ''m1'') ?s = (Inr (), ?s\<lparr>listeners := listeners ?s @ [(3, PStr ''m1'')]\<rparr>)" by blast
  moreover have "messages ?s = [[(''message_id'', PStr ''m2''), (''time'', PInt 95)]]"
    by (simp add: cleanMessages_def py_simps demo_notifier_def dget_def ntime_def)
  ultimately show ?thesis using run by blast
qed

end
