(* ===== verification/Dashboard.thy ===== *)
theory Dashboard
  imports MovieSearcher
begin

text \<open>
  couchpotato/core/plugins/dashboard.py: the lists "soon" and "late" of the start page. Both are
  \<open>getSoonView\<close>; \<open>rndm.shuffle\<close> is the argument \<open>shuffle_ids\<close>.
\<close>

text \<open>The answer of an event that is read only and must be iterated: \<open>None\<close> of a handler that raised can not be.\<close>

definition event_list :: "(world, 'a) py \<Rightarrow> (world, 'a) py" where
  "event_list m = catch m (\<lambda>_. raise TypeError)"

text \<open>What a profile asks for: \<open>theater\<close>, \<open>dvd\<close> or both.\<close>

definition profile_kinds :: "doc \<Rightarrow> string list res" where
  "profile_kinds profile = rbind (as_list (dgetd profile ''qualities'' (PList []))) (\<lambda>qs.
     Inr (remdups (map (\<lambda>q. if q \<in> PStr ` set pre_releases then ''theater'' else ''dvd'') qs)))"

definition profile_table :: "doc list \<Rightarrow> (pv \<times> string list) list res" where
  "profile_table profiles = foldl (\<lambda>acc p. rbind acc (\<lambda>t. rbind (profile_kinds p) (\<lambda>ks. Inr (AList.update (dget p ''_id'') ks t))))
     (Inr []) profiles"

definition soon_limit :: "string \<Rightarrow> int res" where
  "soon_limit limit_offset = (if limit_offset = [] then Inr 12
     else rbind (nth_res (splitString limit_offset '','' True) 0) (\<lambda>l. Inr (tryInt (PStr l) 0)))"

definition could_be :: "outside \<Rightarrow> bool \<Rightarrow> pv \<Rightarrow> doc \<Rightarrow> (world, bool) py" where
  "could_be ou theater eta media =
     bnd (liftr (rbind (dsub media ''info'') (\<lambda>i. vsub i ''year''))) (\<lambda>year.
     bnd (gets now) (\<lambda>t. ret (couldBeReleased theater eta year t (today ou t) = Inr True)))"

text \<open>\<open>False\<close> is the empty text.\<close>

definition coming_soon :: "outside \<Rightarrow> string list \<Rightarrow> pv \<Rightarrow> doc \<Rightarrow> (world, string) py" where
  "coming_soon ou pp eta media =
     bnd (if ''theater'' \<in> set pp then could_be ou True eta media else ret False) (\<lambda>a.
     if a then ret ''theater''
     else bnd (if ''dvd'' \<in> set pp then could_be ou False eta media else ret False) (\<lambda>b.
       ret (if b then ''dvd'' else [])))"

definition taken_statuses :: "pv set" where
  "taken_statuses = {PStr ''snatched'', PStr ''available'', PStr ''seeding'', PStr ''downloaded''}"

text \<open>The releases of the media; a handler that raised leaves \<open>None\<close>, which is no list.\<close>

fun any_taken :: "pv list \<Rightarrow> bool res" where
  "any_taken [] = Inr False"
| "any_taken (r # rs) = rbind (vget r ''status'') (\<lambda>st. if st \<in> taken_statuses then Inr True else any_taken rs)"

definition has_taken :: "pv \<Rightarrow> bool res" where
  "has_taken releases = rbind (as_list releases) any_taken"

text \<open>What is put into the list for a media: \<open>None\<close> when it is passed over; otherwise nothing or the media (with its
  releases in the list "late"), and then the length of the list is looked at.\<close>

definition soon_media :: "outside \<Rightarrow> bool \<Rightarrow> (pv \<times> string list) list \<Rightarrow> doc \<Rightarrow> (world, doc option option) py" where
  "soon_media ou late table media =
     (case map_of table (dget media ''profile_id'') of
        None \<Rightarrow> ret None
      | Some [] \<Rightarrow> ret None
      | Some pp \<Rightarrow>
          bnd (liftr (rbind (dsub media ''info'') (\<lambda>i. rbind (vgetd i ''release_date'' (PDict [])) (\<lambda>e. Inr ((if truthy e then e else PDict [])))))) (\<lambda>eta.
          bnd (coming_soon ou pp eta media) (\<lambda>soon.
          if soon = [] then ret None
          else
            bnd (liftr (rbind (vget eta soon) (\<lambda>d. Inr (tryInt d 0)))) (\<lambda>eta_date.
            bnd (gets now) (\<lambda>t.
            if late \<noteq> (eta_date < t - 7862400) then ret None
            else if \<not> late then ret (Some (Some media))
            else
              bnd (liftr (rbind (dsub media ''_id'') as_str)) (\<lambda>i.
              bnd (forMedia_event i) (\<lambda>rels.
              bnd (liftr (has_taken rels)) (\<lambda>taken.
              ret (Some (if taken then None else Some (dput media ''releases'' rels)))))))))))"

definition find_media :: "pv \<Rightarrow> (world, doc option) py" where
  "find_media media_id =
     catch (bnd (liftr (as_str media_id)) (\<lambda>i. bnd (on_db (db_get i)) (\<lambda>d. ret (Some d))))
       (\<lambda>x. if x \<in> {RecordDeleted, RecordNotFound} then ret None else raise x)"

definition put_on_list :: "int \<Rightarrow> doc list \<Rightarrow> doc option option \<Rightarrow> doc list ctl" where
  "put_on_list limit medias o2 = (case o2 of
     None \<Rightarrow> Go medias
   | Some o3 \<Rightarrow> (let ms = medias @ (case o3 of None \<Rightarrow> [] | Some m \<Rightarrow> [m]) in if limit \<le> int (length ms) then Brk ms else Go ms))"

definition soon_step ::
  "outside \<Rightarrow> bool \<Rightarrow> int \<Rightarrow> (pv \<times> string list) list \<Rightarrow> pv \<Rightarrow> doc list \<Rightarrow> (world, doc list ctl) py" where
  "soon_step ou late limit table media_id medias =
     bnd (find_media media_id) (\<lambda>o1.
     bnd (case o1 of None \<Rightarrow> ret None | Some media \<Rightarrow> soon_media ou late table media) (\<lambda>o2.
     ret (put_on_list limit medias o2)))"

definition soon_list ::
  "outside \<Rightarrow> (pv list \<Rightarrow> pv list) \<Rightarrow> string \<Rightarrow> bool \<Rightarrow> bool \<Rightarrow> (world, doc list) py" where
  "soon_list ou shuffle_ids limit_offset randomly late =
     bnd (event_list all_profiles) (\<lambda>profiles.
     bnd (liftr (profile_table profiles)) (\<lambda>table.
     bnd (liftr (soon_limit limit_offset)) (\<lambda>limit.
     bnd (event_list (media_ids_with_status [''active''])) (\<lambda>active.
     if active = [] then ret []
     else
       bnd (if randomly then ret (shuffle_ids active)
            else bnd (on_db (db_all ''media_title'' (- 1) 0)) (\<lambda>hs. ret (filter (\<lambda>i. i \<in> set active) (map hit_id hs)))) (\<lambda>ids.
       for_acc ids [] (soon_step ou late limit table))))))"

definition getSoonView ::
  "outside \<Rightarrow> (pv list \<Rightarrow> pv list) \<Rightarrow> string \<Rightarrow> bool \<Rightarrow> bool \<Rightarrow> (world, pv) py" where
  "getSoonView ou shuffle_ids limit_offset randomly late =
     bnd (soon_list ou shuffle_ids limit_offset randomly late) (\<lambda>medias.
     ret (PDict [(''success'', PBool True), (''empty'', PBool (medias = [])), (''movies'', PList (map PDict medias))]))"

section \<open>Soon or late\<close>

lemma ro_coming_soon: "keeps (=) (coming_soon ou pp eta media)"
  unfolding coming_soon_def could_be_def by (auto intro!: ro.keeps_intros)

lemma ro_soon_media: "keeps (=) (soon_media ou late table media)"
  unfolding soon_media_def
  by (auto intro!: ro.keeps_intros ro_coming_soon ro_forMedia_event split: option.split list.split)

lemma ro_soon_step: "keeps (=) (soon_step ou late limit table i ms)"
  unfolding soon_step_def find_media_def by (auto intro!: ro.keeps_intros read_only_on_db ro_soon_media split: option.split)

lemma find_media_live:
  assumes "find_media i w = (Inr (Some d), u)"
  shows "\<exists>j. w_live w j = Some d \<and> dget d ''_id'' = PStr j"
proof (cases i)
  case (PStr j)
  obtain r s where g: "db_get j (store w) = (r, s)" by (cases "db_get j (store w)")
  from assms PStr g have "r = Inr d" by (cases r) (auto simp: find_media_def py_simps split: if_splits)
  with g have "live (store w) j = Some d" using db_get_Inr by blast
  then show ?thesis by (auto simp: w_live_def live_lookup)
qed (use assms in \<open>simp_all add: find_media_def py_simps\<close>)

text \<open>The date a media is listed by: it does not depend on the list.\<close>

definition eta_in :: "outside \<Rightarrow> (pv \<times> string list) list \<Rightarrow> world \<Rightarrow> doc \<Rightarrow> int res" where
  "eta_in ou table w media =
     (case map_of table (dget media ''profile_id'') of None \<Rightarrow> Inl KeyError | Some pp \<Rightarrow>
        rbind (rbind (dsub media ''info'') (\<lambda>i. rbind (vgetd i ''release_date'' (PDict [])) (\<lambda>e. Inr (if truthy e then e else PDict [])))) (\<lambda>eta.
        rbind (fst (coming_soon ou pp eta media w)) (\<lambda>soon. rbind (vget eta soon) (\<lambda>d. Inr (tryInt d 0)))))"

lemma soon_media_date:
  assumes "soon_media ou late table media w = (Inr (Some (Some m)), w')"
  shows "\<exists>e. eta_in ou table w media = Inr e \<and> late = (e < now w - 7862400) \<and> dget m ''_id'' = dget media ''_id''"
proof -
  from assms obtain pp where pp: "map_of table (dget media ''profile_id'') = Some pp" "pp \<noteq> []"
    by (auto simp: soon_media_def ret_run split: option.splits list.splits)
  with assms obtain eta soon s2 e where
    "rbind (dsub media ''info'') (\<lambda>i. rbind (vgetd i ''release_date'' (PDict [])) (\<lambda>e. Inr (if truthy e then e else PDict []))) = Inr eta"
    "coming_soon ou pp eta media w = (Inr soon, s2)" "rbind (vget eta soon) (\<lambda>d. Inr (tryInt d 0)) = Inr e"
    "late = (e < now s2 - 7862400)" "dget m ''_id'' = dget media ''_id''"
    unfolding soon_media_def
    by (auto simp: ret_run liftr_run gets_run split: list.splits if_splits elim!: bnd_okE)
  moreover have "s2 = w" using calculation(2) keeps_eqD [OF ro_coming_soon] by blast
  ultimately show ?thesis using pp by (auto simp: eta_in_def)
qed

lemma for_acc_ro:
  assumes ro: "\<And>x a. keeps (=) (f x a)" and step: "\<And>x a c. P a \<Longrightarrow> f x a w = (Inr c, w) \<Longrightarrow> (case c of Go a' \<Rightarrow> P a' | Brk a' \<Rightarrow> Q a')"
    and PQ: "\<And>a. P a \<Longrightarrow> Q a" and "P a" and "for_acc xs a f w = (Inr r, w')"
  shows "Q r"
  using assms(4,5)
proof (induction xs arbitrary: a)
  case (Cons x xs)
  from Cons.prems(2) obtain c u where c: "f x a w = (Inr c, u)" "(case c of Go a' \<Rightarrow> for_acc xs a' f | Brk a' \<Rightarrow> ret a') u = (Inr r, w')"
    by (auto elim!: bnd_okE)
  have "u = w" using keeps_eqD [OF ro c(1)] .
  with c(1) have k: "case c of Go a' \<Rightarrow> P a' | Brk a' \<Rightarrow> Q a'" using step [OF Cons.prems(1)] by simp
  with c(2) \<open>u = w\<close> Cons.IH show ?case by (cases c) (auto simp: ret_run)
qed (auto simp: ret_run PQ)

text \<open>Every media of the list is a live document whose date is on the right side of three months ago; and the list is
  no longer than asked for, except that it has one media where none was asked for.\<close>

definition on_list :: "outside \<Rightarrow> bool \<Rightarrow> (pv \<times> string list) list \<Rightarrow> world \<Rightarrow> doc \<Rightarrow> bool" where
  "on_list ou late table w m \<longleftrightarrow> (\<exists>i d e. w_live w i = Some d \<and> dget m ''_id'' = PStr i \<and> eta_in ou table w d = Inr e \<and>
     late = (e < now w - 7862400))"

lemma soon_step_ok:
  assumes run: "soon_step ou late limit table i ms w = (Inr c, w)" and ms: "\<forall>m \<in> set ms. on_list ou late table w m"
    and len: "ms = [] \<or> int (length ms) < limit"
  shows "case c of Go ms' \<Rightarrow> (\<forall>m \<in> set ms'. on_list ou late table w m) \<and> (ms' = [] \<or> int (length ms') < limit)
    | Brk ms' \<Rightarrow> (\<forall>m \<in> set ms'. on_list ou late table w m) \<and> int (length ms') \<le> max 1 limit"
proof -
  from run obtain o1 u o2 v where o1: "find_media i w = (Inr o1, u)"
    "(case o1 of None \<Rightarrow> ret None | Some media \<Rightarrow> soon_media ou late table media) u = (Inr o2, v)" "c = put_on_list limit ms o2"
    unfolding soon_step_def by (auto simp: ret_run elim!: bnd_okE)
  have "keeps (=) (find_media i)" unfolding find_media_def by (auto intro!: ro.keeps_intros read_only_on_db)
  then have u: "u = w" using o1(1) keeps_eqD by metis
  have new: "on_list ou late table w m" if "o2 = Some (Some m)" for m
  proof -
    from o1(2) that u obtain d where d: "o1 = Some d" "soon_media ou late table d w = (Inr (Some (Some m)), v)"
      by (auto simp: ret_run split: option.splits)
    from find_media_live o1(1) d(1) u obtain j where "w_live w j = Some d" "dget d ''_id'' = PStr j" by blast
    moreover from soon_media_date [OF d(2)] obtain e where
      "eta_in ou table w d = Inr e" "late = (e < now w - 7862400)" "dget m ''_id'' = dget d ''_id''" by blast
    ultimately show ?thesis unfolding on_list_def by auto
  qed
  show ?thesis
  proof (cases o2)
    case None
    with o1(3) ms len show ?thesis by (simp add: put_on_list_def)
  next
    case (Some o3)
    with o1(3) ms len new show ?thesis by (cases o3) (auto simp: put_on_list_def Let_def)
  qed
qed

lemma soon_list_ok:
  assumes "soon_list ou sh lo mix late w = (Inr ms, w')"
  shows "\<exists>profiles table limit. fst (event_list all_profiles w) = Inr profiles \<and> profile_table profiles = Inr table \<and>
    soon_limit lo = Inr limit \<and> (\<forall>m \<in> set ms. on_list ou late table w m) \<and> int (length ms) \<le> max 1 limit"
proof -
  have r: "keeps (=) (event_list all_profiles)" "keeps (=) (event_list (media_ids_with_status [''active'']))"
    unfolding event_list_def all_profiles_def media_ids_with_status_def
    by (auto intro!: ro.keeps_intros read_only_on_db split: ctl.split)
  from assms obtain profiles w1 table limit active w2 where o: "event_list all_profiles w = (Inr profiles, w1)"
    "profile_table profiles = Inr table" "soon_limit lo = Inr limit"
    "event_list (media_ids_with_status [''active'']) w1 = (Inr active, w2)" and rest: "(if active = [] then ret []
     else
       bnd (if mix then ret (sh active)
            else bnd (on_db (db_all ''media_title'' (- 1) 0)) (\<lambda>hs. ret (filter (\<lambda>i. i \<in> set active) (map hit_id hs)))) (\<lambda>ids.
       for_acc ids [] (soon_step ou late limit table))) w2 = (Inr ms, w')"
    unfolding soon_list_def by (elim bnd_okE) (auto simp: liftr_run)
  have w: "w1 = w" "w2 = w" using keeps_eqD [OF r(1) o(1)] keeps_eqD [OF r(2) o(4)] by simp_all
  have "(\<forall>m \<in> set ms. on_list ou late table w m) \<and> int (length ms) \<le> max 1 limit"
  proof (cases "active = []")
    case True
    with rest show ?thesis by (simp add: ret_run)
  next
    case False
    have "keeps (=) (if mix then ret (sh active)
        else bnd (on_db (db_all ''media_title'' (- 1) 0)) (\<lambda>hs. ret (filter (\<lambda>i. i \<in> set active) (map hit_id hs))))"
      by (auto intro!: ro.keeps_intros read_only_on_db)
    with rest False w obtain ids where "for_acc ids [] (soon_step ou late limit table) w = (Inr ms, w')"
      by (auto elim!: bnd_okE dest: keeps_eqD)
    from for_acc_ro [where P = "\<lambda>ms. (\<forall>m \<in> set ms. on_list ou late table w m) \<and> (ms = [] \<or> int (length ms) < limit)"
        and Q = "\<lambda>ms. (\<forall>m \<in> set ms. on_list ou late table w m) \<and> int (length ms) \<le> max 1 limit", OF ro_soon_step _ _ _ this]
    show ?thesis using soon_step_ok [of ou late limit table _ _ w] by force
  qed
  with o show ?thesis by auto
qed

text \<open>C22: no movie is both on the list "soon" and on the list "late" of one database; and each of the two lists is no
  longer than its limit, except that it may hold one movie when the limit is less than one.\<close>

theorem soon_or_late:
  assumes "soon_list ou sh lo mix False w = (Inr soon, w1)" "soon_list ou sh' lo' mix' True w = (Inr late, w2)"
  shows "(\<forall>a \<in> set soon. \<forall>b \<in> set late. dget a ''_id'' \<noteq> dget b ''_id'') \<and>
    (\<exists>n. soon_limit lo = Inr n \<and> int (length soon) \<le> max 1 n) \<and>
    (\<exists>n. soon_limit lo' = Inr n \<and> int (length late) \<le> max 1 n)"
proof -
  from soon_list_ok [OF assms(1)] soon_list_ok [OF assms(2)] obtain table n n' where
    t: "\<forall>m \<in> set soon. on_list ou False table w m" "\<forall>m \<in> set late. on_list ou True table w m"
      "soon_limit lo = Inr n" "int (length soon) \<le> max 1 n" "soon_limit lo' = Inr n'" "int (length late) \<le> max 1 n'" by auto
  have "dget a ''_id'' \<noteq> dget b ''_id''" if "a \<in> set soon" "b \<in> set late" for a b
  proof
    assume "dget a ''_id'' = dget b ''_id''"
    moreover from t(1) that(1) obtain i d e where "w_live w i = Some d" "dget a ''_id'' = PStr i" "eta_in ou table w d = Inr e"
      "\<not> e < now w - 7862400" unfolding on_list_def by auto
    moreover from t(2) that(2) obtain j d' e' where "w_live w j = Some d'" "dget b ''_id'' = PStr j" "eta_in ou table w d' = Inr e'"
      "e' < now w - 7862400" unfolding on_list_def by auto
    ultimately show False by auto
  qed
  with t(3-6) show ?thesis by blast
qed

section \<open>Example\<close>

definition soon_movie :: doc where
  "soon_movie = [(''_t'', PStr ''media''), (''type'', PStr ''movie''), (''status'', PStr ''active''), (''profile_id'', PStr (oid (CHR ''p''))),
     (''info'', PDict [(''year'', PInt 2014), (''release_date'', PDict [(''theater'', PInt 0), (''dvd'', PInt 1400000000)])])]"

definition soon_profile :: doc where
  "soon_profile = [(''_t'', PStr ''profile''), (''order'', PInt 0), (''qualities'', PList [PStr ''dvdrip''])]"

definition soon_world :: world where
  "soon_world = demo_world\<lparr>now := 1400000100, store := empty_db\<lparr>docs :=
     [(oid (CHR ''p''), Live ''00010000'' soon_profile), (oid (CHR ''m''), Live ''00010000'' soon_movie)]\<rparr>\<rparr>"

lemma soon_reads:
  "event_list all_profiles soon_world = (Inr [with_meta (oid (CHR ''p'')) ''00010000'' soon_profile], soon_world)"
  "event_list (media_ids_with_status [''active'']) soon_world = (Inr [PStr (oid (CHR ''m''))], soon_world)"
  "find_media (PStr (oid (CHR ''m''))) soon_world = (Inr (Some (with_meta (oid (CHR ''m'')) ''00010000'' soon_movie)), soon_world)"
proof -
  show "event_list all_profiles soon_world = (Inr [with_meta (oid (CHR ''p'')) ''00010000'' soon_profile], soon_world)"
    by (simp add: event_list_def all_profiles_def py_simps db_all_def take_limit_def soon_world_def demo_world_def empty_db_def
        live_docs_def index_entries_def ProfileIndex_def is_type_def soon_profile_def soon_movie_def doc_eval mk_hit_def sorted_by_def)
  show "event_list (media_ids_with_status [''active'']) soon_world = (Inr [PStr (oid (CHR ''m''))], soon_world)"
    by (simp add: event_list_def media_ids_with_status_def py_simps db_get_many_def query_def make_key_def soon_world_def demo_world_def
        empty_db_def live_docs_def index_entries_def MediaStatusIndex_def is_type_def soon_profile_def soon_movie_def doc_eval mk_hit_def)
  show "find_media (PStr (oid (CHR ''m''))) soon_world = (Inr (Some (with_meta (oid (CHR ''m'')) ''00010000'' soon_movie)), soon_world)"
    by (simp add: find_media_def py_simps db_get_def lookup_def soon_world_def demo_world_def empty_db_def oid_neq)
qed

theorem soon_or_late_witness:
  "\<exists>w1 w2. soon_list demo_outside (\<lambda>x. x) [] True False soon_world = (Inr [with_meta (oid (CHR ''m'')) ''00010000'' soon_movie], w1) \<and>
     soon_list demo_outside (\<lambda>x. x) [] True True soon_world = (Inr [], w2) \<and> (\<exists>n. soon_limit [] = Inr n \<and> int (Suc 0) \<le> max 1 n)"
proof -
  let ?m = "with_meta (oid (CHR ''m'')) ''00010000'' soon_movie"
  have t: "profile_table [with_meta (oid (CHR ''p'')) ''00010000'' soon_profile] = Inr [(PStr (oid (CHR ''p'')), [''dvd''])]"
    by (simp add: profile_table_def profile_kinds_def soon_profile_def doc_eval pre_releases_def)
  have c: "couldBeReleased False (PDict [(''theater'', PInt 0), (''dvd'', PInt 1400000000)]) (PInt 2014) 1400000100 (2014, 6) = Inr True"
    by code_simp
  have s: "soon_media demo_outside late [(PStr (oid (CHR ''p'')), [''dvd''])] ?m soon_world = (Inr (if late then None else Some (Some ?m)), soon_world)" for late
    using c by (simp add: soon_media_def coming_soon_def could_be_def py_simps soon_movie_def doc_eval demo_outside_def soon_world_def)
  have run: "soon_list demo_outside (\<lambda>x. x) [] True late soon_world = (Inr (if late then [] else [?m]), soon_world)" for late
    using s by (simp add: soon_list_def py_simps soon_reads t soon_limit_def soon_step_def put_on_list_def)
  from soon_or_late [OF run [of False, simplified] run [of True, simplified]] run [of False] run [of True] show ?thesis by simp
qed

end
