(* ===== verification/Automation.thy ===== *)
theory Automation
  imports MovieSearcher MovieBase Provider
begin

text \<open>
  couchpotato/core/plugins/automation.py, which adds the movies of the lists the user follows, and
  couchpotato/core/media/movie/providers/automation/base.py, the class the readers of these lists extend.
  Which ids have been offered before is kept in properties of the database.
\<close>

section \<open>Adding the movies of the lists\<close>

definition added_prop :: "pv \<Rightarrow> string" where
  "added_prop imdb_id = ''automation.added.'' @ fmt imdb_id"

definition offer :: "pv \<Rightarrow> pv list \<Rightarrow> (world, pv list) py" where
  "offer imdb_id movie_ids =
     bnd (on_db (getProperty (added_prop imdb_id))) (\<lambda>added.
     if truthy added then ret movie_ids
     else
       bnd (call_handler (movie_add [(''identifier'', imdb_id)] False False True True [])) (\<lambda>added_movie.
       bnd (if truthy added_movie then bnd (liftr (vsub added_movie ''_id'')) (\<lambda>i. ret (movie_ids @ [i])) else ret movie_ids) (\<lambda>ids.
       bnd (on_db (setProperty (added_prop imdb_id) ''True'')) (\<lambda>_. ret ids))))"

definition offer_next :: "pv \<Rightarrow> pv list \<Rightarrow> (world, pv list ctl) py" where
  "offer_next imdb_id movie_ids =
     bnd stopping (\<lambda>stop. if stop then ret (Brk movie_ids) else bnd (offer imdb_id movie_ids) (\<lambda>ids. ret (Go ids)))"

definition search_added :: "outside \<Rightarrow> pv \<Rightarrow> unit \<Rightarrow> (world, unit ctl) py" where
  "search_added ou added_id u =
     bnd stopping (\<lambda>stop.
     if stop then ret (Brk ())
     else
       bnd (liftr (as_str added_id)) (\<lambda>i.
       bnd (media_get_event i) (\<lambda>m. case m of
           None \<Rightarrow> ret (Go ())
         | Some movie \<Rightarrow> bnd (call_handler (single_search ou movie PNone False False)) (\<lambda>_. ret (Go ())))))"

definition addMovies :: "outside \<Rightarrow> (world, bool) py" where
  "addMovies ou =
     bnd (fire ''automation.get_movies'' []) (\<lambda>v.
     bnd (liftr (as_list v)) (\<lambda>movies.
     bnd (for_acc movies [] offer_next) (\<lambda>movie_ids.
     bnd (for_acc movie_ids () (search_added ou)) (\<lambda>_. ret True))))"

section \<open>The readers of lists\<close>

record reader =
  r_plug :: plug
  last_checked :: int

definition automation_conf :: "world \<Rightarrow> plug \<Rightarrow> string \<Rightarrow> pv" where
  "automation_conf w p attr = get_setting (sett w) attr (conf_section p) PNone PNone"

definition switched_on :: "world \<Rightarrow> plug \<Rightarrow> string \<Rightarrow> bool" where
  "switched_on w p opt1 = (let v = automation_conf w p opt1 in truthy v \<or> v = PNone)"

definition canCheck :: "int \<Rightarrow> reader \<Rightarrow> bool" where
  "canCheck t r \<longleftrightarrow> last_checked r + 1800 < t"

text \<open>\<open>_getMovies\<close>: every half hour at most; \<open>read_ids\<close> is the reader's own \<open>getIMDBids\<close>.\<close>

definition getMovies :: "(world \<times> reader, pv) py \<Rightarrow> (world \<times> reader, pv) py" where
  "getMovies read_ids =
     bnd (gets (\<lambda>(w, r). (switched_on w (r_plug r) ''automation_enabled'', canCheck (now w) r))) (\<lambda>(on, can).
     if \<not> on then ret PNone
     else if \<not> can then ret (PList [])
     else bnd (modify (\<lambda>(w, r). (w, r\<lparr>last_checked := now w\<rparr>))) (\<lambda>_. read_ids))"

definition getMinimal :: "settings \<Rightarrow> string \<Rightarrow> pv" where
  "getMinimal st min_type = get_setting st min_type ''automation'' (PStr []) PNone"

text \<open>\<open>type_value < type_min\<close> of numbers or of texts.\<close>

definition less_res :: "pv \<Rightarrow> pv \<Rightarrow> bool res" where
  "less_res a b = (case (a, b) of
       (PStr s, PStr t) \<Rightarrow> Inr (map cp s < map cp t)
     | _ \<Rightarrow> rbind (num_res a) (\<lambda>x. rbind (num_res b) (\<lambda>y. Inr (x < y))))"

text \<open>A rating of IMDb is a pair of the rating and the number of votes.\<close>

definition with_rating :: "doc \<Rightarrow> doc res" where
  "with_rating movie =
     rbind (case dget movie ''rating'' of PFloat _ \<Rightarrow> Inr PNone | r \<Rightarrow> vget r ''imdb'') (\<lambda>imdb.
     if \<not> truthy imdb then Inr movie
     else rbind (as_list imdb) (\<lambda>xs. rbind (nth_res xs 1) (\<lambda>v. rbind (nth_res xs 0) (\<lambda>r.
       Inr (dput (dput movie ''votes'' v) ''rating'' r)))))"

fun enough :: "settings \<Rightarrow> doc \<Rightarrow> string list \<Rightarrow> bool res" where
  "enough st movie [] = Inr True"
| "enough st movie (k # ks) =
     rbind (less_res (dgetd movie k (PInt 0)) (getMinimal st k)) (\<lambda>low.
       if low then rbind (dsub movie ''original_title'') (\<lambda>_. Inr False) else enough st movie ks)"

text \<open>All the words of a set of genres joined with \<open>&\<close>; a set with a word twice never matches.\<close>

definition genres_match :: "string list \<Rightarrow> string \<Rightarrow> bool" where
  "genres_match movie_genres req_set =
     (let req = splitString req_set ''&'' True in card (set movie_genres \<inter> set req) = length req)"

definition isMinimalMovie :: "settings \<Rightarrow> doc \<Rightarrow> bool res" where
  "isMinimalMovie st movie0 =
     (if \<not> truthy (dget movie0 ''rating'') then rbind (dsub movie0 ''original_title'') (\<lambda>_. Inr False)
      else rbind (with_rating movie0) (\<lambda>movie.
        rbind (enough st movie [''year'', ''rating'', ''votes'']) (\<lambda>ok.
        if \<not> ok then Inr False
        else rbind (rbind (dsub movie ''genres'') as_list) (\<lambda>gs. rbind (mapr attr_str gs) (\<lambda>genres.
          let movie_genres = map lower genres in
          rbind (rbind (attr_str (getMinimal st ''required_genres'')) (\<lambda>t. Inr (splitString (lower t) '','' True))) (\<lambda>required.
          rbind (rbind (attr_str (getMinimal st ''ignored_genres'')) (\<lambda>t. Inr (splitString (lower t) '','' True))) (\<lambda>ignored.
          if truthy (getMinimal st ''required_genres'') \<and> \<not> list_ex (genres_match movie_genres) required
          then rbind (dsub movie ''original_title'') (\<lambda>_. Inr False)
          else if list_ex (genres_match movie_genres) ignored
          then rbind (dsub movie ''original_title'') (\<lambda>_. Inr False)
          else Inr True)))))))"

text \<open>\<open>search(name, year)\<close>: the answer of the movie search, or the id kept from an earlier one.\<close>

definition cached_prop :: "string \<Rightarrow> pv \<Rightarrow> string" where
  "cached_prop nm year = ''automation.cached.'' @ filter (\<lambda>c. cp c < 128) nm @ ''.'' @ fmt year"

definition automation_search :: "string \<Rightarrow> pv \<Rightarrow> bool \<Rightarrow> (world, pv) py" where
  "automation_search nm year imdb_only =
     bnd (on_db (getProperty (cached_prop nm year))) (\<lambda>cached.
     if truthy cached \<and> imdb_only then ret cached
     else
       bnd (fire ''movie.search'' [PStr (nm @ '' '' @ (if truthy year then fmt year else [])), PInt 1]) (\<lambda>v.
       bnd (liftr (as_list v)) (\<lambda>result. case result of
           [] \<Rightarrow> ret PNone
         | r # _ \<Rightarrow>
             bnd (liftr (vget r ''imdb'')) (\<lambda>imdb.
             bnd (if imdb_only \<and> truthy imdb then on_db (setProperty (cached_prop nm year) (fmt imdb)) else ret ()) (\<lambda>_.
             ret (if imdb_only then imdb else r))))))"

section \<open>Properties of the database\<close>

lemma one_key_property: "one_key PropertyIndex"
  by (auto simp: one_key_def PropertyIndex_def rbind_eq_Inr split: if_splits)

definition is_prop :: "string \<Rightarrow> doc \<Rightarrow> bool" where
  "is_prop k d \<longleftrightarrow> is_type d ''property'' \<and> dsub d ''identifier'' = Inr (PStr k)"

lemma has_key_property: "has_key PropertyIndex (PStr k) d = is_prop k d"
  by (cases "dsub d ''identifier''") (auto simp: has_key_def PropertyIndex_def is_prop_def)

lemma property_hits:
  obtains hs where "query ''property'' (PStr k) s = Inr hs" "map hit_doc hs = filter (is_prop k) (live_docs s)"
proof -
  have "the_index ''property'' = Some PropertyIndex" "make_key ''property'' (PStr k) = PStr k" by (simp_all add: the_index_def index_table_def make_key_def)
  with query_one_key [OF _ one_key_property, of "''property''" "PStr k" s] that show thesis
    by (auto simp: has_key_property [abs_def])
qed

definition first_value :: "doc list \<Rightarrow> pv" where
  "first_value ds = (case ds of [] \<Rightarrow> PNone | d # _ \<Rightarrow> dget d ''value'')"

lemma getProperty_first: "getProperty k s = (Inr (first_value (filter (is_prop k) (live_docs s))), s)"
proof -
  obtain hs where hs: "query ''property'' (PStr k) s = Inr hs" "map hit_doc hs = filter (is_prop k) (live_docs s)"
    by (rule property_hits)
  show ?thesis unfolding hs(2) [symmetric] using hs(1)
    by (cases hs) (auto simp: getProperty_def db_get_by_def py_simps first_value_def dsub_def dget_def split: option.split sum.split)
qed

lemma live_docs_insert: "lookup s i = None \<Longrightarrow> live_docs (set_entry i (Live r b) s) = live_docs s @ [with_meta i r b]"
proof -
  assume "lookup s i = None"
  then have "AList.update i e al = al @ [(i, e)]" if "map_of al i = None" for e :: entry and al
    using that by (induction al) (auto split: if_splits)
  with \<open>lookup s i = None\<close> show ?thesis by (simp add: live_docs_def set_entry_def lookup_def)
qed

lemma live_docs_update:
  assumes "lookup s i = Some (Live r b)" "db_ok s"
  shows "live_docs (set_entry i (Live r' b') s) = map (\<lambda>d. if dget d ''_id'' = PStr i then with_meta i r' b' else d) (live_docs s)"
proof -
  define l where "l = (\<lambda>al :: (string \<times> entry) list. concat (map (\<lambda>(i, e). case e of Live r b \<Rightarrow> [with_meta i r b] | Dead \<Rightarrow> []) al))"
  define f where "f = (\<lambda>d. if dget d ''_id'' = PStr i then with_meta i r' b' else d)"
  have l: "l [] = []" "l ((j, Dead) # al) = l al" "l ((j, Live r b) # al) = with_meta j r b # l al" for j r b al
    by (simp_all add: l_def)
  have skip: "i \<notin> fst ` set al \<Longrightarrow> map f (l al) = l al" for al
  proof (induction al)
    case (Cons x al)
    then show ?case by (cases x; cases "snd x") (auto simp: l f_def)
  qed (simp add: l)
  have "l (AList.update i (Live r' b') al) = map f (l al)" if "map_of al i = Some (Live r b)" "distinct (map fst al)" for al
    using that
  proof (induction al)
    case (Cons x al)
    obtain j e where x: "x = (j, e)" by (cases x)
    show ?case
    proof (cases "j = i")
      case True
      with Cons.prems x show ?thesis by (simp add: l skip) (simp add: f_def)
    next
      case False
      with Cons x show ?thesis by (cases e) (simp_all add: l f_def)
    qed
  qed simp
  then have "l (AList.update i (Live r' b') (docs s)) = map f (l (docs s))"
    using assms by (simp add: lookup_def db_ok_def)
  then show ?thesis by (simp add: live_docs_def set_entry_def l_def f_def)
qed

lemma live_docs_drawn [simp]: "live_docs (s\<lparr>drawn := n\<rparr>) = live_docs s"
  by (simp add: live_docs_def)

lemma setProperty_reads:
  assumes ok: "db_ok s" and run: "setProperty i v s = (Inr (), t)"
  shows "getProperty i t = (Inr (PStr v), t) \<and> (\<forall>j. j \<noteq> i \<longrightarrow> fst (getProperty j t) = fst (getProperty j s))"
proof -
  obtain hs where hs: "query ''property'' (PStr i) s = Inr hs" "map hit_doc hs = filter (is_prop i) (live_docs s)"
    by (rule property_hits)
  show ?thesis
  proof (cases hs)
    case Nil
    let ?d = "[(''_t'', PStr ''property''), (''identifier'', PStr i), (''value'', PStr v)]"
    have "\<exists>m. db_insert ?d s = (Inr m, t)"
      using run hs(1) Nil by (auto simp: setProperty_def db_get_by_def py_simps split: sum.splits prod.splits)
    then obtain j r n where new: "lookup s j = None" "t = set_entry j (Live r ?d) (s\<lparr>drawn := n\<rparr>)"
      by (auto simp: db_insert_def id_key_value_def py_simps strip_meta_def dhas_def dsub_def dput_def dremove_def create_new_rev_def
          draw_rnd_def draw_uuid_def split: sum.splits prod.splits if_splits pv.splits)
    have "live_docs t = live_docs s @ [with_meta j r ?d]" using new by (simp add: live_docs_insert)
    moreover have "is_prop k (with_meta j r ?d) \<longleftrightarrow> k = i" for k
      by (auto simp: is_prop_def is_type_def doc_eval)
    moreover have "filter (is_prop i) (live_docs s) = []" using hs(2) Nil by simp
    moreover have "dget (with_meta j r ?d) ''value'' = PStr v" by (simp add: doc_eval)
    ultimately show ?thesis by (simp add: getProperty_first first_value_def)
  next
    case (Cons h hs')
    define d where "d = hit_doc h"
    from hs(2) Cons have f: "filter (is_prop i) (live_docs s) = d # map hit_doc hs'" by (simp add: d_def)
    then have d: "d \<in> set (live_docs s)" "is_prop i d" using set_filter [of "is_prop i" "live_docs s"] by (auto simp: filter_eq_Cons_iff)
    then obtain k where l: "live s k = Some d" using set_live_docs [OF ok] by blast
    then obtain r b where rb: "lookup s k = Some (Live r b)" "d = with_meta k r b" by (auto simp: live_lookup)
    let ?d = "dput (dput d ''identifier'' (PStr i)) ''value'' (PStr v)"
    obtain r' where u: "db_update ?d s = (Inr (ret_meta k r'), set_entry k (Live r' (strip_meta ?d)) (s\<lparr>drawn := Suc (drawn s)\<rparr>))"
      using db_update_run [OF ok rb(1), of ?d] rb(2) by auto
    then have t: "t = set_entry k (Live r' (strip_meta ?d)) (s\<lparr>drawn := Suc (drawn s)\<rparr>)"
      using run hs(1) Cons by (simp add: setProperty_def db_get_by_def py_simps d_def)
    let ?n = "with_meta k r' (strip_meta ?d)" and ?f = "\<lambda>x. if dget x ''_id'' = PStr k then with_meta k r' (strip_meta ?d) else x"
    have lt: "live_docs t = map ?f (live_docs s)" unfolding t using live_docs_update [OF _ _, of "s\<lparr>drawn := Suc (drawn s)\<rparr>" k r b] rb(1) ok
      by (simp add: lookup_drawn)
    have one: "x = d" if "x \<in> set (live_docs s)" "dget x ''_id'' = PStr k" for x
      using that l set_live_docs [OF ok] by (auto simp: live_lookup)
    have "dsub ?n ''identifier'' = Inr (PStr i)" by (simp add: dsub_def dput_def update_conv')
    then have p: "is_prop m ?n \<longleftrightarrow> m = i" "is_prop m d \<longleftrightarrow> m = i" for m
      using d(2) by (auto simp: is_prop_def is_type_def dget_dput)
    have same: "is_prop m (?f x) = is_prop m x" if "x \<in> set (live_docs s)" for m x
      using one [OF that] p by auto
    have ft: "filter (is_prop m) (live_docs t) = map ?f (filter (is_prop m) (live_docs s))" for m
      unfolding lt filter_map using same by (auto intro!: arg_cong [of _ _ "map ?f"] filter_cong)
    have "dget d ''_id'' = PStr k" using rb(2) by simp
    then have i: "first_value (filter (is_prop i) (live_docs t)) = PStr v" using ft f by (simp add: first_value_def)
    have "map ?f (filter (is_prop m) (live_docs s)) = filter (is_prop m) (live_docs s)" if "m \<noteq> i" for m
      by (rule map_idI) (use one p that in auto)
    with i ft show ?thesis by (simp add: getProperty_first)
  qed
qed

text \<open>A property that has been set is read back with its value, and no other property changes.\<close>

theorem property_roundtrip:
  assumes "db_ok s" "setProperty i v s = (Inr (), t)"
  shows "getProperty i t = (Inr (PStr v), t) \<and> (\<forall>j. j \<noteq> i \<longrightarrow> fst (getProperty j t) = fst (getProperty j s))"
  using assms by (rule setProperty_reads)

section \<open>An id that could not be added\<close>

definition no_movie_events :: "string \<Rightarrow> (string \<times> pv list) list" where
  "no_movie_events i = [(''movie.is_movie'', [PStr i]), (''notify.frontend'', [PStr ''movie.is_tvshow''])]"

lemma not_a_movie:
  assumes "getImdb (\<lambda>_. None) t False = Inr (Some i)" "\<not> truthy (ans w (fired w) ''movie.is_movie'' [PStr i])"
  shows "call_handler (movie_add [(''identifier'', PStr t)] False False True True []) w
    = (Inr (PBool False), w\<lparr>fired := fired w @ no_movie_events i\<rparr>)"
  using assms by (simp add: call_handler_def movie_add_def py_simps doc_eval Let_def no_movie_events_def)

lemma offered_before: "truthy (first_value (filter (is_prop (added_prop i)) (live_docs (store w)))) \<Longrightarrow> offer i ids w = (Inr ids, w)"
  by (simp add: offer_def py_simps getProperty_first)

text \<open>An id of a list that is no movie for the providers, or for which they do not answer now, counts as added: it is
  never offered again.\<close>

theorem failed_offer_is_last:
  assumes ok: "w_ok w" and imdb: "getImdb (\<lambda>_. None) t False = Inr (Some i)"
    and no: "\<not> truthy (ans w (fired w) ''movie.is_movie'' [PStr i])"
    and run: "offer (PStr t) ids w = (Inr ids', w')"
  shows "ids' = ids \<and> (\<forall>more. offer (PStr t) more w' = (Inr more, w'))"
proof (cases "truthy (first_value (filter (is_prop (added_prop (PStr t))) (live_docs (store w))))")
  case True
  with run offered_before show ?thesis by auto
next
  case False
  note no_movie = not_a_movie [OF imdb no]
  with run False obtain s' where s: "setProperty (added_prop (PStr t)) ''True'' (store w) = (Inr (), s')" "w' = w\<lparr>fired := fired w @ no_movie_events i, store := s'\<rparr>" "ids' = ids"
    by (auto simp: offer_def py_simps getProperty_first no_movie split: sum.splits prod.splits)
  have "db_ok (store w)" using ok by (simp add: w_ok_def)
  from setProperty_reads [OF this s(1)] have "getProperty (added_prop (PStr t)) s' = (Inr (PStr ''True''), s')" by blast
  then show ?thesis using s(2,3) by (simp add: offer_def py_simps)
qed

section \<open>Examples\<close>

lemma empty_property: "query ''property'' k empty_db = Inr []"
  by (simp add: query_def the_index_def index_table_def empty_db_def live_docs_def index_entries_def)

lemma empty_db_ok: "db_ok empty_db"
  by (simp add: db_ok_def empty_db_def)

lemma empty_set:
  "\<exists>t. setProperty i v empty_db = (Inr (), t) \<and> db_ok t"
proof -
  have "length (uuid empty_db n) = 32" for n by (simp add: empty_db_def)
  then have "\<exists>t. setProperty i v empty_db = (Inr (), t)"
    by (simp add: setProperty_def db_get_by_def empty_property py_simps db_insert_def create_new_rev_def draw_rnd_def draw_uuid_def
        id_key_value_def dhas_def dsub_def dput_def lookup_def) (simp add: empty_db_def)
  moreover have "keeps db_step (setProperty i v)"
    unfolding setProperty_def
    by (intro dbf.keeps_intros keeps_db_queries keeps_db_update keeps_db_insert)
  from keepsD [OF this, of empty_db] have "db_ok (snd (setProperty i v empty_db))" using empty_db_ok by (simp add: db_step_def)
  ultimately show ?thesis by auto
qed

theorem property_roundtrip_witness:
  "\<exists>t. setProperty ''manage.last_update'' ''100'' empty_db = (Inr (), t) \<and>
     getProperty ''manage.last_update'' t = (Inr (PStr ''100''), t) \<and>
     fst (getProperty ''messages.last_check'' t) = fst (getProperty ''messages.last_check'' empty_db)"
proof -
  obtain t where "setProperty ''manage.last_update'' ''100'' empty_db = (Inr (), t)" using empty_set by blast
  with property_roundtrip [OF empty_db_ok this] show ?thesis by auto
qed

lemma offer_fails:
  assumes "getProperty (added_prop i) (store w) = (Inr PNone, s)" "call_handler (movie_add [(''identifier'', i)] False False True True []) (w\<lparr>store := s\<rparr>) = (Inr (PBool False), w1)"
    and "setProperty (added_prop i) ''True'' (store w1) = (Inr (), t)"
  shows "offer i ids w = (Inr ids, w1\<lparr>store := t\<rparr>)"
  using assms by (simp add: offer_def py_simps)

theorem failed_offer_is_last_witness:
  "\<exists>w'. offer (PStr ''tt1234'') [] demo_world = (Inr [], w') \<and> offer (PStr ''tt1234'') [] w' = (Inr [], w')"
proof -
  have "simplifyString ''tt1234'' = ''tt1234''" "findall0 imdb_re ''tt1234'' = [''tt1234'']" "imdb_format ''tt1234'' = ''tt0001234''" by code_simp+
  then have i: "getImdb (\<lambda>_. None) ''tt1234'' False = Inr (Some ''tt0001234'')" by (simp add: getImdb_def imdb_ids_def)
  have n: "\<not> truthy (ans demo_world (fired demo_world) ''movie.is_movie'' [PStr ''tt0001234''])" by (simp add: demo_world_def)
  obtain t where t: "setProperty (added_prop (PStr ''tt1234'')) ''True'' empty_db = (Inr (), t)" using empty_set by blast
  have p: "getProperty k (store demo_world) = (Inr PNone, empty_db)" for k
    by (simp add: demo_world_def getProperty_def db_get_by_def empty_property py_simps)
  have d: "demo_world\<lparr>store := empty_db\<rparr> = demo_world" "store demo_world = empty_db" by (simp_all add: demo_world_def)
  have "setProperty (added_prop (PStr ''tt1234'')) ''True'' (store (demo_world\<lparr>fired := fired demo_world @ no_movie_events ''tt0001234''\<rparr>)) = (Inr (), t)"
    using t d by simp
  from offer_fails [OF p, unfolded d(1), OF not_a_movie [OF i n] this]
  have "\<exists>w'. offer (PStr ''tt1234'') [] demo_world = (Inr [], w')" by blast
  then obtain w' where run: "offer (PStr ''tt1234'') [] demo_world = (Inr [], w')" by blast
  have "w_ok demo_world" using empty_db_ok by (simp add: w_ok_def demo_world_def)
  from failed_offer_is_last [OF this i n run] run show ?thesis by blast
qed

end
