(* ===== verification/ByteFile.thy ===== *)
theory ByteFile
  imports Indexes
begin

text \<open>
  The binary files of the database library (libs/codernitydb3): a file as the list of its bytes, read and written
  at a position as io does without a buffer, and the struct format \<open><32s8sIIcI\<close> of a line of the id index
  (libs/codernitydb3/hash_index.py). A byte is a \<open>char\<close>.
\<close>

section \<open>Bytes at a position\<close>

text \<open>\<open>seek(pos)\<close> then \<open>read(n)\<close>, and \<open>seek(pos)\<close> then \<open>write(b)\<close>: what is behind the end when it is written is filled
  with zeros.\<close>

definition read_at :: "string \<Rightarrow> nat \<Rightarrow> nat \<Rightarrow> string" where
  "read_at f pos n = take n (drop pos f)"

definition write_at :: "nat \<Rightarrow> string \<Rightarrow> string \<Rightarrow> string" where
  "write_at pos b f = take pos (f @ replicate (pos - length f) (CHR 0x00)) @ b @ drop (pos + length b) f"

lemma length_write_at: "length (write_at pos b f) = max (length f) (pos + length b)"
  by (simp add: write_at_def)

lemma read_same: "read_at (write_at pos b f) pos (length b) = b"
  by (simp add: read_at_def write_at_def)

lemma read_before:
  assumes "q + n \<le> pos" "q + n \<le> length f" shows "read_at (write_at pos b f) q n = read_at f q n"
  using assms by (simp add: read_at_def write_at_def take_drop min_absorb1)

lemma read_after:
  assumes "pos + length b \<le> q" "pos \<le> length f" shows "read_at (write_at pos b f) q n = read_at f q n"
proof -
  have "drop q (write_at pos b f) = drop q f" using assms by (simp add: write_at_def)
  then show ?thesis by (simp add: read_at_def)
qed

lemma read_elsewhere:
  assumes "q + n \<le> pos \<or> pos + length b \<le> q" "pos \<le> length f" "q + n \<le> length f"
  shows "read_at (write_at pos b f) q n = read_at f q n"
  using assms read_before read_after by blast

lemma read_hole:
  assumes "length f \<le> q" "q + n \<le> pos" shows "read_at (write_at pos b f) q n = replicate n (CHR 0x00)"
proof -
  have "n \<le> pos - q" "length f \<le> pos" using assms by simp_all
  then show ?thesis using assms by (simp add: read_at_def write_at_def take_drop min_def)
qed

lemma length_read_at [simp]: "length (read_at f pos n) = min n (length f - pos)"
  by (simp add: read_at_def)

lemma read_past_end: "length f \<le> pos \<Longrightarrow> read_at f pos n = []"
  by (simp add: read_at_def)

section \<open>Integers of four bytes\<close>

definition le32 :: "nat \<Rightarrow> string" where
  "le32 n = [char_of (n mod 256), char_of (n div 256 mod 256), char_of (n div 65536 mod 256), char_of (n div 16777216 mod 256)]"

definition struct_error :: exn where
  "struct_error = UserError ''struct.error''"

definition pack_I :: "nat \<Rightarrow> string res" where
  "pack_I n = (if n < 2 ^ 32 then Inr (le32 n) else Inl struct_error)"

fun unpack_I :: "string \<Rightarrow> nat res" where
  "unpack_I [a, b, c, d] = Inr (of_char a + 256 * of_char b + 65536 * of_char c + 16777216 * of_char d)"
| "unpack_I _ = Inl struct_error"

lemma length_le32 [simp]: "length (le32 n) = 4"
  by (simp add: le32_def)

lemma char_byte: "of_char (char_of (n mod 256)) = (n mod 256 :: nat)"
  by (simp add: take_bit_eq_mod)

lemma unpack_le32 [simp]: assumes "n < 2 ^ 32" shows "unpack_I (le32 n) = Inr n"
proof -
  have "n div 65536 = n div 256 div 256" "n div 16777216 = n div 65536 div 256" by (simp_all flip: div_mult2_eq)
  then have "n = n mod 256 + 256 * (n div 256)" "n div 256 = n div 256 mod 256 + 256 * (n div 65536)"
       "n div 65536 = n div 65536 mod 256 + 256 * (n div 16777216)" by (metis mod_mult_div_eq)+
  moreover have "n div 16777216 mod 256 = n div 16777216" using assms by simp
  ultimately have "n mod 256 + 256 * (n div 256 mod 256) + 65536 * (n div 65536 mod 256) + 16777216 * (n div 16777216 mod 256) = n" by linarith
  then show ?thesis by (simp only: le32_def unpack_I.simps char_byte)
qed

lemma unpack_I_length: "(\<exists>n. unpack_I b = Inr n) \<longleftrightarrow> length b = 4"
  by (cases b rule: unpack_I.cases) auto

section \<open>A line of the id index\<close>

record line =
  l_key :: string
  l_rev :: string
  l_start :: nat
  l_size :: nat
  l_status :: char
  l_next :: nat

definition entry_line_size :: nat where
  "entry_line_size = 53"

text \<open>\<open>s\<close>: cut or filled with zeros to its width.\<close>

definition pack_s :: "nat \<Rightarrow> string \<Rightarrow> string" where
  "pack_s n b = take n b @ replicate (n - length b) (CHR 0x00)"

definition pack_line :: "line \<Rightarrow> string res" where
  "pack_line e =
     rbind (pack_I (l_start e)) (\<lambda>a. rbind (pack_I (l_size e)) (\<lambda>b. rbind (pack_I (l_next e)) (\<lambda>c.
     Inr (pack_s 32 (l_key e) @ pack_s 8 (l_rev e) @ a @ b @ [l_status e] @ c))))"

definition unpack_line :: "string \<Rightarrow> line res" where
  "unpack_line d =
     (if length d \<noteq> entry_line_size then Inl struct_error
      else rbind (unpack_I (read_at d 40 4)) (\<lambda>a. rbind (unpack_I (read_at d 44 4)) (\<lambda>b. rbind (unpack_I (read_at d 49 4)) (\<lambda>c.
      Inr \<lparr>l_key = take 32 d, l_rev = read_at d 32 8, l_start = a, l_size = b, l_status = d ! 48, l_next = c\<rparr>))))"

text \<open>What fits into a line without being cut or refused.\<close>

definition fits :: "line \<Rightarrow> bool" where
  "fits e \<longleftrightarrow> length (l_key e) = 32 \<and> length (l_rev e) = 8 \<and> l_start e < 2 ^ 32 \<and> l_size e < 2 ^ 32 \<and> l_next e < 2 ^ 32"

lemma pack_s_length [simp]: "length (pack_s n b) = n"
  by (simp add: pack_s_def)

lemma pack_s_exact: "length b = n \<Longrightarrow> pack_s n b = b"
  by (simp add: pack_s_def)

lemma pack_fits:
  assumes "fits e" obtains d where "pack_line e = Inr d" "length d = 53" "unpack_line d = Inr e"
proof
  let ?d = "l_key e @ l_rev e @ le32 (l_start e) @ le32 (l_size e) @ [l_status e] @ le32 (l_next e)"
  show "pack_line e = Inr ?d" using assms by (simp add: pack_line_def fits_def pack_I_def pack_s_exact)
  show "length ?d = 53" using assms by (simp add: fits_def)
  show "unpack_line ?d = Inr e" using assms
    by (simp add: fits_def unpack_line_def entry_line_size_def read_at_def nth_append)
qed

lemma pack_line_ok: "pack_line e = Inr d \<Longrightarrow> length d = 53"
  by (auto simp: pack_line_def pack_I_def rbind_eq_Inr split: if_splits)

lemma unpack_line_short: "length d \<noteq> 53 \<Longrightarrow> unpack_line d = Inl struct_error"
  by (simp add: unpack_line_def entry_line_size_def)

end
