(* ===== verification/HashIndex.thy ===== *)
theory HashIndex
  imports ByteFile
begin

unbundle bit_operations_syntax

text \<open>
  The id index of the database, \<open>IU_UniqueHashIndex\<close> of libs/codernitydb3/hash_index.py: a table of buckets at the
  start of a file, each the position of the first of a chain of lines, and the lines one after the other behind
  it. Python's \<open>hash\<close>, which differs between processes, is a parameter; so is which writes fail, and which keys
  the cache of \<open>_find_key\<close> (rr_cache.py) drops when it is full. A loop over a chain that never ends gives \<open>None\<close>.
\<close>

section \<open>State\<close>

record hparams =
  hash_lim :: nat
  key_hash :: "string \<Rightarrow> int"

text \<open>\<open>Unused\<close> is the answer \<open>(None, None, 0, 0, 'u')\<close>.\<close>

datatype found = Unused | Found (found_key: string) (found_rev: string) (found_start: nat) (found_size: nat) (found_status: char)

record hfile =
  buck :: string
  stor :: string
  kcache :: "(string \<times> found) list"
  picks :: "nat \<Rightarrow> nat"
  picked :: nat
  write_fails :: "nat \<Rightarrow> bool"
  written :: nat

abbreviation ElemNotFound :: exn where
  "ElemNotFound \<equiv> UserError ''ElemNotFound''"

definition start_ind :: nat where
  "start_ind = 500"

definition data_start :: "hparams \<Rightarrow> nat" where
  "data_start P = (hash_lim P + 1) * 4 + start_ind + 2"

definition bucket_number :: "hparams \<Rightarrow> string \<Rightarrow> nat" where
  "bucket_number P key = nat (key_hash P key AND int (hash_lim P))"

definition calculate_position :: "hparams \<Rightarrow> string \<Rightarrow> nat" where
  "calculate_position P key = bucket_number P key * 4 + start_ind"

text \<open>The position in the bucket of a key; nothing where the file ends before the bucket.\<close>

definition bucket_of :: "hparams \<Rightarrow> string \<Rightarrow> string \<Rightarrow> nat option res" where
  "bucket_of P key f =
     (let curr_data = read_at f (calculate_position P key) 4 in
      if curr_data = [] then Inr None else rbind (unpack_I curr_data) (\<lambda>n. Inr (Some n)))"

section \<open>Writing\<close>

definition write_buck :: "nat \<Rightarrow> string \<Rightarrow> (hfile, unit) py" where
  "write_buck pos b =
     (\<lambda>s. if write_fails s (written s) then (Inl OSError, s\<lparr>written := Suc (written s)\<rparr>)
          else (Inr (), s\<lparr>buck := write_at pos b (buck s), written := Suc (written s)\<rparr>))"

definition write_line :: "nat \<Rightarrow> line \<Rightarrow> (hfile, unit) py" where
  "write_line pos e = bnd (liftr (pack_line e)) (write_buck pos)"

text \<open>The end of the file, or the place of the first line.\<close>

definition end_of_lines :: "hparams \<Rightarrow> (hfile, nat) py" where
  "end_of_lines P = gets (\<lambda>s. max (length (buck s)) (data_start P))"

section \<open>The cache of \<open>_find_key\<close>\<close>

definition forget :: "string \<Rightarrow> (hfile, unit) py" where
  "forget key = modify (\<lambda>s. s\<lparr>kcache := filter (\<lambda>(k, v). k \<noteq> key) (kcache s)\<rparr>)"

fun drop_some :: "nat \<Rightarrow> hfile \<Rightarrow> hfile" where
  "drop_some 0 s = s"
| "drop_some (Suc n) s =
     (let i = picks s (picked s) mod length (kcache s)
      in drop_some n (s\<lparr>kcache := take i (kcache s) @ drop (Suc i) (kcache s), picked := Suc (picked s)\<rparr>))"

section \<open>Walking a chain\<close>

partial_function (option) locate_key :: "string \<Rightarrow> string \<Rightarrow> nat \<Rightarrow> (nat \<times> line) res option" where
  "locate_key f key location =
     (case unpack_line (read_at f location entry_line_size) of
        Inl x \<Rightarrow> Some (Inl ElemNotFound)
      | Inr e \<Rightarrow> if l_key e = key then Some (Inr (location, e))
                else if l_next e = 0 then Some (Inl ElemNotFound)
                else locate_key f key (l_next e))"

partial_function (option) find_place :: "string \<Rightarrow> string \<Rightarrow> nat \<Rightarrow> (nat \<times> line) res option" where
  "find_place f key location =
     (case unpack_line (read_at f location entry_line_size) of
        Inl x \<Rightarrow> Some (Inl x)
      | Inr e \<Rightarrow> if l_key e = key then Some (Inl (UserError ''IndexException''))
                else if l_next e = 0 \<or> l_status e = CHR ''d'' then Some (Inr (location, e))
                else find_place f key (l_next e))"

section \<open>The operations\<close>

definition find_key :: "hparams \<Rightarrow> string \<Rightarrow> string \<Rightarrow> found res option" where
  "find_key P key f =
     (case bucket_of P key f of
        Inl x \<Rightarrow> Some (Inl x)
      | Inr None \<Rightarrow> Some (Inr Unused)
      | Inr (Some location) \<Rightarrow>
          map_option (\<lambda>r. rbind r (\<lambda>(p, e). Inr (Found (l_key e) (l_rev e) (l_start e) (l_size e) (l_status e))))
            (locate_key f key location))"

definition index_get :: "hparams \<Rightarrow> string \<Rightarrow> hfile \<Rightarrow> (found res \<times> hfile) option" where
  "index_get P key s =
     (case map_of (kcache s) key of
        Some v \<Rightarrow> Some (Inr v, s)
      | None \<Rightarrow>
          let t = (if length (kcache s) = 100 then drop_some 10 s else s) in
          map_option (\<lambda>r. (r, case r of Inl x \<Rightarrow> t | Inr v \<Rightarrow> t\<lparr>kcache := kcache t @ [(key, v)]\<rparr>)) (find_key P key (buck t)))"

definition write_update :: "string \<Rightarrow> string \<Rightarrow> nat \<Rightarrow> nat \<Rightarrow> char \<Rightarrow> (nat \<times> line) res \<Rightarrow> (hfile, bool) py" where
  "write_update key rv u_start u_size u_status r =
     bnd (liftr r) (\<lambda>(found_at, e).
     bnd (write_line found_at \<lparr>l_key = key, l_rev = rv, l_start = (if u_start = 0 then l_start e else u_start),
            l_size = (if u_size = 0 then l_size e else u_size), l_status = u_status, l_next = l_next e\<rparr>) (\<lambda>_.
     bnd (forget key) (\<lambda>_. ret True)))"

definition index_update :: "hparams \<Rightarrow> string \<Rightarrow> string \<Rightarrow> nat \<Rightarrow> nat \<Rightarrow> char \<Rightarrow> hfile \<Rightarrow> (bool res \<times> hfile) option" where
  "index_update P key rv u_start u_size u_status s =
     (case bucket_of P key (buck s) of
        Inl x \<Rightarrow> Some (Inl x, s)
      | Inr None \<Rightarrow> Some (Inl ElemNotFound, s)
      | Inr (Some location) \<Rightarrow>
          map_option (\<lambda>r. write_update key rv u_start u_size u_status r s) (locate_key (buck s) key location))"

definition index_delete :: "hparams \<Rightarrow> string \<Rightarrow> hfile \<Rightarrow> (unit res \<times> hfile) option" where
  "index_delete P key s =
     map_option (\<lambda>(r, t). (rbind r (\<lambda>_. Inr ()), t)) (index_update P key ''00000000'' 0 0 (CHR ''d'') s)"

definition insert_linked :: "hparams \<Rightarrow> string \<Rightarrow> string \<Rightarrow> nat \<Rightarrow> nat \<Rightarrow> (nat \<times> line) res \<Rightarrow> (hfile, bool) py" where
  "insert_linked P key rv start sz r =
     bnd (liftr r) (\<lambda>(found_at, e).
     bnd (end_of_lines P) (\<lambda>wrote_at.
     bnd (write_line wrote_at \<lparr>l_key = key, l_rev = rv, l_start = start, l_size = sz, l_status = CHR ''o'', l_next = l_next e\<rparr>) (\<lambda>_.
     bnd (write_line found_at (e\<lparr>l_next := wrote_at\<rparr>)) (\<lambda>_.
     bnd (forget (l_key e)) (\<lambda>_. ret True)))))"

definition insert_first :: "hparams \<Rightarrow> string \<Rightarrow> string \<Rightarrow> nat \<Rightarrow> nat \<Rightarrow> (hfile, bool) py" where
  "insert_first P key rv start sz =
     bnd (end_of_lines P) (\<lambda>wrote_at.
     bnd (write_line wrote_at \<lparr>l_key = key, l_rev = rv, l_start = start, l_size = sz, l_status = CHR ''o'', l_next = 0\<rparr>) (\<lambda>_.
     bnd (liftr (pack_I wrote_at)) (\<lambda>d.
     bnd (write_buck (calculate_position P key) d) (\<lambda>_.
     bnd (forget key) (\<lambda>_. ret True)))))"

definition index_insert :: "hparams \<Rightarrow> string \<Rightarrow> string \<Rightarrow> nat \<Rightarrow> nat \<Rightarrow> hfile \<Rightarrow> (bool res \<times> hfile) option" where
  "index_insert P key rv start sz s =
     (case bucket_of P key (buck s) of
        Inl x \<Rightarrow> Some (Inl x, s)
      | Inr (Some (Suc n)) \<Rightarrow> map_option (\<lambda>r. insert_linked P key rv start sz r s) (find_place (buck s) key (Suc n))
      | _ \<Rightarrow> Some (insert_first P key rv start sz s))"

section \<open>Chains of lines\<close>

fun path :: "(nat \<Rightarrow> line option) \<Rightarrow> nat \<Rightarrow> nat list \<Rightarrow> nat \<Rightarrow> bool" where
  "path c p [] r = (p = r)"
| "path c p (q # qs) r = (p = q \<and> q \<noteq> 0 \<and> (\<exists>e. c q = Some e \<and> path c (l_next e) qs r))"

abbreviation chain :: "(nat \<Rightarrow> line option) \<Rightarrow> nat \<Rightarrow> nat list \<Rightarrow> bool" where
  "chain c p ps \<equiv> path c p ps 0"

lemma path_append: "path c p (ps @ qs) r = (\<exists>x. path c p ps x \<and> path c x qs r)"
  by (induction ps arbitrary: p) auto

lemma path_upd [simp]: "q \<notin> set ps \<Longrightarrow> path (c(q := x)) p ps r = path c p ps r"
  by (induction ps arbitrary: p) auto

lemma path_cells: "path c p ps r \<Longrightarrow> q \<in> set ps \<Longrightarrow> \<exists>e. c q = Some e"
  by (induction ps arbitrary: p) auto

lemma chain_unique: "chain c p ps \<Longrightarrow> chain c p qs \<Longrightarrow> ps = qs"
proof (induction ps arbitrary: p qs)
  case Nil then show ?case by (cases qs) auto
next
  case (Cons a ps) then show ?case by (cases qs) auto
qed

lemma chain_distinct: "chain c p ps \<Longrightarrow> distinct ps"
proof (induction ps arbitrary: p)
  case (Cons a ps)
  have "a \<notin> set ps"
  proof
    assume "a \<in> set ps"
    then obtain xs ys where ps: "ps = xs @ a # ys" by (meson split_list)
    from Cons.prems obtain e where e: "c a = Some e" "chain c (l_next e) ps" by auto
    then have "chain c a (a # ys)" unfolding ps by (auto simp: path_append)
    moreover have "chain c a (a # ps)" using Cons.prems by auto
    ultimately have "ys = ps" using chain_unique by blast
    then show False using ps by simp
  qed
  with Cons show ?case by auto
qed simp

text \<open>The line a chain has for a key: the first one with it.\<close>

definition has_key :: "(nat \<Rightarrow> line option) \<Rightarrow> string \<Rightarrow> nat \<Rightarrow> bool" where
  "has_key c k q \<longleftrightarrow> map_option l_key (c q) = Some k"

definition line_for :: "(nat \<Rightarrow> line option) \<Rightarrow> nat list \<Rightarrow> string \<Rightarrow> line option" where
  "line_for c ps k = Option.bind (find (has_key c k) ps) c"

text \<open>What a line says, apart from where the next one is.\<close>

definition content :: "line \<Rightarrow> found" where
  "content e = Found (l_key e) (l_rev e) (l_start e) (l_size e) (l_status e)"

lemma line_for_simps [simp]:
  "line_for c [] k = None"
  "line_for c (q # qs) k = (if has_key c k q then c q else line_for c qs k)"
  by (auto simp: line_for_def)

lemma line_for_append:
  "line_for c (ps @ qs) k = (if \<exists>q \<in> set ps. has_key c k q then line_for c ps k else line_for c qs k)"
  by (induction ps) (auto simp: has_key_def)

lemma line_for_upd: "q \<notin> set ps \<Longrightarrow> line_for (c(q := x)) ps k = line_for c ps k"
  by (induction ps) (auto simp: has_key_def)

lemma line_for_None: "line_for c ps k = None \<longleftrightarrow> (\<forall>q \<in> set ps. \<not> has_key c k q)"
  by (induction ps) (auto simp: has_key_def)

lemma line_for_key: "line_for c ps k = Some e \<Longrightarrow> l_key e = k"
  by (induction ps) (auto simp: has_key_def split: if_splits)

lemma line_for_SomeD: "line_for c ps k = Some e \<Longrightarrow> \<exists>xs q ys. ps = xs @ q # ys \<and> c q = Some e \<and> (\<forall>x \<in> set xs. \<not> has_key c k x)"
proof (induction ps)
  case (Cons a ps)
  show ?case
  proof (cases "has_key c k a")
    case True with Cons.prems show ?thesis by (intro exI [of _ "[]"]) auto
  next
    case False
    with Cons obtain xs q ys where "ps = xs @ q # ys" "c q = Some e" "\<forall>x \<in> set xs. \<not> has_key c k x" by auto
    with False have "a # ps = (a # xs) @ q # ys \<and> c q = Some e \<and> (\<forall>x \<in> set (a # xs). \<not> has_key c k x)" by simp
    then show ?thesis by blast
  qed
qed simp

section \<open>What the operations rely on\<close>

text \<open>A table of buckets and lines at positions: a line is written at the place of an old one or at the next free
  place, and a bucket is linked to a line that is there. Then rewriting a line, putting one behind another and
  putting the first one into a bucket keep the chains of all buckets, and change what the table has for one key.\<close>

locale line_store =
  fixes head :: "'f \<Rightarrow> nat \<Rightarrow> nat"
    and cells :: "'f \<Rightarrow> nat \<Rightarrow> line option"
    and put :: "nat \<Rightarrow> line \<Rightarrow> 'f \<Rightarrow> 'f"
    and link :: "nat \<Rightarrow> nat \<Rightarrow> 'f \<Rightarrow> 'f"
    and fresh :: "'f \<Rightarrow> nat"
    and ok :: "'f \<Rightarrow> bool"
    and lim :: nat
    and slot :: "string \<Rightarrow> nat"
  assumes cells_put: "\<lbrakk>ok f; fits e; p = fresh f \<or> cells f p \<noteq> None\<rbrakk> \<Longrightarrow> cells (put p e f) = (cells f)(p := Some e)"
    and head_put: "\<lbrakk>ok f; fits e; p = fresh f \<or> cells f p \<noteq> None; b \<le> lim\<rbrakk> \<Longrightarrow> head (put p e f) b = head f b"
    and ok_put: "\<lbrakk>ok f; fits e; p = fresh f \<or> cells f p \<noteq> None\<rbrakk> \<Longrightarrow> ok (put p e f)"
    and cells_link: "\<lbrakk>ok f; b \<le> lim; p < 2 ^ 32; cells f p \<noteq> None\<rbrakk> \<Longrightarrow> cells (link b p f) = cells f"
    and head_link: "\<lbrakk>ok f; b \<le> lim; p < 2 ^ 32; cells f p \<noteq> None; b' \<le> lim\<rbrakk> \<Longrightarrow> head (link b p f) b' = (if b' = b then p else head f b')"
    and ok_link: "\<lbrakk>ok f; b \<le> lim; p < 2 ^ 32; cells f p \<noteq> None\<rbrakk> \<Longrightarrow> ok (link b p f)"
    and fresh_new: "ok f \<Longrightarrow> cells f (fresh f) = None"
    and fresh_pos: "fresh f \<noteq> 0"
    and slot_lim: "slot k \<le> lim"
begin

definition bucket_ok :: "'f \<Rightarrow> (string \<Rightarrow> found option) \<Rightarrow> nat \<Rightarrow> nat list \<Rightarrow> bool" where
  "bucket_ok f m b ps \<longleftrightarrow> chain (cells f) (head f b) ps \<and> (\<forall>q \<in> set ps. \<forall>e. cells f q = Some e \<longrightarrow> fits e \<and> slot (l_key e) = b) \<and>
     (\<forall>k. slot k = b \<longrightarrow> m k = map_option content (line_for (cells f) ps k))"

definition implements :: "'f \<Rightarrow> (string \<Rightarrow> found option) \<Rightarrow> bool" where
  "implements f m \<longleftrightarrow> ok f \<and> (\<forall>b \<le> lim. \<exists>ps. bucket_ok f m b ps)"

lemma implementsE:
  assumes "implements f m" obtains ps where "bucket_ok f m (slot k) ps"
  using assms slot_lim by (auto simp: implements_def)

lemma other_bucket:
  assumes "bucket_ok f m b ps" "b \<noteq> slot k" and "cells g = (cells f)(q := x)" "q \<notin> set ps" "head g b = head f b" "m' = m(k := y)"
  shows "bucket_ok g m' b ps"
  using assms by (auto simp: bucket_ok_def line_for_upd)

lemma in_bucket: "bucket_ok f m b ps \<Longrightarrow> q \<in> set ps \<Longrightarrow> \<exists>e. cells f q = Some e \<and> fits e \<and> slot (l_key e) = b"
  using path_cells by (fastforce simp: bucket_ok_def)

text \<open>A line that no chain has yet.\<close>

lemma put_fresh:
  assumes im: "implements f m" and e: "fits e" shows "implements (put (fresh f) e f) m"
proof -
  have ok: "ok f" using im by (simp add: implements_def)
  have c: "cells (put (fresh f) e f) = (cells f)(fresh f := Some e)" using cells_put ok e by blast
  have "bucket_ok (put (fresh f) e f) m b ps" if "bucket_ok f m b ps" "b \<le> lim" for b ps
  proof -
    have n: "fresh f \<notin> set ps" using in_bucket [OF that(1)] fresh_new [OF ok] by fastforce
    then have "q \<in> set ps \<Longrightarrow> cells (put (fresh f) e f) q = cells f q" for q using c by auto
    with n show ?thesis using that head_put [OF ok e _ that(2)] c by (auto simp: bucket_ok_def line_for_upd)
  qed
  with im ok_put [OF ok e] show ?thesis unfolding implements_def by blast
qed

text \<open>The first line with a key is written again.\<close>

lemma put_again:
  assumes im: "implements f m" and b: "bucket_ok f m (slot k) (xs @ q # ys)"
    and q: "cells f q = Some e0" "l_key e0 = k" "\<forall>x \<in> set xs. \<not> has_key (cells f) k x"
    and e: "fits e" "l_key e = k" "l_next e = l_next e0"
  shows "implements (put q e f) (m(k \<mapsto> content e))"
proof -
  have ok: "ok f" using im by (simp add: implements_def)
  let ?g = "put q e f"
  have c: "cells ?g = (cells f)(q := Some e)" and okg: "ok ?g" using cells_put ok_put ok e q by auto
  have h: "b \<le> lim \<Longrightarrow> head ?g b = head f b" for b using head_put ok e q by blast
  have ch: "chain (cells f) (head f (slot k)) (xs @ q # ys)" using b by (simp add: bucket_ok_def)
  then have d: "q \<notin> set xs" "q \<notin> set ys" using chain_distinct by fastforce+
  have "bucket_ok ?g (m(k \<mapsto> content e)) (slot k) (xs @ q # ys)"
    unfolding bucket_ok_def
  proof (intro conjI ballI allI impI)
    show "chain (cells ?g) (head ?g (slot k)) (xs @ q # ys)"
      using ch d q(1) e(3) unfolding c h [OF slot_lim] by (auto simp: path_append)
    show "fits e'" if "q' \<in> set (xs @ q # ys)" "cells ?g q' = Some e'" for q' e'
      using in_bucket [OF b that(1)] that(2) e(1) by (auto simp: c split: if_splits)
    show "slot (l_key e') = slot k" if "q' \<in> set (xs @ q # ys)" "cells ?g q' = Some e'" for q' e'
      using in_bucket [OF b that(1)] that(2) e(2) by (auto simp: c split: if_splits)
    show "(m(k \<mapsto> content e)) k' = map_option content (line_for (cells ?g) (xs @ q # ys) k')" if "slot k' = slot k" for k'
    proof -
      have "m k' = map_option content (line_for (cells f) (xs @ q # ys) k')" using b that by (simp add: bucket_ok_def)
      moreover have "has_key (cells ?g) k' x = has_key (cells f) k' x" if "x \<in> set xs" for x
        using that d(1) by (auto simp: has_key_def c)
      ultimately show ?thesis using d q e(2) by (auto simp: line_for_append c line_for_upd has_key_def)
    qed
  qed
  moreover have "bucket_ok ?g (m(k \<mapsto> content e)) b' ps" if "bucket_ok f m b' ps" "b' \<le> lim" "b' \<noteq> slot k" for b' ps
  proof -
    have "q \<notin> set ps" using in_bucket [OF that(1)] q that(3) by fastforce
    then show ?thesis using other_bucket [OF that(1,3) c _ h [OF that(2)]] by blast
  qed
  ultimately show ?thesis using im okg unfolding implements_def by metis
qed

text \<open>A new line behind the line at \<open>q\<close>: none of the lines up to there has its key.\<close>

lemma put_behind:
  assumes im: "implements f m" and b: "bucket_ok f m (slot k) (xs @ q # ys)"
    and q: "cells f q = Some e0" "\<forall>x \<in> set (xs @ [q]). \<not> has_key (cells f) k x"
    and e: "fits e" "l_key e = k" "l_next e = l_next e0" and n: "fresh f < 2 ^ 32"
  shows "implements (put q (e0\<lparr>l_next := fresh f\<rparr>) (put (fresh f) e f)) (m(k \<mapsto> content e))"
proof -
  let ?w = "fresh f" let ?f1 = "put ?w e f" let ?e1 = "e0\<lparr>l_next := ?w\<rparr>" let ?g = "put q ?e1 ?f1"
  have ok: "ok f" using im by (simp add: implements_def)
  have e0: "fits e0" "slot (l_key e0) = slot k" using in_bucket [OF b, of q] q(1) by auto
  then have e1: "fits ?e1" using n by (simp add: fits_def)
  have ok1: "ok ?f1" using ok_put ok e(1) by blast
  have c1: "cells ?f1 = (cells f)(?w := Some e)" using cells_put ok e(1) by blast
  have neq: "?w \<noteq> q" using fresh_new [OF ok] q(1) by auto
  then have there: "cells ?f1 q \<noteq> None" using q(1) c1 by simp
  have c: "cells ?g = (cells f)(?w := Some e, q := Some ?e1)" using cells_put [OF ok1 e1] there c1 by simp
  have okg: "ok ?g" using ok_put [OF ok1 e1] there by blast
  have h: "b \<le> lim \<Longrightarrow> head ?g b = head f b" for b
    using head_put [OF ok e(1)] head_put [OF ok1 e1] there by metis
  have ch: "chain (cells f) (head f (slot k)) (xs @ q # ys)" using b by (simp add: bucket_ok_def)
  then have d: "q \<notin> set xs" "q \<notin> set ys" using chain_distinct by fastforce+
  have w: "?w \<notin> set ps" if "bucket_ok f m b' ps" for b' ps using in_bucket [OF that] fresh_new [OF ok] by fastforce
  have wb: "?w \<notin> set xs" "?w \<notin> set ys" using w [OF b] by auto
  have "bucket_ok ?g (m(k \<mapsto> content e)) (slot k) (xs @ q # ?w # ys)"
    unfolding bucket_ok_def
  proof (intro conjI ballI allI impI)
    show "chain (cells ?g) (head ?g (slot k)) (xs @ q # ?w # ys)"
      using ch d wb q(1) e(3) fresh_pos neq unfolding c h [OF slot_lim] by (auto simp: path_append)
    show "fits e'" if "q' \<in> set (xs @ q # ?w # ys)" "cells ?g q' = Some e'" for q' e'
      using in_bucket [OF b, of q'] that e(1) e1 by (auto simp: c split: if_splits)
    show "slot (l_key e') = slot k" if "q' \<in> set (xs @ q # ?w # ys)" "cells ?g q' = Some e'" for q' e'
      using in_bucket [OF b, of q'] that e(2) e0(2) by (auto simp: c split: if_splits)
    show "(m(k \<mapsto> content e)) k' = map_option content (line_for (cells ?g) (xs @ q # ?w # ys) k')" if "slot k' = slot k" for k'
    proof -
      have m: "m k' = map_option content (line_for (cells f) (xs @ q # ys) k')" using b that by (simp add: bucket_ok_def)
      have x: "has_key (cells ?g) k' x = has_key (cells f) k' x" if "x \<in> set xs" for x
        using that d(1) wb(1) by (auto simp: has_key_def c)
      have l: "line_for (cells ?g) zs k' = line_for (cells f) zs k'" if "zs \<in> {xs, ys}" for zs
        using that d wb unfolding c by (auto simp: line_for_upd)
      have hq: "has_key (cells ?g) k' q = has_key (cells f) k' q" "has_key (cells ?g) k' ?w \<longleftrightarrow> k' = k"
        "cells ?g q = Some ?e1" "cells ?g ?w = Some e"
        using q(1) e(2) neq by (auto simp: has_key_def c)
      have "content ?e1 = content e0" by (simp add: content_def)
      then show ?thesis using m x l hq q
        by (cases "k' = k") (auto simp: line_for_append)
    qed
  qed
  moreover have "bucket_ok ?g (m(k \<mapsto> content e)) b' ps" if "bucket_ok f m b' ps" "b' \<le> lim" "b' \<noteq> slot k" for b' ps
  proof -
    have nq: "q \<notin> set ps" using in_bucket [OF that(1)] q(1) e0(2) that(3) by fastforce
    have "bucket_ok ?f1 (m(k \<mapsto> content e)) b' ps"
      using other_bucket [OF that(1,3) c1 w [OF that(1)] _ refl] head_put [OF ok e(1) _ that(2)] by blast
    moreover have "cells ?g = (cells ?f1)(q := Some ?e1)" using c c1 by simp
    ultimately show ?thesis
      using other_bucket [OF _ that(3) _ nq, of ?f1 "m(k \<mapsto> content e)" ?g "Some ?e1" _ "Some (content e)"] h [OF that(2)]
        head_put [OF ok e(1) _ that(2)] by (metis fun_upd_upd)
  qed
  ultimately show ?thesis using im okg unfolding implements_def by metis
qed

text \<open>The first line of a bucket.\<close>

lemma link_first:
  assumes im: "implements f m" and h0: "head f (slot k) = 0"
    and e: "fits e" "l_key e = k" "l_next e = 0" and n: "fresh f < 2 ^ 32"
  shows "implements (link (slot k) (fresh f) (put (fresh f) e f)) (m(k \<mapsto> content e))"
proof -
  let ?w = "fresh f" let ?f1 = "put ?w e f" let ?g = "link (slot k) ?w ?f1"
  have ok: "ok f" using im by (simp add: implements_def)
  have ok1: "ok ?f1" using ok_put ok e(1) by blast
  have c1: "cells ?f1 = (cells f)(?w := Some e)" using cells_put ok e(1) by blast
  then have there: "cells ?f1 ?w \<noteq> None" by simp
  note lk = ok1 slot_lim n there
  have c: "cells ?g = (cells f)(?w := Some e)" using cells_link [OF lk] c1 by simp
  have okg: "ok ?g" using ok_link [OF lk] .
  have h: "b \<le> lim \<Longrightarrow> head ?g b = (if b = slot k then ?w else head f b)" for b
    using head_link [OF lk] head_put [OF ok e(1)] by auto
  from implementsE [OF im] obtain ps where b: "bucket_ok f m (slot k) ps" by blast
  then have "chain (cells f) 0 ps" using h0 by (simp add: bucket_ok_def)
  then have ps: "ps = []" by (cases ps) auto
  have "bucket_ok ?g (m(k \<mapsto> content e)) (slot k) [?w]"
    using b e fresh_pos unfolding ps bucket_ok_def c by (auto simp: h [OF slot_lim] has_key_def)
  moreover have "bucket_ok ?g (m(k \<mapsto> content e)) b' ps" if "bucket_ok f m b' ps" "b' \<le> lim" "b' \<noteq> slot k" for b' ps
  proof -
    have "?w \<notin> set ps" using in_bucket [OF that(1)] fresh_new [OF ok] by fastforce
    then show ?thesis using other_bucket [OF that(1,3) c _ _ refl] h [OF that(2)] that(3) by auto
  qed
  ultimately show ?thesis using im okg unfolding implements_def by metis
qed

end

end
