(* ===== verification/HashFile.thy ===== *)
theory HashFile
  imports HashIndex
begin

unbundle bit_operations_syntax

text \<open>
  The file of the id index as a table of buckets and lines: the interpretation of \<open>line_store\<close> on bytes, and what
  every operation of theory \<open>HashIndex\<close> does to the map from keys to lines that the file implements, whatever
  write fails.
\<close>

section \<open>Buckets and lines in the bytes\<close>

definition head_at :: "string \<Rightarrow> nat \<Rightarrow> nat" where
  "head_at f b = (case unpack_I (read_at f (b * 4 + start_ind) 4) of Inr n \<Rightarrow> n | Inl _ \<Rightarrow> 0)"

definition line_place :: "hparams \<Rightarrow> nat \<Rightarrow> bool" where
  "line_place P p \<longleftrightarrow> data_start P \<le> p \<and> 53 dvd (p - data_start P)"

definition cells_at :: "hparams \<Rightarrow> string \<Rightarrow> nat \<Rightarrow> line option" where
  "cells_at P f p =
     (if line_place P p \<and> p + 53 \<le> length f
      then (case unpack_line (read_at f p entry_line_size) of Inr e \<Rightarrow> Some e | Inl _ \<Rightarrow> None) else None)"

definition put_line :: "nat \<Rightarrow> line \<Rightarrow> string \<Rightarrow> string" where
  "put_line p e f = (case pack_line e of Inr d \<Rightarrow> write_at p d f | Inl _ \<Rightarrow> f)"

definition link_bucket :: "nat \<Rightarrow> nat \<Rightarrow> string \<Rightarrow> string" where
  "link_bucket b p f = write_at (b * 4 + start_ind) (le32 p) f"

definition fresh_at :: "hparams \<Rightarrow> string \<Rightarrow> nat" where
  "fresh_at P f = max (length f) (data_start P)"

text \<open>Only the properties, or the whole table of buckets and then whole lines.\<close>

definition file_ok :: "hparams \<Rightarrow> string \<Rightarrow> bool" where
  "file_ok P f \<longleftrightarrow> length f \<le> start_ind \<or> line_place P (length f)"

lemma bucket_bound: "bucket_number P k \<le> hash_lim P"
proof -
  have "key_hash P k AND int (hash_lim P) \<le> int (hash_lim P)" by (simp add: AND_upper2')
  then show ?thesis by (simp add: bucket_number_def nat_le_iff)
qed

lemma bucket_before: "b \<le> hash_lim P \<Longrightarrow> b * 4 + start_ind + 4 \<le> data_start P"
  by (simp add: data_start_def)

lemma places_apart:
  assumes "line_place P p" "line_place P q" "p \<noteq> q" shows "p + 53 \<le> q \<or> q + 53 \<le> p"
proof -
  from assms obtain i j where "p = data_start P + 53 * i" "q = data_start P + 53 * j"
    unfolding line_place_def dvd_def by (metis le_add_diff_inverse)
  moreover then have "i < j \<or> j < i" using assms(3) by auto
  ultimately show ?thesis by auto
qed

lemma next_place: "line_place P p \<Longrightarrow> line_place P (p + 53)"
proof -
  assume p: "line_place P p"
  then have "p + 53 - data_start P = (p - data_start P) + 53" by (simp add: line_place_def)
  moreover have "53 dvd (p - data_start P) + 53" using p by (intro dvd_add) (simp_all add: line_place_def)
  ultimately show ?thesis using p by (metis line_place_def trans_le_add1)
qed

lemma fresh_place: "file_ok P f \<Longrightarrow> line_place P (fresh_at P f)"
  by (auto simp: file_ok_def fresh_at_def line_place_def max_def data_start_def)

lemma unpack_53: "length d = 53 \<Longrightarrow> \<exists>e. unpack_line d = Inr e"
proof -
  assume d: "length d = 53"
  then have "\<exists>n. unpack_I (read_at d q 4) = Inr n" if "q \<le> 49" for q using that unpack_I_length [of "read_at d q 4"] by simp
  from this [of 40] this [of 44] this [of 49] obtain a b c where
    "unpack_I (read_at d 40 4) = Inr a" "unpack_I (read_at d 44 4) = Inr b" "unpack_I (read_at d 49 4) = Inr c" by auto
  with d show ?thesis by (simp add: unpack_line_def entry_line_size_def)
qed

lemma cells_there: "cells_at P f p \<noteq> None \<longleftrightarrow> line_place P p \<and> p + 53 \<le> length f"
  using unpack_53 [of "read_at f p 53"] by (auto simp: cells_at_def entry_line_size_def)

lemma there_ok: "file_ok P f \<Longrightarrow> p = fresh_at P f \<or> cells_at P f p \<noteq> None \<Longrightarrow> line_place P p \<and> (p + 53 \<le> length f \<or> p = fresh_at P f)"
  using fresh_place cells_there by blast

lemma put_line_write:
  assumes "fits e" obtains d where "put_line p e f = write_at p d f" "length d = 53" "unpack_line d = Inr e"
  using pack_fits [OF assms] by (metis put_line_def sum.simps(6))

lemma length_put:
  assumes "file_ok P f" "fits e" "p = fresh_at P f \<or> cells_at P f p \<noteq> None"
  shows "length (put_line p e f) = (if cells_at P f p \<noteq> None then length f else p + 53)"
proof -
  obtain d where d: "put_line p e f = write_at p d f" "length d = 53" using put_line_write [OF assms(2)] by metis
  show ?thesis using there_ok [OF assms(1,3)] cells_there [of P f p] unfolding d(1) length_write_at d(2)
    by (auto simp: fresh_at_def)
qed

lemma file_put_ok:
  assumes "file_ok P f" "fits e" "p = fresh_at P f \<or> cells_at P f p \<noteq> None" shows "file_ok P (put_line p e f)"
proof (cases "cells_at P f p = None")
  case True
  have "line_place P (p + 53)" using there_ok [OF assms(1,3)] next_place by blast
  with True length_put [OF assms] show ?thesis by (simp add: file_ok_def)
next
  case False
  with assms(1) length_put [OF assms] show ?thesis by (simp add: file_ok_def)
qed

lemma cells_put_line:
  assumes "file_ok P f" "fits e" "p = fresh_at P f \<or> cells_at P f p \<noteq> None"
  shows "cells_at P (put_line p e f) = (cells_at P f)(p := Some e)"
proof
  fix q
  obtain d where d: "put_line p e f = write_at p d f" "length d = 53" "unpack_line d = Inr e" using put_line_write [OF assms(2)] .
  have p: "line_place P p" using there_ok [OF assms(1,3)] by blast
  show "cells_at P (put_line p e f) q = ((cells_at P f)(p := Some e)) q"
  proof (cases "q = p")
    case True
    have "read_at (write_at p d f) p 53 = d" using read_same [of p d f] d(2) by simp
    then show ?thesis using True p d length_write_at [of p d f] by (simp add: cells_at_def entry_line_size_def)
  next
    case False
    show ?thesis
    proof (cases "line_place P q \<and> q + 53 \<le> length f")
      case True
      then have "read_at (write_at p d f) q 53 = read_at f q 53"
        using places_apart [OF p _ False [symmetric]] read_before [of q 53 p f d] read_after [of p d q f 53] d(2) by auto
      then show ?thesis using True False d(1) length_write_at [of p d f] by (auto simp: cells_at_def entry_line_size_def)
    next
      case no: False
      have "\<not> (line_place P q \<and> q + 53 \<le> length (put_line p e f))"
      proof
        assume a: "line_place P q \<and> q + 53 \<le> length (put_line p e f)"
        with no have "cells_at P f p = None" using length_put [OF assms] by (auto split: if_splits)
        then have pf: "p = fresh_at P f" and len: "length (put_line p e f) = p + 53" using assms(3) length_put [OF assms] by auto
        then have "q + 53 \<le> p" using places_apart [OF p _ False [symmetric]] a by auto
        moreover have "length f < q + 53" "data_start P \<le> q" using no a by (auto simp: line_place_def)
        ultimately show False using pf by (simp add: fresh_at_def)
      qed
      with no False show ?thesis by (auto simp: cells_at_def)
    qed
  qed
qed

lemma unpack_zero: "unpack_I (replicate 4 (CHR 0x00)) = Inr 0"
proof -
  have "replicate 4 x = [x, x, x, x]" for x :: char by (simp add: numeral_eq_Suc)
  then show ?thesis by simp
qed

lemma head_put_line:
  assumes "file_ok P f" "fits e" "p = fresh_at P f \<or> cells_at P f p \<noteq> None" "b \<le> hash_lim P"
  shows "head_at (put_line p e f) b = head_at f b"
proof -
  obtain d where d: "put_line p e f = write_at p d f" "length d = 53" using put_line_write [OF assms(2)] by metis
  have p: "b * 4 + start_ind + 4 \<le> p" using there_ok [OF assms(1,3)] bucket_before [OF assms(4)] by (simp add: line_place_def)
  show ?thesis
  proof (cases "length f \<le> start_ind")
    case True
    then have "read_at f (b * 4 + start_ind) 4 = []" by (simp add: read_past_end)
    moreover have "read_at (write_at p d f) (b * 4 + start_ind) 4 = replicate 4 (CHR 0x00)"
    proof (rule read_hole)
      show "length f \<le> b * 4 + start_ind" using True by linarith
      show "b * 4 + start_ind + 4 \<le> p" by (rule p)
    qed
    ultimately show ?thesis unfolding head_at_def d(1) by (simp only: unpack_zero unpack_I.simps sum.simps)
  next
    case False
    with assms(1) have "data_start P \<le> length f" by (simp add: file_ok_def line_place_def)
    then have "b * 4 + start_ind + 4 \<le> length f" using bucket_before [OF assms(4)] by simp
    with p show ?thesis by (simp add: head_at_def d read_before)
  qed
qed

lemma link_there:
  assumes "b \<le> hash_lim P" "cells_at P f p \<noteq> None"
  shows "b * 4 + start_ind + 4 \<le> data_start P" "data_start P + 53 \<le> length f" "length (link_bucket b n f) = length f"
  using assms cells_there [of P f p] bucket_before [OF assms(1)] by (auto simp: line_place_def link_bucket_def length_write_at)

interpretation idx: line_store head_at "cells_at P" put_line link_bucket "fresh_at P" "file_ok P" "hash_lim P" "bucket_number P"
  for P
proof
  fix f e p b b' k n
  show "cells_at P (put_line p e f) = (cells_at P f)(p := Some e)"
    if "file_ok P f" "fits e" "p = fresh_at P f \<or> cells_at P f p \<noteq> None"
    using that by (rule cells_put_line)
  show "head_at (put_line p e f) b = head_at f b"
    if "file_ok P f" "fits e" "p = fresh_at P f \<or> cells_at P f p \<noteq> None" "b \<le> hash_lim P"
    using that by (rule head_put_line)
  show "file_ok P (put_line p e f)" if "file_ok P f" "fits e" "p = fresh_at P f \<or> cells_at P f p \<noteq> None"
    using that by (rule file_put_ok)
  show "cells_at P (link_bucket b p f) = cells_at P f" if "b \<le> hash_lim P" "cells_at P f p \<noteq> None"
  proof
    note l = link_there [OF that]
    fix q
    have "read_at (link_bucket b p f) q 53 = read_at f q 53" if "line_place P q"
      using that l by (auto simp: link_bucket_def line_place_def intro!: read_after)
    then show "cells_at P (link_bucket b p f) q = cells_at P f q" using l(3) by (auto simp: cells_at_def entry_line_size_def)
  qed
  show "head_at (link_bucket b p f) b' = (if b' = b then p else head_at f b')"
    if "b \<le> hash_lim P" "p < 2 ^ 32" "cells_at P f p \<noteq> None" "b' \<le> hash_lim P"
  proof -
    note l = link_there [OF that(1,3)] and l' = link_there [OF that(4,3)]
    have "read_at (link_bucket b p f) (b * 4 + start_ind) 4 = le32 p"
      using read_same [of "b * 4 + start_ind" "le32 p" f] by (simp add: link_bucket_def)
    moreover have "read_at (link_bucket b p f) (b' * 4 + start_ind) 4 = read_at f (b' * 4 + start_ind) 4" if "b' \<noteq> b"
      unfolding link_bucket_def using that l l' by (intro read_elsewhere) auto
    ultimately show ?thesis using that(2) by (auto simp: head_at_def)
  qed
  show "file_ok P (link_bucket b p f)" if "file_ok P f" "b \<le> hash_lim P" "cells_at P f p \<noteq> None"
    using that link_there [OF that(2,3)] by (simp add: file_ok_def)
  show "cells_at P f (fresh_at P f) = None" using cells_there [of P f "fresh_at P f"] by (auto simp: fresh_at_def)
  show "fresh_at P f \<noteq> 0" by (simp add: fresh_at_def data_start_def)
  show "bucket_number P k \<le> hash_lim P" by (rule bucket_bound)
qed

section \<open>Walking a chain\<close>

lemma cell_read: "cells_at P f q = Some e \<Longrightarrow> unpack_line (read_at f q entry_line_size) = Inr e"
  by (auto simp: cells_at_def split: if_splits sum.splits)

lemma locate_chain:
  assumes "chain (cells_at P f) p ps" "ps \<noteq> []"
  shows "locate_key f k p = Some (case find (has_key (cells_at P f) k) ps of None \<Rightarrow> Inl ElemNotFound | Some q \<Rightarrow> Inr (q, the (cells_at P f q)))"
  using assms
proof (induction ps arbitrary: p)
  case (Cons q qs)
  then obtain e where e: "cells_at P f q = Some e" "chain (cells_at P f) (l_next e) qs" "p = q" by auto
  have step: "locate_key f k p = (if l_key e = k then Some (Inr (q, e)) else if l_next e = 0 then Some (Inl ElemNotFound) else locate_key f k (l_next e))"
    using cell_read [OF e(1)] unfolding e(3) by (subst locate_key.simps) simp
  show ?case
  proof (cases "qs = []")
    case True
    then show ?thesis using e step by (simp add: has_key_def)
  next
    case False
    then have "l_next e \<noteq> 0" using e(2) by (cases qs) auto
    then show ?thesis using Cons.IH [OF e(2) False] e step by (simp add: has_key_def)
  qed
qed simp

text \<open>The place a new key is put behind: a line after which the chain ends, or one that is deleted.\<close>

definition place_for :: "hparams \<Rightarrow> string \<Rightarrow> string \<Rightarrow> nat list \<Rightarrow> (nat \<times> line) res \<Rightarrow> bool" where
  "place_for P f k ps r \<longleftrightarrow> (case r of
     Inl x \<Rightarrow> \<exists>q \<in> set ps. has_key (cells_at P f) k q
   | Inr (q, e) \<Rightarrow> \<exists>xs ys. ps = xs @ q # ys \<and> cells_at P f q = Some e \<and> (ys = [] \<or> l_status e = CHR ''d'') \<and>
       (\<forall>x \<in> set (xs @ [q]). \<not> has_key (cells_at P f) k x))"

lemma place_chain:
  assumes "chain (cells_at P f) p ps" "ps \<noteq> []"
  shows "\<exists>r. find_place f k p = Some r \<and> place_for P f k ps r"
  using assms
proof (induction ps arbitrary: p)
  case (Cons q qs)
  then obtain e where e: "cells_at P f q = Some e" "chain (cells_at P f) (l_next e) qs" "p = q" by auto
  have step: "find_place f k p = (if l_key e = k then Some (Inl (UserError ''IndexException''))
      else if l_next e = 0 \<or> l_status e = CHR ''d'' then Some (Inr (q, e)) else find_place f k (l_next e))"
    using cell_read [OF e(1)] unfolding e(3) by (subst find_place.simps) simp
  consider "l_key e = k" | "l_key e \<noteq> k" "l_next e = 0 \<or> l_status e = CHR ''d''" | "l_key e \<noteq> k" "l_next e \<noteq> 0" "l_status e \<noteq> CHR ''d''" by blast
  then show ?case
  proof cases
    case 1
    then show ?thesis using step e(1) by (simp add: place_for_def has_key_def)
  next
    case 2
    then have "qs = [] \<or> l_status e = CHR ''d''" using e(2) by (cases qs) auto
    with 2 e(1) have "q # qs = [] @ q # qs \<and> cells_at P f q = Some e \<and> (qs = [] \<or> l_status e = CHR ''d'') \<and>
      (\<forall>x \<in> set ([] @ [q]). \<not> has_key (cells_at P f) k x)" by (simp add: has_key_def)
    then have "place_for P f k (q # qs) (Inr (q, e))" unfolding place_for_def prod.case sum.case by blast
    with 2 show ?thesis using step by simp
  next
    case 3
    then have "qs \<noteq> []" using e(2) by auto
    from Cons.IH [OF e(2) this] obtain r where r: "find_place f k (l_next e) = Some r" "place_for P f k qs r" by blast
    have "place_for P f k (q # qs) r"
    proof (cases r)
      case (Inl x) with r(2) show ?thesis by (auto simp: place_for_def)
    next
      case (Inr a)
      obtain q' e' where a: "a = (q', e')" by (cases a)
      with Inr r(2) obtain xs ys where "qs = xs @ q' # ys" "cells_at P f q' = Some e'" "ys = [] \<or> l_status e' = CHR ''d''"
        "\<forall>x \<in> set (xs @ [q']). \<not> has_key (cells_at P f) k x" by (auto simp: place_for_def)
      moreover have "\<not> has_key (cells_at P f) k q" using e(1) 3 by (simp add: has_key_def)
      ultimately have "q # qs = (q # xs) @ q' # ys \<and> cells_at P f q' = Some e' \<and> (ys = [] \<or> l_status e' = CHR ''d'') \<and>
        (\<forall>x \<in> set ((q # xs) @ [q']). \<not> has_key (cells_at P f) k x)" by simp
      then show ?thesis unfolding Inr a place_for_def prod.case sum.case by blast
    qed
    with 3 r show ?thesis using step by simp
  qed
qed simp

section \<open>The map a file implements\<close>

text \<open>The cache of \<open>_find_key\<close> has nothing else than the file.\<close>

definition intact :: "hparams \<Rightarrow> hfile \<Rightarrow> (string \<Rightarrow> found option) \<Rightarrow> bool" where
  "intact P s m \<longleftrightarrow> idx.implements P (buck s) m \<and> (\<forall>(k, v) \<in> set (kcache s). m k = Some v)"

definition header_ends :: "string \<Rightarrow> string \<Rightarrow> bool" where
  "header_ends f k \<longleftrightarrow> locate_key f k 0 = Some (Inl ElemNotFound)"

lemma bucket_read:
  assumes "file_ok P f"
  shows "bucket_of P k f = (if length f \<le> start_ind then Inr None else Inr (Some (head_at f (bucket_number P k))))"
proof (cases "length f \<le> start_ind")
  case True then show ?thesis by (simp add: bucket_of_def read_past_end calculate_position_def)
next
  case False
  have "b * 4 + start_ind + 4 \<le> length f" if "b \<le> hash_lim P" for b
    using False assms bucket_before [OF that] by (auto simp: file_ok_def line_place_def)
  from this [OF bucket_bound [of P k]] have "length (read_at f (calculate_position P k) 4) = 4" by (simp add: calculate_position_def)
  then obtain n where "unpack_I (read_at f (calculate_position P k) 4) = Inr n" "read_at f (calculate_position P k) 4 \<noteq> []"
    using unpack_I_length by (metis list.size(3) zero_neq_numeral)
  with False show ?thesis by (simp add: bucket_of_def Let_def head_at_def calculate_position_def)
qed

lemma short_is_empty:
  assumes im: "idx.implements P f m" and "length f \<le> start_ind" shows "m k = None"
proof -
  from idx.implementsE [OF im] obtain ps where b: "idx.bucket_ok P f m (bucket_number P k) ps" by metis
  moreover have "head_at f b = 0" for b using assms(2) by (simp add: head_at_def read_past_end)
  ultimately have "ps = []" by (cases ps) (auto simp: idx.bucket_ok_def)
  with b show ?thesis by (simp add: idx.bucket_ok_def)
qed

lemma find_first: "\<forall>x \<in> set xs. \<not> p x \<Longrightarrow> p q \<Longrightarrow> find p (xs @ q # ys) = Some q"
  by (induction xs) auto

text \<open>What the first loop finds for a key whose bucket is used.\<close>

lemma locate_found:
  assumes im: "idx.implements P f m" and h: "head_at f (bucket_number P k) \<noteq> 0"
  shows "\<exists>r. locate_key f k (head_at f (bucket_number P k)) = Some r \<and>
    (case m k of None \<Rightarrow> r = Inl ElemNotFound
     | Some v \<Rightarrow> \<exists>xs q ys e. r = Inr (q, e) \<and> v = content e \<and> l_key e = k \<and> idx.bucket_ok P f m (bucket_number P k) (xs @ q # ys) \<and>
         cells_at P f q = Some e \<and> fits e \<and> (\<forall>x \<in> set xs. \<not> has_key (cells_at P f) k x))"
proof -
  let ?c = "cells_at P f"
  from idx.implementsE [OF im] obtain ps where b: "idx.bucket_ok P f m (bucket_number P k) ps" by metis
  then have ch: "chain ?c (head_at f (bucket_number P k)) ps" and m: "m k = map_option content (line_for ?c ps k)"
    by (simp_all add: idx.bucket_ok_def)
  from ch h have "ps \<noteq> []" by auto
  note loc = locate_chain [OF ch this, of k]
  show ?thesis
  proof (cases "line_for ?c ps k")
    case None
    then have "find (has_key ?c k) ps = None" by (simp add: line_for_None find_None_iff)
    with None loc m show ?thesis by simp
  next
    case (Some e)
    from line_for_SomeD [OF Some] obtain xs q ys where q: "ps = xs @ q # ys" "?c q = Some e" "\<forall>x \<in> set xs. \<not> has_key ?c k x" by blast
    have key: "l_key e = k" by (rule line_for_key [OF Some])
    have "has_key ?c k q" using q(2) key by (simp add: has_key_def)
    then have "find (has_key ?c k) (xs @ q # ys) = Some q" by (rule find_first [OF q(3)])
    then have "locate_key f k (head_at f (bucket_number P k)) = Some (Inr (q, e))" using loc q by simp
    moreover have "fits e" using idx.in_bucket [OF b, of q] q by auto
    ultimately show ?thesis using Some m q key b by auto
  qed
qed

section \<open>What each operation does\<close>

lemma write_line_run:
  "write_line p e s = (case pack_line e of
     Inl x \<Rightarrow> (Inl x, s)
   | Inr d \<Rightarrow> if write_fails s (written s) then (Inl OSError, s\<lparr>written := Suc (written s)\<rparr>)
             else (Inr (), s\<lparr>buck := put_line p e (buck s), written := Suc (written s)\<rparr>))"
  by (auto simp: write_line_def py_simps write_buck_def put_line_def split: sum.split)

text \<open>What may go wrong in an operation: a write that the system refuses, or a number that does not fit into four
  bytes.\<close>

definition no_trouble :: "hparams \<Rightarrow> hfile \<Rightarrow> nat \<Rightarrow> nat \<Rightarrow> bool" where
  "no_trouble P s start sz \<longleftrightarrow> (\<forall>n. \<not> write_fails s n) \<and> start < 2 ^ 32 \<and> sz < 2 ^ 32 \<and> fresh_at P (buck s) < 2 ^ 32"

definition outcome :: "hparams \<Rightarrow> hfile \<Rightarrow> (string \<Rightarrow> found option) \<Rightarrow> (string \<Rightarrow> found option) \<Rightarrow> bool \<Rightarrow> bool res \<times> hfile \<Rightarrow> bool" where
  "outcome P s m m' fine rs \<longleftrightarrow> (case rs of (r, t) \<Rightarrow> stor t = stor s \<and> write_fails t = write_fails s \<and>
     (case r of Inl x \<Rightarrow> intact P t m \<and> \<not> fine | Inr b \<Rightarrow> intact P t m'))"

lemma intact_ok: "intact P s m \<Longrightarrow> file_ok P (buck s)"
  by (simp add: intact_def idx.implements_def)

lemma intact_fields: "buck t = buck s \<Longrightarrow> kcache t = kcache s \<Longrightarrow> intact P t m = intact P s m"
  by (simp add: intact_def)

lemma intact_new:
  assumes "idx.implements P (buck t) (m(key \<mapsto> w))" "intact P s m" "set (kcache t) \<subseteq> set (kcache s)" "\<forall>(k, v) \<in> set (kcache t). k \<noteq> key"
  shows "intact P t (m(key \<mapsto> w))"
proof -
  have "(m(key \<mapsto> w)) k = Some v" if "(k, v) \<in> set (kcache t)" for k v
  proof -
    have "k \<noteq> key" "m k = Some v" using that assms(2,3,4) by (auto simp: intact_def)
    then show ?thesis by simp
  qed
  with assms(1) show ?thesis by (auto simp: intact_def)
qed

lemma used_bucket:
  assumes im: "idx.implements P f m" and k: "m key = Some v" shows "head_at f (bucket_number P key) \<noteq> 0"
proof
  assume h: "head_at f (bucket_number P key) = 0"
  from idx.implementsE [OF im] obtain ps where b: "idx.bucket_ok P f m (bucket_number P key) ps" by metis
  with h have "ps = []" by (cases ps) (auto simp: idx.bucket_ok_def)
  with b k show False by (simp add: idx.bucket_ok_def)
qed

lemma update_found:
  assumes s: "intact P s m" and k: "m key = Some v" and r: "length rv = 8"
  shows "\<exists>rs. index_update P key rv u_start u_size st s = Some rs \<and>
    outcome P s m (m(key \<mapsto> Found key rv (if u_start = 0 then found_start v else u_start) (if u_size = 0 then found_size v else u_size) st))
      (no_trouble P s u_start u_size) rs"
proof -
  have ok: "file_ok P (buck s)" and im: "idx.implements P (buck s) m" using s by (simp_all add: intact_def intact_ok)
  have long: "\<not> length (buck s) \<le> start_ind" using short_is_empty [OF im] k by auto
  note h = used_bucket [OF im k]
  from locate_found [OF im h] k obtain xs q ys e where loc: "locate_key (buck s) key (head_at (buck s) (bucket_number P key)) = Some (Inr (q, e))"
    and e: "v = content e" "l_key e = key" "cells_at P (buck s) q = Some e" "fits e" "\<forall>x \<in> set xs. \<not> has_key (cells_at P (buck s)) key x"
    and b: "idx.bucket_ok P (buck s) m (bucket_number P key) (xs @ q # ys)" by auto
  define a where "a = (if u_start = 0 then l_start e else u_start)"
  define z where "z = (if u_size = 0 then l_size e else u_size)"
  let ?e = "\<lparr>l_key = key, l_rev = rv, l_start = a, l_size = z, l_status = st, l_next = l_next e\<rparr>"
  let ?m = "m(key \<mapsto> Found key rv a z st)"
  have c: "content ?e = Found key rv a z st" by (simp add: content_def)
  have v: "(if u_start = 0 then found_start v else u_start) = a" "(if u_size = 0 then found_size v else u_size) = z"
    using e(1) by (simp_all add: content_def a_def z_def)
  have fit: "fits ?e \<longleftrightarrow> a < 2 ^ 32 \<and> z < 2 ^ 32" using e(2,4) r by (auto simp: fits_def)
  have run: "index_update P key rv u_start u_size st s = Some (write_update key rv u_start u_size st (Inr (q, e)) s)"
    using bucket_read [OF ok, of key] long loc by (simp add: index_update_def)
  have wr: "write_update key rv u_start u_size st (Inr (q, e)) s = bnd (write_line q ?e) (\<lambda>_. bnd (forget key) (\<lambda>_. ret True)) s"
    by (simp add: write_update_def py_simps a_def z_def)
  have "outcome P s m ?m (no_trouble P s u_start u_size) (write_update key rv u_start u_size st (Inr (q, e)) s)"
  proof (cases "pack_line ?e")
    case (Inl x)
    have "\<not> (a < 2 ^ 32 \<and> z < 2 ^ 32)" using Inl pack_fits fit by (metis Inl_Inr_False)
    then have "\<not> no_trouble P s u_start u_size" using e(4) by (auto simp: fits_def no_trouble_def a_def z_def split: if_splits)
    then show ?thesis using s Inl unfolding wr by (simp add: py_simps write_line_run outcome_def)
  next
    case (Inr d)
    show ?thesis
    proof (cases "write_fails s (written s)")
      case True
      have "intact P (s\<lparr>written := Suc (written s)\<rparr>) m" using s by (simp add: intact_def)
      with True Inr show ?thesis unfolding wr by (auto simp: py_simps write_line_run outcome_def no_trouble_def)
    next
      case False
      let ?t = "s\<lparr>buck := put_line q ?e (buck s), written := Suc (written s), kcache := filter (\<lambda>(k, v). k \<noteq> key) (kcache s)\<rparr>"
      have "fits ?e" unfolding fit using Inr by (auto simp: pack_line_def pack_I_def rbind_eq_Inr split: if_splits)
      from idx.put_again [OF im b e(3,2,5) this] have "idx.implements P (buck ?t) ?m" by (simp add: c)
      then have "intact P ?t ?m" by (rule intact_new [OF _ s]) auto
      with False Inr show ?thesis unfolding wr by (simp add: py_simps write_line_run outcome_def forget_def)
    qed
  qed
  with run show ?thesis unfolding v by blast
qed

text \<open>A step that wrote a line no chain has yet changes nothing the map shows.\<close>

lemma line_written:
  assumes s: "intact P s m" and e: "length (l_key e) = 32" "length (l_rev e) = 8" "l_next e < 2 ^ 32" "l_start e = start" "l_size e = sz"
  shows "\<exists>r t. write_line (fresh_at P (buck s)) e s = (r, t) \<and> intact P t m \<and> stor t = stor s \<and> write_fails t = write_fails s \<and> kcache t = kcache s \<and>
    (case r of Inl x \<Rightarrow> \<not> no_trouble P s start sz
     | Inr u \<Rightarrow> fits e \<and> buck t = put_line (fresh_at P (buck s)) e (buck s))"
proof (cases "pack_line e")
  case (Inl x)
  then have "\<not> fits e" using pack_fits by (metis Inl_Inr_False)
  then have "\<not> no_trouble P s start sz" using e by (auto simp: fits_def no_trouble_def)
  with Inl s show ?thesis by (simp add: write_line_run)
next
  case (Inr d)
  then have f: "fits e" using e by (auto simp: fits_def pack_line_def pack_I_def rbind_eq_Inr split: if_splits)
  show ?thesis
  proof (cases "write_fails s (written s)")
    case True
    have "intact P (s\<lparr>written := Suc (written s)\<rparr>) m" using s by (simp add: intact_def)
    with True Inr show ?thesis by (auto simp: write_line_run no_trouble_def)
  next
    case False
    have "idx.implements P (put_line (fresh_at P (buck s)) e (buck s)) m" using idx.put_fresh [OF _ f] s by (simp add: intact_def)
    then have "intact P (s\<lparr>buck := put_line (fresh_at P (buck s)) e (buck s), written := Suc (written s)\<rparr>) m" using s by (simp add: intact_def)
    with False Inr f show ?thesis by (simp add: write_line_run)
  qed
qed

lemma forgotten: "forget key s = (Inr (), s\<lparr>kcache := filter (\<lambda>(k, v). k \<noteq> key) (kcache s)\<rparr>)"
  by (simp add: forget_def py_simps)

text \<open>A key the map does not have is in no cache either.\<close>

lemma intact_added:
  assumes "intact P s m" "m key = None" "idx.implements P (buck t) (m(key \<mapsto> w))" "set (kcache t) \<subseteq> set (kcache s)"
  shows "intact P t (m(key \<mapsto> w))"
proof (rule intact_new [OF assms(3,1,4)])
  have "k \<noteq> key" if "(k, v) \<in> set (kcache t)" for k v
  proof -
    have "(k, v) \<in> set (kcache s)" using that assms(4) by blast
    then have "m k = Some v" using assms(1) by (auto simp: intact_def)
    with assms(2) show ?thesis by auto
  qed
  then show "\<forall>(k, v) \<in> set (kcache t). k \<noteq> key" by blast
qed

lemma first_inserted:
  assumes s: "intact P s m" and n: "m key = None" and k: "length key = 32" "length rv = 8"
    and h: "head_at (buck s) (bucket_number P key) = 0"
  shows "outcome P s m (m(key \<mapsto> Found key rv start sz (CHR ''o''))) (no_trouble P s start sz) (insert_first P key rv start sz s)"
proof -
  let ?w = "fresh_at P (buck s)" let ?m = "m(key \<mapsto> Found key rv start sz (CHR ''o''))"
  let ?e = "\<lparr>l_key = key, l_rev = rv, l_start = start, l_size = sz, l_status = CHR ''o'', l_next = 0\<rparr>"
  have im: "idx.implements P (buck s) m" using s by (simp add: intact_def)
  have e: "length (l_key ?e) = 32" "length (l_rev ?e) = 8" "l_next ?e < 2 ^ 32" "l_start ?e = start" "l_size ?e = sz" using k by simp_all
  from line_written [OF s e] obtain r t where run: "write_line ?w ?e s = (r, t)"
    and t: "intact P t m" "stor t = stor s" "write_fails t = write_fails s" "kcache t = kcache s"
    and r: "case r of Inl x \<Rightarrow> \<not> no_trouble P s start sz | Inr u \<Rightarrow> fits ?e \<and> buck t = put_line ?w ?e (buck s)" by blast
  have go: "insert_first P key rv start sz s = bnd (write_line ?w ?e) (\<lambda>_. bnd (liftr (pack_I ?w)) (\<lambda>d.
     bnd (write_buck (calculate_position P key) d) (\<lambda>_. bnd (forget key) (\<lambda>_. ret True)))) s"
    by (simp add: insert_first_def end_of_lines_def py_simps fresh_at_def)
  show ?thesis
  proof (cases r)
    case (Inl x)
    with run t r show ?thesis unfolding go by (simp add: py_simps outcome_def)
  next
    case (Inr u)
    show ?thesis
    proof (cases "?w < 2 ^ 32 \<and> \<not> write_fails t (written t)")
      case False
      have "intact P (t\<lparr>written := Suc (written t)\<rparr>) m" using t(1) by (simp add: intact_def)
      with False Inr run t show ?thesis unfolding go
        by (auto simp: py_simps outcome_def pack_I_def write_buck_def no_trouble_def)
    next
      case True
      let ?t = "t\<lparr>buck := link_bucket (bucket_number P key) ?w (buck t), written := Suc (written t), kcache := filter (\<lambda>(k, v). k \<noteq> key) (kcache t)\<rparr>"
      have "content ?e = Found key rv start sz (CHR ''o'')" by (simp add: content_def)
      then have "idx.implements P (buck ?t) ?m" using idx.link_first [OF im h, of ?e] r Inr True by simp
      then have "intact P ?t ?m" by (rule intact_added [OF s n]) (use t(4) in auto)
      with True Inr run t show ?thesis unfolding go
        by (simp add: py_simps outcome_def pack_I_def write_buck_def forgotten link_bucket_def calculate_position_def)
    qed
  qed
qed

lemma linked_inserted:
  assumes s: "intact P s m" and n: "m key = None" and k: "length key = 32" "length rv = 8"
    and b: "idx.bucket_ok P (buck s) m (bucket_number P key) (xs @ q # ys)" and q: "cells_at P (buck s) q = Some e0"
    and no: "\<forall>x \<in> set (xs @ [q]). \<not> has_key (cells_at P (buck s)) key x"
  shows "outcome P s m (m(key \<mapsto> Found key rv start sz (CHR ''o''))) (no_trouble P s start sz) (insert_linked P key rv start sz (Inr (q, e0)) s)"
proof -
  let ?w = "fresh_at P (buck s)" let ?m = "m(key \<mapsto> Found key rv start sz (CHR ''o''))"
  let ?e = "\<lparr>l_key = key, l_rev = rv, l_start = start, l_size = sz, l_status = CHR ''o'', l_next = l_next e0\<rparr>"
  have im: "idx.implements P (buck s) m" using s by (simp add: intact_def)
  have e0: "fits e0" using idx.in_bucket [OF b, of q] q by auto
  have e: "length (l_key ?e) = 32" "length (l_rev ?e) = 8" "l_next ?e < 2 ^ 32" "l_start ?e = start" "l_size ?e = sz" using k e0 by (simp_all add: fits_def)
  from line_written [OF s e] obtain r t where run: "write_line ?w ?e s = (r, t)"
    and t: "intact P t m" "stor t = stor s" "write_fails t = write_fails s" "kcache t = kcache s"
    and r: "case r of Inl x \<Rightarrow> \<not> no_trouble P s start sz | Inr u \<Rightarrow> fits ?e \<and> buck t = put_line ?w ?e (buck s)" by blast
  have go: "insert_linked P key rv start sz (Inr (q, e0)) s = bnd (write_line ?w ?e) (\<lambda>_.
     bnd (write_line q (e0\<lparr>l_next := ?w\<rparr>)) (\<lambda>_. bnd (forget (l_key e0)) (\<lambda>_. ret True))) s"
    by (simp add: insert_linked_def end_of_lines_def py_simps fresh_at_def)
  show ?thesis
  proof (cases r)
    case (Inl x)
    with run t r show ?thesis unfolding go by (simp add: py_simps outcome_def)
  next
    case (Inr u)
    show ?thesis
    proof (cases "?w < 2 ^ 32 \<and> \<not> write_fails t (written t)")
      case False
      have i: "intact P (t\<lparr>written := Suc (written t)\<rparr>) m" using t(1) by (simp add: intact_def)
      show ?thesis
      proof (cases "pack_line (e0\<lparr>l_next := ?w\<rparr>)")
        case (Inl x)
        then have "\<not> fits (e0\<lparr>l_next := ?w\<rparr>)" using pack_fits by (metis Inl_Inr_False)
        then have "\<not> no_trouble P s start sz" using e0 by (auto simp: fits_def no_trouble_def)
        with Inl Inr run t show ?thesis unfolding go by (simp add: py_simps outcome_def write_line_run)
      next
        case d: (Inr d)
        then have "?w < 2 ^ 32" by (auto simp: pack_line_def pack_I_def rbind_eq_Inr split: if_splits)
        with False have "write_fails t (written t)" by blast
        moreover then have "\<not> no_trouble P s start sz" using t(3) by (auto simp: no_trouble_def)
        ultimately show ?thesis using d Inr run t i unfolding go by (simp add: py_simps outcome_def write_line_run)
      qed
    next
      case True
      let ?t = "t\<lparr>buck := put_line q (e0\<lparr>l_next := ?w\<rparr>) (buck t), written := Suc (written t), kcache := filter (\<lambda>(k, v). k \<noteq> l_key e0) (kcache t)\<rparr>"
      have "fits (e0\<lparr>l_next := ?w\<rparr>)" using e0 True by (simp add: fits_def)
      then obtain d where d: "pack_line (e0\<lparr>l_next := ?w\<rparr>) = Inr d" using pack_fits by metis
      have "content ?e = Found key rv start sz (CHR ''o'')" by (simp add: content_def)
      then have "idx.implements P (buck ?t) ?m" using idx.put_behind [OF im b q no, of ?e] r Inr True by simp
      then have "intact P ?t ?m" by (rule intact_added [OF s n]) (use t(4) in auto)
      with True Inr run t d show ?thesis unfolding go by (simp add: py_simps outcome_def write_line_run forgotten)
    qed
  qed
qed

lemma insert_new:
  assumes s: "intact P s m" and n: "m key = None" and k: "length key = 32" "length rv = 8"
  shows "\<exists>rs. index_insert P key rv start sz s = Some rs \<and>
    outcome P s m (m(key \<mapsto> Found key rv start sz (CHR ''o''))) (no_trouble P s start sz) rs"
proof -
  have ok: "file_ok P (buck s)" and im: "idx.implements P (buck s) m" using s by (simp_all add: intact_def intact_ok)
  from idx.implementsE [OF im] obtain ps where b: "idx.bucket_ok P (buck s) m (bucket_number P key) ps" by metis
  show ?thesis
  proof (cases "head_at (buck s) (bucket_number P key)")
    case 0
    then have "index_insert P key rv start sz s = Some (insert_first P key rv start sz s)"
      using bucket_read [OF ok, of key] by (simp add: index_insert_def)
    with first_inserted [OF s n k 0] show ?thesis by blast
  next
    case (Suc i)
    then have ne: "ps \<noteq> []" and ch: "chain (cells_at P (buck s)) (Suc i) ps" using b by (auto simp: idx.bucket_ok_def)
    from place_chain [OF ch ne] obtain r where r: "find_place (buck s) key (Suc i) = Some r" "place_for P (buck s) key ps r" by blast
    have "line_for (cells_at P (buck s)) ps key = None" using b n by (simp add: idx.bucket_ok_def)
    then have "\<forall>q \<in> set ps. \<not> has_key (cells_at P (buck s)) key q" by (simp add: line_for_None)
    with r(2) obtain q e0 xs ys where q: "r = Inr (q, e0)" "ps = xs @ q # ys" "cells_at P (buck s) q = Some e0"
      "\<forall>x \<in> set (xs @ [q]). \<not> has_key (cells_at P (buck s)) key x" by (auto simp: place_for_def split: sum.splits)
    have long: "\<not> length (buck s) \<le> start_ind"
    proof
      assume "length (buck s) \<le> start_ind"
      then have "head_at (buck s) (bucket_number P key) = 0" by (simp add: head_at_def read_past_end)
      with Suc show False by simp
    qed
    then have "index_insert P key rv start sz s = Some (insert_linked P key rv start sz r s)"
      using bucket_read [OF ok, of key] Suc r(1) by (simp add: index_insert_def)
    with linked_inserted [OF s n k, of xs q ys e0] b q show ?thesis by blast
  qed
qed

section \<open>Reading\<close>

lemma drop_some_keeps:
  "buck (drop_some n s) = buck s \<and> stor (drop_some n s) = stor s \<and> write_fails (drop_some n s) = write_fails s \<and>
   set (kcache (drop_some n s)) \<subseteq> set (kcache s)"
proof (induction n arbitrary: s)
  case (Suc n)
  show ?case using Suc.IH by (fastforce simp: Let_def dest: in_set_takeD in_set_dropD)
qed simp

text \<open>A line of another bucket is not looked at: the hash of the process that reads has to be the one of the process that
  wrote.\<close>

lemma not_in_bucket:
  assumes im: "idx.implements P f m" and b: "b \<le> hash_lim P" "b \<noteq> bucket_number P key" and h: "head_at f b \<noteq> 0"
  shows "locate_key f key (head_at f b) = Some (Inl ElemNotFound)"
proof -
  from im b(1) obtain ps where ps: "idx.bucket_ok P f m b ps" by (auto simp: idx.implements_def)
  then have ch: "chain (cells_at P f) (head_at f b) ps" by (simp add: idx.bucket_ok_def)
  with h have ne: "ps \<noteq> []" by auto
  have "\<not> has_key (cells_at P f) key q" if "q \<in> set ps" for q
    using idx.in_bucket [OF ps that] b(2) by (auto simp: has_key_def)
  then have "find (has_key (cells_at P f) key) ps = None" by (simp add: find_None_iff)
  with locate_chain [OF ch ne, of key] show ?thesis by simp
qed

lemma find_key_run:
  assumes im: "idx.implements P (buck s) m" and long: "start_ind < length (buck s)" and q: "hash_lim Q = hash_lim P"
    and he: "m key = None \<or> bucket_number Q key \<noteq> bucket_number P key \<Longrightarrow> header_ends (buck s) key"
  shows "find_key Q key (buck s) = Some (case m key of
      Some v \<Rightarrow> if bucket_number Q key = bucket_number P key then Inr v else Inl ElemNotFound
    | None \<Rightarrow> Inl ElemNotFound)"
proof -
  let ?f = "buck s"
  have ok: "file_ok P ?f" using im by (simp add: idx.implements_def)
  then have "file_ok Q ?f" using q by (simp add: file_ok_def line_place_def data_start_def)
  from bucket_read [OF this, of key] long have bk: "bucket_of Q key ?f = Inr (Some (head_at ?f (bucket_number Q key)))" by simp
  have lim: "bucket_number Q key \<le> hash_lim P" using bucket_bound [of Q key] q by simp
  show ?thesis
  proof (cases "bucket_number Q key = bucket_number P key")
    case same: True
    show ?thesis
    proof (cases "head_at ?f (bucket_number P key)")
      case 0
      from idx.implementsE [OF im] obtain ps where b: "idx.bucket_ok P ?f m (bucket_number P key) ps" by metis
      with 0 have "ps = []" by (cases ps) (auto simp: idx.bucket_ok_def)
      with b have n: "m key = None" by (simp add: idx.bucket_ok_def)
      with he have "locate_key ?f key 0 = Some (Inl ElemNotFound)" by (simp add: header_ends_def)
      with n bk 0 same show ?thesis by (simp add: find_key_def)
    next
      case (Suc i)
      then have h: "head_at ?f (bucket_number P key) \<noteq> 0" by simp
      from locate_found [OF im h] bk same show ?thesis by (auto simp: find_key_def content_def split: option.splits)
    qed
  next
    case other: False
    have "locate_key ?f key (head_at ?f (bucket_number Q key)) = Some (Inl ElemNotFound)"
    proof (cases "head_at ?f (bucket_number Q key) = 0")
      case True with he other show ?thesis by (simp add: header_ends_def)
    next
      case False
      from not_in_bucket [OF im lim other False] show ?thesis .
    qed
    with bk other show ?thesis by (auto simp: find_key_def split: option.splits)
  qed
qed

lemma get_answer:
  assumes s: "intact P s m" and long: "start_ind < length (buck s)" and he: "m key = None \<Longrightarrow> header_ends (buck s) key"
  shows "\<exists>t. index_get P key s = Some (case m key of Some v \<Rightarrow> Inr v | None \<Rightarrow> Inl ElemNotFound, t) \<and>
    intact P t m \<and> buck t = buck s \<and> stor t = stor s \<and> write_fails t = write_fails s"
proof (cases "map_of (kcache s) key")
  case (Some v)
  then have "(key, v) \<in> set (kcache s)" by (rule map_of_SomeD)
  then have "m key = Some v" using s by (auto simp: intact_def)
  with Some s show ?thesis by (simp add: index_get_def)
next
  case None
  define t where "t = (if length (kcache s) = 100 then drop_some 10 s else s)"
  have t: "buck t = buck s" "stor t = stor s" "write_fails t = write_fails s" "set (kcache t) \<subseteq> set (kcache s)"
    using drop_some_keeps [of 10 s] by (auto simp: t_def)
  have im: "idx.implements P (buck t) m" and it: "intact P t m" using s t by (auto simp: intact_def)
  have fk: "find_key P key (buck t) = Some (case m key of Some v \<Rightarrow> Inr v | None \<Rightarrow> Inl ElemNotFound)"
    using find_key_run [OF im, of P key] long he t(1) by (auto split: option.splits)
  show ?thesis
  proof (cases "m key")
    case n: None
    then have "index_get P key s = Some (Inl ElemNotFound, t)" using None fk by (simp add: index_get_def Let_def t_def [symmetric])
    with n it t show ?thesis by simp
  next
    case (Some v)
    then have "index_get P key s = Some (Inr v, t\<lparr>kcache := kcache t @ [(key, v)]\<rparr>)"
      using None fk by (simp add: index_get_def Let_def t_def [symmetric])
    moreover have "intact P (t\<lparr>kcache := kcache t @ [(key, v)]\<rparr>) m" using it Some by (auto simp: intact_def)
    ultimately show ?thesis using Some t by auto
  qed
qed

lemma update_absent:
  assumes s: "intact P s m" and n: "m key = None" and he: "start_ind < length (buck s) \<Longrightarrow> header_ends (buck s) key"
  shows "index_update P key rv u_start u_size st s = Some (Inl ElemNotFound, s)"
proof -
  have ok: "file_ok P (buck s)" and im: "idx.implements P (buck s) m" using s by (simp_all add: intact_def intact_ok)
  show ?thesis
  proof (cases "length (buck s) \<le> start_ind")
    case True
    then show ?thesis using bucket_read [OF ok, of key] by (simp add: index_update_def)
  next
    case False
    have "locate_key (buck s) key (head_at (buck s) (bucket_number P key)) = Some (Inl ElemNotFound)"
    proof (cases "head_at (buck s) (bucket_number P key) = 0")
      case True with he False show ?thesis by (simp add: header_ends_def)
    next
      case h: False
      from locate_found [OF im h] n show ?thesis by simp
    qed
    with False show ?thesis using bucket_read [OF ok, of key] by (simp add: index_update_def write_update_def py_simps)
  qed
qed

end
