(* ===== verification/IdStore.thy ===== *)
theory IdStore
  imports HashFile Database
begin

text \<open>
  The documents of the database on the disk: the id index of theory \<open>HashIndex\<close> with the file the bodies are appended
  to (libs/codernitydb3/storage.py), and the operations on one document of libs/codernitydb3/database.py over the
  two. They implement the table of documents of theory \<open>Database\<close>, whatever write is refused; what marshal makes
  of a body is a parameter.
\<close>

section \<open>The file of the bodies\<close>

record codec =
  dumps :: "doc \<Rightarrow> string"
  loads :: "string \<Rightarrow> doc res"

text \<open>A write that the system refuses leaves the file as it was; one that it accepts is whole: files that end
  in the middle of a write are not modelled.\<close>

definition storage_save :: "codec \<Rightarrow> doc \<Rightarrow> (hfile, nat \<times> nat) py" where
  "storage_save M data =
     (\<lambda>s. if write_fails s (written s) then (Inl OSError, s\<lparr>written := Suc (written s)\<rparr>)
          else (Inr (length (stor s), length (dumps M data)),
                s\<lparr>stor := stor s @ dumps M data, written := Suc (written s)\<rparr>))"

definition storage_get :: "codec \<Rightarrow> nat \<Rightarrow> nat \<Rightarrow> string \<Rightarrow> doc res" where
  "storage_get M start sz f = loads M (read_at f start sz)"

section \<open>One document\<close>

definition with_storage :: "codec \<Rightarrow> doc \<Rightarrow> (nat \<Rightarrow> nat \<Rightarrow> hfile \<Rightarrow> (bool res \<times> hfile) option) \<Rightarrow> hfile \<Rightarrow> (bool res \<times> hfile) option" where
  "with_storage M body op s =
     (if body = [] then op 1 0 s
      else (case storage_save M body s of
              (Inl x, t) \<Rightarrow> Some (Inl x, t)
            | (Inr (start, sz), t) \<Rightarrow> op start sz t))"

definition insert_with_storage :: "codec \<Rightarrow> hparams \<Rightarrow> string \<Rightarrow> string \<Rightarrow> doc \<Rightarrow> hfile \<Rightarrow> (bool res \<times> hfile) option" where
  "insert_with_storage M P i r body = with_storage M body (index_insert P i r)"

definition update_with_storage :: "codec \<Rightarrow> hparams \<Rightarrow> string \<Rightarrow> string \<Rightarrow> doc \<Rightarrow> hfile \<Rightarrow> (bool res \<times> hfile) option" where
  "update_with_storage M P i r body = with_storage M body (\<lambda>start sz. index_update P i r start sz (CHR ''o''))"

text \<open>\<open>get('id', key)\<close>.\<close>

definition found_doc :: "codec \<Rightarrow> string \<Rightarrow> found res \<Rightarrow> doc res" where
  "found_doc M f r = (case r of
     Inl x \<Rightarrow> Inl (if x = ElemNotFound then RecordNotFound else x)
   | Inr Unused \<Rightarrow> Inl RecordNotFound
   | Inr (Found k rv start sz status) \<Rightarrow>
       if start = 0 \<and> sz = 0 then Inl RecordNotFound
       else if status = CHR ''d'' then Inl RecordDeleted
       else rbind (if sz = 0 then Inr [] else storage_get M start sz f) (\<lambda>b. Inr (with_meta k rv b)))"

definition id_get :: "codec \<Rightarrow> hparams \<Rightarrow> string \<Rightarrow> hfile \<Rightarrow> (doc res \<times> hfile) option" where
  "id_get M P key s = map_option (\<lambda>(r, t). (found_doc M (stor t) r, t)) (index_get P key s)"

definition insert_id_index :: "codec \<Rightarrow> hparams \<Rightarrow> string \<Rightarrow> doc \<Rightarrow> hfile \<Rightarrow> (string res \<times> hfile) option" where
  "insert_id_index M P r data s =
     (case id_key_value data of
        Inl x \<Rightarrow> Some (Inl x, s)
      | Inr (i, body) \<Rightarrow> map_option (\<lambda>(r, t). (rbind r (\<lambda>_. Inr i), t)) (insert_with_storage M P i r body s))"

text \<open>The revision \<open>create_new_rev\<close> draws is an argument.\<close>

definition update_id_index :: "codec \<Rightarrow> hparams \<Rightarrow> string \<Rightarrow> string res \<Rightarrow> doc \<Rightarrow> hfile \<Rightarrow> (string res \<times> hfile) option" where
  "update_id_index M P r new_rev data s =
     (case id_key_value data of
        Inl x \<Rightarrow> Some (Inl x, s)
      | Inr (i, body) \<Rightarrow>
          (case id_get M P i s of
             None \<Rightarrow> None
           | Some (Inl x, t) \<Rightarrow> Some (Inl x, t)
           | Some (Inr db_data, t) \<Rightarrow>
               if dget db_data ''_rev'' \<noteq> PStr r then Some (Inl RevConflict, t)
               else (case new_rev of
                  Inl x \<Rightarrow> Some (Inl x, t)
                | Inr r' \<Rightarrow> map_option (\<lambda>(r, t). (rbind r (\<lambda>_. Inr i), t)) (update_with_storage M P i r' body t))))"

section \<open>The documents the files hold\<close>

definition entry_of :: "codec \<Rightarrow> string \<Rightarrow> found option \<Rightarrow> entry option" where
  "entry_of M f v = (case v of
     Some (Found k rv start sz status) \<Rightarrow>
       if status = CHR ''d'' then Some Dead
       else if sz = 0 then Some (Live rv [])
       else (case storage_get M start sz f of Inr b \<Rightarrow> Some (Live rv b) | Inl x \<Rightarrow> None)
   | _ \<Rightarrow> None)"

definition sound :: "codec \<Rightarrow> string \<Rightarrow> string \<Rightarrow> found \<Rightarrow> bool" where
  "sound M f i v \<longleftrightarrow> (\<exists>rv start sz status. v = Found i rv start sz status \<and> (start \<noteq> 0 \<or> sz \<noteq> 0) \<and> start + sz \<le> length f) \<and>
     entry_of M f (Some v) \<noteq> None"

definition represents :: "codec \<Rightarrow> hparams \<Rightarrow> hfile \<Rightarrow> database \<Rightarrow> bool" where
  "represents M P s d \<longleftrightarrow> 100 \<le> length (stor s) \<and>
     (\<exists>m. intact P s m \<and> (\<forall>i v. m i = Some v \<longrightarrow> sound M (stor s) i v) \<and>
          (\<forall>i. length i = 32 \<longrightarrow> lookup d i = entry_of M (stor s) (m i)))"

lemma read_appended: "start + sz \<le> length f \<Longrightarrow> read_at (f @ g) start sz = read_at f start sz"
  by (simp add: read_at_def)

lemma entry_appended:
  assumes "sound M f i v" shows "entry_of M (f @ g) (Some v) = entry_of M f (Some v)" "sound M (f @ g) i v"
proof -
  from assms obtain rv start sz status where v: "v = Found i rv start sz status" "start + sz \<le> length f" "start \<noteq> 0 \<or> sz \<noteq> 0"
    by (auto simp: sound_def)
  then show e: "entry_of M (f @ g) (Some v) = entry_of M f (Some v)" by (simp add: entry_of_def storage_get_def read_appended)
  with assms v show "sound M (f @ g) i v" by (auto simp: sound_def)
qed

lemma representsE:
  assumes "represents M P s d"
  obtains m where "100 \<le> length (stor s)" "intact P s m" "\<And>i v. m i = Some v \<Longrightarrow> sound M (stor s) i v"
    "\<And>i. length i = 32 \<Longrightarrow> lookup d i = entry_of M (stor s) (m i)"
  using assms unfolding represents_def by blast

text \<open>A body that is appended changes no document.\<close>

lemma represents_appended:
  assumes R: "100 \<le> length f" "\<And>i v. m i = Some v \<Longrightarrow> sound M f i v" "\<And>i. length i = 32 \<Longrightarrow> lookup d i = entry_of M f (m i)"
    and t: "stor t = f @ g" "intact P t m"
  shows "represents M P t d"
  unfolding represents_def
proof (intro conjI exI [of _ m] allI impI)
  show "100 \<le> length (stor t)" using R(1) t(1) by simp
  show "intact P t m" by (rule t(2))
  show "sound M (stor t) i v" if "m i = Some v" for i v using entry_appended [OF R(2) [OF that]] t(1) by simp
  show "lookup d i = entry_of M (stor t) (m i)" if "length i = 32" for i
    using R(3) [OF that] entry_appended [OF R(2), of i] t(1) by (cases "m i") (auto simp: entry_of_def)
qed

text \<open>A line for one document is new.\<close>

lemma represents_changed:
  assumes R: "100 \<le> length f" "\<And>i v. m i = Some v \<Longrightarrow> sound M f i v" "\<And>i. length i = 32 \<Longrightarrow> lookup d i = entry_of M f (m i)"
    and t: "stor t = f @ g" "intact P t (m(i \<mapsto> v))" and i: "length i = 32" and v: "sound M (f @ g) i v" "entry_of M (f @ g) (Some v) = Some e"
  shows "represents M P t (set_entry i e d)"
  unfolding represents_def
proof (intro conjI exI [of _ "m(i \<mapsto> v)"] allI impI)
  show "100 \<le> length (stor t)" using R(1) t(1) by simp
  show "intact P t (m(i \<mapsto> v))" by (rule t(2))
  show "sound M (stor t) j w" if "(m(i \<mapsto> v)) j = Some w" for j w
    using that v(1) entry_appended [OF R(2), of j] t(1) by (auto split: if_splits)
  show "lookup (set_entry i e d) j = entry_of M (stor t) ((m(i \<mapsto> v)) j)" if "length j = 32" for j
    using R(3) [OF that] entry_appended [OF R(2), of j] t(1) v(2) by (cases "m j") (auto simp: entry_of_def lookup_set_entry)
qed

section \<open>The operations refine those of the table\<close>

lemma entry_alive:
  assumes "entry_of M f v = Some (Live r b)" obtains k start sz status where "v = Some (Found k r start sz status)" "status \<noteq> CHR ''d''"
  using assms by (auto simp: entry_of_def split: option.splits found.splits if_splits sum.splits)

lemma sound_entry: "sound M f i v \<Longrightarrow> entry_of M f (Some v) \<noteq> None"
  by (simp add: sound_def)

text \<open>C9: the id index on the disk answers as the table of documents does: reading an id gives the document, with its
  revision, or raises that there is none or that it was deleted; the loop over the chain ends, and the files hold the
  same documents afterwards. (Of an id whose bucket is not used the code reads the start of the file as if it were a
  line; \<open>header_ends\<close> says that this leads nowhere.)\<close>

theorem id_get_refines:
  assumes R: "represents M P s d" and long: "start_ind < length (buck s)" and i: "length i = 32"
    and he: "lookup d i = None \<Longrightarrow> header_ends (buck s) i"
  shows "\<exists>t. id_get M P i s = Some (fst (db_get i d), t) \<and> represents M P t d"
proof -
  from representsE [OF R] obtain m where m: "100 \<le> length (stor s)" "intact P s m" "\<And>i v. m i = Some v \<Longrightarrow> sound M (stor s) i v"
    "\<And>i. length i = 32 \<Longrightarrow> lookup d i = entry_of M (stor s) (m i)" by blast
  have "header_ends (buck s) i" if "m i = None" using he m(4) [OF i] that by (simp add: entry_of_def)
  from get_answer [OF m(2) long this] obtain t where t: "index_get P i s = Some (case m i of Some v \<Rightarrow> Inr v | None \<Rightarrow> Inl ElemNotFound, t)"
    "intact P t m" "stor t = stor s" by auto
  have "represents M P t d" using represents_appended [OF m(1,3,4), of t "[]"] t by simp
  moreover have "found_doc M (stor s) (case m i of Some v \<Rightarrow> Inr v | None \<Rightarrow> Inl ElemNotFound) = fst (db_get i d)"
  proof (cases "m i")
    case None then show ?thesis using m(4) [OF i] by (simp add: found_doc_def db_get_def entry_of_def)
  next
    case (Some v)
    from m(3) [OF Some] obtain rv start sz status where v: "v = Found i rv start sz status" "start \<noteq> 0 \<or> sz \<noteq> 0"
      "entry_of M (stor s) (Some v) \<noteq> None" by (auto simp: sound_def)
    then show ?thesis using m(4) [OF i] Some
      by (auto simp: found_doc_def db_get_def entry_of_def split: sum.splits)
  qed
  ultimately show ?thesis using t by (auto simp: id_get_def)
qed

lemma saved:
  assumes body: "body \<noteq> []" and R: "100 \<le> length (stor s)" "intact P s m" "\<And>i v. m i = Some v \<Longrightarrow> sound M (stor s) i v"
    "\<And>i. length i = 32 \<Longrightarrow> lookup d i = entry_of M (stor s) (m i)"
  shows "\<exists>r t. storage_save M body s = (r, t) \<and> buck t = buck s \<and> write_fails t = write_fails s \<and> intact P t m \<and>
    (case r of Inl x \<Rightarrow> represents M P t d \<and> (\<exists>n. write_fails s n)
     | Inr (start, sz) \<Rightarrow> start = length (stor s) \<and> sz = length (dumps M body) \<and> stor t = stor s @ dumps M body)"
proof (cases "write_fails s (written s)")
  case True
  have i: "intact P (s\<lparr>written := Suc (written s)\<rparr>) m" using R(2) by (simp add: intact_def)
  with True represents_appended [OF R(1,3,4), of "s\<lparr>written := Suc (written s)\<rparr>" "[]"] show ?thesis by (auto simp: storage_save_def)
next
  case False
  have "intact P (s\<lparr>stor := stor s @ dumps M body, written := Suc (written s)\<rparr>) m" using R(2) by (simp add: intact_def)
  with False show ?thesis by (simp add: storage_save_def)
qed

text \<open>What is written for a document of its own body, and what becomes of the files where a write is refused.\<close>

definition room :: "codec \<Rightarrow> hparams \<Rightarrow> hfile \<Rightarrow> doc \<Rightarrow> bool" where
  "room M P s body \<longleftrightarrow> (\<forall>n. \<not> write_fails s n) \<and> length (stor s) + length (dumps M body) < 2 ^ 32 \<and> fresh_at P (buck s) < 2 ^ 32"

definition readable :: "codec \<Rightarrow> doc \<Rightarrow> bool" where
  "readable M body \<longleftrightarrow> dumps M body \<noteq> [] \<and> loads M (dumps M body) = Inr body"

lemma body_written:
  assumes R: "represents M P s d" and i: "length i = 32" and body: "body \<noteq> []" "readable M body"
    and op: "\<And>m t. \<lbrakk>intact P t m; buck t = buck s; m i = None \<longleftrightarrow> lookup d i = None\<rbrakk> \<Longrightarrow>
      \<exists>rs. opn (length (stor s)) (length (dumps M body)) t = Some rs \<and>
        outcome P t m (m(i \<mapsto> Found i r (length (stor s)) (length (dumps M body)) (CHR ''o''))) (no_trouble P t (length (stor s)) (length (dumps M body))) rs"
  shows "\<exists>res t. with_storage M body opn s = Some (res, t) \<and>
    (case res of Inl x \<Rightarrow> represents M P t d \<and> \<not> room M P s body | Inr b \<Rightarrow> represents M P t (set_entry i (Live r body) d))"
proof -
  from representsE [OF R] obtain m where m: "100 \<le> length (stor s)" "intact P s m" "\<And>i v. m i = Some v \<Longrightarrow> sound M (stor s) i v"
    "\<And>i. length i = 32 \<Longrightarrow> lookup d i = entry_of M (stor s) (m i)" by blast
  from saved [OF body(1) m(1,2,3,4)] obtain r0 u where u: "storage_save M body s = (r0, u)" "buck u = buck s" "write_fails u = write_fails s" "intact P u m"
    and r0: "case r0 of Inl x \<Rightarrow> represents M P u d \<and> (\<exists>n. write_fails s n)
     | Inr (start, sz) \<Rightarrow> start = length (stor s) \<and> sz = length (dumps M body) \<and> stor u = stor s @ dumps M body" by blast
  show ?thesis
  proof (cases r0)
    case (Inl x)
    with u r0 body(1) show ?thesis by (auto simp: with_storage_def room_def)
  next
    case (Inr a)
    then have a: "r0 = Inr (length (stor s), length (dumps M body))" "stor u = stor s @ dumps M body" using r0 by (cases a; simp)+
    let ?v = "Found i r (length (stor s)) (length (dumps M body)) (CHR ''o'')"
    have "m i = None \<longleftrightarrow> lookup d i = None"
    proof (cases "m i")
      case None then show ?thesis using m(4) [OF i] by (simp add: entry_of_def)
    next
      case (Some v) then show ?thesis using m(4) [OF i] sound_entry [OF m(3) [OF Some]] by simp
    qed
    from op [OF u(4,2) this] obtain res t where run: "opn (length (stor s)) (length (dumps M body)) u = Some (res, t)"
      and oc: "outcome P u m (m(i \<mapsto> ?v)) (no_trouble P u (length (stor s)) (length (dumps M body))) (res, t)"
      by (metis surj_pair)
    from oc have st: "stor t = stor s @ dumps M body" using a(2) by (simp add: outcome_def)
    have res: "with_storage M body opn s = Some (res, t)" using body(1) u(1) a(1) run by (simp add: with_storage_def)
    have rd: "read_at (stor s @ dumps M body) (length (stor s)) (length (dumps M body)) = dumps M body" by (simp add: read_at_def)
    have v: "sound M (stor s @ dumps M body) i ?v" "entry_of M (stor s @ dumps M body) (Some ?v) = Some (Live r body)"
      using body(2) m(1) rd by (auto simp: sound_def entry_of_def readable_def storage_get_def)
    show ?thesis
    proof (cases res)
      case (Inl x)
      with oc have "intact P t m" and "\<not> no_trouble P u (length (stor s)) (length (dumps M body))" by (simp_all add: outcome_def)
      moreover from this(1) have "represents M P t d" using represents_appended [OF m(1,3,4) st] by simp
      ultimately show ?thesis using res Inl u(2,3) by (auto simp: room_def no_trouble_def)
    next
      case (Inr b)
      with oc have "intact P t (m(i \<mapsto> ?v))" by (simp add: outcome_def)
      from represents_changed [OF m(1,3,4) st this i v] res Inr show ?thesis by simp
    qed
  qed
qed

lemma id_writes:
  assumes R: "represents M P s d" and i: "length i = 32" and r: "length r = 8" and body: "body \<noteq> []" "readable M body"
  shows "lookup d i = None \<longrightarrow> (\<exists>res t. insert_with_storage M P i r body s = Some (res, t) \<and>
      (case res of Inl x \<Rightarrow> represents M P t d \<and> \<not> room M P s body | Inr b \<Rightarrow> represents M P t (set_entry i (Live r body) d)))"
    and "lookup d i = Some (Live r0 b0) \<longrightarrow> (\<exists>res t. update_with_storage M P i r body s = Some (res, t) \<and>
      (case res of Inl x \<Rightarrow> represents M P t d \<and> \<not> room M P s body | Inr b \<Rightarrow> represents M P t (set_entry i (Live r body) d)))"
    and "lookup d i = Some (Live r0 b0) \<longrightarrow> (\<exists>res t. index_delete P i s = Some (res, t) \<and>
      (case res of Inl x \<Rightarrow> represents M P t d \<and> \<not> room M P s [] | Inr b \<Rightarrow> represents M P t (set_entry i Dead d)))"
proof -
  show "lookup d i = None \<longrightarrow> (\<exists>res t. insert_with_storage M P i r body s = Some (res, t) \<and>
      (case res of Inl x \<Rightarrow> represents M P t d \<and> \<not> room M P s body | Inr b \<Rightarrow> represents M P t (set_entry i (Live r body) d)))"
    unfolding insert_with_storage_def by (intro impI body_written [OF R i body] insert_new) (use i r in auto)
  show "lookup d i = Some (Live r0 b0) \<longrightarrow> (\<exists>res t. update_with_storage M P i r body s = Some (res, t) \<and>
      (case res of Inl x \<Rightarrow> represents M P t d \<and> \<not> room M P s body | Inr b \<Rightarrow> represents M P t (set_entry i (Live r body) d)))"
    unfolding update_with_storage_def
  proof (intro impI body_written [OF R i body])
    fix m t assume l: "lookup d i = Some (Live r0 b0)" and t: "intact P t m" "m i = None \<longleftrightarrow> lookup d i = None"
    then obtain v where v: "m i = Some v" by auto
    have "length (stor s) \<noteq> 0" "length (dumps M body) \<noteq> 0" using R body by (auto simp: represents_def readable_def)
    with update_found [OF t(1) v r, of "length (stor s)" "length (dumps M body)" "CHR ''o''"]
    show "\<exists>rs. index_update P i r (length (stor s)) (length (dumps M body)) (CHR ''o'') t = Some rs \<and>
        outcome P t m (m(i \<mapsto> Found i r (length (stor s)) (length (dumps M body)) (CHR ''o''))) (no_trouble P t (length (stor s)) (length (dumps M body))) rs"
      by simp
  qed
  show "lookup d i = Some (Live r0 b0) \<longrightarrow> (\<exists>res t. index_delete P i s = Some (res, t) \<and>
      (case res of Inl x \<Rightarrow> represents M P t d \<and> \<not> room M P s [] | Inr b \<Rightarrow> represents M P t (set_entry i Dead d)))"
  proof
    assume l: "lookup d i = Some (Live r0 b0)"
    from representsE [OF R] obtain m where m: "100 \<le> length (stor s)" "intact P s m" "\<And>i v. m i = Some v \<Longrightarrow> sound M (stor s) i v"
      "\<And>i. length i = 32 \<Longrightarrow> lookup d i = entry_of M (stor s) (m i)" by blast
    from l m(4) [OF i] obtain v where v: "m i = Some v" by (cases "m i") (auto simp: entry_of_def)
    from m(3) [OF v] obtain rv start sz status where f: "v = Found i rv start sz status" "start \<noteq> 0 \<or> sz \<noteq> 0" "start + sz \<le> length (stor s)"
      by (auto simp: sound_def)
    let ?v = "Found i ''00000000'' start sz (CHR ''d'')"
    from update_found [OF m(2) v, of "''00000000''" 0 0 "CHR ''d''"] f obtain res t where run: "index_delete P i s = Some (rbind res (\<lambda>_. Inr ()), t)"
      and oc: "outcome P s m (m(i \<mapsto> ?v)) (no_trouble P s 0 0) (res, t)" by (auto simp: index_delete_def)
    from oc have st: "stor t = stor s @ []" by (simp add: outcome_def)
    show "\<exists>res t. index_delete P i s = Some (res, t) \<and>
      (case res of Inl x \<Rightarrow> represents M P t d \<and> \<not> room M P s [] | Inr b \<Rightarrow> represents M P t (set_entry i Dead d))"
    proof (cases res)
      case (Inl x)
      with oc have "intact P t m" "\<not> no_trouble P s 0 0" by (simp_all add: outcome_def)
      with represents_appended [OF m(1,3,4) st] run Inl show ?thesis by (auto simp: room_def no_trouble_def)
    next
      case (Inr b)
      with oc have "intact P t (m(i \<mapsto> ?v))" by (simp add: outcome_def)
      moreover have "sound M (stor s @ []) i ?v" "entry_of M (stor s @ []) (Some ?v) = Some Dead" using f by (simp_all add: sound_def entry_of_def)
      ultimately show ?thesis using represents_changed [OF m(1,3,4) st _ i] run Inr by simp
    qed
  qed
qed

text \<open>C8: inserting a document under an id that is not in use, writing one again and deleting one on the disk do what
  they do to the table of documents, or raise and leave all documents as they are, also where the system refuses the
  second of the two writes of an insertion; without such trouble they do not raise.\<close>

theorem id_writes_refine:
  assumes "represents M P s d" "length i = 32" "length r = 8" "body \<noteq> []" "readable M body"
  shows "(lookup d i = None \<longrightarrow> (\<exists>res t. insert_with_storage M P i r body s = Some (res, t) \<and>
      (case res of Inl x \<Rightarrow> represents M P t d \<and> \<not> room M P s body | Inr b \<Rightarrow> represents M P t (set_entry i (Live r body) d)))) \<and>
    (\<forall>r0 b0. lookup d i = Some (Live r0 b0) \<longrightarrow>
      (\<exists>res t. update_with_storage M P i r body s = Some (res, t) \<and>
        (case res of Inl x \<Rightarrow> represents M P t d \<and> \<not> room M P s body | Inr b \<Rightarrow> represents M P t (set_entry i (Live r body) d))) \<and>
      (\<exists>res t. index_delete P i s = Some (res, t) \<and>
        (case res of Inl x \<Rightarrow> represents M P t d \<and> \<not> room M P s [] | Inr b \<Rightarrow> represents M P t (set_entry i Dead d))))"
  using id_writes [OF assms] by blast

section \<open>What the map does not show\<close>

text \<open>C10: a file is read by the process that wrote it, or by one whose \<open>hash\<close> puts the id into the same bucket: any other
  says that there is no such document. (CouchPotato.py starts itself again with PYTHONHASHSEED=0 for this reason.)\<close>

theorem needs_same_hash:
  assumes R: "represents M P s d" and long: "start_ind < length (buck s)" and i: "length i = 32" "lookup d i \<noteq> None"
    and Q: "hash_lim Q = hash_lim P" "kcache s = []" "header_ends (buck s) i"
  shows "\<exists>t. id_get M Q i s = Some (if bucket_number Q i = bucket_number P i then fst (db_get i d) else Inl RecordNotFound, t)"
proof -
  from representsE [OF R] obtain m where m: "100 \<le> length (stor s)" "intact P s m" "\<And>i v. m i = Some v \<Longrightarrow> sound M (stor s) i v"
    "\<And>i. length i = 32 \<Longrightarrow> lookup d i = entry_of M (stor s) (m i)" by blast
  from i m(4) [OF i(1)] obtain v where v: "m i = Some v" by (cases "m i") (auto simp: entry_of_def)
  have im: "idx.implements P (buck s) m" using m(2) by (simp add: intact_def)
  have g: "find_key Q i (buck s) = Some (if bucket_number Q i = bucket_number P i then Inr v else Inl ElemNotFound)"
    using find_key_run [OF im long Q(1), of i] Q(3) v by simp
  from m(3) [OF v] obtain rv start sz status where f: "v = Found i rv start sz status" "start \<noteq> 0 \<or> sz \<noteq> 0" "entry_of M (stor s) (Some v) \<noteq> None"
    by (auto simp: sound_def)
  have "found_doc M (stor s) (Inr v) = fst (db_get i d)"
    using f m(4) [OF i(1)] v by (auto simp: found_doc_def db_get_def entry_of_def split: sum.splits)
  then have "found_doc M (stor (s\<lparr>kcache := kc\<rparr>)) (Inr v) = fst (db_get i d)" for kc by simp
  then show ?thesis using g Q(2) by (cases "bucket_number Q i = bucket_number P i") (auto simp: id_get_def index_get_def found_doc_def [of _ _ "Inl x" for x])
qed

lemma place_key: assumes "find_place f key p = Some (Inr (q, e))" shows "l_key e \<noteq> key"
proof -
  from find_place.raw_induct [of "\<lambda>f key p r. \<forall>q e. r = Inr (q, e) \<longrightarrow> l_key e \<noteq> key", OF _ assms]
  show ?thesis by (fastforce split: sum.splits if_splits)
qed

text \<open>C17: an id that was asked for while the index was empty is not found after it is inserted, when another id of the same
  bucket came before it: the cache drops the answer of the line before it, not its own.\<close>

theorem stale_miss:
  assumes c: "map_of (kcache s) key = Some Unused" and b: "bucket_of P key (buck s) = Inr (Some (Suc n))"
    and run: "index_insert P key rv start sz s = Some (Inr u, t)"
  shows "index_get P key t = Some (Inr Unused, t)"
proof -
  from run b obtain r where r: "find_place (buck s) key (Suc n) = Some r" "insert_linked P key rv start sz r s = (Inr u, t)"
    by (auto simp: index_insert_def)
  then obtain q e where qe: "r = Inr (q, e)" by (cases r) (auto simp: insert_linked_def py_simps)
  have key: "l_key e \<noteq> key" by (rule place_key [OF r(1) [unfolded qe]])
  have "kcache t = filter (\<lambda>(k, v). k \<noteq> l_key e) (kcache s)"
    using r(2) unfolding qe insert_linked_def
    by (auto simp: py_simps end_of_lines_def write_line_run forgotten split: sum.splits if_splits prod.splits)
  moreover have "map_of (filter (\<lambda>(k, v). k \<noteq> x) al) key = map_of al key" if "x \<noteq> key" for x and al :: "(string \<times> found) list"
    using that by (induction al) auto
  ultimately show ?thesis using c key by (simp add: index_get_def)
qed

text \<open>A document that is written again without any field keeps the size of its old body, at another place.\<close>

theorem empty_body_keeps_size:
  assumes s: "intact P s m" "m i = Some v" "length r = 8" and ok: "no_trouble P s 1 0"
  shows "\<exists>b t. update_with_storage M P i r [] s = Some (Inr b, t) \<and> stor t = stor s \<and>
    intact P t (m(i \<mapsto> Found i r 1 (found_size v) (CHR ''o'')))"
proof -
  from update_found [OF s, of 1 0 "CHR ''o''"] obtain res t where "index_update P i r 1 0 (CHR ''o'') s = Some (res, t)"
    "outcome P s m (m(i \<mapsto> Found i r 1 (found_size v) (CHR ''o''))) True (res, t)" using ok by auto
  then show ?thesis by (cases res) (auto simp: update_with_storage_def with_storage_def outcome_def)
qed

section \<open>Examples\<close>

text \<open>A new index: the properties as marshal writes them, with the size of the table that the program uses.\<close>

definition id_header :: string where
  "id_header = [CHR 0xFB, CHR 0xDA, CHR 0x04] @ ''name'' @ [CHR 0xDA, CHR 0x02] @ ''id'' @ [CHR 0xDA, CHR 0x12] @ ''bucket_line_format'' @
     [CHR 0xFA, CHR 0x02] @ ''<I'' @ [CHR 0xDA, CHR 0x11] @ ''entry_line_format'' @ [CHR 0xFA, CHR 0x0A] @ ''<32s8sIIcI''"

definition an_id :: "char \<Rightarrow> string" where
  "an_id c = replicate 32 c"

definition no_docs :: database where
  "no_docs = \<lparr>docs = [], rnd = (\<lambda>_. 0), uuid = (\<lambda>n. []), drawn = 0\<rparr>"

definition demo_hash :: "int \<Rightarrow> hparams" where
  "demo_hash n = \<lparr>hash_lim = 1048575, key_hash = (\<lambda>_. n)\<rparr>"

definition demo_body :: doc where
  "demo_body = [(''_t'', PStr ''media'')]"

definition demo_codec :: codec where
  "demo_codec = \<lparr>dumps = (\<lambda>_. ''{0''), loads = (\<lambda>_. Inr demo_body)\<rparr>"

definition new_index :: hfile where
  "new_index = \<lparr>buck = id_header, stor = replicate 100 (CHR ''|''), kcache = [], picks = (\<lambda>_. 0), picked = 0,
     write_fails = (\<lambda>_. False), written = 0\<rparr>"

lemma header_length: "length id_header = 66"
  by (simp add: id_header_def)

lemma new_intact: "intact P new_index (\<lambda>_. None)"
proof -
  have "head_at id_header b = 0" for b by (simp add: head_at_def read_past_end header_length start_ind_def)
  then have "idx.bucket_ok P id_header (\<lambda>_. None) b []" for b by (simp add: idx.bucket_ok_def)
  then show ?thesis by (auto simp: intact_def idx.implements_def new_index_def file_ok_def header_length start_ind_def)
qed

lemma new_represents: "represents M P new_index no_docs"
  unfolding represents_def using new_intact [of P]
  by (auto simp: new_index_def entry_of_def lookup_def no_docs_def intro!: exI [of _ "\<lambda>_. None"])

lemma demo_room: "room demo_codec (demo_hash n) new_index demo_body"
  by (simp add: room_def new_index_def demo_codec_def fresh_at_def header_length data_start_def start_ind_def demo_hash_def)

lemma demo_readable: "demo_body \<noteq> []" "readable demo_codec demo_body"
  by (simp_all add: demo_body_def readable_def demo_codec_def)

lemma no_trouble_then:
  assumes "\<exists>res t. run = Some (res, t) \<and> (case res of Inl x \<Rightarrow> A t \<and> \<not> fine | Inr b \<Rightarrow> B t)" fine
  shows "\<exists>b t. run = Some (Inr b, t) \<and> B t"
proof -
  from assms(1) obtain res t where r: "run = Some (res, t)" "case res of Inl x \<Rightarrow> A t \<and> \<not> fine | Inr b \<Rightarrow> B t" by blast
  with assms(2) show ?thesis by (cases res) auto
qed

lemma nothing_there: "lookup no_docs i = None" "length (an_id c) = 32" "length ''00010000'' = 8"
  by (simp_all add: lookup_def no_docs_def an_id_def)

theorem id_writes_refine_witness:
  "\<exists>b t. insert_with_storage demo_codec (demo_hash 7) (an_id (CHR ''m'')) ''00010000'' demo_body new_index = Some (Inr b, t) \<and>
     represents demo_codec (demo_hash 7) t (set_entry (an_id (CHR ''m'')) (Live ''00010000'' demo_body) no_docs)"
  by (rule no_trouble_then [OF mp [OF conjunct1 [OF id_writes_refine [OF new_represents nothing_there(2,3) demo_readable]] nothing_there(1)] demo_room])

text \<open>A file with a document has its table of buckets.\<close>

lemma represents_long:
  assumes R: "represents M P s d" and i: "length i = 32" "lookup d i \<noteq> None" shows "start_ind < length (buck s)"
proof -
  from representsE [OF R] obtain m where m: "100 \<le> length (stor s)" "intact P s m" "\<And>i v. m i = Some v \<Longrightarrow> sound M (stor s) i v"
    "\<And>i. length i = 32 \<Longrightarrow> lookup d i = entry_of M (stor s) (m i)" by blast
  have "m i \<noteq> None" using m(4) [OF i(1)] i(2) by (cases "m i") (simp_all add: entry_of_def)
  moreover have "idx.implements P (buck s) m" using m(2) by (simp add: intact_def)
  ultimately show ?thesis using short_is_empty by (metis not_le)
qed

lemma one_doc:
  "\<exists>b t. insert_with_storage demo_codec (demo_hash 7) (an_id (CHR ''m'')) ''00010000'' demo_body new_index = Some (Inr b, t) \<and>
     represents demo_codec (demo_hash 7) t (set_entry (an_id (CHR ''m'')) (Live ''00010000'' demo_body) no_docs)"
  by (rule no_trouble_then [OF mp [OF id_writes(1) [OF new_represents nothing_there(2,3) demo_readable] nothing_there(1)] demo_room])

theorem id_get_refines_witness:
  "\<exists>s t. id_get demo_codec (demo_hash 7) (an_id (CHR ''m'')) s = Some (Inr (with_meta (an_id (CHR ''m'')) ''00010000'' demo_body), t)"
proof -
  from one_doc obtain b s where s: "represents demo_codec (demo_hash 7) s (set_entry (an_id (CHR ''m'')) (Live ''00010000'' demo_body) no_docs)" by blast
  have i: "length (an_id c) = 32" for c by (simp add: an_id_def)
  have l: "lookup (set_entry (an_id (CHR ''m'')) (Live ''00010000'' demo_body) no_docs) (an_id (CHR ''m'')) = Some (Live ''00010000'' demo_body)"
    by (simp add: lookup_set_entry)
  have "start_ind < length (buck s)" by (rule represents_long [OF s i [of "CHR ''m''"]]) (simp add: l)
  from id_get_refines [OF s this i [of "CHR ''m''"]] l show ?thesis by (auto simp: db_get_def)
qed

text \<open>The first line goes behind the table: the properties stay, and the file is far shorter than the number that their bytes
  49 to 52 are.\<close>

lemma first_run:
  "\<exists>t. insert_with_storage demo_codec (demo_hash 7) (an_id (CHR ''m'')) ''00010000'' demo_body new_index = Some (Inr True, t) \<and>
     kcache t = [] \<and> read_at (buck t) 0 53 = read_at id_header 0 53 \<and> length (buck t) = data_start (demo_hash 7) + 53"
proof -
  let ?P = "demo_hash 7" let ?i = "an_id (CHR ''m'')" let ?w = "data_start ?P"
  let ?e = "\<lparr>l_key = ?i, l_rev = ''00010000'', l_start = 100, l_size = 2, l_status = CHR ''o'', l_next = 0\<rparr>"
  have w: "?w = 4194806" "start_ind = 500" by (simp_all add: data_start_def start_ind_def demo_hash_def)
  have "fits ?e" by (simp add: fits_def an_id_def)
  from pack_fits [OF this] obtain d where d: "pack_line ?e = Inr d" "length d = 53" by metis
  have p: "calculate_position ?P ?i = 528" by (simp add: calculate_position_def bucket_number_def demo_hash_def start_ind_def)
  have b: "bucket_of ?P ?i id_header = Inr None" by (simp add: bucket_of_def p read_past_end header_length)
  let ?f1 = "write_at ?w d id_header" let ?f2 = "write_at 528 (le32 ?w) ?f1"
  have l: "length ?f1 = ?w + 53" "length ?f2 = ?w + 53" using d(2) by (simp_all add: length_write_at header_length w)
  have "read_at ?f2 0 53 = read_at ?f1 0 53" using l by (intro read_before) simp_all
  also have "\<dots> = read_at id_header 0 53" by (intro read_before) (simp_all add: header_length w)
  finally have h: "read_at ?f2 0 53 = read_at id_header 0 53" .
  have m: "max 66 ?w = ?w" by (simp add: w)
  let ?s = "new_index\<lparr>stor := stor new_index @ ''{0'', written := 1\<rparr>"
  have "storage_save demo_codec demo_body new_index = (Inr (100, 2), ?s)" by (simp add: storage_save_def new_index_def demo_codec_def)
  then have "insert_with_storage demo_codec ?P ?i ''00010000'' demo_body new_index = index_insert ?P ?i ''00010000'' 100 2 ?s"
    by (simp add: insert_with_storage_def with_storage_def demo_readable)
  also have "\<dots> = Some (Inr True, ?s\<lparr>buck := ?f2, written := 3, kcache := []\<rparr>)"
    using b d m w by (simp add: index_insert_def insert_first_def end_of_lines_def py_simps write_line_run write_buck_def forgotten
        new_index_def header_length p pack_I_def put_line_def)
  finally show ?thesis using h l by simp
qed

theorem needs_same_hash_witness:
  "\<exists>s t. id_get demo_codec (demo_hash 8) (an_id (CHR ''m'')) s = Some (Inl RecordNotFound, t) \<and>
     represents demo_codec (demo_hash 7) s (set_entry (an_id (CHR ''m'')) (Live ''00010000'' demo_body) no_docs)"
proof -
  let ?i = "an_id (CHR ''m'')" let ?d = "set_entry ?i (Live ''00010000'' demo_body) no_docs"
  from one_doc first_run obtain s where s: "represents demo_codec (demo_hash 7) s ?d" and c: "kcache s = []"
    and h: "read_at (buck s) 0 53 = read_at id_header 0 53" and l: "length (buck s) = data_start (demo_hash 7) + 53" by fastforce
  have i: "length ?i = 32" by (simp add: an_id_def)
  have there: "lookup ?d ?i \<noteq> None" by (simp add: lookup_set_entry)
  have "read_at id_header 0 53 = take 53 id_header" by (simp add: read_at_def)
  then have u: "unpack_line (read_at id_header 0 53) = Inr \<lparr>l_key = take 32 id_header, l_rev = take 8 (drop 32 id_header), l_start = 1818196338,
      l_size = 1600482921, l_status = CHR ''f'', l_next = 1634562671\<rparr>"
    by (simp add: unpack_line_def entry_line_size_def read_at_def id_header_def)
  have "take 32 id_header ! 0 \<noteq> ?i ! 0" by (simp add: id_header_def an_id_def)
  then have k: "take 32 id_header \<noteq> ?i" by metis
  have "length (buck s) \<le> 1634562671" by (simp add: l data_start_def demo_hash_def start_ind_def)
  then have "unpack_line (read_at (buck s) 1634562671 53) = Inl struct_error" by (simp add: read_past_end unpack_line_short)
  with u k h have "header_ends (buck s) ?i"
    by (simp add: header_ends_def locate_key.simps [of _ _ 0] locate_key.simps [of _ _ 1634562671] entry_line_size_def)
  from needs_same_hash [OF s represents_long [OF s i there] i there _ c this, of "demo_hash 8"] s show ?thesis
    by (auto simp: demo_hash_def bucket_number_def)
qed

text \<open>Two ids of one bucket: the second is asked for, the first inserted, then the second.\<close>

text \<open>What a computation does to the files, and its result, do not depend on the cache.\<close>

definition blind :: "(hfile, 'a) py \<Rightarrow> bool" where
  "blind m \<longleftrightarrow> (\<forall>s c. \<exists>c'. m (s\<lparr>kcache := c\<rparr>) = (fst (m s), (snd (m s))\<lparr>kcache := c'\<rparr>))"

lemma blind_bnd: assumes "blind m" "\<And>x. blind (k x)" shows "blind (bnd m k)"
  unfolding blind_def
proof (intro allI)
  fix s c
  obtain r t where st: "m s = (r, t)" by (cases "m s")
  with assms(1) obtain c1 where "m (s\<lparr>kcache := c\<rparr>) = (r, t\<lparr>kcache := c1\<rparr>)" by (metis blind_def fst_conv snd_conv)
  with st show "\<exists>c'. bnd m k (s\<lparr>kcache := c\<rparr>) = (fst (bnd m k s), (snd (bnd m k s))\<lparr>kcache := c'\<rparr>)"
    using assms(2) by (cases r) (auto simp: bnd_run blind_def)
qed

lemma blind_liftr: "blind (liftr r)"
  by (auto simp: blind_def py_simps split: sum.split intro: exI [of _ "kcache _"])

lemma cache_last: "s\<lparr>kcache := c, written := n\<rparr> = s\<lparr>written := n, kcache := c\<rparr>" "s\<lparr>kcache := c, buck := b\<rparr> = s\<lparr>buck := b, kcache := c\<rparr>"
  by (cases s, simp)+

lemma blind_steps: "blind (ret x)" "blind (end_of_lines P)" "blind (write_buck p b)" "blind (forget key)"
  by (auto simp: blind_def py_simps end_of_lines_def write_buck_def forgotten cache_last)

lemma blind_insert: "blind (insert_linked P k r a z w)" "blind (insert_first P k r a z)"
  by (auto simp: insert_linked_def insert_first_def write_line_def intro!: blind_bnd blind_liftr blind_steps split: prod.split)

lemma insert_any_cache:
  assumes "index_insert P k r a z s = Some (Inr u, t)"
  shows "\<exists>c'. index_insert P k r a z (s\<lparr>kcache := c\<rparr>) = Some (Inr u, t\<lparr>kcache := c'\<rparr>)"
proof -
  have "\<exists>c'. m (s\<lparr>kcache := c\<rparr>) = (Inr u, t\<lparr>kcache := c'\<rparr>)" if "blind m" "m s = (Inr u, t)" for m :: "(hfile, bool) py"
    using that by (metis blind_def fst_conv snd_conv)
  with assms blind_insert show ?thesis
    by (auto simp: index_insert_def split: sum.splits option.splits nat.splits)
qed

lemma in_use:
  assumes s: "intact P s m" and k: "m key = Some v" and j: "bucket_number P key = bucket_number P key'"
  shows "\<exists>n. bucket_of P key' (buck s) = Inr (Some (Suc n))"
proof -
  have im: "idx.implements P (buck s) m" using s by (simp add: intact_def)
  have "\<not> length (buck s) \<le> start_ind" using short_is_empty [OF im] k by auto
  with used_bucket [OF im k] j bucket_read [OF intact_ok [OF s], of key'] show ?thesis by (metis not0_implies_Suc)
qed

lemma first_cache:
  assumes "insert_first P k r a z s = (Inr u, t)" shows "kcache t = filter (\<lambda>(k', v). k' \<noteq> k) (kcache s)"
  using assms unfolding insert_first_def
  by (auto simp: py_simps end_of_lines_def write_line_run write_buck_def forgotten split: sum.splits if_splits prod.splits)

lemma first_length:
  assumes "insert_first P k r a z s = (Inr u, t)"
  shows "length (buck t) = max (max (length (buck s)) (data_start P) + 53) (calculate_position P k + 4)"
  using assms unfolding insert_first_def
  by (auto simp: py_simps end_of_lines_def write_line_run write_buck_def forgotten put_line_def length_write_at pack_I_def
      split: sum.splits if_splits prod.splits dest!: pack_line_ok)

theorem stale_miss_witness:
  "\<exists>u v a b c. index_get (demo_hash 7) (an_id (CHR ''b'')) new_index = Some (Inr Unused, a) \<and>
     index_insert (demo_hash 7) (an_id (CHR ''a'')) ''00010000'' 100 2 a = Some (Inr u, b) \<and>
     index_insert (demo_hash 7) (an_id (CHR ''b'')) ''00010000'' 102 2 b = Some (Inr v, c) \<and>
     index_get (demo_hash 7) (an_id (CHR ''b'')) c = Some (Inr Unused, c)"
proof -
  let ?P = "demo_hash 7" let ?a = "an_id (CHR ''a'')" let ?b = "an_id (CHR ''b'')" let ?r = "''00010000''"
  let ?m = "(\<lambda>_. None)(?a \<mapsto> Found ?a ?r 100 2 (CHR ''o''))"
  have ab: "?a \<noteq> ?b" by (simp add: an_id_def)
  have p: "calculate_position ?P k = 528" "bucket_number ?P k = 7" for k
    by (simp_all add: calculate_position_def bucket_number_def demo_hash_def start_ind_def)
  have e: "bucket_of ?P k id_header = Inr None" for k by (simp add: bucket_of_def p read_past_end header_length)
  let ?s = "new_index\<lparr>kcache := [(?b, Unused)]\<rparr>"
  have g: "index_get ?P ?b new_index = Some (Inr Unused, ?s)" using e [of ?b] by (simp add: index_get_def new_index_def find_key_def)
  have ds: "data_start ?P = 4194806" by (simp add: data_start_def start_ind_def demo_hash_def)
  then have fine: "no_trouble ?P new_index 100 2" by (simp add: no_trouble_def new_index_def fresh_at_def header_length)
  from insert_new [OF new_intact _ nothing_there(2,3), of ?P "CHR ''a''" 100 2] obtain u t where
    t: "index_insert ?P ?a ?r 100 2 new_index = Some (u, t)" "outcome ?P new_index (\<lambda>_. None) ?m (no_trouble ?P new_index 100 2) (u, t)" by auto
  then obtain u' where u: "u = Inr u'" and it: "intact ?P t ?m" and wf: "write_fails t = write_fails new_index"
    using fine by (cases u) (auto simp: outcome_def)
  from insert_any_cache [OF t(1) [unfolded u]] obtain c1 where b: "index_insert ?P ?a ?r 100 2 ?s = Some (Inr u', t\<lparr>kcache := c1\<rparr>)" by blast
  have first: "insert_first ?P ?a ?r 100 2 ?s = (Inr u', t\<lparr>kcache := c1\<rparr>)" using b e [of ?a] by (simp add: index_insert_def new_index_def)
  from first_cache [OF first] have "kcache (t\<lparr>kcache := c1\<rparr>) = [(?b, Unused)]" using ab by simp
  then have c: "map_of (kcache (t\<lparr>kcache := c1\<rparr>)) ?b = Some Unused" using ab by simp
  have m: "?m ?b = None" using ab by simp
  from in_use [OF it, of ?a _ ?b] p obtain n where n: "bucket_of ?P ?b (buck t) = Inr (Some (Suc n))" by auto
  from first_length [OF first] have "length (buck t) < 2 ^ 32" by (simp add: ds p new_index_def header_length)
  then have fine2: "no_trouble ?P t 102 2" using wf by (simp add: ds no_trouble_def new_index_def fresh_at_def)
  from insert_new [OF it m nothing_there(2,3), of 102 2] obtain v w where
    w: "index_insert ?P ?b ?r 102 2 t = Some (v, w)" "outcome ?P t ?m (?m(?b \<mapsto> Found ?b ?r 102 2 (CHR ''o''))) (no_trouble ?P t 102 2) (v, w)" by (metis surj_pair)
  then obtain v' where v: "v = Inr v'" using fine2 by (cases v) (auto simp: outcome_def)
  from insert_any_cache [OF w(1) [unfolded v]] obtain c2 where
    d: "index_insert ?P ?b ?r 102 2 (t\<lparr>kcache := c1\<rparr>) = Some (Inr v', w\<lparr>kcache := c2\<rparr>)" by blast
  have "bucket_of ?P ?b (buck (t\<lparr>kcache := c1\<rparr>)) = Inr (Some (Suc n))" using n by simp
  from stale_miss [OF c this d] g b d show ?thesis by blast
qed

end
