(* ===== verification/Api.thy ===== *)
theory Api
  imports PyVal
begin

text \<open>
  The web interface of the program (couchpotato/api.py): the one thread of the web server, which takes requests,
  waits for the lock of their route and sends answers, and a thread for every handler that runs. A step relation
  interleaves them. What the handlers answer is a relation, so that a handler may answer anything or raise.
\<close>

section \<open>Requests and answers\<close>

record api_request =
  r_id :: nat
  r_route :: string
  callback_func :: string

datatype answer = Missing | Finished pv | Redirected string | Jsonp string pv

text \<open>\<open>api\<close> has a handler for the route; the parameters that are made of the arguments, or the exception on the way;
  what a handler may answer; whether the connection is closed when the answer is there.\<close>

record apienv =
  known :: "string \<Rightarrow> bool"
  prepared :: "api_request \<Rightarrow> doc res"
  answers :: "string \<Rightarrow> doc \<Rightarrow> pv res \<Rightarrow> bool"
  hung_up :: "nat \<Rightarrow> bool"

definition failed_result :: pv where
  "failed_result = PDict [(''success'', PBool False), (''error'', PStr ''Failed returning results'')]"

definition handler_result :: "pv res \<Rightarrow> pv" where
  "handler_result r = (case r of Inr v \<Rightarrow> v | Inl x \<Rightarrow> failed_result)"

text \<open>\<open>sendData\<close>: what tornado does not finish with is replaced. The branch for a \<open>UnicodeDecodeError\<close>, which answers
  nothing, has no counterpart: nothing in the block decodes bytes strictly (\<open>jsonBytesDefault\<close> decodes with
  replacement, tornado turns an argument it cannot decode into an \<open>HTTPError\<close>), and the answers of the model hold no
  bytes.\<close>

definition send_data :: "api_request \<Rightarrow> pv \<Rightarrow> answer" where
  "send_data q result =
     (if callback_func q \<noteq> [] then Jsonp (callback_func q) result
      else case result of
        PTup (PStr x # xs) \<Rightarrow> (case xs of
            PStr url # _ \<Rightarrow> if x = ''redirect'' then Redirected url else Finished failed_result
          | _ \<Rightarrow> Finished failed_result)
      | PDict d \<Rightarrow> Finished (PDict d)
      | PStr t \<Rightarrow> Finished (PStr t)
      | PNone \<Rightarrow> Finished PNone
      | _ \<Rightarrow> Finished failed_result)"

section \<open>The threads\<close>

text \<open>The web server's thread: free, in \<open>acquire\<close> of the lock of a route, or behind it.\<close>

datatype main_phase = MainFree | MainWaits api_request | MainHolds api_request

text \<open>The thread of a handler: it runs, has its result, or has handed it to the web server's loop.\<close>

datatype phase = Handles doc | Returned pv | Posted

record server =
  arrived :: "api_request list"
  main :: main_phase
  locked :: "string list"
  threads :: "(api_request \<times> phase) list"
  loop_calls :: "(api_request \<times> pv) list"
  sent :: "(nat \<times> answer option) list"

definition closing :: "apienv \<Rightarrow> api_request \<Rightarrow> answer \<Rightarrow> nat \<times> answer option" where
  "closing E q a = (r_id q, if hung_up E (r_id q) then None else Some a)"

definition unlock :: "string \<Rightarrow> server \<Rightarrow> server" where
  "unlock route s = s\<lparr>locked := filter (\<lambda>r. r \<noteq> route) (locked s)\<rparr>"

text \<open>The loop takes requests in any order, calls in the order they were added. A thread may fail to start, so that \<open>refuse\<close>
  is possible whatever the arguments are.\<close>

inductive step :: "apienv \<Rightarrow> server \<Rightarrow> server \<Rightarrow> bool" for E where
  missing: "\<lbrakk>main s = MainFree; arrived s = xs @ q # ys; \<not> known E (r_route q)\<rbrakk> \<Longrightarrow>
     step E s (s\<lparr>arrived := xs @ ys, sent := sent s @ [closing E q Missing]\<rparr>)"
| take_request: "\<lbrakk>main s = MainFree; arrived s = xs @ q # ys; known E (r_route q)\<rbrakk> \<Longrightarrow>
     step E s (s\<lparr>arrived := xs @ ys, main := MainWaits q\<rparr>)"
| acquire: "\<lbrakk>main s = MainWaits q; r_route q \<notin> set (locked s)\<rbrakk> \<Longrightarrow>
     step E s (s\<lparr>main := MainHolds q, locked := r_route q # locked s\<rparr>)"
| start: "\<lbrakk>main s = MainHolds q; prepared E q = Inr kwargs\<rbrakk> \<Longrightarrow>
     step E s (s\<lparr>main := MainFree, threads := threads s @ [(q, Handles kwargs)]\<rparr>)"
| refuse: "main s = MainHolds q \<Longrightarrow>
     step E s (unlock (r_route q) (s\<lparr>main := MainFree, sent := sent s @ [closing E q (Finished failed_result)]\<rparr>))"
| handle: "\<lbrakk>threads s = xs @ (q, Handles kwargs) # ys; answers E (r_route q) kwargs r\<rbrakk> \<Longrightarrow>
     step E s (s\<lparr>threads := xs @ (q, Returned (handler_result r)) # ys\<rparr>)"
| post: "threads s = xs @ (q, Returned v) # ys \<Longrightarrow>
     step E s (s\<lparr>threads := xs @ (q, Posted) # ys, loop_calls := loop_calls s @ [(q, v)]\<rparr>)"
| release: "threads s = xs @ (q, Posted) # ys \<Longrightarrow>
     step E s (unlock (r_route q) (s\<lparr>threads := xs @ ys\<rparr>))"
| send_answer: "\<lbrakk>main s = MainFree; loop_calls s = (q, v) # cs\<rbrakk> \<Longrightarrow>
     step E s (s\<lparr>loop_calls := cs, sent := sent s @ [closing E q (send_data q v)]\<rparr>)"

definition server_start :: "api_request list \<Rightarrow> server" where
  "server_start qs = \<lparr>arrived = qs, main = MainFree, locked = [], threads = [], loop_calls = [], sent = []\<rparr>"

inductive reachable :: "apienv \<Rightarrow> api_request list \<Rightarrow> server \<Rightarrow> bool" for E qs where
  reachable_start: "reachable E qs (server_start qs)"
| reachable_step: "reachable E qs s \<Longrightarrow> step E s t \<Longrightarrow> reachable E qs t"

section \<open>Who holds a lock\<close>

definition main_request :: "server \<Rightarrow> api_request list" where
  "main_request s = (case main s of MainFree \<Rightarrow> [] | MainWaits q \<Rightarrow> [q] | MainHolds q \<Rightarrow> [q])"

definition holders :: "server \<Rightarrow> string list" where
  "holders s = (case main s of MainHolds q \<Rightarrow> [r_route q] | _ \<Rightarrow> []) @ map (r_route \<circ> fst) (threads s)"

text \<open>The locks that are held are those of the routes whose handlers run, one for each.\<close>

definition locks_ok :: "server \<Rightarrow> bool" where
  "locks_ok s \<longleftrightarrow> distinct (holders s) \<and> set (locked s) = set (holders s)"

lemma unlock_fields [simp]:
  "arrived (unlock r s) = arrived s" "main (unlock r s) = main s" "threads (unlock r s) = threads s"
  "loop_calls (unlock r s) = loop_calls s" "sent (unlock r s) = sent s" "locked (unlock r s) = filter (\<lambda>x. x \<noteq> r) (locked s)"
  by (simp_all add: unlock_def)

lemma given_back:
  assumes "locks_ok s" "holders s = as @ r # bs" "holders t = as @ bs" "locked t = filter (\<lambda>x. x \<noteq> r) (locked s)"
  shows "locks_ok t"
  using assms by (auto simp: locks_ok_def)

lemma locks_step: "step E s t \<Longrightarrow> locks_ok s \<Longrightarrow> locks_ok t"
proof (induction rule: step.induct)
  case (refuse s q)
  show ?case by (rule given_back [OF refuse.prems, of "[]" "r_route q"]) (use refuse in \<open>simp_all add: holders_def\<close>)
next
  case (release s xs q ys)
  let ?ms = "case main s of MainHolds q \<Rightarrow> [r_route q] | _ \<Rightarrow> []"
  show ?case by (rule given_back [OF release.prems, of "?ms @ map (r_route \<circ> fst) xs" "r_route q" "map (r_route \<circ> fst) ys"])
      (use release in \<open>simp_all add: holders_def\<close>)
qed (auto simp: locks_ok_def holders_def)

lemma locks_reachable: "reachable E qs s \<Longrightarrow> locks_ok s"
proof (induction rule: reachable.induct)
  case reachable_start then show ?case by (simp add: locks_ok_def holders_def server_start_def)
qed (rule locks_step)

text \<open>C3: of every route at most one handler runs at a time; the lock of a route is held exactly while the request it was
  taken for is being prepared or handled, and is given back by it alone.\<close>

theorem one_handler_per_route:
  assumes "reachable E qs s"
  shows "distinct (map (r_route \<circ> fst) (threads s)) \<and>
    (\<forall>route. route \<in> set (locked s) \<longleftrightarrow> (\<exists>q. r_route q = route \<and> (main s = MainHolds q \<or> q \<in> fst ` set (threads s)))) \<and>
    (\<forall>q. main s = MainHolds q \<longrightarrow> r_route q \<notin> r_route ` fst ` set (threads s))"
  using locks_reachable [OF assms] by (auto simp: locks_ok_def holders_def split: main_phase.splits)

section \<open>Every request is answered\<close>

text \<open>Where a request is: with its id, once.\<close>

definition unposted :: "(api_request \<times> phase) list \<Rightarrow> api_request list" where
  "unposted ts = map fst (filter (\<lambda>(q, p). p \<noteq> Posted) ts)"

definition request_places :: "server \<Rightarrow> nat multiset" where
  "request_places s = mset (map r_id (arrived s @ main_request s @ unposted (threads s) @ map fst (loop_calls s))) + mset (map fst (sent s))"

lemma request_places_step: "step E s t \<Longrightarrow> request_places t = request_places s"
  by (induction rule: step.induct) (simp_all add: request_places_def main_request_def unposted_def closing_def)

lemma request_places_reachable: "reachable E qs s \<Longrightarrow> request_places s = mset (map r_id qs)"
proof (induction rule: reachable.induct)
  case reachable_start then show ?case by (simp add: request_places_def main_request_def unposted_def server_start_def)
qed (simp add: request_places_step)

text \<open>The steps that are still to be taken.\<close>

definition thread_work :: "phase \<Rightarrow> nat" where
  "thread_work p = (case p of Handles d \<Rightarrow> 4 | Returned v \<Rightarrow> 3 | Posted \<Rightarrow> 1)"

definition work :: "server \<Rightarrow> nat" where
  "work s = 7 * length (arrived s) + (case main s of MainFree \<Rightarrow> 0 | MainWaits q \<Rightarrow> 6 | MainHolds q \<Rightarrow> 5) +
     sum_list (map (thread_work \<circ> snd) (threads s)) + length (loop_calls s)"

lemma work_step: "step E s t \<Longrightarrow> work t < work s"
  by (induction rule: step.induct) (simp_all add: work_def thread_work_def)

text \<open>Something can always be done while a request has no answer, if every handler ends.\<close>

lemma no_step_over:
  assumes ok: "locks_ok s" and ends: "\<And>route kwargs. \<exists>r. answers E route kwargs r" and no: "\<And>t. \<not> step E s t"
  shows "arrived s = [] \<and> main s = MainFree \<and> threads s = [] \<and> loop_calls s = []"
proof -
  have t: "threads s = []"
  proof (rule ccontr)
    assume "threads s \<noteq> []"
    then obtain q p ys where ts: "threads s = [] @ (q, p) # ys" by (cases "threads s") auto
    show False
    proof (cases p)
      case (Handles d)
      from ends obtain r where "answers E (r_route q) d r" by blast
      from step.handle [OF ts [unfolded Handles] this] no show False by blast
    next
      case (Returned v) from step.post [OF ts [unfolded Returned]] no show False by blast
    next
      case Posted from step.release [OF ts [unfolded Posted]] no show False by blast
    qed
  qed
  have m: "main s = MainFree"
  proof (cases "main s")
    case (MainWaits q)
    with ok t have "r_route q \<notin> set (locked s)" by (simp add: locks_ok_def holders_def)
    from step.acquire [OF MainWaits this] no show ?thesis by blast
  next
    case (MainHolds q) from step.refuse [OF MainHolds] no show ?thesis by blast
  qed
  have a: "arrived s = []"
  proof (rule ccontr)
    assume "arrived s \<noteq> []"
    then obtain q ys where "arrived s = [] @ q # ys" by (cases "arrived s") auto
    with step.missing [OF m this] step.take_request [OF m this] no show False by blast
  qed
  have "loop_calls s = []"
  proof (rule ccontr)
    assume "loop_calls s \<noteq> []"
    then obtain q v cs where "loop_calls s = (q, v) # cs" by (cases "loop_calls s") auto
    from step.send_answer [OF m this] no show False by blast
  qed
  with t m a show ?thesis by blast
qed

text \<open>C4: there is no deadlock: if every handler ends, the server goes on until every request has been answered, each exactly
  once, and this takes at most seven steps a request.\<close>

theorem all_answered:
  assumes r: "reachable E qs s"
  shows "mset (map fst (sent s)) \<subseteq># mset (map r_id qs) \<and>
    (\<forall>t. step E s t \<longrightarrow> work t < work s) \<and> work (server_start qs) = 7 * length qs \<and>
    ((\<forall>route kwargs. \<exists>r. answers E route kwargs r) \<longrightarrow> (\<forall>t. \<not> step E s t) \<longrightarrow> mset (map fst (sent s)) = mset (map r_id qs))"
proof (intro conjI impI allI)
  note p = request_places_reachable [OF r]
  show "mset (map fst (sent s)) \<subseteq># mset (map r_id qs)" unfolding p [symmetric] request_places_def by simp
  show "work t < work s" if "step E s t" for t using that by (rule work_step)
  show "work (server_start qs) = 7 * length qs" by (simp add: work_def server_start_def)
  assume "\<forall>route kwargs. \<exists>r. answers E route kwargs r" "\<forall>t. \<not> step E s t"
  with no_step_over [OF locks_reachable [OF r], of E] have "arrived s = [] \<and> main s = MainFree \<and> threads s = [] \<and> loop_calls s = []" by blast
  with p show "mset (map fst (sent s)) = mset (map r_id qs)" by (simp add: request_places_def main_request_def unposted_def)
qed

section \<open>The right answer\<close>

text \<open>What may be answered to a request.\<close>

definition right_answer :: "apienv \<Rightarrow> api_request \<Rightarrow> answer \<Rightarrow> bool" where
  "right_answer E q a \<longleftrightarrow>
     (if known E (r_route q)
      then a = Finished failed_result \<or> (\<exists>kwargs r. prepared E q = Inr kwargs \<and> answers E (r_route q) kwargs r \<and> a = send_data q (handler_result r))
      else a = Missing)"

definition right_so_far :: "apienv \<Rightarrow> api_request list \<Rightarrow> server \<Rightarrow> bool" where
  "right_so_far E qs s \<longleftrightarrow>
     set (arrived s) \<subseteq> set qs \<and> (\<forall>q \<in> set (main_request s). q \<in> set qs \<and> known E (r_route q)) \<and>
     (\<forall>(q, p) \<in> set (threads s). q \<in> set qs \<and> known E (r_route q) \<and>
        (case p of Handles kwargs \<Rightarrow> prepared E q = Inr kwargs
         | Returned v \<Rightarrow> right_answer E q (send_data q v) | Posted \<Rightarrow> True)) \<and>
     (\<forall>(q, v) \<in> set (loop_calls s). q \<in> set qs \<and> right_answer E q (send_data q v)) \<and>
     (\<forall>(i, a) \<in> set (sent s). \<exists>q \<in> set qs. i = r_id q \<and> (\<forall>b. a = Some b \<longrightarrow> right_answer E q b))"

lemma right_step: "step E s t \<Longrightarrow> right_so_far E qs s \<Longrightarrow> right_so_far E qs t"
proof (induction rule: step.induct)
  case (handle s xs q kwargs ys r)
  then show ?case by (auto simp: right_so_far_def right_answer_def main_request_def)
qed (auto simp: right_so_far_def right_answer_def main_request_def closing_def)

text \<open>C5: no request gets the answer of another: what is sent for a request is what its own handler answered to its own
  parameters, the message that it failed, or that there is no such call.\<close>

theorem answers_are_right:
  assumes "reachable E qs s" "(i, Some a) \<in> set (sent s)"
  shows "\<exists>q \<in> set qs. r_id q = i \<and> right_answer E q a"
proof -
  from assms(1) have "right_so_far E qs s"
  proof (induction rule: reachable.induct)
    case reachable_start then show ?case by (simp add: right_so_far_def server_start_def main_request_def)
  qed (rule right_step)
  with assms(2) show ?thesis by (fastforce simp: right_so_far_def)
qed

section \<open>One lock, one thread\<close>

text \<open>While the web server's thread waits for the lock of a route, no request of any other route is taken and no answer
  that is ready is sent: everybody waits for that one handler.\<close>

theorem waiting_stops_all:
  assumes "main s = MainWaits q" "r_route q \<in> set (locked s)" "step E s t"
  shows "arrived t = arrived s \<and> sent t = sent s \<and> main t = main s"
  using assms(3,1,2) by (cases rule: step.cases) auto

section \<open>Examples\<close>

definition demo_api :: apienv where
  "demo_api = \<lparr>known = (\<lambda>route. route = ''movie.list''), prepared = (\<lambda>q. Inr []),
     answers = (\<lambda>route kwargs r. r = Inr (PDict [(''movies'', PList [])])), hung_up = (\<lambda>i. False)\<rparr>"

definition list_request :: "nat \<Rightarrow> api_request" where
  "list_request i = \<lparr>r_id = i, r_route = ''movie.list'', callback_func = []\<rparr>"

text \<open>The first request is handled, the second waits.\<close>

definition second_waits :: server where
  "second_waits = (server_start [])\<lparr>main := MainWaits (list_request 2), locked := [''movie.list''], threads := [(list_request 1, Handles [])]\<rparr>"

lemma reach_second: "reachable demo_api [list_request 1, list_request 2] second_waits"
proof -
  let ?q1 = "list_request 1" let ?q2 = "list_request 2" let ?s0 = "server_start [?q1, ?q2]"
  have r: "r_route (list_request i) = ''movie.list''" "known demo_api ''movie.list''" "prepared demo_api q = Inr []" for i q
    by (simp_all add: list_request_def demo_api_def)
  have s0: "reachable demo_api [?q1, ?q2] ?s0" by (rule reachable_start)
  have "step demo_api ?s0 (?s0\<lparr>arrived := [] @ [?q2], main := MainWaits ?q1\<rparr>)" by (rule step.take_request) (simp_all add: server_start_def r)
  from reachable_step [OF s0 this] have s1: "reachable demo_api [?q1, ?q2] (?s0\<lparr>arrived := [?q2], main := MainWaits ?q1\<rparr>)" by simp
  let ?s1 = "?s0\<lparr>arrived := [?q2], main := MainWaits ?q1\<rparr>"
  have "step demo_api ?s1 (?s1\<lparr>main := MainHolds ?q1, locked := r_route ?q1 # locked ?s1\<rparr>)" by (rule step.acquire) (simp_all add: server_start_def)
  from reachable_step [OF s1 this] have s2: "reachable demo_api [?q1, ?q2] (?s1\<lparr>main := MainHolds ?q1, locked := r_route ?q1 # locked ?s1\<rparr>)" .
  let ?s2 = "?s1\<lparr>main := MainHolds ?q1, locked := r_route ?q1 # locked ?s1\<rparr>"
  have "step demo_api ?s2 (?s2\<lparr>main := MainFree, threads := threads ?s2 @ [(?q1, Handles [])]\<rparr>)" by (rule step.start) (simp_all add: r)
  note s3 = reachable_step [OF s2 this]
  let ?s3 = "?s2\<lparr>main := MainFree, threads := threads ?s2 @ [(?q1, Handles [])]\<rparr>"
  have "step demo_api ?s3 (?s3\<lparr>arrived := [] @ [], main := MainWaits ?q2\<rparr>)" by (rule step.take_request) (simp_all add: r)
  from reachable_step [OF s3 this] show ?thesis by (simp add: second_waits_def server_start_def r)
qed

theorem one_handler_per_route_witness:
  "distinct (map (r_route \<circ> fst) (threads second_waits)) \<and> ''movie.list'' \<in> set (locked second_waits)"
  using one_handler_per_route [OF reach_second] by (auto simp: second_waits_def)

theorem waiting_stops_all_witness:
  "\<exists>t. step demo_api second_waits t \<and> sent t = sent second_waits \<and> main t = MainWaits (list_request 2)"
proof -
  have "step demo_api second_waits (second_waits\<lparr>threads := [] @ (list_request 1, Returned (handler_result (Inr (PDict [(''movies'', PList [])])))) # []\<rparr>)"
    by (rule step.handle) (simp_all add: second_waits_def demo_api_def)
  moreover note waiting_stops_all [OF _ _ this, of "list_request 2"]
  ultimately show ?thesis by (auto simp: second_waits_def list_request_def)
qed

text \<open>One request, to its answer.\<close>

definition one_answered :: server where
  "one_answered = (server_start [])\<lparr>sent := [(1, Some (Finished (PDict [(''movies'', PList [])])))]\<rparr>"

lemma reach_answered: "reachable demo_api [list_request 1] one_answered"
proof -
  let ?q = "list_request 1" let ?v = "PDict [(''movies'', PList [])]" let ?s0 = "server_start [?q]"
  have r: "r_route (list_request i) = ''movie.list''" "known demo_api ''movie.list''" "prepared demo_api q = Inr []"
    "answers demo_api ''movie.list'' [] (Inr ?v)" for i q
    by (simp_all add: list_request_def demo_api_def)
  let ?s1 = "?s0\<lparr>arrived := [], main := MainWaits ?q\<rparr>"
  let ?s2 = "?s1\<lparr>main := MainHolds ?q, locked := r_route ?q # locked ?s1\<rparr>"
  let ?s3 = "?s2\<lparr>main := MainFree, threads := threads ?s2 @ [(?q, Handles [])]\<rparr>"
  let ?s4 = "?s3\<lparr>threads := [] @ (?q, Returned (handler_result (Inr ?v))) # []\<rparr>"
  let ?s5 = "?s4\<lparr>threads := [] @ (?q, Posted) # [], loop_calls := loop_calls ?s4 @ [(?q, ?v)]\<rparr>"
  let ?s6 = "unlock (r_route ?q) (?s5\<lparr>threads := [] @ []\<rparr>)"
  let ?s7 = "?s6\<lparr>loop_calls := [], sent := sent ?s6 @ [closing demo_api ?q (send_data ?q ?v)]\<rparr>"
  have "step demo_api ?s0 (?s0\<lparr>arrived := [] @ [], main := MainWaits ?q\<rparr>)" by (rule step.take_request) (simp_all add: server_start_def r)
  from reachable_step [OF reachable_start this] have s1: "reachable demo_api [?q] ?s1" by simp
  have "step demo_api ?s1 ?s2" by (rule step.acquire) (simp_all add: server_start_def)
  note s2 = reachable_step [OF s1 this]
  have "step demo_api ?s2 ?s3" by (rule step.start) (simp_all add: r)
  note s3 = reachable_step [OF s2 this]
  have "step demo_api ?s3 ?s4" by (rule step.handle [where kwargs = "[]"]) (simp_all add: r server_start_def)
  note s4 = reachable_step [OF s3 this]
  have "step demo_api ?s4 ?s5" by (rule step.post) (simp_all add: handler_result_def)
  note s5 = reachable_step [OF s4 this]
  have "step demo_api ?s5 ?s6" by (rule step.release) simp
  note s6 = reachable_step [OF s5 this]
  have "step demo_api ?s6 ?s7" by (rule step.send_answer) (simp_all add: server_start_def)
  from reachable_step [OF s6 this] show ?thesis
    by (simp add: one_answered_def server_start_def unlock_def r closing_def send_data_def demo_api_def list_request_def)
qed

lemma nothing_left: "\<not> step demo_api one_answered t"
  by (auto simp: one_answered_def server_start_def elim!: step.cases)

theorem all_answered_witness: "mset (map fst (sent one_answered)) = {#1#}"
proof -
  have "\<forall>route kwargs. \<exists>r. answers demo_api route kwargs r" by (simp add: demo_api_def)
  with all_answered [OF reach_answered] nothing_left show ?thesis by (simp add: list_request_def)
qed

theorem answers_are_right_witness:
  "\<exists>q \<in> set [list_request 1]. r_id q = 1 \<and> right_answer demo_api q (Finished (PDict [(''movies'', PList [])]))"
  by (rule answers_are_right [OF reach_answered]) (simp add: one_answered_def)

end
