(* ===== verification/Spec2Isabelle.thy ===== *)
theory Spec2Isabelle
  imports SoftChroot Settings MovieSearcher Scanner Events UpdateGuard Steady RenamerGuard RenamerMoves DownloadSafety TitleScore Downloader Notifier Dashboard Automation IdStore Api
begin

text \<open>
  CouchPotato Server: a program that keeps a list of wanted movies, searches providers for releases
  of them in the qualities of a profile, hands a release to a download program, and files what was
  downloaded. This library is a model of the Python code under src/ with the theorems that make
  it correct.

  \<^bold>\<open>The program and the theories.\<close> Plugins talk to each other by named events
  (couchpotato/core/event.py over libs/axl/axel.py) and keep their state in one document database.
  In the order in which the theories rest on each other:

  \<^item> \<^theory_text>\<open>Prelude\<close>: exceptions, computations that may raise (\<open>'a res\<close>) and that also change a state
    (\<open>('s, 'a) py\<close>, composed with \<open>bnd\<close>, \<open>catch\<close> and the loops \<open>for_each\<close>, \<open>for_acc\<close> with \<open>break\<close> and
    \<open>continue\<close>), and the locale \<open>frame\<close>: a reflexive and transitive relation every step of a
    program keeps. \<^theory_text>\<open>PyStr\<close>, \<^theory_text>\<open>PyVal\<close> and \<^theory_text>\<open>Regex\<close>: Python's strings, dynamic values and \<open>re\<close>.
  \<^item> \<^theory_text>\<open>Database\<close> (libs/codernitydb3/database.py) and \<^theory_text>\<open>Indexes\<close> (every index class of the plugins):
    documents with revisions, and the queries through \<open>make_key_value\<close>. The locale \<open>doc_store\<close> is the
    contract its clients rely on; it is interpreted on the database and again on \<^theory_text>\<open>World\<close>, which
    adds settings, clock, locks and the trace of the events fired at parts that are not modelled.
  \<^item> \<^theory_text>\<open>ByteFile\<close>, \<^theory_text>\<open>HashIndex\<close>, \<^theory_text>\<open>HashFile\<close> and \<^theory_text>\<open>IdStore\<close> (libs/codernitydb3/hash_index.py, index.py,
    storage.py, rr_cache.py): the files under the table of documents of \<^theory_text>\<open>Database\<close>. \<^theory_text>\<open>ByteFile\<close> has bytes at a
    position and the struct formats, \<^theory_text>\<open>HashIndex\<close> the operations of the id index and, in the locale
    \<open>line_store\<close>, chains of lines in buckets; \<^theory_text>\<open>HashFile\<close> interprets the locale on the bytes and says what each
    operation does to the map a file implements (\<open>intact\<close>), whatever write is refused; \<^theory_text>\<open>IdStore\<close> puts the
    bodies beside it and relates the two files to the table (\<open>represents\<close>).
  \<^item> \<^theory_text>\<open>Settings\<close> (core/settings.py), \<^theory_text>\<open>SoftChroot\<close> (core/softchroot.py), \<^theory_text>\<open>Helpers\<close>
    (core/helpers/variable.py, encoding.py), \<^theory_text>\<open>Disk\<close> (the file checks of core/plugins/base.py).
  \<^item> \<^theory_text>\<open>Quality\<close> and \<^theory_text>\<open>Profile\<close> (core/plugins/quality, profile, category): the qualities, guessing the
    quality of files, the order a profile gives them, profiles and categories.
  \<^item> \<^theory_text>\<open>ReleaseStore\<close>, \<^theory_text>\<open>Media\<close>, \<^theory_text>\<open>MovieBase\<close> and \<^theory_text>\<open>Release\<close> (core/plugins/release/main.py,
    core/media/_base/media/main.py, core/media/__init__.py, core/media/movie/_base/main.py): the
    releases of a movie and their status, the media list, adding and refreshing movies, and what a
    release goes through from the result of a search to the library.
  \<^item> \<^theory_text>\<open>Score\<close>, \<^theory_text>\<open>Searcher\<close> and \<^theory_text>\<open>MovieSearcher\<close> (core/plugins/score,
    core/media/_base/searcher/main.py, core/media/movie/searcher.py): the search itself.
  \<^item> \<^theory_text>\<open>ScanNames\<close> and \<^theory_text>\<open>Scanner\<close> (core/plugins/scanner.py): what a file name says, and the scan of a
    folder into groups of files that belong to one movie.
  \<^item> \<^theory_text>\<open>FileSys\<close>: a file system as a map from paths to entries whose operations follow the \<open>os\<close> and
    \<open>shutil\<close> functions and may be refused. On it \<^theory_text>\<open>RenamerFiles\<close> (moving a file, the tags of a release),
    \<^theory_text>\<open>RenamerNames\<close> (the names of the files of a group), \<^theory_text>\<open>RenamerExtract\<close> (archives), \<^theory_text>\<open>Renamer\<close> (the scan
    from its guards to the clean-up) and \<^theory_text>\<open>CheckSnatched\<close> (what becomes of a release as its download
    goes on), all of core/plugins/renamer.py; \<^theory_text>\<open>Manage\<close> (core/plugins/manage.py): the library update.
    \<^theory_text>\<open>Steady\<close> and \<^theory_text>\<open>RenamerFrame\<close> say once, for every handler, that it keeps a relation kept by its smallest
    steps (the locales \<open>calm\<close> and \<open>rframe\<close>); \<^theory_text>\<open>RenamerFlag\<close>, \<^theory_text>\<open>RenamerGuard\<close>, \<^theory_text>\<open>RenamerMoves\<close> and
    \<^theory_text>\<open>DownloadSafety\<close> use them for four relations.
  \<^item> \<^theory_text>\<open>Web\<close> (core/plugins/base.py, libs/cache): opening pages, with the hosts that are left alone after failures,
    the pause between calls, FlareSolverr and the cache of pages. \<^theory_text>\<open>Library\<close> (core/media/_base/library,
    core/media/movie/library.py): the root, relatives and titles of a media. \<^theory_text>\<open>Provider\<close>
    (core/media/_base/providers/base.py, nzb/base.py): the classes every provider of releases extends, from the
    login to the list of results; what the class of a site overrides is the record \<open>yarr\<close>.
    \<^theory_text>\<open>TitleScore\<close> joins Library and Score.
  \<^item> \<^theory_text>\<open>Downloader\<close> (core/_base/downloader/main.py, core/downloaders/blackhole.py): the class every download client
    extends, with what a client overrides in the record \<open>methods\<close>, its contract as the locale \<open>client_class\<close>, and
    the client that writes to a folder. \<^theory_text>\<open>Notifier\<close> (core/notifications/core/main.py, base.py): the stored
    notifications and the messages browsers wait for. \<^theory_text>\<open>Dashboard\<close> (core/plugins/dashboard.py): the lists of
    movies that come soon and that are late. \<^theory_text>\<open>Automation\<close> (core/plugins/automation.py,
    core/media/movie/providers/automation/base.py): movies that are added from lists.
  \<^item> \<^theory_text>\<open>Events\<close> (core/event.py, libs/axl/axel.py) and \<^theory_text>\<open>UpdateGuard\<close> (update_guard.py, the net under an
    automatic update, a step relation in which any operation can fail and threads interleave), and \<^theory_text>\<open>Api\<close>
    (couchpotato/api.py): the thread of the web server, the threads of the handlers and the locks of the routes, again
    a step relation.

  A definition has the name of the function, method or class it models; a part of a long method that
  is a loop body or a branch of its own has a name of its own.

  \<^bold>\<open>How the code is modelled.\<close> A document, a request and a result are association lists in insertion
  order (\<open>doc\<close>) of dynamic values (\<open>pv\<close>), as dicts are; tables that never leave the program are
  records. Every \<open>raise\<close>, every failing lookup and conversion is a value of \<open>Inl\<close>; a \<open>try\<close> that
  swallows everything is \<open>catch\<close>. A call through \<open>fireEvent\<close> of a handler that is modelled is a
  call of that handler which swallows its exceptions, as the event loop does; an event whose
  handlers are outside the model is \<open>fire\<close>: it is appended to the trace \<open>fired\<close>, and its answer is a
  function \<open>ans\<close> of the trace so far, the name and the arguments, of which nothing is assumed. The flag
  \<open>shuttingDown\<close>, which another thread sets, is read the same way. An \<open>on_complete\<close> closure is the text
  that names it. Locks are entries of a list of the world. New ids and revisions come from supplies;
  the invariant \<open>db_ok\<close> says that no id is drawn twice. What only reads the disk reads a snapshot (\<open>Disk\<close>); the renamer changes one (\<open>FileSys\<close>). A set is a list without
  duplicates in an order \<open>set_order\<close> of which \<open>order_ok\<close> is assumed.

  \<^bold>\<open>Bounds.\<close> Strings are over the 256 code points of Latin-1. Floats are exact rationals: sizes,
  scores and ages are added and compared only, apart from \<open>round2\<close>. Apart from the partial functions named below, all definitions terminate: loops
  are recursions over the list they go through; the regular expression matcher consumes a
  character in every round of a star; \<open>fireEvent\<close> calls itself with \<open>.after\<close> added to a name once
  (\<open>name_bound\<close>); a generator is the list it yields when it is run to its end. The loop in which the library update
  waits for its scans may never end: it has fuel \<open>wait_rounds\<close>, and running out of it is an outcome of its
  own. So has the wait between two calls of a host (\<open>wait_turns\<close>, fuel \<open>patience\<close>, the flag \<open>stuck\<close>), for which a theorem gives a
  number of rounds that is enough. Following the parents of a media, and the chain of a bucket in a file, may run forever: these are
  partial functions into \<open>option\<close>, and theorems say when they return. The tree of a media has the depth Python allows its recursion as an argument;
  beyond it RuntimeError is raised. Positions and sizes in the files have 32 bits; \<open>pack_I\<close> refuses more, as struct does.

  \<^bold>\<open>What the groups of theorems show.\<close> Of the database: a writer with an old revision is refused and
  changes nothing, a query returns exactly the live documents with the key. Of settings and
  chroot: what is read-only stays and what is not named stays, no password is shown, the paths that are shown and the
  absolute paths whose text starts with the directory are mapped to each other. Of qualities and profiles: the
  comparison of two qualities is an order, a guess has the best score, the profiles that are saved or filled in by
  default are well formed (those that are cleaned are not). Of the files of the id index: they refine the
  table of documents, a refused write changes no document, and another hash does not find what was written. Of media and releases: what
  each handler writes and that it writes nothing else, that a movie is not added twice by runs that follow each
  other, that a release the user ignored stays ignored. Of the search: the providers and the downloader
  are asked only when no better release is there, only for results that pass every filter; a provider returns
  only what passed every test, none twice; a host of another network that refuses everything is left alone, a call that
  waits gets its turn, and a page that is in the cache is not asked for. Of the clients around it: what Blackhole writes
  and what it does not, which notifications are marked as read, which movies are on a list, what becomes of an id that
  could not be added. Of the
  scanner: the years it finds, and that grouping loses no film and puts no file into two groups. Of the
  renamer: a file that is moved is where it was or where it should be whatever fails, nothing in the
  library is written over, only listed files are removed, a folder that holds a library is not read (the root folder
  aside, which the guard does not recognise), and a scan that fails leaves the renamer blocked; a downloader is told to remove or to clean up a download
  only when it reported it as failed or complete. Of
  events: the first handler that has a result decides a single event, and the schedule of the threads does not matter
  for handlers that do not change the state. Of the web API: one handler for a route at a time, no deadlock, every request gets one answer, its own. Of the update guard: it refines an abstract guard, the clone is always at
  one of two commits, an update that is never confirmed is taken back, a confirmed one stays.

  \<^bold>\<open>What is not modelled.\<close> Third-party libraries are arguments (guessit, enzyme, subliminal, md5, marshal,
  \<open>realpath\<close>, Python's \<open>hash\<close>, the regular expressions a user writes); the pages of sites and the answers of metadata
  services are answers of external events or of the record \<open>net\<close>. The clients of download programs other than
  Blackhole, and of notification services, send requests and read answers over HTTP and RPC and keep no state of
  their own; the parsers of the sites' pages differ from site to site. Of the renamer the choice of an unrar
  program, access rights and file times are left out. The exceptions of the model are those \<open>except Exception\<close>
  catches: an interrupt or an exit of the interpreter is none. A write to a file of the database is accepted whole or
  refused. Of the database library the B+ trees, the hash index with several
  documents for a key, compaction and the generation of index files are not modelled: \<^theory_text>\<open>Database\<close> keeps what their queries
  return. The parsing of requests by tornado and getParams is an argument of \<^theory_text>\<open>Api\<close>. The loader, the scheduler, the repair of the database and the migration from version 2 are
  input and output, threads and processes around the operations modelled here; the manifest lists them.
\<close>

end
